(* ===== verification/Prelude.thy ===== *)
theory Prelude
  imports Main "HOL-Library.AList" "HOL-Library.Sublist" "HOL-Library.Char_ord" "HOL-Library.List_Lexorder"
begin

text \<open>
  Shared base of the development: Go error values as a datatype, the string routines of Go's
  standard library that the sources call (\<^verbatim>\<open>strings.TrimSpace\<close>, \<^verbatim>\<open>strings.Split\<close>,
  \<^verbatim>\<open>strconv.Itoa\<close>, \<^verbatim>\<open>strconv.Atoi\<close>), Go's fixed-width integer conversions, and
  \<^verbatim>\<open>filepath.Join\<close> on absolute paths held as component lists. Strings are byte strings.
\<close>

named_theorems go_simps \<open>unfolding rules of the Go standard library model\<close>
named_theorems path_simps \<open>evaluation of joined paths on safe components\<close>

section \<open>Errors\<close>

text \<open>
  \<open>Wrap m e\<close> is \<^verbatim>\<open>fmt.Errorf("m: %w", e)\<close>; \<open>Msg\<close> is an error built from text only
  (\<^verbatim>\<open>errors.New\<close>, or \<^verbatim>\<open>fmt.Errorf\<close> without \<^verbatim>\<open>%w\<close>); the remaining constructors are the sentinel
  errors the callers test with \<^verbatim>\<open>errors.Is\<close>.
\<close>

datatype goerr =
    Msg string
  | Wrap string goerr
  | ErrNotExist
  | ErrIO
  | ErrNotDir
  | ErrIsDir
  | ErrNotEmpty
  | ErrJobExists
  | ErrCycleInTriggerGraph

fun errors_Is :: "goerr \<Rightarrow> goerr \<Rightarrow> bool" where
  "errors_Is (Wrap m e) t = (Wrap m e = t \<or> errors_Is e t)"
| "errors_Is e t = (e = t)"

lemma errors_Is_Wrap_sentinel [simp]:
  "errors_Is (Wrap m e) ErrNotExist = errors_Is e ErrNotExist"
  "errors_Is (Wrap m e) ErrJobExists = errors_Is e ErrJobExists"
  "errors_Is (Wrap m e) ErrCycleInTriggerGraph = errors_Is e ErrCycleInTriggerGraph"
  by simp_all

type_synonym 'a res = "goerr + 'a"

section \<open>Strings\<close>

definition ContainsAny :: "string \<Rightarrow> string \<Rightarrow> bool" where
  "ContainsAny s cs \<longleftrightarrow> list_ex (\<lambda>c. c \<in> set cs) s"

definition is_space :: "char \<Rightarrow> bool" where
  "is_space c \<longleftrightarrow> c \<in> {CHR 0x09, CHR 0x0A, CHR 0x0B, CHR 0x0C, CHR 0x0D, CHR '' ''}"

definition TrimSpace :: "string \<Rightarrow> string" where
  "TrimSpace s = rev (dropWhile is_space (rev (dropWhile is_space s)))"

fun Split :: "char \<Rightarrow> string \<Rightarrow> string list" where
  "Split c [] = [[]]"
| "Split c (x # xs) =
     (if x = c then [] # Split c xs
      else (case Split c xs of [] \<Rightarrow> [[x]] | y # ys \<Rightarrow> (x # y) # ys))"

lemma Split_no_sep: "c \<notin> set s \<Longrightarrow> Split c s = [s]"
  by (induction s) auto

lemma Split_not_Nil [simp]: "Split c s \<noteq> []"
  by (induction s) (auto split: list.splits)

lemma Split_no_sep_in: "x \<in> set (Split c s) \<Longrightarrow> c \<notin> set x"
  by (induction s arbitrary: x) (auto split: if_splits list.splits)

section \<open>Decimal integers\<close>

definition is_digit :: "char \<Rightarrow> bool" where
  "is_digit c \<longleftrightarrow> CHR ''0'' \<le> c \<and> c \<le> CHR ''9''"

definition char_between :: "char \<Rightarrow> char \<Rightarrow> char \<Rightarrow> bool" where
  "char_between lo hi c \<longleftrightarrow> lo \<le> c \<and> c \<le> hi"

definition is_letter :: "char \<Rightarrow> bool" where
  "is_letter c \<longleftrightarrow> char_between CHR ''a'' CHR ''z'' c \<or> char_between CHR ''A'' CHR ''Z'' c"

definition digit_char :: "nat \<Rightarrow> char" where
  "digit_char d = char_of (48 + d)"

definition digit_val :: "char \<Rightarrow> nat" where
  "digit_val c = of_char c - 48"

fun nat_digits :: "nat \<Rightarrow> string" where
  "nat_digits n = (if n < 10 then [digit_char n] else nat_digits (n div 10) @ [digit_char (n mod 10)])"

declare nat_digits.simps [simp del]

definition digits_nat :: "string \<Rightarrow> nat" where
  "digits_nat s = foldl (\<lambda>a c. 10 * a + digit_val c) 0 s"

definition max_int :: int where "max_int = 2 ^ 63 - 1"
definition min_int :: int where "min_int = - (2 ^ 63)"

text \<open>\<^verbatim>\<open>strconv.Itoa\<close> and the \<^verbatim>\<open>%d\<close> verb.\<close>

definition Itoa :: "int \<Rightarrow> string" where
  "Itoa n = (if n < 0 then CHR ''-'' # nat_digits (nat (- n)) else nat_digits (nat n))"

text \<open>
  \<^verbatim>\<open>strconv.Atoi\<close> on a 64-bit platform: an optional sign, at least one digit, digits only,
  and a value inside the \<^verbatim>\<open>int\<close> range. \<open>None\<close> is any of its errors.
\<close>

definition Atoi :: "string \<Rightarrow> int option" where
  "Atoi s =
     (let (neg, ds) = (case s of c # cs \<Rightarrow>
                          if c = CHR ''-'' then (True, cs)
                          else if c = CHR ''+'' then (False, cs) else (False, s)
                        | [] \<Rightarrow> (False, []));
          v = (if neg then - int (digits_nat ds) else int (digits_nat ds))
      in if ds = [] \<or> \<not> list_all is_digit ds then None
         else if min_int \<le> v \<and> v \<le> max_int then Some v else None)"

lemma of_char_digit [simp]: "d < 10 \<Longrightarrow> of_char (digit_char d) = (48 + d :: nat)"
  by (simp add: digit_char_def)

lemma digit_val_digit_char [simp]: "d < 10 \<Longrightarrow> digit_val (digit_char d) = d"
  by (simp add: digit_val_def)

lemma is_digit_digit_char [simp]: "d < 10 \<Longrightarrow> is_digit (digit_char d)"
  by (simp add: is_digit_def less_eq_char_def)

lemma nat_digits_all: "list_all is_digit (nat_digits n)"
proof (induction n rule: nat_digits.induct)
  case (1 n)
  then show ?case by (subst nat_digits.simps) simp
qed

lemma nat_digits_ne [simp]: "nat_digits n \<noteq> []"
  by (subst nat_digits.simps) simp

lemma digits_nat_append1 [simp]: "digits_nat (s @ [c]) = 10 * digits_nat s + digit_val c"
  by (simp add: digits_nat_def)

lemma digits_nat_nat_digits [simp]: "digits_nat (nat_digits n) = n"
proof (induction n rule: nat_digits.induct)
  case (1 n)
  show ?case
  proof (cases "n < 10")
    case True
    then show ?thesis by (subst nat_digits.simps) (simp add: digits_nat_def)
  next
    case False
    with 1 show ?thesis by (subst nat_digits.simps) simp
  qed
qed

lemma not_digit_sign: "\<not> is_digit (CHR ''-'')" "\<not> is_digit (CHR ''+'')"
  by (simp_all add: is_digit_def less_eq_char_def)

lemma nat_digits_hd: "nat_digits n = c # cs \<Longrightarrow> c \<noteq> CHR ''-'' \<and> c \<noteq> CHR ''+''"
  using nat_digits_all [of n] not_digit_sign by auto

lemma Atoi_Itoa:
  assumes "min_int \<le> n" "n \<le> max_int"
  shows "Atoi (Itoa n) = Some n"
proof (cases "n < 0")
  case True
  with assms show ?thesis
    using nat_digits_all [of "nat (- n)"] by (simp add: Atoi_def Itoa_def)
next
  case False
  obtain c cs where c: "nat_digits (nat n) = c # cs" by (meson nat_digits_ne neq_Nil_conv)
  have v: "digits_nat (c # cs) = nat n" using digits_nat_nat_digits [of "nat n"] c by simp
  show ?thesis
    using nat_digits_all [of "nat n"] nat_digits_hd [OF c] False assms
    by (simp add: Atoi_def Itoa_def c v)
qed

lemma Itoa_chars: "c \<in> set (Itoa n) \<Longrightarrow> is_digit c \<or> c = CHR ''-''"
  using nat_digits_all [of "nat n"] nat_digits_all [of "nat (- n)"]
  by (auto simp: Itoa_def list_all_iff split: if_splits)

lemma Itoa_inj: "Itoa m = Itoa n \<Longrightarrow> m = n"
proof -
  assume eq: "Itoa m = Itoa n"
  have hd: "\<And>k cs. nat_digits k \<noteq> CHR ''-'' # cs" using nat_digits_hd by blast
  have inj: "\<And>j k. nat_digits j = nat_digits k \<Longrightarrow> j = k"
    by (metis digits_nat_nat_digits)
  show "m = n"
    using eq hd hd [symmetric] by (auto simp: Itoa_def dest!: inj split: if_splits)
qed

lemma TrimSpace_id: "(\<And>c. c \<in> set s \<Longrightarrow> \<not> is_space c) \<Longrightarrow> TrimSpace s = s"
proof -
  assume ns: "\<And>c. c \<in> set s \<Longrightarrow> \<not> is_space c"
  have 1: "dropWhile is_space s = s" using ns by (cases s) auto
  have 2: "dropWhile is_space (rev s) = rev s"
    using ns by (metis dropWhile_eq_self_iff hd_in_set rev_is_Nil_conv set_rev)
  show ?thesis by (simp add: TrimSpace_def 1 2)
qed

lemma digit_not_space: "is_digit c \<Longrightarrow> \<not> is_space c"
  by (auto simp: is_digit_def is_space_def less_eq_char_def)

lemma Itoa_not_space: "c \<in> set (Itoa n) \<Longrightarrow> \<not> is_space c"
  using Itoa_chars [of c n] digit_not_space by (auto simp: is_space_def)

lemma Itoa_ne [simp]: "Itoa n \<noteq> []"
  by (simp add: Itoa_def)

lemma TrimSpace_Itoa_nl [simp]: "TrimSpace (Itoa n @ [CHR 0x0A]) = Itoa n"
proof -
  have nl: "is_space (CHR 0x0A)" by (simp add: is_space_def)
  obtain c cs where c: "Itoa n = c # cs" by (meson Itoa_ne neq_Nil_conv)
  have "\<not> is_space c" using Itoa_not_space [of c n] c by simp
  then have 1: "dropWhile is_space (Itoa n @ [CHR 0x0A]) = Itoa n @ [CHR 0x0A]"
    by (simp add: c)
  have "TrimSpace (Itoa n @ [CHR 0x0A]) = rev (dropWhile is_space (rev (Itoa n)))"
    by (simp add: TrimSpace_def 1 nl)
  also have "\<dots> = rev (dropWhile is_space (rev (dropWhile is_space (Itoa n))))"
    using \<open>\<not> is_space c\<close> by (simp add: c)
  also have "\<dots> = TrimSpace (Itoa n)" by (simp add: TrimSpace_def)
  finally show ?thesis by (simp add: TrimSpace_id Itoa_not_space)
qed

section \<open>Fixed-width integers\<close>

text \<open>Go's \<^verbatim>\<open>int\<close> is 64 bits wide: sums and products wrap. \<^verbatim>\<open>int32(x)\<close> keeps the low 32 bits.\<close>

definition go_int :: "int \<Rightarrow> int" where
  "go_int x = (x + 2 ^ 63) mod 2 ^ 64 - 2 ^ 63"

definition int32 :: "int \<Rightarrow> int" where
  "int32 x = (x + 2 ^ 31) mod 2 ^ 32 - 2 ^ 31"

lemma go_int_id: "min_int \<le> x \<Longrightarrow> x \<le> max_int \<Longrightarrow> go_int x = x"
  by (simp add: go_int_def min_int_def max_int_def)

lemma go_int_range: "min_int \<le> go_int x" "go_int x \<le> max_int"
  by (simp_all add: go_int_def min_int_def max_int_def)

lemma int32_id: "- (2 ^ 31) \<le> x \<Longrightarrow> x < 2 ^ 31 \<Longrightarrow> int32 x = x"
  by (simp add: int32_def)

section \<open>Paths\<close>

text \<open>
  An absolute, cleaned path is the list of its components. \<open>join_path root parts\<close> is
  \<^verbatim>\<open>filepath.Join(root, parts...)\<close>: every part is split at the separator, empty and dot
  components vanish, and a dot-dot removes the component before it (at the root it vanishes).
\<close>

type_synonym path = "string list"

definition clean_comp :: "path \<Rightarrow> string \<Rightarrow> path" where
  "clean_comp acc s =
     (if s = '''' \<or> s = ''.'' then acc else if s = ''..'' then butlast acc else acc @ [s])"

definition join_path :: "path \<Rightarrow> string list \<Rightarrow> path" where
  "join_path root parts = foldl clean_comp root (concat (map (Split (CHR ''/'')) parts))"

definition safe_name :: "string \<Rightarrow> bool" where
  "safe_name n \<longleftrightarrow> n \<noteq> '''' \<and> n \<noteq> ''.'' \<and> n \<noteq> ''..'' \<and> CHR ''/'' \<notin> set n"

text \<open>\<^verbatim>\<open>filepath.IsAbs\<close>.\<close>

definition IsAbs :: "string \<Rightarrow> bool" where
  "IsAbs s \<longleftrightarrow> s \<noteq> '''' \<and> hd s = CHR ''/''"

text \<open>\<^verbatim>\<open>%q\<close>, on text without control characters other than newline and tab.\<close>

definition quoted :: "string \<Rightarrow> string" where
  "quoted s = CHR 0x22 # concat (map (\<lambda>c. if c = CHR 0x22 \<or> c = CHR 0x5C then [CHR 0x5C, c]
     else if c = CHR 0x0A then [CHR 0x5C, CHR ''n''] else if c = CHR 0x09 then [CHR 0x5C, CHR ''t''] else [c]) s) @ [CHR 0x22]"

text \<open>A cleaned absolute path as text.\<close>

definition path_string :: "path \<Rightarrow> string" where
  "path_string p = (if p = [] then ''/'' else concat (map (\<lambda>c. CHR ''/'' # c) p))"

lemma clean_comp_safe [simp]: "safe_name s \<Longrightarrow> clean_comp acc s = acc @ [s]"
  by (simp add: clean_comp_def safe_name_def)

lemma join_path_safe [path_simps]: "list_all safe_name parts \<Longrightarrow> join_path root parts = root @ parts"
proof (induction parts arbitrary: root)
  case Nil
  then show ?case by (simp add: join_path_def)
next
  case (Cons p ps)
  then have "Split (CHR ''/'') p = [p]" by (simp add: Split_no_sep safe_name_def)
  moreover have "join_path (root @ [p]) ps = (root @ [p]) @ ps" using Cons by simp
  ultimately show ?case using Cons.prems by (simp add: join_path_def)
qed

lemma safe_name_Itoa [simp, path_simps]: "safe_name (Itoa n)"
proof -
  have sl: "\<not> is_digit (CHR ''/'')" "\<not> is_digit (CHR ''.'')"
    by (simp_all add: is_digit_def less_eq_char_def)
  have "CHR ''/'' \<notin> set (Itoa n)" "CHR ''.'' \<notin> set (Itoa n)"
    using Itoa_chars sl by blast+
  then show ?thesis by (auto simp: safe_name_def)
qed

lemma butlast_self [simp]: "butlast p = p \<longleftrightarrow> p = []"
  by (cases p rule: rev_cases) auto

section \<open>Association lists as Go maps\<close>

text \<open>
  A Go map whose iteration order the code exposes is an association list; assignment is
  \<open>AList.update\<close>, \<^verbatim>\<open>delete\<close> is \<open>AList.delete\<close>, a lookup is \<open>map_of\<close>.
\<close>

lemma map_of_update [simp]: "map_of (AList.update k v al) x = (if x = k then Some v else map_of al x)"
  by (simp add: update_conv')

lemma map_of_delete [simp]: "map_of (AList.delete k al) x = (if x = k then None else map_of al x)"
  by (simp add: delete_conv')

lemma keys_update: "fst ` set (AList.update k v al) = insert k (fst ` set al)"
  by (simp add: dom_update)

lemma keys_delete: "fst ` set (AList.delete k al) = fst ` set al - {k}"
  by (auto simp: delete_keys [symmetric] AList.delete_eq)

section \<open>Runs of a step relation\<close>

text \<open>\<open>runs step s tr s'\<close>: the events \<open>tr\<close> lead from \<open>s\<close> to \<open>s'\<close>.\<close>

inductive runs :: "('s \<Rightarrow> 'e \<Rightarrow> 's \<Rightarrow> bool) \<Rightarrow> 's \<Rightarrow> 'e list \<Rightarrow> 's \<Rightarrow> bool" for step where
  runs_Nil: "runs step s [] s"
| runs_Cons: "step s e t \<Longrightarrow> runs step t tr u \<Longrightarrow> runs step s (e # tr) u"

inductive_cases runs_NilE: "runs step s [] t"
inductive_cases runs_ConsE: "runs step s (e # tr) t"

inductive_simps runs_simps [simp]: "runs step s [] t" "runs step s (e # tr) t"

lemma runs_append: "runs step s tr t \<Longrightarrow> runs step t tr' u \<Longrightarrow> runs step s (tr @ tr') u"
  by (induction rule: runs.induct) auto

lemma runs_split:
  "runs step s tr t \<Longrightarrow> e \<in> set tr \<Longrightarrow>
     \<exists>tr1 tr2 u v. tr = tr1 @ e # tr2 \<and> runs step s tr1 u \<and> step u e v \<and> runs step v tr2 t"
proof (induction rule: runs.induct)
  case (runs_Cons s a u tr t)
  show ?case
  proof (cases "a = e")
    case True
    with runs_Cons.hyps show ?thesis by (metis append_Nil runs_Nil)
  next
    case False
    with runs_Cons obtain tr1 tr2 x y where "tr = tr1 @ e # tr2" "runs step u tr1 x" "step x e y" "runs step y tr2 t" by auto
    with runs_Cons.hyps(1) have "a # tr = (a # tr1) @ e # tr2 \<and> runs step s (a # tr1) x \<and> step x e y \<and> runs step y tr2 t" by auto
    then show ?thesis by blast
  qed
qed simp

text \<open>
  An invariant with a budget: \<open>inv n\<close> leaves room for \<open>n\<close> more steps (the room is spent by counters of
  fixed width; an invariant that needs none ignores it).
\<close>

locale budget_system =
  fixes step :: "'s \<Rightarrow> 'e \<Rightarrow> 's \<Rightarrow> bool" and inv :: "nat \<Rightarrow> 's \<Rightarrow> bool"
  assumes inv_step: "step s e t \<Longrightarrow> inv (Suc n) s \<Longrightarrow> inv n t"
begin

lemma inv_runs: "runs step s tr t \<Longrightarrow> inv (length tr + n) s \<Longrightarrow> inv n t"
  by (induction rule: runs.induct) (auto dest: inv_step)

lemma stable_runs:
  assumes "\<And>s e t n. step s e t \<Longrightarrow> inv (Suc n) s \<Longrightarrow> P s \<Longrightarrow> P t"
  shows "runs step s tr t \<Longrightarrow> inv (length tr + n) s \<Longrightarrow> P s \<Longrightarrow> P t"
  by (induction rule: runs.induct) (auto dest: inv_step assms)

text \<open>What a step establishes and all later steps keep holds at the end of a run with that step.\<close>

lemma event_runs:
  assumes "\<And>s e t n. step s e t \<Longrightarrow> inv (Suc n) s \<Longrightarrow> P s \<Longrightarrow> P t"
    and "\<And>s t n. step s e t \<Longrightarrow> inv (Suc n) s \<Longrightarrow> P t"
    and "runs step s tr t" "e \<in> set tr" "inv (length tr) s"
  shows "P t"
proof -
  from runs_split [OF assms(3,4)] obtain tr1 tr2 u v where sp: "tr = tr1 @ e # tr2" "runs step s tr1 u" "step u e v"
    "runs step v tr2 t" by blast
  have "inv (Suc (length tr2)) u" using inv_runs [OF sp(2), of "Suc (length tr2)"] assms(5) sp(1) by simp
  with inv_step [OF sp(3)] assms(2) [OF sp(3)] have "inv (length tr2) v" "P v" by auto
  with stable_runs [where P = P and n = 0, OF assms(1) sp(4)] show ?thesis by simp
qed

end

text \<open>
  Steps that give out identifiers: \<open>used\<close> collects the identifiers a state knows, an event gives out
  the ones in \<open>news\<close>, each unused so far. No identifier is given out twice in a run.
\<close>

locale naming_system = budget_system step inv
  for step :: "'s \<Rightarrow> 'e \<Rightarrow> 's \<Rightarrow> bool" and inv :: "nat \<Rightarrow> 's \<Rightarrow> bool" +
  fixes used :: "'s \<Rightarrow> 'k set" and news :: "'e \<Rightarrow> 'k list"
  assumes used_step: "step s e t \<Longrightarrow> inv (Suc n) s \<Longrightarrow> used t = used s \<union> set (news e)"
    and news_fresh: "step s e t \<Longrightarrow> inv (Suc n) s \<Longrightarrow> distinct (news e) \<and> set (news e) \<inter> used s = {}"
begin

lemma used_runs:
  "runs step s tr t \<Longrightarrow> inv (length tr + n) s \<Longrightarrow>
     used t = used s \<union> set (concat (map news tr)) \<and> distinct (concat (map news tr))
     \<and> set (concat (map news tr)) \<inter> used s = {}"
proof (induction arbitrary: n rule: runs.induct)
  case (runs_Cons s e t tr u)
  then have inv: "inv (Suc (length tr + n)) s" by simp
  note st = used_step [OF runs_Cons.hyps(1) inv] news_fresh [OF runs_Cons.hyps(1) inv]
  from runs_Cons.IH [OF inv_step [OF runs_Cons.hyps(1) inv]] st show ?case by auto
qed simp

end

text \<open>A system with a queue: events put elements at its end and take them from its front.\<close>

locale fifo_system =
  fixes step :: "'s \<Rightarrow> 'e \<Rightarrow> 's \<Rightarrow> bool" and content :: "'s \<Rightarrow> 'x list"
    and puts :: "'e \<Rightarrow> 'x list" and takes :: "'e \<Rightarrow> 'x list"
  assumes fifo_step: "step s e t \<Longrightarrow> content s @ puts e = takes e @ content t"
begin

lemma fifo_runs:
  "runs step s tr t \<Longrightarrow> content s @ concat (map puts tr) = concat (map takes tr) @ content t"
proof (induction rule: runs.induct)
  case (runs_Cons s e t tr u)
  have "content s @ concat (map puts (e # tr)) = takes e @ content t @ concat (map puts tr)"
    using fifo_step [OF runs_Cons.hyps(1)] by (metis append.assoc concat.simps(2) list.simps(9))
  with runs_Cons.IH show ?case by simp
qed simp

end

end
