(* ===== verification/GoFs.thy ===== *)
theory GoFs
  imports Prelude
begin

text \<open>
  The part of Go's \<^verbatim>\<open>os\<close> package the sources use, over an explicit file system. A \<open>world\<close> holds
  the tree, the wall clock, and a fault oracle: \<open>fault op p\<close> makes the call \<open>op\<close> on path \<open>p\<close> fail, so
  that every error branch of a caller is a branch of its model; a failing write keeps the first
  \<open>torn p\<close> bytes. Fallible code is \<open>'a io\<close>, a function from a world to an error or a result and
  the world left behind. \<^verbatim>\<open>flock\<close> makes each operation one atomic step and can itself fail.
\<close>

named_theorems io_simps \<open>inversion of successful I/O programs\<close>
named_theorems fs_view \<open>effect of the primitives on the view \<open>fs_get\<close>\<close>

datatype node = DirN int | FileN string int

datatype fsop = OpMkdirAll | OpOpen | OpFlock | OpTruncate | OpSeek | OpWrite | OpClose | OpRead
  | OpReadDir | OpStat | OpRemove | OpRemoveAll | OpRename | OpCreateTemp | OpChmod

record world =
  files :: "(path \<times> node) list"
  clock :: int
  fault :: "fsop \<Rightarrow> path \<Rightarrow> bool"
  torn :: "path \<Rightarrow> nat"

text \<open>\<^verbatim>\<open>time.Time{}\<close>, the first instant of year 1, in nanoseconds.\<close>

definition zero_time :: int where "zero_time = - 62135596800 * 1000000000"

type_synonym 'a io = "world \<Rightarrow> 'a res \<times> world"

section \<open>Sequencing\<close>

definition returnIO :: "'a \<Rightarrow> 'a io" where "returnIO x w = (Inr x, w)"

definition raiseIO :: "goerr \<Rightarrow> 'a io" where "raiseIO e w = (Inl e, w)"

definition bindIO :: "'a io \<Rightarrow> ('a \<Rightarrow> 'b io) \<Rightarrow> 'b io" where
  "bindIO m f w = (case m w of (Inl e, w') \<Rightarrow> (Inl e, w') | (Inr x, w') \<Rightarrow> f x w')"

definition seqIO :: "'a io \<Rightarrow> 'b io \<Rightarrow> 'b io" where
  "seqIO m k = bindIO m (\<lambda>_. k)"

text \<open>\<open>wrapIO s m\<close>: \<^verbatim>\<open>if err != nil { return fmt.Errorf("s: %w", err) }\<close>.\<close>

definition wrapIO :: "string \<Rightarrow> 'a io \<Rightarrow> 'a io" where
  "wrapIO s m w = (case m w of (Inl e, w') \<Rightarrow> (Inl (Wrap s e), w') | r \<Rightarrow> r)"

text \<open>\<open>attempt m\<close> hands the error to the continuation, for code that inspects \<^verbatim>\<open>err\<close>.\<close>

definition attempt :: "'a io \<Rightarrow> 'a res io" where
  "attempt m w = (case m w of (r, w') \<Rightarrow> (Inr r, w'))"

lemmas io_defs = returnIO_def raiseIO_def bindIO_def seqIO_def wrapIO_def attempt_def

lemma returnIO_Inr [io_simps]: "returnIO x w = (Inr y, w') \<longleftrightarrow> y = x \<and> w' = w"
  by (auto simp: returnIO_def)

lemma raiseIO_Inr [io_simps]: "raiseIO e w \<noteq> (Inr y, w')"
  by (simp add: raiseIO_def)

lemma bindIO_Inr [io_simps]:
  "bindIO m f w = (Inr y, w'') \<longleftrightarrow> (\<exists>x w'. m w = (Inr x, w') \<and> f x w' = (Inr y, w''))"
  by (auto simp: bindIO_def split: prod.splits sum.splits)

lemma seqIO_Inr [io_simps]:
  "seqIO m k w = (Inr y, w'') \<longleftrightarrow> (\<exists>x w'. m w = (Inr x, w') \<and> k w' = (Inr y, w''))"
  by (simp add: seqIO_def bindIO_Inr)

lemma wrapIO_Inr [io_simps]: "wrapIO s m w = (Inr y, w') \<longleftrightarrow> m w = (Inr y, w')"
  by (auto simp: wrapIO_def split: prod.splits sum.splits)

lemma attempt_Inr [io_simps]: "attempt m w = (Inr r, w') \<longleftrightarrow> m w = (r, w')"
  by (auto simp: attempt_def split: prod.splits)

text \<open>\<open>never t m\<close>: no error of \<open>m\<close> matches the sentinel \<open>t\<close> under \<^verbatim>\<open>errors.Is\<close>.\<close>

definition never :: "goerr \<Rightarrow> 'a io \<Rightarrow> bool" where
  "never t m \<longleftrightarrow> (\<forall>w e w'. m w = (Inl e, w') \<longrightarrow> \<not> errors_Is e t)"

named_theorems never_intros \<open>sentinel-freeness of I/O programs\<close>

lemma never_seqIO [never_intros]: "never t m \<Longrightarrow> never t k \<Longrightarrow> never t (seqIO m k)"
  by (auto simp: never_def seqIO_def bindIO_def split: prod.splits sum.splits)

lemma never_wrapIO [never_intros]: "never t m \<Longrightarrow> t = ErrCycleInTriggerGraph \<or> t = ErrJobExists \<Longrightarrow> never t (wrapIO s m)"
  by (auto simp: never_def wrapIO_def split: prod.splits sum.splits)

lemma neverD: "never t m \<Longrightarrow> m w = (Inl e, w') \<Longrightarrow> \<not> errors_Is e t"
  by (auto simp: never_def)

section \<open>The tree\<close>

definition fs_get :: "world \<Rightarrow> path \<Rightarrow> node option" where
  "fs_get w = map_of (files w)"

definition fs_put :: "path \<Rightarrow> node \<Rightarrow> world \<Rightarrow> world" where
  "fs_put p n w = w\<lparr>files := AList.update p n (files w)\<rparr>"

definition fs_del :: "path \<Rightarrow> world \<Rightarrow> world" where
  "fs_del p w = w\<lparr>files := AList.delete p (files w)\<rparr>"

fun node_dir :: "node \<Rightarrow> bool" where
  "node_dir (DirN t) = True"
| "node_dir (FileN b t) = False"

fun mtime :: "node \<Rightarrow> int" where
  "mtime (DirN t) = t"
| "mtime (FileN b t) = t"

definition is_dir :: "world \<Rightarrow> path \<Rightarrow> bool" where
  "is_dir w p \<longleftrightarrow> p = [] \<or> (case fs_get w p of Some n \<Rightarrow> node_dir n | None \<Rightarrow> False)"

definition file_at :: "world \<Rightarrow> path \<Rightarrow> string option" where
  "file_at w p = (case fs_get w p of Some (FileN b t) \<Rightarrow> Some b | _ \<Rightarrow> None)"

lemma fs_get_put [simp, fs_view]: "fs_get (fs_put p n w) q = (if q = p then Some n else fs_get w q)"
  by (simp add: fs_get_def fs_put_def)

lemma fs_get_del [simp, fs_view]: "fs_get (fs_del p w) q = (if q = p then None else fs_get w q)"
  by (simp add: fs_get_def fs_del_def)

lemma world_frame [simp]:
  "clock (fs_put p n w) = clock w" "fault (fs_put p n w) = fault w" "torn (fs_put p n w) = torn w"
  "clock (fs_del p w) = clock w" "fault (fs_del p w) = fault w" "torn (fs_del p w) = torn w"
  by (simp_all add: fs_put_def fs_del_def)

section \<open>System calls\<close>

fun mk_dirs :: "path list \<Rightarrow> unit io" where
  "mk_dirs [] w = (Inr (), w)"
| "mk_dirs (q # qs) w =
     (case fs_get w q of
        None \<Rightarrow> mk_dirs qs (fs_put q (DirN (clock w)) w)
      | Some n \<Rightarrow> if node_dir n then mk_dirs qs w else (Inl ErrNotDir, w))"

definition os_MkdirAll :: "path \<Rightarrow> unit io" where
  "os_MkdirAll p w = (if fault w OpMkdirAll p then (Inl ErrIO, w) else mk_dirs (tl (prefixes p)) w)"

definition os_Stat :: "path \<Rightarrow> node io" where
  "os_Stat p w =
     (if fault w OpStat p then (Inl ErrIO, w)
      else case fs_get w p of None \<Rightarrow> (Inl ErrNotExist, w) | Some n \<Rightarrow> (Inr n, w))"

text \<open>\<^verbatim>\<open>os.Open\<close>, and \<^verbatim>\<open>os.OpenFile\<close> with \<^verbatim>\<open>O_RDWR|O_CREATE\<close>; the handle is the path.\<close>

definition os_Open :: "path \<Rightarrow> unit io" where
  "os_Open p w =
     (if fault w OpOpen p then (Inl ErrIO, w)
      else case fs_get w p of None \<Rightarrow> (Inl ErrNotExist, w) | Some n \<Rightarrow> (Inr (), w))"

definition os_OpenFile_create :: "path \<Rightarrow> unit io" where
  "os_OpenFile_create p w =
     (if fault w OpOpen p then (Inl ErrIO, w)
      else if \<not> is_dir w (butlast p) then (Inl ErrNotExist, w)
      else case fs_get w p of
             None \<Rightarrow> (Inr (), fs_put p (FileN '''' (clock w)) w)
           | Some n \<Rightarrow> if node_dir n then (Inl ErrIsDir, w) else (Inr (), w))"

definition f_Flock :: "path \<Rightarrow> unit io" where
  "f_Flock p w = (if fault w OpFlock p then (Inl ErrIO, w) else (Inr (), w))"

definition f_Truncate :: "path \<Rightarrow> unit io" where
  "f_Truncate p w =
     (if fault w OpTruncate p then (Inl ErrIO, w) else (Inr (), fs_put p (FileN '''' (clock w)) w))"

definition f_Seek :: "path \<Rightarrow> unit io" where
  "f_Seek p w = (if fault w OpSeek p then (Inl ErrIO, w) else (Inr (), w))"

definition f_Close :: "path \<Rightarrow> unit io" where
  "f_Close p w = (if fault w OpClose p then (Inl ErrIO, w) else (Inr (), w))"

definition f_Write :: "path \<Rightarrow> string \<Rightarrow> unit io" where
  "f_Write p data w =
     (let old = (case file_at w p of None \<Rightarrow> '''' | Some b \<Rightarrow> b)
      in if fault w OpWrite p
         then (Inl ErrIO, fs_put p (FileN (old @ take (torn w p) data) (clock w)) w)
         else (Inr (), fs_put p (FileN (old @ data) (clock w)) w))"

definition f_ReadAll :: "path \<Rightarrow> string io" where
  "f_ReadAll p w =
     (if fault w OpRead p then (Inl ErrIO, w)
      else case fs_get w p of
             Some (FileN b t) \<Rightarrow> (Inr b, w)
           | Some (DirN t) \<Rightarrow> (Inl ErrIsDir, w)
           | None \<Rightarrow> (Inl ErrNotExist, w))"

definition os_ReadFile :: "path \<Rightarrow> string io" where
  "os_ReadFile p = seqIO (os_Open p) (f_ReadAll p)"

definition os_WriteFile :: "path \<Rightarrow> string \<Rightarrow> unit io" where
  "os_WriteFile p data =
     seqIO (os_OpenFile_create p) (seqIO (f_Truncate p) (seqIO (f_Write p data) (f_Close p)))"

text \<open>\<^verbatim>\<open>os.ReadDir\<close>: the entries of a directory, sorted by name, each with its \<^verbatim>\<open>IsDir\<close> flag.\<close>

definition entry_names :: "world \<Rightarrow> path \<Rightarrow> string list" where
  "entry_names w p =
     sort (remdups (map last (filter (\<lambda>q. q \<noteq> [] \<and> butlast q = p) (map fst (files w)))))"

definition os_ReadDir :: "path \<Rightarrow> (string \<times> bool) list io" where
  "os_ReadDir p w =
     (if fault w OpReadDir p then (Inl ErrIO, w)
      else if p \<noteq> [] \<and> fs_get w p = None then (Inl ErrNotExist, w)
      else if \<not> is_dir w p then (Inl ErrNotDir, w)
      else (Inr (map (\<lambda>n. (n, is_dir w (p @ [n]))) (entry_names w p)), w))"

definition os_Remove :: "path \<Rightarrow> unit io" where
  "os_Remove p w =
     (if fault w OpRemove p then (Inl ErrIO, w)
      else case fs_get w p of
             None \<Rightarrow> (Inl ErrNotExist, w)
           | Some n \<Rightarrow> if node_dir n \<and> entry_names w p \<noteq> [] then (Inl ErrNotEmpty, w)
                       else (Inr (), fs_del p w))"

definition os_RemoveAll :: "path \<Rightarrow> unit io" where
  "os_RemoveAll p w =
     (if fault w OpRemoveAll p then (Inl ErrIO, w)
      else (Inr (), w\<lparr>files := filter (\<lambda>(q, n). \<not> prefix p q) (files w)\<rparr>))"

text \<open>
  \<^verbatim>\<open>os.Rename\<close> of a tree: the source must exist, the target's parent must be a directory, and an
  existing target must be a file (for a file) or an empty directory (for a directory).
\<close>

definition rebase :: "path \<Rightarrow> path \<Rightarrow> path \<Rightarrow> path" where
  "rebase p q r = (if prefix p r then q @ drop (length p) r else r)"

definition os_Rename :: "path \<Rightarrow> path \<Rightarrow> unit io" where
  "os_Rename p q w =
     (if fault w OpRename p then (Inl ErrIO, w)
      else case fs_get w p of
        None \<Rightarrow> (Inl ErrNotExist, w)
      | Some n \<Rightarrow>
          if \<not> is_dir w (butlast q) then (Inl ErrNotExist, w)
          else if q = p then (Inr (), w)
          else if node_dir n \<and> prefix p q then (Inl ErrIO, w)
          else (case fs_get w q of
                  Some m \<Rightarrow> if node_dir m \<noteq> node_dir n then (Inl (if node_dir n then ErrNotDir else ErrIsDir), w)
                            else if node_dir m \<and> entry_names w q \<noteq> [] then (Inl ErrNotEmpty, w)
                            else (Inr (), w\<lparr>files := map (\<lambda>(r, x). (rebase p q r, x))
                                                      (AList.delete q (files w))\<rparr>)
                | None \<Rightarrow> (Inr (), w\<lparr>files := map (\<lambda>(r, x). (rebase p q r, x)) (files w)\<rparr>)))"

text \<open>A world in which no call fails for a reason outside the tree.\<close>

definition no_faults :: "world \<Rightarrow> bool" where
  "no_faults w \<longleftrightarrow> (\<forall>op p. \<not> fault w op p)"

section \<open>Effects of the system calls\<close>

lemma mk_dirs_get:
  "mk_dirs ps w = (r, w') \<Longrightarrow>
     fs_get w' q = (if q \<in> set ps \<and> fs_get w q = None \<and> fs_get w' q \<noteq> None
                    then Some (DirN (clock w)) else fs_get w q)
     \<and> clock w' = clock w \<and> fault w' = fault w \<and> torn w' = torn w"
proof (induction ps arbitrary: w)
  case (Cons p ps)
  show ?case
  proof (cases "fs_get w p")
    case None
    with Cons.prems have "mk_dirs ps (fs_put p (DirN (clock w)) w) = (r, w')" by simp
    from Cons.IH [OF this] None show ?thesis by (auto split: if_splits)
  next
    case (Some n)
    with Cons.prems Cons.IH [of w] show ?thesis by (auto split: if_splits)
  qed
qed auto

lemma mk_dirs_err: "mk_dirs ps w = (Inl e, w') \<Longrightarrow> e = ErrNotDir"
  by (induction ps arbitrary: w) (auto split: option.splits if_splits)

lemma never_handles [never_intros]:
  assumes "t = ErrCycleInTriggerGraph \<or> t = ErrJobExists"
  shows "never t (os_MkdirAll p)" "never t (os_OpenFile_create p)" "never t (f_Flock p)"
    "never t (f_Truncate p)" "never t (f_Seek p)" "never t (f_Write p d)" "never t (f_Close p)"
  using assms
  by (auto simp: never_def os_MkdirAll_def os_OpenFile_create_def f_Flock_def f_Truncate_def f_Seek_def
      f_Write_def f_Close_def Let_def dest!: mk_dirs_err split: if_splits option.splits)

lemma mk_dirs_dirs:
  "mk_dirs ps w = (Inr u, w') \<Longrightarrow> q \<in> set ps \<Longrightarrow> is_dir w' q"
proof (induction ps arbitrary: w)
  case (Cons p ps)
  show ?case
  proof (cases "fs_get w p")
    case None
    with Cons.prems have m: "mk_dirs ps (fs_put p (DirN (clock w)) w) = (Inr u, w')" by simp
    have "is_dir w' p" using mk_dirs_get [OF m, of p] by (auto simp: is_dir_def)
    with Cons.IH [OF m] Cons.prems show ?thesis by auto
  next
    case (Some n)
    with Cons.prems have m: "mk_dirs ps w = (Inr u, w')" and n: "node_dir n" by (auto split: if_splits)
    have "is_dir w' p" using mk_dirs_get [OF m, of p] Some n by (auto simp: is_dir_def)
    with Cons.IH [OF m] Cons.prems show ?thesis by auto
  qed
qed simp

lemma MkdirAll_frame:
  assumes "os_MkdirAll p w = (r, w')"
  shows "file_at w' = file_at w" "clock w' = clock w" "fault w' = fault w" "torn w' = torn w"
    "\<And>q n. fs_get w q = Some n \<Longrightarrow> fs_get w' q = Some n"
    "\<And>q n. fs_get w' q = Some n \<Longrightarrow> fs_get w q = Some n \<or> (prefix q p \<and> n = DirN (clock w))"
proof -
  have m: "r = Inl ErrIO \<and> w' = w \<or> mk_dirs (tl (prefixes p)) w = (r, w')"
    using assms by (auto simp: os_MkdirAll_def split: if_splits)
  have "set (tl (prefixes p)) \<subseteq> {q. prefix q p}"
    using in_set_prefixes [of _ p] by (metis list.set_sel(2) mem_Collect_eq subsetI tl_Nil)
  then show
    "\<And>q n. fs_get w' q = Some n \<Longrightarrow> fs_get w q = Some n \<or> (prefix q p \<and> n = DirN (clock w))"
    using m mk_dirs_get by (smt (verit) mem_Collect_eq option.inject subsetD)
  show "clock w' = clock w" "fault w' = fault w" "torn w' = torn w"
    using m mk_dirs_get by blast+
  show keep: "\<And>q n. fs_get w q = Some n \<Longrightarrow> fs_get w' q = Some n"
    using m mk_dirs_get by (metis option.distinct(1))
  show "file_at w' = file_at w"
  proof
    fix q
    show "file_at w' q = file_at w q"
    proof (cases "fs_get w q")
      case None
      then show ?thesis
        using m mk_dirs_get [of "tl (prefixes p)" w r w' q]
        by (auto simp: file_at_def split: if_splits option.splits)
    next
      case (Some n)
      with keep show ?thesis by (simp add: file_at_def)
    qed
  qed
qed

lemma MkdirAll_other:
  assumes "os_MkdirAll p w = (r, w')" "\<not> prefix q p"
  shows "fs_get w' q = fs_get w q"
proof (cases "fs_get w q")
  case None
  then show ?thesis using MkdirAll_frame(6) [OF assms(1), of q] assms(2) by (cases "fs_get w' q") auto
next
  case (Some n)
  then show ?thesis using MkdirAll_frame(5) [OF assms(1)] by simp
qed

lemma MkdirAll_is_dir: "os_MkdirAll p w = (Inr u, w') \<Longrightarrow> is_dir w' p"
proof (cases "p = []")
  case False
  assume "os_MkdirAll p w = (Inr u, w')"
  then have "mk_dirs (tl (prefixes p)) w = (Inr u, w')"
    by (auto simp: os_MkdirAll_def split: if_splits)
  moreover have "p \<in> set (tl (prefixes p))"
    using False in_set_prefixes [of p p] by (cases p) auto
  ultimately show ?thesis by (rule mk_dirs_dirs)
qed (simp add: is_dir_def)

lemma Stat_world: "os_Stat p w = (r, w') \<Longrightarrow> w' = w"
  by (auto simp: os_Stat_def split: if_splits option.splits)

lemma ReadFile_world: "os_ReadFile p w = (r, w') \<Longrightarrow> w' = w"
  by (auto simp: os_ReadFile_def os_Open_def f_ReadAll_def io_defs
      split: if_splits option.splits node.splits)

lemma ReadFile_Inr: "os_ReadFile p w = (Inr b, w') \<Longrightarrow> file_at w p = Some b"
  by (auto simp: os_ReadFile_def os_Open_def f_ReadAll_def io_defs file_at_def
      split: if_splits option.splits node.splits)

lemma ReadFile_ok:
  "file_at w p = Some b \<Longrightarrow> \<not> fault w OpOpen p \<Longrightarrow> \<not> fault w OpRead p \<Longrightarrow> os_ReadFile p w = (Inr b, w)"
  by (auto simp: os_ReadFile_def os_Open_def f_ReadAll_def io_defs file_at_def
      split: option.splits node.splits)

lemma OpenFile_create_get:
  "os_OpenFile_create p w = (Inr u, w') \<Longrightarrow>
     w' = w \<and> (\<exists>b t. fs_get w p = Some (FileN b t))
     \<or> w' = fs_put p (FileN '''' (clock w)) w \<and> fs_get w p = None \<and> is_dir w (butlast p)"
  by (auto simp: os_OpenFile_create_def split: if_splits option.splits node.splits)
    (metis node.exhaust node_dir.simps(1))

lemma f_Write_Inr:
  "f_Write p data w = (Inr u, w') \<Longrightarrow>
     w' = fs_put p (FileN ((case file_at w p of None \<Rightarrow> '''' | Some b \<Rightarrow> b) @ data) (clock w)) w"
  by (auto simp: f_Write_def Let_def split: if_splits)

lemma f_Truncate_Inr: "f_Truncate p w = (Inr u, w') \<Longrightarrow> w' = fs_put p (FileN '''' (clock w)) w"
  by (auto simp: f_Truncate_def split: if_splits)

lemma handle_noop:
  "f_Flock p w = (r, w') \<Longrightarrow> w' = w" "f_Seek p w = (r, w') \<Longrightarrow> w' = w" "f_Close p w = (r, w') \<Longrightarrow> w' = w"
  "os_Open p w = (r, w') \<Longrightarrow> w' = w" "f_ReadAll p w = (s, w') \<Longrightarrow> w' = w"
  "os_ReadDir p w = (l, w') \<Longrightarrow> w' = w"
  by (auto simp: f_Flock_def f_Seek_def f_Close_def os_Open_def f_ReadAll_def os_ReadDir_def
      split: if_splits option.splits node.splits)

lemma set_entry_names: "n \<in> set (entry_names w p) \<longleftrightarrow> fs_get w (p @ [n]) \<noteq> None"
proof -
  have "n \<in> set (entry_names w p) \<longleftrightarrow> (\<exists>q \<in> fst ` set (files w). q \<noteq> [] \<and> butlast q = p \<and> n = last q)"
    by (auto simp: entry_names_def)
  also have "\<dots> \<longleftrightarrow> p @ [n] \<in> fst ` set (files w)"
    by (metis append_butlast_last_id butlast_snoc last_snoc snoc_eq_iff_butlast)
  finally show ?thesis by (simp add: fs_get_def map_of_eq_None_iff)
qed

lemma sorted_entry_names: "sorted (entry_names w p)" "distinct (entry_names w p)"
  by (simp_all add: entry_names_def)

lemma RemoveAll_get:
  "os_RemoveAll p w = (Inr u, w') \<Longrightarrow>
     fs_get w' q = (if prefix p q then None else fs_get w q)
     \<and> clock w' = clock w \<and> fault w' = fault w \<and> torn w' = torn w"
proof -
  assume "os_RemoveAll p w = (Inr u, w')"
  then have w': "w' = w\<lparr>files := filter (\<lambda>(q, n). \<not> prefix p q) (files w)\<rparr>"
    by (auto simp: os_RemoveAll_def split: if_splits)
  have "map_of (filter (\<lambda>(q, n). \<not> prefix p q) al) q = (if prefix p q then None else map_of al q)" for al :: "(path \<times> node) list"
    by (induction al) auto
  from this [of "files w"] show ?thesis by (simp only: w' fs_get_def) simp
qed


lemma map_of_rebase_other:
  "\<not> prefix q r \<Longrightarrow> \<not> prefix p r \<Longrightarrow> map_of (map (\<lambda>(r, x). (rebase p q r, x)) al) r = map_of al r"
  by (induction al) (auto simp: rebase_def)

lemma map_of_rebase_moved:
  "(\<And>s. map_of al (q @ s) = None) \<Longrightarrow>
   map_of (map (\<lambda>(r, x). (rebase p q r, x)) al) (q @ s) = map_of al (p @ s)"
proof (induction al)
  case (Cons a al)
  obtain r x where a: "a = (r, x)" by (cases a)
  have no: "map_of al (q @ t) = None" and ne: "r \<noteq> q @ t" for t
    using Cons.prems [of t] by (auto simp: a split: if_splits)
  have "rebase p q r = q @ s \<longleftrightarrow> r = p @ s"
    using ne [of s] by (auto simp: rebase_def elim: prefixE)
  with Cons.IH [OF no] show ?case by (auto simp: a)
qed simp

lemma Rename_effect:
  assumes "os_Rename p q w = (Inr u, w')" "p \<noteq> q"
  shows "\<not> prefix p r \<Longrightarrow> \<not> prefix q r \<Longrightarrow> fs_get w' r = fs_get w r"
    "(\<And>s. fs_get w (q @ s) = None) \<Longrightarrow> fs_get w' (q @ s) = fs_get w (p @ s)"
    "clock w' = clock w" "fault w' = fault w" "torn w' = torn w"
proof -
  from assms have "\<exists>al. w' = w\<lparr>files := map (\<lambda>(r, x). (rebase p q r, x)) al\<rparr>
      \<and> (al = files w \<or> al = AList.delete q (files w))"
    by (auto simp: os_Rename_def split: if_splits option.splits)
  then obtain al where w': "w' = w\<lparr>files := map (\<lambda>(r, x). (rebase p q r, x)) al\<rparr>"
    and al: "al = files w \<or> al = AList.delete q (files w)" by blast
  show "clock w' = clock w" "fault w' = fault w" "torn w' = torn w" by (simp_all add: w')
  show "fs_get w' r = fs_get w r" if "\<not> prefix p r" "\<not> prefix q r"
    using that al map_of_rebase_other [of q r p al] by (auto simp: w' fs_get_def)
  show "fs_get w' (q @ s) = fs_get w (p @ s)" if no: "\<And>s. fs_get w (q @ s) = None"
  proof -
    have "fs_get w q = None" using no [of "[]"] by simp
    with assms have "w' = w\<lparr>files := map (\<lambda>(r, x). (rebase p q r, x)) (files w)\<rparr>"
      by (auto simp: os_Rename_def split: if_splits option.splits)
    with map_of_rebase_moved [of "files w" q p s] no show ?thesis by (simp add: fs_get_def)
  qed
qed

lemma rewrite_file:
  assumes "os_OpenFile_create p w = (Inr u1, w1)" "f_Truncate p w1 = (Inr u2, w2)"
    "f_Write p data w2 = (Inr u3, w3)"
  shows "fs_get w3 = (fs_get w)(p \<mapsto> FileN data (clock w))"
    "clock w3 = clock w" "fault w3 = fault w" "torn w3 = torn w"
  using OpenFile_create_get [OF assms(1)] f_Truncate_Inr [OF assms(2)] f_Write_Inr [OF assms(3)]
  by (auto simp: fun_eq_iff file_at_def)

lemma WriteFile_effect:
  assumes "os_WriteFile p data w = (Inr u, w')"
  shows "fs_get w' = (fs_get w)(p \<mapsto> FileN data (clock w))" "fault w' = fault w" "clock w' = clock w"
proof -
  from assms obtain w1 w2 w3 u1 u2 u3 where "os_OpenFile_create p w = (Inr u1, w1)"
    "f_Truncate p w1 = (Inr u2, w2)" "f_Write p data w2 = (Inr u3, w3)" "w3 = w'"
    by (auto simp: os_WriteFile_def io_simps dest!: handle_noop)
  from rewrite_file [OF this(1-3)] this(4)
  show "fs_get w' = (fs_get w)(p \<mapsto> FileN data (clock w))" "fault w' = fault w" "clock w' = clock w" by auto
qed

text \<open>Whatever its outcome, \<^verbatim>\<open>os.WriteFile\<close> touches only the file it is given.\<close>

lemma WriteFile_frame:
  assumes "os_WriteFile p data w = (r, w')"
  shows "q \<noteq> p \<Longrightarrow> fs_get w' q = fs_get w q" "clock w' = clock w" "fault w' = fault w" "torn w' = torn w"
  using assms
  by (auto simp: os_WriteFile_def io_defs os_OpenFile_create_def f_Truncate_def f_Write_def f_Close_def Let_def
      split: if_splits option.splits prod.splits sum.splits)

end
