(* ===== verification/JobSpec.thy ===== *)
theory JobSpec
  imports GoFs
begin

text \<open>
  The job specification of \<^verbatim>\<open>internal/storage/storage.go\<close>: one record per Go struct, in the order
  of the file, with the source's field names (prefixed where two structs share one). Pointers are
  options, slices are lists, string maps are association lists. \<open>codec\<close> is the YAML library
  (\<^verbatim>\<open>gopkg.in/yaml.v3\<close>), a parameter of every definition that reads or writes a spec.
\<close>

record SCMConfig =
  RepoURL :: string
  CredentialsID :: string
  BranchSpecifier :: string
  ScriptPath :: string
  LightweightCheckout :: bool

record PipelineBlock =
  Definition :: string
  Script :: string
  SCM :: "SCMConfig option"

record BuildEnv =
  PrepareEnvForRun :: bool
  KeepJenkinsEnvVars :: bool
  KeepJenkinsBuildVars :: bool

record GitHubPRBTrigger =
  APICredentialsID :: string
  GHProjectURL :: string
  AdminUsers :: "string list"
  BranchesToBuild :: "string list"
  PollIntervalSeconds :: int
  BuildMergeRef :: bool

record TriggerSpec =
  ts_Name :: string
  Artifacts :: "string list"

record Retention =
  MaxBuilds :: int
  MaxAge :: string

record Trigger =
  trig_Type :: string
  Config :: "(string \<times> string) list"

record Parameter =
  param_Name :: string
  param_Description :: string
  Default :: string
  Required :: bool

record Step =
  step_Name :: string
  Shell :: string
  step_Env :: "(string \<times> string) list"

record AxisDimension =
  axis_Name :: string
  axis_Values :: "string list"

record Job =
  Name :: string
  Description :: string
  NodeLabel :: string
  Timeout :: string
  Retries :: int
  Triggers :: "Trigger list"
  Parameters :: "Parameter list"
  Steps :: "Step list"
  Axis :: "AxisDimension list"
  job_Retention :: "Retention option"
  Upstream :: "string list"
  TriggersDownstream :: "TriggerSpec list"
  GitHubPRB :: "GitHubPRBTrigger option"
  Env :: "(string \<times> string) list"
  GitHubProjectURL :: string
  job_BuildEnv :: "BuildEnv option"
  Pipeline :: "PipelineBlock option"

text \<open>The zero value of a \<^verbatim>\<open>Job\<close> with a name, the base of the concrete examples.\<close>

definition empty_job :: "string \<Rightarrow> Job" where
  "empty_job n = \<lparr>Name = n, Description = '''', NodeLabel = '''', Timeout = '''', Retries = 0,
     Triggers = [], Parameters = [], Steps = [], Axis = [], job_Retention = None, Upstream = [],
     TriggersDownstream = [], GitHubPRB = None, Env = [], GitHubProjectURL = '''',
     job_BuildEnv = None, Pipeline = None\<rparr>"

record codec =
  job_enc :: "Job \<Rightarrow> string"
  job_dec :: "string \<Rightarrow> Job option"

text \<open>
  What the callers rely on: a spec that was encoded decodes to itself, and an empty file does not
  decode (the decoder reports \<^verbatim>\<open>EOF\<close>).
\<close>

definition yaml_roundtrip :: "codec \<Rightarrow> Job \<Rightarrow> bool" where
  "yaml_roundtrip c j \<longleftrightarrow> job_dec c (job_enc c j) = Some j"

text \<open>\<^verbatim>\<open>downstreamNames\<close>: the named downstream jobs of a spec.\<close>

definition downstreamNames :: "Job \<Rightarrow> string list" where
  "downstreamNames j = filter (\<lambda>n. n \<noteq> '''') (map ts_Name (TriggersDownstream j))"

end
