(* ===== verification/TriggerGraph.thy ===== *)
theory TriggerGraph
  imports JobSpec
begin

text \<open>
  The cycle check of \<^verbatim>\<open>internal/storage/triggergraph.go\<close>: the depth-first search \<open>reachable\<close> with its
  shared visited set, and the graph that \<^verbatim>\<open>validateNoCycle\<close> builds from the specs on disk. The
  search is proved total, sound and complete, so the check accepts a spec exactly when its name does
  not reach itself.
\<close>

type_synonym graph = "(string \<times> string list) list"

definition succs :: "graph \<Rightarrow> string \<Rightarrow> string list" where
  "succs g x = (case map_of g x of None \<Rightarrow> [] | Some ys \<Rightarrow> ys)"

definition gnodes :: "graph \<Rightarrow> string set" where
  "gnodes g = fst ` set g \<union> \<Union> (set ` snd ` set g)"

definition edges :: "graph \<Rightarrow> (string \<times> string) set" where
  "edges g = {(x, y). y \<in> set (succs g x)}"

lemma finite_gnodes [simp]: "finite (gnodes g)"
  by (simp add: gnodes_def)

lemma succs_outside: "x \<notin> gnodes g \<Longrightarrow> succs g x = []"
  by (auto simp: succs_def gnodes_def split: option.splits dest: map_of_SomeD intro: rev_image_eqI)

section \<open>The search\<close>

text \<open>
  \<open>reachable\<close> returns the verdict and the visited set (a Go map updated in place, so the calls of
  the loop share it); \<open>reachable_any\<close> is the loop over the successors with its early return.
\<close>

function (sequential) reachable :: "graph \<Rightarrow> string \<Rightarrow> string \<Rightarrow> string set \<Rightarrow> bool \<times> string set"
  and reachable_any :: "graph \<Rightarrow> string list \<Rightarrow> string \<Rightarrow> string set \<Rightarrow> bool \<times> string set" where
  "reachable g start target visited =
     (if start = target then (True, visited)
      else if start \<in> visited then (False, visited)
      else reachable_any g (succs g start) target (insert start visited))"
| "reachable_any g [] target visited = (False, visited)"
| "reachable_any g (next # rest) target visited =
     (case reachable g next target visited of
        (True, v) \<Rightarrow> (True, v)
      | (False, v) \<Rightarrow> reachable_any g rest target v)"
  by pat_completeness auto

lemma reachable_visited_dom:
  "reachable_reachable_any_dom (Inl (g, s, t, v)) \<Longrightarrow> v \<subseteq> snd (reachable g s t v)"
  "reachable_reachable_any_dom (Inr (g, ns, t, v)) \<Longrightarrow> v \<subseteq> snd (reachable_any g ns t v)"
proof (induction g s t v and g ns t v rule: reachable_reachable_any.pinduct)
  case (1 g s t v)
  then show ?case by (auto simp: reachable.psimps)
next
  case (2 g t v)
  then show ?case by (simp add: reachable_any.psimps)
next
  case (3 g n ns t v)
  then show ?case
    by (auto simp: reachable_any.psimps split: prod.splits bool.splits) blast+
qed

termination reachable
proof (relation "measures [
    \<lambda>x. case x of Inl (g, s, t, v) \<Rightarrow> card (gnodes g - v) | Inr (g, ns, t, v) \<Rightarrow> card (gnodes g - v),
    \<lambda>x. case x of Inl (g, s, t, v) \<Rightarrow> Suc 0 | Inr (g, ns, t, v) \<Rightarrow> 2 * length ns]", goal_cases)
  case 1
  then show ?case by simp
next
  case (2 g s t v)
  show ?case
  proof (cases "s \<in> gnodes g")
    case True
    with 2 have "card (gnodes g - insert s v) < card (gnodes g - v)"
      by (intro psubset_card_mono) auto
    then show ?thesis by simp
  next
    case False
    then have "succs g s = []" by (rule succs_outside)
    moreover from False have "gnodes g - insert s v = gnodes g - v" by auto
    ultimately show ?thesis by simp
  qed
next
  case (3 g n ns t v)
  then show ?case by simp
next
  case (4 g n ns t v r v')
  then have "v \<subseteq> v'" using reachable_visited_dom(1) [of g n t v] by (metis snd_conv)
  then have "card (gnodes g - v') \<le> card (gnodes g - v)" by (intro card_mono) auto
  then show ?case by (simp add: le_less)
qed

declare reachable.simps [simp del]

section \<open>Correctness of the search\<close>

lemma reachable_sound:
  "fst (reachable g s t v) \<Longrightarrow> (s, t) \<in> (edges g)\<^sup>*"
  "fst (reachable_any g ns t v) \<Longrightarrow> \<exists>n \<in> set ns. (n, t) \<in> (edges g)\<^sup>*"
proof (induction g s t v and g ns t v rule: reachable_reachable_any.induct)
  case (1 g s t v)
  show ?case
  proof (cases "s = t \<or> s \<in> v")
    case True
    with 1 show ?thesis by (auto simp: reachable.simps [of g s t v] split: if_splits)
  next
    case False
    with 1 obtain n where "n \<in> set (succs g s)" "(n, t) \<in> (edges g)\<^sup>*"
      by (auto simp: reachable.simps [of g s t v])
    then show ?thesis by (auto simp: edges_def intro: converse_rtrancl_into_rtrancl)
  qed
next
  case (3 g n ns t v)
  then show ?case by (auto split: prod.splits bool.splits)
qed simp

text \<open>What a negative answer leaves behind: the new visited nodes are closed under edges.\<close>

definition closed_step :: "graph \<Rightarrow> string \<Rightarrow> string set \<Rightarrow> string set \<Rightarrow> bool" where
  "closed_step g t v v' \<longleftrightarrow> v \<subseteq> v' \<and> (\<forall>x \<in> v' - v. x \<noteq> t \<and> set (succs g x) \<subseteq> v')"

lemma closed_step_trans: "closed_step g t u v \<Longrightarrow> closed_step g t v w \<Longrightarrow> closed_step g t u w"
  unfolding closed_step_def by blast

lemma reachable_closed:
  "reachable g s t v = (False, v') \<Longrightarrow> closed_step g t v v' \<and> s \<in> v'"
  "reachable_any g ns t v = (False, v') \<Longrightarrow> closed_step g t v v' \<and> set ns \<subseteq> v'"
proof (induction g s t v and g ns t v arbitrary: v' and v' rule: reachable_reachable_any.induct)
  case (1 g s t v)
  show ?case
  proof (cases "s = t \<or> s \<in> v")
    case True
    with 1 show ?thesis
      by (auto simp: reachable.simps [of g s t v] closed_step_def split: if_splits)
  next
    case False
    with 1 have "closed_step g t (insert s v) v' \<and> set (succs g s) \<subseteq> v'"
      by (auto simp: reachable.simps [of g s t v])
    with False show ?thesis by (auto simp: closed_step_def)
  qed
next
  case (2 g t v)
  then show ?case by (simp add: closed_step_def)
next
  case (3 g n ns t v)
  obtain b u where r: "reachable g n t v = (b, u)" by (cases "reachable g n t v")
  with 3 have "\<not> b" by (cases b) auto
  with r 3 have "closed_step g t v u \<and> n \<in> u" "closed_step g t u v' \<and> set ns \<subseteq> v'" by auto
  moreover from this have "u \<subseteq> v'" by (simp add: closed_step_def)
  ultimately show ?case by (auto intro: closed_step_trans)
qed

lemma closed_no_path:
  assumes "closed_step g t {} v" "s \<in> v"
  shows "(s, t) \<notin> (edges g)\<^sup>*"
proof
  assume "(s, t) \<in> (edges g)\<^sup>*"
  then have "t \<in> v"
    using assms by (induction rule: rtrancl_induct) (auto simp: closed_step_def edges_def)
  with assms show False by (auto simp: closed_step_def)
qed

lemma reachable_any_iff:
  "fst (reachable_any g ns t {}) \<longleftrightarrow> (\<exists>n \<in> set ns. (n, t) \<in> (edges g)\<^sup>*)"
proof
  assume "fst (reachable_any g ns t {})"
  then show "\<exists>n \<in> set ns. (n, t) \<in> (edges g)\<^sup>*" by (rule reachable_sound(2))
next
  assume ex: "\<exists>n \<in> set ns. (n, t) \<in> (edges g)\<^sup>*"
  show "fst (reachable_any g ns t {})"
  proof (rule ccontr)
    assume "\<not> ?thesis"
    then obtain v' where "reachable_any g ns t {} = (False, v')"
      by (cases "reachable_any g ns t {}") auto
    then have "closed_step g t {} v' \<and> set ns \<subseteq> v'" by (rule reachable_closed(2))
    with ex closed_no_path show False by blast
  qed
qed

section \<open>The graph of a set of specs\<close>

text \<open>The loop of \<^verbatim>\<open>validateNoCycle\<close> that fills \<open>graph\<close>, later entries overwriting earlier ones.\<close>

definition build_graph :: "Job list \<Rightarrow> Job \<Rightarrow> graph" where
  "build_graph existing newSpec =
     AList.update (Name newSpec) (downstreamNames newSpec)
       (foldl (\<lambda>g j. if Name j = Name newSpec then g else AList.update (Name j) (downstreamNames j) g)
          [] existing)"

definition check_cycle :: "Job list \<Rightarrow> Job \<Rightarrow> bool" where
  "check_cycle existing newSpec =
     fst (reachable_any (build_graph existing newSpec) (map ts_Name (TriggersDownstream newSpec))
            (Name newSpec) {})"

definition spec_edges :: "Job set \<Rightarrow> (string \<times> string) set" where
  "spec_edges J = {(Name j, n) | j n. j \<in> J \<and> n \<in> set (downstreamNames j)}"

definition unique_names :: "Job set \<Rightarrow> bool" where
  "unique_names J \<longleftrightarrow> (\<forall>i \<in> J. \<forall>j \<in> J. Name i = Name j \<longrightarrow> i = j)"

lemma spec_edges_simps:
  "spec_edges {} = {}"
  "spec_edges (insert j J) = {Name j} \<times> set (downstreamNames j) \<union> spec_edges J"
  by (auto simp: spec_edges_def)

lemma succs_update [simp]: "succs (AList.update k v g) x = (if x = k then v else succs g x)"
  by (simp add: succs_def)

lemma foldl_graph:
  "unique_names (set js) \<Longrightarrow>
   succs (foldl (\<lambda>g j. if Name j = m then g else AList.update (Name j) (downstreamNames j) g) g0 js) x =
     (if x \<noteq> m \<and> (\<exists>j \<in> set js. Name j = x) then downstreamNames (THE j. j \<in> set js \<and> Name j = x)
      else succs g0 x)"
proof (induction js rule: rev_induct)
  case (snoc j js)
  let ?J = "set (js @ [j])"
  have u: "unique_names (set js)" using snoc.prems by (auto simp: unique_names_def)
  have the: "(THE i. i \<in> ?J \<and> Name i = Name i0) = i0" if "i0 \<in> ?J" for i0
    using that snoc.prems by (intro the_equality) (auto simp: unique_names_def)
  have the': "(THE i. i \<in> set js \<and> Name i = Name i0) = i0" if "i0 \<in> set js" for i0
    using that u by (intro the_equality) (auto simp: unique_names_def)
  show ?case
    using snoc.IH [OF u] the the' by (auto split: if_splits)
qed simp

lemma edges_build_graph:
  assumes "unique_names (set js)"
  shows "edges (build_graph js j) = spec_edges ({i \<in> set js. Name i \<noteq> Name j} \<union> {j})"
proof -
  have the: "(THE i. i \<in> set js \<and> Name i = Name i0) = i0" if "i0 \<in> set js" for i0
    using that assms by (intro the_equality) (auto simp: unique_names_def)
  have "succs (build_graph js j) x =
      (if x = Name j then downstreamNames j
       else if \<exists>i \<in> set js. Name i = x then downstreamNames (THE i. i \<in> set js \<and> Name i = x) else [])" for x
    using foldl_graph [OF assms, of "Name j" "[]" x] by (simp add: build_graph_def succs_def)
  then have "(x, y) \<in> edges (build_graph js j) \<longleftrightarrow>
      (x = Name j \<and> y \<in> set (downstreamNames j)
       \<or> x \<noteq> Name j \<and> (\<exists>i \<in> set js. Name i = x \<and> y \<in> set (downstreamNames i)))" for x y
    using the by (auto simp: edges_def)
  then show ?thesis by (auto simp: spec_edges_def; blast)
qed

lemma empty_name_no_succ:
  assumes "unique_names (set js)" "Name j \<noteq> ''''" "\<And>i. i \<in> set js \<Longrightarrow> Name i \<noteq> ''''"
  shows "('''', x) \<notin> edges (build_graph js j)"
  using assms by (auto simp: edges_build_graph spec_edges_def dest: sym)

text \<open>The check rejects exactly when the new spec's name reaches itself in the new graph.\<close>

lemma check_cycle_iff:
  assumes "unique_names (set js)" "Name j \<noteq> ''''" "\<And>i. i \<in> set js \<Longrightarrow> Name i \<noteq> ''''"
  shows "check_cycle js j \<longleftrightarrow>
    (Name j, Name j) \<in> (spec_edges ({i \<in> set js. Name i \<noteq> Name j} \<union> {j}))\<^sup>+"
proof -
  let ?E = "edges (build_graph js j)"
  have out: "(Name j, n) \<in> ?E \<longleftrightarrow> n \<in> set (downstreamNames j)" for n
    by (simp add: edges_def build_graph_def)
  have "check_cycle js j \<longleftrightarrow> (\<exists>n \<in> set (map ts_Name (TriggersDownstream j)). (n, Name j) \<in> ?E\<^sup>*)"
    by (simp only: check_cycle_def reachable_any_iff)
  also have "\<dots> \<longleftrightarrow> (\<exists>n \<in> set (downstreamNames j). (n, Name j) \<in> ?E\<^sup>*)"
  proof -
    have "('''', Name j) \<notin> ?E\<^sup>*"
      using assms(2) empty_name_no_succ [OF assms] by (auto elim: converse_rtranclE)
    then show ?thesis by (auto simp: downstreamNames_def) metis
  qed
  also have "\<dots> \<longleftrightarrow> (Name j, Name j) \<in> ?E\<^sup>+"
    using out by (meson converse_tranclE r_into_rtrancl rtrancl_into_trancl2 trancl_into_rtrancl)
  finally show ?thesis by (simp add: edges_build_graph [OF assms(1)])
qed

text \<open>Replacing the out-edges of one node keeps a graph acyclic when no cycle runs through it.\<close>

lemma acyclic_replace:
  assumes "acyclic R" "\<And>x y. (x, y) \<in> S \<Longrightarrow> x \<noteq> a \<Longrightarrow> (x, y) \<in> R" "(a, a) \<notin> S\<^sup>+"
  shows "acyclic S"
proof (rule acyclicI, intro allI notI)
  fix x assume "(x, x) \<in> S\<^sup>+"
  moreover have "(x, y) \<in> R\<^sup>+ \<or> (x, a) \<in> S\<^sup>* \<and> (a, y) \<in> S\<^sup>+" if "(x, y) \<in> S\<^sup>+" for y
    using that
  proof (induction rule: trancl_induct)
    case (base y)
    then show ?case using assms(2) by (cases "x = a") auto
  next
    case (step y z)
    then show ?case
      using assms(2) by (cases "y = a") (auto intro: trancl_into_trancl trancl_into_rtrancl)
  qed
  ultimately consider "(x, x) \<in> R\<^sup>+" | "(a, a) \<in> S\<^sup>+"
    by (meson trancl_rtrancl_trancl)
  then show False using assms(1,3) by cases (auto simp: acyclic_def)
qed

end
