(* ===== verification/Storage.thy ===== *)
theory Storage
  imports TriggerGraph
begin

text \<open>
  The job store of \<^verbatim>\<open>internal/storage/storage.go\<close> and the cycle gate of
  \<^verbatim>\<open>internal/storage/triggergraph.go\<close>: specs at \<^verbatim>\<open>jobs/<name>/job.yaml\<close> and the per-build snapshots at
  \<^verbatim>\<open>builds/<job>/<n>/spec.yaml\<close>. A \<^verbatim>\<open>*Job\<close> that may be nil is a \<open>Job option\<close>. The lemmas give the effect
  of every operation on the disk; the invariant \<open>store_ok\<close> says that a spec lies under its own name
  and that the trigger graph is acyclic.
\<close>

section \<open>Operations\<close>

definition New :: "string \<Rightarrow> string res" where
  "New root = (if root = '''' then Inl (Msg ''storage.New: root is required'') else Inr root)"

definition JobPath :: "path \<Rightarrow> string \<Rightarrow> path" where
  "JobPath root name = join_path root [''jobs'', name, ''job.yaml'']"

definition LoadJob :: "codec \<Rightarrow> path \<Rightarrow> string \<Rightarrow> Job io" where
  "LoadJob c root name =
     (if name = '''' then raiseIO (Msg ''storage.LoadJob: name is required'')
      else let path = JobPath root name in
        seqIO (wrapIO ''storage.LoadJob: open'' (os_Open path))
       (seqIO (wrapIO ''storage.LoadJob: flock LOCK_SH'' (f_Flock path))
       (bindIO (wrapIO ''storage.LoadJob: yaml decode'' (f_ReadAll path)) (\<lambda>data.
          case job_dec c data of
            None \<Rightarrow> raiseIO (Wrap ''storage.LoadJob: yaml decode'' (Msg ''yaml''))
          | Some j \<Rightarrow> returnIO j))))"

text \<open>The loop of \<^verbatim>\<open>ListJobs\<close>: directories only, an entry that fails to load is skipped.\<close>

fun load_entries :: "codec \<Rightarrow> path \<Rightarrow> (string \<times> bool) list \<Rightarrow> Job list io" where
  "load_entries c root [] = returnIO []"
| "load_entries c root ((n, d) # es) =
     (if \<not> d then load_entries c root es
      else bindIO (attempt (LoadJob c root n)) (\<lambda>r.
        case r of Inl e \<Rightarrow> load_entries c root es
        | Inr j \<Rightarrow> bindIO (load_entries c root es) (\<lambda>js. returnIO (j # js))))"

definition ListJobs :: "codec \<Rightarrow> path \<Rightarrow> Job list io" where
  "ListJobs c root =
     (let jobsDir = join_path root [''jobs''] in
      bindIO (attempt (os_ReadDir jobsDir)) (\<lambda>r. case r of
        Inl e \<Rightarrow> if errors_Is e ErrNotExist then returnIO []
                 else raiseIO (Wrap ''storage.ListJobs: read'' e)
      | Inr entries \<Rightarrow> load_entries c root entries))"

definition validateNoCycle :: "codec \<Rightarrow> path \<Rightarrow> Job option \<Rightarrow> unit io" where
  "validateNoCycle c root newSpec =
     (case newSpec of None \<Rightarrow> returnIO ()
      | Some j \<Rightarrow>
          if TriggersDownstream j = [] then returnIO ()
          else bindIO (wrapIO ''storage.validateNoCycle: list'' (ListJobs c root)) (\<lambda>existing.
            if check_cycle existing j
            then raiseIO (Wrap (Name j @ '' -> ... -> '' @ Name j) ErrCycleInTriggerGraph)
            else returnIO ()))"

definition SaveJob :: "codec \<Rightarrow> path \<Rightarrow> Job option \<Rightarrow> unit io" where
  "SaveJob c root job =
     (case job of None \<Rightarrow> raiseIO (Msg ''storage.SaveJob: nil Job'')
      | Some j \<Rightarrow>
          if Name j = '''' then raiseIO (Msg ''storage.SaveJob: Job.Name is required'')
          else seqIO (validateNoCycle c root (Some j))
            (let path = JobPath root (Name j) in
              seqIO (wrapIO ''storage.SaveJob: mkdir'' (os_MkdirAll (butlast path)))
             (seqIO (wrapIO ''storage.SaveJob: open'' (os_OpenFile_create path))
             (seqIO (wrapIO ''storage.SaveJob: flock LOCK_EX'' (f_Flock path))
             (seqIO (wrapIO ''storage.SaveJob: truncate'' (f_Truncate path))
             (seqIO (wrapIO ''storage.SaveJob: seek'' (f_Seek path))
             (seqIO (wrapIO ''storage.SaveJob: yaml encode'' (f_Write path (job_enc c j)))
                    (wrapIO ''storage.SaveJob: yaml close'' (f_Close path)))))))))"

definition snapshot_dir :: "path \<Rightarrow> string \<Rightarrow> int \<Rightarrow> path" where
  "snapshot_dir root jobName buildNum = join_path root [''builds'', jobName, Itoa buildNum]"

definition SaveSpecSnapshot :: "codec \<Rightarrow> path \<Rightarrow> string \<Rightarrow> int \<Rightarrow> Job option \<Rightarrow> unit io" where
  "SaveSpecSnapshot c root jobName buildNum job =
     (if jobName = '''' then raiseIO (Msg ''storage.SaveSpecSnapshot: jobName is required'')
      else if buildNum < 1 then raiseIO (Msg ''storage.SaveSpecSnapshot: buildNum must be >= 1'')
      else case job of None \<Rightarrow> raiseIO (Msg ''storage.SaveSpecSnapshot: nil Job'')
      | Some j \<Rightarrow>
          (let dir = snapshot_dir root jobName buildNum in
           seqIO (wrapIO ''storage.SaveSpecSnapshot: mkdir'' (os_MkdirAll dir))
                 (wrapIO ''storage.SaveSpecSnapshot: write''
                    (os_WriteFile (join_path dir [''spec.yaml'']) (job_enc c j)))))"

definition LoadSpecSnapshot :: "codec \<Rightarrow> path \<Rightarrow> string \<Rightarrow> int \<Rightarrow> Job io" where
  "LoadSpecSnapshot c root jobName buildNum =
     (if jobName = '''' then raiseIO (Msg ''storage.LoadSpecSnapshot: jobName is required'')
      else if buildNum < 1 then raiseIO (Msg ''storage.LoadSpecSnapshot: buildNum must be >= 1'')
      else bindIO (attempt (os_ReadFile
             (join_path root [''builds'', jobName, Itoa buildNum, ''spec.yaml'']))) (\<lambda>r. case r of
        Inl e \<Rightarrow> if errors_Is e ErrNotExist then raiseIO ErrNotExist
                 else raiseIO (Wrap ''storage.LoadSpecSnapshot: read'' e)
      | Inr data \<Rightarrow> (case job_dec c data of
            None \<Rightarrow> raiseIO (Wrap ''storage.LoadSpecSnapshot: parse'' (Msg ''yaml''))
          | Some j \<Rightarrow> returnIO j)))"

definition DeleteJob :: "path \<Rightarrow> string \<Rightarrow> unit io" where
  "DeleteJob root name =
     (if name = '''' then raiseIO (Msg ''storage.DeleteJob: name is required'')
      else let jobDir = join_path root [''jobs'', name] in
        bindIO (attempt (os_Stat jobDir)) (\<lambda>r. case r of
          Inl e \<Rightarrow> if errors_Is e ErrNotExist then raiseIO ErrNotExist
                   else raiseIO (Wrap ''storage.DeleteJob: stat'' e)
        | Inr n \<Rightarrow> wrapIO ''storage.DeleteJob: remove'' (os_RemoveAll jobDir)))"

definition RenameJob :: "codec \<Rightarrow> path \<Rightarrow> string \<Rightarrow> string \<Rightarrow> unit io" where
  "RenameJob c root oldName newName =
     (if oldName = '''' \<or> newName = ''''
      then raiseIO (Msg ''storage.RenameJob: oldName and newName are required'')
      else if oldName = newName then returnIO ()
      else let oldDir = join_path root [''jobs'', oldName];
               newDir = join_path root [''jobs'', newName] in
        bindIO (attempt (os_Stat oldDir)) (\<lambda>r. case r of
          Inl e \<Rightarrow> if errors_Is e ErrNotExist then raiseIO ErrNotExist
                   else raiseIO (Wrap ''storage.RenameJob: stat old'' e)
        | Inr n \<Rightarrow>
            bindIO (attempt (os_Stat newDir)) (\<lambda>r2. case r2 of
              Inr n2 \<Rightarrow> raiseIO ErrJobExists
            | Inl e2 \<Rightarrow>
                bindIO (wrapIO ''storage.RenameJob: load'' (LoadJob c root oldName)) (\<lambda>job.
                seqIO (wrapIO ''storage.RenameJob: save new'' (SaveJob c root (Some (job\<lparr>Name := newName\<rparr>))))
               (seqIO (wrapIO ''storage.RenameJob: delete old'' (DeleteJob root oldName))
               (let oldBuilds = join_path root [''builds'', oldName] in
                bindIO (attempt (os_Stat oldBuilds)) (\<lambda>r3. case r3 of
                  Inl e3 \<Rightarrow> returnIO ()
                | Inr n3 \<Rightarrow> wrapIO ''storage.RenameJob: move builds''
                     (os_Rename oldBuilds (join_path root [''builds'', newName])))))))))"

section \<open>What is on disk\<close>

definition disk_job :: "codec \<Rightarrow> path \<Rightarrow> world \<Rightarrow> string \<Rightarrow> Job option" where
  "disk_job c root w n = Option.bind (file_at w (JobPath root n)) (job_dec c)"

definition job_dirs :: "path \<Rightarrow> world \<Rightarrow> string set" where
  "job_dirs root w = {n. is_dir w (root @ [''jobs'', n])}"

definition jobs_on_disk :: "codec \<Rightarrow> path \<Rightarrow> world \<Rightarrow> Job set" where
  "jobs_on_disk c root w = {j. \<exists>n \<in> job_dirs root w. n \<noteq> '''' \<and> disk_job c root w n = Some j}"

definition store_ok :: "codec \<Rightarrow> path \<Rightarrow> world \<Rightarrow> bool" where
  "store_ok c root w \<longleftrightarrow>
     is_dir w (root @ [''jobs'']) \<and>
     (\<forall>n \<in> job_dirs root w. safe_name n \<and> (\<forall>j. disk_job c root w n = Some j \<longrightarrow> Name j = n)) \<and>
     acyclic (spec_edges (jobs_on_disk c root w))"

lemma store_okD:
  assumes "store_ok c root w"
  shows "is_dir w (root @ [''jobs''])" "n \<in> job_dirs root w \<Longrightarrow> safe_name n"
    "n \<in> job_dirs root w \<Longrightarrow> disk_job c root w n = Some j \<Longrightarrow> Name j = n"
    "acyclic (spec_edges (jobs_on_disk c root w))"
  using assms unfolding store_ok_def by blast+

lemma store_okI:
  assumes "is_dir w (root @ [''jobs''])" "\<And>n. n \<in> job_dirs root w \<Longrightarrow> safe_name n"
    "\<And>n j. n \<in> job_dirs root w \<Longrightarrow> disk_job c root w n = Some j \<Longrightarrow> Name j = n"
    "acyclic (spec_edges (jobs_on_disk c root w))"
  shows "store_ok c root w"
  using assms unfolding store_ok_def by blast

lemma safe_literals [simp, path_simps]:
  "safe_name ''jobs''" "safe_name ''job.yaml''" "safe_name ''builds''" "safe_name ''spec.yaml''"
  by (simp_all add: safe_name_def)

lemma JobPath_safe [path_simps]: "safe_name n \<Longrightarrow> JobPath root n = root @ [''jobs'', n, ''job.yaml'']"
  by (simp add: JobPath_def join_path_safe)

lemma jobs_dir [path_simps]: "join_path root [''jobs''] = root @ [''jobs'']"
  by (simp add: join_path_safe)

lemma LoadJob_world: "LoadJob c root n w = (r, w') \<Longrightarrow> w' = w"
  by (auto simp: LoadJob_def io_defs Let_def os_Open_def f_Flock_def f_ReadAll_def
      split: if_splits option.splits node.splits prod.splits sum.splits)

lemma LoadJob_Inr: "LoadJob c root n w = (Inr j, w') \<Longrightarrow> n \<noteq> '''' \<and> disk_job c root w n = Some j"
  by (auto simp: LoadJob_def io_defs Let_def os_Open_def f_Flock_def f_ReadAll_def disk_job_def file_at_def
      split: if_splits option.splits node.splits prod.splits sum.splits)

lemma LoadJob_ok:
  "no_faults w \<Longrightarrow> n \<noteq> '''' \<Longrightarrow> disk_job c root w n = Some j \<Longrightarrow> LoadJob c root n w = (Inr j, w)"
  by (auto simp: LoadJob_def io_defs Let_def os_Open_def f_Flock_def f_ReadAll_def disk_job_def file_at_def
      no_faults_def split: option.splits node.splits bind_splits)

lemma LoadJob_none:
  "disk_job c root w n = None \<Longrightarrow> \<exists>e. LoadJob c root n w = (Inl e, w)"
  using LoadJob_Inr LoadJob_world by (metis option.distinct(1) prod.collapse sum.exhaust_sel sum.collapse(1,2))

lemma load_entries_ok:
  assumes "no_faults w"
  shows "\<exists>js. load_entries c root es w = (Inr js, w) \<and>
           set js = {j. \<exists>n. (n, True) \<in> set es \<and> n \<noteq> '''' \<and> disk_job c root w n = Some j}"
proof (induction es)
  case Nil
  then show ?case by (simp add: returnIO_def)
next
  case (Cons e es)
  obtain n d where e: "e = (n, d)" by (cases e)
  from Cons.IH obtain js where js: "load_entries c root es w = (Inr js, w)"
    "set js = {j. \<exists>n. (n, True) \<in> set es \<and> n \<noteq> '''' \<and> disk_job c root w n = Some j}" by blast
  show ?case
  proof (cases "d \<and> n \<noteq> '''' \<and> disk_job c root w n \<noteq> None")
    case True
    then obtain j where "disk_job c root w n = Some j" by blast
    with True assms have "LoadJob c root n w = (Inr j, w)" by (simp add: LoadJob_ok)
    with True js \<open>disk_job c root w n = Some j\<close> show ?thesis
      by (auto simp: e io_defs)
  next
    case False
    show ?thesis
    proof (cases d)
      case True
      have "\<exists>e. LoadJob c root n w = (Inl e, w)"
        using False True LoadJob_none [of c root w n]
        by (cases "n = ''''") (auto simp: LoadJob_def raiseIO_def)
      with True False js show ?thesis by (auto simp: e io_defs)
    next
      case d: False
      with js show ?thesis by (auto simp: e)
    qed
  qed
qed

lemma ListJobs_ok:
  assumes "no_faults w" "is_dir w (root @ [''jobs''])"
  shows "\<exists>js. ListJobs c root w = (Inr js, w) \<and> set js = jobs_on_disk c root w"
proof -
  let ?d = "root @ [''jobs'']"
  let ?es = "map (\<lambda>n. (n, is_dir w (?d @ [n]))) (entry_names w ?d)"
  have rd: "os_ReadDir ?d w = (Inr ?es, w)"
    using assms by (auto simp: os_ReadDir_def no_faults_def is_dir_def split: option.splits)
  from load_entries_ok [OF assms(1)] obtain js where js: "load_entries c root ?es w = (Inr js, w)"
    "set js = {j. \<exists>n. (n, True) \<in> set ?es \<and> n \<noteq> '''' \<and> disk_job c root w n = Some j}" by blast
  have "(n, True) \<in> set ?es \<longleftrightarrow> n \<in> job_dirs root w" for n
    using set_entry_names [of n w ?d] by (auto simp: job_dirs_def is_dir_def split: option.splits)
  with js rd show ?thesis
    by (simp add: ListJobs_def Let_def path_simps io_defs jobs_on_disk_def Bex_def)
qed

section \<open>Effect of a save\<close>

lemma validateNoCycle_world: "validateNoCycle c root j w = (r, w') \<Longrightarrow> w' = w"
proof -
  have le: "load_entries c root es w = (r, w') \<Longrightarrow> w' = w" for es r w'
  proof (induction es arbitrary: r w')
    case (Cons e es)
    then show ?case
      by (cases e) (auto simp: io_defs dest: LoadJob_world split: if_splits prod.splits sum.splits)
  qed (simp add: returnIO_def)
  have "ListJobs c root w = (r, w') \<Longrightarrow> w' = w" for r w'
    by (auto simp: ListJobs_def Let_def io_defs dest!: handle_noop(6) dest: le
        split: prod.splits sum.splits if_splits)
  then show "validateNoCycle c root j w = (r, w') \<Longrightarrow> w' = w"
    by (auto simp: validateNoCycle_def io_defs split: option.splits if_splits prod.splits sum.splits)
qed

text \<open>Create or truncate, then write: the common tail of the writers.\<close>

lemma SaveJob_effect:
  assumes "SaveJob c root (Some j) w = (Inr u, w')"
  defines "p \<equiv> JobPath root (Name j)"
  shows "validateNoCycle c root (Some j) w = (Inr (), w) \<and> Name j \<noteq> ''''
    \<and> fs_get w' p = Some (FileN (job_enc c j) (clock w))
    \<and> is_dir w' (butlast p)
    \<and> (\<forall>q. q \<noteq> p \<longrightarrow> (\<forall>n. fs_get w q = Some n \<longrightarrow> fs_get w' q = Some n)
         \<and> (\<forall>n. fs_get w' q = Some n \<longrightarrow> fs_get w q = Some n \<or> prefix q (butlast p) \<and> n = DirN (clock w)))
    \<and> clock w' = clock w \<and> fault w' = fault w"
proof -
  from assms obtain w0 w1 w2 w4 u1 u2 u4 u5 where raw:
    "Name j \<noteq> ''''" "validateNoCycle c root (Some j) w = (Inr (), w0)"
    "os_MkdirAll (butlast p) w0 = (Inr u1, w1)" "os_OpenFile_create p w1 = (Inr u2, w2)"
    "f_Truncate p w2 = (Inr u4, w4)" "f_Write p (job_enc c j) w4 = (Inr u5, w')"
    by (auto simp: SaveJob_def io_simps Let_def dest!: handle_noop split: if_splits)
  from validateNoCycle_world [OF raw(2)] have "w0 = w" .
  note steps = raw [unfolded this]
  note rw = rewrite_file [OF steps(4-6)]
  note mk = MkdirAll_frame [OF steps(3)]
  have pne: "butlast p \<noteq> p \<or> p = []" by simp
  have "fs_get w1 p \<noteq> None \<longrightarrow> \<not> is_dir w1 p \<or> p = []"
    using OpenFile_create_get [OF steps(4)] by (auto simp: is_dir_def)
  moreover have "is_dir w1 (butlast p)" using steps(3) by (rule MkdirAll_is_dir)
  ultimately have "is_dir w' (butlast p)"
    using rw(1) pne by (auto simp: is_dir_def)
  with steps rw mk show ?thesis by auto
qed

lemma SaveJob_file_at:
  assumes "SaveJob c root (Some j) w = (Inr u, w')"
  shows "file_at w' = (file_at w)(JobPath root (Name j) \<mapsto> job_enc c j)"
proof
  fix q
  show "file_at w' q = ((file_at w)(JobPath root (Name j) \<mapsto> job_enc c j)) q"
  proof (cases "fs_get w q")
    case None
    then show ?thesis using SaveJob_effect [OF assms]
      by (cases "fs_get w' q") (auto simp: file_at_def split: node.splits)
  next
    case (Some n)
    then show ?thesis using SaveJob_effect [OF assms] by (auto simp: file_at_def)
  qed
qed

lemma SaveJob_disk_job:
  assumes "SaveJob c root (Some j) w = (Inr u, w')" "safe_name (Name j)" "safe_name n"
  shows "disk_job c root w' n = (if n = Name j then job_dec c (job_enc c j) else disk_job c root w n)"
  using assms SaveJob_file_at [OF assms(1)] by (auto simp: disk_job_def path_simps)

lemma SaveJob_job_dirs:
  assumes "SaveJob c root (Some j) w = (Inr u, w')" "safe_name (Name j)"
  shows "job_dirs root w' = insert (Name j) (job_dirs root w)"
proof -
  let ?p = "JobPath root (Name j)"
  note eff = SaveJob_effect [OF assms(1)]
  have p: "?p = root @ [''jobs'', Name j, ''job.yaml'']" using assms(2) by (rule JobPath_safe)
  have "is_dir w' (root @ [''jobs'', n]) \<longleftrightarrow> n = Name j \<or> is_dir w (root @ [''jobs'', n])" for n
  proof -
    have ne: "root @ [''jobs'', n] \<noteq> ?p" by (simp add: p)
    have pre: "prefix (root @ [''jobs'', n]) (butlast ?p) \<longleftrightarrow> n = Name j"
      by (simp add: p butlast_append)
    show ?thesis
    proof (cases "n = Name j")
      case True
      with eff show ?thesis by (simp add: p butlast_append)
    next
      case False
      with eff ne pre show ?thesis
        by (cases "fs_get w (root @ [''jobs'', n])"; cases "fs_get w' (root @ [''jobs'', n])")
          (auto simp: is_dir_def)
    qed
  qed
  then show ?thesis by (auto simp: job_dirs_def)
qed

lemma SaveJob_jobs_on_disk:
  assumes "SaveJob c root (Some j) w = (Inr u, w')" "safe_name (Name j)" "yaml_roundtrip c j"
    "store_ok c root w"
  shows "jobs_on_disk c root w' = {i \<in> jobs_on_disk c root w. Name i \<noteq> Name j} \<union> {j}"
proof -
  note dirs = SaveJob_job_dirs [OF assms(1,2)]
  note nm = store_okD(3) [OF assms(4)]
  have "safe_name n" if "n \<in> job_dirs root w'" for n
    using that assms(2) store_okD(2) [OF assms(4)] by (auto simp: dirs)
  then have d: "disk_job c root w' n = (if n = Name j then Some j else disk_job c root w n)"
    if "n \<in> job_dirs root w'" for n
    using that assms(3) SaveJob_disk_job [OF assms(1,2)] by (simp add: yaml_roundtrip_def)
  have "jobs_on_disk c root w' = {i. \<exists>n \<in> insert (Name j) (job_dirs root w).
      n \<noteq> '''' \<and> (if n = Name j then Some j else disk_job c root w n) = Some i}"
    using d by (simp add: jobs_on_disk_def dirs cong: bex_cong)
  also have "\<dots> = {i \<in> jobs_on_disk c root w. Name i \<noteq> Name j} \<union> {j}"
  proof (intro equalityI subsetI)
    fix i assume "i \<in> {i. \<exists>n \<in> insert (Name j) (job_dirs root w).
      n \<noteq> '''' \<and> (if n = Name j then Some j else disk_job c root w n) = Some i}"
    then obtain n where "n \<in> insert (Name j) (job_dirs root w)" "n \<noteq> ''''"
      "(if n = Name j then Some j else disk_job c root w n) = Some i" by blast
    then consider "i = j" | "n \<in> job_dirs root w" "n \<noteq> ''''" "disk_job c root w n = Some i" "n \<noteq> Name j"
      by (cases "n = Name j") simp_all
    then show "i \<in> {i \<in> jobs_on_disk c root w. Name i \<noteq> Name j} \<union> {j}"
      using nm [of n i] unfolding jobs_on_disk_def by cases blast+
  next
    fix i assume "i \<in> {i \<in> jobs_on_disk c root w. Name i \<noteq> Name j} \<union> {j}"
    then consider "i = j" | n where "n \<in> job_dirs root w" "n \<noteq> ''''" "disk_job c root w n = Some i"
        "Name i \<noteq> Name j" unfolding jobs_on_disk_def by blast
    then show "i \<in> {i. \<exists>n \<in> insert (Name j) (job_dirs root w).
      n \<noteq> '''' \<and> (if n = Name j then Some j else disk_job c root w n) = Some i}"
    proof cases
      case 1
      with assms(2) show ?thesis by (simp add: safe_name_def)
    next
      case (2 n)
      with nm [OF 2(1,3)] have "n \<noteq> Name j" by simp
      with 2 show ?thesis by (intro CollectI bexI [of _ n]) simp_all
    qed
  qed
  finally show ?thesis .
qed

lemma store_ok_unique:
  assumes "store_ok c root w"
  shows "unique_names (jobs_on_disk c root w)" "i \<in> jobs_on_disk c root w \<Longrightarrow> Name i \<noteq> ''''"
proof -
  have "\<exists>n \<in> job_dirs root w. disk_job c root w n = Some i \<and> Name i = n \<and> safe_name n"
    if "i \<in> jobs_on_disk c root w" for i
    using that store_okD(2,3) [OF assms] unfolding jobs_on_disk_def by blast
  note ex = this
  have "i = j" if ij: "i \<in> jobs_on_disk c root w" "j \<in> jobs_on_disk c root w" "Name i = Name j" for i j
  proof -
    have "disk_job c root w (Name i) = Some i" "disk_job c root w (Name j) = Some j"
      using ex [OF ij(1)] ex [OF ij(2)] by blast+
    with ij(3) show "i = j" by (metis option.inject)
  qed
  then show "unique_names (jobs_on_disk c root w)" unfolding unique_names_def by blast
  show "i \<in> jobs_on_disk c root w \<Longrightarrow> Name i \<noteq> ''''"
    using ex [of i] unfolding safe_name_def by blast
qed

lemma validate_iff:
  assumes "no_faults w" "store_ok c root w" "Name j \<noteq> ''''"
  shows "validateNoCycle c root (Some j) w =
    (if (Name j, Name j) \<in> (spec_edges ({i \<in> jobs_on_disk c root w. Name i \<noteq> Name j} \<union> {j}))\<^sup>+
     then (Inl (Wrap (Name j @ '' -> ... -> '' @ Name j) ErrCycleInTriggerGraph), w) else (Inr (), w))"
proof -
  have dir: "is_dir w (root @ [''jobs''])" using assms(2) by (simp add: store_ok_def)
  from ListJobs_ok [OF assms(1) dir] obtain js where
    js: "ListJobs c root w = (Inr js, w)" "set js = jobs_on_disk c root w" by blast
  let ?E = "spec_edges ({i \<in> jobs_on_disk c root w. Name i \<noteq> Name j} \<union> {j})"
  have chk: "check_cycle js j \<longleftrightarrow> (Name j, Name j) \<in> ?E\<^sup>+"
    using check_cycle_iff [of js j] store_ok_unique [OF assms(2)] assms(3) js(2) by auto
  show ?thesis
  proof (cases "TriggersDownstream j = []")
    case True
    then have "(Name j, x) \<notin> ?E" for x by (auto simp: spec_edges_def downstreamNames_def)
    then have "(Name j, Name j) \<notin> ?E\<^sup>+" by (meson converse_tranclE)
    with True show ?thesis by (simp add: validateNoCycle_def returnIO_def)
  next
    case False
    then show ?thesis by (simp add: validateNoCycle_def io_defs js chk)
  qed
qed

text \<open>The part of \<^verbatim>\<open>SaveJob\<close> after the gate; none of its errors is the cycle error.\<close>

definition save_tail :: "codec \<Rightarrow> path \<Rightarrow> Job \<Rightarrow> unit io" where
  "save_tail c root j =
     (let path = JobPath root (Name j) in
              seqIO (wrapIO ''storage.SaveJob: mkdir'' (os_MkdirAll (butlast path)))
             (seqIO (wrapIO ''storage.SaveJob: open'' (os_OpenFile_create path))
             (seqIO (wrapIO ''storage.SaveJob: flock LOCK_EX'' (f_Flock path))
             (seqIO (wrapIO ''storage.SaveJob: truncate'' (f_Truncate path))
             (seqIO (wrapIO ''storage.SaveJob: seek'' (f_Seek path))
             (seqIO (wrapIO ''storage.SaveJob: yaml encode'' (f_Write path (job_enc c j)))
                    (wrapIO ''storage.SaveJob: yaml close'' (f_Close path))))))))"

lemma SaveJob_split:
  "Name j \<noteq> '''' \<Longrightarrow>
   SaveJob c root (Some j) = seqIO (validateNoCycle c root (Some j)) (save_tail c root j)"
  by (simp add: SaveJob_def save_tail_def)

lemma save_tail_never: "never ErrCycleInTriggerGraph (save_tail c root j)"
  unfolding save_tail_def Let_def by (intro never_intros disjI1 refl)

lemma SaveJob_store_ok_aux:
  assumes "store_ok c root w" "no_faults w" "safe_name (Name j)" "yaml_roundtrip c j"
    and "SaveJob c root (Some j) w = (Inr (), w')"
  shows "store_ok c root w' \<and>
    jobs_on_disk c root w' = {i \<in> jobs_on_disk c root w. Name i \<noteq> Name j} \<union> {j}"
proof -
  note eff = SaveJob_effect [OF assms(5)]
  note jod = SaveJob_jobs_on_disk [OF assms(5,3,4,1)]
  note dirs = SaveJob_job_dirs [OF assms(5,3)]
  have nm: "Name j \<noteq> ''''" using assms(3) by (simp add: safe_name_def)
  have nocyc: "(Name j, Name j) \<notin> (spec_edges (jobs_on_disk c root w'))\<^sup>+"
    using eff validate_iff [OF assms(2,1) nm] by (auto simp: jod split: if_splits)
  have "acyclic (spec_edges (jobs_on_disk c root w'))"
  proof (rule acyclic_replace [OF _ _ nocyc])
    show "acyclic (spec_edges (jobs_on_disk c root w))" by (rule store_okD [OF assms(1)])
  qed (auto simp: jod spec_edges_def)
  moreover have "is_dir w' (root @ [''jobs''])"
    using store_okD(1) [OF assms(1)] assms(3) eff
    by (auto simp: is_dir_def JobPath_safe split: option.splits)
  moreover have s: "safe_name n" if "n \<in> job_dirs root w'" for n
    using that assms(3) store_okD(2) [OF assms(1)] by (auto simp: dirs)
  moreover have "Name i = n" if "n \<in> job_dirs root w'" "disk_job c root w' n = Some i" for n i
    using that assms(4) SaveJob_disk_job [OF assms(5,3) s [OF that(1)]] store_okD(3) [OF assms(1), of n i]
    by (cases "n = Name j") (simp_all add: yaml_roundtrip_def dirs)
  ultimately have "store_ok c root w'" by (intro store_okI)
  with jod show ?thesis by blast
qed

lemma SaveJob_frame_builds:
  assumes "SaveJob c root (Some j) w = (Inr u, w')" "safe_name (Name j)"
  shows "fs_get w' (root @ ''builds'' # r) = fs_get w (root @ ''builds'' # r)"
proof -
  have "root @ ''builds'' # r \<noteq> JobPath root (Name j)"
    "\<not> prefix (root @ ''builds'' # r) (butlast (JobPath root (Name j)))"
    using assms(2) by (simp_all add: JobPath_safe butlast_append prefix_def)
  then show ?thesis
    using SaveJob_effect [OF assms(1)]
    by (cases "fs_get w (root @ ''builds'' # r)"; cases "fs_get w' (root @ ''builds'' # r)") auto
qed

text \<open>
  C1. Saving a spec whose name is a plain file name keeps the store well-formed: after a successful \<^verbatim>\<open>SaveJob\<close> on a
  disk without faults, of a spec that the YAML codec reads back, every spec on disk still lies under its own name, the specs on disk are the old
  ones with the saved spec added or replaced, and the trigger graph over all of them is still acyclic. The condition on the name (no
  separator, neither \<^verbatim>\<open>.\<close> nor \<^verbatim>\<open>..\<close>) is the caller's: \<^verbatim>\<open>SaveJob\<close> itself only refuses the empty name, and
  what it does with a name such as \<^verbatim>\<open>../../x\<close> is \<open>create_escapes_root\<close>.
\<close>

theorem SaveJob_store_ok:
  assumes "store_ok c root w" "no_faults w" "safe_name (Name j)" "yaml_roundtrip c j"
    and "SaveJob c root (Some j) w = (Inr (), w')"
  shows "store_ok c root w' \<and>
    jobs_on_disk c root w' = {i \<in> jobs_on_disk c root w. Name i \<noteq> Name j} \<union> {j}"
  by (rule SaveJob_store_ok_aux [OF assms])

text \<open>
  The cycle gate is exact: on a readable store \<^verbatim>\<open>SaveJob\<close> refuses a spec with
  \<^verbatim>\<open>ErrCycleInTriggerGraph\<close> if and only if the spec's name would reach itself in the graph formed by
  the other specs on disk and the new spec, and a refused save leaves the disk as it was.
\<close>

theorem SaveJob_rejects_cycles:
  assumes "store_ok c root w" "no_faults w" "Name j \<noteq> ''''"
  shows "(\<exists>e w'. SaveJob c root (Some j) w = (Inl e, w') \<and> errors_Is e ErrCycleInTriggerGraph \<and> w' = w)
    \<longleftrightarrow> (Name j, Name j) \<in> (spec_edges ({i \<in> jobs_on_disk c root w. Name i \<noteq> Name j} \<union> {j}))\<^sup>+"
    (is "?L \<longleftrightarrow> ?R")
proof
  assume ?R
  then show ?L using assms(3) by (simp add: SaveJob_def io_defs validate_iff [OF assms(2,1,3)])
next
  assume L: ?L
  show ?R
  proof (rule ccontr)
    assume "\<not> ?R"
    then have "validateNoCycle c root (Some j) w = (Inr (), w)" by (simp add: validate_iff [OF assms(2,1,3)])
    then have "SaveJob c root (Some j) w = save_tail c root j w"
      using assms(3) by (simp add: SaveJob_split seqIO_def bindIO_def)
    with L show False using neverD [OF save_tail_never] by metis
  qed
qed

text \<open>
  What is saved is what is loaded: after a successful \<^verbatim>\<open>SaveJob\<close>, \<^verbatim>\<open>LoadJob\<close> of that name returns the
  saved spec, and \<^verbatim>\<open>LoadJob\<close> of any other job name finds what it found before.
\<close>

theorem save_then_load:
  assumes "no_faults w" "safe_name (Name j)" "yaml_roundtrip c j"
    and "SaveJob c root (Some j) w = (Inr (), w')"
  shows "LoadJob c root (Name j) w' = (Inr j, w') \<and>
    (\<forall>n i. safe_name n \<and> n \<noteq> Name j \<and> LoadJob c root n w = (Inr i, w)
       \<longrightarrow> LoadJob c root n w' = (Inr i, w'))"
proof -
  have nf: "no_faults w'" using SaveJob_effect [OF assms(4)] assms(1) by (simp add: no_faults_def)
  have "disk_job c root w' (Name j) = Some j"
    using SaveJob_disk_job [OF assms(4,2,2)] assms(3) by (simp add: yaml_roundtrip_def)
  with nf assms(2) have "LoadJob c root (Name j) w' = (Inr j, w')"
    by (intro LoadJob_ok) (auto simp: safe_name_def)
  moreover have "LoadJob c root n w' = (Inr i, w')"
    if "safe_name n" "n \<noteq> Name j" "LoadJob c root n w = (Inr i, w)" for n i
    using LoadJob_Inr [OF that(3)] SaveJob_disk_job [OF assms(4,2) that(1)] that(2) nf
    by (intro LoadJob_ok) auto
  ultimately show ?thesis by blast
qed

section \<open>Snapshots, deletion, renaming\<close>

definition snapshot_path :: "path \<Rightarrow> string \<Rightarrow> int \<Rightarrow> path" where
  "snapshot_path root job n = root @ [''builds'', job, Itoa n, ''spec.yaml'']"

lemma LoadSpecSnapshot_iff:
  assumes "no_faults w" "safe_name job"
  shows "LoadSpecSnapshot c root job n w = (Inr j, w') \<longleftrightarrow>
    1 \<le> n \<and> w' = w \<and> Option.bind (file_at w (snapshot_path root job n)) (job_dec c) = Some j"
proof -
  have p: "join_path root [''builds'', job, Itoa n, ''spec.yaml''] = snapshot_path root job n"
    using assms(2) by (simp add: join_path_safe snapshot_path_def)
  show ?thesis
    using assms unfolding LoadSpecSnapshot_def p
    by (auto simp: io_defs os_ReadFile_def os_Open_def f_ReadAll_def file_at_def no_faults_def safe_name_def
        split: option.splits node.splits if_splits)
qed

lemma SaveSpecSnapshot_effect:
  assumes "SaveSpecSnapshot c root job n (Some j) w = (Inr u, w')" "safe_name job"
  shows "file_at w' = (file_at w)(snapshot_path root job n \<mapsto> job_enc c j)" "fault w' = fault w" "1 \<le> n"
proof -
  have dir: "snapshot_dir root job n = root @ [''builds'', job, Itoa n]"
    using assms(2) by (simp add: snapshot_dir_def join_path_safe)
  have p: "join_path (snapshot_dir root job n) [''spec.yaml''] = snapshot_path root job n"
    by (simp add: dir snapshot_path_def join_path_safe)
  from assms(1) obtain w1 u1 where s: "1 \<le> n" "os_MkdirAll (snapshot_dir root job n) w = (Inr u1, w1)"
    "os_WriteFile (snapshot_path root job n) (job_enc c j) w1 = (Inr u, w')"
    by (auto simp: SaveSpecSnapshot_def Let_def io_simps p split: if_splits)
  show "1 \<le> n" by (rule s(1))
  show "fault w' = fault w" using WriteFile_effect(2) [OF s(3)] MkdirAll_frame(3) [OF s(2)] by simp
  show "file_at w' = (file_at w)(snapshot_path root job n \<mapsto> job_enc c j)"
    using WriteFile_effect(1) [OF s(3)] MkdirAll_frame(1) [OF s(2)]
    by (auto simp: file_at_def fun_eq_iff)
qed

text \<open>
  The snapshot of a build is what \<^verbatim>\<open>Rebuild Last\<close> reads back: after a successful
  \<^verbatim>\<open>SaveSpecSnapshot\<close> for build \<open>n\<close>, \<^verbatim>\<open>LoadSpecSnapshot\<close> for the same job and number returns that spec, the
  live spec of every job is unchanged, and the snapshot of any other build number is unchanged.
\<close>

theorem snapshot_roundtrip:
  assumes "no_faults w" "safe_name job" "yaml_roundtrip c j"
    and "SaveSpecSnapshot c root job n (Some j) w = (Inr (), w')"
  shows "LoadSpecSnapshot c root job n w' = (Inr j, w')
    \<and> (\<forall>m. safe_name m \<longrightarrow> disk_job c root w' m = disk_job c root w m)
    \<and> (\<forall>k i. k \<noteq> n \<and> LoadSpecSnapshot c root job k w = (Inr i, w)
         \<longrightarrow> LoadSpecSnapshot c root job k w' = (Inr i, w'))"
proof -
  note eff = SaveSpecSnapshot_effect [OF assms(4,2)]
  have nf: "no_faults w'" using eff(2) assms(1) by (simp add: no_faults_def)
  have job: "job \<noteq> ''''" using assms(2) by (simp add: safe_name_def)
  have "file_at w' (snapshot_path root job n) = Some (job_enc c j)" by (simp add: eff(1))
  then have "LoadSpecSnapshot c root job n w' = (Inr j, w')"
    using LoadSpecSnapshot_iff [OF nf assms(2)] eff(3) assms(3) by (simp add: yaml_roundtrip_def)
  moreover have "disk_job c root w' m = disk_job c root w m" if "safe_name m" for m
    using that by (simp add: disk_job_def eff(1) JobPath_safe snapshot_path_def)
  moreover have "LoadSpecSnapshot c root job k w' = (Inr i, w')"
    if "k \<noteq> n" "LoadSpecSnapshot c root job k w = (Inr i, w)" for k i
    using that LoadSpecSnapshot_iff [OF nf assms(2)] LoadSpecSnapshot_iff [OF assms(1,2)]
    by (auto simp: eff(1) snapshot_path_def dest: Itoa_inj)
  ultimately show ?thesis by blast
qed

lemma DeleteJob_effect:
  assumes "no_faults w" "safe_name name"
  shows "DeleteJob root name w =
    (if fs_get w (root @ [''jobs'', name]) = None then (Inl ErrNotExist, w)
     else os_RemoveAll (root @ [''jobs'', name]) w)"
  using assms
  by (auto simp: DeleteJob_def join_path_safe os_Stat_def no_faults_def io_defs safe_name_def Let_def
      os_RemoveAll_def split: option.splits)

lemma jobs_prefix_iff:
  "prefix (root @ [''jobs'', n]) (root @ [''jobs'', m, x]) \<longleftrightarrow> n = m"
  "prefix (root @ [''jobs'', n]) (root @ [''jobs'', m]) \<longleftrightarrow> n = m"
  "\<not> prefix (root @ [''jobs'', n]) (root @ [''jobs''])"
  by auto

lemma remove_job_tree:
  assumes "os_RemoveAll (root @ [''jobs'', name]) w = (Inr u, w')" "safe_name name"
  shows "safe_name n \<Longrightarrow> disk_job c root w' n = (if n = name then None else disk_job c root w n)"
    "job_dirs root w' = job_dirs root w - {name}"
    "is_dir w (root @ [''jobs'']) \<Longrightarrow> is_dir w' (root @ [''jobs''])"
  using RemoveAll_get [OF assms(1)]
  by (auto simp: disk_job_def file_at_def JobPath_safe job_dirs_def is_dir_def jobs_prefix_iff
      split: if_splits option.splits)

lemma remove_job_store_ok:
  assumes "os_RemoveAll (root @ [''jobs'', name]) w = (Inr u, w')" "safe_name name" "store_ok c root w"
  shows "store_ok c root w' \<and> jobs_on_disk c root w' = {i \<in> jobs_on_disk c root w. Name i \<noteq> name}"
proof -
  note rm = remove_job_tree [OF assms(1,2)]
  note ok = store_okD [OF assms(3)]
  have safe: "safe_name n" if "n \<in> job_dirs root w'" for n using that ok(2) by (simp add: rm(2))
  have dj: "disk_job c root w' n = disk_job c root w n" if "n \<in> job_dirs root w'" for n
    using that safe [OF that] by (simp add: rm(1,2))
  have jobs: "jobs_on_disk c root w' = {i \<in> jobs_on_disk c root w. Name i \<noteq> name}" (is "?L = ?R")
  proof (intro equalityI subsetI)
    fix i assume "i \<in> ?L"
    then obtain n where n: "n \<in> job_dirs root w'" "n \<noteq> ''''" "disk_job c root w' n = Some i"
      unfolding jobs_on_disk_def by blast
    then have "n \<in> job_dirs root w" "n \<noteq> name" "disk_job c root w n = Some i"
      using dj by (auto simp: rm(2))
    with ok(3) n(2) show "i \<in> ?R" unfolding jobs_on_disk_def by blast
  next
    fix i assume "i \<in> ?R"
    then obtain n where n: "n \<in> job_dirs root w" "n \<noteq> ''''" "disk_job c root w n = Some i" "Name i \<noteq> name"
      unfolding jobs_on_disk_def by blast
    with ok(3) [of n i] have "n \<noteq> name" by blast
    with n have "n \<in> job_dirs root w'" by (simp add: rm(2))
    with dj n show "i \<in> ?L" unfolding jobs_on_disk_def by (metis (mono_tags, lifting) mem_Collect_eq)
  qed
  have "acyclic (spec_edges (jobs_on_disk c root w'))"
    by (rule acyclic_subset [OF ok(4)]) (auto simp: spec_edges_def jobs)
  moreover have "Name j = n" if "n \<in> job_dirs root w'" "disk_job c root w' n = Some j" for n j
    using that ok(3) dj rm(2) by (metis DiffD1)
  ultimately have "store_ok c root w'" using safe rm(3) [OF ok(1)] by (intro store_okI)
  with jobs show ?thesis by blast
qed

text \<open>
  \<^verbatim>\<open>DeleteJob\<close> removes exactly one spec: a missing job is reported as \<^verbatim>\<open>os.ErrNotExist\<close> with the disk
  unchanged; otherwise the spec directory is gone, the store stays well-formed with the other specs
  as they were, and everything outside \<^verbatim>\<open>jobs/<name>/\<close> (the build history in particular) is kept.
\<close>

theorem DeleteJob_correct:
  assumes "store_ok c root w" "no_faults w" "safe_name name"
  shows "if fs_get w (root @ [''jobs'', name]) = None then DeleteJob root name w = (Inl ErrNotExist, w)
    else \<exists>w'. DeleteJob root name w = (Inr (), w') \<and> store_ok c root w'
      \<and> jobs_on_disk c root w' = {i \<in> jobs_on_disk c root w. Name i \<noteq> name}
      \<and> (\<forall>q. \<not> prefix (root @ [''jobs'', name]) q \<longrightarrow> fs_get w' q = fs_get w q)"
proof (cases "fs_get w (root @ [''jobs'', name])")
  case None
  then show ?thesis by (simp add: DeleteJob_effect [OF assms(2,3)])
next
  case (Some n)
  let ?p = "root @ [''jobs'', name]"
  obtain w' where rm: "os_RemoveAll ?p w = (Inr (), w')"
    using assms(2) by (simp add: os_RemoveAll_def no_faults_def)
  then have "DeleteJob root name w = (Inr (), w')" using Some by (simp add: DeleteJob_effect [OF assms(2,3)])
  with Some remove_job_store_ok [OF rm assms(3,1)] RemoveAll_get [OF rm] show ?thesis by auto
qed

lemma same_jobs_tree:
  assumes "\<And>r. fs_get w' (root @ ''jobs'' # r) = fs_get w (root @ ''jobs'' # r)" "store_ok c root w"
  shows "store_ok c root w' \<and> jobs_on_disk c root w' = jobs_on_disk c root w"
proof -
  have dirs: "job_dirs root w' = job_dirs root w"
    using assms(1) [of "[_]"] by (simp add: job_dirs_def is_dir_def)
  have dj: "disk_job c root w' n = disk_job c root w n" if "n \<in> job_dirs root w" for n
    using store_okD(2) [OF assms(2) that] assms(1) [of "[n, ''job.yaml'']"]
    by (simp add: disk_job_def file_at_def JobPath_safe)
  have jobs: "jobs_on_disk c root w' = jobs_on_disk c root w"
    using dj by (simp add: jobs_on_disk_def dirs cong: bex_cong)
  have "is_dir w' (root @ [''jobs''])"
    using store_okD(1) [OF assms(2)] assms(1) [of "[]"] by (simp add: is_dir_def)
  moreover have "Name j = n" if "n \<in> job_dirs root w'" "disk_job c root w' n = Some j" for n j
    using that store_okD(3) [OF assms(2)] dj dirs by metis
  ultimately have "store_ok c root w'"
    using store_okD(2,4) [OF assms(2)] by (intro store_okI) (auto simp: dirs jobs)
  with jobs show ?thesis by blast
qed

text \<open>The successful path of \<^verbatim>\<open>RenameJob\<close> as its three phases: save, delete, move the builds.\<close>

lemma RenameJob_phases:
  assumes "RenameJob c root old new w = (Inr (), w')" "safe_name old" "safe_name new" "old \<noteq> new" "no_faults w"
  shows "\<exists>j w1 w2. disk_job c root w old = Some j
    \<and> fs_get w (root @ [''jobs'', old]) \<noteq> None \<and> fs_get w (root @ [''jobs'', new]) = None
    \<and> SaveJob c root (Some (j\<lparr>Name := new\<rparr>)) w = (Inr (), w1)
    \<and> DeleteJob root old w1 = (Inr (), w2)
    \<and> (fs_get w2 (root @ [''builds'', old]) = None \<and> w' = w2
       \<or> os_Rename (root @ [''builds'', old]) (root @ [''builds'', new]) w2 = (Inr (), w'))"
proof -
  have stat: "os_Stat p v = (case fs_get v p of None \<Rightarrow> (Inl ErrNotExist, v) | Some n \<Rightarrow> (Inr n, v))"
    if "no_faults v" for p v using that by (simp add: os_Stat_def no_faults_def)
  have paths: "join_path root [''jobs'', old] = root @ [''jobs'', old]" "join_path root [''jobs'', new] = root @ [''jobs'', new]"
    "join_path root [''builds'', old] = root @ [''builds'', old]" "join_path root [''builds'', new] = root @ [''builds'', new]"
    using assms(2,3) by (simp_all add: join_path_safe)
  from assms(1-4) obtain j w0 w1 w2 r3 w3 where s: "fs_get w (root @ [''jobs'', old]) \<noteq> None"
      "fs_get w (root @ [''jobs'', new]) = None" "LoadJob c root old w = (Inr j, w0)"
      "SaveJob c root (Some (j\<lparr>Name := new\<rparr>)) w0 = (Inr (), w1)" "DeleteJob root old w1 = (Inr (), w2)"
      "os_Stat (root @ [''builds'', old]) w2 = (r3, w3)"
      "isl r3 \<and> w' = w3 \<or> \<not> isl r3
         \<and> os_Rename (root @ [''builds'', old]) (root @ [''builds'', new]) w3 = (Inr (), w')"
    by (auto simp: RenameJob_def Let_def paths io_simps stat [OF assms(5)] safe_name_def
        split: if_splits option.splits sum.split_asm) (metis isl_def sum.exhaust)+
  have [simp]: "w0 = w" using LoadJob_world [OF s(3)] .
  have nf1: "no_faults w1"
    using SaveJob_effect [OF s(4)] assms(3,5) by (auto simp: no_faults_def safe_name_def)
  have nf: "no_faults w2"
    using s(5) nf1 RemoveAll_get [of "root @ [''jobs'', old]" w1 "()" w2]
    unfolding DeleteJob_effect [OF nf1 assms(2)] by (auto simp: no_faults_def split: if_splits)
  show ?thesis
    using s LoadJob_Inr [OF s(3)]
    by (auto simp: stat [OF nf] split: option.splits intro!: exI [of _ j] exI [of _ w1])
qed

text \<open>
  C8. \<^verbatim>\<open>RenameJob\<close> moves a job under its new name: when it succeeds, the spec appears with the new
  name, the old name is gone, the other specs are unchanged and the trigger graph is still acyclic;
  the build history found under the old name is found, entry by entry, under the new one.
\<close>

theorem RenameJob_correct:
  assumes "store_ok c root w" "no_faults w" "safe_name old" "safe_name new" "old \<noteq> new"
    and rt: "\<And>j. disk_job c root w old = Some j \<Longrightarrow> yaml_roundtrip c (j\<lparr>Name := new\<rparr>)"
    and fresh: "\<And>r. fs_get w (root @ ''builds'' # new # r) = None"
    and ren: "RenameJob c root old new w = (Inr (), w')"
  shows "\<exists>j. disk_job c root w old = Some j \<and> store_ok c root w'
    \<and> jobs_on_disk c root w' = {i \<in> jobs_on_disk c root w. Name i \<noteq> old} \<union> {j\<lparr>Name := new\<rparr>}
    \<and> (fs_get w (root @ [''builds'', old]) \<noteq> None \<longrightarrow>
         (\<forall>r. fs_get w' (root @ ''builds'' # new # r) = fs_get w (root @ ''builds'' # old # r)))"
proof -
  from RenameJob_phases [OF ren assms(3,4,5,2)] obtain j w1 w2 where ph:
    "disk_job c root w old = Some j" "fs_get w (root @ [''jobs'', new]) = None"
    "SaveJob c root (Some (j\<lparr>Name := new\<rparr>)) w = (Inr (), w1)" "DeleteJob root old w1 = (Inr (), w2)"
    "fs_get w2 (root @ [''builds'', old]) = None \<and> w' = w2
       \<or> os_Rename (root @ [''builds'', old]) (root @ [''builds'', new]) w2 = (Inr (), w')" by blast
  have nm: "Name (j\<lparr>Name := new\<rparr>) = new" by simp
  from SaveJob_store_ok_aux [OF assms(1,2) _ rt [OF ph(1)] ph(3)] assms(4)
  have ok1: "store_ok c root w1"
    and jobs1: "jobs_on_disk c root w1 = {i \<in> jobs_on_disk c root w. Name i \<noteq> new} \<union> {j\<lparr>Name := new\<rparr>}" by auto
  have eff1: "\<And>r. fs_get w1 (root @ ''builds'' # r) = fs_get w (root @ ''builds'' # r)" "no_faults w1"
    using SaveJob_frame_builds [OF ph(3)] assms(2,4) SaveJob_effect [OF ph(3)] by (auto simp: no_faults_def)
  have rm: "os_RemoveAll (root @ [''jobs'', old]) w1 = (Inr (), w2)"
    using ph(4) DeleteJob_effect [OF eff1(2) assms(3)] by (auto split: if_splits)
  note g = RemoveAll_get [OF rm]
  have b2: "fs_get w2 (root @ ''builds'' # r) = fs_get w (root @ ''builds'' # r)" for r
    using g [of "root @ ''builds'' # r"] eff1(1) by (auto simp: prefix_def)
  have ok2: "store_ok c root w2"
    and jobs2: "jobs_on_disk c root w2 = {i \<in> jobs_on_disk c root w1. Name i \<noteq> old}"
    using remove_job_store_ok [OF rm assms(3) ok1] by blast+
  have "\<And>i. i \<in> jobs_on_disk c root w \<Longrightarrow> Name i \<noteq> new"
    using store_okD(3) [OF assms(1)] ph(2) unfolding jobs_on_disk_def job_dirs_def is_dir_def by fastforce
  then have jobs: "jobs_on_disk c root w2 = {i \<in> jobs_on_disk c root w. Name i \<noteq> old} \<union> {j\<lparr>Name := new\<rparr>}"
    using assms(5) unfolding jobs2 jobs1 by auto
  have "fs_get w' (root @ ''jobs'' # r) = fs_get w2 (root @ ''jobs'' # r)" for r
    using ph(5) Rename_effect(1) [of "root @ [''builds'', old]" "root @ [''builds'', new]" w2 "()" w' "root @ ''jobs'' # r"] assms(5)
    by (auto simp: prefix_def)
  from same_jobs_tree [OF this ok2] have fin: "store_ok c root w'" "jobs_on_disk c root w' = jobs_on_disk c root w2" by auto
  have "fs_get w' (root @ ''builds'' # new # r) = fs_get w (root @ ''builds'' # old # r)"
    if "fs_get w (root @ [''builds'', old]) \<noteq> None" for r
    using ph(5) that b2 [of "[old]"] fresh b2 [of "old # r"] b2 [of "new # _"] assms(5)
      Rename_effect(2) [of "root @ [''builds'', old]" "root @ [''builds'', new]" w2 "()" w' r] by auto
  with ph(1) fin jobs show ?thesis by blast
qed

section \<open>A concrete store\<close>

text \<open>
  A store with one spec, \<open>deploy\<close>, and a spec \<open>hello\<close> that triggers it; a small codec for these specs
  stands in for the YAML library. The properties above are applied to it.
\<close>

definition demo_root :: path where "demo_root = [''srv'']"

definition demo_deploy :: Job where "demo_deploy = empty_job ''deploy''"

definition demo_hello :: Job where
  "demo_hello = (empty_job ''hello'')\<lparr>TriggersDownstream := [\<lparr>ts_Name = ''deploy'', Artifacts = [''out.tgz'']\<rparr>]\<rparr>"

definition demo_loop :: Job where
  "demo_loop = (empty_job ''deploy'')\<lparr>TriggersDownstream := [\<lparr>ts_Name = ''hello'', Artifacts = []\<rparr>]\<rparr>"

definition demo_codec :: codec where
  "demo_codec = \<lparr>job_enc = (\<lambda>j. Name j @ (if TriggersDownstream j = [] then '''' else ''*'')),
     job_dec = (\<lambda>s. if s = ''deploy'' then Some demo_deploy else if s = ''hello*'' then Some demo_hello
                    else if s = ''deploy*'' then Some demo_loop
                    else if s = ''prod'' then Some (demo_deploy\<lparr>Name := ''prod''\<rparr>) else None)\<rparr>"

definition demo_world :: world where
  "demo_world = \<lparr>files = [([''srv''], DirN 0), ([''srv'', ''jobs''], DirN 0),
      ([''srv'', ''jobs'', ''deploy''], DirN 1), ([''srv'', ''jobs'', ''deploy'', ''job.yaml''], FileN ''deploy'' 1),
      ([''srv'', ''builds''], DirN 2), ([''srv'', ''builds'', ''deploy''], DirN 2),
      ([''srv'', ''builds'', ''deploy'', ''nextBuild''], FileN ''2'' 3)],
     clock = 7, fault = (\<lambda>_ _. False), torn = (\<lambda>_. 0)\<rparr>"

definition demo_saved :: world where
  "demo_saved = snd (SaveJob demo_codec demo_root (Some demo_hello) demo_world)"

lemma demo_no_faults: "no_faults demo_world"
  by (simp add: no_faults_def demo_world_def)

lemma demo_save: "SaveJob demo_codec demo_root (Some demo_hello) demo_world = (Inr (), demo_saved)"
proof -
  have "fst (SaveJob demo_codec demo_root (Some demo_hello) demo_world) = Inr ()" by code_simp
  then show ?thesis unfolding demo_saved_def by (metis prod.collapse)
qed

lemma demo_job_dirs: "job_dirs demo_root demo_world = {''deploy''}"
  by (auto simp: job_dirs_def demo_root_def demo_world_def is_dir_def fs_get_def split: if_splits)

lemma demo_disk: "disk_job demo_codec demo_root demo_world ''deploy'' = Some demo_deploy"
  by code_simp

lemma demo_jobs: "jobs_on_disk demo_codec demo_root demo_world = {demo_deploy}"
  by (auto simp: jobs_on_disk_def demo_job_dirs demo_disk)

lemma demo_names:
  "Name demo_deploy = ''deploy''" "Name demo_hello = ''hello''" "Name demo_loop = ''deploy''"
  "downstreamNames demo_deploy = []" "downstreamNames demo_hello = [''deploy'']"
  "downstreamNames demo_loop = [''hello'']"
  by code_simp+

lemma demo_store_ok: "store_ok demo_codec demo_root demo_world"
proof (rule store_okI)
  show "is_dir demo_world (demo_root @ [''jobs''])" by code_simp
  show "safe_name n" if "n \<in> job_dirs demo_root demo_world" for n
    using that by (simp add: demo_job_dirs safe_name_def)
  show "Name j = n" if "n \<in> job_dirs demo_root demo_world" "disk_job demo_codec demo_root demo_world n = Some j" for n j
    using that by (auto simp: demo_job_dirs demo_disk demo_deploy_def empty_job_def)
  show "acyclic (spec_edges (jobs_on_disk demo_codec demo_root demo_world))"
    by (simp add: demo_jobs spec_edges_simps demo_names acyclic_def)
qed

lemma demo_hello_ok: "safe_name (Name demo_hello)" "yaml_roundtrip demo_codec demo_hello"
  by code_simp+

theorem SaveJob_store_ok_witness:
  "store_ok demo_codec demo_root demo_saved \<and>
   jobs_on_disk demo_codec demo_root demo_saved = {demo_deploy, demo_hello}"
proof -
  have "Name demo_deploy \<noteq> Name demo_hello" by code_simp
  then show ?thesis
    using SaveJob_store_ok [OF demo_store_ok demo_no_faults demo_hello_ok demo_save]
    by (auto simp: demo_jobs)
qed

lemma demo_saved_ok: "store_ok demo_codec demo_root demo_saved" "no_faults demo_saved"
    "jobs_on_disk demo_codec demo_root demo_saved = {demo_deploy, demo_hello}"
proof -
  have ne: "Name demo_deploy \<noteq> Name demo_hello" by code_simp
  show jobs: "jobs_on_disk demo_codec demo_root demo_saved = {demo_deploy, demo_hello}"
    using SaveJob_jobs_on_disk [OF demo_save demo_hello_ok demo_store_ok] ne by (auto simp: demo_jobs)
  show "no_faults demo_saved"
    using SaveJob_effect [OF demo_save] demo_no_faults by (simp add: no_faults_def)
  have dirs: "job_dirs demo_root demo_saved = {''hello'', ''deploy''}"
    using SaveJob_job_dirs [OF demo_save demo_hello_ok(1)]
    by (simp add: demo_job_dirs demo_hello_def empty_job_def)
  show "store_ok demo_codec demo_root demo_saved"
  proof (rule store_okI)
    show "is_dir demo_saved (demo_root @ [''jobs''])" by code_simp
    show "safe_name n" if "n \<in> job_dirs demo_root demo_saved" for n
      using that by (auto simp: dirs safe_name_def)
    have "disk_job demo_codec demo_root demo_saved ''deploy'' = Some demo_deploy"
      "disk_job demo_codec demo_root demo_saved ''hello'' = Some demo_hello" by code_simp+
    then show "Name j = n" if "n \<in> job_dirs demo_root demo_saved"
        "disk_job demo_codec demo_root demo_saved n = Some j" for n j
      using that by (auto simp: dirs demo_deploy_def demo_hello_def empty_job_def)
    have "spec_edges {demo_deploy, demo_hello} = {(''hello'', ''deploy'')}"
      by (simp add: spec_edges_simps demo_names)
    then show "acyclic (spec_edges (jobs_on_disk demo_codec demo_root demo_saved))"
      by (simp add: jobs acyclic_def trancl_insert)
  qed
qed

theorem SaveJob_rejects_cycles_witness:
  "\<exists>e w'. SaveJob demo_codec demo_root (Some demo_loop) demo_saved = (Inl e, w')
     \<and> errors_Is e ErrCycleInTriggerGraph \<and> w' = demo_saved"
proof -
  have nm: "Name demo_loop \<noteq> ''''" by (simp add: demo_names)
  have J: "{i \<in> {demo_deploy, demo_hello}. Name i \<noteq> Name demo_loop} \<union> {demo_loop} = {demo_hello, demo_loop}"
    by (auto simp: demo_names)
  have "(Name demo_loop, Name demo_loop) \<in> (spec_edges {demo_hello, demo_loop})\<^sup>+"
    by (rule trancl_into_trancl2 [OF _ r_into_trancl]) (auto simp: spec_edges_simps demo_names)
  then show ?thesis
    using SaveJob_rejects_cycles [OF demo_saved_ok(1,2) nm] by (simp only: demo_saved_ok(3) J)
qed

theorem save_then_load_witness:
  "LoadJob demo_codec demo_root ''hello'' demo_saved = (Inr demo_hello, demo_saved)
   \<and> LoadJob demo_codec demo_root ''deploy'' demo_saved = (Inr demo_deploy, demo_saved)"
proof -
  have "LoadJob demo_codec demo_root ''deploy'' demo_world = (Inr demo_deploy, demo_world)"
    by (rule LoadJob_ok [OF demo_no_faults _ demo_disk]) simp
  moreover have "Name demo_hello = ''hello''" "safe_name ''deploy''" by code_simp+
  ultimately show ?thesis
    using save_then_load [OF demo_no_faults demo_hello_ok demo_save] by simp
qed

theorem snapshot_roundtrip_witness:
  "\<exists>w'. LoadSpecSnapshot demo_codec demo_root ''hello'' 3 w' = (Inr demo_hello, w')
     \<and> w' = snd (SaveSpecSnapshot demo_codec demo_root ''hello'' 3 (Some demo_hello) demo_world)"
proof -
  let ?s = "SaveSpecSnapshot demo_codec demo_root ''hello'' 3 (Some demo_hello) demo_world"
  have "fst ?s = Inr ()" "safe_name ''hello''" by code_simp+
  moreover from this(1) have "?s = (Inr (), snd ?s)" by (metis prod.collapse)
  ultimately show ?thesis
    using snapshot_roundtrip [OF demo_no_faults _ demo_hello_ok(2)] by blast
qed

theorem DeleteJob_correct_witness:
  "\<exists>w'. DeleteJob demo_root ''hello'' demo_saved = (Inr (), w') \<and> store_ok demo_codec demo_root w'
     \<and> jobs_on_disk demo_codec demo_root w' = {demo_deploy}"
proof -
  have ex: "fs_get demo_saved (demo_root @ [''jobs'', ''hello'']) \<noteq> None" and sn: "safe_name ''hello''" by code_simp+
  have "{i \<in> {demo_deploy, demo_hello}. Name i \<noteq> ''hello''} = {demo_deploy}" by (auto simp: demo_names)
  then show ?thesis
    using DeleteJob_correct [OF demo_saved_ok(1,2) sn] unfolding if_not_P [OF ex] demo_saved_ok(3) by auto
qed

theorem RenameJob_correct_witness:
  "let w' = snd (RenameJob demo_codec demo_root ''deploy'' ''prod'' demo_world) in
   store_ok demo_codec demo_root w' \<and> jobs_on_disk demo_codec demo_root w' = {demo_deploy\<lparr>Name := ''prod''\<rparr>}
   \<and> file_at w' (demo_root @ [''builds'', ''prod'', ''nextBuild'']) = Some ''2''"
proof -
  let ?r = "RenameJob demo_codec demo_root ''deploy'' ''prod'' demo_world"
  have "fst ?r = Inr ()" by code_simp
  then have r: "?r = (Inr (), snd ?r)" by (metis prod.collapse)
  have sn: "safe_name ''deploy''" "safe_name ''prod''" "''deploy'' \<noteq> ''prod''" by code_simp+
  have rt: "yaml_roundtrip demo_codec (j\<lparr>Name := ''prod''\<rparr>)"
    if "disk_job demo_codec demo_root demo_world ''deploy'' = Some j" for j
  proof -
    have "yaml_roundtrip demo_codec (demo_deploy\<lparr>Name := ''prod''\<rparr>)" by code_simp
    with that show ?thesis by (simp add: demo_disk)
  qed
  have fresh: "fs_get demo_world (demo_root @ ''builds'' # ''prod'' # p) = None" for p
    by (simp add: fs_get_def demo_world_def demo_root_def)
  have ex: "fs_get demo_world (demo_root @ [''builds'', ''deploy'']) \<noteq> None" by code_simp
  have nb: "file_at demo_world (demo_root @ [''builds'', ''deploy'', ''nextBuild'']) = Some ''2''" by code_simp
  have "{i \<in> {demo_deploy}. Name i \<noteq> ''deploy''} = {}" by (simp add: demo_names)
  then show ?thesis
    using RenameJob_correct [OF demo_store_ok demo_no_faults sn rt fresh r] ex nb
    by (auto simp: Let_def demo_jobs demo_disk file_at_def)
qed

end
