(* ===== verification/Scheduler.thy ===== *)
theory Scheduler
  imports Storage
begin

text \<open>
  The build queue of \<^verbatim>\<open>internal/scheduler/scheduler.go\<close>: build numbers from a counter file, the FIFO
  queue, the dispatch loop with its downstream fan-out, and shutdown. A \<^verbatim>\<open>chan BuildResult\<close> made by
  \<^verbatim>\<open>Enqueue\<close> is an index into \<open>chans\<close>, the buffered values of every channel made so far (capacity 1).
  The executor is an interface in the source; here it is a parameter that may write the disk.
\<close>

section \<open>Data\<close>

type_synonym Status = string

definition StatusSuccess :: Status where "StatusSuccess = ''success''"
definition StatusFailure :: Status where "StatusFailure = ''failure''"
definition StatusCancelled :: Status where "StatusCancelled = ''cancelled''"
definition StatusError :: Status where "StatusError = ''error''"

record BuildRef =
  ref_Job :: string
  ref_Build :: int

record BuildResult =
  JobName :: string
  Number :: int
  res_Status :: Status
  ExitCode :: int
  res_Error :: string
  TriggeredBy :: "BuildRef option"

record queuedJob =
  qj_job :: Job
  qj_num :: int
  qj_done :: nat
  qj_parent :: "BuildRef option"

type_synonym buildKey = "string \<times> int"

abbreviation qkey :: "queuedJob \<Rightarrow> buildKey" where
  "qkey q \<equiv> (Name (qj_job q), qj_num q)"

record Scheduler =
  queue :: "queuedJob list"
  results :: "(buildKey \<times> BuildResult) list"
  stopped :: bool
  bgDone :: bool
  chans :: "BuildResult list list"
  disk :: world

text \<open>\<^verbatim>\<open>Execute(ctx, job, buildNum)\<close>; the context carries the \<^verbatim>\<open>TriggeredBy\<close> reference.\<close>

type_synonym executor = "BuildRef option \<Rightarrow> Job \<Rightarrow> int \<Rightarrow> world \<Rightarrow> BuildResult \<times> world"

definition newScheduler :: "world \<Rightarrow> Scheduler" where
  "newScheduler w = \<lparr>queue = [], results = [], stopped = False, bgDone = False, chans = [], disk = w\<rparr>"

section \<open>Build numbers\<close>

definition parse_counter :: "string \<Rightarrow> int io" where
  "parse_counter data =
     (let s = TrimSpace data in
      if s = '''' then returnIO 0
      else case Atoi s of
             None \<Rightarrow> raiseIO (Wrap ''scheduler.nextBuildNumber: parse'' (Msg s))
           | Some n \<Rightarrow> returnIO n)"

definition nextBuildNumber :: "path \<Rightarrow> string \<Rightarrow> int io" where
  "nextBuildNumber root jobName =
     (let dir = join_path root [''builds'', jobName];
          path = join_path dir [''.next-build-number''] in
      seqIO (wrapIO ''scheduler.nextBuildNumber: mkdir'' (os_MkdirAll dir))
     (seqIO (wrapIO ''scheduler.nextBuildNumber: open'' (os_OpenFile_create path))
     (seqIO (wrapIO ''scheduler.nextBuildNumber: flock'' (f_Flock path))
     (bindIO (wrapIO ''scheduler.nextBuildNumber: read'' (f_ReadAll path)) (\<lambda>data.
      bindIO (parse_counter data) (\<lambda>current.
      let next = go_int (current + 1) in
      seqIO (wrapIO ''scheduler.nextBuildNumber: truncate'' (f_Truncate path))
     (seqIO (wrapIO ''scheduler.nextBuildNumber: seek'' (f_Seek path))
     (seqIO (wrapIO ''scheduler.nextBuildNumber: write'' (f_Write path (Itoa next @ [CHR 0x0A])))
            (returnIO next)))))))))"

section \<open>Enqueueing\<close>

text \<open>
  \<^verbatim>\<open>enqueueWithParent\<close> in its two atomic parts: claiming a number and the best-effort snapshot, then the
  append under the mutex.
\<close>

definition alloc_build :: "codec \<Rightarrow> path \<Rightarrow> Job option \<Rightarrow> BuildRef option \<Rightarrow> Scheduler \<Rightarrow> queuedJob res \<times> Scheduler" where
  "alloc_build c root job parent s =
     (case job of None \<Rightarrow> (Inl (Msg ''scheduler.Enqueue: nil Job''), s)
      | Some j \<Rightarrow>
          if Name j = '''' then (Inl (Msg ''scheduler.Enqueue: Job.Name is required''), s)
          else (case nextBuildNumber root (Name j) (disk s) of
                  (Inl e, w) \<Rightarrow> (Inl e, s\<lparr>disk := w\<rparr>)
                | (Inr num, w) \<Rightarrow>
                    let w' = snd (SaveSpecSnapshot c root (Name j) num (Some j) w)
                    in (Inr \<lparr>qj_job = j, qj_num = num, qj_done = length (chans s), qj_parent = parent\<rparr>,
                        s\<lparr>disk := w', chans := chans s @ [[]]\<rparr>)))"

definition append_queue :: "queuedJob \<Rightarrow> Scheduler \<Rightarrow> Scheduler" where
  "append_queue q s = s\<lparr>queue := queue s @ [q]\<rparr>"

definition enqueueWithParent :: "codec \<Rightarrow> path \<Rightarrow> Job option \<Rightarrow> BuildRef option \<Rightarrow> Scheduler \<Rightarrow> (int \<times> nat) res \<times> Scheduler" where
  "enqueueWithParent c root job parent s =
     (case alloc_build c root job parent s of
        (Inl e, s') \<Rightarrow> (Inl e, s')
      | (Inr q, s') \<Rightarrow> (Inr (qj_num q, qj_done q), append_queue q s'))"

definition Enqueue :: "codec \<Rightarrow> path \<Rightarrow> Job option \<Rightarrow> Scheduler \<Rightarrow> (int \<times> nat) res \<times> Scheduler" where
  "Enqueue c root job s = enqueueWithParent c root job None s"

definition EnqueueChild :: "codec \<Rightarrow> path \<Rightarrow> Job option \<Rightarrow> BuildRef option \<Rightarrow> Scheduler \<Rightarrow> (int \<times> nat) res \<times> Scheduler" where
  "EnqueueChild c root job parent s = enqueueWithParent c root job parent s"

definition Result :: "Scheduler \<Rightarrow> string \<Rightarrow> int \<Rightarrow> BuildResult option" where
  "Result s jobName num = map_of (results s) (jobName, num)"

section \<open>The dispatch loop\<close>

definition loop_take :: "Scheduler \<Rightarrow> (queuedJob \<times> Scheduler) option" where
  "loop_take s =
     (if stopped s then None
      else case queue s of [] \<Rightarrow> None | q # qs \<Rightarrow> Some (q, s\<lparr>queue := qs\<rparr>))"

definition stamp :: "queuedJob \<Rightarrow> BuildResult \<Rightarrow> BuildResult" where
  "stamp q r0 =
     (let r1 = (if JobName r0 = '''' then r0\<lparr>JobName := Name (qj_job q)\<rparr> else r0);
          r2 = (if Number r1 = 0 then r1\<lparr>Number := qj_num q\<rparr> else r1)
      in if qj_parent q \<noteq> None \<and> TriggeredBy r2 = None then r2\<lparr>TriggeredBy := qj_parent q\<rparr> else r2)"

definition record_result :: "queuedJob \<Rightarrow> BuildResult \<Rightarrow> Scheduler \<Rightarrow> Scheduler" where
  "record_result q r s = s\<lparr>results := AList.update (qkey q) r (results s)\<rparr>"

text \<open>\<^verbatim>\<open>q.done <- result\<close>: \<open>None\<close> while the buffer of the channel is full.\<close>

definition send_done :: "queuedJob \<Rightarrow> BuildResult \<Rightarrow> Scheduler \<Rightarrow> Scheduler option" where
  "send_done q r s =
     (if qj_done q < length (chans s) \<and> length (chans s ! qj_done q) < 1
      then Some (s\<lparr>chans := (chans s)[qj_done q := chans s ! qj_done q @ [r]]\<rparr>) else None)"

definition fan_targets :: "queuedJob \<Rightarrow> BuildResult \<Rightarrow> TriggerSpec list" where
  "fan_targets q r = (if res_Status r = StatusSuccess then TriggersDownstream (qj_job q) else [])"

definition fan_ref :: "queuedJob \<Rightarrow> BuildRef" where
  "fan_ref q = \<lparr>ref_Job = Name (qj_job q), ref_Build = qj_num q\<rparr>"

text \<open>One target of the fan-out: an empty name, a missing spec and a failed enqueue are all skipped.\<close>

definition fan_one :: "codec \<Rightarrow> path \<Rightarrow> BuildRef \<Rightarrow> TriggerSpec \<Rightarrow> Scheduler \<Rightarrow> Scheduler" where
  "fan_one c root parent ts s =
     (if ts_Name ts = '''' then s
      else case LoadJob c root (ts_Name ts) (disk s) of
             (Inl e, w) \<Rightarrow> s\<lparr>disk := w\<rparr>
           | (Inr down, w) \<Rightarrow> snd (enqueueWithParent c root (Some down) (Some parent) (s\<lparr>disk := w\<rparr>)))"

definition fanout :: "codec \<Rightarrow> path \<Rightarrow> BuildRef \<Rightarrow> TriggerSpec list \<Rightarrow> Scheduler \<Rightarrow> Scheduler" where
  "fanout c root parent tss s = fold (fan_one c root parent) tss s"

text \<open>
  One turn of the loop run without interference: \<open>None\<close> when the loop waits (empty queue), has been
  stopped, or is blocked on a full channel.
\<close>

definition loop_iter :: "codec \<Rightarrow> path \<Rightarrow> executor \<Rightarrow> Scheduler \<Rightarrow> Scheduler option" where
  "loop_iter c root Execute s =
     (case loop_take s of None \<Rightarrow> None
      | Some (q, s1) \<Rightarrow>
          let (r0, w) = Execute (qj_parent q) (qj_job q) (qj_num q) (disk s1);
              r = stamp q r0
          in (case send_done q r (record_result q r (s1\<lparr>disk := w\<rparr>)) of
                None \<Rightarrow> None
              | Some s2 \<Rightarrow> Some (fanout c root (fan_ref q) (fan_targets q r) s2)))"

text \<open>\<^verbatim>\<open>Stop\<close> up to the wait for the loop: the flag and the background context.\<close>

definition Stop :: "Scheduler \<Rightarrow> Scheduler" where
  "Stop s = s\<lparr>stopped := True, bgDone := True\<rparr>"

section \<open>The counter file\<close>

definition counter_path :: "path \<Rightarrow> string \<Rightarrow> path" where
  "counter_path root jobName = join_path root [''builds'', jobName] @ [''.next-build-number'']"

text \<open>The value the counter file stands for; \<open>None\<close> when its content does not parse.\<close>

definition counter :: "world \<Rightarrow> path \<Rightarrow> int option" where
  "counter w p = (case file_at w p of None \<Rightarrow> Some 0
     | Some b \<Rightarrow> if TrimSpace b = '''' then Some 0 else Atoi (TrimSpace b))"

lemma TrimSpace_Nil [simp]: "TrimSpace '''' = ''''"
  by (simp add: TrimSpace_def)

lemma counter_file_path: "join_path (join_path root [''builds'', jobName]) [''.next-build-number''] = counter_path root jobName"
  by (simp add: counter_path_def join_path_safe safe_name_def)

lemma parse_counter_Inr: "parse_counter b w = (Inr v, w') \<longleftrightarrow>
    w' = w \<and> (if TrimSpace b = '''' then Some 0 else Atoi (TrimSpace b)) = Some v"
  by (auto simp: parse_counter_def Let_def io_defs split: option.splits)

lemma parse_counter_world: "parse_counter b w = (r, w') \<Longrightarrow> w' = w"
  by (auto simp: parse_counter_def Let_def io_defs split: option.splits if_splits)

lemma Atoi_le: "Atoi s = Some v \<Longrightarrow> v \<le> max_int \<and> min_int \<le> v"
  by (auto simp: Atoi_def Let_def split: if_splits prod.splits)

lemma counter_range: "counter w p = Some v \<Longrightarrow> v \<le> max_int \<and> min_int \<le> v"
  by (auto simp: counter_def max_int_def min_int_def dest: Atoi_le split: option.splits if_splits)

lemma counter_cong: "file_at w' p = file_at w p \<Longrightarrow> counter w' p = counter w p"
  by (simp add: counter_def)

lemma OpenFile_counter:
  assumes "os_OpenFile_create p w = (r, w')"
  shows "counter w' q = counter w q" "fault w' = fault w" "isl r \<or> (\<exists>b. file_at w' p = Some b)"
  using assms
  by (auto simp: os_OpenFile_create_def counter_def file_at_def split: if_splits option.splits node.splits)

text \<open>Without faults, the counter file is advanced by exactly one on success and keeps its value otherwise.\<close>

lemma nextBuildNumber_effect:
  assumes "no_faults w" "nextBuildNumber root job w = (r, w')"
  shows "fault w' = fault w" "q \<noteq> counter_path root job \<Longrightarrow> counter w' q = counter w q"
    "r = Inl e \<Longrightarrow> counter w' q = counter w q"
    "r = Inr n \<Longrightarrow> \<exists>v. counter w (counter_path root job) = Some v \<and> n = go_int (v + 1)
        \<and> counter w' (counter_path root job) = Some n"
proof -
  let ?p = "counter_path root job"
  obtain r1 w1 where mk: "os_MkdirAll (join_path root [''builds'', job]) w = (r1, w1)" by (cases "os_MkdirAll (join_path root [''builds'', job]) w")
  obtain r2 w2 where op: "os_OpenFile_create ?p w1 = (r2, w2)" by (cases "os_OpenFile_create ?p w1")
  have f1: "fault w1 = fault w" and c1: "\<And>q. counter w1 q = counter w q"
    using MkdirAll_frame(1,3) [OF mk] by (auto simp: counter_def)
  have f2: "fault w2 = fault w" and c2: "\<And>q. counter w2 q = counter w q"
    using OpenFile_counter [OF op] f1 c1 by auto
  have nf: "\<And>op q. \<not> fault w2 op q" using assms(1) f2 by (simp add: no_faults_def)
  have fail: "isl r1 \<Longrightarrow> isl r \<and> w' = w1" "\<not> isl r1 \<Longrightarrow> isl r2 \<Longrightarrow> isl r \<and> w' = w2"
    using assms(2) mk op
    by (auto simp: nextBuildNumber_def Let_def counter_file_path io_defs split: sum.splits)
  have "fault w' = fault w \<and> (q \<noteq> ?p \<longrightarrow> counter w' q = counter w q) \<and> (isl r \<longrightarrow> counter w' q = counter w q)
     \<and> (\<forall>n. r = Inr n \<longrightarrow> (\<exists>v. counter w ?p = Some v \<and> n = go_int (v + 1) \<and> counter w' ?p = Some n))"
  proof (cases "isl r1 \<or> isl r2")
    case True
    with fail f1 f2 c1 c2 show ?thesis by (cases "isl r1") auto
  next
    case False
    then obtain b where b: "file_at w2 ?p = Some b" using OpenFile_counter(3) [OF op] by auto
    have rd: "f_ReadAll ?p w2 = (Inr b, w2)"
      using b nf by (auto simp: f_ReadAll_def file_at_def split: option.splits node.splits)
    obtain r5 where pc: "parse_counter b w2 = (r5, w2)" by (metis parse_counter_world surj_pair)
    have tail: "nextBuildNumber root job w = (case r5 of Inl e \<Rightarrow> (Inl e, w2)
        | Inr v \<Rightarrow> let n = go_int (v + 1) in (Inr n, fs_put ?p (FileN (Itoa n @ [CHR 0x0A]) (clock w2)) (fs_put ?p (FileN '''' (clock w2)) w2)))"
      using False nf pc
      by (cases r1; cases r2)
        (auto simp: nextBuildNumber_def Let_def counter_file_path io_defs mk op f_Flock_def rd f_Truncate_def
          f_Seek_def f_Write_def file_at_def split: sum.splits)
    show ?thesis
    proof (cases r5)
      case (Inl e)
      then show ?thesis using tail assms(2) f2 c2 by auto
    next
      case (Inr v)
      have v: "counter w ?p = Some v"
        using pc Inr parse_counter_Inr [of b w2 v w2] b c2 [of ?p, symmetric] by (simp add: counter_def)
      let ?n = "go_int (v + 1)"
      have "r = Inr ?n" "w' = fs_put ?p (FileN (Itoa ?n @ [CHR 0x0A]) (clock w2)) (fs_put ?p (FileN '''' (clock w2)) w2)"
        using tail assms(2) Inr by (auto simp: Let_def)
      then show ?thesis
        using v f2 c2 [of q] Atoi_Itoa [of ?n] go_int_range [of "v + 1"] by (auto simp: counter_def file_at_def)
    qed
  qed
  then show "fault w' = fault w" "q \<noteq> ?p \<Longrightarrow> counter w' q = counter w q" "r = Inl e \<Longrightarrow> counter w' q = counter w q"
    "r = Inr n \<Longrightarrow> \<exists>v. counter w ?p = Some v \<and> n = go_int (v + 1) \<and> counter w' ?p = Some n" by auto
qed

lemma SaveSpecSnapshot_counter:
  assumes "SaveSpecSnapshot c root name n j w = (r, w')"
  shows "counter w' (d @ [''.next-build-number'']) = counter w (d @ [''.next-build-number''])" "fault w' = fault w"
proof -
  have p: "join_path d' [''spec.yaml''] = d' @ [''spec.yaml'']" for d' by (simp add: join_path_safe)
  have "w' = w \<or> (\<exists>r1 w1. os_MkdirAll (snapshot_dir root name n) w = (r1, w1)
      \<and> (w' = w1 \<or> (\<exists>b r2. os_WriteFile (snapshot_dir root name n @ [''spec.yaml'']) b w1 = (r2, w'))))"
    using assms
    by (auto simp: SaveSpecSnapshot_def Let_def io_defs p split: if_splits option.splits sum.splits prod.splits)
  then have "file_at w' (d @ [''.next-build-number'']) = file_at w (d @ [''.next-build-number'']) \<and> fault w' = fault w"
  proof (elim disjE exE conjE)
    fix r1 w1 b r2
    assume mk: "os_MkdirAll (snapshot_dir root name n) w = (r1, w1)"
      and wr: "os_WriteFile (snapshot_dir root name n @ [''spec.yaml'']) b w1 = (r2, w')"
    show ?thesis
      using MkdirAll_frame(1,3) [OF mk] WriteFile_frame(1) [OF wr, of "d @ [''.next-build-number'']"] WriteFile_frame(3) [OF wr]
      by (auto simp: file_at_def fun_eq_iff)
  qed (auto dest: MkdirAll_frame(1,3))
  then show "counter w' (d @ [''.next-build-number'']) = counter w (d @ [''.next-build-number''])" "fault w' = fault w"
    by (simp_all add: counter_def)
qed

text \<open>
  The counter is truncated before the new value is written: when that write fails, the error is
  reported but the counter file is left empty, and the next successful call gives out build number 1
  again, whatever the counter was.
\<close>

theorem failed_write_resets_counter:
  assumes "os_MkdirAll (join_path root [''builds'', job]) w = (Inr (), w)"
    and "file_at w (counter_path root job) = Some b" "counter w (counter_path root job) = Some v"
    and "\<And>op q. fault w op q \<longleftrightarrow> op = OpWrite \<and> q = counter_path root job" "torn w (counter_path root job) = 0"
  shows "\<exists>e w'. nextBuildNumber root job w = (Inl e, w') \<and> counter w' (counter_path root job) = Some 0
    \<and> (\<forall>n w''. nextBuildNumber root job (w'\<lparr>fault := (\<lambda>_ _. False)\<rparr>) = (Inr n, w'') \<longrightarrow> n = 1)"
proof -
  let ?p = "counter_path root job"
  define w' where "w' = fs_put ?p (FileN '''' (clock w)) (fs_put ?p (FileN '''' (clock w)) w)"
  obtain t where get: "fs_get w ?p = Some (FileN b t)"
    using assms(2) by (auto simp: file_at_def split: option.splits node.splits)
  obtain d where "?p = d @ [''.next-build-number'']" and "is_dir w d" and bl: "butlast ?p = d"
    using MkdirAll_is_dir [OF assms(1)] by (simp add: counter_path_def)
  then have op: "os_OpenFile_create ?p w = (Inr (), w)" using get assms(4) by (simp add: os_OpenFile_create_def)
  have pc: "parse_counter b w = (Inr v, w)"
    using assms(2,3) by (auto simp: parse_counter_Inr counter_def)
  have fail: "\<exists>e. nextBuildNumber root job w = (Inl e, w')"
    using get assms(4,5)
    by (simp add: nextBuildNumber_def Let_def counter_file_path io_defs assms(1) op f_Flock_def f_ReadAll_def pc f_Truncate_def
        f_Seek_def f_Write_def file_at_def w'_def)
  have zero: "counter w' ?p = Some 0" by (simp add: counter_def file_at_def w'_def)
  have "n = 1" if "nextBuildNumber root job (w'\<lparr>fault := (\<lambda>_ _. False)\<rparr>) = (Inr n, w'')" for n w''
  proof -
    have "no_faults (w'\<lparr>fault := (\<lambda>_ _. False)\<rparr>)" by (simp add: no_faults_def)
    from nextBuildNumber_effect(4) [OF this that refl] zero show ?thesis
      by (simp add: counter_def file_at_def fs_get_def go_int_def)
  qed
  with fail zero show ?thesis by blast
qed

definition demo_full_disk :: world where
  "demo_full_disk = \<lparr>files = [([''srv''], DirN 0), ([''srv'', ''builds''], DirN 0), ([''srv'', ''builds'', ''deploy''], DirN 1),
      ([''srv'', ''builds'', ''deploy'', ''.next-build-number''], FileN (''41'' @ [CHR 0x0A]) 1)],
     clock = 7, fault = (\<lambda>op q. op = OpWrite \<and> q = [''srv'', ''builds'', ''deploy'', ''.next-build-number'']), torn = (\<lambda>_. 0)\<rparr>"

theorem failed_write_resets_counter_witness:
  "counter demo_full_disk (counter_path demo_root ''deploy'') = Some 41 \<and>
   (\<exists>e w'. nextBuildNumber demo_root ''deploy'' demo_full_disk = (Inl e, w')
      \<and> counter w' (counter_path demo_root ''deploy'') = Some 0)"
proof -
  have p: "counter_path demo_root ''deploy'' = [''srv'', ''builds'', ''deploy'', ''.next-build-number'']" by code_simp
  have mk: "os_MkdirAll (join_path demo_root [''builds'', ''deploy'']) demo_full_disk = (Inr (), demo_full_disk)"
  proof -
    have "join_path demo_root [''builds'', ''deploy''] = [''srv'', ''builds'', ''deploy'']" by code_simp
    then show ?thesis by (simp add: os_MkdirAll_def demo_full_disk_def fs_get_def)
  qed
  have f: "file_at demo_full_disk (counter_path demo_root ''deploy'') = Some (''41'' @ [CHR 0x0A])" by code_simp
  have c: "counter demo_full_disk (counter_path demo_root ''deploy'') = Some 41" by code_simp
  show ?thesis
    using failed_write_resets_counter [OF mk f c] c by (auto simp: p demo_full_disk_def)
qed

end
