(* ===== verification/SchedRun.thy ===== *)
theory SchedRun
  imports Scheduler "HOL-Library.Multiset"
begin

text \<open>
  The scheduler under concurrency. Any goroutine may enqueue or stop while the dispatch loop runs; a
  configuration holds the scheduler, the builds that have their number but are not yet in the queue,
  and the position of the loop. A step is one critical section of the code: the flock of the counter,
  one section under the mutex, one channel operation, or the executor's run.
\<close>

section \<open>Configurations and steps\<close>

datatype phase =
    Idle
  | Running queuedJob
  | Recorded queuedJob BuildResult
  | FanOut BuildRef "TriggerSpec list"
  | FanAppend queuedJob BuildRef "TriggerSpec list"
  | Exited

record config =
  sch :: Scheduler
  inflight :: "queuedJob list"
  phase :: phase

datatype event =
    Alloc queuedJob
  | AllocFail goerr
  | Append queuedJob
  | Take queuedJob
  | Finish queuedJob BuildResult
  | Send queuedJob BuildResult
  | Skip
  | StopEv

text \<open>
  The executor may write anywhere but to the counter files; this is what the loop relies on.
\<close>

definition exec_frame :: "world \<Rightarrow> world \<Rightarrow> bool" where
  "exec_frame w w' \<longleftrightarrow> fault w' = fault w \<and>
     (\<forall>d. file_at w' (d @ [''.next-build-number'']) = file_at w (d @ [''.next-build-number'']))"

inductive step :: "codec \<Rightarrow> path \<Rightarrow> config \<Rightarrow> event \<Rightarrow> config \<Rightarrow> bool" for c root where
  alloc: "alloc_build c root j par (sch g) = (Inr q, s') \<Longrightarrow>
     step c root g (Alloc q) (g\<lparr>sch := s', inflight := q # inflight g\<rparr>)"
| alloc_fail: "alloc_build c root j par (sch g) = (Inl e, s') \<Longrightarrow>
     step c root g (AllocFail e) (g\<lparr>sch := s'\<rparr>)"
| app: "q \<in> set (inflight g) \<Longrightarrow>
     step c root g (Append q) (g\<lparr>sch := append_queue q (sch g), inflight := remove1 q (inflight g)\<rparr>)"
| take: "phase g = Idle \<Longrightarrow> loop_take (sch g) = Some (q, s') \<Longrightarrow>
     step c root g (Take q) (g\<lparr>sch := s', phase := Running q\<rparr>)"
| exit: "phase g = Idle \<Longrightarrow> stopped (sch g) \<Longrightarrow> step c root g Skip (g\<lparr>phase := Exited\<rparr>)"
| finish: "phase g = Running q \<Longrightarrow> exec_frame (disk (sch g)) w \<Longrightarrow>
     step c root g (Finish q (stamp q r))
       (g\<lparr>sch := record_result q (stamp q r) (sch g\<lparr>disk := w\<rparr>), phase := Recorded q (stamp q r)\<rparr>)"
| send: "phase g = Recorded q r \<Longrightarrow> send_done q r (sch g) = Some s' \<Longrightarrow>
     step c root g (Send q r) (g\<lparr>sch := s', phase := FanOut (fan_ref q) (fan_targets q r)\<rparr>)"
| fan_skip: "phase g = FanOut p (t # ts) \<Longrightarrow> ts_Name t = '''' \<or> LoadJob c root (ts_Name t) (disk (sch g)) = (Inl e, w) \<Longrightarrow>
     step c root g Skip (g\<lparr>phase := FanOut p ts\<rparr>)"
| fan_alloc: "phase g = FanOut p (t # ts) \<Longrightarrow> ts_Name t \<noteq> '''' \<Longrightarrow>
     LoadJob c root (ts_Name t) (disk (sch g)) = (Inr j, w) \<Longrightarrow>
     alloc_build c root (Some j) (Some p) (sch g) = (Inr q, s') \<Longrightarrow>
     step c root g (Alloc q) (g\<lparr>sch := s', phase := FanAppend q p ts\<rparr>)"
| fan_fail: "phase g = FanOut p (t # ts) \<Longrightarrow> ts_Name t \<noteq> '''' \<Longrightarrow>
     LoadJob c root (ts_Name t) (disk (sch g)) = (Inr j, w) \<Longrightarrow>
     alloc_build c root (Some j) (Some p) (sch g) = (Inl e, s') \<Longrightarrow>
     step c root g (AllocFail e) (g\<lparr>sch := s', phase := FanOut p ts\<rparr>)"
| fan_app: "phase g = FanAppend q p ts \<Longrightarrow>
     step c root g (Append q) (g\<lparr>sch := append_queue q (sch g), phase := FanOut p ts\<rparr>)"
| fan_done: "phase g = FanOut p [] \<Longrightarrow> step c root g Skip (g\<lparr>phase := Idle\<rparr>)"
| stop: "step c root g StopEv (g\<lparr>sch := Stop (sch g)\<rparr>)"

inductive_cases step_TakeE: "step c root g (Take q) g'"
inductive_cases step_SendE: "step c root g (Send q r) g'"

section \<open>First in, first out\<close>

fun appended :: "event \<Rightarrow> queuedJob list" where
  "appended (Append q) = [q]"
| "appended e = []"

fun taken :: "event \<Rightarrow> queuedJob list" where
  "taken (Take q) = [q]"
| "taken e = []"

lemma alloc_build_frame:
  assumes "alloc_build c root j par s = (r, s')"
  shows "queue s' = queue s" "results s' = results s" "stopped s' = stopped s"
  using assms by (auto simp: alloc_build_def Let_def split: option.splits if_splits prod.splits sum.splits)

lemma step_queue: "step c root g e g' \<Longrightarrow> queue (sch g) @ appended e = taken e @ queue (sch g')"
  by (induction rule: step.cases)
    (auto simp: append_queue_def loop_take_def record_result_def send_done_def Stop_def
      dest: alloc_build_frame(1) split: if_splits list.splits)

interpretation sq: fifo_system "step c root" "\<lambda>g. queue (sch g)" appended taken for c root
  by unfold_locales (rule step_queue)

text \<open>
  C5. The queue is first in, first out under every interleaving: the builds in the queue followed by
  the builds appended during a run are, in this order, the builds the loop took followed by the ones
  still queued.
\<close>

theorem dispatch_order:
  assumes "runs (step c root) g tr g'"
  shows "queue (sch g) @ concat (map appended tr) = concat (map taken tr) @ queue (sch g')"
  by (rule sq.fifo_runs [OF assms])

section \<open>Build numbers are unique\<close>

lemma alloc_build_Inr:
  assumes "alloc_build c root j par s = (Inr q, s')" "no_faults (disk s)"
  shows "\<exists>v. counter (disk s) (counter_path root (Name (qj_job q))) = Some v \<and> qj_num q = go_int (v + 1)
      \<and> counter (disk s') (counter_path root (Name (qj_job q))) = Some (qj_num q)"
    "d @ [''.next-build-number''] \<noteq> counter_path root (Name (qj_job q)) \<Longrightarrow>
      counter (disk s') (d @ [''.next-build-number'']) = counter (disk s) (d @ [''.next-build-number''])"
    "no_faults (disk s')" "chans s' = chans s @ [[]]" "qj_done q = length (chans s)"
proof -
  from assms(1) obtain i num w w' r where a: "nextBuildNumber root (Name i) (disk s) = (Inr num, w)"
      "SaveSpecSnapshot c root (Name i) num (Some i) w = (r, w')"
      "q = \<lparr>qj_job = i, qj_num = num, qj_done = length (chans s), qj_parent = par\<rparr>"
      "s' = s\<lparr>disk := w', chans := chans s @ [[]]\<rparr>"
    by (auto simp: alloc_build_def Let_def split: option.splits if_splits prod.splits sum.splits)
      (metis prod.collapse)
  note n = nextBuildNumber_effect [OF assms(2) a(1)] and sn = SaveSpecSnapshot_counter [OF a(2)]
  show "\<exists>v. counter (disk s) (counter_path root (Name (qj_job q))) = Some v \<and> qj_num q = go_int (v + 1)
      \<and> counter (disk s') (counter_path root (Name (qj_job q))) = Some (qj_num q)"
    using n(4) [OF refl] sn(1) by (simp add: a(3,4) counter_path_def)
  show "counter (disk s') (d @ [''.next-build-number'']) = counter (disk s) (d @ [''.next-build-number''])"
    if "d @ [''.next-build-number''] \<noteq> counter_path root (Name (qj_job q))"
    using n(2) [of "d @ [''.next-build-number'']"] that sn(1) by (simp add: a(3,4))
  show "no_faults (disk s')" using n(1) sn(2) assms(2) by (simp add: no_faults_def a(4))
  show "chans s' = chans s @ [[]]" "qj_done q = length (chans s)" by (simp_all add: a(3,4))
qed

lemma alloc_build_Inl:
  assumes "alloc_build c root j par s = (Inl e, s')" "no_faults (disk s)"
  shows "counter (disk s') p = counter (disk s) p" "no_faults (disk s')" "chans s' = chans s"
proof -
  from assms(1) have "s' = s \<or> (\<exists>i e' w. nextBuildNumber root i (disk s) = (Inl e', w) \<and> s' = s\<lparr>disk := w\<rparr>)"
    by (auto simp: alloc_build_def Let_def split: option.splits if_splits prod.splits sum.splits)
  then show "counter (disk s') p = counter (disk s) p" "no_faults (disk s')" "chans s' = chans s"
    using assms(2) nextBuildNumber_effect(1,3) [OF assms(2)] by (auto simp: no_faults_def)
qed

text \<open>The builds that wait for a result, and the keys of all builds the scheduler knows.\<close>

definition loop_build :: "phase \<Rightarrow> queuedJob list" where
  "loop_build p = (case p of Running q \<Rightarrow> [q] | FanAppend q _ _ \<Rightarrow> [q] | _ \<Rightarrow> [])"

definition pending :: "config \<Rightarrow> queuedJob list" where
  "pending g = inflight g @ queue (sch g) @ loop_build (phase g)"

definition used_keys :: "config \<Rightarrow> buildKey set" where
  "used_keys g = qkey ` set (pending g) \<union> fst ` set (results (sch g))"

definition key_ok :: "path \<Rightarrow> world \<Rightarrow> buildKey \<Rightarrow> bool" where
  "key_ok root w k \<longleftrightarrow> (\<exists>v. counter w (counter_path root (fst k)) = Some v \<and> snd k \<le> v)"

definition counters_below :: "int \<Rightarrow> world \<Rightarrow> bool" where
  "counters_below m w \<longleftrightarrow> (\<forall>d v. counter w (d @ [''.next-build-number'']) = Some v \<longrightarrow> v \<le> m)"

definition num_inv :: "path \<Rightarrow> nat \<Rightarrow> config \<Rightarrow> bool" where
  "num_inv root n g \<longleftrightarrow> no_faults (disk (sch g)) \<and> distinct (map qkey (pending g))
     \<and> qkey ` set (pending g) \<inter> fst ` set (results (sch g)) = {}
     \<and> (\<forall>k \<in> used_keys g. key_ok root (disk (sch g)) k)
     \<and> counters_below (max_int - int n) (disk (sch g))"

fun allocated :: "event \<Rightarrow> buildKey list" where
  "allocated (Alloc q) = [qkey q]"
| "allocated e = []"

text \<open>Claiming a number keeps all older keys below their counters and yields a key above them.\<close>

lemma alloc_keys:
  assumes "alloc_build c root j par s = (Inr q, s')" "no_faults (disk s)" "counters_below (max_int - int (Suc n)) (disk s)"
  shows "key_ok root (disk s) k \<Longrightarrow> key_ok root (disk s') k \<and> k \<noteq> qkey q" "key_ok root (disk s') (qkey q)"
    "counters_below (max_int - int n) (disk s')"
proof -
  let ?p = "counter_path root (Name (qj_job q))"
  note a = alloc_build_Inr [OF assms(1,2)]
  obtain v where v: "counter (disk s) ?p = Some v" "qj_num q = go_int (v + 1)" "counter (disk s') ?p = Some (qj_num q)"
    using a(1) by blast
  have "v \<le> max_int - int (Suc n)" using assms(3) v(1) unfolding counters_below_def counter_path_def by blast
  moreover have "min_int \<le> v" using counter_range [OF v(1)] by simp
  ultimately have num: "qj_num q = v + 1" "v + 1 \<le> max_int - int n" using v(2) by (simp_all add: go_int_id)
  show "key_ok root (disk s') (qkey q)" using v(3) by (simp add: key_ok_def)
  show "key_ok root (disk s') k \<and> k \<noteq> qkey q" if k: "key_ok root (disk s) k"
  proof (cases "counter_path root (fst k) = ?p")
    case True
    then show ?thesis using k v num by (auto simp: key_ok_def)
  next
    case False
    then have "counter (disk s') (counter_path root (fst k)) = counter (disk s) (counter_path root (fst k))"
      using a(2) unfolding counter_path_def by blast
    with k False show ?thesis by (auto simp: key_ok_def)
  qed
  show "counters_below (max_int - int n) (disk s')"
    unfolding counters_below_def
  proof (intro allI impI)
    fix d u assume u: "counter (disk s') (d @ [''.next-build-number'']) = Some u"
    show "u \<le> max_int - int n"
    proof (cases "d @ [''.next-build-number''] = ?p")
      case True
      then show ?thesis using u v(3) num by simp
    next
      case False
      then have "counter (disk s) (d @ [''.next-build-number'']) = Some u" using a(2) u by simp
      with assms(3) show ?thesis unfolding counters_below_def by fastforce
    qed
  qed
qed

lemma num_claim:
  assumes inv: "num_inv root (Suc n) g" and a: "alloc_build c root j par (sch g) = (Inr q, sch g')"
    and m: "mset (pending g') = mset (q # pending g)"
  shows "num_inv root n g' \<and> used_keys g' = used_keys g \<union> {qkey q} \<and> qkey q \<notin> used_keys g"
proof -
  have i: "no_faults (disk (sch g))" "distinct (map qkey (pending g))" "counters_below (max_int - int (Suc n)) (disk (sch g))"
    "qkey ` set (pending g) \<inter> fst ` set (results (sch g)) = {}" "\<And>k. k \<in> used_keys g \<Longrightarrow> key_ok root (disk (sch g)) k"
    using inv by (simp_all add: num_inv_def)
  note k = alloc_keys [OF a i(1,3)]
  have pend: "set (pending g') = insert q (set (pending g))" using mset_eq_setD [OF m] by simp
  have res: "results (sch g') = results (sch g)" by (rule alloc_build_frame(2) [OF a])
  have used: "used_keys g' = used_keys g \<union> {qkey q}" by (auto simp: used_keys_def pend res)
  have fresh: "qkey q \<notin> used_keys g" using i(5) k(1) by blast
  have "mset (map qkey (pending g')) = mset (map qkey (q # pending g))" using m by simp
  then have "distinct (map qkey (pending g')) \<longleftrightarrow> distinct (map qkey (q # pending g))" by (rule mset_eq_imp_distinct_iff)
  then have "distinct (map qkey (pending g'))" using i(2) fresh by (auto simp: used_keys_def)
  moreover have "qkey ` set (pending g') \<inter> fst ` set (results (sch g')) = {}"
    using i(4) fresh by (auto simp: pend res used_keys_def)
  moreover have "key_ok root (disk (sch g')) k" if "k \<in> used_keys g'" for k
    using that i(5) k(1,2) used by blast
  ultimately show ?thesis
    using used fresh k(3) alloc_build_Inr(3) [OF a i(1)] by (simp add: num_inv_def)
qed

lemma num_settle:
  assumes inv: "num_inv root (Suc n) g" and m: "mset (pending g) = mset (pending g' @ D)"
    and res: "fst ` set (results (sch g')) = fst ` set (results (sch g)) \<union> qkey ` set D"
    and cnt: "\<And>d. counter (disk (sch g')) (d @ [''.next-build-number'']) = counter (disk (sch g)) (d @ [''.next-build-number''])"
    and nf: "no_faults (disk (sch g'))"
  shows "num_inv root n g' \<and> used_keys g' = used_keys g"
proof -
  have pend: "set (pending g) = set (pending g') \<union> set D" using mset_eq_setD [OF m] by simp
  have used: "used_keys g' = used_keys g" by (auto simp: used_keys_def pend res)
  have "mset (map qkey (pending g)) = mset (map qkey (pending g' @ D))" using m by simp
  then have "distinct (map qkey (pending g)) \<longleftrightarrow> distinct (map qkey (pending g' @ D))" by (rule mset_eq_imp_distinct_iff)
  then have dist: "distinct (map qkey (pending g' @ D))" using inv by (simp add: num_inv_def)
  have key: "key_ok root (disk (sch g')) k = key_ok root (disk (sch g)) k" for k
    by (simp add: key_ok_def counter_path_def cnt)
  have below: "counters_below (max_int - int n) (disk (sch g'))"
    using inv unfolding num_inv_def counters_below_def cnt by fastforce
  have "qkey ` set (pending g') \<inter> fst ` set (results (sch g')) = {}"
    using inv dist pend by (auto simp: num_inv_def res)
  with inv dist used below nf key show ?thesis by (simp add: num_inv_def)
qed

lemma num_inv_step:
  assumes "step c root g e g'" "num_inv root (Suc n) g"
  shows "num_inv root n g' \<and> used_keys g' = used_keys g \<union> set (allocated e)
    \<and> set (allocated e) \<inter> used_keys g = {}"
proof -
  have nf: "no_faults (disk (sch g))" using assms(2) by (simp add: num_inv_def)
  note move = num_settle [OF assms(2), of g' "[]"]
  show ?thesis using assms(1)
  proof cases
    case (alloc j par q s')
    then show ?thesis using num_claim [OF assms(2), of c j par q g'] alloc_build_frame(1) [OF alloc(3)]
      by (simp add: pending_def)
  next
    case (fan_alloc p t ts j w q s')
    then show ?thesis using num_claim [OF assms(2), of c "Some j" "Some p" q g'] alloc_build_frame(1) [OF fan_alloc(6)]
      by (simp add: pending_def loop_build_def)
  next
    case (finish q w r)
    then show ?thesis
      using num_settle [OF assms(2), of g' "[q]"] nf
      by (auto simp: pending_def loop_build_def record_result_def keys_update counter_def exec_frame_def no_faults_def)
  next
    case (alloc_fail j par e s')
    note a = alloc_build_Inl [OF alloc_fail(3)] alloc_build_frame [OF alloc_fail(3)]
    show ?thesis using alloc_fail num_settle [OF assms(2), of g' "[]"] a nf by (simp add: pending_def)
  next
    case (fan_fail p t ts j w e s')
    note a = alloc_build_Inl [OF fan_fail(6)] alloc_build_frame [OF fan_fail(6)]
    show ?thesis using fan_fail num_settle [OF assms(2), of g' "[]"] a nf
      by (simp add: pending_def loop_build_def)
  next
    case (app q)
    then show ?thesis using move nf by (simp add: pending_def append_queue_def)
  next
    case (take q s')
    then show ?thesis using move nf
      by (auto simp: pending_def loop_build_def loop_take_def split: if_splits list.splits)
  next
    case (send q r s')
    then show ?thesis using move nf
      by (auto simp: pending_def loop_build_def send_done_def split: if_splits)
  qed (use move nf in
      \<open>auto simp: pending_def loop_build_def append_queue_def Stop_def\<close>)
qed

lemma distinct_allocated: "distinct (allocated e)"
  by (cases e) simp_all

interpretation sn: naming_system "step c root" "num_inv root" used_keys allocated for c root
  by unfold_locales (use num_inv_step distinct_allocated in \<open>simp_all (no_asm_simp)\<close>)

section \<open>Results and channels\<close>

definition awaiting :: "config \<Rightarrow> queuedJob list" where
  "awaiting g = pending g @ (case phase g of Recorded q r \<Rightarrow> [q] | _ \<Rightarrow> [])"

definition chan_inv :: "path \<Rightarrow> nat \<Rightarrow> config \<Rightarrow> bool" where
  "chan_inv root n g \<longleftrightarrow> num_inv root n g \<and> distinct (map qj_done (awaiting g))
     \<and> (\<forall>q \<in> set (awaiting g). qj_done q < length (chans (sch g)) \<and> chans (sch g) ! qj_done q = [])
     \<and> (\<forall>q r. phase g = Recorded q r \<longrightarrow> map_of (results (sch g)) (qkey q) = Some r)"

lemma chan_claim:
  assumes inv: "chan_inv root (Suc n) g" and a: "alloc_build c root j par (sch g) = (Inr q, sch g')"
    and m: "mset (awaiting g') = mset (q # awaiting g)" and num: "num_inv root n g'"
    and ph: "\<And>q r. phase g' = Recorded q r \<Longrightarrow> phase g = Recorded q r"
  shows "chan_inv root n g'"
proof -
  have nf: "no_faults (disk (sch g))" using inv by (simp add: chan_inv_def num_inv_def)
  note b = alloc_build_Inr(4,5) [OF a nf]
  have aw: "set (awaiting g') = insert q (set (awaiting g))" using mset_eq_setD [OF m] by simp
  have "mset (map qj_done (awaiting g')) = mset (map qj_done (q # awaiting g))" using m by simp
  then have "distinct (map qj_done (awaiting g')) \<longleftrightarrow> distinct (map qj_done (q # awaiting g))" by (rule mset_eq_imp_distinct_iff)
  then have "distinct (map qj_done (awaiting g'))" using inv b by (auto simp: chan_inv_def)
  moreover have "\<forall>x \<in> set (awaiting g'). qj_done x < length (chans (sch g')) \<and> chans (sch g') ! qj_done x = []"
    using inv b by (auto simp: chan_inv_def aw nth_append)
  moreover have "\<forall>q r. phase g' = Recorded q r \<longrightarrow> map_of (results (sch g')) (qkey q) = Some r"
    using inv ph alloc_build_frame(2) [OF a] by (simp add: chan_inv_def)
  ultimately show ?thesis using num by (simp add: chan_inv_def)
qed

lemma chan_settle:
  assumes inv: "chan_inv root (Suc n) g" and m: "mset (awaiting g) = mset (awaiting g' @ D)"
    and ch: "length (chans (sch g')) = length (chans (sch g))"
      "\<And>q. q \<in> set (awaiting g') \<Longrightarrow> chans (sch g') ! qj_done q = chans (sch g) ! qj_done q"
    and num: "num_inv root n g'"
    and ph: "\<And>q r. phase g' = Recorded q r \<Longrightarrow> map_of (results (sch g')) (qkey q) = Some r"
  shows "chan_inv root n g'"
proof -
  have aw: "set (awaiting g) = set (awaiting g') \<union> set D" using mset_eq_setD [OF m] by simp
  have "mset (map qj_done (awaiting g)) = mset (map qj_done (awaiting g' @ D))" using m by simp
  then have "distinct (map qj_done (awaiting g)) \<longleftrightarrow> distinct (map qj_done (awaiting g' @ D))" by (rule mset_eq_imp_distinct_iff)
  then have "distinct (map qj_done (awaiting g'))" using inv by (simp add: chan_inv_def)
  with inv num ph ch aw show ?thesis by (auto simp: chan_inv_def)
qed

lemma chan_inv_step:
  assumes st: "step c root g e g'" and inv: "chan_inv root (Suc n) g"
  shows "chan_inv root n g'"
proof -
  have ni: "num_inv root (Suc n) g" using inv by (simp add: chan_inv_def)
  have num: "num_inv root n g'" using num_inv_step [OF st ni] by blast
  have nf: "no_faults (disk (sch g))" using ni by (simp add: num_inv_def)
  have rec: "\<And>q r. phase g = Recorded q r \<Longrightarrow> map_of (results (sch g)) (qkey q) = Some r"
    using inv by (simp add: chan_inv_def)
  note move = chan_settle [OF inv _ _ _ num, of "[]"]
  show ?thesis using st
  proof cases
    case (alloc j par q s')
    then show ?thesis using alloc_build_frame(1) [OF alloc(3)]
      by (intro chan_claim [OF inv _ _ num, of c j par q]) (simp_all add: awaiting_def pending_def)
  next
    case (fan_alloc p t ts j w q s')
    then show ?thesis using alloc_build_frame(1) [OF fan_alloc(6)]
      by (intro chan_claim [OF inv _ _ num, of c "Some j" "Some p" q])
        (simp_all add: awaiting_def pending_def loop_build_def)
  next
    case (alloc_fail j par e s')
    show ?thesis using alloc_fail move alloc_build_Inl [OF alloc_fail(3) nf] alloc_build_frame [OF alloc_fail(3)] rec
      by (simp add: awaiting_def pending_def)
  next
    case (fan_fail p t ts j w e s')
    show ?thesis using fan_fail move alloc_build_Inl [OF fan_fail(6) nf] alloc_build_frame [OF fan_fail(6)]
      by (simp add: awaiting_def pending_def loop_build_def)
  next
    case (finish q w r)
    then show ?thesis using move by (simp add: awaiting_def pending_def loop_build_def record_result_def)
  next
    case (send q r s')
    have "distinct (map qj_done (pending g @ [q]))" using inv send by (simp add: chan_inv_def awaiting_def)
    then have "qj_done q \<notin> qj_done ` set (pending g)" by simp
    then have ne: "qj_done x \<noteq> qj_done q" if "x \<in> set (pending g)" for x using that by (metis imageI)
    from send ne show ?thesis
      by (intro chan_settle [OF inv _ _ _ num, of "[q]"])
        (auto simp: awaiting_def pending_def loop_build_def send_done_def nth_list_update split: if_splits, blast+)
  next
    case (take q s')
    then show ?thesis using move
      by (auto simp: awaiting_def pending_def loop_build_def loop_take_def split: if_splits list.splits)
  next
    case (app q)
    then show ?thesis using move rec by (simp add: awaiting_def pending_def append_queue_def)
  qed (use move rec in \<open>auto simp: awaiting_def pending_def loop_build_def append_queue_def Stop_def\<close>)
qed

interpretation sc: budget_system "step c root" "chan_inv root" for c root
  by unfold_locales (rule chan_inv_step)

text \<open>What a caller of \<^verbatim>\<open>Enqueue\<close> sees: the result in the map, and the same result on its channel.\<close>

definition delivered :: "queuedJob \<Rightarrow> BuildResult \<Rightarrow> config \<Rightarrow> bool" where
  "delivered q r g \<longleftrightarrow> Result (sch g) (Name (qj_job q)) (qj_num q) = Some r
     \<and> qj_done q < length (chans (sch g)) \<and> chans (sch g) ! qj_done q = [r]"

lemma delivered_step:
  assumes st: "step c root g e g'" and inv: "chan_inv root (Suc n) g" and d: "delivered q r g"
  shows "delivered q r g'"
  using st
proof cases
  case (finish q' w r')
  have "qkey q' \<in> qkey ` set (pending g)" using finish by (simp add: pending_def loop_build_def)
  moreover have "qkey ` set (pending g) \<inter> fst ` set (results (sch g)) = {}"
    using inv by (simp add: chan_inv_def num_inv_def)
  ultimately have "map_of (results (sch g)) (qkey q') = None" by (auto simp: map_of_eq_None_iff)
  with d finish show ?thesis by (auto simp: delivered_def Result_def record_result_def)
next
  case (send q' r' s')
  have "chans (sch g) ! qj_done q' = []" using inv send by (simp add: chan_inv_def awaiting_def)
  with d send show ?thesis by (auto simp: delivered_def Result_def send_done_def nth_list_update split: if_splits)
next
  case (alloc j par q' s')
  have nf: "no_faults (disk (sch g))" using inv by (simp add: chan_inv_def num_inv_def)
  show ?thesis
    using d alloc alloc_build_Inr(4) [OF alloc(3) nf] alloc_build_frame(2) [OF alloc(3)]
    by (simp add: delivered_def Result_def nth_append)
next
  case (fan_alloc p t ts j w q' s')
  have nf: "no_faults (disk (sch g))" using inv by (simp add: chan_inv_def num_inv_def)
  show ?thesis
    using d fan_alloc alloc_build_Inr(4) [OF fan_alloc(6) nf] alloc_build_frame(2) [OF fan_alloc(6)]
    by (simp add: delivered_def Result_def nth_append)
next
  case (alloc_fail j par e s')
  have nf: "no_faults (disk (sch g))" using inv by (simp add: chan_inv_def num_inv_def)
  show ?thesis using d alloc_fail alloc_build_Inl(3) [OF alloc_fail(3) nf] alloc_build_frame(2) [OF alloc_fail(3)]
    by (simp add: delivered_def Result_def)
next
  case (fan_fail p t ts j w e s')
  have nf: "no_faults (disk (sch g))" using inv by (simp add: chan_inv_def num_inv_def)
  show ?thesis using d fan_fail alloc_build_Inl(3) [OF fan_fail(6) nf] alloc_build_frame(2) [OF fan_fail(6)]
    by (simp add: delivered_def Result_def)
qed (use d in \<open>auto simp: delivered_def Result_def append_queue_def loop_take_def Stop_def split: if_splits list.splits\<close>)

lemma send_delivers:
  assumes st: "step c root g (Send q r) g'" and inv: "chan_inv root (Suc n) g"
  shows "delivered q r g'"
  using st
proof cases
  case (send s')
  then have "q \<in> set (awaiting g)" by (simp add: awaiting_def)
  with inv have "chans (sch g) ! qj_done q = []" "map_of (results (sch g)) (qkey q) = Some r"
    using send by (auto simp: chan_inv_def)
  with send show ?thesis by (auto simp: delivered_def Result_def send_done_def split: if_splits)
qed

section \<open>Runs from the start\<close>

definition init :: "world \<Rightarrow> config" where
  "init w = \<lparr>sch = newScheduler w, inflight = [], phase = Idle\<rparr>"

lemma init_inv: "no_faults w \<Longrightarrow> counters_below (max_int - int n) w \<Longrightarrow> chan_inv root n (init w)"
  by (simp add: chan_inv_def num_inv_def awaiting_def pending_def loop_build_def used_keys_def init_def newScheduler_def)

text \<open>
  C2. Build numbers are unique: however enqueues, fan-outs, builds and stops interleave, no two builds of a
  run are given the same job name and number, as long as the file calls work and no counter is within
  the length of the run of the largest \<^verbatim>\<open>int\<close>.
\<close>

theorem unique_builds:
  assumes "no_faults w" "counters_below (max_int - int (length tr)) w" "runs (step c root) (init w) tr g"
  shows "distinct (concat (map allocated tr))"
proof -
  have "num_inv root (length tr + 0) (init w)" using init_inv [OF assms(1,2), of root] by (simp add: chan_inv_def)
  from sn.used_runs [OF assms(3) this] show ?thesis by blast
qed

text \<open>
  C3. Every result sent is final and consistent. In a run over a disk without faults whose counter files are far enough below the
  largest integer for as many builds as the run has steps: once the loop has sent the result \<open>r\<close> of a build, \<^verbatim>\<open>Result\<close> returns \<open>r\<close> for its
  name and number and the channel \<^verbatim>\<open>Enqueue\<close> returned holds \<open>r\<close> and nothing else, at every later point of the run. Both conditions
  are needed: a failed write of the counter file makes the numbers start again (\<open>failed_write_resets_counter\<close>), and a later
  build with the same number then replaces the stored result.
\<close>

theorem results_delivered:
  assumes "no_faults w" "counters_below (max_int - int (length tr)) w" "runs (step c root) (init w) tr g"
    and "Send q r \<in> set tr"
  shows "delivered q r g"
  by (rule sc.event_runs [OF delivered_step send_delivers assms(3,4) init_inv [OF assms(1,2)]])

text \<open>
  The loop never blocks on a done channel: whenever it is about to send, the send goes through.
\<close>

theorem send_never_blocks:
  assumes "no_faults w" "counters_below (max_int - int (length tr)) w" "runs (step c root) (init w) tr g"
    and "phase g = Recorded q r"
  shows "\<exists>g'. step c root g (Send q r) g'"
proof -
  have "chan_inv root 0 g" using sc.inv_runs [OF assms(3), of 0] init_inv [OF assms(1,2)] by simp
  then have "qj_done q < length (chans (sch g))" "chans (sch g) ! qj_done q = []"
    using assms(4) by (auto simp: chan_inv_def awaiting_def)
  then have "send_done q r (sch g) \<noteq> None" by (simp add: send_done_def)
  then show ?thesis using step.send [OF assms(4)] by blast
qed

lemma step_stopped: "step c root g e g' \<Longrightarrow> stopped (sch g) \<Longrightarrow> stopped (sch g') \<and> taken e = []"
  by (induction rule: step.cases)
    (auto simp: append_queue_def loop_take_def record_result_def send_done_def Stop_def
      dest: alloc_build_frame(3) split: if_splits list.splits)

text \<open>
  \<^verbatim>\<open>Stop\<close> is final: after it no build is started, and the flag stays set.
\<close>

theorem stop_is_final:
  "runs (step c root) g tr g' \<Longrightarrow> stopped (sch g) \<Longrightarrow> stopped (sch g') \<and> concat (map taken tr) = []"
  by (induction rule: runs.induct) (auto dest: step_stopped)

section \<open>A concrete run\<close>

text \<open>One build of \<open>deploy\<close> in the demo store, from its enqueue to its result; then the server stops.\<close>

definition demo_q :: queuedJob where
  "demo_q = \<lparr>qj_job = demo_deploy, qj_num = 1, qj_done = 0, qj_parent = None\<rparr>"

definition demo_r :: BuildResult where
  "demo_r = stamp demo_q \<lparr>JobName = '''', Number = 0, res_Status = StatusSuccess, ExitCode = 0, res_Error = '''', TriggeredBy = None\<rparr>"

definition demo_s1 :: Scheduler where
  "demo_s1 = snd (alloc_build demo_codec demo_root (Some demo_deploy) None (newScheduler demo_world))"

definition demo_s4 :: Scheduler where "demo_s4 = record_result demo_q demo_r demo_s1"

definition demo_s5 :: Scheduler where "demo_s5 = the (send_done demo_q demo_r demo_s4)"

definition demo_before :: config where
  "demo_before = \<lparr>sch = demo_s4, inflight = [], phase = Recorded demo_q demo_r\<rparr>"

definition demo_after :: config where
  "demo_after = \<lparr>sch = demo_s5, inflight = [], phase = FanOut (fan_ref demo_q) []\<rparr>"

definition demo_trace :: "event list" where
  "demo_trace = [Alloc demo_q, Append demo_q, Take demo_q, Finish demo_q demo_r]"

lemma demo_counters: "counters_below (max_int - 5) demo_world"
proof -
  have "file_at demo_world (d @ [''.next-build-number'']) = None" for d
    by (auto simp: file_at_def fs_get_def demo_world_def append_eq_Cons_conv split: option.splits)
  then show ?thesis by (simp add: counters_below_def counter_def max_int_def)
qed

lemma demo_alloc: "alloc_build demo_codec demo_root (Some demo_deploy) None (newScheduler demo_world) = (Inr demo_q, demo_s1)"
proof -
  have "fst (alloc_build demo_codec demo_root (Some demo_deploy) None (newScheduler demo_world)) = Inr demo_q" by code_simp
  then show ?thesis unfolding demo_s1_def by (metis prod.collapse)
qed

lemma demo_run: "runs (step demo_codec demo_root) (init demo_world) demo_trace demo_before"
proof -
  let ?step = "step demo_codec demo_root"
  define g1 where "g1 = \<lparr>sch = demo_s1, inflight = [demo_q], phase = Idle\<rparr>"
  define g2 where "g2 = \<lparr>sch = append_queue demo_q demo_s1, inflight = [], phase = Idle\<rparr>"
  define g3 where "g3 = \<lparr>sch = demo_s1, inflight = [], phase = Running demo_q\<rparr>"
  have q: "queue demo_s1 = []" "stopped demo_s1 = False"
    using alloc_build_frame [OF demo_alloc] by (simp_all add: newScheduler_def)
  have "?step (init demo_world) (Alloc demo_q) g1"
    using step.alloc [of demo_codec demo_root "Some demo_deploy" None "init demo_world" demo_q demo_s1] demo_alloc
    by (simp add: init_def g1_def)
  moreover have "?step g1 (Append demo_q) g2"
    using step.app [of demo_q g1 demo_codec demo_root] by (simp add: g1_def g2_def)
  moreover have "?step g2 (Take demo_q) g3"
    using step.take [of g2 demo_q demo_s1 demo_codec demo_root] q
    by (simp add: g2_def g3_def append_queue_def loop_take_def)
  moreover have "?step g3 (Finish demo_q demo_r) demo_before"
    using step.finish [of g3 demo_q "disk demo_s1" demo_codec demo_root]
    by (simp add: g3_def demo_before_def demo_s4_def exec_frame_def demo_r_def)
  ultimately show ?thesis unfolding demo_trace_def by auto
qed

lemma demo_budget: "counters_below (max_int - int (length demo_trace)) demo_world"
  using demo_counters unfolding counters_below_def demo_trace_def by fastforce

lemma demo_send: "step demo_codec demo_root demo_before (Send demo_q demo_r) demo_after"
proof -
  have "case send_done demo_q demo_r demo_s4 of None \<Rightarrow> False | Some s \<Rightarrow> True" by code_simp
  then have "send_done demo_q demo_r demo_s4 = Some demo_s5" by (auto simp: demo_s5_def split: option.splits)
  moreover have "fan_targets demo_q demo_r = []" by code_simp
  ultimately show ?thesis
    using step.send [of demo_before demo_q demo_r demo_s5 demo_codec demo_root]
    by (simp add: demo_before_def demo_after_def)
qed

theorem dispatch_order_witness: "[] @ [demo_q] = [demo_q] @ queue (sch demo_before)"
  using dispatch_order [OF demo_run] by (simp add: init_def newScheduler_def demo_trace_def)

theorem unique_builds_witness: "concat (map allocated demo_trace) = [(''deploy'', 1)] \<and> distinct (concat (map allocated demo_trace))"
proof -
  have "concat (map allocated demo_trace) = [(''deploy'', 1)]" by code_simp
  with unique_builds [OF demo_no_faults demo_budget demo_run] show ?thesis by simp
qed

theorem results_delivered_witness: "Result (sch demo_after) ''deploy'' 1 = Some demo_r \<and> chans (sch demo_after) = [[demo_r]]"
proof -
  have run: "runs (step demo_codec demo_root) (init demo_world) (demo_trace @ [Send demo_q demo_r]) demo_after"
    using runs_append [OF demo_run] demo_send by (simp add: runs_Nil)
  have "length (demo_trace @ [Send demo_q demo_r]) = 5" by (simp add: demo_trace_def)
  then have "counters_below (max_int - int (length (demo_trace @ [Send demo_q demo_r]))) demo_world"
    using demo_counters by simp
  from results_delivered [OF demo_no_faults this run, of demo_q demo_r]
  have "delivered demo_q demo_r demo_after" by simp
  moreover have "length (chans (sch demo_after)) = 1" by code_simp
  ultimately show ?thesis
    by (auto simp: delivered_def demo_q_def demo_names length_Suc_conv)
qed

theorem send_never_blocks_witness: "\<exists>g'. step demo_codec demo_root demo_before (Send demo_q demo_r) g'"
  by (rule send_never_blocks [OF demo_no_faults demo_budget demo_run]) (simp add: demo_before_def)

theorem stop_is_final_witness:
  "let g = demo_before\<lparr>sch := Stop (sch demo_before)\<rparr>
   in stopped (sch (g\<lparr>sch := Stop (sch g)\<rparr>)) \<and> concat (map taken [StopEv]) = []"
proof -
  let ?g = "demo_before\<lparr>sch := Stop (sch demo_before)\<rparr>"
  have "runs (step demo_codec demo_root) ?g [StopEv] (?g\<lparr>sch := Stop (sch ?g)\<rparr>)"
    using step.stop [of demo_codec demo_root ?g] by simp
  then show ?thesis using stop_is_final [of demo_codec demo_root ?g "[StopEv]"] by (simp add: Stop_def Let_def)
qed

end
