(* ===== verification/Cascade.thy ===== *)
theory Cascade
  imports SchedRun
begin

text \<open>
  The downstream cascade of \<^verbatim>\<open>internal/scheduler/scheduler.go\<close> over the specs of \<^verbatim>\<open>internal/storage\<close>: what
  one fan-out enqueues, and that the acyclicity \<^verbatim>\<open>SaveJob\<close> enforces makes every cascade finite.
\<close>

section \<open>Enqueueing leaves the specs alone\<close>

lemma nextBuildNumber_frame:
  assumes "nextBuildNumber root job w = (r, w')"
  shows "q \<noteq> counter_path root job \<Longrightarrow> file_at w' q = file_at w q" "fault w' = fault w"
proof -
  obtain r1 w1 where mk: "os_MkdirAll (join_path root [''builds'', job]) w = (r1, w1)"
    by (cases "os_MkdirAll (join_path root [''builds'', job]) w")
  have "(q \<noteq> counter_path root job \<longrightarrow> file_at w' q = file_at w1 q) \<and> fault w' = fault w1"
    using assms
    by (cases r1) (auto simp: nextBuildNumber_def Let_def counter_file_path io_defs mk os_OpenFile_create_def f_Flock_def
        f_ReadAll_def parse_counter_def f_Truncate_def f_Seek_def f_Write_def file_at_def
        split: if_splits option.splits node.splits prod.splits)
  then show "q \<noteq> counter_path root job \<Longrightarrow> file_at w' q = file_at w q" "fault w' = fault w"
    using MkdirAll_frame(1,3) [OF mk] by simp_all
qed

lemma join_path_last: "safe_name x \<Longrightarrow> join_path root (xs @ [x]) = join_path root xs @ [x]"
  using clean_comp_safe [of x] Split_no_sep [of "CHR ''/''" x] by (simp add: join_path_def safe_name_def)

lemma JobPath_last: "JobPath root n = join_path root [''jobs'', n] @ [''job.yaml'']"
  using join_path_last [of "''job.yaml''" root "[''jobs'', n]"] by (simp add: JobPath_def)

lemma SaveSpecSnapshot_file_at:
  assumes "SaveSpecSnapshot c root name n j w = (r, w')" "x \<noteq> ''spec.yaml''"
  shows "file_at w' (d @ [x]) = file_at w (d @ [x])"
proof -
  have p: "join_path d' [''spec.yaml''] = d' @ [''spec.yaml'']" for d' by (simp add: join_path_safe)
  have "w' = w \<or> (\<exists>r1 w1. os_MkdirAll (snapshot_dir root name n) w = (r1, w1)
      \<and> (w' = w1 \<or> (\<exists>b r2. os_WriteFile (snapshot_dir root name n @ [''spec.yaml'']) b w1 = (r2, w'))))"
    using assms(1)
    by (auto simp: SaveSpecSnapshot_def Let_def io_defs p split: if_splits option.splits sum.splits prod.splits)
  then show ?thesis
  proof (elim disjE exE conjE)
    fix r1 w1 b r2
    assume mk: "os_MkdirAll (snapshot_dir root name n) w = (r1, w1)"
      and wr: "os_WriteFile (snapshot_dir root name n @ [''spec.yaml'']) b w1 = (r2, w')"
    show ?thesis
      using MkdirAll_frame(1) [OF mk] WriteFile_frame(1) [OF wr, of "d @ [x]"] assms(2)
      by (auto simp: file_at_def fun_eq_iff)
  qed (auto dest: MkdirAll_frame(1))
qed

definition same_specs :: "world \<Rightarrow> world \<Rightarrow> bool" where
  "same_specs w w' \<longleftrightarrow> fault w' = fault w \<and> (\<forall>d. file_at w' (d @ [''job.yaml'']) = file_at w (d @ [''job.yaml'']))"

lemma same_specs_trans: "same_specs u v \<Longrightarrow> same_specs v w \<Longrightarrow> same_specs u w"
  by (simp add: same_specs_def)

lemma same_specs_disk_job: "same_specs w w' \<Longrightarrow> disk_job c root w' n = disk_job c root w n"
  by (simp add: same_specs_def disk_job_def JobPath_last)

lemma alloc_build_specs:
  assumes "alloc_build c root j par s = (r, s')"
  shows "same_specs (disk s) (disk s')"
proof -
  from assms have "s' = s \<or> (\<exists>i e w. nextBuildNumber root i (disk s) = (e, w) \<and> (disk s' = w
      \<or> (\<exists>n k. disk s' = snd (SaveSpecSnapshot c root i n k w))))"
    by (auto simp: alloc_build_def Let_def split: option.splits if_splits prod.splits sum.splits) blast+
  then show ?thesis
    using nextBuildNumber_frame(1) nextBuildNumber_frame(2) SaveSpecSnapshot_counter(2) [OF surjective_pairing]
      SaveSpecSnapshot_file_at [where x = "''job.yaml''", OF surjective_pairing]
    by (auto simp: same_specs_def counter_path_def)
qed

section \<open>One fan-out\<close>

text \<open>What may be enqueued for a target, and what the channels of the queue look like.\<close>

definition child_of :: "codec \<Rightarrow> path \<Rightarrow> world \<Rightarrow> BuildRef \<Rightarrow> TriggerSpec list \<Rightarrow> queuedJob \<Rightarrow> bool" where
  "child_of c root w p tss q \<longleftrightarrow> qj_parent q = Some p \<and>
     (\<exists>t \<in> set tss. ts_Name t \<noteq> '''' \<and> disk_job c root w (ts_Name t) = Some (qj_job q))"

definition queue_chans :: "Scheduler \<Rightarrow> bool" where
  "queue_chans s \<longleftrightarrow> distinct (map qj_done (queue s)) \<and>
     (\<forall>q \<in> set (queue s). qj_done q < length (chans s) \<and> chans s ! qj_done q = [])"

lemma enqueue_effect:
  assumes "enqueueWithParent c root (Some j) par s = (r, s')"
  shows "same_specs (disk s) (disk s') \<and> stopped s' = stopped s \<and> results s' = results s
    \<and> (\<exists>ext. chans s' = chans s @ ext)
    \<and> (queue s' = queue s \<or> (\<exists>q. queue s' = queue s @ [q] \<and> qj_job q = j \<and> qj_parent q = par))
    \<and> (queue_chans s \<longrightarrow> queue_chans s')"
proof -
  obtain r1 s1 where a: "alloc_build c root (Some j) par s = (r1, s1)" by (cases "alloc_build c root (Some j) par s")
  note fr = alloc_build_frame [OF a] alloc_build_specs [OF a]
  show ?thesis
  proof (cases r1)
    case (Inl e)
    with a assms have "s' = s1" by (simp add: enqueueWithParent_def)
    moreover have "chans s1 = chans s"
      using a Inl by (auto simp: alloc_build_def Let_def split: option.splits if_splits prod.splits sum.splits)
    ultimately show ?thesis using fr by (simp add: queue_chans_def)
  next
    case (Inr q)
    with a assms have s': "s' = append_queue q s1" by (simp add: enqueueWithParent_def)
    have q: "chans s1 = chans s @ [[]]" "qj_done q = length (chans s)" "qj_job q = j" "qj_parent q = par"
      using a Inr by (auto simp: alloc_build_def Let_def split: option.splits if_splits prod.splits sum.splits)
    show ?thesis using fr q by (auto simp: s' append_queue_def queue_chans_def nth_append)
  qed
qed

lemma fan_one_effect:
  assumes "s' = fan_one c root p t s"
  shows "same_specs (disk s) (disk s') \<and> stopped s' = stopped s \<and> results s' = results s \<and> (\<exists>ext. chans s' = chans s @ ext)
    \<and> (\<exists>new. queue s' = queue s @ new \<and> length new \<le> 1 \<and> (\<forall>q \<in> set new. child_of c root (disk s) p [t] q))
    \<and> (queue_chans s \<longrightarrow> queue_chans s')"
proof (cases "ts_Name t = ''''")
  case True
  with assms show ?thesis by (simp add: fan_one_def same_specs_def)
next
  case False
  obtain r w where l: "LoadJob c root (ts_Name t) (disk s) = (r, w)" by (cases "LoadJob c root (ts_Name t) (disk s)")
  have w: "w = disk s" by (rule LoadJob_world [OF l])
  show ?thesis
  proof (cases r)
    case (Inl e)
    with assms False l w show ?thesis by (simp add: fan_one_def same_specs_def)
  next
    case (Inr j)
    obtain r2 where en: "enqueueWithParent c root (Some j) (Some p) s = (r2, s')"
      using assms False l w Inr by (cases "enqueueWithParent c root (Some j) (Some p) s") (simp add: fan_one_def)
    have "disk_job c root (disk s) (ts_Name t) = Some j" using LoadJob_Inr l Inr by blast
    with enqueue_effect [OF en] False show ?thesis by (auto simp: child_of_def)
  qed
qed

lemma child_of_mono: "child_of c root w p xs q \<Longrightarrow> set xs \<subseteq> set ys \<Longrightarrow> child_of c root w p ys q"
  by (auto simp: child_of_def)

lemma fanout_effect:
  assumes "s' = fanout c root p tss s"
  shows "same_specs (disk s) (disk s') \<and> stopped s' = stopped s \<and> results s' = results s \<and> (\<exists>ext. chans s' = chans s @ ext)
    \<and> (\<exists>new. queue s' = queue s @ new \<and> length new \<le> length tss \<and> (\<forall>q \<in> set new. child_of c root (disk s) p tss q))
    \<and> (queue_chans s \<longrightarrow> queue_chans s')"
  using assms
proof (induction tss arbitrary: s)
  case Nil
  then show ?case by (simp add: fanout_def same_specs_def)
next
  case (Cons t tss)
  let ?t = "fan_one c root p t s"
  have "s' = fanout c root p tss ?t" using Cons.prems by (simp add: fanout_def)
  note rest = Cons.IH [OF this] and one = fan_one_effect [where s = s and t = t, OF refl, of c root p]
  from rest obtain n2 where n2: "queue s' = queue ?t @ n2" "length n2 \<le> length tss" "\<forall>q \<in> set n2. child_of c root (disk ?t) p tss q" by blast
  from one obtain n1 where n1: "queue ?t = queue s @ n1" "length n1 \<le> 1" "\<forall>q \<in> set n1. child_of c root (disk s) p [t] q" by blast
  have "child_of c root (disk s) p (t # tss) q" if "q \<in> set (n1 @ n2)" for q
    using that n1(3) n2(3) one by (auto simp: child_of_def same_specs_disk_job)
  moreover have "queue s' = queue s @ (n1 @ n2)" "length (n1 @ n2) \<le> length (t # tss)" using n1 n2 by simp_all
  moreover have "same_specs (disk s) (disk s')" using one rest same_specs_trans by blast
  moreover have "\<exists>ext. chans s' = chans s @ ext" using one rest by auto
  ultimately show ?case using one rest by auto
qed

section \<open>Cascades end\<close>

text \<open>\<open>(child, parent)\<close> when a successful build of \<open>parent\<close> enqueues \<open>child\<close> from the specs on disk.\<close>

definition trig :: "codec \<Rightarrow> path \<Rightarrow> world \<Rightarrow> (Job \<times> Job) set" where
  "trig c root w = {(i, j). \<exists>t \<in> set (TriggersDownstream j). ts_Name t \<noteq> '''' \<and> disk_job c root w (ts_Name t) = Some i}"

definition safe_targets :: "Job \<Rightarrow> bool" where
  "safe_targets j \<longleftrightarrow> list_all (\<lambda>t. ts_Name t = '''' \<or> safe_name (ts_Name t)) (TriggersDownstream j)"

definition specs_in_dirs :: "codec \<Rightarrow> path \<Rightarrow> world \<Rightarrow> bool" where
  "specs_in_dirs c root w \<longleftrightarrow> (\<forall>n. safe_name n \<and> disk_job c root w n \<noteq> None \<longrightarrow> n \<in> job_dirs root w)"

lemma finite_jobs_on_disk: "finite (jobs_on_disk c root w)"
proof -
  have "job_dirs root w \<subseteq> last ` fst ` set (files w)"
  proof
    fix n assume "n \<in> job_dirs root w"
    then obtain x where "map_of (files w) (root @ [''jobs'', n]) = Some x"
      by (auto simp: job_dirs_def is_dir_def fs_get_def split: option.splits)
    then have "(root @ [''jobs'', n], x) \<in> set (files w)" by (rule map_of_SomeD)
    then show "n \<in> last ` fst ` set (files w)" by force
  qed
  then have fin: "finite (job_dirs root w)" by (rule finite_subset) simp
  have "jobs_on_disk c root w \<subseteq> the ` disk_job c root w ` job_dirs root w"
    by (force simp: jobs_on_disk_def)
  then show ?thesis by (rule finite_subset) (simp add: fin)
qed

lemma safe_child_on_disk:
  assumes ok: "store_ok c root w" and dirs: "specs_in_dirs c root w" and st: "safe_targets j" and tr: "(i, j) \<in> trig c root w"
  shows "i \<in> jobs_on_disk c root w" "Name i \<in> set (downstreamNames j)"
proof -
  from tr obtain t where t: "t \<in> set (TriggersDownstream j)" "ts_Name t \<noteq> ''''" "disk_job c root w (ts_Name t) = Some i"
    by (auto simp: trig_def)
  have "safe_name (ts_Name t)" using st t(1,2) by (auto simp: safe_targets_def list_all_iff)
  then have d: "ts_Name t \<in> job_dirs root w" using dirs t(3) by (simp add: specs_in_dirs_def)
  show "i \<in> jobs_on_disk c root w" using d t(2,3) by (auto simp: jobs_on_disk_def)
  have "Name i = ts_Name t" by (rule store_okD(3) [OF ok d t(3)])
  then show "Name i \<in> set (downstreamNames j)" using t(1,2) by (force simp: downstreamNames_def)
qed

lemma wf_trig:
  assumes ok: "store_ok c root w" and dirs: "specs_in_dirs c root w" and safe: "\<forall>j \<in> jobs_on_disk c root w. safe_targets j"
  shows "wf {(i, j) \<in> trig c root w. safe_targets j}"
proof -
  let ?J = "jobs_on_disk c root w"
  have "spec_edges ?J \<subseteq> (\<Union>j \<in> ?J. {Name j} \<times> set (downstreamNames j))"
    by (auto simp: spec_edges_def)
  then have "finite (spec_edges ?J)" by (rule finite_subset) (simp add: finite_jobs_on_disk)
  then have "wf ((spec_edges ?J)\<inverse>)" using store_okD(4) [OF ok] by (rule finite_acyclic_wf_converse)
  then have wf: "wf (inv_image (less_than <*lex*> (spec_edges ?J)\<inverse>) (\<lambda>j. (if j \<in> ?J then 0 else 1, Name j)))"
    by (intro wf_inv_image wf_lex_prod wf_less_than)
  show ?thesis
  proof (rule wf_subset [OF wf], safe)
    fix i j assume "(i, j) \<in> trig c root w" "safe_targets j"
    from safe_child_on_disk [OF ok dirs this(2,1)]
    show "(i, j) \<in> inv_image (less_than <*lex*> (spec_edges ?J)\<inverse>) (\<lambda>j. (if j \<in> ?J then 0 else 1, Name j))"
      by (cases "j \<in> ?J") (auto simp: spec_edges_def)
  qed
qed

definition exec_keeps :: "executor \<Rightarrow> bool" where
  "exec_keeps Execute \<longleftrightarrow> (\<forall>par j n w. same_specs w (snd (Execute par j n w)))"

text \<open>The loop run until it would wait, at most \<open>k\<close> turns; \<open>None\<close> when it needs more turns.\<close>

fun loop_run :: "nat \<Rightarrow> codec \<Rightarrow> path \<Rightarrow> executor \<Rightarrow> Scheduler \<Rightarrow> Scheduler option" where
  "loop_run 0 c root Execute s = (if queue s = [] then Some s else None)"
| "loop_run (Suc k) c root Execute s =
     (if queue s = [] then Some s
      else case loop_iter c root Execute s of None \<Rightarrow> None | Some s' \<Rightarrow> loop_run k c root Execute s')"

lemma loop_iter_effect:
  assumes q: "queue s = q # qs" and "\<not> stopped s" "queue_chans s" "exec_keeps Execute"
  shows "\<exists>s' new. loop_iter c root Execute s = Some s' \<and> same_specs (disk s) (disk s') \<and> \<not> stopped s' \<and> queue_chans s'
    \<and> queue s' = qs @ new \<and> (\<forall>x \<in> set new. child_of c root (disk s) (fan_ref q) (TriggersDownstream (qj_job q)) x)
    \<and> (\<exists>r. Result s' (Name (qj_job q)) (qj_num q) = Some r)"
proof -
  obtain r0 w where ex: "Execute (qj_parent q) (qj_job q) (qj_num q) (disk s) = (r0, w)"
    by (cases "Execute (qj_parent q) (qj_job q) (qj_num q) (disk s)")
  have sw: "same_specs (disk s) w" using assms(4) ex unfolding exec_keeps_def by (metis snd_conv)
  define r where "r = stamp q r0"
  define s1 where "s1 = record_result q r (s\<lparr>queue := qs, disk := w\<rparr>)"
  have q0: "qj_done q < length (chans s)" "chans s ! qj_done q = []" "qj_done q \<notin> qj_done ` set qs"
    using assms(3) q by (auto simp: queue_chans_def)
  define s2 where "s2 = s1\<lparr>chans := (chans s1)[qj_done q := [r]]\<rparr>"
  have s1: "chans s1 = chans s" "queue s1 = qs" "stopped s1 = stopped s" "disk s1 = w"
    by (simp_all add: s1_def record_result_def)
  have send: "send_done q r s1 = Some s2" using q0 s1 by (simp add: send_done_def s2_def)
  have ch2: "queue_chans s2"
    using assms(3) q q0 s1 by (auto simp: queue_chans_def s2_def nth_list_update)
  let ?s' = "fanout c root (fan_ref q) (fan_targets q r) s2"
  have it: "loop_iter c root Execute s = Some ?s'"
    using assms(2) q send ex by (simp add: loop_iter_def loop_take_def s1_def r_def Let_def)
  note f = fanout_effect [where s = s2 and tss = "fan_targets q r", OF refl, of c root "fan_ref q"]
  from f obtain new where new: "queue ?s' = qs @ new" "\<forall>x \<in> set new. child_of c root (disk s2) (fan_ref q) (fan_targets q r) x"
    using s1 by (auto simp: s2_def)
  have d2: "same_specs (disk s) (disk s2)" using sw s1 by (simp add: s2_def)
  have "child_of c root (disk s) (fan_ref q) (TriggersDownstream (qj_job q)) x" if "x \<in> set new" for x
    using new(2) that same_specs_disk_job [OF d2] by (auto simp: child_of_def fan_targets_def split: if_splits)
  moreover have "Result ?s' (Name (qj_job q)) (qj_num q) = Some r"
    using f by (simp add: Result_def s2_def s1_def record_result_def)
  ultimately show ?thesis
    using it f new(1) ch2 assms(2) s1 same_specs_trans [OF d2] by (auto simp: s2_def)
qed

lemma store_same_specs: "same_specs w w' \<Longrightarrow> trig c root w' = trig c root w"
  by (simp add: trig_def same_specs_disk_job)

lemma drain_from:
  assumes wf: "wf {(i, j) \<in> trig c root w. safe_targets j}"
    and child: "\<And>i j. (i, j) \<in> trig c root w \<Longrightarrow> safe_targets j \<Longrightarrow> safe_targets i" and ex: "exec_keeps Execute"
  shows "\<not> stopped s \<Longrightarrow> queue_chans s \<Longrightarrow> same_specs w (disk s) \<Longrightarrow> \<forall>q \<in> set (queue s). safe_targets (qj_job q)
     \<Longrightarrow> \<exists>k s'. loop_run k c root Execute s = Some s' \<and> queue s' = []"
proof (induction "mset (map qj_job (queue s))" arbitrary: s rule: wf_induct_rule [OF wf_mult [OF wf]])
  case (1 s)
  show ?case
  proof (cases "queue s")
    case Nil
    then have "loop_run 0 c root Execute s = Some s" by simp
    with Nil show ?thesis by blast
  next
    case (Cons q qs)
    from loop_iter_effect [OF Cons 1(2,3) ex, of c root] obtain s' new where it: "loop_iter c root Execute s = Some s'"
      "same_specs (disk s) (disk s')" "\<not> stopped s'" "queue_chans s'" "queue s' = qs @ new"
      "\<forall>x \<in> set new. child_of c root (disk s) (fan_ref q) (TriggersDownstream (qj_job q)) x" by blast
    have tr: "(qj_job x, qj_job q) \<in> {(i, j) \<in> trig c root w. safe_targets j}" if "x \<in> set new" for x
      using it(6) that 1(5) Cons same_specs_disk_job [OF 1(4)] by (auto simp: child_of_def trig_def)
    have "(mset (map qj_job qs) + mset (map qj_job new), mset (map qj_job qs) + {#qj_job q#})
        \<in> mult {(i, j) \<in> trig c root w. safe_targets j}"
      by (rule one_step_implies_mult) (use tr in auto)
    then have less: "(mset (map qj_job (queue s')), mset (map qj_job (queue s))) \<in> mult {(i, j) \<in> trig c root w. safe_targets j}"
      by (simp add: it(5) Cons)
    have safe: "\<forall>x \<in> set (queue s'). safe_targets (qj_job x)"
      using 1(5) Cons tr child by (auto simp: it(5))
    from 1(1) [OF less it(3,4) same_specs_trans [OF 1(4) it(2)] safe] obtain k t
      where "loop_run k c root Execute s' = Some t" "queue t = []" by blast
    then have "loop_run (Suc k) c root Execute s = Some t \<and> queue t = []" using Cons it(1) by simp
    then show ?thesis by blast
  qed
qed

text \<open>
  C4. Every cascade ends: over a well-formed store, whose trigger graph \<^verbatim>\<open>SaveJob\<close> keeps acyclic, the loop
  empties the queue after finitely many builds, downstream builds included, whatever the executor
  returns. The executor may not rewrite the specs, and trigger names are plain names (a name with path
  separators can reach a spec under an alias the cycle check does not see).
\<close>

theorem cascade_terminates:
  assumes "store_ok c root (disk s)" "specs_in_dirs c root (disk s)" "\<forall>j \<in> jobs_on_disk c root (disk s). safe_targets j"
    and "exec_keeps Execute" "\<not> stopped s" "queue_chans s" "\<forall>q \<in> set (queue s). safe_targets (qj_job q)"
  shows "\<exists>k s'. loop_run k c root Execute s = Some s' \<and> queue s' = []"
proof (rule drain_from [OF wf_trig [OF assms(1-3)] _ assms(4,5,6) _ assms(7)])
  show "safe_targets i" if "(i, j) \<in> trig c root (disk s)" "safe_targets j" for i j
    using safe_child_on_disk(1) [OF assms(1,2) that(2,1)] assms(3) by blast
qed (simp add: same_specs_def)

definition demo_exec :: executor where
  "demo_exec par j n w =
     (\<lparr>JobName = Name j, Number = n, res_Status = StatusSuccess, ExitCode = 0, res_Error = '''', TriggeredBy = par\<rparr>, w)"

definition demo_cascade :: Scheduler where
  "demo_cascade = (newScheduler demo_world)\<lparr>chans := [[]],
     queue := [\<lparr>qj_job = demo_hello, qj_num = 1, qj_done = 0, qj_parent = None\<rparr>]\<rparr>"

lemma demo_specs_in_dirs: "specs_in_dirs demo_codec demo_root demo_world"
proof -
  have "n = ''deploy''" if "safe_name n" "disk_job demo_codec demo_root demo_world n \<noteq> None" for n
    using that by (auto simp: disk_job_def JobPath_safe demo_root_def file_at_def fs_get_def demo_world_def
        split: if_splits)
  then show ?thesis by (simp add: specs_in_dirs_def demo_job_dirs)
qed

theorem cascade_terminates_witness:
  "\<exists>k s'. loop_run k demo_codec demo_root demo_exec demo_cascade = Some s' \<and> queue s' = []"
proof -
  have d: "disk demo_cascade = demo_world" by (simp add: demo_cascade_def newScheduler_def)
  have t: "safe_targets demo_deploy" "safe_targets demo_hello" by code_simp+
  show ?thesis
    by (rule cascade_terminates)
      (simp_all add: d demo_store_ok demo_specs_in_dirs demo_jobs t exec_keeps_def demo_exec_def same_specs_def
        queue_chans_def demo_cascade_def newScheduler_def)
qed

section \<open>Trigger names that are not plain names\<close>

text \<open>\<open>turns k\<close>: \<open>k\<close> turns of the loop; \<open>None\<close> when one of them cannot be made.\<close>

fun turns :: "nat \<Rightarrow> codec \<Rightarrow> path \<Rightarrow> executor \<Rightarrow> Scheduler \<Rightarrow> Scheduler option" where
  "turns 0 c root Execute s = Some s"
| "turns (Suc k) c root Execute s = Option.bind (loop_iter c root Execute s) (turns k c root Execute)"

text \<open>The directory of the builds of \<open>n\<close> is there, and its counter file reads as a number.\<close>

definition counting :: "path \<Rightarrow> string \<Rightarrow> world \<Rightarrow> bool" where
  "counting root n w \<longleftrightarrow> no_faults w \<and> (\<forall>q. prefix q (join_path root [''builds'', n]) \<longrightarrow> is_dir w q) \<and>
     (\<exists>b. file_at w (counter_path root n) = Some b) \<and> counter w (counter_path root n) \<noteq> None"

lemma mk_dirs_there: "\<forall>q \<in> set ps. is_dir w q \<and> q \<noteq> [] \<Longrightarrow> mk_dirs ps w = (Inr (), w)"
proof (induction ps)
  case (Cons q ps)
  then obtain x where "fs_get w q = Some x" "node_dir x" by (auto simp: is_dir_def split: option.splits)
  with Cons show ?case by simp
qed simp

lemma MkdirAll_there:
  assumes "no_faults w" "\<And>q. prefix q p \<Longrightarrow> is_dir w q"
  shows "os_MkdirAll p w = (Inr (), w)"
proof -
  have "set (tl (prefixes p)) \<subseteq> {q. prefix q p \<and> q \<noteq> []}" by (cases p) auto
  then have "\<forall>q \<in> set (tl (prefixes p)). is_dir w q \<and> q \<noteq> []" using assms(2) by blast
  with assms(1) show ?thesis by (simp add: os_MkdirAll_def no_faults_def mk_dirs_there)
qed

lemma nextBuildNumber_counting:
  assumes "counting root n w"
  shows "\<exists>k w'. nextBuildNumber root n w = (Inr k, w') \<and> counting root n w'"
proof -
  let ?p = "counter_path root n" and ?d = "join_path root [''builds'', n]"
  from assms obtain b v where nf: "no_faults w" and dirs: "\<And>q. prefix q ?d \<Longrightarrow> is_dir w q"
    and b: "file_at w ?p = Some b" "counter w ?p = Some v" by (auto simp: counting_def)
  have p: "butlast ?p = ?d" "?p = ?d @ [''.next-build-number'']" by (simp_all add: counter_path_def)
  obtain t where fb: "fs_get w ?p = Some (FileN b t)" using b(1) by (auto simp: file_at_def split: option.splits node.splits)
  have "parse_counter b w = (Inr v, w)" using b by (simp add: parse_counter_Inr counter_def split: if_splits)
  then obtain k w' where r: "nextBuildNumber root n w = (Inr k, w')"
    and w': "w' = fs_put ?p (FileN (Itoa k @ [CHR 0x0A]) (clock w)) (fs_put ?p (FileN '''' (clock w)) w)"
    using nf dirs [of ?d] fb MkdirAll_there [OF nf dirs]
    by (auto simp: nextBuildNumber_def Let_def counter_file_path io_defs os_OpenFile_create_def f_Flock_def f_ReadAll_def
        f_Truncate_def f_Seek_def f_Write_def file_at_def no_faults_def p(1))
  have "is_dir w' q" if "prefix q ?d" for q
    using dirs [OF that] that by (auto simp: w' is_dir_def p(2) prefix_def)
  moreover have "counter w' ?p \<noteq> None" using nextBuildNumber_effect(4) [OF nf r refl] by auto
  ultimately have "counting root n w'" using nf by (auto simp: counting_def w' no_faults_def file_at_def)
  with r show ?thesis by blast
qed

lemma WriteFile_keeps_dirs: "os_WriteFile p b w = (r, w') \<Longrightarrow> is_dir w q \<Longrightarrow> is_dir w' q"
  by (auto simp: os_WriteFile_def io_defs os_OpenFile_create_def f_Truncate_def f_Write_def f_Close_def is_dir_def Let_def
      split: if_splits option.splits prod.splits sum.splits)

lemma SaveSpecSnapshot_counting:
  assumes "counting root n w" "SaveSpecSnapshot c root m k j w = (r, w')"
  shows "counting root n w'"
proof -
  let ?d = "join_path root [''builds'', n]"
  have p: "join_path d' [''spec.yaml''] = d' @ [''spec.yaml'']" for d' by (simp add: join_path_safe)
  from assms(2) have "w' = w \<or> (\<exists>r1 w1. os_MkdirAll (snapshot_dir root m k) w = (r1, w1)
      \<and> (w' = w1 \<or> is_dir w1 (snapshot_dir root m k) \<and> (\<exists>b r2. os_WriteFile (snapshot_dir root m k @ [''spec.yaml'']) b w1 = (r2, w'))))"
    by (auto simp: SaveSpecSnapshot_def Let_def io_defs p split: if_splits option.splits sum.splits prod.splits dest: MkdirAll_is_dir)
  then have keep: "is_dir w q \<Longrightarrow> is_dir w' q" for q
  proof (elim disjE exE conjE)
    fix r1 w1 b r2
    assume d: "is_dir w q" and mk: "os_MkdirAll (snapshot_dir root m k) w = (r1, w1)"
      and wr: "os_WriteFile (snapshot_dir root m k @ [''spec.yaml'']) b w1 = (r2, w')"
    have "is_dir w1 q" using d MkdirAll_frame(5) [OF mk] by (auto simp: is_dir_def split: option.splits)
    then show "is_dir w' q" by (rule WriteFile_keeps_dirs [OF wr])
  qed (auto simp: is_dir_def split: option.splits dest!: MkdirAll_frame(5))
  have "file_at w' (counter_path root n) = file_at w (counter_path root n)"
    unfolding counter_path_def by (rule SaveSpecSnapshot_file_at [OF assms(2)]) simp
  then show ?thesis
    using keep SaveSpecSnapshot_counter(1) [OF assms(2), of ?d] SaveSpecSnapshot_counter(2) [OF assms(2)] assms(1) by (auto simp: counting_def counter_path_def no_faults_def)
qed

text \<open>One turn over a queue that holds one build of a job that triggers itself under an alias.\<close>

definition always_succeeds :: "path \<Rightarrow> string \<Rightarrow> executor \<Rightarrow> bool" where
  "always_succeeds root n Execute \<longleftrightarrow> exec_keeps Execute \<and>
     (\<forall>par j k w. res_Status (fst (Execute par j k w)) = StatusSuccess \<and> (counting root n w \<longrightarrow> counting root n (snd (Execute par j k w))))"

lemma alias_path: "safe_name n \<Longrightarrow> LoadJob c root (''./'' @ n) w = LoadJob c root n w"
proof -
  assume n: "safe_name n"
  then have sp: "Split (CHR ''/'') (''./'' @ n) = [''.'', n]" "Split (CHR ''/'') n = [n]" "n \<noteq> ''''"
    by (simp_all add: safe_name_def Split_no_sep)
  have "clean_comp (root @ [''jobs'']) ''.'' = root @ [''jobs'']" by (simp add: clean_comp_def)
  then have "JobPath root (''./'' @ n) = JobPath root n" by (simp add: JobPath_def join_path_def sp Split_no_sep)
  with sp(3) show ?thesis by (simp add: LoadJob_def)
qed

definition rolling :: "codec \<Rightarrow> path \<Rightarrow> Job \<Rightarrow> Scheduler \<Rightarrow> bool" where
  "rolling c root j s \<longleftrightarrow> map qj_job (queue s) = [j] \<and> \<not> stopped s \<and> queue_chans s \<and> counting root (Name j) (disk s) \<and>
     disk_job c root (disk s) (Name j) = Some j"

lemma fan_alias:
  assumes "safe_name (Name j)" "counting root (Name j) (disk s)" "disk_job c root (disk s) (Name j) = Some j" "queue s = []"
    and "t = \<lparr>ts_Name = ''./'' @ Name j, Artifacts = as\<rparr>"
  shows "map qj_job (queue (fan_one c root p t s)) = [j] \<and> counting root (Name j) (disk (fan_one c root p t s))"
proof -
  have n: "Name j \<noteq> ''''" using assms(1) by (simp add: safe_name_def)
  have "LoadJob c root (Name j) (disk s) = (Inr j, disk s)" using assms(2,3) n by (simp add: LoadJob_ok counting_def)
  then have l: "LoadJob c root (ts_Name t) (disk s) = (Inr j, disk s)" using alias_path [OF assms(1)] by (simp add: assms(5))
  obtain k w where k: "nextBuildNumber root (Name j) (disk s) = (Inr k, w)" "counting root (Name j) w"
    using nextBuildNumber_counting [OF assms(2)] by blast
  have "counting root (Name j) (snd (SaveSpecSnapshot c root (Name j) k (Some j) w))"
    by (rule SaveSpecSnapshot_counting [OF k(2) surjective_pairing])
  with l k(1) n show ?thesis
    by (simp add: fan_one_def assms(4,5) enqueueWithParent_def alloc_build_def Let_def append_queue_def)
qed

lemma rolling_turn:
  assumes "rolling c root j s" "safe_name (Name j)" "TriggersDownstream j = [\<lparr>ts_Name = ''./'' @ Name j, Artifacts = as\<rparr>]"
    and "always_succeeds root (Name j) Execute"
  shows "\<exists>s'. loop_iter c root Execute s = Some s' \<and> rolling c root j s'"
proof -
  obtain q where q: "queue s = [q]" "qj_job q = j" using assms(1) by (auto simp: rolling_def)
  have ex: "exec_keeps Execute" using assms(4) by (simp add: always_succeeds_def)
  from assms(1) have s: "\<not> stopped s" "queue_chans s" "counting root (Name j) (disk s)" "disk_job c root (disk s) (Name j) = Some j"
    by (simp_all add: rolling_def)
  from loop_iter_effect [OF q(1) s(1,2) ex, of c root] obtain s' where it: "loop_iter c root Execute s = Some s'"
    "same_specs (disk s) (disk s')" "\<not> stopped s'" "queue_chans s'" by blast
  define w where "w = snd (Execute (qj_parent q) j (qj_num q) (disk s))"
  define r where "r = stamp q (fst (Execute (qj_parent q) j (qj_num q) (disk s)))"
  have r: "fan_targets q r = TriggersDownstream j"
    using assms(4) by (simp add: r_def fan_targets_def always_succeeds_def stamp_def Let_def q(2))
  have w: "counting root (Name j) w" "same_specs (disk s) w"
    using assms(4) s(3) unfolding w_def always_succeeds_def exec_keeps_def by blast+
  obtain s2 where s2: "s' = fanout c root (fan_ref q) (TriggersDownstream j) s2" "disk s2 = w" "queue s2 = []"
  proof -
    have "\<exists>s2. s' = fanout c root (fan_ref q) (TriggersDownstream j) s2 \<and> disk s2 = w \<and> queue s2 = []"
      using it(1) s(1) q r
      by (auto simp: loop_iter_def loop_take_def Let_def r_def w_def send_done_def record_result_def split_beta split: if_splits)
    then show ?thesis using that by blast
  qed
  have d: "disk_job c root w (Name j) = Some j" using s(4) same_specs_disk_job [OF w(2)] by simp
  have "map qj_job (queue s') = [j] \<and> counting root (Name j) (disk s')"
    using fan_alias [OF assms(2), of root s2 c "hd (TriggersDownstream j)"] w(1) d s2 assms(3) by (simp add: fanout_def)
  moreover have "disk_job c root (disk s') (Name j) = Some j" using s(4) same_specs_disk_job [OF it(2)] by simp
  ultimately show ?thesis using it by (simp add: rolling_def)
qed

lemma spec_edges_iff: "(x, y) \<in> spec_edges J \<longleftrightarrow> (\<exists>i \<in> J. Name i = x \<and> y \<in> set (downstreamNames i))"
  by (auto simp: spec_edges_def)

text \<open>
  C24. The cycle check compares names, while \<^verbatim>\<open>LoadJob\<close> joins them into a path. A job that triggers itself as \<^verbatim>\<open>./name\<close> is not
  refused by \<^verbatim>\<open>SaveJob\<close> as a cycle, on any well-formed store; and once a build of it is queued, with its spec on disk, the cascade
  never ends: as long as the builds succeed and leave the specs and the build directory's counter readable, the loop makes any number of turns and
  after each of them the queue holds one more build of the same job.
\<close>

theorem alias_escapes_cycle_check:
  assumes "safe_name (Name j)" "TriggersDownstream j = [\<lparr>ts_Name = ''./'' @ Name j, Artifacts = as\<rparr>]"
    and "store_ok c root w" "no_faults w" "rolling c root j s" "always_succeeds root (Name j) Execute"
  shows "(\<forall>e w'. SaveJob c root (Some j) w = (Inl e, w') \<longrightarrow> \<not> errors_Is e ErrCycleInTriggerGraph) \<and>
    (\<forall>k. \<exists>s'. turns k c root Execute s = Some s' \<and> map qj_job (queue s') = [j])"
proof
  let ?J = "{i \<in> jobs_on_disk c root w. Name i \<noteq> Name j} \<union> {j}" and ?a = "''./'' @ Name j"
  have n: "Name j \<noteq> ''''" using assms(1) by (simp add: safe_name_def)
  have ds: "downstreamNames j = [?a]" by (simp add: downstreamNames_def assms(2))
  have a: "Name i \<noteq> ?a" if "i \<in> ?J" for i
  proof -
    have "\<not> safe_name ?a" by (simp add: safe_name_def)
    moreover have "safe_name (Name i)" using that assms(1) store_okD(2,3) [OF assms(3)] by (auto simp: jobs_on_disk_def)
    ultimately show ?thesis by metis
  qed
  have "y = ?a" if "(Name j, y) \<in> spec_edges ?J" for y using that ds by (auto simp: spec_edges_def)
  moreover have "(?a, y) \<notin> spec_edges ?J" for y
  proof
    assume "(?a, y) \<in> spec_edges ?J"
    then obtain i where "i \<in> ?J" "Name i = ?a" unfolding spec_edges_iff by blast
    with a show False by blast
  qed
  moreover have "Name j \<noteq> ?a" by (auto dest: arg_cong [where f = length])
  ultimately have "(Name j, Name j) \<notin> (spec_edges ?J)\<^sup>+" by (blast elim: converse_tranclE)
  then have "validateNoCycle c root (Some j) w = (Inr (), w)" by (simp add: validate_iff [OF assms(4,3) n])
  then have "SaveJob c root (Some j) w = save_tail c root j w" using n by (simp add: SaveJob_split seqIO_def bindIO_def)
  then show "\<forall>e w'. SaveJob c root (Some j) w = (Inl e, w') \<longrightarrow> \<not> errors_Is e ErrCycleInTriggerGraph"
    using neverD [OF save_tail_never] by metis
  have "\<exists>s'. turns k c root Execute s = Some s' \<and> rolling c root j s'" for k
    using assms(5)
  proof (induction k arbitrary: s)
    case (Suc k)
    from rolling_turn [OF Suc.prems assms(1,2,6)] obtain t where "loop_iter c root Execute s = Some t" "rolling c root j t" by blast
    with Suc.IH show ?case by simp
  qed simp
  note roll = this
  show "\<forall>k. \<exists>s'. turns k c root Execute s = Some s' \<and> map qj_job (queue s') = [j]"
  proof
    fix k
    obtain s' where "turns k c root Execute s = Some s'" "rolling c root j s'" using roll [of k] by (elim exE conjE)
    then show "\<exists>s'. turns k c root Execute s = Some s' \<and> map qj_job (queue s') = [j]" by (simp add: rolling_def)
  qed
qed

definition demo_alias :: "Job" where
  "demo_alias = (empty_job ''a'')\<lparr>TriggersDownstream := [\<lparr>ts_Name = ''./a'', Artifacts = []\<rparr>]\<rparr>"

definition alias_codec :: codec where
  "alias_codec = \<lparr>job_enc = (\<lambda>j. Name j), job_dec = (\<lambda>b. if b = ''a'' then Some demo_alias else None)\<rparr>"

text \<open>The job is on disk, its first build is queued.\<close>

definition alias_queue :: Scheduler where
  "alias_queue = (newScheduler \<lparr>files = [([''srv''], DirN 0), ([''srv'', ''jobs''], DirN 0), ([''srv'', ''jobs'', ''a''], DirN 0),
       ([''srv'', ''jobs'', ''a'', ''job.yaml''], FileN ''a'' 0), ([''srv'', ''builds''], DirN 0), ([''srv'', ''builds'', ''a''], DirN 0),
       ([''srv'', ''builds'', ''a'', ''.next-build-number''], FileN ''1'' 0)],
     clock = 7, fault = (\<lambda>_ _. False), torn = (\<lambda>_. 0)\<rparr>)
     \<lparr>chans := [[]], queue := [\<lparr>qj_job = demo_alias, qj_num = 1, qj_done = 0, qj_parent = None\<rparr>]\<rparr>"

theorem alias_escapes_cycle_check_witness:
  "\<exists>s'. turns 1000 alias_codec [''srv''] demo_exec alias_queue = Some s' \<and> map qj_job (queue s') = [demo_alias]"
proof -
  have name: "Name demo_alias = ''a''" by (simp add: demo_alias_def empty_job_def)
  have ok: "safe_name (Name demo_alias)" "TriggersDownstream demo_alias = [\<lparr>ts_Name = ''./'' @ Name demo_alias, Artifacts = []\<rparr>]"
    by (simp_all add: name safe_name_def) (simp add: demo_alias_def)
  have dirs: "is_dir (disk alias_queue) q" if "prefix q (join_path [''srv''] [''builds'', ''a''])" for q
  proof -
    have "join_path [''srv''] [''builds'', ''a''] = [''srv'', ''builds'', ''a'']" by code_simp
    with that have "q \<in> set (prefixes [''srv'', ''builds'', ''a''])" by (simp only: in_set_prefixes)
    then show ?thesis by (auto simp: alias_queue_def newScheduler_def is_dir_def fs_get_def)
  qed
  have ctr: "file_at (disk alias_queue) (counter_path [''srv''] ''a'') = Some ''1''" "counter (disk alias_queue) (counter_path [''srv''] ''a'') = Some 1"
    by code_simp+
  have nf: "no_faults (disk alias_queue)" by (simp add: no_faults_def alias_queue_def newScheduler_def)
  have "disk_job alias_codec [''srv''] (disk alias_queue) ''a'' = Some demo_alias" by code_simp
  moreover have "queue_chans alias_queue" "map qj_job (queue alias_queue) = [demo_alias]" "\<not> stopped alias_queue"
    by (simp_all add: queue_chans_def alias_queue_def newScheduler_def)
  ultimately have roll: "rolling alias_codec [''srv''] demo_alias alias_queue"
    using dirs ctr nf by (simp add: rolling_def counting_def name)
  have ex: "always_succeeds [''srv''] (Name demo_alias) demo_exec"
    by (simp add: always_succeeds_def exec_keeps_def demo_exec_def same_specs_def)
  let ?w = "\<lparr>files = [([''srv''], DirN 0), ([''srv'', ''jobs''], DirN 0)], clock = 7, fault = (\<lambda>_ _. False), torn = (\<lambda>_. 0)\<rparr>"
  have "job_dirs [''srv''] ?w = {}" by (auto simp: job_dirs_def is_dir_def fs_get_def split: option.splits if_splits)
  then have "store_ok alias_codec [''srv''] ?w" "no_faults ?w"
    by (simp_all add: store_ok_def jobs_on_disk_def is_dir_def fs_get_def no_faults_def spec_edges_simps acyclic_def)
  from alias_escapes_cycle_check [OF ok this roll ex] show ?thesis by blast
qed

end
