(* ===== verification/Matrix.thy ===== *)
theory Matrix
  imports SchedRun
begin

text \<open>
  Matrix builds, \<^verbatim>\<open>internal/scheduler/matrix.go\<close>: the cartesian product of the axes, the clone of a job for one
  combination, and the enqueue loop. A combination (a Go map) is an association list.
\<close>

type_synonym env = "(string \<times> string) list"

record MatrixRun =
  mr_Number :: int
  mr_Done :: nat
  mr_Axis :: env

fun cartesianProduct :: "AxisDimension list \<Rightarrow> env list" where
  "cartesianProduct [] = [[]]"
| "cartesianProduct (a # axes) =
     concat (map (\<lambda>v. map (\<lambda>r. AList.update (axis_Name a) v r) (cartesianProduct axes)) (axis_Values a))"

definition assign_all :: "env \<Rightarrow> env \<Rightarrow> env" where
  "assign_all m kvs = foldl (\<lambda>acc (k, v). AList.update k v acc) m kvs"

definition cloneJobWithAxis :: "Job \<Rightarrow> env \<Rightarrow> Job" where
  "cloneJobWithAxis job axis =
     job\<lparr>Steps := map (\<lambda>st. st\<lparr>step_Env := assign_all (assign_all [] (step_Env st)) axis\<rparr>) (Steps job), Axis := []\<rparr>"

text \<open>
  The loop of \<^verbatim>\<open>EnqueueMatrix\<close>: the runs so far and the error that stopped it, if any. The loop holds no lock between two combinations;
  the call is modelled without other callers in between.
\<close>

fun enqueue_combos :: "codec \<Rightarrow> path \<Rightarrow> Job \<Rightarrow> env list \<Rightarrow> Scheduler \<Rightarrow> MatrixRun list \<times> goerr option \<times> Scheduler" where
  "enqueue_combos c root job [] s = ([], None, s)"
| "enqueue_combos c root job (combo # combos) s =
     (case Enqueue c root (Some (cloneJobWithAxis job combo)) s of
        (Inl e, s') \<Rightarrow> ([], Some e, s')
      | (Inr (num, dn), s') \<Rightarrow>
          let (rs, err, s'') = enqueue_combos c root job combos s'
          in (\<lparr>mr_Number = num, mr_Done = dn, mr_Axis = combo\<rparr> # rs, err, s''))"

definition EnqueueMatrix :: "codec \<Rightarrow> path \<Rightarrow> Job option \<Rightarrow> Scheduler \<Rightarrow> MatrixRun list \<times> goerr option \<times> Scheduler" where
  "EnqueueMatrix c root job s =
     (case job of None \<Rightarrow> ([], Some (Msg ''scheduler.EnqueueMatrix: nil Job''), s)
      | Some j \<Rightarrow> if Name j = '''' then ([], Some (Msg ''scheduler.EnqueueMatrix: Job.Name is required''), s)
                 else enqueue_combos c root j (cartesianProduct (Axis j)) s)"

section \<open>The product\<close>

lemma length_cartesianProduct: "length (cartesianProduct axes) = prod_list (map (\<lambda>a. length (axis_Values a)) axes)"
  by (induction axes) (simp_all add: length_concat comp_def sum_list_triv)

definition choices :: "AxisDimension list \<Rightarrow> (string \<rightharpoonup> string) set" where
  "choices axes = {m. dom m = axis_Name ` set axes \<and> (\<forall>a \<in> set axes. \<exists>v \<in> set (axis_Values a). m (axis_Name a) = Some v)}"

lemma choices_Cons:
  assumes "axis_Name a \<notin> axis_Name ` set axes"
  shows "choices (a # axes) = {m(axis_Name a \<mapsto> v) | m v. m \<in> choices axes \<and> v \<in> set (axis_Values a)}" (is "?L = ?R")
proof (intro set_eqI iffI)
  fix m assume m: "m \<in> ?L"
  then obtain v where v: "v \<in> set (axis_Values a)" "m (axis_Name a) = Some v" by (auto simp: choices_def)
  let ?m = "m(axis_Name a := None)"
  have "axis_Name b \<noteq> axis_Name a" if "b \<in> set axes" for b using assms that by (metis imageI)
  then have "\<forall>b \<in> set axes. \<exists>v \<in> set (axis_Values b). ?m (axis_Name b) = Some v" using m by (simp add: choices_def)
  moreover have "dom ?m = axis_Name ` set axes" using m assms by (simp add: choices_def)
  ultimately have "?m \<in> choices axes" by (simp add: choices_def)
  moreover have "m = ?m(axis_Name a \<mapsto> v)" using v by (simp add: fun_upd_idem)
  ultimately show "m \<in> ?R" using v(1) by blast
next
  fix m assume "m \<in> ?R"
  then obtain m' v where m': "m = m'(axis_Name a \<mapsto> v)" "m' \<in> choices axes" "v \<in> set (axis_Values a)" by blast
  have "axis_Name b \<noteq> axis_Name a" if "b \<in> set axes" for b using assms that by (metis imageI)
  with m' show "m \<in> ?L" by (simp add: choices_def)
qed

text \<open>
  \<^verbatim>\<open>cartesianProduct\<close> enumerates the matrix: its length is the product of the numbers of values, and over
  axes with different names its maps are exactly the ones that pick one value of every axis.
\<close>

theorem cartesianProduct_enumerates:
  "length (cartesianProduct axes) = prod_list (map (\<lambda>a. length (axis_Values a)) axes)
   \<and> (distinct (map axis_Name axes) \<longrightarrow> map_of ` set (cartesianProduct axes) = choices axes)"
proof (intro conjI impI)
  show "map_of ` set (cartesianProduct axes) = choices axes" if "distinct (map axis_Name axes)"
    using that
  proof (induction axes)
    case Nil
    then show ?case by (auto simp: choices_def)
  next
    case (Cons a axes)
    then have "choices (a # axes) = {m(axis_Name a \<mapsto> v) | m v. m \<in> map_of ` set (cartesianProduct axes) \<and> v \<in> set (axis_Values a)}"
      using choices_Cons by simp
    moreover have "map_of ` set (cartesianProduct (a # axes)) =
        {m(axis_Name a \<mapsto> v) | m v. m \<in> map_of ` set (cartesianProduct axes) \<and> v \<in> set (axis_Values a)}"
      by (auto simp: image_iff update_conv') blast+
    ultimately show ?case by simp
  qed
qed (rule length_cartesianProduct)

section \<open>The clone\<close>

lemma map_of_assign_all: "map_of (assign_all m kvs) = map_of m ++ map_of (rev kvs)"
  by (induction kvs arbitrary: m) (auto simp: assign_all_def update_conv map_add_upd_left fun_eq_iff map_add_def split: option.splits)

lemma distinct_keys_product: "r \<in> set (cartesianProduct axes) \<Longrightarrow> distinct (map fst r)"
  by (induction axes arbitrary: r) (auto intro: distinct_update)

lemma map_of_rev_distinct: "distinct (map fst xs) \<Longrightarrow> map_of (rev xs) = map_of xs"
proof (induction xs)
  case (Cons x xs)
  then have "fst x \<notin> dom (map_of xs)" by (simp add: dom_map_of_conv_image_fst)
  with Cons show ?case by (cases x) (auto simp: fun_eq_iff map_add_def split: option.splits)
qed simp

lemma clone_env:
  assumes "distinct (map fst axis)" "distinct (map fst (step_Env st))"
  shows "map_of (assign_all (assign_all [] (step_Env st)) axis) = map_of (step_Env st) ++ map_of axis"
  using assms by (simp add: map_of_assign_all map_of_rev_distinct)

section \<open>The enqueue loop\<close>

definition matrix_entry :: "Job \<Rightarrow> MatrixRun \<Rightarrow> queuedJob" where
  "matrix_entry job r = \<lparr>qj_job = cloneJobWithAxis job (mr_Axis r), qj_num = mr_Number r, qj_done = mr_Done r, qj_parent = None\<rparr>"

lemma Name_clone [simp]: "Name (cloneJobWithAxis job axis) = Name job"
  by (simp add: cloneJobWithAxis_def)

lemma Enqueue_Inr:
  assumes "Enqueue c root (Some j) s = (Inr (num, dn), s')" "no_faults (disk s)"
  shows "queue s' = queue s @ [\<lparr>qj_job = j, qj_num = num, qj_done = dn, qj_parent = None\<rparr>]" "no_faults (disk s')"
    "\<exists>v. counter (disk s) (counter_path root (Name j)) = Some v \<and> num = go_int (v + 1)
       \<and> counter (disk s') (counter_path root (Name j)) = Some num"
proof -
  obtain r1 s1 where a: "alloc_build c root (Some j) None s = (r1, s1)" by (cases "alloc_build c root (Some j) None s")
  with assms(1) obtain q where r1: "r1 = Inr q" and s': "s' = append_queue q s1" "num = qj_num q" "dn = qj_done q"
    by (auto simp: Enqueue_def enqueueWithParent_def split: sum.splits)
  have j: "qj_job q = j" "qj_parent q = None"
    using a r1 by (auto simp: alloc_build_def Let_def split: if_splits prod.splits sum.splits)
  note b = alloc_build_Inr [OF a [unfolded r1] assms(2)] and f = alloc_build_frame [OF a]
  show "queue s' = queue s @ [\<lparr>qj_job = j, qj_num = num, qj_done = dn, qj_parent = None\<rparr>]"
    using f j by (cases q) (simp add: s' append_queue_def)
  show "no_faults (disk s')" using b(3) by (simp add: s' append_queue_def)
  show "\<exists>v. counter (disk s) (counter_path root (Name j)) = Some v \<and> num = go_int (v + 1)
       \<and> counter (disk s') (counter_path root (Name j)) = Some num"
    using b(1) by (simp add: s' append_queue_def j)
qed

lemma Enqueue_queue_Inl: "Enqueue c root j s = (Inl e, s') \<Longrightarrow> queue s' = queue s"
  using alloc_build_frame(1) by (fastforce simp: Enqueue_def enqueueWithParent_def split: prod.splits sum.splits)

lemma enqueue_combos_effect:
  assumes "enqueue_combos c root job combos s = (rs, err, s')" "no_faults (disk s)"
    and "counter (disk s) (counter_path root (Name job)) = Some v" "v + int (length combos) \<le> max_int"
  shows "map mr_Axis rs = take (length rs) combos \<and> map mr_Number rs = map (\<lambda>i. v + 1 + int i) [0..<length rs]
    \<and> queue s' = queue s @ map (matrix_entry job) rs \<and> (err = None \<longleftrightarrow> length rs = length combos)"
  using assms
proof (induction combos arbitrary: s rs v)
  case Nil
  then show ?case by simp
next
  case (Cons combo combos)
  obtain r s1 where en: "Enqueue c root (Some (cloneJobWithAxis job combo)) s = (r, s1)"
    by (cases "Enqueue c root (Some (cloneJobWithAxis job combo)) s")
  show ?case
  proof (cases r)
    case (Inl e)
    with en Cons.prems(1) Enqueue_queue_Inl [of c root _ s e s1] show ?thesis by auto
  next
    case (Inr nd)
    obtain num dn where nd: "nd = (num, dn)" by (cases nd)
    obtain rs' where tl: "enqueue_combos c root job combos s1 = (rs', err, s')"
      and rs: "rs = \<lparr>mr_Number = num, mr_Done = dn, mr_Axis = combo\<rparr> # rs'"
      using Cons.prems(1) en Inr nd by (auto split: prod.splits)
    note E = Enqueue_Inr [OF en [unfolded Inr nd] Cons.prems(2)]
    have "num = go_int (v + 1)" and c1: "counter (disk s1) (counter_path root (Name job)) = Some num"
      using E(3) Cons.prems(3) by simp_all
    moreover have "min_int \<le> v" using counter_range [OF Cons.prems(3)] by simp
    ultimately have num: "num = v + 1" using Cons.prems(4) by (simp add: go_int_id)
    have "num + int (length combos) \<le> max_int" using Cons.prems(4) num by simp
    from Cons.IH [OF tl E(2) c1 this] E(1) num show ?thesis
      by (simp add: rs matrix_entry_def map_upt_Suc del: upt_Suc)
  qed
qed

text \<open>
  C22. \<^verbatim>\<open>EnqueueMatrix\<close> claims one build per combination: the runs it returns follow the product in order and
  carry consecutive numbers from the job's counter, and the queue grows by exactly their clones, in
  which every step's environment is the axis over the step's own (the axis wins) and no axis is left.
  It reports no error exactly when every combination was enqueued.
\<close>

theorem EnqueueMatrix_consecutive:
  assumes "EnqueueMatrix c root (Some job) s = (rs, err, s')" "Name job \<noteq> ''''" "no_faults (disk s)"
    and "counter (disk s) (counter_path root (Name job)) = Some v"
    and "v + int (length (cartesianProduct (Axis job))) \<le> max_int" "\<forall>st \<in> set (Steps job). distinct (map fst (step_Env st))"
  shows "map mr_Axis rs = take (length rs) (cartesianProduct (Axis job))
    \<and> map mr_Number rs = map (\<lambda>i. v + 1 + int i) [0..<length rs]
    \<and> queue s' = queue s @ map (matrix_entry job) rs
    \<and> (err = None \<longleftrightarrow> length rs = length (cartesianProduct (Axis job)))
    \<and> (\<forall>r \<in> set rs. Axis (qj_job (matrix_entry job r)) = [] \<and>
         map (map_of \<circ> step_Env) (Steps (qj_job (matrix_entry job r))) = map (\<lambda>st. map_of (step_Env st) ++ map_of (mr_Axis r)) (Steps job))"
proof -
  have "enqueue_combos c root job (cartesianProduct (Axis job)) s = (rs, err, s')"
    using assms(1,2) by (simp add: EnqueueMatrix_def)
  note E = enqueue_combos_effect [OF this assms(3,4,5)]
  have "distinct (map fst (mr_Axis r))" if "r \<in> set rs" for r
    using E that distinct_keys_product by (metis image_eqI in_set_takeD list.set_map)
  then have "Axis (qj_job (matrix_entry job r)) = [] \<and>
         map (map_of \<circ> step_Env) (Steps (qj_job (matrix_entry job r))) = map (\<lambda>st. map_of (step_Env st) ++ map_of (mr_Axis r)) (Steps job)"
    if "r \<in> set rs" for r
    using that assms(6) by (simp add: matrix_entry_def cloneJobWithAxis_def clone_env)
  with E show ?thesis by blast
qed

definition demo_matrix :: Job where
  "demo_matrix = (empty_job ''deploy'')\<lparr>
     Axis := [\<lparr>axis_Name = ''os'', axis_Values = [''linux'', ''darwin'']\<rparr>, \<lparr>axis_Name = ''arch'', axis_Values = [''arm64'', ''amd64'']\<rparr>],
     Steps := [\<lparr>step_Name = ''build'', Shell = ''make'', step_Env = [(''os'', ''none''), (''CC'', ''gcc'')]\<rparr>]\<rparr>"

theorem EnqueueMatrix_consecutive_witness:
  "\<exists>rs s'. EnqueueMatrix demo_codec demo_root (Some demo_matrix) (newScheduler demo_world) = (rs, None, s')
     \<and> map mr_Number rs = [1, 2, 3, 4] \<and> length (queue s') = 4"
proof -
  let ?m = "EnqueueMatrix demo_codec demo_root (Some demo_matrix) (newScheduler demo_world)"
  obtain rs err s' where m: "?m = (rs, err, s')" by (cases ?m)
  have "fst (snd ?m) = None" by code_simp
  then have err: "err = None" by (simp add: m)
  have nm: "Name demo_matrix \<noteq> ''''" "counter (disk (newScheduler demo_world)) (counter_path demo_root (Name demo_matrix)) = Some 0"
    "0 + int (length (cartesianProduct (Axis demo_matrix))) \<le> max_int" "length (cartesianProduct (Axis demo_matrix)) = 4"
    "\<forall>st \<in> set (Steps demo_matrix). distinct (map fst (step_Env st))" by code_simp+
  have "no_faults (disk (newScheduler demo_world))" using demo_no_faults by (simp add: newScheduler_def)
  from EnqueueMatrix_consecutive [OF m nm(1) this nm(2,3,5)] err nm(4)
  have "length rs = 4" "map mr_Number rs = map (\<lambda>i. 0 + 1 + int i) [0..<4]" "queue s' = map (matrix_entry demo_matrix) rs"
    by (auto simp: newScheduler_def)
  moreover have "map (\<lambda>i. 0 + 1 + int i) [0..<4] = [1, 2, 3, 4]" by code_simp
  ultimately show ?thesis using m err by auto
qed

theorem cartesianProduct_enumerates_witness:
  "map_of ` set (cartesianProduct (Axis demo_matrix)) = choices (Axis demo_matrix)"
proof -
  have "distinct (map axis_Name (Axis demo_matrix))" by code_simp
  then show ?thesis using cartesianProduct_enumerates [of "Axis demo_matrix"] by blast
qed

end
