(* ===== verification/Retention.thy ===== *)
theory Retention
  imports Scheduler "HOL-Library.Product_Lexorder"
begin

text \<open>
  The build-history sweeper of \<^verbatim>\<open>internal/retention/retention.go\<close>. Instants and durations are nanoseconds.
  \<open>rdec\<close> is \<^verbatim>\<open>json.Unmarshal\<close> into a \<^verbatim>\<open>BuildResult\<close>; \<open>ParseDuration\<close> is \<^verbatim>\<open>time.ParseDuration\<close>, with the fraction of a unit
  computed exactly and truncated where the library goes through a float.
\<close>

section \<open>Durations\<close>

definition unit_ns :: "string \<Rightarrow> int option" where
  "unit_ns u = map_of [(''ns'', 1), (''us'', 1000), ([CHR 0xC2, CHR 0xB5, CHR ''s''], 1000), ([CHR 0xCE, CHR 0xBC, CHR ''s''], 1000),
     (''ms'', 1000000), (''s'', 1000000000), (''m'', 60000000000), (''h'', 3600000000000)] u"

definition digits_int :: "string \<Rightarrow> int" where
  "digits_int s = int (digits_nat s)"

lemma dropWhile_shorter: "takeWhile P xs \<noteq> [] \<Longrightarrow> length (dropWhile P xs) < length xs"
  by (cases xs) (auto simp: le_imp_less_Suc length_dropWhile_le split: if_splits)

text \<open>The loop of \<^verbatim>\<open>ParseDuration\<close>: one \<open>[0-9]*(.[0-9]*)?unit\<close> group per turn, the sum so far in \<open>d\<close>.\<close>

function parse_groups :: "string \<Rightarrow> int \<Rightarrow> int option" where
  "parse_groups s d =
     (if s = '''' then Some d
      else let pre = takeWhile is_digit s; s1 = dropWhile is_digit s;
               dot = (s1 \<noteq> '''' \<and> hd s1 = CHR ''.'');
               frac = (if dot then takeWhile is_digit (tl s1) else '''');
               s2 = (if dot then dropWhile is_digit (tl s1) else s1);
               u = takeWhile (\<lambda>c. c \<noteq> CHR ''.'' \<and> \<not> is_digit c) s2;
               s3 = dropWhile (\<lambda>c. c \<noteq> CHR ''.'' \<and> \<not> is_digit c) s2
           in if pre = '''' \<and> frac = '''' \<or> u = '''' then None
              else (case unit_ns u of None \<Rightarrow> None
                    | Some k \<Rightarrow>
                        let d' = d + digits_int pre * k + digits_int frac * k div 10 ^ length frac
                        in if d' > 2 ^ 63 then None else parse_groups s3 d'))"
  by pat_completeness auto
termination parse_groups
proof (relation "measure (length \<circ> fst)", goal_cases)
  case (2 s d pre s1 dot frac s2 u s3 k d')
  have "length s1 \<le> length s" unfolding 2(3) by (rule length_dropWhile_le)
  moreover have "length s2 \<le> length s1"
    unfolding 2(6) by (auto intro: order_trans [OF length_dropWhile_le])
  moreover have "length s3 < length s2" using dropWhile_shorter 2(7,8,9) by metis
  ultimately show ?case by simp
qed simp

declare parse_groups.simps [simp del]

definition ParseDuration :: "string \<Rightarrow> int option" where
  "ParseDuration str =
     (let neg = (str \<noteq> '''' \<and> hd str = CHR ''-'');
          s = (if str \<noteq> '''' \<and> (hd str = CHR ''-'' \<or> hd str = CHR ''+'') then tl str else str)
      in if s = ''0'' then Some 0
         else if s = '''' then None
         else (case parse_groups s 0 of None \<Rightarrow> None
               | Some d \<Rightarrow> if neg then Some (- d) else if d > max_int then None else Some d))"

section \<open>The sweep\<close>

record buildEntry =
  be_num :: int
  be_mtime :: int
  completed :: bool

type_synonym res_decoder = "string \<Rightarrow> BuildResult option"

definition validResult :: "res_decoder \<Rightarrow> path \<Rightarrow> bool io" where
  "validResult rdec path =
     bindIO (attempt (os_ReadFile path)) (\<lambda>r. case r of
       Inl e \<Rightarrow> returnIO False
     | Inr data \<Rightarrow> (case rdec data of None \<Rightarrow> returnIO False | Some br \<Rightarrow> returnIO (res_Status br \<noteq> '''')))"

definition build_entry :: "res_decoder \<Rightarrow> path \<Rightarrow> string \<Rightarrow> int \<Rightarrow> buildEntry io" where
  "build_entry rdec buildsDir name num =
     (let buildDir = join_path buildsDir [name]; resultPath = join_path buildDir [''result.json''] in
      bindIO (attempt (os_Stat resultPath)) (\<lambda>r. case r of
        Inr info \<Rightarrow> bindIO (validResult rdec resultPath) (\<lambda>ok.
          returnIO \<lparr>be_num = num, be_mtime = mtime info, completed = ok\<rparr>)
      | Inl e \<Rightarrow> bindIO (attempt (os_Stat buildDir)) (\<lambda>r2. case r2 of
          Inr info \<Rightarrow> returnIO \<lparr>be_num = num, be_mtime = mtime info, completed = False\<rparr>
        | Inl e2 \<Rightarrow> returnIO \<lparr>be_num = num, be_mtime = zero_time, completed = False\<rparr>)))"

fun list_entries :: "res_decoder \<Rightarrow> path \<Rightarrow> (string \<times> bool) list \<Rightarrow> buildEntry list io" where
  "list_entries rdec buildsDir [] = returnIO []"
| "list_entries rdec buildsDir ((name, d) # es) =
     (if \<not> d then list_entries rdec buildsDir es
      else case Atoi name of
        None \<Rightarrow> list_entries rdec buildsDir es
      | Some num \<Rightarrow>
          if num < 1 then list_entries rdec buildsDir es
          else bindIO (build_entry rdec buildsDir name num) (\<lambda>entry.
               bindIO (list_entries rdec buildsDir es) (\<lambda>rest. returnIO (entry # rest))))"

definition listBuilds :: "res_decoder \<Rightarrow> path \<Rightarrow> buildEntry list io" where
  "listBuilds rdec buildsDir = bindIO (os_ReadDir buildsDir) (list_entries rdec buildsDir)"

text \<open>The loop of \<^verbatim>\<open>composeKeep\<close>, with \<^verbatim>\<open>completedSeen\<close> as an argument.\<close>

fun keep_loop :: "int \<Rightarrow> int \<Rightarrow> int \<Rightarrow> int \<Rightarrow> buildEntry list \<Rightarrow> bool list" where
  "keep_loop maxBuilds maxAge cutoff seen [] = []"
| "keep_loop maxBuilds maxAge cutoff seen (e # es) =
     (if \<not> completed e then True # keep_loop maxBuilds maxAge cutoff seen es
      else (maxBuilds > 0 \<and> seen < maxBuilds \<or> maxAge > 0 \<and> \<not> be_mtime e < cutoff)
           # keep_loop maxBuilds maxAge cutoff (seen + 1) es)"

definition composeKeep :: "buildEntry list \<Rightarrow> int \<Rightarrow> int \<Rightarrow> int \<Rightarrow> bool list" where
  "composeKeep entries maxBuilds maxAge now =
     (if maxBuilds \<le> 0 \<and> maxAge \<le> 0 then map (\<lambda>_. True) entries
      else keep_loop maxBuilds maxAge (now - maxAge) 0 entries)"

fun sweep_remove :: "path \<Rightarrow> (bool \<times> buildEntry) list \<Rightarrow> world \<Rightarrow> (int list \<times> goerr option) \<times> world" where
  "sweep_remove buildsDir [] w = (([], None), w)"
| "sweep_remove buildsDir ((k, e) # es) w =
     (if k \<or> \<not> completed e then sweep_remove buildsDir es w
      else (case os_RemoveAll (join_path buildsDir [Itoa (be_num e)]) w of
              (Inl err, w') \<Rightarrow> (([], Some (Wrap ''retention.SweepJob: remove'' err)), w')
            | (Inr _, w') \<Rightarrow> (case sweep_remove buildsDir es w' of ((ns, err), w'') \<Rightarrow> ((be_num e # ns, err), w''))))"

definition SweepJob :: "codec \<Rightarrow> res_decoder \<Rightarrow> path \<Rightarrow> string \<Rightarrow> int \<Rightarrow> world \<Rightarrow> (int list \<times> goerr option) \<times> world" where
  "SweepJob c rdec root jobName now w =
     (case LoadJob c root jobName w of
        (Inl e, w1) \<Rightarrow> (([], Some (Wrap ''retention.SweepJob: load'' e)), w1)
      | (Inr job, w1) \<Rightarrow>
          (case job_Retention job of None \<Rightarrow> (([], None), w1)
           | Some ret \<Rightarrow>
               if MaxBuilds ret = 0 \<and> MaxAge ret = '''' then (([], None), w1)
               else (case (if MaxAge ret = '''' then Some 0 else ParseDuration (MaxAge ret)) of
                  None \<Rightarrow> (([], Some (Msg ''retention.SweepJob: parse max_age'')), w1)
                | Some maxAge \<Rightarrow>
                    let buildsDir = join_path root [''builds'', jobName] in
                    (case listBuilds rdec buildsDir w1 of
                       (Inl e, w2) \<Rightarrow> if errors_Is e ErrNotExist then (([], None), w2) else (([], Some e), w2)
                     | (Inr raw, w2) \<Rightarrow>
                         let entries = sort_key (\<lambda>e. (- be_mtime e, - be_num e)) raw;
                             keep = composeKeep entries (MaxBuilds ret) maxAge now
                         in sweep_remove buildsDir (zip keep entries) w2))))"

fun sweep_jobs :: "codec \<Rightarrow> res_decoder \<Rightarrow> path \<Rightarrow> int \<Rightarrow> Job list \<Rightarrow> (string \<times> int list) list \<Rightarrow> (string \<times> goerr) list
    \<Rightarrow> world \<Rightarrow> ((string \<times> int list) list \<times> (string \<times> goerr) list) \<times> world" where
  "sweep_jobs c rdec root now [] removed errs w = ((removed, errs), w)"
| "sweep_jobs c rdec root now (j # js) removed errs w =
     (case SweepJob c rdec root (Name j) now w of
        ((nums, Some e), w') \<Rightarrow> sweep_jobs c rdec root now js removed (AList.update (Name j) e errs) w'
      | ((nums, None), w') \<Rightarrow>
          sweep_jobs c rdec root now js (if nums \<noteq> [] then AList.update (Name j) nums removed else removed) errs w')"

definition SweepAll :: "codec \<Rightarrow> res_decoder \<Rightarrow> path \<Rightarrow> int \<Rightarrow> world
    \<Rightarrow> ((string \<times> int list) list \<times> (string \<times> goerr) list) \<times> world" where
  "SweepAll c rdec root now w =
     (case ListJobs c root w of
        (Inl e, w') \<Rightarrow> (([], [('''', Wrap ''retention.SweepAll: ListJobs'' e)]), w')
      | (Inr jobs, w') \<Rightarrow> sweep_jobs c rdec root now jobs [] [] w')"

section \<open>What survives\<close>

definition newer :: "buildEntry \<Rightarrow> buildEntry \<Rightarrow> bool" where
  "newer x y \<longleftrightarrow> be_mtime x > be_mtime y \<or> be_mtime x = be_mtime y \<and> be_num x > be_num y"

text \<open>The documented rule: in-flight builds survive, and so does a build that either active threshold protects.\<close>

definition survives :: "buildEntry set \<Rightarrow> int \<Rightarrow> int \<Rightarrow> int \<Rightarrow> buildEntry \<Rightarrow> bool" where
  "survives E maxBuilds maxAge now e \<longleftrightarrow> \<not> completed e \<or> maxBuilds \<le> 0 \<and> maxAge \<le> 0
     \<or> maxBuilds > 0 \<and> int (card {x \<in> E. completed x \<and> newer x e}) < maxBuilds
     \<or> maxAge > 0 \<and> now - maxAge \<le> be_mtime e"

lemma length_keep_loop [simp]: "length (keep_loop mb ma cf k es) = length es"
  by (induction es arbitrary: k) auto

lemma keep_loop_nth:
  "i < length es \<Longrightarrow> keep_loop mb ma cf k es ! i \<longleftrightarrow>
     \<not> completed (es ! i) \<or> mb > 0 \<and> k + int (length (filter completed (take i es))) < mb \<or> ma > 0 \<and> cf \<le> be_mtime (es ! i)"
proof (induction es arbitrary: i k)
  case (Cons e es)
  then show ?case by (cases i) (auto simp: not_less)
qed simp

lemma composeKeep_nth:
  assumes "sorted_wrt newer es" "distinct es" "i < length es"
  shows "composeKeep es mb ma now ! i \<longleftrightarrow> survives (set es) mb ma now (es ! i)"
proof -
  have "set (take i es) = {x \<in> set es. newer x (es ! i)}"
  proof (intro set_eqI iffI)
    fix x assume "x \<in> set (take i es)"
    then obtain k where "k < i" "x = es ! k" using assms(3) by (auto simp: in_set_conv_nth)
    then show "x \<in> {x \<in> set es. newer x (es ! i)}" using assms sorted_wrt_nth_less by fastforce
  next
    fix x assume x: "x \<in> {x \<in> set es. newer x (es ! i)}"
    then obtain k where k: "k < length es" "x = es ! k" by (auto simp: in_set_conv_nth)
    have "\<not> i \<le> k"
    proof
      assume "i \<le> k"
      then have "i = k \<or> newer (es ! i) (es ! k)" using sorted_wrt_nth_less [OF assms(1)] k(1) le_neq_implies_less by blast
      moreover have "newer (es ! k) (es ! i)" using x k by simp
      ultimately show False unfolding newer_def by force
    qed
    with k assms(3) show "x \<in> set (take i es)" by (auto simp: in_set_conv_nth intro!: exI [of _ k])
  qed
  then have "set (filter completed (take i es)) = {x \<in> set es. completed x \<and> newer x (es ! i)}" by auto
  moreover have "length (filter completed (take i es)) = card (set (filter completed (take i es)))"
    using assms(2) by (simp only: distinct_card distinct_filter distinct_take)
  ultimately have "length (filter completed (take i es)) = card {x \<in> set es. completed x \<and> newer x (es ! i)}" by simp
  then show ?thesis
    using assms(3) keep_loop_nth [OF assms(3), of mb ma "now - ma" 0] by (auto simp: composeKeep_def survives_def)
qed

section \<open>The sweep on disk\<close>

definition result_ok :: "res_decoder \<Rightarrow> world \<Rightarrow> path \<Rightarrow> bool" where
  "result_ok rdec w p = (case file_at w p of None \<Rightarrow> False
     | Some b \<Rightarrow> (case rdec b of None \<Rightarrow> False | Some br \<Rightarrow> res_Status br \<noteq> ''''))"

definition disk_entry :: "res_decoder \<Rightarrow> world \<Rightarrow> path \<Rightarrow> string \<Rightarrow> int \<Rightarrow> buildEntry" where
  "disk_entry rdec w dir name num =
     (case fs_get w (dir @ [name, ''result.json'']) of
        Some n \<Rightarrow> \<lparr>be_num = num, be_mtime = mtime n, completed = result_ok rdec w (dir @ [name, ''result.json''])\<rparr>
      | None \<Rightarrow> \<lparr>be_num = num, be_mtime = (case fs_get w (dir @ [name]) of Some n \<Rightarrow> mtime n | None \<Rightarrow> zero_time), completed = False\<rparr>)"

lemma disk_entry_num [simp]: "be_num (disk_entry rdec w dir name num) = num"
  by (simp add: disk_entry_def split: option.splits)

lemma build_entry_ok:
  assumes "no_faults w" "safe_name name"
  shows "build_entry rdec dir name num w = (Inr (disk_entry rdec w dir name num), w)"
proof -
  have p: "join_path dir [name] = dir @ [name]" "join_path (dir @ [name]) [''result.json''] = dir @ [name, ''result.json'']"
    using assms(2) by (simp_all add: join_path_safe safe_name_def)
  show ?thesis
    using assms(1)
    by (auto simp: build_entry_def Let_def p io_defs os_Stat_def validResult_def os_ReadFile_def os_Open_def f_ReadAll_def
        no_faults_def disk_entry_def result_ok_def file_at_def split: option.splits node.splits)
qed

definition numbered :: "string \<times> bool \<Rightarrow> int option" where
  "numbered x = (if snd x then case Atoi (fst x) of None \<Rightarrow> None | Some k \<Rightarrow> if k < 1 then None else Some k else None)"

lemma list_entries_ok:
  assumes "no_faults w" "\<And>n d. (n, d) \<in> set es \<Longrightarrow> safe_name n"
  shows "list_entries rdec dir es w =
    (Inr (map (\<lambda>x. disk_entry rdec w dir (fst x) (the (numbered x))) (filter (\<lambda>x. numbered x \<noteq> None) es)), w)"
  using assms(2)
proof (induction es)
  case Nil
  then show ?case by (simp add: returnIO_def)
next
  case (Cons x es)
  obtain n d where x: "x = (n, d)" by (cases x)
  have IH: "list_entries rdec dir es w =
    (Inr (map (\<lambda>x. disk_entry rdec w dir (fst x) (the (numbered x))) (filter (\<lambda>x. numbered x \<noteq> None) es)), w)"
    using Cons by (metis list.set_intros(2))
  have "build_entry rdec dir n k w = (Inr (disk_entry rdec w dir n k), w)" for k
    by (rule build_entry_ok [OF assms(1) Cons.prems [of n d]]) (simp add: x)
  then show ?case
    by (auto simp: x IH numbered_def io_defs split: option.splits)
qed

lemma sweep_remove_ok:
  assumes "no_faults w"
  shows "\<exists>w'. sweep_remove dir kes w = ((map (be_num \<circ> snd) (filter (\<lambda>(k, e). \<not> k \<and> completed e) kes), None), w')
     \<and> (\<forall>q. fs_get w' q = (if \<exists>(k, e) \<in> set kes. \<not> k \<and> completed e \<and> prefix (dir @ [Itoa (be_num e)]) q then None else fs_get w q))"
  using assms
proof (induction kes arbitrary: w)
  case (Cons x kes)
  obtain k e where x: "x = (k, e)" by (cases x)
  show ?case
  proof (cases "k \<or> \<not> completed e")
    case True
    with Cons.IH [OF Cons.prems] x show ?thesis by auto
  next
    case False
    obtain w1 where rm: "os_RemoveAll (dir @ [Itoa (be_num e)]) w = (Inr (), w1)"
      using Cons.prems by (simp add: os_RemoveAll_def no_faults_def)
    note g = RemoveAll_get [OF rm]
    have "no_faults w1" using g Cons.prems by (simp add: no_faults_def)
    from Cons.IH [OF this] obtain w' where w': "sweep_remove dir kes w1 = ((map (be_num \<circ> snd) (filter (\<lambda>(k, e). \<not> k \<and> completed e) kes), None), w')"
      "\<forall>q. fs_get w' q = (if \<exists>(k, e) \<in> set kes. \<not> k \<and> completed e \<and> prefix (dir @ [Itoa (be_num e)]) q then None else fs_get w1 q)"
      by blast
    have "join_path dir [Itoa (be_num e)] = dir @ [Itoa (be_num e)]" by (simp add: join_path_safe)
    then have "sweep_remove dir (x # kes) w = ((map (be_num \<circ> snd) (filter (\<lambda>(k, e). \<not> k \<and> completed e) (x # kes)), None), w')"
      using False rm w'(1) x by simp
    moreover have "fs_get w' q = (if \<exists>(k, e) \<in> set (x # kes). \<not> k \<and> completed e \<and> prefix (dir @ [Itoa (be_num e)]) q then None else fs_get w q)" for q
      using w'(2) g [of q] False x by auto
    ultimately show ?thesis by blast
  qed
qed simp

text \<open>
  The builds of a job. A directory is \<open>canonical\<close> when the numeric names in it are the ones \<^verbatim>\<open>strconv.Itoa\<close>
  writes (the scheduler creates no others).
\<close>

definition build_nums :: "world \<Rightarrow> path \<Rightarrow> int set" where
  "build_nums w dir = {k. 1 \<le> k \<and> k \<le> max_int \<and> is_dir w (dir @ [Itoa k])}"

definition disk_build :: "res_decoder \<Rightarrow> world \<Rightarrow> path \<Rightarrow> int \<Rightarrow> buildEntry" where
  "disk_build rdec w dir k = disk_entry rdec w dir (Itoa k) k"

definition canonical :: "world \<Rightarrow> path \<Rightarrow> bool" where
  "canonical w dir \<longleftrightarrow> (\<forall>n. fs_get w (dir @ [n]) \<noteq> None \<longrightarrow> safe_name n \<and> (\<forall>k. Atoi n = Some k \<and> 1 \<le> k \<longrightarrow> n = Itoa k))"

lemma listBuilds_ok:
  assumes "no_faults w" "canonical w dir" "is_dir w dir" "dir \<noteq> []"
  shows "\<exists>raw. listBuilds rdec dir w = (Inr raw, w) \<and> distinct (map be_num raw) \<and> set raw = disk_build rdec w dir ` build_nums w dir"
proof -
  let ?es = "map (\<lambda>n. (n, is_dir w (dir @ [n]))) (entry_names w dir)"
  let ?f = "filter (\<lambda>x. numbered x \<noteq> None) ?es"
  define raw where "raw = map (\<lambda>x. disk_entry rdec w dir (fst x) (the (numbered x))) ?f"
  have rd: "os_ReadDir dir w = (Inr ?es, w)"
    using assms by (auto simp: os_ReadDir_def no_faults_def is_dir_def split: option.splits)
  have safe: "safe_name n" if "(n, d) \<in> set ?es" for n d
    using that assms(2) set_entry_names by (auto simp: canonical_def)
  have list: "listBuilds rdec dir w = (Inr raw, w)"
  proof -
    have "list_entries rdec dir ?es w = (Inr raw, w)"
      unfolding raw_def by (rule list_entries_ok [OF assms(1)]) (rule safe)
    then show ?thesis by (simp add: listBuilds_def bindIO_def rd)
  qed
  have num: "n = Itoa k \<and> k \<in> build_nums w dir" if "(n, d) \<in> set ?es" "numbered (n, d) = Some k" for n d k
  proof -
    from that(2) have k: "d" "Atoi n = Some k" "1 \<le> k" by (auto simp: numbered_def split: if_splits option.splits)
    from that(1) k(1) have "fs_get w (dir @ [n]) \<noteq> None" and id: "is_dir w (dir @ [n])" using set_entry_names by auto
    with assms(2) k have "n = Itoa k" unfolding canonical_def by blast
    with id k show ?thesis using Atoi_le [OF k(2)] by (auto simp: build_nums_def)
  qed
  have conv: "(Itoa k, True) \<in> set ?f \<and> numbered (Itoa k, True) = Some k" if "k \<in> build_nums w dir" for k
  proof -
    have d: "is_dir w (dir @ [Itoa k])" and k: "1 \<le> k" "k \<le> max_int" using that by (auto simp: build_nums_def)
    have "fs_get w (dir @ [Itoa k]) \<noteq> None" using d by (auto simp: is_dir_def split: option.splits)
    then have "Itoa k \<in> set (entry_names w dir)" by (simp add: set_entry_names)
    moreover have "numbered (Itoa k, True) = Some k" using k Atoi_Itoa [of k] by (simp add: numbered_def min_int_def)
    ultimately show ?thesis using d by force
  qed
  have "map be_num raw = map (\<lambda>x. the (numbered x)) ?f" by (simp add: raw_def comp_def)
  moreover have "distinct ?f" using sorted_entry_names(2) by (simp add: distinct_map inj_on_def)
  moreover have "inj_on (\<lambda>x. the (numbered x)) (set ?f)"
  proof (rule inj_onI)
    fix x y assume a: "x \<in> set ?f" "y \<in> set ?f" "the (numbered x) = the (numbered y)"
    obtain n d m e where xy: "x = (n, d)" "y = (m, e)" by (cases x, cases y)
    from a xy obtain k where "numbered (n, d) = Some k" "numbered (m, e) = Some k" by auto
    moreover have "(n, d) \<in> set ?es" "(m, e) \<in> set ?es" using a(1,2) xy by simp_all
    ultimately have "n = m" using num by metis
    with a xy show "x = y" by auto
  qed
  ultimately have "distinct (map be_num raw)" by (simp add: distinct_map)
  moreover have "set raw = disk_build rdec w dir ` build_nums w dir"
  proof (intro set_eqI iffI)
    fix e assume "e \<in> set raw"
    then obtain x where x: "x \<in> set ?f" "e = disk_entry rdec w dir (fst x) (the (numbered x))"
      unfolding raw_def set_map by blast
    obtain n d where nd: "x = (n, d)" by (cases x)
    from x(1) obtain k where k: "(n, d) \<in> set ?es" "numbered (n, d) = Some k" unfolding nd by auto
    have "e = disk_entry rdec w dir n k" using x(2) k(2) by (simp add: nd)
    then show "e \<in> disk_build rdec w dir ` build_nums w dir" using num [OF k] by (auto simp: disk_build_def)
  next
    fix e assume "e \<in> disk_build rdec w dir ` build_nums w dir"
    then obtain k where "k \<in> build_nums w dir" "e = disk_build rdec w dir k" by blast
    with conv [of k] show "e \<in> set raw" unfolding raw_def disk_build_def set_map by (metis (lifting) fst_conv image_eqI option.sel)
  qed
  ultimately show ?thesis using list by blast
qed

lemma sorted_newer:
  assumes "distinct (map be_num raw)"
  shows "sorted_wrt newer (sort_key (\<lambda>e. (- be_mtime e, - be_num e)) raw)" (is "sorted_wrt newer ?es")
proof -
  let ?f = "\<lambda>e. (- be_mtime e, - be_num e)"
  have "sorted (map ?f ?es)" by simp
  then have le: "sorted_wrt (\<lambda>x y. ?f x \<le> ?f y) ?es" by (simp only: sorted_map)
  have "distinct (map be_num ?es)" using assms by (simp add: distinct_map)
  then show ?thesis
    unfolding sorted_wrt_iff_nth_less
  proof (intro allI impI)
    fix i j assume ij: "i < j" "j < length ?es"
    have "?f (?es ! i) \<le> ?f (?es ! j)" using le ij by (simp only: sorted_wrt_iff_nth_less)
    moreover have "be_num (?es ! i) \<noteq> be_num (?es ! j)"
      using \<open>distinct (map be_num ?es)\<close> ij by (simp add: distinct_conv_nth)
    ultimately show "newer (?es ! i) (?es ! j)" by (auto simp: newer_def less_eq_prod_def)
  qed
qed

lemma filter_survivors:
  assumes "sorted_wrt newer es" "distinct es"
  shows "set (map snd (filter (\<lambda>(k, e). \<not> k \<and> completed e) (zip (composeKeep es mb ma now) es))) = {e \<in> set es. \<not> survives (set es) mb ma now e}"
proof -
  have len: "length (composeKeep es mb ma now) = length es" by (simp add: composeKeep_def)
  have "e \<in> set (map snd (filter (\<lambda>(k, e). \<not> k \<and> completed e) (zip (composeKeep es mb ma now) es)))
      \<longleftrightarrow> (\<exists>i < length es. e = es ! i \<and> \<not> composeKeep es mb ma now ! i \<and> completed (es ! i))" for e
    by (force simp: set_zip len)
  also have "\<dots> e \<longleftrightarrow> (\<exists>i < length es. e = es ! i \<and> \<not> survives (set es) mb ma now (es ! i))" for e
    using composeKeep_nth [OF assms] by (auto simp: survives_def)
  finally have L: "e \<in> set (map snd (filter (\<lambda>(k, e). \<not> k \<and> completed e) (zip (composeKeep es mb ma now) es)))
      \<longleftrightarrow> (\<exists>i < length es. e = es ! i \<and> \<not> survives (set es) mb ma now (es ! i))" for e .
  show ?thesis by (rule set_eqI, unfold L) (auto simp: in_set_conv_nth)
qed

lemma image_select:
  assumes "\<And>k. g (f k) = k"
  shows "g ` {e \<in> f ` B. P e} = {k \<in> B. P (f k)}"
proof -
  have "{e \<in> f ` B. P e} = f ` {k \<in> B. P (f k)}" by auto
  then show ?thesis by (simp add: image_image assms)
qed

text \<open>
  C6. \<^verbatim>\<open>SweepJob\<close> removes exactly the builds the policy gives up, on a disk without faults and over a build directory in which every
  numeric directory name is the decimal form of its number (the names the scheduler makes): it deletes the completed builds that
  are neither among the \<^verbatim>\<open>MaxBuilds\<close> newest completed ones nor younger than \<^verbatim>\<open>MaxAge\<close>, reports their numbers, touches no
  build without a valid \<^verbatim>\<open>result.json\<close>, and leaves every other path as it was. A name such as \<^verbatim>\<open>007\<close> beside \<^verbatim>\<open>7\<close> breaks this:
  \<open>padded_name_sweeps_running_build\<close>.
\<close>

theorem SweepJob_correct:
  assumes "no_faults w" "safe_name jobName" "canonical w (root @ [''builds'', jobName])" "is_dir w (root @ [''builds'', jobName])"
    and "disk_job c root w jobName = Some j" "job_Retention j = Some ret" "\<not> (MaxBuilds ret = 0 \<and> MaxAge ret = '''')"
    and "(if MaxAge ret = '''' then Some 0 else ParseDuration (MaxAge ret)) = Some maxAge"
  shows "\<exists>ns w'. SweepJob c rdec root jobName now w = ((ns, None), w')
    \<and> set ns = {k \<in> build_nums w (root @ [''builds'', jobName]).
         \<not> survives (disk_build rdec w (root @ [''builds'', jobName]) ` build_nums w (root @ [''builds'', jobName]))
             (MaxBuilds ret) maxAge now (disk_build rdec w (root @ [''builds'', jobName]) k)}
    \<and> (\<forall>q. fs_get w' q = (if \<exists>k \<in> set ns. prefix (root @ [''builds'', jobName, Itoa k]) q then None else fs_get w q))"
proof -
  let ?dir = "root @ [''builds'', jobName]"
  have dir: "join_path root [''builds'', jobName] = ?dir" using assms(2) by (simp add: join_path_safe)
  have load: "LoadJob c root jobName w = (Inr j, w)" using assms(1,2,5) by (simp add: LoadJob_ok safe_name_def)
  have "?dir \<noteq> []" by simp
  from listBuilds_ok [OF assms(1,3,4) this, of rdec] obtain raw where raw: "listBuilds rdec ?dir w = (Inr raw, w)"
    "distinct (map be_num raw)" "set raw = disk_build rdec w ?dir ` build_nums w ?dir" by blast
  define es where "es = sort_key (\<lambda>e. (- be_mtime e, - be_num e)) raw"
  have es: "sorted_wrt newer es" "distinct es" "set es = disk_build rdec w ?dir ` build_nums w ?dir"
    using sorted_newer [OF raw(2)] raw(2,3) by (simp_all add: es_def distinct_map)
  let ?kes = "zip (composeKeep es (MaxBuilds ret) maxAge now) es"
  let ?rem = "filter (\<lambda>(k, e). \<not> k \<and> completed e) ?kes"
  from sweep_remove_ok [OF assms(1), of ?dir ?kes] obtain w' where
    w': "sweep_remove ?dir ?kes w = ((map (be_num \<circ> snd) ?rem, None), w')"
    "\<forall>q. fs_get w' q = (if \<exists>(k, e) \<in> set ?kes. \<not> k \<and> completed e \<and> prefix (?dir @ [Itoa (be_num e)]) q then None else fs_get w q)"
    by blast
  have sw: "SweepJob c rdec root jobName now w = ((map (be_num \<circ> snd) ?rem, None), w')"
    using assms(6,7,8) raw(1) w'(1) by (auto simp: SweepJob_def load dir Let_def es_def split: if_splits)
  have "set (map (be_num \<circ> snd) ?rem) = be_num ` set (map snd ?rem)" by (simp add: image_image)
  also have "\<dots> = be_num ` {e \<in> set es. \<not> survives (set es) (MaxBuilds ret) maxAge now e}"
    by (simp only: filter_survivors [OF es(1,2)])
  also have "\<dots> = {k \<in> build_nums w ?dir. \<not> survives (disk_build rdec w ?dir ` build_nums w ?dir) (MaxBuilds ret) maxAge now (disk_build rdec w ?dir k)}"
    unfolding es(3) by (rule image_select) (simp add: disk_build_def)
  finally have ns: "set (map (be_num \<circ> snd) ?rem) = {k \<in> build_nums w ?dir.
      \<not> survives (disk_build rdec w ?dir ` build_nums w ?dir) (MaxBuilds ret) maxAge now (disk_build rdec w ?dir k)}" .
  have "(\<exists>(k, e) \<in> set ?kes. \<not> k \<and> completed e \<and> prefix (?dir @ [Itoa (be_num e)]) q)
      \<longleftrightarrow> (\<exists>k \<in> set (map (be_num \<circ> snd) ?rem). prefix (root @ [''builds'', jobName, Itoa k]) q)" for q by force
  with w'(2) have "\<forall>q. fs_get w' q =
      (if \<exists>k \<in> set (map (be_num \<circ> snd) ?rem). prefix (root @ [''builds'', jobName, Itoa k]) q then None else fs_get w q)"
    by presburger
  with sw ns show ?thesis by blast
qed

section \<open>Concrete sweeps\<close>

definition demo_swept :: Job where
  "demo_swept = (empty_job ''deploy'')\<lparr>job_Retention := Some \<lparr>MaxBuilds = 1, MaxAge = ''1h30m''\<rparr>\<rparr>"

definition demo_rdec :: res_decoder where
  "demo_rdec s = (if s = ''ok'' then Some \<lparr>JobName = ''deploy'', Number = 1, res_Status = StatusSuccess, ExitCode = 0,
     res_Error = '''', TriggeredBy = None\<rparr> else None)"

definition demo_scodec :: codec where
  "demo_scodec = \<lparr>job_enc = (\<lambda>j. Name j), job_dec = (\<lambda>s. if s = ''deploy'' then Some demo_swept else None)\<rparr>"

definition demo_builds :: "(path \<times> node) list \<Rightarrow> world" where
  "demo_builds bs = \<lparr>files = [([''srv''], DirN 0), ([''srv'', ''jobs''], DirN 0), ([''srv'', ''jobs'', ''deploy''], DirN 0),
      ([''srv'', ''jobs'', ''deploy'', ''job.yaml''], FileN ''deploy'' 0), ([''srv'', ''builds''], DirN 0),
      ([''srv'', ''builds'', ''deploy''], DirN 0)] @ map (\<lambda>(p, n). ([''srv'', ''builds'', ''deploy''] @ p, n)) bs,
     clock = 9, fault = (\<lambda>_ _. False), torn = (\<lambda>_. 0)\<rparr>"

text \<open>Builds 1 and 2 are completed, build 3 still runs.\<close>

definition demo_history :: world where
  "demo_history = demo_builds [([''1''], DirN 1), ([''1'', ''result.json''], FileN ''ok'' 2), ([''2''], DirN 3),
     ([''2'', ''result.json''], FileN ''ok'' 4), ([''3''], DirN 5), ([''3'', ''console.log''], FileN ''...'' 5)]"

text \<open>Build 7 still runs; a copy of an old build sits beside it as \<^verbatim>\<open>007\<close>.\<close>

definition demo_padded :: world where
  "demo_padded = demo_builds [([''1''], DirN 8), ([''1'', ''result.json''], FileN ''ok'' 9),
     ([''007''], DirN 1), ([''007'', ''result.json''], FileN ''ok'' 2), ([''7''], DirN 5)]"

text \<open>
  The sweeper parses directory names with \<^verbatim>\<open>Atoi\<close> but removes \<^verbatim>\<open>Itoa\<close> of the number: an old completed build
  in a directory named \<^verbatim>\<open>007\<close> makes it delete the running build 7, and the directory \<^verbatim>\<open>007\<close> stays.
\<close>

theorem padded_name_sweeps_running_build:
  "\<not> completed (disk_build demo_rdec demo_padded [''srv'', ''builds'', ''deploy''] 7)
   \<and> is_dir demo_padded [''srv'', ''builds'', ''deploy'', ''7'']
   \<and> (case SweepJob demo_scodec demo_rdec demo_root ''deploy'' (10 ^ 16) demo_padded of ((ns, err), w') \<Rightarrow>
        ns = [7] \<and> err = None \<and> fs_get w' [''srv'', ''builds'', ''deploy'', ''7''] = None
        \<and> is_dir w' [''srv'', ''builds'', ''deploy'', ''007''])"
  by code_simp

lemma canonical_history: "canonical demo_history [''srv'', ''builds'', ''deploy'']"
proof -
  have A: "Atoi ''1'' = Some 1" "Atoi ''2'' = Some 2" "Atoi ''3'' = Some 3" "Itoa 1 = ''1''" "Itoa 2 = ''2''" "Itoa 3 = ''3''"
    by code_simp+
  have "n \<in> {''1'', ''2'', ''3''}" if "fs_get demo_history ([''srv'', ''builds'', ''deploy''] @ [n]) \<noteq> None" for n
    using that by (auto simp: demo_history_def demo_builds_def fs_get_def split: if_splits)
  moreover have "safe_name n \<and> (\<forall>k. Atoi n = Some k \<and> 1 \<le> k \<longrightarrow> n = Itoa k)" if "n \<in> {''1'', ''2'', ''3''}" for n
    using that A by (auto simp: safe_name_def)
  ultimately show ?thesis unfolding canonical_def by blast
qed

theorem SweepJob_correct_witness:
  "\<exists>ns w'. SweepJob demo_scodec demo_rdec demo_root ''deploy'' (10 ^ 16) demo_history = ((ns, None), w')
    \<and> (\<forall>q. fs_get w' q = (if \<exists>k \<in> set ns. prefix (demo_root @ [''builds'', ''deploy'', Itoa k]) q then None else fs_get demo_history q))"
proof -
  have nf: "no_faults demo_history" by (simp add: no_faults_def demo_history_def demo_builds_def)
  have can: "canonical demo_history (demo_root @ [''builds'', ''deploy''])" using canonical_history by (simp add: demo_root_def)
  have d: "safe_name ''deploy''" "is_dir demo_history (demo_root @ [''builds'', ''deploy''])"
    "disk_job demo_scodec demo_root demo_history ''deploy'' = Some demo_swept"
    "job_Retention demo_swept = Some \<lparr>MaxBuilds = 1, MaxAge = ''1h30m''\<rparr>"
    "ParseDuration ''1h30m'' = Some 5400000000000" by code_simp+
  show ?thesis
    using SweepJob_correct [OF nf d(1) can d(2-4), of 5400000000000 demo_rdec "10 ^ 16"] d(5) by auto
qed

end
