(* ===== verification/AtomicFile.thy ===== *)
theory AtomicFile
  imports GoFs
begin

text \<open>
  Replacing a file through a temporary file and a rename, the idiom of \<^verbatim>\<open>internal/credstore/store.go\<close>
  (\<^verbatim>\<open>writeFileAtomically\<close>) and \<^verbatim>\<open>internal/ghprb/state.go\<close> (\<^verbatim>\<open>State.Save\<close>). \<open>rnd\<close> is the random part of the name
  \<^verbatim>\<open>os.CreateTemp\<close> picks. The locale \<open>atomic_writer\<close> is what the callers rely on: the target holds the new content
  after a success and its old content after a failure, and nothing else changes but a left-over temporary.
\<close>

section \<open>System calls\<close>

definition tmp_path :: "path \<Rightarrow> string \<Rightarrow> path" where
  "tmp_path dir rnd = dir @ [''.tmp-'' @ rnd]"

definition os_CreateTemp :: "path \<Rightarrow> string \<Rightarrow> unit io" where
  "os_CreateTemp dir rnd w =
     (if fault w OpCreateTemp dir then (Inl ErrIO, w)
      else if \<not> is_dir w dir then (Inl ErrNotExist, w)
      else case fs_get w (tmp_path dir rnd) of
             Some n \<Rightarrow> (Inl ErrIO, w)
           | None \<Rightarrow> (Inr (), fs_put (tmp_path dir rnd) (FileN '''' (clock w)) w))"

definition f_Chmod :: "path \<Rightarrow> unit io" where
  "f_Chmod p w = (if fault w OpChmod p then (Inl ErrIO, w) else (Inr (), w))"

text \<open>\<open>or_else m cleanup\<close>: on an error of \<open>m\<close> run the clean-up, drop its outcome and return the error.\<close>

definition or_else :: "'a io \<Rightarrow> unit io \<Rightarrow> 'a io" where
  "or_else m cleanup w = (case m w of (Inl e, w') \<Rightarrow> (Inl e, snd (cleanup w')) | r \<Rightarrow> r)"

definition writeFileAtomically :: "string \<Rightarrow> path \<Rightarrow> string \<Rightarrow> unit io" where
  "writeFileAtomically rnd path data =
     (let dir = butlast path; tmpPath = tmp_path dir rnd in
      seqIO (os_CreateTemp dir rnd)
     (seqIO (or_else (f_Write tmpPath data) (os_Remove tmpPath))
     (seqIO (or_else (f_Chmod tmpPath) (os_Remove tmpPath))
     (seqIO (or_else (f_Close tmpPath) (os_Remove tmpPath))
            (os_Rename tmpPath path)))))"

section \<open>Renaming a file\<close>

lemma map_of_rebase_file:
  assumes "\<And>k. k \<in> fst ` set al \<Longrightarrow> prefix p k \<Longrightarrow> k = p" "q \<notin> fst ` set al" "p \<noteq> q"
  shows "map_of (map (\<lambda>(r, x). (rebase p q r, x)) al) r =
    (if r = q then map_of al p else if r = p then None else map_of al r)"
  using assms(1,2)
proof (induction al)
  case (Cons a al)
  obtain k x where a: "a = (k, x)" by (cases a)
  have "rebase p q k = (if k = p then q else k)" "k \<noteq> q"
    using Cons.prems a by (auto simp: rebase_def)
  with Cons a assms(3) show ?case by auto
qed simp

lemma Rename_file:
  assumes "os_Rename p q w = (r, w')" "fs_get w p = Some (FileN b t)" "p \<noteq> q" "\<And>s. s \<noteq> [] \<Longrightarrow> fs_get w (p @ s) = None"
  shows "isl r \<and> w' = w \<or> r = Inr () \<and> fs_get w' = (fs_get w)(p := None, q \<mapsto> FileN b t)" "clock w' = clock w" "fault w' = fault w"
proof -
  have below: "k = p" if "k \<in> fst ` set (files w)" "prefix p k" for k
  proof -
    from that(2) obtain s where s: "k = p @ s" by (auto simp: prefix_def)
    have "fs_get w k \<noteq> None" using that(1) by (simp add: fs_get_def map_of_eq_None_iff)
    with assms(4) s show ?thesis by (cases "s = []") auto
  qed
  have below': "k = p" if "k \<in> fst ` set (AList.delete q (files w))" "prefix p k" for k
    using that below by (simp add: keys_delete)
  have main: "fs_get (w\<lparr>files := map (\<lambda>(r, x). (rebase p q r, x)) (AList.delete q (files w))\<rparr>) = (fs_get w)(p := None, q \<mapsto> FileN b t)"
    using map_of_rebase_file [of "AList.delete q (files w)" p q, OF below' _ assms(3)] assms(2,3)
    by (auto simp: fs_get_def fun_eq_iff keys_delete)
  have main': "fs_get (w\<lparr>files := map (\<lambda>(r, x). (rebase p q r, x)) (files w)\<rparr>) = (fs_get w)(p := None, q \<mapsto> FileN b t)"
    if "fs_get w q = None"
    using map_of_rebase_file [of "files w" p q, OF below _ assms(3)] assms(2,3) that
    by (auto simp: fs_get_def fun_eq_iff map_of_eq_None_iff)
  show "isl r \<and> w' = w \<or> r = Inr () \<and> fs_get w' = (fs_get w)(p := None, q \<mapsto> FileN b t)"
    using assms(1-3) main main'
    by (auto simp: os_Rename_def split: if_splits option.splits)
  show "clock w' = clock w" "fault w' = fault w"
    using assms(1) by (auto simp: os_Rename_def split: if_splits option.splits)
qed

section \<open>The interface\<close>

definition tmp_fresh :: "world \<Rightarrow> path \<Rightarrow> string \<Rightarrow> bool" where
  "tmp_fresh w dir rnd \<longleftrightarrow> (\<forall>s. fs_get w (tmp_path dir rnd @ s) = None)"

locale atomic_writer =
  fixes put :: "string \<Rightarrow> path \<Rightarrow> string \<Rightarrow> unit io"
  assumes put_outcome: "put rnd p d w = (r, w') \<Longrightarrow> tmp_fresh w (butlast p) rnd \<Longrightarrow> p \<noteq> tmp_path (butlast p) rnd \<Longrightarrow>
      (isl r \<and> (\<forall>q. q \<noteq> tmp_path (butlast p) rnd \<longrightarrow> fs_get w' q = fs_get w q)
       \<or> r = Inr () \<and> fs_get w' = (fs_get w)(p \<mapsto> FileN d (clock w))) \<and> clock w' = clock w \<and> fault w' = fault w"
    and put_succeeds: "no_faults w \<Longrightarrow> tmp_fresh w (butlast p) rnd \<Longrightarrow> p \<noteq> tmp_path (butlast p) rnd \<Longrightarrow>
      is_dir w (butlast p) \<Longrightarrow> \<not> is_dir w p \<Longrightarrow> \<exists>w'. put rnd p d w = (Inr (), w')"
begin

text \<open>The target is never torn: whatever fails, it holds the old content or all of the new one.\<close>

lemma put_atomic:
  assumes "put rnd p d w = (r, w')" "tmp_fresh w (butlast p) rnd" "p \<noteq> tmp_path (butlast p) rnd"
  shows "file_at w' p = (if isl r then file_at w p else Some d)"
  using put_outcome [OF assms] assms(3) by (auto simp: file_at_def)

lemma put_then_read:
  assumes "put rnd p d w = (Inr (), w')" "tmp_fresh w (butlast p) rnd" "p \<noteq> tmp_path (butlast p) rnd" "no_faults w"
  shows "os_ReadFile p w' = (Inr d, w')" "no_faults w'"
proof -
  have "file_at w' p = Some d" "fault w' = fault w" using put_atomic [OF assms(1-3)] put_outcome [OF assms(1-3)] by auto
  then show "os_ReadFile p w' = (Inr d, w')" "no_faults w'" using assms(4) by (auto simp: ReadFile_ok no_faults_def)
qed

lemma put_other:
  assumes "put rnd p d w = (r, w')" "tmp_fresh w (butlast p) rnd" "p \<noteq> tmp_path (butlast p) rnd"
    and "q \<noteq> p" "q \<noteq> tmp_path (butlast p) rnd"
  shows "fs_get w' q = fs_get w q"
  using put_outcome [OF assms(1-3)] assms(4,5) by auto

end

section \<open>Provider\<close>

lemma seqIO_assoc: "seqIO (seqIO a b) c = seqIO a (seqIO b c)"
  by (auto simp: io_defs fun_eq_iff split: prod.splits sum.splits)

lemma or_else_Inr: "or_else m k w = (Inr x, w') \<longleftrightarrow> m w = (Inr x, w')"
  by (auto simp: or_else_def split: prod.splits sum.splits)

lemma or_else_Inl: "or_else m k w = (Inl e, w') \<longleftrightarrow> (\<exists>w1. m w = (Inl e, w1) \<and> w' = snd (k w1))"
  by (auto simp: or_else_def split: prod.splits sum.splits)

text \<open>A step on the temporary that fails leaves everything but the temporary alone.\<close>

definition only_touches :: "path \<Rightarrow> world \<Rightarrow> world \<Rightarrow> bool" where
  "only_touches t w w' \<longleftrightarrow> (\<forall>q. q \<noteq> t \<longrightarrow> fs_get w' q = fs_get w q) \<and> clock w' = clock w \<and> fault w' = fault w"

lemma only_touches_trans: "only_touches t u v \<Longrightarrow> only_touches t v w \<Longrightarrow> only_touches t u w"
  by (simp add: only_touches_def)

lemma only_touches_calls:
  "only_touches t w (snd (f_Write t d w))" "only_touches t w (snd (f_Chmod t w))" "only_touches t w (snd (f_Close t w))"
  "only_touches t w (snd (os_Remove t w))" "t = tmp_path dir rnd \<Longrightarrow> only_touches t w (snd (os_CreateTemp dir rnd w))"
  by (auto simp: only_touches_def f_Write_def Let_def f_Chmod_def f_Close_def os_Remove_def os_CreateTemp_def split: option.splits)

lemma only_touches_or_else:
  "(\<And>w. only_touches t w (snd (m w))) \<Longrightarrow> only_touches t w (snd (or_else m (os_Remove t) w))"
  by (auto simp: or_else_def split: prod.splits sum.splits)
    (metis only_touches_trans only_touches_calls(4) snd_conv)+

lemma only_touches_seqIO:
  "(\<And>w. only_touches t w (snd (m w))) \<Longrightarrow> (\<And>w. only_touches t w (snd (k w))) \<Longrightarrow> only_touches t w (snd (seqIO m k w))"
  by (auto simp: seqIO_def bindIO_def split: prod.splits sum.splits) (metis only_touches_trans snd_conv)+

lemmas only_touches_rules = only_touches_calls only_touches_or_else only_touches_seqIO

text \<open>Filling the temporary and renaming it over the target, for any way of filling it.\<close>

lemma fill_then_rename:
  assumes run: "seqIO fill (os_Rename t p) w = (r, w')" and p: "t \<noteq> p" "\<And>s. fs_get w (t @ s) = None"
    and fill: "\<And>w. only_touches t w (snd (fill w))" "\<And>w1. fill w = (Inr (), w1) \<Longrightarrow> fs_get w1 t = Some (FileN d (clock w))"
  shows "(isl r \<and> (\<forall>q. q \<noteq> t \<longrightarrow> fs_get w' q = fs_get w q) \<or> r = Inr () \<and> fs_get w' = (fs_get w)(p \<mapsto> FileN d (clock w)))
    \<and> clock w' = clock w \<and> fault w' = fault w"
proof -
  obtain r1 w1 where f: "fill w = (r1, w1)" by (cases "fill w")
  have o: "only_touches t w w1" using fill(1) [of w] f by simp
  show ?thesis
  proof (cases r1)
    case (Inl e)
    with run f o show ?thesis by (auto simp: io_defs only_touches_def)
  next
    case (Inr u)
    then have t: "fs_get w1 t = Some (FileN d (clock w))" using fill(2) f by simp
    have rn: "os_Rename t p w1 = (r, w')" using run f Inr by (simp add: io_defs)
    have "fs_get w1 (t @ s) = None" if "s \<noteq> []" for s using o p(2) that by (simp add: only_touches_def)
    note R = Rename_file [OF rn t p(1) this]
    have "fs_get w t = None" using p(2) [of "[]"] by simp
    then have "(fs_get w1)(t := None, p \<mapsto> FileN d (clock w)) = (fs_get w)(p \<mapsto> FileN d (clock w))"
      using o p(1) by (auto simp: only_touches_def fun_eq_iff)
    with R o show ?thesis by (auto simp: only_touches_def)
  qed
qed

lemma fill_then_rename_ok:
  assumes "fill w = (Inr (), w1)" "only_touches t w w1" "fs_get w1 t = Some (FileN d k)" "no_faults w" "t \<noteq> p" "t \<noteq> []"
    "butlast t = butlast p" "is_dir w (butlast p)" "\<not> is_dir w p"
  shows "\<exists>w'. seqIO fill (os_Rename t p) w = (Inr (), w')"
proof -
  have "butlast p \<noteq> t" using assms(6,7) by (metis butlast_self)
  then have d: "is_dir w1 (butlast p)" using assms(2,8) by (simp add: is_dir_def only_touches_def)
  have "fs_get w1 p = fs_get w p" using assms(2,5) by (simp add: only_touches_def)
  then have "\<exists>w'. os_Rename t p w1 = (Inr (), w')"
    using assms d by (auto simp: os_Rename_def no_faults_def only_touches_def is_dir_def split: option.splits)
  then show ?thesis using assms(1) by (simp add: io_defs)
qed

definition fill_chmod :: "string \<Rightarrow> path \<Rightarrow> string \<Rightarrow> unit io" where
  "fill_chmod rnd dir data = seqIO (os_CreateTemp dir rnd)
     (seqIO (or_else (f_Write (tmp_path dir rnd) data) (os_Remove (tmp_path dir rnd)))
     (seqIO (or_else (f_Chmod (tmp_path dir rnd)) (os_Remove (tmp_path dir rnd)))
            (or_else (f_Close (tmp_path dir rnd)) (os_Remove (tmp_path dir rnd)))))"

lemma writeFileAtomically_fill:
  "writeFileAtomically rnd p d = seqIO (fill_chmod rnd (butlast p) d) (os_Rename (tmp_path (butlast p) rnd) p)"
  by (simp add: writeFileAtomically_def fill_chmod_def Let_def seqIO_assoc)

lemma fill_chmod_touches: "only_touches (tmp_path dir rnd) w (snd (fill_chmod rnd dir d w))"
  unfolding fill_chmod_def by (intro only_touches_rules refl)

lemma fill_chmod_Inr:
  assumes "fill_chmod rnd dir d w = (Inr (), w1)"
  shows "fs_get w1 (tmp_path dir rnd) = Some (FileN d (clock w))"
  using assms
  by (auto simp: fill_chmod_def io_simps or_else_Inr os_CreateTemp_def f_Write_def f_Chmod_def f_Close_def Let_def file_at_def
      split: if_splits option.splits)

lemma tmp_path_simps [simp]: "butlast (tmp_path dir rnd) = dir" "tmp_path dir rnd \<noteq> []"
  by (simp_all add: tmp_path_def)

lemma fill_chmod_ok:
  assumes "no_faults w" "is_dir w dir" "fs_get w (tmp_path dir rnd) = None"
  shows "\<exists>w1. fill_chmod rnd dir d w = (Inr (), w1)"
  using assms by (auto simp: fill_chmod_def io_defs or_else_def os_CreateTemp_def f_Write_def f_Chmod_def f_Close_def Let_def no_faults_def)

interpretation cred: atomic_writer writeFileAtomically
proof
  fix rnd p d w r w'
  assume "writeFileAtomically rnd p d w = (r, w')" "tmp_fresh w (butlast p) rnd" "p \<noteq> tmp_path (butlast p) rnd"
  then show "(isl r \<and> (\<forall>q. q \<noteq> tmp_path (butlast p) rnd \<longrightarrow> fs_get w' q = fs_get w q)
       \<or> r = Inr () \<and> fs_get w' = (fs_get w)(p \<mapsto> FileN d (clock w))) \<and> clock w' = clock w \<and> fault w' = fault w"
    unfolding writeFileAtomically_fill
    by (intro fill_then_rename [where fill = "fill_chmod rnd (butlast p) d"])
      (auto simp: tmp_fresh_def intro: fill_chmod_touches fill_chmod_Inr)
next
  fix w p rnd d
  assume a: "no_faults w" "tmp_fresh w (butlast p) rnd" "p \<noteq> tmp_path (butlast p) rnd" "is_dir w (butlast p)" "\<not> is_dir w p"
  have "fs_get w (tmp_path (butlast p) rnd) = None" using a(2) unfolding tmp_fresh_def by (metis append_Nil2)
  from fill_chmod_ok [OF a(1,4) this, of d] obtain w1 where f: "fill_chmod rnd (butlast p) d w = (Inr (), w1)" by blast
  show "\<exists>w'. writeFileAtomically rnd p d w = (Inr (), w')"
    unfolding writeFileAtomically_fill
    by (rule fill_then_rename_ok [where fill = "fill_chmod rnd (butlast p) d", OF f _ fill_chmod_Inr [OF f] a(1)])
      (use a f fill_chmod_touches [of "butlast p" rnd w d] in auto)
qed

end
