(* ===== verification/Ghprb.thy ===== *)
theory Ghprb
  imports Scheduler AtomicFile
begin

text \<open>
  The GitHub pull request builder, \<^verbatim>\<open>internal/ghprb\<close> and \<^verbatim>\<open>internal/scheduler/ghprb.go\<close>: polling, the debounce ledger and
  its file, the build environment, and the enqueue. The HTTP client, the JSON decoder of a response, the YAML
  library and wolfCrypt's generator are parameters.
\<close>

section \<open>Poller (\<^verbatim>\<open>poller.go\<close>)\<close>

record TriggerEvent =
  PRID :: int
  HeadSHA :: string
  Author :: string
  TargetBranch :: string
  AuthorEmail :: string
  SourceBranch :: string
  AuthorRepoGitURL :: string
  PullTitle :: string
  PullDescription :: string
  PullLongDescription :: string
  PullLink :: string
  GHRepository :: string
  CommentBody :: string
  CommitAuthor :: string
  CommitAuthorEmail :: string
  TriggerAuthor :: string
  TriggerAuthorLogin :: string
  TriggerAuthorEmail :: string

record request =
  req_url :: string
  req_headers :: "(string \<times> string) list"

record response =
  StatusCode :: int
  Body :: "string res"

text \<open>The request builder and the transport of the \<^verbatim>\<open>http.Client\<close>: each can fail.\<close>

record http_client =
  new_request :: "string \<Rightarrow> goerr option"
  http_do :: "request \<Rightarrow> response res"

record Poller =
  baseURL :: string
  token :: string
  owner :: string
  repo :: string
  client :: http_client

record githubPR =
  pr_Number :: int
  pr_State :: string
  Head_SHA :: string
  User_Login :: string
  Base_Ref :: string

definition TrimRight_slash :: "string \<Rightarrow> string" where
  "TrimRight_slash s = rev (dropWhile (\<lambda>c. c = CHR ''/'') (rev s))"

definition newPoller :: "http_client \<Rightarrow> string \<Rightarrow> string \<Rightarrow> string \<Rightarrow> string \<Rightarrow> http_client option \<Rightarrow> Poller" where
  "newPoller dflt base tok own rep cl =
     \<lparr>baseURL = TrimRight_slash base, token = tok, owner = own, repo = rep,
      client = (case cl of None \<Rightarrow> dflt | Some c \<Rightarrow> c)\<rparr>"

definition truncate :: "string \<Rightarrow> nat \<Rightarrow> string" where
  "truncate s m = (if length s \<le> m then s else take m s @ ''...'')"

definition pr_event :: "githubPR \<Rightarrow> TriggerEvent" where
  "pr_event pr = \<lparr>PRID = pr_Number pr, HeadSHA = Head_SHA pr, Author = User_Login pr, TargetBranch = Base_Ref pr,
     AuthorEmail = '''', SourceBranch = '''', AuthorRepoGitURL = '''', PullTitle = '''', PullDescription = '''',
     PullLongDescription = '''', PullLink = '''', GHRepository = '''', CommentBody = '''', CommitAuthor = '''',
     CommitAuthorEmail = '''', TriggerAuthor = '''', TriggerAuthorLogin = '''', TriggerAuthorEmail = ''''\<rparr>"

definition poll_request :: "Poller \<Rightarrow> request" where
  "poll_request p =
     \<lparr>req_url = baseURL p @ ''/repos/'' @ owner p @ ''/'' @ repo p @ ''/pulls?state=open'',
      req_headers = (if token p \<noteq> '''' then [(''Authorization'', ''Bearer '' @ token p)] else [])
        @ [(''Accept'', ''application/vnd.github+json'')]\<rparr>"

definition Poll :: "(string \<Rightarrow> githubPR list option) \<Rightarrow> Poller \<Rightarrow> TriggerEvent list res" where
  "Poll jdec p =
     (case new_request (client p) (req_url (poll_request p)) of
        Some e \<Rightarrow> Inl (Wrap ''ghprb.Poll: new request'' e)
      | None \<Rightarrow> (case http_do (client p) (poll_request p) of
          Inl e \<Rightarrow> Inl (Wrap ''ghprb.Poll: do'' e)
        | Inr resp \<Rightarrow> (case Body resp of
            Inl e \<Rightarrow> Inl (Wrap ''ghprb.Poll: read body'' e)
          | Inr body \<Rightarrow>
              if StatusCode resp \<noteq> 200
              then Inl (Msg (''ghprb.Poll: GitHub returned '' @ Itoa (StatusCode resp) @ '': '' @ truncate body 200))
              else (case jdec body of
                  None \<Rightarrow> Inl (Wrap ''ghprb.Poll: parse JSON'' (Msg ''json''))
                | Some prs \<Rightarrow> Inr (map pr_event (filter (\<lambda>pr. pr_State pr = ''open'') prs))))))"

section \<open>Ledger (\<^verbatim>\<open>state.go\<close>)\<close>

text \<open>A nil map is \<open>None\<close>. The YAML library encodes and decodes the whole ledger.\<close>

record State =
  Entries :: "(string \<times> string) list option"

record state_codec =
  st_enc :: "State \<Rightarrow> string"
  st_dec :: "string \<Rightarrow> State option"

definition LoadState :: "state_codec \<Rightarrow> path \<Rightarrow> State io" where
  "LoadState c path =
     bindIO (attempt (os_ReadFile path)) (\<lambda>r. case r of
       Inl e \<Rightarrow> if errors_Is e ErrNotExist then returnIO \<lparr>Entries = Some []\<rparr> else raiseIO (Wrap ''ghprb.LoadState'' e)
     | Inr data \<Rightarrow> (case st_dec c data of
         None \<Rightarrow> raiseIO (Wrap ''ghprb.LoadState: parse'' (Msg ''yaml''))
       | Some st \<Rightarrow> returnIO (if Entries st = None then st\<lparr>Entries := Some []\<rparr> else st)))"

text \<open>The tail of \<^verbatim>\<open>Save\<close> after the directories exist.\<close>

definition save_bytes :: "string \<Rightarrow> path \<Rightarrow> string \<Rightarrow> unit io" where
  "save_bytes rnd path data =
     (let dir = butlast path; tmpPath = tmp_path dir rnd in
      seqIO (wrapIO ''ghprb.State.Save: tempfile'' (os_CreateTemp dir rnd))
     (seqIO (wrapIO ''ghprb.State.Save: write'' (or_else (f_Write tmpPath data) (os_Remove tmpPath)))
     (seqIO (wrapIO ''ghprb.State.Save: close'' (or_else (f_Close tmpPath) (os_Remove tmpPath)))
            (os_Rename tmpPath path))))"

definition Save :: "state_codec \<Rightarrow> string \<Rightarrow> path \<Rightarrow> State \<Rightarrow> unit io" where
  "Save c rnd path st =
     seqIO (wrapIO ''ghprb.State.Save: mkdir'' (os_MkdirAll (butlast path))) (save_bytes rnd path (st_enc c st))"

fun filter_events :: "(string \<times> string) list \<Rightarrow> TriggerEvent list \<Rightarrow> TriggerEvent list \<times> (string \<times> string) list" where
  "filter_events m [] = ([], m)"
| "filter_events m (e # es) =
     (let key = Itoa (PRID e) in
      if map_of m key = Some (HeadSHA e) then filter_events m es
      else (case filter_events (AList.update key (HeadSHA e) m) es of (out, m') \<Rightarrow> (e # out, m')))"

definition Filter :: "State \<Rightarrow> TriggerEvent list \<Rightarrow> TriggerEvent list \<times> State" where
  "Filter s events =
     (case filter_events (case Entries s of None \<Rightarrow> [] | Some m \<Rightarrow> m) events of (out, m) \<Rightarrow> (out, s\<lparr>Entries := Some m\<rparr>))"

definition PollWithState :: "(string \<Rightarrow> githubPR list option) \<Rightarrow> Poller \<Rightarrow> State \<Rightarrow> TriggerEvent list res \<times> State" where
  "PollWithState jdec p st =
     (case Poll jdec p of Inl e \<Rightarrow> (Inl e, st)
      | Inr events \<Rightarrow> (case Filter st events of (out, st') \<Rightarrow> (Inr out, st')))"

section \<open>Environment and enqueue (\<^verbatim>\<open>env.go\<close>, \<^verbatim>\<open>scheduler/ghprb.go\<close>)\<close>

definition mention :: "string \<Rightarrow> string" where
  "mention login = (if login = '''' then '''' else CHR ''@'' # login)"

definition hex_digit :: "nat \<Rightarrow> char" where
  "hex_digit d = (if d < 10 then char_of (48 + d) else char_of (87 + d))"

definition hex_encode :: "nat list \<Rightarrow> string" where
  "hex_encode bs = concat (map (\<lambda>b. [hex_digit (b div 16), hex_digit (b mod 16)]) bs)"

definition EnvForEvent :: "nat list res \<Rightarrow> TriggerEvent \<Rightarrow> string \<Rightarrow> (string \<times> string) list" where
  "EnvForEvent rand e credentialsID =
     (let rs = (case rand of Inl _ \<Rightarrow> '''' | Inr b \<Rightarrow> hex_encode b);
          triggerLogin = (if TriggerAuthorLogin e = '''' then Author e else TriggerAuthorLogin e)
      in [(''ghprbActualCommit'', HeadSHA e), (''ghprbActualCommitAuthor'', CommitAuthor e),
          (''ghprbActualCommitAuthorEmail'', CommitAuthorEmail e), (''ghprbAuthorRepoGitUrl'', AuthorRepoGitURL e),
          (''ghprbCommentBody'', CommentBody e), (''ghprbCredentialsId'', credentialsID),
          (''ghprbGhRepository'', GHRepository e), (''ghprbPullAuthorEmail'', AuthorEmail e),
          (''ghprbPullAuthorLogin'', Author e), (''ghprbPullAuthorLoginMention'', mention (Author e)),
          (''ghprbPullDescription'', PullDescription e), (''ghprbPullId'', Itoa (PRID e)), (''ghprbPullLink'', PullLink e),
          (''ghprbPullLongDescription'', PullLongDescription e), (''ghprbPullTitle'', PullTitle e),
          (''ghprbSourceBranch'', SourceBranch e), (''ghprbTargetBranch'', TargetBranch e),
          (''ghprbTriggerAuthor'', TriggerAuthor e), (''ghprbTriggerAuthorEmail'', TriggerAuthorEmail e),
          (''ghprbTriggerAuthorLogin'', triggerLogin), (''ghprbTriggerAuthorLoginMention'', mention triggerLogin),
          (''sha1'', HeadSHA e), (''random_string'', rs)])"

definition EnqueueGHPRB :: "codec \<Rightarrow> path \<Rightarrow> nat list res \<Rightarrow> Job option \<Rightarrow> TriggerEvent \<Rightarrow> Scheduler \<Rightarrow> (int \<times> nat) res \<times> Scheduler" where
  "EnqueueGHPRB c root rand job event s =
     (case job of None \<Rightarrow> (Inl (Msg ''scheduler.EnqueueGHPRB: nil Job''), s)
      | Some j \<Rightarrow> (case GitHubPRB j of
          None \<Rightarrow> (Inl (Msg ''scheduler.EnqueueGHPRB: Job.GitHubPRB is nil; no PRB config''), s)
        | Some prb \<Rightarrow> Enqueue c root (Some (j\<lparr>Env := EnvForEvent rand event (APICredentialsID prb)\<rparr>)) s))"

section \<open>Debouncing\<close>

lemma filter_events_spec:
  assumes "distinct (map PRID es)"
  shows "fst (filter_events m es) = filter (\<lambda>e. map_of m (Itoa (PRID e)) \<noteq> Some (HeadSHA e)) es"
    "map_of (snd (filter_events m es)) k = (case map_of (map (\<lambda>e. (Itoa (PRID e), HeadSHA e)) es) k of
       Some sha \<Rightarrow> Some sha | None \<Rightarrow> map_of m k)"
proof -
  have "fst (filter_events m es) = filter (\<lambda>e. map_of m (Itoa (PRID e)) \<noteq> Some (HeadSHA e)) es
    \<and> (\<forall>k. map_of (snd (filter_events m es)) k = (case map_of (map (\<lambda>e. (Itoa (PRID e), HeadSHA e)) es) k of
       Some sha \<Rightarrow> Some sha | None \<Rightarrow> map_of m k))"
    using assms
  proof (induction es arbitrary: m)
    case (Cons e es)
    have ne: "Itoa (PRID x) \<noteq> Itoa (PRID e)" if "x \<in> set es" for x
      using that Cons.prems Itoa_inj by (metis distinct.simps(2) image_eqI image_set list.simps(9))
    then have "Itoa (PRID e) \<notin> (\<lambda>x. Itoa (PRID x)) ` set es" by (metis imageE)
    then have new: "map_of (map (\<lambda>e. (Itoa (PRID e), HeadSHA e)) es) (Itoa (PRID e)) = None"
      by (simp add: map_of_eq_None_iff image_image)
    have eq: "filter (\<lambda>x. map_of (AList.update (Itoa (PRID e)) (HeadSHA e) m) (Itoa (PRID x)) \<noteq> Some (HeadSHA x)) es
        = filter (\<lambda>x. map_of m (Itoa (PRID x)) \<noteq> Some (HeadSHA x)) es"
      using ne by (auto intro: filter_cong)
    from Cons have "distinct (map PRID es)" by simp
    note IH = Cons.IH [OF this]
    show ?case
    proof (cases "map_of m (Itoa (PRID e)) = Some (HeadSHA e)")
      case True
      with IH [of m] new show ?thesis by (simp add: Let_def)
    next
      case False
      let ?m = "AList.update (Itoa (PRID e)) (HeadSHA e) m"
      have "filter_events m (e # es) = (e # fst (filter_events ?m es), snd (filter_events ?m es))"
        using False by (simp add: Let_def split_beta)
      with False IH [of ?m] eq new show ?thesis by (simp split: option.split)
    qed
  qed simp
  then show "fst (filter_events m es) = filter (\<lambda>e. map_of m (Itoa (PRID e)) \<noteq> Some (HeadSHA e)) es"
    "map_of (snd (filter_events m es)) k = (case map_of (map (\<lambda>e. (Itoa (PRID e), HeadSHA e)) es) k of
       Some sha \<Rightarrow> Some sha | None \<Rightarrow> map_of m k)" by blast+
qed

definition ledger :: "State \<Rightarrow> string \<Rightarrow> string option" where
  "ledger s = map_of (case Entries s of None \<Rightarrow> [] | Some m \<Rightarrow> m)"

lemma filter_events_all_seen:
  "(\<And>e. e \<in> set es \<Longrightarrow> map_of m (Itoa (PRID e)) = Some (HeadSHA e)) \<Longrightarrow> filter_events m es = ([], m)"
  by (induction es) (auto simp: Let_def)

text \<open>
  C20. \<^verbatim>\<open>Filter\<close> debounces: for a poll that lists every pull request once it lets through exactly the events whose
  head differs from the ledger, records every head it was given, leaves other entries alone, and lets
  nothing through when the same poll comes again.
\<close>

theorem Filter_debounces:
  assumes "distinct (map PRID events)" "Filter st events = (out, st')"
  shows "out = filter (\<lambda>e. ledger st (Itoa (PRID e)) \<noteq> Some (HeadSHA e)) events
    \<and> (\<forall>e \<in> set events. ledger st' (Itoa (PRID e)) = Some (HeadSHA e))
    \<and> (\<forall>k. k \<notin> (\<lambda>e. Itoa (PRID e)) ` set events \<longrightarrow> ledger st' k = ledger st k)
    \<and> Filter st' events = ([], st')"
proof -
  define m where "m = (case Entries st of None \<Rightarrow> [] | Some m \<Rightarrow> m)"
  define m' where "m' = snd (filter_events m events)"
  have st': "st' = st\<lparr>Entries := Some m'\<rparr>" and out: "out = fst (filter_events m events)"
    using assms(2) by (auto simp: Filter_def m_def m'_def split: prod.splits)
  have led: "ledger st = map_of m" "ledger st' = map_of m'" by (simp_all add: ledger_def m_def st')
  note sp = filter_events_spec [OF assms(1), of m]
  have seen: "map_of m' (Itoa (PRID e)) = Some (HeadSHA e)" if "e \<in> set events" for e
  proof -
    have "distinct (map fst (map (\<lambda>e. (Itoa (PRID e), HeadSHA e)) events))"
      using assms(1) Itoa_inj by (auto simp: distinct_map inj_on_def)
    then have "map_of (map (\<lambda>e. (Itoa (PRID e), HeadSHA e)) events) (Itoa (PRID e)) = Some (HeadSHA e)"
      using that by (intro map_of_is_SomeI) auto
    with sp(2) show ?thesis by (simp add: m'_def)
  qed
  have "map_of m' k = map_of m k" if "k \<notin> (\<lambda>e. Itoa (PRID e)) ` set events" for k
  proof -
    have "map_of (map (\<lambda>e. (Itoa (PRID e), HeadSHA e)) events) k = None" using that by (force simp: map_of_eq_None_iff)
    with sp(2) show ?thesis by (simp add: m'_def)
  qed
  moreover have "Filter st' events = ([], st')"
    using filter_events_all_seen [of events m'] seen by (simp add: Filter_def st')
  ultimately show ?thesis using sp(1) seen out led by simp
qed

section \<open>The ledger file\<close>

definition fill_ledger :: "string \<Rightarrow> path \<Rightarrow> string \<Rightarrow> unit io" where
  "fill_ledger rnd dir data =
     seqIO (wrapIO ''ghprb.State.Save: tempfile'' (os_CreateTemp dir rnd))
     (seqIO (wrapIO ''ghprb.State.Save: write'' (or_else (f_Write (tmp_path dir rnd) data) (os_Remove (tmp_path dir rnd))))
            (wrapIO ''ghprb.State.Save: close'' (or_else (f_Close (tmp_path dir rnd)) (os_Remove (tmp_path dir rnd)))))"

lemma save_bytes_fill: "save_bytes rnd p d = seqIO (fill_ledger rnd (butlast p) d) (os_Rename (tmp_path (butlast p) rnd) p)"
  by (simp add: save_bytes_def fill_ledger_def Let_def seqIO_assoc)

lemma only_touches_wrapIO: "(\<And>w. only_touches t w (snd (m w))) \<Longrightarrow> only_touches t w (snd (wrapIO s m w))"
  by (auto simp: wrapIO_def split: prod.splits sum.splits) (metis snd_conv)+

lemma fill_ledger_touches: "only_touches (tmp_path dir rnd) w (snd (fill_ledger rnd dir d w))"
  unfolding fill_ledger_def by (intro only_touches_rules only_touches_wrapIO refl)

lemma fill_ledger_Inr: "fill_ledger rnd dir d w = (Inr (), w1) \<Longrightarrow> fs_get w1 (tmp_path dir rnd) = Some (FileN d (clock w))"
  by (auto simp: fill_ledger_def io_simps or_else_Inr os_CreateTemp_def f_Write_def f_Close_def Let_def file_at_def
      split: if_splits option.splits)

lemma fill_ledger_ok:
  "no_faults w \<Longrightarrow> is_dir w dir \<Longrightarrow> fs_get w (tmp_path dir rnd) = None \<Longrightarrow> \<exists>w1. fill_ledger rnd dir d w = (Inr (), w1)"
  by (auto simp: fill_ledger_def io_defs or_else_def os_CreateTemp_def f_Write_def f_Close_def Let_def no_faults_def)

interpretation led: atomic_writer save_bytes
proof
  fix rnd p d w r w'
  assume "save_bytes rnd p d w = (r, w')" "tmp_fresh w (butlast p) rnd" "p \<noteq> tmp_path (butlast p) rnd"
  then show "(isl r \<and> (\<forall>q. q \<noteq> tmp_path (butlast p) rnd \<longrightarrow> fs_get w' q = fs_get w q)
       \<or> r = Inr () \<and> fs_get w' = (fs_get w)(p \<mapsto> FileN d (clock w))) \<and> clock w' = clock w \<and> fault w' = fault w"
    unfolding save_bytes_fill
    by (intro fill_then_rename [where fill = "fill_ledger rnd (butlast p) d"])
      (auto simp: tmp_fresh_def intro: fill_ledger_touches fill_ledger_Inr)
next
  fix w p rnd d
  assume a: "no_faults w" "tmp_fresh w (butlast p) rnd" "p \<noteq> tmp_path (butlast p) rnd" "is_dir w (butlast p)" "\<not> is_dir w p"
  have "fs_get w (tmp_path (butlast p) rnd) = None" using a(2) unfolding tmp_fresh_def by (metis append_Nil2)
  from fill_ledger_ok [OF a(1,4) this, of d] obtain w1 where f: "fill_ledger rnd (butlast p) d w = (Inr (), w1)" by blast
  show "\<exists>w'. save_bytes rnd p d w = (Inr (), w')"
    unfolding save_bytes_fill
    by (rule fill_then_rename_ok [where fill = "fill_ledger rnd (butlast p) d", OF f _ fill_ledger_Inr [OF f] a(1)])
      (use a f fill_ledger_touches [of "butlast p" rnd w d] in auto)
qed

lemma MkdirAll_tmp_fresh:
  assumes "os_MkdirAll dir w = (r, w1)" "tmp_fresh w dir rnd"
  shows "tmp_fresh w1 dir rnd"
proof -
  have "\<not> prefix (tmp_path dir rnd @ s) dir" for s
    by (auto simp: tmp_path_def dest!: prefix_length_le)
  then show ?thesis using MkdirAll_other [OF assms(1)] assms(2) by (simp add: tmp_fresh_def)
qed

text \<open>
  C23. The ledger is never torn: whatever step of \<^verbatim>\<open>Save\<close> fails, the file holds its old content, and after a success it
  holds the new one, which \<^verbatim>\<open>LoadState\<close> reads back.
\<close>

theorem Save_atomic:
  assumes "Save c rnd path st w = (r, w')" "tmp_fresh w (butlast path) rnd" "path \<noteq> tmp_path (butlast path) rnd"
  shows "file_at w' path = (if isl r then file_at w path else Some (st_enc c st))
    \<and> (no_faults w \<and> r = Inr () \<and> st_dec c (st_enc c st) = Some st \<and> Entries st \<noteq> None
       \<longrightarrow> LoadState c path w' = (Inr st, w'))"
proof -
  obtain r1 w1 where mk: "os_MkdirAll (butlast path) w = (r1, w1)" by (cases "os_MkdirAll (butlast path) w")
  note fr = MkdirAll_frame(1,3) [OF mk] and fresh = MkdirAll_tmp_fresh [OF mk assms(2)]
  show ?thesis
  proof (cases r1)
    case (Inl e)
    then have "w' = w1" "isl r" using assms(1) mk by (auto simp: Save_def io_defs)
    then show ?thesis using fr by auto
  next
    case (Inr u)
    then have sv: "save_bytes rnd path (st_enc c st) w1 = (r, w')" using assms(1) mk by (auto simp: Save_def io_defs)
    have rd: "os_ReadFile path w' = (Inr (st_enc c st), w')" if "no_faults w" "r = Inr ()"
      using led.put_then_read(1) [of rnd path "st_enc c st" w1 w'] sv fresh assms(3) that fr(2) by (simp add: no_faults_def)
    show ?thesis
      using led.put_atomic [OF sv fresh assms(3)] fr rd by (auto simp: LoadState_def io_defs)
  qed
qed

section \<open>A concrete poll\<close>

definition demo_prs :: "githubPR list" where
  "demo_prs = [\<lparr>pr_Number = 1, pr_State = ''open'', Head_SHA = ''aa'', User_Login = ''ann'', Base_Ref = ''main''\<rparr>,
     \<lparr>pr_Number = 2, pr_State = ''open'', Head_SHA = ''bb'', User_Login = ''bob'', Base_Ref = ''main''\<rparr>]"

definition demo_ledger :: State where "demo_ledger = \<lparr>Entries = Some [(''1'', ''aa''), (''2'', ''old'')]\<rparr>"

theorem Filter_debounces_witness:
  "\<exists>st'. Filter demo_ledger (map pr_event demo_prs) = ([pr_event (demo_prs ! 1)], st') \<and> Filter st' (map pr_event demo_prs) = ([], st')"
proof -
  obtain out st' where f: "Filter demo_ledger (map pr_event demo_prs) = (out, st')" by (cases "Filter demo_ledger (map pr_event demo_prs)")
  have d: "distinct (map PRID (map pr_event demo_prs))" by code_simp
  have "fst (Filter demo_ledger (map pr_event demo_prs)) = [pr_event (demo_prs ! 1)]" by code_simp
  with Filter_debounces [OF d f] f show ?thesis by auto
qed

definition demo_stcodec :: state_codec where
  "demo_stcodec = \<lparr>st_enc = (\<lambda>st. ''L''), st_dec = (\<lambda>s. if s = ''L'' then Some demo_ledger else None)\<rparr>"

theorem Save_atomic_witness:
  "\<exists>w'. Save demo_stcodec ''123'' [''srv'', ''ghprb'', ''j.yaml''] demo_ledger demo_world = (Inr (), w')
     \<and> LoadState demo_stcodec [''srv'', ''ghprb'', ''j.yaml''] w' = (Inr demo_ledger, w')"
proof -
  let ?p = "[''srv'', ''ghprb'', ''j.yaml'']"
  obtain r w' where s: "Save demo_stcodec ''123'' ?p demo_ledger demo_world = (r, w')"
    by (cases "Save demo_stcodec ''123'' ?p demo_ledger demo_world")
  have "fst (Save demo_stcodec ''123'' ?p demo_ledger demo_world) = Inr ()" by code_simp
  then have r: "r = Inr ()" by (simp add: s)
  have fresh: "tmp_fresh demo_world (butlast ?p) ''123''"
    by (auto simp: tmp_fresh_def tmp_path_def fs_get_def demo_world_def)
  have "?p \<noteq> tmp_path (butlast ?p) ''123''" by code_simp
  note S = Save_atomic [OF s fresh this]
  have "st_dec demo_stcodec (st_enc demo_stcodec demo_ledger) = Some demo_ledger" "Entries demo_ledger \<noteq> None"
    by (simp_all add: demo_stcodec_def demo_ledger_def)
  with S r s demo_no_faults show ?thesis by simp
qed

end
