(* ===== verification/PendingAgent.thy ===== *)
theory PendingAgent
  imports GoFs
begin

text \<open>
  Pre-registered agent slots, \<^verbatim>\<open>internal/storage/pending_agent.go\<close>, at \<^verbatim>\<open>nodes/<name>/pending.yaml\<close>; and the shape of names the
  agent slots and the credential store share (\<open>idPattern\<close>). The YAML library is the parameter \<open>pcodec\<close>.
\<close>

section \<open>Names\<close>

definition word_char :: "char \<Rightarrow> bool" where
  "word_char c \<longleftrightarrow> is_letter c \<or> is_digit c \<or> c = CHR ''_''"

text \<open>\<^verbatim>\<open>^[A-Za-z0-9_][A-Za-z0-9_.-]{0,126}[A-Za-z0-9_-]$|^[A-Za-z0-9_-]$\<close>\<close>

definition idPattern :: "string \<Rightarrow> bool" where
  "idPattern s \<longleftrightarrow>
     (case s of [] \<Rightarrow> False
      | [c] \<Rightarrow> word_char c \<or> c = CHR ''-''
      | c # cs \<Rightarrow> word_char c \<and> length cs \<le> 127 \<and> list_all (\<lambda>x. word_char x \<or> x = CHR ''.'' \<or> x = CHR ''-'') (butlast cs)
                  \<and> (word_char (last cs) \<or> last cs = CHR ''-''))"

definition pendingAgentNamePattern :: "string \<Rightarrow> bool" where
  "pendingAgentNamePattern s \<longleftrightarrow> idPattern s"

lemma word_char_plain: "\<not> word_char (CHR ''/'')" "\<not> word_char (CHR ''.'')" "\<not> word_char (CHR 0x5C)"
  by (simp_all add: word_char_def is_letter_def char_between_def is_digit_def less_eq_char_def)

lemma idPattern_chars:
  assumes "idPattern s" "c \<in> set s"
  shows "word_char c \<or> c = CHR ''.'' \<or> c = CHR ''-''"
proof -
  obtain x xs where s: "s = x # xs" using assms by (cases s) (auto simp: idPattern_def)
  show ?thesis
  proof (cases xs)
    case Nil
    then show ?thesis using assms s by (auto simp: idPattern_def)
  next
    case (Cons y ys)
    then have "c = x \<or> c \<in> set (butlast xs) \<or> c = last xs"
      using assms(2) s by (metis append_butlast_last_id list.distinct(1) list.set_cases rotate1.simps(2) set_ConsD set_rotate1)
    then show ?thesis using assms(1) s Cons by (auto simp: idPattern_def list_all_iff split: if_splits)
  qed
qed

lemma idPattern_last: "idPattern s \<Longrightarrow> word_char (last s) \<or> last s = CHR ''-''"
  by (auto simp: idPattern_def split: list.splits if_splits)

lemma idPattern_safe: "idPattern s \<Longrightarrow> safe_name s"
proof -
  assume p: "idPattern s"
  then have "CHR ''/'' \<notin> set s" using idPattern_chars word_char_plain by fastforce
  moreover have "s \<noteq> ''''" "s \<noteq> ''.''" "s \<noteq> ''..''" using p word_char_plain by (auto simp: idPattern_def)
  ultimately show ?thesis by (simp add: safe_name_def)
qed

definition HasPrefix :: "string \<Rightarrow> string \<Rightarrow> bool" where
  "HasPrefix s p \<longleftrightarrow> prefix p s"

definition HasSuffix :: "string \<Rightarrow> string \<Rightarrow> bool" where
  "HasSuffix s p \<longleftrightarrow> suffix p s"

definition validatePendingAgentName :: "string \<Rightarrow> goerr option" where
  "validatePendingAgentName name =
     (if name = '''' then Some (Msg ''pending agent: name is required'')
      else if ContainsAny name [CHR ''/'', CHR 0x5C] then Some (Msg (''pending agent: name contains a path separator: '' @ name))
      else if HasPrefix name ''.'' then Some (Msg (''pending agent: name must not start with a dot: '' @ name))
      else if \<not> pendingAgentNamePattern name then Some (Msg (''pending agent: name must match [A-Za-z0-9_-] with optional internal dots: '' @ name))
      else None)"

text \<open>The cascade of tests accepts exactly the pattern: the earlier tests only choose the message.\<close>

lemma validatePendingAgentName_iff: "validatePendingAgentName name = None \<longleftrightarrow> idPattern name"
proof -
  have "\<not> ContainsAny name [CHR ''/'', CHR 0x5C]" "name \<noteq> ''''" "\<not> HasPrefix name ''.''" if "idPattern name"
    using that idPattern_chars [OF that] word_char_plain
    by (auto simp: ContainsAny_def list_ex_iff HasPrefix_def idPattern_def prefix_def split: list.splits)
  then show ?thesis by (auto simp: validatePendingAgentName_def pendingAgentNamePattern_def)
qed

section \<open>Slots\<close>

record PendingAgent =
  pa_Name :: string
  pa_Labels :: "string list"
  pa_Executors :: int
  pa_Description :: string
  pa_CreatedAt :: int

record pcodec =
  pa_enc :: "PendingAgent \<Rightarrow> string"
  pa_dec :: "string \<Rightarrow> PendingAgent option"

definition PendingAgentPath :: "path \<Rightarrow> string \<Rightarrow> path" where
  "PendingAgentPath root name = join_path root [''nodes'', name, ''pending.yaml'']"

definition stamp_agent :: "int \<Rightarrow> PendingAgent \<Rightarrow> PendingAgent" where
  "stamp_agent now p = (if pa_CreatedAt p = zero_time then p\<lparr>pa_CreatedAt := now\<rparr> else p)"

text \<open>The result is the caller's record as \<^verbatim>\<open>SaveAgent\<close> leaves it (it stamps \<^verbatim>\<open>CreatedAt\<close> through the pointer).\<close>

definition SaveAgent :: "pcodec \<Rightarrow> path \<Rightarrow> PendingAgent option \<Rightarrow> PendingAgent io" where
  "SaveAgent c root p =
     (case p of None \<Rightarrow> raiseIO (Msg ''storage.SaveAgent: nil PendingAgent'')
      | Some a \<Rightarrow> (case validatePendingAgentName (pa_Name a) of
          Some e \<Rightarrow> raiseIO (Wrap ''storage.SaveAgent'' e)
        | None \<Rightarrow>
            if pa_Executors a < 1 then raiseIO (Msg ''storage.SaveAgent: executors must be >= 1'')
            else (\<lambda>w. let a' = stamp_agent (clock w) a; path = PendingAgentPath root (pa_Name a') in
              seqIO (wrapIO ''storage.SaveAgent: mkdir'' (os_MkdirAll (butlast path)))
             (seqIO (wrapIO ''storage.SaveAgent: open'' (os_OpenFile_create path))
             (seqIO (wrapIO ''storage.SaveAgent: flock LOCK_EX'' (f_Flock path))
             (seqIO (wrapIO ''storage.SaveAgent: truncate'' (f_Truncate path))
             (seqIO (wrapIO ''storage.SaveAgent: seek'' (f_Seek path))
             (seqIO (wrapIO ''storage.SaveAgent: yaml encode'' (f_Write path (pa_enc c a')))
             (seqIO (wrapIO ''storage.SaveAgent: yaml close'' (f_Close path))
                    (returnIO a'))))))) w)))"

definition LoadPendingAgent :: "pcodec \<Rightarrow> path \<Rightarrow> string \<Rightarrow> PendingAgent io" where
  "LoadPendingAgent c root name =
     (case validatePendingAgentName name of
        Some e \<Rightarrow> raiseIO (Wrap ''storage.LoadPendingAgent'' e)
      | None \<Rightarrow> bindIO (wrapIO ''storage.LoadPendingAgent: read'' (os_ReadFile (PendingAgentPath root name))) (\<lambda>data.
          case pa_dec c data of
            None \<Rightarrow> raiseIO (Wrap ''storage.LoadPendingAgent: parse'' (Msg ''yaml''))
          | Some p \<Rightarrow> returnIO p))"

fun load_agents :: "pcodec \<Rightarrow> path \<Rightarrow> (string \<times> bool) list \<Rightarrow> PendingAgent list io" where
  "load_agents c root [] = returnIO []"
| "load_agents c root ((n, d) # es) =
     (if \<not> d then load_agents c root es
      else bindIO (attempt (LoadPendingAgent c root n)) (\<lambda>r. case r of
        Inl e \<Rightarrow> load_agents c root es
      | Inr p \<Rightarrow> bindIO (load_agents c root es) (\<lambda>ps. returnIO (p # ps))))"

definition ListPendingAgents :: "pcodec \<Rightarrow> path \<Rightarrow> PendingAgent list io" where
  "ListPendingAgents c root =
     bindIO (attempt (os_ReadDir (join_path root [''nodes'']))) (\<lambda>r. case r of
       Inl e \<Rightarrow> if errors_Is e ErrNotExist then returnIO [] else raiseIO (Wrap ''storage.ListPendingAgents: read'' e)
     | Inr entries \<Rightarrow> load_agents c root entries)"

definition DeletePendingAgent :: "path \<Rightarrow> string \<Rightarrow> unit io" where
  "DeletePendingAgent root name =
     (case validatePendingAgentName name of
        Some e \<Rightarrow> raiseIO (Wrap ''storage.DeletePendingAgent'' e)
      | None \<Rightarrow> let path = PendingAgentPath root name in
          seqIO (wrapIO ''storage.DeletePendingAgent'' (os_Remove path))
         (seqIO (attempt (os_Remove (butlast path))) (returnIO ())))"

section \<open>Life of a slot\<close>

lemma PendingAgentPath_safe: "idPattern n \<Longrightarrow> PendingAgentPath root n = root @ [''nodes'', n, ''pending.yaml'']"
  using idPattern_safe [of n] by (simp add: PendingAgentPath_def join_path_safe safe_name_def)

lemma LoadPendingAgent_view:
  assumes "no_faults w"
  shows "LoadPendingAgent c root n w = (if \<not> idPattern n then (Inl (Wrap ''storage.LoadPendingAgent'' (the (validatePendingAgentName n))), w)
    else (case fs_get w (root @ [''nodes'', n, ''pending.yaml'']) of
        None \<Rightarrow> (Inl (Wrap ''storage.LoadPendingAgent: read'' ErrNotExist), w)
      | Some (DirN t) \<Rightarrow> (Inl (Wrap ''storage.LoadPendingAgent: read'' ErrIsDir), w)
      | Some (FileN b t) \<Rightarrow> (case pa_dec c b of None \<Rightarrow> (Inl (Wrap ''storage.LoadPendingAgent: parse'' (Msg ''yaml'')), w)
          | Some p \<Rightarrow> (Inr p, w))))"
proof (cases "idPattern n")
  case True
  then have "validatePendingAgentName n = None" by (simp add: validatePendingAgentName_iff)
  then show ?thesis
    using assms True by (simp add: LoadPendingAgent_def PendingAgentPath_safe io_defs os_ReadFile_def os_Open_def f_ReadAll_def
        no_faults_def split: option.splits node.splits)
next
  case False
  then obtain e where "validatePendingAgentName n = Some e" using validatePendingAgentName_iff by blast
  with False show ?thesis by (simp add: LoadPendingAgent_def raiseIO_def)
qed

lemma SaveAgent_effect:
  assumes "SaveAgent c root (Some a) w = (Inr a', w')"
  shows "idPattern (pa_Name a)" "1 \<le> pa_Executors a" "a' = stamp_agent (clock w) a" "fault w' = fault w"
    "fs_get w' (root @ [''nodes'', pa_Name a, ''pending.yaml'']) = Some (FileN (pa_enc c a') (clock w))"
    "file_at w' = (file_at w)(root @ [''nodes'', pa_Name a, ''pending.yaml''] \<mapsto> pa_enc c a')"
    "n \<noteq> pa_Name a \<Longrightarrow> fs_get w' (root @ [''nodes'', n, ''pending.yaml'']) = fs_get w (root @ [''nodes'', n, ''pending.yaml''])"
proof -
  show v: "idPattern (pa_Name a)"
    using assms by (auto simp: SaveAgent_def io_simps validatePendingAgentName_iff [symmetric] split: option.splits)
  have nm: "pa_Name (stamp_agent k a) = pa_Name a" for k by (simp add: stamp_agent_def)
  let ?p = "root @ [''nodes'', pa_Name a, ''pending.yaml'']"
  from assms v obtain w1 w2 w3 where s: "1 \<le> pa_Executors a" "a' = stamp_agent (clock w) a"
    "os_MkdirAll (butlast ?p) w = (Inr (), w1)" "os_OpenFile_create ?p w1 = (Inr (), w2)"
    "f_Truncate ?p w2 = (Inr (), w3)" "f_Write ?p (pa_enc c a') w3 = (Inr (), w')"
    by (auto simp: SaveAgent_def io_simps Let_def nm PendingAgentPath_safe dest!: handle_noop split: option.splits if_splits)
  show "1 \<le> pa_Executors a" "a' = stamp_agent (clock w) a" by (rule s(1), rule s(2))
  note rw = rewrite_file [OF s(4-6)] and mk = MkdirAll_frame [OF s(3)]
  show "fault w' = fault w" using rw mk by simp
  show "fs_get w' ?p = Some (FileN (pa_enc c a') (clock w))" using rw mk by simp
  show "file_at w' = (file_at w)(?p \<mapsto> pa_enc c a')" using rw(1) mk(1) by (auto simp: file_at_def fun_eq_iff)
  show "fs_get w' (root @ [''nodes'', n, ''pending.yaml'']) = fs_get w (root @ [''nodes'', n, ''pending.yaml''])" if "n \<noteq> pa_Name a"
  proof -
    have "\<not> prefix (root @ [''nodes'', n, ''pending.yaml'']) (butlast ?p)" by (auto dest!: prefix_length_le)
    then have "fs_get w1 (root @ [''nodes'', n, ''pending.yaml'']) = fs_get w (root @ [''nodes'', n, ''pending.yaml''])"
      by (rule MkdirAll_other [OF s(3)])
    with rw(1) that show ?thesis by simp
  qed
qed

text \<open>
  The life of an agent slot: a saved slot has at least one executor and a name that is a single path
  component, \<^verbatim>\<open>LoadPendingAgent\<close> returns it as stamped, other slots load as before, and after \<^verbatim>\<open>DeletePendingAgent\<close>
  loading it reports \<^verbatim>\<open>os.ErrNotExist\<close>.
\<close>

theorem pending_agent_life:
  assumes "no_faults w" "SaveAgent c root (Some a) w = (Inr a', w')" "pa_dec c (pa_enc c a') = Some a'"
  shows "safe_name (pa_Name a) \<and> 1 \<le> pa_Executors a \<and> LoadPendingAgent c root (pa_Name a) w' = (Inr a', w')
    \<and> (\<forall>n. n \<noteq> pa_Name a \<longrightarrow> fst (LoadPendingAgent c root n w') = fst (LoadPendingAgent c root n w))
    \<and> (\<exists>w'' e. DeletePendingAgent root (pa_Name a) w' = (Inr (), w'')
         \<and> LoadPendingAgent c root (pa_Name a) w'' = (Inl e, w'') \<and> errors_Is e ErrNotExist)"
proof -
  note S = SaveAgent_effect [OF assms(2)]
  let ?p = "root @ [''nodes'', pa_Name a, ''pending.yaml'']"
  have nf: "no_faults w'" using S(4) assms(1) by (simp add: no_faults_def)
  have load: "LoadPendingAgent c root (pa_Name a) w' = (Inr a', w')"
    using S(1,5) assms(3) by (simp add: LoadPendingAgent_view [OF nf])
  have other: "fst (LoadPendingAgent c root n w') = fst (LoadPendingAgent c root n w)" if "n \<noteq> pa_Name a" for n
    using S(7) [OF that] by (simp add: LoadPendingAgent_view [OF nf] LoadPendingAgent_view [OF assms(1)] split: option.splits node.splits)
  obtain w1 where rm: "os_Remove ?p w' = (Inr (), w1)" and w1: "w1 = fs_del ?p w'"
    using nf S(5) by (simp add: os_Remove_def no_faults_def)
  obtain r2 w2 where rd: "os_Remove (butlast ?p) w1 = (r2, w2)" by (cases "os_Remove (butlast ?p) w1")
  have w2: "fs_get w2 ?p = None" "no_faults w2"
    using rd w1 nf by (auto simp: os_Remove_def no_faults_def split: if_splits option.splits)
  have "validatePendingAgentName (pa_Name a) = None" using S(1) by (simp add: validatePendingAgentName_iff)
  then have del: "DeletePendingAgent root (pa_Name a) w' = (Inr (), w2)"
    using rm rd by (simp add: DeletePendingAgent_def Let_def PendingAgentPath_safe [OF S(1)] io_defs)
  moreover have "LoadPendingAgent c root (pa_Name a) w2 = (Inl (Wrap ''storage.LoadPendingAgent: read'' ErrNotExist), w2)"
    using S(1) w2 by (simp add: LoadPendingAgent_view)
  ultimately show ?thesis using idPattern_safe [OF S(1)] S(2) load other by auto
qed

definition demo_agent :: PendingAgent where
  "demo_agent = \<lparr>pa_Name = ''mac-1.lab'', pa_Labels = [''darwin''], pa_Executors = 2, pa_Description = '''', pa_CreatedAt = zero_time\<rparr>"

definition demo_pcodec :: pcodec where
  "demo_pcodec = \<lparr>pa_enc = (\<lambda>a. ''A''), pa_dec = (\<lambda>s. if s = ''A'' then Some (demo_agent\<lparr>pa_CreatedAt := 7\<rparr>) else None)\<rparr>"

definition empty_disk :: world where
  "empty_disk = \<lparr>files = [([''srv''], DirN 0)], clock = 7, fault = (\<lambda>_ _. False), torn = (\<lambda>_. 0)\<rparr>"

theorem pending_agent_life_witness:
  "\<exists>w'. SaveAgent demo_pcodec [''srv''] (Some demo_agent) empty_disk = (Inr (demo_agent\<lparr>pa_CreatedAt := 7\<rparr>), w')
     \<and> LoadPendingAgent demo_pcodec [''srv''] ''mac-1.lab'' w' = (Inr (demo_agent\<lparr>pa_CreatedAt := 7\<rparr>), w')"
proof -
  let ?s = "SaveAgent demo_pcodec [''srv''] (Some demo_agent) empty_disk"
  have "fst ?s = Inr (demo_agent\<lparr>pa_CreatedAt := 7\<rparr>)" by code_simp
  then have s: "?s = (Inr (demo_agent\<lparr>pa_CreatedAt := 7\<rparr>), snd ?s)" by (metis prod.collapse)
  have "no_faults empty_disk" by (simp add: no_faults_def empty_disk_def)
  from pending_agent_life [OF this s] s show ?thesis
    by (auto simp: demo_pcodec_def demo_agent_def)
qed

end
