(* ===== verification/CredStore.thy ===== *)
theory CredStore
  imports AtomicFile PendingAgent
begin

text \<open>
  The credential store, \<^verbatim>\<open>internal/credstore\<close>, with the wrappers of \<^verbatim>\<open>internal/wolfcrypt/aead.go\<close> it calls. Byte slices are
  strings. \<open>gowolf\<close> is the wolfSSL binding (third-party), \<open>rec_enc/rec_dec\<close> the JSON form of a record,
  \<open>idx_enc/idx_dec\<close> the YAML form of the index, \<open>fmt_time\<close> the time stamp of an index row.
\<close>

section \<open>wolfCrypt wrappers (\<^verbatim>\<open>aead.go\<close>, \<^verbatim>\<open>wolfcrypt.go\<close>)\<close>

type_synonym bytes = string

text \<open>Each call of the binding either fails with a return code or yields its output.\<close>

record gowolf =
  wc_rng :: "nat \<Rightarrow> int + bytes"
  wc_hkdf :: "bytes \<Rightarrow> bytes \<Rightarrow> bytes \<Rightarrow> nat \<Rightarrow> int + bytes"
  wc_gcm_encrypt :: "bytes \<Rightarrow> bytes \<Rightarrow> bytes \<Rightarrow> bytes \<Rightarrow> int + bytes"
  wc_gcm_decrypt :: "bytes \<Rightarrow> bytes \<Rightarrow> bytes \<Rightarrow> bytes \<Rightarrow> int + bytes"

definition AESGCMTagSize :: nat where "AESGCMTagSize = 16"

definition rc_err :: "string \<Rightarrow> int + bytes \<Rightarrow> bytes res" where
  "rc_err s r = (case r of Inl rc \<Rightarrow> Inl (Msg (s @ '': '' @ Itoa rc)) | Inr b \<Rightarrow> Inr b)"

definition AESGCMSeal :: "gowolf \<Rightarrow> bytes \<Rightarrow> bytes \<Rightarrow> bytes \<Rightarrow> bytes \<Rightarrow> bytes res" where
  "AESGCMSeal g key nonce plaintext aad =
     (if length key \<notin> {16, 24, 32} then Inl (Msg ''wolfcrypt.AESGCMSeal: key length not in {16,24,32}'')
      else if length nonce \<noteq> 12 then Inl (Msg ''wolfcrypt.AESGCMSeal: nonce length, want 12'')
      else rc_err ''wolfcrypt.AESGCMSeal'' (wc_gcm_encrypt g key nonce plaintext aad))"

definition AESGCMOpen :: "gowolf \<Rightarrow> bytes \<Rightarrow> bytes \<Rightarrow> bytes \<Rightarrow> bytes \<Rightarrow> bytes res" where
  "AESGCMOpen g key nonce ciphertextWithTag aad =
     (if length key \<notin> {16, 24, 32} then Inl (Msg ''wolfcrypt.AESGCMOpen: key length not in {16,24,32}'')
      else if length nonce \<noteq> 12 then Inl (Msg ''wolfcrypt.AESGCMOpen: nonce length, want 12'')
      else if length ciphertextWithTag < AESGCMTagSize then Inl (Msg ''wolfcrypt.AESGCMOpen: ciphertext shorter than tag'')
      else rc_err ''wolfcrypt.AESGCMOpen'' (wc_gcm_decrypt g key nonce ciphertextWithTag aad))"

definition HKDFSHA256 :: "gowolf \<Rightarrow> bytes \<Rightarrow> bytes \<Rightarrow> bytes \<Rightarrow> int \<Rightarrow> bytes res" where
  "HKDFSHA256 g ikm salt info len =
     (if len \<le> 0 then Inl (Msg ''wolfcrypt.HKDFSHA256: length must be positive'')
      else rc_err ''wolfcrypt.HKDFSHA256: Wc_HKDF'' (wc_hkdf g ikm salt info (nat len)))"

definition RandBytes :: "gowolf \<Rightarrow> int \<Rightarrow> bytes res" where
  "RandBytes g n =
     (if n < 0 then Inl (Msg ''wolfcrypt.RandBytes: negative size'')
      else if n = 0 then Inr ''''
      else rc_err ''wolfcrypt.RandBytes'' (wc_rng g (nat n)))"

text \<open>
  What the wolfSSL manual promises: the requested lengths, a ciphertext that is 16 bytes longer than the plaintext,
  and decryption that inverts encryption.
\<close>

definition gowolf_ok :: "gowolf \<Rightarrow> bool" where
  "gowolf_ok g \<longleftrightarrow>
     (\<forall>n b. wc_rng g n = Inr b \<longrightarrow> length b = n) \<and>
     (\<forall>i s f n b. wc_hkdf g i s f n = Inr b \<longrightarrow> length b = n) \<and>
     (\<forall>k n p a c. wc_gcm_encrypt g k n p a = Inr c \<longrightarrow> length c = length p + 16 \<and> wc_gcm_decrypt g k n c a = Inr p)"

section \<open>Records and sealing (\<^verbatim>\<open>format.go\<close>, \<^verbatim>\<open>seal.go\<close>)\<close>

type_synonym CredType = string

record Record =
  rec_Type :: CredType
  Payload :: bytes
  rec_CreatedAt :: int
  Label :: string

record IndexEntry =
  ID :: string
  ie_Type :: CredType
  ie_Label :: string
  ie_CreatedAt :: string

record cred_codec =
  rec_enc :: "Record \<Rightarrow> bytes"
  rec_dec :: "bytes \<Rightarrow> Record option"
  idx_enc :: "IndexEntry list \<Rightarrow> bytes"
  idx_dec :: "bytes \<Rightarrow> IndexEntry list option"
  fmt_time :: "int \<Rightarrow> string"

definition sealKeyLen :: int where "sealKeyLen = 32"
definition sealNonceLen :: nat where "sealNonceLen = 12"

definition deriveSealKey :: "gowolf \<Rightarrow> bytes \<Rightarrow> string \<Rightarrow> bytes res" where
  "deriveSealKey g masterSecret credID =
     (case HKDFSHA256 g masterSecret '''' credID sealKeyLen of
        Inl e \<Rightarrow> Inl (Wrap ''credstore: derive seal key'' e) | Inr key \<Rightarrow> Inr key)"

definition Seal :: "gowolf \<Rightarrow> cred_codec \<Rightarrow> bytes \<Rightarrow> string \<Rightarrow> Record option \<Rightarrow> bytes res" where
  "Seal g c masterSecret credID rcd =
     (case rcd of None \<Rightarrow> Inl (Msg ''credstore.Seal: nil Record'')
      | Some r \<Rightarrow>
          if credID = '''' then Inl (Msg ''credstore.Seal: empty credID'')
          else if masterSecret = '''' then Inl (Msg ''credstore.Seal: empty masterSecret'')
          else let plaintext = rec_enc c r in
            (case deriveSealKey g masterSecret credID of Inl e \<Rightarrow> Inl e
             | Inr key \<Rightarrow> (case RandBytes g (int sealNonceLen) of Inl e \<Rightarrow> Inl (Wrap ''credstore.Seal: nonce'' e)
               | Inr nonce \<Rightarrow> (case AESGCMSeal g key nonce plaintext '''' of Inl e \<Rightarrow> Inl (Wrap ''credstore.Seal: AESGCMSeal'' e)
                 | Inr ctTag \<Rightarrow> Inr (nonce @ ctTag)))))"

definition Unseal :: "gowolf \<Rightarrow> cred_codec \<Rightarrow> bytes \<Rightarrow> string \<Rightarrow> bytes \<Rightarrow> Record res" where
  "Unseal g c masterSecret credID sealed =
     (if credID = '''' then Inl (Msg ''credstore.Unseal: empty credID'')
      else if masterSecret = '''' then Inl (Msg ''credstore.Unseal: empty masterSecret'')
      else if length sealed < sealNonceLen + AESGCMTagSize then Inl (Msg ''credstore.Unseal: sealed shorter than nonce+tag'')
      else let nonce = take sealNonceLen sealed; ctTag = drop sealNonceLen sealed in
        (case deriveSealKey g masterSecret credID of Inl e \<Rightarrow> Inl e
         | Inr key \<Rightarrow> (case AESGCMOpen g key nonce ctTag '''' of Inl e \<Rightarrow> Inl (Wrap ''credstore.Unseal: AESGCMOpen'' e)
           | Inr plaintext \<Rightarrow> (case rec_dec c plaintext of
               None \<Rightarrow> Inl (Wrap ''credstore.Unseal: parse record'' (Msg ''json'')) | Some r \<Rightarrow> Inr r))))"

lemma Unseal_Seal_aux:
  assumes "gowolf_ok g" "rec_dec c (rec_enc c r) = Some r" "Seal g c ms cid (Some r) = Inr sealed"
  shows "length sealed = 12 + length (rec_enc c r) + 16 \<and> Unseal g c ms cid sealed = Inr r"
proof -
  from assms(3) obtain key nonce ct where s: "cid \<noteq> ''''" "ms \<noteq> ''''" "deriveSealKey g ms cid = Inr key"
      "RandBytes g (int sealNonceLen) = Inr nonce" "AESGCMSeal g key nonce (rec_enc c r) '''' = Inr ct" "sealed = nonce @ ct"
    by (auto simp: Seal_def Let_def split: if_splits sum.splits)
  have n: "length nonce = 12"
    using s(4) assms(1) by (auto simp: RandBytes_def sealNonceLen_def rc_err_def gowolf_ok_def split: sum.splits)
  have k: "length key = 32"
    using s(3) assms(1)
    by (auto simp: deriveSealKey_def HKDFSHA256_def sealKeyLen_def rc_err_def gowolf_ok_def split: sum.splits)
  have enc: "wc_gcm_encrypt g key nonce (rec_enc c r) '''' = Inr ct"
    using s(5) by (auto simp: AESGCMSeal_def rc_err_def split: if_splits sum.splits)
  then have ct: "length ct = length (rec_enc c r) + 16" "wc_gcm_decrypt g key nonce ct '''' = Inr (rec_enc c r)"
    using assms(1) by (auto simp: gowolf_ok_def)
  have "AESGCMOpen g key nonce ct '''' = Inr (rec_enc c r)"
    using n k ct by (simp add: AESGCMOpen_def AESGCMTagSize_def rc_err_def)
  then show ?thesis
    using s n ct assms(2) by (simp add: Unseal_def sealNonceLen_def AESGCMTagSize_def)
qed

text \<open>
  A sealed record opens: under the documented behaviour of the primitives, what \<^verbatim>\<open>Seal\<close> returns is the nonce, the
  ciphertext and the tag, and \<^verbatim>\<open>Unseal\<close> under the same secret and id returns the record.
\<close>

theorem Unseal_Seal:
  assumes "gowolf_ok g" "rec_dec c (rec_enc c r) = Some r" "Seal g c ms cid (Some r) = Inr sealed"
  shows "length sealed = 12 + length (rec_enc c r) + 16 \<and> Unseal g c ms cid sealed = Inr r"
  by (rule Unseal_Seal_aux [OF assms])

section \<open>The store (\<^verbatim>\<open>store.go\<close>)\<close>

record Store =
  dir :: path
  masterSecret :: bytes

definition validateID :: "string \<Rightarrow> goerr option" where
  "validateID cid =
     (if cid = '''' then Some (Msg ''id must not be empty'')
      else if cid = ''index'' then Some (Msg ''id index is reserved for the index file'')
      else if HasSuffix cid ''.sealed'' then Some (Msg (''id must not end in .sealed: '' @ cid))
      else if HasPrefix cid ''.'' \<or> HasSuffix cid ''.'' then Some (Msg (''id must not start or end with a dot: '' @ cid))
      else if ContainsAny cid [CHR ''/'', CHR 0x5C] then Some (Msg (''id contains a path separator: '' @ cid))
      else if \<not> idPattern cid then Some (Msg (''id must match [A-Za-z0-9_-] with optional internal dots: '' @ cid))
      else None)"

definition indexHas :: "IndexEntry list \<Rightarrow> string \<Rightarrow> bool" where
  "indexHas idx cid \<longleftrightarrow> list_ex (\<lambda>e. ID e = cid) idx"

definition readIndex :: "cred_codec \<Rightarrow> Store \<Rightarrow> IndexEntry list io" where
  "readIndex c s =
     bindIO (attempt (os_ReadFile (join_path (dir s) [''index.yaml'']))) (\<lambda>r. case r of
       Inl e \<Rightarrow> if errors_Is e ErrNotExist then returnIO [] else raiseIO (Wrap ''read'' e)
     | Inr data \<Rightarrow> (case idx_dec c data of None \<Rightarrow> raiseIO (Wrap ''parse'' (Msg ''yaml'')) | Some idx \<Rightarrow> returnIO idx))"

definition writeIndex :: "cred_codec \<Rightarrow> string \<Rightarrow> Store \<Rightarrow> IndexEntry list \<Rightarrow> unit io" where
  "writeIndex c rnd s idx = writeFileAtomically rnd (join_path (dir s) [''index.yaml'']) (idx_enc c idx)"

definition NewStore :: "cred_codec \<Rightarrow> string \<Rightarrow> path \<Rightarrow> bytes \<Rightarrow> Store io" where
  "NewStore c dirStr d ms =
     (if dirStr = '''' then raiseIO (Msg ''credstore.NewStore: empty dir'')
      else if ms = '''' then raiseIO (Msg ''credstore.NewStore: empty masterSecret'')
      else seqIO (wrapIO ''credstore.NewStore: mkdir'' (os_MkdirAll d))
        (let s = \<lparr>dir = d, masterSecret = ms\<rparr> in seqIO (readIndex c s) (returnIO s)))"

text \<open>The loop over the index: the first entry with the id is replaced; without one the entry is appended.\<close>

fun put_entry :: "IndexEntry \<Rightarrow> IndexEntry list \<Rightarrow> IndexEntry list" where
  "put_entry e [] = [e]"
| "put_entry e (x # xs) = (if ID x = ID e then e # xs else x # put_entry e xs)"

definition index_row :: "cred_codec \<Rightarrow> string \<Rightarrow> Record \<Rightarrow> IndexEntry" where
  "index_row c cid r = \<lparr>ID = cid, ie_Type = rec_Type r, ie_Label = Label r, ie_CreatedAt = fmt_time c (rec_CreatedAt r)\<rparr>"

definition Add :: "gowolf \<Rightarrow> cred_codec \<Rightarrow> string \<Rightarrow> string \<Rightarrow> Store \<Rightarrow> string \<Rightarrow> Record option \<Rightarrow> unit io" where
  "Add g c rnd1 rnd2 s cid rcd =
     (case validateID cid of Some e \<Rightarrow> raiseIO (Wrap ''credstore.Add'' e)
      | None \<Rightarrow> (case rcd of None \<Rightarrow> raiseIO (Msg ''credstore.Add: nil Record'')
        | Some r \<Rightarrow> (case Seal g c (masterSecret s) cid (Some r) of
            Inl e \<Rightarrow> raiseIO (Wrap ''credstore.Add: seal'' e)
          | Inr sealed \<Rightarrow>
              seqIO (wrapIO ''credstore.Add: write'' (writeFileAtomically rnd1 (join_path (dir s) [cid @ ''.sealed'']) sealed))
             (bindIO (wrapIO ''credstore.Add: read index'' (readIndex c s)) (\<lambda>idx.
                wrapIO ''credstore.Add: write index'' (writeIndex c rnd2 s
                  (put_entry (index_row c cid r) idx)))))))"

definition Get :: "gowolf \<Rightarrow> cred_codec \<Rightarrow> Store \<Rightarrow> string \<Rightarrow> Record io" where
  "Get g c s cid =
     (case validateID cid of Some e \<Rightarrow> raiseIO (Wrap ''credstore.Get'' e)
      | None \<Rightarrow> bindIO (wrapIO ''credstore.Get: read index'' (readIndex c s)) (\<lambda>idx.
          if \<not> indexHas idx cid then raiseIO (Msg (''credstore.Get: not in index: '' @ cid))
          else bindIO (wrapIO ''credstore.Get: read'' (os_ReadFile (join_path (dir s) [cid @ ''.sealed'']))) (\<lambda>sealed.
            case Unseal g c (masterSecret s) cid sealed of
              Inl e \<Rightarrow> raiseIO (Wrap ''credstore.Get: unseal'' e)
            | Inr rcd \<Rightarrow> returnIO rcd)))"

definition ListCreds :: "cred_codec \<Rightarrow> Store \<Rightarrow> IndexEntry list io" where
  "ListCreds c s = wrapIO ''credstore.List'' (readIndex c s)"

definition Delete :: "cred_codec \<Rightarrow> string \<Rightarrow> Store \<Rightarrow> string \<Rightarrow> unit io" where
  "Delete c rnd s cid =
     (case validateID cid of Some e \<Rightarrow> raiseIO (Wrap ''credstore.Delete'' e)
      | None \<Rightarrow> bindIO (wrapIO ''credstore.Delete: read index'' (readIndex c s)) (\<lambda>idx.
          if \<not> list_ex (\<lambda>e. ID e = cid) idx then raiseIO (Msg (''credstore.Delete: not in index: '' @ cid))
          else seqIO (wrapIO ''credstore.Delete: write index'' (writeIndex c rnd s (filter (\<lambda>e. ID e \<noteq> cid) idx)))
            (bindIO (attempt (os_Remove (join_path (dir s) [cid @ ''.sealed'']))) (\<lambda>r. case r of
               Inl e \<Rightarrow> if errors_Is e ErrNotExist then returnIO () else raiseIO (Wrap ''credstore.Delete: remove'' e)
             | Inr _ \<Rightarrow> returnIO ()))))"

definition SortByID :: "IndexEntry list \<Rightarrow> IndexEntry list" where
  "SortByID entries = sort_key ID entries"

section \<open>Paths\<close>

lemma validateID_None: "validateID cid = None \<Longrightarrow> idPattern cid \<and> \<not> prefix ''.'' cid \<and> cid \<noteq> ''index''"
  by (auto simp: validateID_def HasPrefix_def split: if_splits)

lemma sealed_path:
  assumes "validateID cid = None"
  shows "join_path d [cid @ ''.sealed''] = d @ [cid @ ''.sealed'']" "d @ [cid @ ''.sealed''] \<noteq> tmp_path d rnd"
    "d @ [cid @ ''.sealed''] \<noteq> d @ [''index.yaml'']"
proof -
  have "safe_name cid" using validateID_None [OF assms] idPattern_safe by blast
  then have "safe_name (cid @ ''.sealed'')" by (auto simp: safe_name_def)
  then show "join_path d [cid @ ''.sealed''] = d @ [cid @ ''.sealed'']" by (simp add: join_path_safe)
  have "\<not> prefix ''.'' cid" "cid \<noteq> ''''" using validateID_None [OF assms] by (auto simp: idPattern_def)
  then show "d @ [cid @ ''.sealed''] \<noteq> tmp_path d rnd" by (cases cid) (auto simp: tmp_path_def prefix_def)
  have "last (cid @ ''.sealed'') \<noteq> last ''index.yaml''" by simp
  then show "d @ [cid @ ''.sealed''] \<noteq> d @ [''index.yaml'']" by (metis last_snoc)
qed

lemma index_path: "join_path d [''index.yaml''] = d @ [''index.yaml'']" "d @ [''index.yaml''] \<noteq> tmp_path d rnd"
  by (simp_all add: join_path_safe safe_name_def tmp_path_def)

definition disk_index :: "cred_codec \<Rightarrow> path \<Rightarrow> world \<Rightarrow> IndexEntry list option" where
  "disk_index c d w = (case fs_get w (d @ [''index.yaml'']) of None \<Rightarrow> Some [] | Some (DirN t) \<Rightarrow> None | Some (FileN b t) \<Rightarrow> idx_dec c b)"

lemma readIndex_Inr:
  assumes "no_faults w"
  shows "readIndex c s w = (Inr idx, w') \<longleftrightarrow> disk_index c (dir s) w = Some idx \<and> w' = w"
  using assms
  by (auto simp: readIndex_def index_path io_defs os_ReadFile_def os_Open_def f_ReadAll_def no_faults_def disk_index_def
      split: option.splits node.splits)

lemma readIndex_world: "readIndex c s w = (r, w') \<Longrightarrow> w' = w"
  by (auto simp: readIndex_def io_defs dest!: ReadFile_world split: if_splits option.splits prod.splits sum.splits)

lemma indexHas_put: "indexHas (put_entry e idx) x \<longleftrightarrow> x = ID e \<or> indexHas idx x"
  by (induction idx) (auto simp: indexHas_def)

lemma indexHas_filter: "indexHas (filter (\<lambda>e. ID e \<noteq> y) idx) x \<longleftrightarrow> x \<noteq> y \<and> indexHas idx x"
  by (induction idx) (auto simp: indexHas_def)

text \<open>\<^verbatim>\<open>Get\<close> depends on the disk only through membership in the index and the sealed file.\<close>

lemma Get_cong:
  assumes "no_faults w" "no_faults w'" "disk_index c (dir s) w = Some idx" "disk_index c (dir s) w' = Some idx'"
    and "indexHas idx' x = indexHas idx x" "validateID x = None \<Longrightarrow> fs_get w' (dir s @ [x @ ''.sealed'']) = fs_get w (dir s @ [x @ ''.sealed''])"
  shows "fst (Get g c s x w') = fst (Get g c s x w)"
proof (cases "validateID x")
  case None
  have r: "readIndex c s w = (Inr idx, w)" "readIndex c s w' = (Inr idx', w')"
    using assms(1-4) by (simp_all add: readIndex_Inr)
  show ?thesis
    using assms(1,2) assms(5) assms(6) [OF None] r None sealed_path(1) [OF None]
    by (auto simp: Get_def io_defs os_ReadFile_def os_Open_def f_ReadAll_def no_faults_def split: option.splits node.splits sum.splits)
qed (simp add: Get_def raiseIO_def)

section \<open>Adding, reading, deleting\<close>

text \<open>What the callers rely on: the YAML and JSON forms decode to what was encoded.\<close>

definition idx_roundtrip :: "cred_codec \<Rightarrow> IndexEntry list \<Rightarrow> bool" where
  "idx_roundtrip c xs \<longleftrightarrow> idx_dec c (idx_enc c xs) = Some xs"

lemma ID_index_row [simp]: "ID (index_row c cid r) = cid"
  by (simp add: index_row_def)

lemma put_index:
  assumes "writeIndex c rnd s xs w = (Inr (), w')" "tmp_fresh w (dir s) rnd" "idx_roundtrip c xs" "no_faults w"
  shows "disk_index c (dir s) w' = Some xs" "no_faults w'" "q \<noteq> dir s @ [''index.yaml''] \<Longrightarrow> fs_get w' q = fs_get w q"
proof -
  have "writeFileAtomically rnd (dir s @ [''index.yaml'']) (idx_enc c xs) w = (Inr (), w')"
    using assms(1) by (simp add: writeIndex_def index_path)
  from cred.put_outcome [OF this] assms(2) index_path(2)
  have o: "fs_get w' = (fs_get w)(dir s @ [''index.yaml''] \<mapsto> FileN (idx_enc c xs) (clock w))" "fault w' = fault w" by auto
  show "disk_index c (dir s) w' = Some xs" using o assms(3) by (simp add: disk_index_def idx_roundtrip_def)
  show "no_faults w'" "q \<noteq> dir s @ [''index.yaml''] \<Longrightarrow> fs_get w' q = fs_get w q" using o assms(4) by (simp_all add: no_faults_def)
qed

lemma put_sealed:
  assumes "writeFileAtomically rnd (dir s @ [cid @ ''.sealed'']) b w = (Inr (), w1)" "tmp_fresh w (dir s) rnd"
    "validateID cid = None" "no_faults w"
  shows "fs_get w1 = (fs_get w)(dir s @ [cid @ ''.sealed''] \<mapsto> FileN b (clock w))" "no_faults w1"
    "tmp_fresh w (dir s) rnd2 \<Longrightarrow> tmp_fresh w1 (dir s) rnd2" "disk_index c (dir s) w1 = disk_index c (dir s) w"
proof -
  from cred.put_outcome [OF assms(1)] assms(2) sealed_path(2) [OF assms(3)]
  have o: "fs_get w1 = (fs_get w)(dir s @ [cid @ ''.sealed''] \<mapsto> FileN b (clock w))" "fault w1 = fault w" by auto
  then show "fs_get w1 = (fs_get w)(dir s @ [cid @ ''.sealed''] \<mapsto> FileN b (clock w))" "no_faults w1"
    using assms(4) by (simp_all add: no_faults_def)
  have "tmp_path (dir s) rnd2 @ x \<noteq> dir s @ [cid @ ''.sealed'']" for x
    using sealed_path(2) [OF assms(3), of "dir s" rnd2] by (cases "x = []") (auto simp: tmp_path_def)
  then show "tmp_fresh w (dir s) rnd2 \<Longrightarrow> tmp_fresh w1 (dir s) rnd2" by (simp add: tmp_fresh_def o)
  show "disk_index c (dir s) w1 = disk_index c (dir s) w"
    using sealed_path(3) [OF assms(3), of "dir s"] by (simp add: disk_index_def o)
qed

lemma Add_effect:
  assumes "no_faults w" "gowolf_ok g" "tmp_fresh w (dir s) rnd1" "tmp_fresh w (dir s) rnd2" "rec_dec c (rec_enc c r) = Some r"
    and rt: "\<And>idx. disk_index c (dir s) w = Some idx \<Longrightarrow> idx_roundtrip c (put_entry (index_row c cid r) idx)"
    and add: "Add g c rnd1 rnd2 s cid (Some r) w = (Inr (), w')"
  shows "no_faults w' \<and> Get g c s cid w' = (Inr r, w') \<and> (\<exists>idx. ListCreds c s w' = (Inr idx, w') \<and> indexHas idx cid)
    \<and> (\<forall>x. x \<noteq> cid \<longrightarrow> fst (Get g c s x w') = fst (Get g c s x w))"
proof -
  let ?p = "dir s @ [cid @ ''.sealed'']"
  let ?e = "index_row c cid r"
  have v: "validateID cid = None" using add by (auto simp: Add_def io_simps split: option.splits)
  note sp = sealed_path [OF v, of "dir s"]
  from add v obtain sealed w1 idx w2 where a: "Seal g c (masterSecret s) cid (Some r) = Inr sealed"
      "writeFileAtomically rnd1 ?p sealed w = (Inr (), w1)" "readIndex c s w1 = (Inr idx, w2)"
      "writeIndex c rnd2 s (put_entry ?e idx) w2 = (Inr (), w')"
    by (auto simp: Add_def io_simps sp(1) split: sum.splits)
  have w2: "w2 = w1" by (rule readIndex_world [OF a(3)])
  note P = put_sealed [OF a(2) assms(3) v assms(1)]
  have idx: "disk_index c (dir s) w = Some idx" using a(3) readIndex_Inr [OF P(2)] P(4) by auto
  note I = put_index [OF a(4) [unfolded w2] P(3) [OF assms(4)] rt [OF idx] P(2)]
  have other: "fs_get w' q = fs_get w1 q" if "q \<noteq> dir s @ [''index.yaml'']" for q using I(3) that by blast
  have f: "fs_get w' ?p = Some (FileN sealed (clock w))" using other sp(3) P(1) by simp
  have list: "readIndex c s w' = (Inr (put_entry ?e idx), w')" using I by (simp add: readIndex_Inr)
  have "Unseal g c (masterSecret s) cid sealed = Inr r" using Unseal_Seal_aux [OF assms(2,5) a(1)] by blast
  then have "Get g c s cid w' = (Inr r, w')"
    using f v list I(2) indexHas_put [of ?e idx cid]
    by (simp add: Get_def io_defs sp(1) os_ReadFile_def os_Open_def f_ReadAll_def no_faults_def)
  moreover have "fst (Get g c s x w') = fst (Get g c s x w)" if "x \<noteq> cid" for x
  proof (rule Get_cong [OF assms(1) I(2) idx I(1)])
    show "indexHas (put_entry ?e idx) x = indexHas idx x" using that by (simp add: indexHas_put)
    show "fs_get w' (dir s @ [x @ ''.sealed'']) = fs_get w (dir s @ [x @ ''.sealed''])" if "validateID x = None"
      using other sealed_path(3) [OF that, of "dir s"] \<open>x \<noteq> cid\<close> P(1) by simp
  qed
  ultimately show ?thesis using list I(2) indexHas_put [of ?e idx cid] by (simp add: ListCreds_def wrapIO_def)
qed

text \<open>
  C19. A stored credential can be read back: after a successful \<^verbatim>\<open>Add\<close>, \<^verbatim>\<open>Get\<close> of that id returns the record, the index
  lists it, and \<^verbatim>\<open>Get\<close> of every other id answers as before.
\<close>

theorem Add_then_Get:
  assumes "no_faults w" "gowolf_ok g" "tmp_fresh w (dir s) rnd1" "tmp_fresh w (dir s) rnd2" "rec_dec c (rec_enc c r) = Some r"
    and rt: "\<And>idx. disk_index c (dir s) w = Some idx \<Longrightarrow> idx_roundtrip c (put_entry (index_row c cid r) idx)"
    and add: "Add g c rnd1 rnd2 s cid (Some r) w = (Inr (), w')"
  shows "Get g c s cid w' = (Inr r, w') \<and> (\<exists>idx. ListCreds c s w' = (Inr idx, w') \<and> indexHas idx cid)
    \<and> (\<forall>x. x \<noteq> cid \<longrightarrow> fst (Get g c s x w') = fst (Get g c s x w))"
  using Add_effect [OF assms] by blast

text \<open>
  A deleted credential is gone: after a successful \<^verbatim>\<open>Delete\<close> the sealed file does not exist, \<^verbatim>\<open>Get\<close> of that id
  fails, and \<^verbatim>\<open>Get\<close> of every other id answers as before.
\<close>

theorem Delete_then_Get:
  assumes "no_faults w" "tmp_fresh w (dir s) rnd"
    and rt: "\<And>idx. disk_index c (dir s) w = Some idx \<Longrightarrow> idx_roundtrip c (filter (\<lambda>e. ID e \<noteq> cid) idx)"
    and del: "Delete c rnd s cid w = (Inr (), w')"
  shows "fs_get w' (dir s @ [cid @ ''.sealed'']) = None \<and> (\<exists>e. Get g c s cid w' = (Inl e, w'))
    \<and> (\<forall>x. x \<noteq> cid \<longrightarrow> fst (Get g c s x w') = fst (Get g c s x w))"
proof -
  let ?p = "dir s @ [cid @ ''.sealed'']"
  have v: "validateID cid = None" using del by (auto simp: Delete_def io_simps split: option.splits)
  note sp = sealed_path [OF v, of "dir s"]
  from del v obtain idx w0 w1 r w2 where d: "readIndex c s w = (Inr idx, w0)" "indexHas idx cid"
      "writeIndex c rnd s (filter (\<lambda>e. ID e \<noteq> cid) idx) w0 = (Inr (), w1)" "os_Remove ?p w1 = (r, w2)"
      and fin: "(case r of Inl e \<Rightarrow> if errors_Is e ErrNotExist then returnIO () else raiseIO (Wrap ''credstore.Delete: remove'' e)
        | Inr u \<Rightarrow> returnIO u) w2 = (Inr (), w')"
    by (auto simp: Delete_def io_simps sp(1) indexHas_def split: if_splits)
  have w2: "w2 = w'" and d5: "isl r \<Longrightarrow> errors_Is (projl r) ErrNotExist"
    using fin by (auto simp: io_simps split: sum.splits if_splits)
  have w0: "w0 = w" and idx: "disk_index c (dir s) w = Some idx" using d(1) readIndex_Inr [OF assms(1)] by auto
  note I = put_index [OF d(3) [unfolded w0] assms(2) rt [OF idx] assms(1)]
  have w': "fs_get w' ?p = None" "\<And>q. q \<noteq> ?p \<Longrightarrow> fs_get w' q = fs_get w1 q" "no_faults w'"
    using d(4) d5 w2 I(2) by (auto simp: os_Remove_def no_faults_def split: if_splits option.splits)
  have idx': "disk_index c (dir s) w' = Some (filter (\<lambda>e. ID e \<noteq> cid) idx)"
    using I(1) w'(2) [of "dir s @ [''index.yaml'']"] sp(3) by (simp add: disk_index_def)
  then have "readIndex c s w' = (Inr (filter (\<lambda>e. ID e \<noteq> cid) idx), w')" using readIndex_Inr [OF w'(3)] by blast
  then have "\<exists>e. Get g c s cid w' = (Inl e, w')" using v by (simp add: Get_def io_defs indexHas_filter)
  moreover have "fst (Get g c s x w') = fst (Get g c s x w)" if "x \<noteq> cid" for x
  proof (rule Get_cong [OF assms(1) w'(3) idx idx'])
    show "indexHas (filter (\<lambda>e. ID e \<noteq> cid) idx) x = indexHas idx x" using that by (simp add: indexHas_filter)
    show "fs_get w' (dir s @ [x @ ''.sealed'']) = fs_get w (dir s @ [x @ ''.sealed''])" if "validateID x = None"
      using w'(2) I(3) sealed_path(3) [OF that, of "dir s"] \<open>x \<noteq> cid\<close> by simp
  qed
  ultimately show ?thesis using w'(1) by blast
qed

text \<open>
  \<^verbatim>\<open>validateID\<close> accepts exactly the pattern without the two reserved forms, and an accepted id names a file directly in
  the store directory; the id \<^verbatim>\<open>-ab\<close>, of dashes and letters only, is refused because the pattern allows a leading
  dash only in ids of length one.
\<close>

theorem validateID_characterised:
  "(validateID x = None \<longleftrightarrow> idPattern x \<and> x \<noteq> ''index'' \<and> \<not> suffix ''.sealed'' x)
   \<and> (validateID x = None \<longrightarrow> join_path d [x @ ''.sealed''] = d @ [x @ ''.sealed''])
   \<and> validateID ''-ab'' \<noteq> None \<and> validateID ''-'' = None"
proof (intro conjI impI)
  have "\<not> suffix ''.'' x" if "idPattern x"
  proof
    assume "suffix ''.'' x"
    then obtain ys where "x = ys @ ''.''" by (auto simp: suffix_def)
    with idPattern_last [OF that] show False using word_char_plain by simp
  qed
  moreover have "\<not> ContainsAny x [CHR ''/'', CHR 0x5C]" "x \<noteq> ''''" "\<not> HasPrefix x ''.''" if "idPattern x"
    using that idPattern_chars [OF that] word_char_plain
    by (auto simp: ContainsAny_def list_ex_iff HasPrefix_def idPattern_def prefix_def split: list.splits)
  ultimately show "validateID x = None \<longleftrightarrow> idPattern x \<and> x \<noteq> ''index'' \<and> \<not> suffix ''.sealed'' x"
    by (auto simp: validateID_def HasSuffix_def)
  show "join_path d [x @ ''.sealed''] = d @ [x @ ''.sealed'']" if "validateID x = None" by (rule sealed_path(1) [OF that])
  show "validateID ''-ab'' \<noteq> None" "validateID ''-'' = None" by code_simp+
qed

section \<open>A concrete store\<close>

definition demo_gowolf :: gowolf where
  "demo_gowolf = \<lparr>wc_rng = (\<lambda>n. Inr (replicate n (CHR ''r''))), wc_hkdf = (\<lambda>i s f n. Inr (replicate n (CHR ''k''))),
     wc_gcm_encrypt = (\<lambda>k n p a. Inr (p @ replicate 16 (CHR ''t''))),
     wc_gcm_decrypt = (\<lambda>k n c a. Inr (take (length c - 16) c))\<rparr>"

definition demo_record :: Record where
  "demo_record = \<lparr>rec_Type = ''secret-text'', Payload = ''s3cret'', rec_CreatedAt = 0, Label = ''''\<rparr>"

definition demo_row :: IndexEntry where
  "demo_row = \<lparr>ID = ''gh.token'', ie_Type = ''secret-text'', ie_Label = '''', ie_CreatedAt = ''t''\<rparr>"

definition demo_ccodec :: cred_codec where
  "demo_ccodec = \<lparr>rec_enc = Payload, rec_dec = (\<lambda>b. Some (demo_record\<lparr>Payload := b\<rparr>)),
     idx_enc = (\<lambda>xs. if xs = [] then ''0'' else ''1''), idx_dec = (\<lambda>b. Some (if b = ''0'' then [] else [demo_row])),
     fmt_time = (\<lambda>t. ''t'')\<rparr>"

definition demo_cstore :: Store where "demo_cstore = \<lparr>dir = [''srv''], masterSecret = ''master''\<rparr>"

definition demo_added :: world where
  "demo_added = snd (Add demo_gowolf demo_ccodec ''1'' ''2'' demo_cstore ''gh.token'' (Some demo_record) empty_disk)"

lemma demo_gowolf_ok: "gowolf_ok demo_gowolf"
  by (simp add: gowolf_ok_def demo_gowolf_def)

lemma demo_index: "disk_index demo_ccodec (dir demo_cstore) empty_disk = Some []" "index_row demo_ccodec ''gh.token'' demo_record = demo_row"
  "rec_dec demo_ccodec (rec_enc demo_ccodec demo_record) = Some demo_record"
  by code_simp+

lemma demo_disk_ok: "no_faults empty_disk" "tmp_fresh empty_disk (dir demo_cstore) rnd"
  by (auto simp: no_faults_def empty_disk_def tmp_fresh_def tmp_path_def demo_cstore_def fs_get_def)

lemma demo_add: "Add demo_gowolf demo_ccodec ''1'' ''2'' demo_cstore ''gh.token'' (Some demo_record) empty_disk = (Inr (), demo_added)"
proof -
  have "fst (Add demo_gowolf demo_ccodec ''1'' ''2'' demo_cstore ''gh.token'' (Some demo_record) empty_disk) = Inr ()" by code_simp
  then show ?thesis unfolding demo_added_def by (metis prod.collapse)
qed

lemma demo_add_roundtrip:
  assumes "disk_index demo_ccodec (dir demo_cstore) empty_disk = Some idx"
  shows "idx_roundtrip demo_ccodec (put_entry (index_row demo_ccodec ''gh.token'' demo_record) idx)"
proof -
  have "put_entry (index_row demo_ccodec ''gh.token'' demo_record) idx = [demo_row]" using assms by (simp add: demo_index)
  then show ?thesis by (simp add: idx_roundtrip_def) (simp add: demo_ccodec_def)
qed

lemma demo_added_faults: "no_faults demo_added"
  using Add_effect [OF demo_disk_ok(1) demo_gowolf_ok demo_disk_ok(2,2) demo_index(3) demo_add_roundtrip demo_add] by blast

theorem Unseal_Seal_witness:
  "\<exists>b. Seal demo_gowolf demo_ccodec ''master'' ''gh.token'' (Some demo_record) = Inr b
     \<and> Unseal demo_gowolf demo_ccodec ''master'' ''gh.token'' b = Inr demo_record"
proof -
  have "\<not> isl (Seal demo_gowolf demo_ccodec ''master'' ''gh.token'' (Some demo_record))" by code_simp
  then obtain b where b: "Seal demo_gowolf demo_ccodec ''master'' ''gh.token'' (Some demo_record) = Inr b" by (metis sum.collapse(2))
  then show ?thesis using Unseal_Seal [OF demo_gowolf_ok demo_index(3) b] by blast
qed

theorem Add_then_Get_witness: "Get demo_gowolf demo_ccodec demo_cstore ''gh.token'' demo_added = (Inr demo_record, demo_added)"
  using Add_then_Get [OF demo_disk_ok(1) demo_gowolf_ok demo_disk_ok(2,2) demo_index(3) demo_add_roundtrip demo_add] by blast

theorem Delete_then_Get_witness:
  "\<exists>w' e. Delete demo_ccodec ''3'' demo_cstore ''gh.token'' demo_added = (Inr (), w')
     \<and> Get demo_gowolf demo_ccodec demo_cstore ''gh.token'' w' = (Inl e, w')"
proof -
  let ?d = "Delete demo_ccodec ''3'' demo_cstore ''gh.token'' demo_added"
  have "fst ?d = Inr ()" by code_simp
  then have d: "?d = (Inr (), snd ?d)" by (metis prod.collapse)
  have idx: "disk_index demo_ccodec (dir demo_cstore) demo_added = Some [demo_row]" by code_simp
  have files: "map fst (files demo_added) = [[''srv''], [''srv'', ''gh.token.sealed''], [''srv'', ''index.yaml'']]" by code_simp
  have fresh: "tmp_fresh demo_added (dir demo_cstore) ''3''"
  proof -
    have "tmp_path (dir demo_cstore) ''3'' @ x \<notin> set (map fst (files demo_added))" for x
      unfolding files by (auto simp: tmp_path_def demo_cstore_def)
    then show ?thesis by (simp add: tmp_fresh_def fs_get_def map_of_eq_None_iff)
  qed
  have rt: "idx_roundtrip demo_ccodec (filter (\<lambda>e. ID e \<noteq> ''gh.token'') xs)"
    if "disk_index demo_ccodec (dir demo_cstore) demo_added = Some xs" for xs
    using that idx by (simp add: idx_roundtrip_def demo_ccodec_def demo_row_def)
  show ?thesis using Delete_then_Get [OF demo_added_faults fresh rt d] d by blast
qed

theorem validateID_characterised_witness: "join_path [''srv''] [''gh.token'' @ ''.sealed''] = [''srv'', ''gh.token.sealed'']"
proof -
  have "validateID ''gh.token'' = None" by code_simp
  then show ?thesis using validateID_characterised [of "''gh.token''" "[''srv'']"] by simp
qed

end
