(* ===== verification/Authz.thy ===== *)
theory Authz
  imports GoFs
begin

text \<open>
  The role matrix of \<^verbatim>\<open>internal/authz/matrix.go\<close>. A nil Go map is \<open>None\<close>; reading a nil map finds nothing. The YAML library is
  the parameter \<open>mcodec\<close>.
\<close>

type_synonym Permission = string
type_synonym Role = string

definition JobsRead :: Permission where "JobsRead = ''jobs.read''"
definition JobsBuild :: Permission where "JobsBuild = ''jobs.build''"
definition JobsConfigure :: Permission where "JobsConfigure = ''jobs.configure''"
definition BuildsRead :: Permission where "BuildsRead = ''builds.read''"
definition BuildsCancel :: Permission where "BuildsCancel = ''builds.cancel''"
definition NodesRead :: Permission where "NodesRead = ''nodes.read''"
definition NodesConfigure :: Permission where "NodesConfigure = ''nodes.configure''"
definition WildcardPermission :: Permission where "WildcardPermission = ''*''"

definition RoleAdmin :: Role where "RoleAdmin = ''admin''"
definition RoleDeveloper :: Role where "RoleDeveloper = ''developer''"
definition RoleViewer :: Role where "RoleViewer = ''viewer''"

record Matrix =
  Users :: "(string \<times> Role) list option"
  Roles :: "(Role \<times> Permission list) list option"

record mcodec =
  mx_enc :: "Matrix \<Rightarrow> string"
  mx_dec :: "string \<Rightarrow> Matrix option"

definition map_get :: "('k \<times> 'v) list option \<Rightarrow> 'k \<Rightarrow> 'v option" where
  "map_get m k = (case m of None \<Rightarrow> None | Some al \<Rightarrow> map_of al k)"

definition DefaultMatrix :: Matrix where
  "DefaultMatrix = \<lparr>Users = Some [],
     Roles = Some [(RoleAdmin, [WildcardPermission]),
       (RoleDeveloper, [JobsRead, JobsBuild, BuildsRead, BuildsCancel, NodesRead]),
       (RoleViewer, [JobsRead, BuildsRead, NodesRead])]\<rparr>"

fun grants :: "Permission list \<Rightarrow> Permission \<Rightarrow> bool" where
  "grants [] p = False"
| "grants (granted # gs) p = (if granted = WildcardPermission \<or> granted = p then True else grants gs p)"

definition Allow :: "Matrix \<Rightarrow> string \<Rightarrow> Permission \<Rightarrow> bool" where
  "Allow m user p =
     (if user = '''' then False
      else case map_get (Users m) user of None \<Rightarrow> False
        | Some role \<Rightarrow> (case map_get (Roles m) role of None \<Rightarrow> False | Some perms \<Rightarrow> grants perms p))"

definition LoadMatrix :: "mcodec \<Rightarrow> path \<Rightarrow> Matrix io" where
  "LoadMatrix c path =
     bindIO (wrapIO ''authz.LoadMatrix'' (os_ReadFile path)) (\<lambda>data.
       case mx_dec c data of
         None \<Rightarrow> raiseIO (Wrap ''authz.LoadMatrix: parse'' (Msg ''yaml''))
       | Some m \<Rightarrow>
           let m1 = (if Users m = None then m\<lparr>Users := Some []\<rparr> else m)
           in returnIO (if Roles m1 = None then m1\<lparr>Roles := Some []\<rparr> else m1))"

definition SaveMatrix :: "mcodec \<Rightarrow> path \<Rightarrow> Matrix \<Rightarrow> unit io" where
  "SaveMatrix c path m =
     seqIO (wrapIO ''authz.Matrix.Save: mkdir'' (os_MkdirAll (butlast path)))
           (wrapIO ''authz.Matrix.Save: write'' (os_WriteFile path (mx_enc c m)))"

section \<open>Decisions\<close>

lemma grants_iff: "grants perms p \<longleftrightarrow> WildcardPermission \<in> set perms \<or> p \<in> set perms"
  by (induction perms) auto

text \<open>
  \<^verbatim>\<open>Allow\<close> grants exactly through an assigned, defined role: a permission is allowed if and only if the user is named,
  mapped to a role, and that role is defined with the permission or the wildcard.
\<close>

theorem Allow_iff:
  "Allow m user p \<longleftrightarrow> user \<noteq> '''' \<and> (\<exists>role perms. map_get (Users m) user = Some role \<and> map_get (Roles m) role = Some perms
     \<and> (WildcardPermission \<in> set perms \<or> p \<in> set perms))"
  by (auto simp: Allow_def grants_iff split: option.splits)

lemma default_roles:
  "map_get (Roles DefaultMatrix) RoleAdmin = Some [WildcardPermission]"
  "map_get (Roles DefaultMatrix) RoleDeveloper = Some [JobsRead, JobsBuild, BuildsRead, BuildsCancel, NodesRead]"
  "map_get (Roles DefaultMatrix) RoleViewer = Some [JobsRead, BuildsRead, NodesRead]"
  by code_simp+

lemma Allow_role:
  "user \<noteq> '''' \<Longrightarrow> map_get (Users m) user = Some role \<Longrightarrow> map_get (Roles m) role = Some perms \<Longrightarrow>
   Allow m user p \<longleftrightarrow> WildcardPermission \<in> set perms \<or> p \<in> set perms"
  by (simp add: Allow_def grants_iff)

text \<open>
  The default roles form a hierarchy: with the default matrix, what a viewer may do a developer may do, an admin may do
  everything, only an admin may configure jobs or nodes, and a user without a role may do nothing.
\<close>

theorem default_hierarchy:
  assumes "Roles m = Roles DefaultMatrix" "map_get (Users m) v = Some RoleViewer" "map_get (Users m) d = Some RoleDeveloper"
    "map_get (Users m) a = Some RoleAdmin" "map_get (Users m) u = None" "v \<noteq> ''''" "d \<noteq> ''''" "a \<noteq> ''''"
  shows "(Allow m v p \<longrightarrow> Allow m d p) \<and> Allow m a p \<and> \<not> Allow m u p
    \<and> \<not> Allow m d JobsConfigure \<and> \<not> Allow m d NodesConfigure \<and> \<not> Allow m v JobsBuild"
proof -
  note r = default_roles [folded assms(1)]
  have "WildcardPermission \<notin> {JobsRead, JobsBuild, BuildsRead, BuildsCancel, NodesRead}"
    "JobsConfigure \<notin> {JobsRead, JobsBuild, BuildsRead, BuildsCancel, NodesRead}"
    "NodesConfigure \<notin> {JobsRead, JobsBuild, BuildsRead, BuildsCancel, NodesRead}"
    "JobsBuild \<notin> {JobsRead, BuildsRead, NodesRead}" by code_simp+
  then show ?thesis
    using Allow_role [OF assms(6,2) r(3)] Allow_role [OF assms(7,3) r(2)] Allow_role [OF assms(8,4) r(1)] assms(5)
    by (auto simp: Allow_def)
qed

text \<open>
  Saving and loading keeps every decision: after a successful \<^verbatim>\<open>Save\<close>, \<^verbatim>\<open>LoadMatrix\<close> returns a matrix that allows exactly what the saved
  one allows (nil maps come back as empty ones).
\<close>

theorem matrix_save_load:
  assumes "no_faults w" "mx_dec c (mx_enc c m) = Some m" "SaveMatrix c path m w = (Inr (), w')"
  shows "\<exists>m'. LoadMatrix c path w' = (Inr m', w') \<and> (\<forall>user p. Allow m' user p = Allow m user p) \<and> Users m' \<noteq> None \<and> Roles m' \<noteq> None"
proof -
  from assms(3) obtain w1 where s: "os_MkdirAll (butlast path) w = (Inr (), w1)" "os_WriteFile path (mx_enc c m) w1 = (Inr (), w')"
    by (auto simp: SaveMatrix_def io_simps)
  have "file_at w' path = Some (mx_enc c m)" "no_faults w'"
    using WriteFile_effect [OF s(2)] MkdirAll_frame(3) [OF s(1)] assms(1) by (auto simp: file_at_def no_faults_def)
  then have rd: "os_ReadFile path w' = (Inr (mx_enc c m), w')" by (simp add: ReadFile_ok no_faults_def)
  have al: "Allow (m\<lparr>Users := Some []\<rparr>) user p = Allow m user p" if "Users m = None" for user p
    using that by (simp add: Allow_def map_get_def)
  have ar: "Allow (n\<lparr>Roles := Some []\<rparr>) user p = Allow n user p" if "Roles n = None" for n :: Matrix and user p
    using that by (simp add: Allow_def map_get_def split: option.splits)
  show ?thesis using rd assms(2) al ar by (auto simp: LoadMatrix_def io_defs Let_def)
qed

definition demo_matrix_file :: Matrix where
  "demo_matrix_file = DefaultMatrix\<lparr>Users := Some [(''vi'', RoleViewer), (''dev'', RoleDeveloper), (''root'', RoleAdmin)]\<rparr>"

theorem default_hierarchy_witness: "Allow demo_matrix_file ''root'' JobsConfigure \<and> \<not> Allow demo_matrix_file ''dev'' JobsConfigure"
proof -
  have "Roles demo_matrix_file = Roles DefaultMatrix" "map_get (Users demo_matrix_file) ''vi'' = Some RoleViewer"
    "map_get (Users demo_matrix_file) ''dev'' = Some RoleDeveloper" "map_get (Users demo_matrix_file) ''root'' = Some RoleAdmin"
    "map_get (Users demo_matrix_file) ''eve'' = None" by code_simp+
  from default_hierarchy [OF this, of JobsConfigure] show ?thesis by simp
qed

definition demo_mcodec :: mcodec where
  "demo_mcodec = \<lparr>mx_enc = (\<lambda>m. ''M''), mx_dec = (\<lambda>s. if s = ''M'' then Some demo_matrix_file else None)\<rparr>"

definition demo_adisk :: world where
  "demo_adisk = \<lparr>files = [([''srv''], DirN 0)], clock = 1, fault = (\<lambda>_ _. False), torn = (\<lambda>_. 0)\<rparr>"

theorem matrix_save_load_witness:
  "\<exists>m' w'. SaveMatrix demo_mcodec [''srv'', ''auth'', ''matrix.yaml''] demo_matrix_file demo_adisk = (Inr (), w')
     \<and> LoadMatrix demo_mcodec [''srv'', ''auth'', ''matrix.yaml''] w' = (Inr m', w') \<and> Allow m' ''vi'' JobsRead"
proof -
  let ?s = "SaveMatrix demo_mcodec [''srv'', ''auth'', ''matrix.yaml''] demo_matrix_file demo_adisk"
  have "fst ?s = Inr ()" by code_simp
  then have s: "?s = (Inr (), snd ?s)" by (metis prod.collapse)
  have nf: "no_faults demo_adisk" by (simp add: no_faults_def demo_adisk_def)
  have rt: "mx_dec demo_mcodec (mx_enc demo_mcodec demo_matrix_file) = Some demo_matrix_file" by (simp add: demo_mcodec_def)
  have "Allow demo_matrix_file ''vi'' JobsRead" by code_simp
  with matrix_save_load [OF nf rt s] s show ?thesis by metis
qed

end
