(* ===== verification/AgentSvc.thy ===== *)
theory AgentSvc
  imports GoFs
begin

text \<open>
  The agent service, \<^verbatim>\<open>internal/agentsvc\<close>: registry, streams, assignments in flight, heartbeats, artifact download and the log
  sink. The Go maps are association lists, each guarded by its own mutex, so one operation on one of them is
  atomic; a \<^verbatim>\<open>chan *BuildComplete\<close> is an index into \<open>dones\<close>. gRPC errors carry their code.
\<close>

section \<open>Messages (\<^verbatim>\<open>api/v1\<close>) and state\<close>

record AgentInfo =
  AgentId :: string
  ai_Labels :: "string list"
  Executors :: int

record ProtoStep =
  ps_Name :: string
  ps_Shell :: string
  ps_Env :: "(string \<times> string) list"

record JobAssignment =
  ja_JobName :: string
  ja_BuildNumber :: int
  ja_Steps :: "ProtoStep list"

record BuildComplete =
  bc_BuildNumber :: int
  bc_Status :: string
  bc_ExitCode :: int
  bc_Error :: string

record LogChunk =
  lc_BuildNumber :: int
  lc_Data :: string

record NodeStatus =
  Architecture :: string
  GoVersion :: string
  FreeDiskBytes :: int
  FreeSwapBytes :: int
  FreeTempBytes :: int
  HostUptimeSeconds :: int
  WallClockUnixMicros :: int
  AgentVersion :: string

datatype AgentMessage = MsgLog LogChunk | MsgComplete BuildComplete | MsgHeartbeat "NodeStatus option" | MsgEmpty

datatype code = InvalidArgument | Unauthenticated | FailedPrecondition | AlreadyExists | Internal | PermissionDenied | NotFound

type_synonym 'a rpc = "(code \<times> string) + 'a"

record heartbeatRecord =
  hb_status :: NodeStatus
  received :: int

type_synonym pendingKey = "string \<times> int"

record assignmentInFlight =
  af_jobName :: string
  af_done :: nat

record agentStream =
  st_info :: AgentInfo
  st_send :: "JobAssignment list"
  st_ctxDone :: bool

record Server =
  version :: string
  StaleThreshold :: int
  WorkDir :: "path option"
  agents :: "(string \<times> AgentInfo) list"
  pendingJobs :: "JobAssignment list"
  streams :: "(string \<times> agentStream) list"
  pending :: "(pendingKey \<times> assignmentInFlight) list"
  completedLog :: "BuildComplete list"
  heartbeats :: "(string \<times> heartbeatRecord) list"
  disabled :: "(string \<times> bool) list"
  dones :: "BuildComplete list list"

definition BuiltInNodeAgentID :: string where "BuiltInNodeAgentID = ''wolfci-master''"
definition BuiltInNodeLabel :: string where "BuiltInNodeLabel = ''master''"
definition DefaultStaleThreshold :: int where "DefaultStaleThreshold = 90 * 1000000000"

definition newServer :: "string \<Rightarrow> Server" where
  "newServer v = \<lparr>version = v, StaleThreshold = 0, WorkDir = None, agents = [], pendingJobs = [], streams = [],
     pending = [], completedLog = [], heartbeats = [], disabled = [], dones = []\<rparr>"

section \<open>Registry and heartbeats\<close>

definition SetDisabled :: "string \<Rightarrow> bool \<Rightarrow> Server \<Rightarrow> Server" where
  "SetDisabled agentID d s =
     (if d then s\<lparr>disabled := AList.update agentID True (disabled s)\<rparr>
      else s\<lparr>disabled := AList.delete agentID (disabled s)\<rparr>)"

definition IsDisabled :: "Server \<Rightarrow> string \<Rightarrow> bool" where
  "IsDisabled s agentID = (case map_of (disabled s) agentID of None \<Rightarrow> False | Some b \<Rightarrow> b)"

definition RecordHeartbeat :: "int \<Rightarrow> string \<Rightarrow> NodeStatus option \<Rightarrow> Server \<Rightarrow> Server" where
  "RecordHeartbeat now agentID status s =
     (case status of None \<Rightarrow> s
      | Some ns \<Rightarrow> s\<lparr>heartbeats := AList.update agentID \<lparr>hb_status = ns, received = now\<rparr> (heartbeats s)\<rparr>)"

text \<open>The node snapshot \<^verbatim>\<open>nodeinfo.Take\<close> returns is an argument; the server stamps its own version.\<close>

definition refreshBuiltInNode :: "int \<Rightarrow> NodeStatus \<Rightarrow> Server \<Rightarrow> Server" where
  "refreshBuiltInNode now snap s = RecordHeartbeat now BuiltInNodeAgentID (Some (snap\<lparr>AgentVersion := version s\<rparr>)) s"

definition RegisterBuiltInNode :: "int \<Rightarrow> NodeStatus \<Rightarrow> Server \<Rightarrow> Server" where
  "RegisterBuiltInNode now snap s =
     refreshBuiltInNode now snap
       (s\<lparr>agents := AList.update BuiltInNodeAgentID
            \<lparr>AgentId = BuiltInNodeAgentID, ai_Labels = [BuiltInNodeLabel], Executors = 1\<rparr> (agents s)\<rparr>)"

definition LastHeartbeat :: "Server \<Rightarrow> string \<Rightarrow> (NodeStatus \<times> int) option" where
  "LastHeartbeat s agentID =
     (case map_of (heartbeats s) agentID of None \<Rightarrow> None | Some rec \<Rightarrow> Some (hb_status rec, received rec))"

definition staleThreshold :: "Server \<Rightarrow> int" where
  "staleThreshold s = (if StaleThreshold s > 0 then StaleThreshold s else DefaultStaleThreshold)"

definition ConnectedAgents :: "int \<Rightarrow> Server \<Rightarrow> AgentInfo list" where
  "ConnectedAgents now s =
     (let cutoff = now - staleThreshold s;
          fresh = remdups (map fst (filter (\<lambda>(i, rec). received rec > cutoff \<and> map_of (heartbeats s) i = Some rec) (heartbeats s)))
      in List.map_filter (\<lambda>i. map_of (agents s) i) fresh)"

definition Agents :: "Server \<Rightarrow> AgentInfo list" where
  "Agents s = map snd (agents s)"

text \<open>
  The claimer is the seam to the pending-agent store. The second component of the result is the slot
  the handler asked it to delete.
\<close>

record claimer =
  LookupPendingAgent :: "string \<Rightarrow> (string list \<times> int \<times> bool) res"

definition Register :: "claimer option \<Rightarrow> AgentInfo option \<Rightarrow> Server \<Rightarrow> ((string \<times> bool) rpc \<times> string option) \<times> Server" where
  "Register cl info s =
     (case info of None \<Rightarrow> ((Inl (InvalidArgument, ''agentsvc.Register: AgentInfo is nil''), None), s)
      | Some i \<Rightarrow>
          if AgentId i = '''' then ((Inl (InvalidArgument, ''agentsvc.Register: AgentInfo.agent_id is required''), None), s)
          else if Executors i < 1 then ((Inl (InvalidArgument, ''agentsvc.Register: AgentInfo.executors must be >= 1''), None), s)
          else (case (case cl of None \<Rightarrow> Inr ([], 0, False) | Some k \<Rightarrow> LookupPendingAgent k (AgentId i)) of
              Inl e \<Rightarrow> ((Inl (Internal, ''agentsvc.Register: lookup pending''), None), s)
            | Inr (plabels, pexecs, found) \<Rightarrow>
                let stored = \<lparr>AgentId = AgentId i, ai_Labels = (if found then plabels else ai_Labels i),
                              Executors = (if found then int32 pexecs else Executors i)\<rparr>
                in ((Inr (version s, True), if found then Some (AgentId i) else None),
                    s\<lparr>agents := AList.update (AgentId i) stored (agents s)\<rparr>)))"

section \<open>Streams\<close>

definition AgentIDMetadataKey :: string where "AgentIDMetadataKey = ''agent-id''"

type_synonym metadata = "(string \<times> string list) list option"

definition md_get :: "(string \<times> string list) list \<Rightarrow> string \<Rightarrow> string list" where
  "md_get md k = (case map_of md k of None \<Rightarrow> [] | Some vs \<Rightarrow> vs)"

definition agentIDFromMetadata :: "metadata \<Rightarrow> string res" where
  "agentIDFromMetadata md =
     (case md of None \<Rightarrow> Inl (Msg ''missing gRPC metadata'')
      | Some m \<Rightarrow> (case md_get m AgentIDMetadataKey of
          [] \<Rightarrow> Inl (Msg ''missing or empty metadata'')
        | v # vs \<Rightarrow> if v = '''' then Inl (Msg ''missing or empty metadata'') else Inr v))"

text \<open>\<^verbatim>\<open>Connect\<close> up to its receive loop, and its deferred clean-up.\<close>

definition connect_open :: "metadata \<Rightarrow> Server \<Rightarrow> string rpc \<times> Server" where
  "connect_open md s =
     (case agentIDFromMetadata md of
        Inl e \<Rightarrow> (Inl (Unauthenticated, ''agentsvc.Connect''), s)
      | Inr agentID \<Rightarrow> (case map_of (agents s) agentID of
          None \<Rightarrow> (Inl (FailedPrecondition, ''agentsvc.Connect: agent must Register before Connect''), s)
        | Some info \<Rightarrow>
            if map_of (streams s) agentID \<noteq> None
            then (Inl (AlreadyExists, ''agentsvc.Connect: agent already has an open stream''), s)
            else (Inr agentID, s\<lparr>streams := AList.update agentID \<lparr>st_info = info, st_send = [], st_ctxDone = False\<rparr> (streams s)\<rparr>)))"

definition connect_close :: "string \<Rightarrow> Server \<Rightarrow> Server" where
  "connect_close agentID s = s\<lparr>streams := AList.delete agentID (streams s)\<rparr>"

text \<open>
  The sender goroutine takes the next message for the agent from its own channel, or from the shared queue;
  \<open>None\<close> when the chosen channel is empty.
\<close>

definition pump_own :: "string \<Rightarrow> Server \<Rightarrow> (JobAssignment \<times> Server) option" where
  "pump_own agentID s =
     (case map_of (streams s) agentID of
        None \<Rightarrow> None
      | Some st \<Rightarrow> (case st_send st of [] \<Rightarrow> None
          | j # js \<Rightarrow> Some (j, s\<lparr>streams := AList.update agentID (st\<lparr>st_send := js\<rparr>) (streams s)\<rparr>)))"

definition pump_shared :: "Server \<Rightarrow> (JobAssignment \<times> Server) option" where
  "pump_shared s = (case pendingJobs s of [] \<Rightarrow> None | j # js \<Rightarrow> Some (j, s\<lparr>pendingJobs := js\<rparr>))"

text \<open>
  \<^verbatim>\<open>QueueJob\<close> and \<^verbatim>\<open>AssignJob\<close>: \<open>None\<close> while the channel is full (64 and 16 messages). When the stream's context is done and
  its channel has room, the \<^verbatim>\<open>select\<close> of \<^verbatim>\<open>AssignJob\<close> may take either case: \<open>pick\<close> is that choice.
\<close>

definition QueueJob :: "JobAssignment \<Rightarrow> Server \<Rightarrow> Server option" where
  "QueueJob job s = (if length (pendingJobs s) < 64 then Some (s\<lparr>pendingJobs := pendingJobs s @ [job]\<rparr>) else None)"

definition AssignJob :: "bool \<Rightarrow> string \<Rightarrow> JobAssignment \<Rightarrow> Server \<Rightarrow> (unit res \<times> Server) option" where
  "AssignJob pick agentID job s =
     (case map_of (streams s) agentID of
        None \<Rightarrow> Some (Inl (Msg ''agentsvc.AssignJob: agent not connected''), s)
      | Some st \<Rightarrow>
          if length (st_send st) < 16 \<and> \<not> (st_ctxDone st \<and> pick)
          then Some (Inr (), s\<lparr>streams := AList.update agentID (st\<lparr>st_send := st_send st @ [job]\<rparr>) (streams s)\<rparr>)
          else if st_ctxDone st then Some (Inl (Msg ''agentsvc.AssignJob: agent stream closed''), s)
          else None)"

definition IdleAgentWithLabel :: "string \<Rightarrow> Server \<Rightarrow> string" where
  "IdleAgentWithLabel label s =
     (case filter (\<lambda>(i, st). \<not> IsDisabled s i \<and> (label = '''' \<or> label \<in> set (ai_Labels (st_info st)))) (streams s) of
        [] \<Rightarrow> '''' | (i, st) # _ \<Rightarrow> i)"

section \<open>Assignments in flight\<close>

text \<open>\<^verbatim>\<open>SubmitAndWait\<close> up to the assignment: the entry and its channel, or the early errors.\<close>

definition submit_begin :: "string \<Rightarrow> JobAssignment option \<Rightarrow> Server \<Rightarrow> (pendingKey \<times> nat) res \<times> Server" where
  "submit_begin agentID job s =
     (case job of None \<Rightarrow> (Inl (Msg ''agentsvc.SubmitAndWait: nil JobAssignment''), s)
      | Some j \<Rightarrow>
          let key = (agentID, ja_BuildNumber j) in
          if map_of (pending s) key \<noteq> None then (Inl (Msg ''agentsvc.SubmitAndWait: already waiting''), s)
          else (Inr (key, length (dones s)),
                s\<lparr>pending := AList.update key \<lparr>af_jobName = ja_JobName j, af_done = length (dones s)\<rparr> (pending s),
                  dones := dones s @ [[]]\<rparr>))"

text \<open>The deferred \<^verbatim>\<open>delete(s.pending, key)\<close>.\<close>

definition submit_cleanup :: "pendingKey \<Rightarrow> Server \<Rightarrow> Server" where
  "submit_cleanup key s = s\<lparr>pending := AList.delete key (pending s)\<rparr>"

definition lookupJobName :: "Server \<Rightarrow> string \<Rightarrow> int \<Rightarrow> string" where
  "lookupJobName s agentID buildNum =
     (case map_of (pending s) (agentID, buildNum) of Some af \<Rightarrow> af_jobName af | None \<Rightarrow> '''')"

definition recordCompletion :: "BuildComplete \<Rightarrow> Server \<Rightarrow> Server" where
  "recordCompletion c s = s\<lparr>completedLog := completedLog s @ [c]\<rparr>"

definition Completed :: "Server \<Rightarrow> BuildComplete list" where
  "Completed s = completedLog s"

text \<open>
  \<^verbatim>\<open>deliverCompletion\<close>; \<open>None\<close> when the send would block on a full channel. The code sends after it has released the lock; the lookup, the
  removal and the send are one step here. Once the entry is removed no other handler finds the channel, so the send meets the same channel
  later.
\<close>

definition deliverCompletion :: "string \<Rightarrow> BuildComplete \<Rightarrow> Server \<Rightarrow> Server option" where
  "deliverCompletion agentID c s =
     (let key = (agentID, bc_BuildNumber c) in
      case map_of (pending s) key of
        None \<Rightarrow> Some s
      | Some af \<Rightarrow>
          let s' = s\<lparr>pending := AList.delete key (pending s)\<rparr> in
          if af_done af < length (dones s') \<and> length (dones s' ! af_done af) < 1
          then Some (s'\<lparr>dones := (dones s')[af_done af := dones s' ! af_done af @ [c]]\<rparr>) else None)"

text \<open>
  One turn of the receive loop of \<^verbatim>\<open>Connect\<close>: the new state and the chunk handed to the log sink, if any.
\<close>

definition recv_msg :: "int \<Rightarrow> bool \<Rightarrow> string \<Rightarrow> AgentMessage \<Rightarrow> Server \<Rightarrow> (Server \<times> (string \<times> int \<times> string) option) option" where
  "recv_msg now hasSink agentID msg s =
     (case msg of
        MsgComplete c \<Rightarrow> map_option (\<lambda>s'. (s', None)) (deliverCompletion agentID c (recordCompletion c s))
      | MsgLog l \<Rightarrow> Some (s, if hasSink then Some (lookupJobName s agentID (lc_BuildNumber l), lc_BuildNumber l, lc_Data l) else None)
      | MsgHeartbeat st \<Rightarrow> Some (RecordHeartbeat now agentID st s, None)
      | MsgEmpty \<Rightarrow> Some (s, None))"

section \<open>Artifacts (\<^verbatim>\<open>getartifact.go\<close>)\<close>

record GetArtifactRequest =
  UpstreamJob :: string
  UpstreamBuild :: int
  ArtifactBasename :: string

definition authorizeArtifactCaller :: "metadata \<Rightarrow> Server \<Rightarrow> unit rpc" where
  "authorizeArtifactCaller md s =
     (case md of None \<Rightarrow> Inl (PermissionDenied, ''GetArtifact: missing agent-id metadata'')
      | Some m \<Rightarrow> (case md_get m ''wolfci-agent-id'' of
          [] \<Rightarrow> Inl (PermissionDenied, ''GetArtifact: missing agent-id metadata'')
        | v # vs \<Rightarrow> if v = '''' then Inl (PermissionDenied, ''GetArtifact: missing agent-id metadata'')
                    else if map_of (agents s) v = None then Inl (PermissionDenied, ''GetArtifact: unrecognized agent-id '' @ v)
                    else Inr ()))"

definition leaf_name :: "string \<Rightarrow> bool" where
  "leaf_name base \<longleftrightarrow> \<not> (ContainsAny base [CHR ''/'', CHR 0x5C] \<or> base = ''..'' \<or> base = ''.'' \<or> sublist ''..'' base)"

definition artifactChunkSize :: nat where "artifactChunkSize = 32 * 1024"

text \<open>The read loop: chunks of at most 32 KiB.\<close>

function chunks :: "nat \<Rightarrow> string \<Rightarrow> string list" where
  "chunks k b = (if b = '''' \<or> k = 0 then [] else take k b # chunks k (drop k b))"
  by pat_completeness auto
termination chunks by (relation "measure (length \<circ> snd)") auto

declare chunks.simps [simp del]

definition artifact_path :: "path \<Rightarrow> GetArtifactRequest \<Rightarrow> path" where
  "artifact_path wd req = join_path wd [''builds'', UpstreamJob req, Itoa (UpstreamBuild req), ''artifacts'', ArtifactBasename req]"

definition GetArtifact :: "metadata \<Rightarrow> GetArtifactRequest option \<Rightarrow> Server \<Rightarrow> world \<Rightarrow> string list rpc" where
  "GetArtifact md req s w =
     (case req of None \<Rightarrow> Inl (InvalidArgument, ''GetArtifact: nil request'')
      | Some r \<Rightarrow>
          if UpstreamJob r = '''' \<or> UpstreamBuild r < 1 then Inl (InvalidArgument, ''GetArtifact: upstream_job and upstream_build are required'')
          else if ArtifactBasename r = '''' then Inl (InvalidArgument, ''GetArtifact: artifact_basename is required'')
          else if \<not> leaf_name (ArtifactBasename r) then Inl (InvalidArgument, ''GetArtifact: artifact_basename must be a leaf filename'')
          else (case authorizeArtifactCaller md s of Inl e \<Rightarrow> Inl e
            | Inr _ \<Rightarrow> (case WorkDir s of
                None \<Rightarrow> Inl (FailedPrecondition, ''GetArtifact: server WorkDir is not configured'')
              | Some wd \<Rightarrow>
                  (case os_Open (artifact_path wd r) w of
                     (Inl e, w1) \<Rightarrow> if errors_Is e ErrNotExist then Inl (NotFound, ''artifact not found'') else Inl (Internal, ''open artifact'')
                   | (Inr _, w1) \<Rightarrow> (case f_ReadAll (artifact_path wd r) w1 of
                       (Inl e, w2) \<Rightarrow> Inl (Internal, ''read artifact'')
                     | (Inr b, w2) \<Rightarrow> Inr (chunks artifactChunkSize b))))))"

section \<open>Log sink (\<^verbatim>\<open>filelogsink.go\<close>)\<close>

definition LiveLogPath :: "path \<Rightarrow> string \<Rightarrow> int \<Rightarrow> path" where
  "LiveLogPath root jobName buildNum = join_path root [''builds'', jobName, Itoa buildNum, ''log.live'']"

text \<open>Errors are printed and dropped; the file is opened for appending.\<close>

definition WriteLogChunk :: "path \<Rightarrow> string \<Rightarrow> int \<Rightarrow> string \<Rightarrow> world \<Rightarrow> world" where
  "WriteLogChunk root jobName buildNum data w =
     (if jobName = '''' then w
      else let path = LiveLogPath root jobName buildNum in
        snd (seqIO (os_MkdirAll (butlast path)) (seqIO (os_OpenFile_create path) (seqIO (f_Flock path) (f_Write path data))) w))"

end
