(* ===== verification/AgentRun.thy ===== *)
theory AgentRun
  imports AgentSvc
begin

text \<open>
  The agent service under concurrency: any number of \<^verbatim>\<open>SubmitAndWait\<close> calls, the receive loops and the handlers run
  interleaved, each step one critical section or channel operation. A waiter is one call of \<^verbatim>\<open>SubmitAndWait\<close> and
  the statement it has reached.
\<close>

section \<open>Configurations\<close>

datatype wphase =
    Assigning JobAssignment
  | Waiting
  | Leaving "BuildComplete res"
  | Returned "BuildComplete res"

record waiter =
  w_key :: pendingKey
  w_job :: string
  w_chan :: nat
  w_phase :: wphase

record config =
  srv :: Server
  waiters :: "waiter list"

datatype action =
    Submit string JobAssignment
  | Assign nat bool
  | Receive nat
  | Cancel nat
  | Cleanup nat
  | Recv int string AgentMessage
  | Reg "claimer option" "AgentInfo option"
  | Open metadata
  | Close string
  | PumpOwn string
  | PumpShared
  | Queue JobAssignment
  | Disable string bool

definition set_phase :: "nat \<Rightarrow> wphase \<Rightarrow> config \<Rightarrow> config" where
  "set_phase i p g = g\<lparr>waiters := (waiters g)[i := (waiters g ! i)\<lparr>w_phase := p\<rparr>]\<rparr>"

text \<open>\<open>None\<close>: the action is not enabled. \<open>Receive\<close> and \<open>Cancel\<close> are the two cases of the final \<^verbatim>\<open>select\<close>.\<close>

fun act :: "action \<Rightarrow> config \<Rightarrow> config option" where
  "act (Submit a j) g =
     (case submit_begin a (Some j) (srv g) of
        (Inl e, s) \<Rightarrow> Some (g\<lparr>srv := s\<rparr>)
      | (Inr (k, ch), s) \<Rightarrow> Some (g\<lparr>srv := s, waiters := waiters g @ [\<lparr>w_key = k, w_job = ja_JobName j, w_chan = ch, w_phase = Assigning j\<rparr>]\<rparr>))"
| "act (Assign i pick) g =
     (if i < length (waiters g) then
        (case w_phase (waiters g ! i) of
           Assigning j \<Rightarrow> (case AssignJob pick (fst (w_key (waiters g ! i))) j (srv g) of
               None \<Rightarrow> None
             | Some (Inl e, s) \<Rightarrow> Some (set_phase i (Leaving (Inl e)) (g\<lparr>srv := s\<rparr>))
             | Some (Inr _, s) \<Rightarrow> Some (set_phase i Waiting (g\<lparr>srv := s\<rparr>)))
         | _ \<Rightarrow> None)
      else None)"
| "act (Receive i) g =
     (if i < length (waiters g) \<and> w_phase (waiters g ! i) = Waiting then
        (case dones (srv g) ! w_chan (waiters g ! i) of
           [] \<Rightarrow> None
         | bc # rest \<Rightarrow> Some (set_phase i (Leaving (Inr bc)) (g\<lparr>srv := srv g\<lparr>dones := (dones (srv g))[w_chan (waiters g ! i) := rest]\<rparr>\<rparr>)))
      else None)"
| "act (Cancel i) g =
     (if i < length (waiters g) \<and> w_phase (waiters g ! i) = Waiting
      then Some (set_phase i (Leaving (Inl (Msg ''context canceled''))) g) else None)"
| "act (Cleanup i) g =
     (if i < length (waiters g) then
        (case w_phase (waiters g ! i) of
           Leaving r \<Rightarrow> Some (set_phase i (Returned r) (g\<lparr>srv := submit_cleanup (w_key (waiters g ! i)) (srv g)\<rparr>))
         | _ \<Rightarrow> None)
      else None)"
| "act (Recv now a msg) g = (case recv_msg now True a msg (srv g) of None \<Rightarrow> None | Some (s, _) \<Rightarrow> Some (g\<lparr>srv := s\<rparr>))"
| "act (Reg cl info) g = Some (g\<lparr>srv := snd (Register cl info (srv g))\<rparr>)"
| "act (Open md) g = Some (g\<lparr>srv := snd (connect_open md (srv g))\<rparr>)"
| "act (Close a) g = Some (g\<lparr>srv := connect_close a (srv g)\<rparr>)"
| "act (PumpOwn a) g = map_option (\<lambda>(j, s). g\<lparr>srv := s\<rparr>) (pump_own a (srv g))"
| "act PumpShared g = map_option (\<lambda>(j, s). g\<lparr>srv := s\<rparr>) (pump_shared (srv g))"
| "act (Queue j) g = map_option (\<lambda>s. g\<lparr>srv := s\<rparr>) (QueueJob j (srv g))"
| "act (Disable a d) g = Some (g\<lparr>srv := SetDisabled a d (srv g)\<rparr>)"

inductive astep :: "config \<Rightarrow> action \<Rightarrow> config \<Rightarrow> bool" where
  astep_act: "act a g = Some g' \<Longrightarrow> astep g a g'"

inductive_simps astep_iff: "astep g a g'"

fun run_acts :: "action list \<Rightarrow> config \<Rightarrow> config option" where
  "run_acts [] g = Some g"
| "run_acts (a # as) g = (case act a g of None \<Rightarrow> None | Some g' \<Rightarrow> run_acts as g')"

lemma run_acts_runs: "run_acts as g = Some g' \<longleftrightarrow> runs astep g as g'"
  by (induction as arbitrary: g) (auto simp: astep_iff split: option.splits)

section \<open>Channels and completions\<close>

text \<open>
  \<open>flight H g\<close>: every waiter has its own channel; an entry in flight has an empty channel and belongs to a waiter
  of that key; whatever a waiter's channel holds or the waiter was given is a completion with its build number that
  its agent sent (the sends so far are in \<open>H\<close>).
\<close>

definition sent :: "action set \<Rightarrow> pendingKey \<Rightarrow> BuildComplete \<Rightarrow> bool" where
  "sent H k bc \<longleftrightarrow> bc_BuildNumber bc = snd k \<and> (\<exists>now. Recv now (fst k) (MsgComplete bc) \<in> H)"

definition entry_ok :: "config \<Rightarrow> pendingKey \<Rightarrow> assignmentInFlight \<Rightarrow> bool" where
  "entry_ok g k af \<longleftrightarrow> af_done af < length (dones (srv g)) \<and> dones (srv g) ! af_done af = []
     \<and> (\<exists>i < length (waiters g). w_key (waiters g ! i) = k \<and> w_chan (waiters g ! i) = af_done af)"

definition result_sent :: "action set \<Rightarrow> waiter \<Rightarrow> bool" where
  "result_sent H x \<longleftrightarrow> (\<forall>bc. w_phase x = Leaving (Inr bc) \<or> w_phase x = Returned (Inr bc) \<longrightarrow> sent H (w_key x) bc)"

definition waiter_ok :: "action set \<Rightarrow> BuildComplete list list \<Rightarrow> waiter \<Rightarrow> bool" where
  "waiter_ok H ds x \<longleftrightarrow> w_chan x < length ds \<and> length (ds ! w_chan x) \<le> 1
     \<and> (\<forall>bc \<in> set (ds ! w_chan x). sent H (w_key x) bc) \<and> result_sent H x"

definition flight :: "action set \<Rightarrow> config \<Rightarrow> bool" where
  "flight H g \<longleftrightarrow> distinct (map w_chan (waiters g)) \<and> (\<forall>x \<in> set (waiters g). waiter_ok H (dones (srv g)) x)
     \<and> (\<forall>k af. map_of (pending (srv g)) k = Some af \<longrightarrow> entry_ok g k af)"

lemma flightD:
  assumes "flight H g"
  shows "distinct (map w_chan (waiters g))" "i < length (waiters g) \<Longrightarrow> waiter_ok H (dones (srv g)) (waiters g ! i)"
    "map_of (pending (srv g)) k = Some af \<Longrightarrow> entry_ok g k af"
  using assms unfolding flight_def by (blast, simp, blast)

lemma sent_mono: "sent H k bc \<Longrightarrow> sent (insert a H) k bc"
  by (auto simp: sent_def)

lemma waiter_ok_mono: "waiter_ok H ds x \<Longrightarrow> waiter_ok (insert a H) ds x"
  by (auto simp: waiter_ok_def result_sent_def intro: sent_mono)

lemma set_phase_simps [simp]: "srv (set_phase i p g) = srv g" "length (waiters (set_phase i p g)) = length (waiters g)"
  "map w_chan (waiters (set_phase i p g)) = map w_chan (waiters g)" "map w_key (waiters (set_phase i p g)) = map w_key (waiters g)"
proof -
  have "map f ((waiters g)[i := (waiters g ! i)\<lparr>w_phase := p\<rparr>]) = map f (waiters g)"
    if "\<And>x. f (x\<lparr>w_phase := p\<rparr>) = f x" for f :: "waiter \<Rightarrow> 'b"
    using that by (metis list_update_id map_update)
  from this [of w_chan] this [of w_key]
  show "map w_chan (waiters (set_phase i p g)) = map w_chan (waiters g)" "map w_key (waiters (set_phase i p g)) = map w_key (waiters g)"
    by (simp_all add: set_phase_def)
qed (simp_all add: set_phase_def)

lemma entry_ok_cong:
  assumes "entry_ok g k af" "map w_chan (waiters g') = map w_chan (waiters g)" "map w_key (waiters g') = map w_key (waiters g)"
    "length (dones (srv g')) = length (dones (srv g))" "dones (srv g') ! af_done af = []"
  shows "entry_ok g' k af"
proof -
  from assms(1) obtain i where i: "i < length (waiters g)" "w_key (waiters g ! i) = k" "w_chan (waiters g ! i) = af_done af"
    by (auto simp: entry_ok_def)
  have "length (waiters g') = length (waiters g)" using assms(2) by (metis length_map)
  moreover have "w_key (waiters g' ! i) = k" "w_chan (waiters g' ! i) = af_done af"
    using i assms(2,3) calculation by (metis nth_map)+
  ultimately show ?thesis using assms i(1) by (auto simp: entry_ok_def)
qed

text \<open>A step that adds no waiter and no entry.\<close>

lemma flight_inplace:
  assumes "flight H g" "map w_chan (waiters g') = map w_chan (waiters g)" "map w_key (waiters g') = map w_key (waiters g)"
    "length (dones (srv g')) = length (dones (srv g))"
    "\<And>i. i < length (waiters g) \<Longrightarrow> waiter_ok H' (dones (srv g')) (waiters g' ! i)"
    "\<And>k af. map_of (pending (srv g')) k = Some af \<Longrightarrow> map_of (pending (srv g)) k = Some af \<and> dones (srv g') ! af_done af = []"
  shows "flight H' g'"
proof -
  have "length (waiters g') = length (waiters g)" using assms(2) by (metis length_map)
  then have "\<forall>x \<in> set (waiters g'). waiter_ok H' (dones (srv g')) x"
    using assms(5) by (metis in_set_conv_nth)
  moreover have "entry_ok g' k af" if "map_of (pending (srv g')) k = Some af" for k af
    using entry_ok_cong [OF flightD(3) [OF assms(1)] assms(2,3,4)] assms(6) [OF that] by blast
  ultimately show ?thesis using flightD(1) [OF assms(1)] assms(2) unfolding flight_def by simp
qed

lemma entry_channel: "flight H g \<Longrightarrow> map_of (pending (srv g)) k = Some af \<Longrightarrow> dones (srv g) ! af_done af = []"
  using flightD(3) by (fastforce simp: entry_ok_def)

lemma flight_frame:
  assumes "flight H g" "pending (srv g') = pending (srv g)" "dones (srv g') = dones (srv g)" "waiters g' = waiters g"
  shows "flight (insert a H) g'"
  by (rule flight_inplace [OF assms(1)])
    (use assms flightD(2) [OF assms(1)] entry_channel [OF assms(1)] waiter_ok_mono in auto)

lemma flight_phase:
  assumes "flight H g" "pending (srv g') = pending (srv g) \<or> pending (srv g') = AList.delete k (pending (srv g))"
    "dones (srv g') = dones (srv g)" "g' = set_phase i p (g\<lparr>srv := srv g'\<rparr>)"
    "\<And>bc. p = Leaving (Inr bc) \<or> p = Returned (Inr bc) \<Longrightarrow> sent H (w_key (waiters g ! i)) bc"
  shows "flight (insert a H) g'"
proof (rule flight_inplace [OF assms(1)])
  have w: "waiters g' = (waiters g)[i := (waiters g ! i)\<lparr>w_phase := p\<rparr>]" using assms(4) by (simp add: set_phase_def) (metis config.ext_inject config.surjective config.update_convs(1,2))
  show "map w_chan (waiters g') = map w_chan (waiters g)" "map w_key (waiters g') = map w_key (waiters g)"
    using set_phase_simps(3,4) [of i p "g\<lparr>srv := srv g'\<rparr>"] assms(4) by simp_all
  show "length (dones (srv g')) = length (dones (srv g))" by (simp add: assms(3))
  show "waiter_ok (insert a H) (dones (srv g')) (waiters g' ! j)" if "j < length (waiters g)" for j
  proof -
    have "waiter_ok (insert a H) (dones (srv g)) (waiters g ! j)" by (rule waiter_ok_mono [OF flightD(2) [OF assms(1) that]])
    then show ?thesis
      using that sent_mono [OF assms(5)]
      by (cases "j = i") (auto simp: w assms(3) waiter_ok_def result_sent_def)
  qed
  show "map_of (pending (srv g)) k' = Some af \<and> dones (srv g') ! af_done af = []" if "map_of (pending (srv g')) k' = Some af" for k' af
    using assms(2,3) that entry_channel [OF assms(1), of k' af] by (auto split: if_splits)
qed

lemma chan_unique:
  assumes "flight H g" "i < length (waiters g)" "j < length (waiters g)" "w_chan (waiters g ! i) = w_chan (waiters g ! j)"
  shows "i = j"
  using assms flightD(1) [OF assms(1)] by (simp add: distinct_conv_nth) metis

lemma flight_receive:
  assumes "flight H g" "act (Receive i) g = Some g'"
  shows "flight (insert a H) g'"
proof -
  let ?ch = "w_chan (waiters g ! i)"
  from assms(2) obtain bc rest where r: "i < length (waiters g)" "dones (srv g) ! ?ch = bc # rest"
      "g' = set_phase i (Leaving (Inr bc)) (g\<lparr>srv := srv g\<lparr>dones := (dones (srv g))[?ch := rest]\<rparr>\<rparr>)"
    by (auto split: if_splits list.splits)
  have ok: "waiter_ok H (dones (srv g)) (waiters g ! i)" by (rule flightD(2) [OF assms(1) r(1)])
  then have rest: "rest = []" and bc: "sent H (w_key (waiters g ! i)) bc" using r(2) by (auto simp: waiter_ok_def)
  have d: "dones (srv g') = (dones (srv g))[?ch := []]" "pending (srv g') = pending (srv g)"
    "waiters g' = (waiters g)[i := (waiters g ! i)\<lparr>w_phase := Leaving (Inr bc)\<rparr>]" by (simp_all add: r(3) rest set_phase_def)
  show ?thesis
  proof (rule flight_inplace [OF assms(1)])
    show "map w_chan (waiters g') = map w_chan (waiters g)" "map w_key (waiters g') = map w_key (waiters g)"
      using set_phase_simps(3,4) by (simp_all add: r(3))
    show "length (dones (srv g')) = length (dones (srv g))" by (simp add: d)
    show "waiter_ok (insert a H) (dones (srv g')) (waiters g' ! j)" if "j < length (waiters g)" for j
    proof (cases "j = i")
      case True
      with ok bc show ?thesis by (auto simp: d r(1) waiter_ok_def result_sent_def intro: sent_mono)
    next
      case False
      then have "w_chan (waiters g ! j) \<noteq> ?ch" using chan_unique [OF assms(1) that r(1)] by blast
      with False waiter_ok_mono [OF flightD(2) [OF assms(1) that]] show ?thesis by (simp add: d waiter_ok_def)
    qed
    show "map_of (pending (srv g)) k = Some af \<and> dones (srv g') ! af_done af = []" if "map_of (pending (srv g')) k = Some af" for k af
      using that entry_channel [OF assms(1), of k af] r(2) by (cases "af_done af = ?ch") (auto simp: d)
  qed
qed

lemma flight_submit:
  assumes "flight H g" "submit_begin ag (Some j) (srv g) = (Inr (k, ch), s')"
  shows "flight (insert a H) (g\<lparr>srv := s', waiters := waiters g @ [\<lparr>w_key = k, w_job = n, w_chan = ch, w_phase = Assigning j\<rparr>]\<rparr>)"
proof -
  let ?x = "\<lparr>w_key = k, w_job = n, w_chan = ch, w_phase = Assigning j\<rparr>"
  let ?g = "g\<lparr>srv := s', waiters := waiters g @ [?x]\<rparr>"
  have s: "ch = length (dones (srv g))" "dones s' = dones (srv g) @ [[]]"
    "\<And>k'. map_of (pending s') k' = (if k' = k then Some \<lparr>af_jobName = ja_JobName j, af_done = ch\<rparr> else map_of (pending (srv g)) k')"
    using assms(2) by (auto simp: submit_begin_def Let_def split: if_splits)
  have lt: "w_chan x < length (dones (srv g))" if "x \<in> set (waiters g)" for x
    using assms(1) that by (auto simp: flight_def waiter_ok_def)
  have "distinct (map w_chan (waiters ?g))" using flightD(1) [OF assms(1)] lt s(1) by fastforce
  moreover have "\<forall>x \<in> set (waiters ?g). waiter_ok (insert a H) (dones (srv ?g)) x"
  proof
    fix x assume "x \<in> set (waiters ?g)"
    then consider "x = ?x" | "x \<in> set (waiters g)" by auto
    then show "waiter_ok (insert a H) (dones (srv ?g)) x"
    proof cases
      case 2
      then have "waiter_ok (insert a H) (dones (srv g)) x" using assms(1) waiter_ok_mono by (simp add: flight_def)
      with lt [OF 2] show ?thesis by (simp add: waiter_ok_def s nth_append)
    qed (simp add: waiter_ok_def result_sent_def s)
  qed
  moreover have "entry_ok ?g k' af" if m: "map_of (pending (srv ?g)) k' = Some af" for k' af
  proof (cases "k' = k")
    case True
    with m have "af_done af = ch" by (auto simp: s(3))
    with True show ?thesis by (auto simp: entry_ok_def s intro!: exI [of _ "length (waiters g)"])
  next
    case False
    with m have "entry_ok g k' af" using flightD(3) [OF assms(1)] by (simp add: s(3))
    then show ?thesis by (auto simp: entry_ok_def s nth_append)
  qed
  ultimately show ?thesis unfolding flight_def by blast
qed

text \<open>The send of \<^verbatim>\<open>deliverCompletion\<close> never blocks, and it reaches the waiter of that agent and number only.\<close>

lemma deliver_enabled: "flight H g \<Longrightarrow> deliverCompletion ag c (srv g) \<noteq> None"
  using flightD(3) [of H g "(ag, bc_BuildNumber c)"]
  by (auto simp: deliverCompletion_def Let_def entry_ok_def split: option.splits)

lemma flight_deliver:
  assumes "flight H g" "deliverCompletion ag c (srv g) = Some s'" "a = Recv now ag (MsgComplete c)"
  shows "flight (insert a H) (g\<lparr>srv := s'\<rparr>)"
proof (cases "map_of (pending (srv g)) (ag, bc_BuildNumber c)")
  case None
  with assms(2) have "s' = srv g" by (simp add: deliverCompletion_def)
  then show ?thesis using flight_frame [OF assms(1), of g] by simp
next
  case (Some af)
  let ?k = "(ag, bc_BuildNumber c)"
  have e: "dones (srv g) ! af_done af = []" by (rule entry_channel [OF assms(1) Some])
  obtain i where i: "i < length (waiters g)" "w_key (waiters g ! i) = ?k" "w_chan (waiters g ! i) = af_done af"
    and lt: "af_done af < length (dones (srv g))" using flightD(3) [OF assms(1) Some] by (auto simp: entry_ok_def)
  have s': "dones s' = (dones (srv g))[af_done af := [c]]" "pending s' = AList.delete ?k (pending (srv g))"
    using assms(2) Some e lt by (auto simp: deliverCompletion_def Let_def)
  show ?thesis
  proof (rule flight_inplace [OF assms(1)])
    show "waiter_ok (insert a H) (dones (srv (g\<lparr>srv := s'\<rparr>))) (waiters (g\<lparr>srv := s'\<rparr>) ! j)" if j: "j < length (waiters g)" for j
    proof -
      note ok = waiter_ok_mono [OF flightD(2) [OF assms(1) j], of a]
      show ?thesis
      proof (cases "j = i")
        case True
        have "sent (insert a H) ?k c" using assms(3) by (auto simp: sent_def)
        with True ok i lt show ?thesis by (auto simp: waiter_ok_def s')
      next
        case False
        then have "w_chan (waiters g ! j) \<noteq> af_done af" using chan_unique [OF assms(1) j i(1)] i(3) by auto
        with ok show ?thesis by (simp add: waiter_ok_def s')
      qed
    qed
    show "map_of (pending (srv g)) k = Some af' \<and> dones (srv (g\<lparr>srv := s'\<rparr>)) ! af_done af' = []"
      if m: "map_of (pending (srv (g\<lparr>srv := s'\<rparr>))) k = Some af'" for k af'
    proof -
      have m': "k \<noteq> ?k" "map_of (pending (srv g)) k = Some af'" using m by (auto simp: s' split: if_splits)
      obtain j where "j < length (waiters g)" "w_key (waiters g ! j) = k" "w_chan (waiters g ! j) = af_done af'"
        using flightD(3) [OF assms(1) m'(2)] by (auto simp: entry_ok_def)
      then have "af_done af' \<noteq> af_done af" using chan_unique [OF assms(1) _ i(1)] i m'(1) by metis
      with m'(2) entry_channel [OF assms(1) m'(2)] show ?thesis by (simp add: s')
    qed
  qed (simp_all add: s')
qed

lemma flight_same:
  "flight H g \<Longrightarrow> pending (srv g') = pending (srv g) \<Longrightarrow> dones (srv g') = dones (srv g) \<Longrightarrow> waiters g' = waiters g \<Longrightarrow> flight H g'"
  unfolding flight_def entry_ok_def by simp

lemma assign_frame:
  "AssignJob pick ag j s = Some (r, s') \<Longrightarrow> pending s' = pending s \<and> dones s' = dones s"
  by (auto simp: AssignJob_def split: option.splits if_splits)

lemma handler_frames:
  "pending (snd (Register cl info s)) = pending s" "dones (snd (Register cl info s)) = dones s"
  "pending (snd (connect_open md s)) = pending s" "dones (snd (connect_open md s)) = dones s"
  "pending (connect_close a s) = pending s" "dones (connect_close a s) = dones s"
  "pending (SetDisabled a d s) = pending s" "dones (SetDisabled a d s) = dones s"
  "pending (RecordHeartbeat now a st s) = pending s" "dones (RecordHeartbeat now a st s) = dones s"
  "pump_own a s = Some (j, s') \<Longrightarrow> pending s' = pending s \<and> dones s' = dones s"
  "pump_shared s = Some (j, s') \<Longrightarrow> pending s' = pending s \<and> dones s' = dones s"
  "QueueJob j s = Some s' \<Longrightarrow> pending s' = pending s \<and> dones s' = dones s"
  by (auto simp: Register_def connect_open_def connect_close_def SetDisabled_def RecordHeartbeat_def pump_own_def pump_shared_def
      QueueJob_def Let_def split: option.splits if_splits sum.splits prod.splits list.splits)

lemma flight_step:
  assumes "astep g a g'" "flight H g"
  shows "flight (insert a H) g'"
proof -
  have st: "act a g = Some g'" using assms(1) by (simp add: astep_iff)
  show ?thesis
  proof (cases a)
    case (Submit ag j)
    show ?thesis
    proof (cases "submit_begin ag (Some j) (srv g)")
      case (Pair r s')
      show ?thesis
      proof (cases r)
        case (Inl e)
        then have "s' = srv g" using Pair by (auto simp: submit_begin_def Let_def split: if_splits)
        then show ?thesis using st Submit Pair Inl flight_frame [OF assms(2), of g'] by auto
      next
        case (Inr kc)
        obtain k ch where kc: "kc = (k, ch)" by (cases kc)
        show ?thesis using flight_submit [OF assms(2), of ag j k ch s'] st Submit Pair Inr kc by auto
      qed
    qed
  next
    case (Assign i pick)
    from st Assign obtain j r s' where as: "i < length (waiters g)" "w_phase (waiters g ! i) = Assigning j"
      "AssignJob pick (fst (w_key (waiters g ! i))) j (srv g) = Some (r, s')"
      "g' = (case r of Inl e \<Rightarrow> set_phase i (Leaving (Inl e)) (g\<lparr>srv := s'\<rparr>) | Inr _ \<Rightarrow> set_phase i Waiting (g\<lparr>srv := s'\<rparr>))"
      by (auto split: if_splits wphase.splits option.splits sum.splits prod.splits)
    have "pending s' = pending (srv g)" "dones s' = dones (srv g)" using assign_frame [OF as(3)] by auto
    then show ?thesis
      using as(4) by (cases r) (auto intro!: flight_phase [OF assms(2), where i = i])
  next
    case (Receive i)
    then show ?thesis using flight_receive [OF assms(2)] st by simp
  next
    case (Cancel i)
    then show ?thesis using st by (auto intro!: flight_phase [OF assms(2), where i = i] split: if_splits)
  next
    case (Cleanup i)
    from st Cleanup obtain r where c: "i < length (waiters g)" "w_phase (waiters g ! i) = Leaving r"
      "g' = set_phase i (Returned r) (g\<lparr>srv := submit_cleanup (w_key (waiters g ! i)) (srv g)\<rparr>)"
      by (auto split: if_splits wphase.splits)
    have "sent H (w_key (waiters g ! i)) bc" if "r = Inr bc" for bc
      using flightD(2) [OF assms(2) c(1)] c(2) that by (simp add: waiter_ok_def result_sent_def)
    then show ?thesis
      using c(3) by (auto intro!: flight_phase [OF assms(2), where i = i and p = "Returned r" and k = "w_key (waiters g ! i)"] simp: submit_cleanup_def)
  next
    case (Recv now ag msg)
    show ?thesis
    proof (cases msg)
      case (MsgComplete c)
      from st Recv MsgComplete obtain s' where d: "deliverCompletion ag c (recordCompletion c (srv g)) = Some s'" "g' = g\<lparr>srv := s'\<rparr>"
        by (auto simp: recv_msg_def split: option.splits)
      have "flight H (g\<lparr>srv := recordCompletion c (srv g)\<rparr>)" by (rule flight_same [OF assms(2)]) (simp_all add: recordCompletion_def)
      from flight_deliver [OF this, of ag c s' a now] d Recv MsgComplete show ?thesis by simp
    qed (use st Recv flight_frame [OF assms(2), of g'] handler_frames(9,10) in \<open>auto simp: recv_msg_def\<close>)
  qed (use st flight_frame [OF assms(2), of g'] handler_frames in \<open>auto\<close>)
qed

lemma flight_runs: "runs astep g tr g' \<Longrightarrow> flight H g \<Longrightarrow> flight (H \<union> set tr) g'"
proof (induction arbitrary: H rule: runs.induct)
  case (runs_Cons s e t tr u)
  from runs_Cons.IH [OF flight_step [OF runs_Cons.hyps(1) runs_Cons.prems]] show ?case by simp
qed simp

definition agent_init :: "Server \<Rightarrow> config" where
  "agent_init s = \<lparr>srv = s, waiters = []\<rparr>"

lemma flight_init: "pending s = [] \<Longrightarrow> flight {} (agent_init s)"
  by (simp add: flight_def agent_init_def)

text \<open>
  C7. A result of \<^verbatim>\<open>SubmitAndWait\<close> comes from its agent: under every interleaving, a completion returned to a caller carries
  the build number the caller submitted and was sent by the agent the caller named.
\<close>

theorem completion_from_agent:
  assumes "pending s = []" "runs astep (agent_init s) tr g" "x \<in> set (waiters g)" "w_phase x = Returned (Inr bc)"
  shows "bc_BuildNumber bc = snd (w_key x) \<and> (\<exists>now. Recv now (fst (w_key x)) (MsgComplete bc) \<in> set tr)"
proof -
  have "flight (set tr) g" using flight_runs [OF assms(2) flight_init [OF assms(1)]] by simp
  then have "waiter_ok (set tr) (dones (srv g)) x" using assms(3) by (simp add: flight_def)
  then show ?thesis using assms(4) by (simp add: waiter_ok_def result_sent_def sent_def)
qed

text \<open>
  C21. The receive loop never blocks on a completion: at every point of every run a completion message can be handled at once.
\<close>

theorem receive_never_blocks:
  assumes "pending s = []" "runs astep (agent_init s) tr g"
  shows "\<exists>g'. astep g (Recv now ag (MsgComplete c)) g'"
proof -
  have "flight (set tr) g" using flight_runs [OF assms(2) flight_init [OF assms(1)]] by simp
  then have "flight (set tr) (g\<lparr>srv := recordCompletion c (srv g)\<rparr>)" by (rule flight_same) (simp_all add: recordCompletion_def)
  from deliver_enabled [OF this, of ag c] show ?thesis by (auto simp: astep_iff recv_msg_def split: option.splits)
qed

section \<open>Streams belong to registered agents\<close>

definition streams_ok :: "Server \<Rightarrow> bool" where
  "streams_ok s \<longleftrightarrow> (\<forall>k. map_of (streams s) k \<noteq> None \<longrightarrow> map_of (agents s) k \<noteq> None)"

lemma streams_ok_handlers:
  assumes "streams_ok s"
  shows "streams_ok (snd (Register cl info s))" "streams_ok (snd (connect_open md s))" "streams_ok (connect_close a s)"
    "AssignJob pick ag j s = Some (r, s') \<Longrightarrow> streams_ok s'" "pump_own ag s = Some (j', s') \<Longrightarrow> streams_ok s'"
proof -
  show "streams_ok (snd (Register cl info s))"
    using assms by (simp add: streams_ok_def Register_def Let_def split: option.splits sum.splits prod.splits)
  show "streams_ok (snd (connect_open md s))"
    using assms by (simp add: streams_ok_def connect_open_def split: option.splits sum.splits)
  show "streams_ok (connect_close a s)"
    using assms by (simp add: streams_ok_def connect_close_def)
  show "AssignJob pick ag j s = Some (r, s') \<Longrightarrow> streams_ok s'"
    using assms by (auto simp: streams_ok_def AssignJob_def split: option.splits if_splits)
  show "pump_own ag s = Some (j', s') \<Longrightarrow> streams_ok s'"
    using assms by (auto simp: streams_ok_def pump_own_def split: option.splits list.splits if_splits)
qed

lemma streams_frames:
  "agents (snd (submit_begin a j s)) = agents s" "streams (snd (submit_begin a j s)) = streams s"
  "deliverCompletion a c s = Some s' \<Longrightarrow> agents s' = agents s \<and> streams s' = streams s"
  "pump_shared s = Some (j', s') \<Longrightarrow> agents s' = agents s \<and> streams s' = streams s"
  "QueueJob j' s = Some s' \<Longrightarrow> agents s' = agents s \<and> streams s' = streams s"
  by (auto simp: submit_begin_def deliverCompletion_def pump_shared_def QueueJob_def Let_def split: option.splits if_splits list.splits)

lemma streams_ok_step:
  assumes "astep g a g'" "streams_ok (srv g)"
  shows "streams_ok (srv g')"
proof -
  have st: "act a g = Some g'" using assms(1) by (simp add: astep_iff)
  note H = streams_ok_handlers [OF assms(2)]
  show ?thesis
  proof (cases a)
    case (Submit ag j)
    then show ?thesis using st assms(2) streams_frames(1,2) [of ag "Some j" "srv g"]
      by (cases "submit_begin ag (Some j) (srv g)") (force simp: streams_ok_def split: sum.splits)
  next
    case (Assign i pick)
    then show ?thesis using st H(4) by (auto split: if_splits wphase.splits option.splits sum.splits prod.splits)
  next
    case (Recv now ag msg)
    then show ?thesis using st assms(2) streams_frames(3) [of ag _ "recordCompletion _ (srv g)"]
      by (cases msg) (auto simp: recv_msg_def streams_ok_def recordCompletion_def RecordHeartbeat_def split: option.splits)
  qed (use st assms(2) H streams_frames(4,5) in
      \<open>auto simp: streams_ok_def submit_cleanup_def SetDisabled_def split: if_splits list.splits wphase.splits\<close>)
qed

text \<open>
  Only registered agents hold a stream: at every point of a run, every open stream belongs to an agent in the registry, so
  \<^verbatim>\<open>AssignJob\<close> and \<^verbatim>\<open>IdleAgentWithLabel\<close> only ever see agents that called \<^verbatim>\<open>Register\<close>.
\<close>

theorem streams_registered:
  "runs astep g tr g' \<Longrightarrow> streams_ok (srv g) \<Longrightarrow> streams_ok (srv g')"
  by (induction rule: runs.induct) (auto dest: streams_ok_step)

section \<open>Choosing an agent\<close>

definition demo_srv :: Server where
  "demo_srv = (newServer ''1'')\<lparr>agents := [(''x'', \<lparr>AgentId = ''x'', ai_Labels = [''mac''], Executors = 1\<rparr>)],
     streams := [(''x'', \<lparr>st_info = \<lparr>AgentId = ''x'', ai_Labels = [''mac''], Executors = 1\<rparr>, st_send = [], st_ctxDone = False\<rparr>)]\<rparr>"

definition demo_A :: JobAssignment where "demo_A = \<lparr>ja_JobName = ''alpha'', ja_BuildNumber = 5, ja_Steps = []\<rparr>"
definition demo_B :: JobAssignment where "demo_B = \<lparr>ja_JobName = ''beta'', ja_BuildNumber = 5, ja_Steps = []\<rparr>"
definition demo_bc :: BuildComplete where "demo_bc = \<lparr>bc_BuildNumber = 5, bc_Status = ''success'', bc_ExitCode = 0, bc_Error = ''''\<rparr>"

text \<open>
  \<^verbatim>\<open>IdleAgentWithLabel\<close> picks a usable agent: a non-empty answer names an agent with an open stream that is not disabled and
  advertises the label (any agent for the empty label); the empty answer means that no such agent exists, when no agent has
  the empty id.
\<close>

theorem IdleAgentWithLabel_sound:
  assumes "'''' \<notin> fst ` set (streams s)"
  shows "if IdleAgentWithLabel label s = ''''
    then \<not> (\<exists>(i, st) \<in> set (streams s). \<not> IsDisabled s i \<and> (label = '''' \<or> label \<in> set (ai_Labels (st_info st))))
    else \<exists>st. (IdleAgentWithLabel label s, st) \<in> set (streams s) \<and> \<not> IsDisabled s (IdleAgentWithLabel label s)
        \<and> (label = '''' \<or> label \<in> set (ai_Labels (st_info st)))"
proof -
  let ?P = "\<lambda>(i, st). \<not> IsDisabled s i \<and> (label = '''' \<or> label \<in> set (ai_Labels (st_info st)))"
  have hd: "IdleAgentWithLabel label s = (case filter ?P (streams s) of [] \<Rightarrow> '''' | (i, st) # _ \<Rightarrow> i)"
    by (simp add: IdleAgentWithLabel_def)
  show ?thesis
  proof (cases "filter ?P (streams s)")
    case Nil
    then have "\<forall>x \<in> set (streams s). \<not> ?P x" by (simp only: filter_empty_conv)
    with Nil show ?thesis by (auto simp: hd)
  next
    case (Cons x xs)
    then have "x \<in> set (filter ?P (streams s))" by simp
    then have x: "x \<in> set (streams s)" "?P x" by simp_all
    obtain i st where [simp]: "x = (i, st)" by (cases x)
    have "i \<noteq> ''''" using assms x(1) by force
    with Cons x show ?thesis by (auto simp: hd)
  qed
qed

theorem IdleAgentWithLabel_sound_witness:
  "\<exists>st. (''x'', st) \<in> set (streams demo_srv) \<and> \<not> IsDisabled demo_srv ''x'' \<and> ''mac'' \<in> set (ai_Labels (st_info st))"
proof -
  have "'''' \<notin> fst ` set (streams demo_srv)" by (simp add: demo_srv_def)
  moreover have "IdleAgentWithLabel ''mac'' demo_srv = ''x''" by code_simp
  ultimately show ?thesis using IdleAgentWithLabel_sound [of demo_srv "''mac''"] by simp
qed

section \<open>Two races\<close>

text \<open>Build 5 of \<open>alpha\<close> is cancelled, build 5 of \<open>beta\<close> is submitted, then the agent reports build 5.\<close>

definition demo_stale :: "action list" where
  "demo_stale = [Submit ''x'' demo_A, Assign 0 False, PumpOwn ''x'', Cancel 0, Cleanup 0,
     Submit ''x'' demo_B, Assign 1 False, Recv 0 ''x'' (MsgComplete demo_bc), Receive 1, Cleanup 1]"

text \<open>The clean-up of the first caller runs after the second caller has registered the same key.\<close>

definition demo_late_cleanup :: "action list" where
  "demo_late_cleanup = [Submit ''x'' demo_A, Assign 0 False, PumpOwn ''x'', Recv 0 ''x'' (MsgComplete demo_bc), Receive 0,
     Submit ''x'' demo_B, Cleanup 0, Assign 1 False, PumpOwn ''x'', Recv 0 ''x'' (MsgComplete demo_bc)]"

text \<open>
  Completions are matched by agent and build number only: there is a run in which \<^verbatim>\<open>SubmitAndWait\<close> for one job returns success from
  the completion of another job's cancelled build, while its own assignment has not left the server.
\<close>

theorem stale_completion_misattributed:
  "\<exists>g. runs astep (agent_init demo_srv) demo_stale g
     \<and> w_job (waiters g ! 1) = ja_JobName demo_B \<and> w_phase (waiters g ! 1) = Returned (Inr demo_bc)
     \<and> (\<exists>st. map_of (streams (srv g)) ''x'' = Some st \<and> st_send st = [demo_B])"
proof -
  have "case run_acts demo_stale (agent_init demo_srv) of None \<Rightarrow> False
      | Some g \<Rightarrow> w_job (waiters g ! 1) = ja_JobName demo_B \<and> w_phase (waiters g ! 1) = Returned (Inr demo_bc)
          \<and> map_option st_send (map_of (streams (srv g)) ''x'') = Some [demo_B]"
    by code_simp
  then obtain g where "run_acts demo_stale (agent_init demo_srv) = Some g" "w_job (waiters g ! 1) = ja_JobName demo_B"
    "w_phase (waiters g ! 1) = Returned (Inr demo_bc)" "map_option st_send (map_of (streams (srv g)) ''x'') = Some [demo_B]"
    by (auto split: option.splits)
  then show ?thesis using run_acts_runs by blast
qed

text \<open>
  The deferred \<^verbatim>\<open>delete\<close> of \<^verbatim>\<open>SubmitAndWait\<close> can remove another caller's entry: there is a run in which a caller still waits although
  the agent reported its build, the entry that would route the report is gone, and its channel is empty.
\<close>

theorem cleanup_drops_next_waiter:
  "\<exists>g. runs astep (agent_init demo_srv) demo_late_cleanup g \<and> w_phase (waiters g ! 1) = Waiting
     \<and> map_of (pending (srv g)) (w_key (waiters g ! 1)) = None \<and> dones (srv g) ! w_chan (waiters g ! 1) = []
     \<and> completedLog (srv g) = [demo_bc, demo_bc]"
proof -
  have "case run_acts demo_late_cleanup (agent_init demo_srv) of None \<Rightarrow> False
      | Some g \<Rightarrow> w_phase (waiters g ! 1) = Waiting \<and> map_of (pending (srv g)) (w_key (waiters g ! 1)) = None
          \<and> dones (srv g) ! w_chan (waiters g ! 1) = [] \<and> completedLog (srv g) = [demo_bc, demo_bc]"
    by code_simp
  then show ?thesis using run_acts_runs by (auto split: option.splits)
qed

section \<open>Concrete runs\<close>

text \<open>A submission that runs to its end.\<close>

definition demo_run :: "action list" where
  "demo_run = [Submit ''x'' demo_A, Assign 0 False, PumpOwn ''x'', Recv 0 ''x'' (MsgComplete demo_bc), Receive 0, Cleanup 0]"

lemma demo_run_runs:
  obtains g where "runs astep (agent_init demo_srv) demo_run g" "map w_phase (waiters g) = [Returned (Inr demo_bc)]"
    "map w_key (waiters g) = [(''x'', 5)]"
proof -
  have "case run_acts demo_run (agent_init demo_srv) of None \<Rightarrow> False
      | Some g \<Rightarrow> map w_phase (waiters g) = [Returned (Inr demo_bc)] \<and> map w_key (waiters g) = [(''x'', 5)]"
    by code_simp
  then show ?thesis using that run_acts_runs by (auto split: option.splits)
qed

lemma demo_pending: "pending demo_srv = []"
  by code_simp

theorem completion_from_agent_witness:
  "\<exists>g. runs astep (agent_init demo_srv) demo_run g \<and> w_phase (waiters g ! 0) = Returned (Inr demo_bc)
     \<and> (\<exists>now. Recv now ''x'' (MsgComplete demo_bc) \<in> set demo_run)"
proof -
  obtain g where g: "runs astep (agent_init demo_srv) demo_run g" "map w_phase (waiters g) = [Returned (Inr demo_bc)]"
    "map w_key (waiters g) = [(''x'', 5)]" by (rule demo_run_runs)
  then obtain x where x: "waiters g = [x]" "w_phase x = Returned (Inr demo_bc)" "w_key x = (''x'', 5)" by auto
  from completion_from_agent [OF demo_pending g(1) _ x(2)] x show ?thesis using g(1) by auto
qed

theorem receive_never_blocks_witness:
  "\<exists>g g'. runs astep (agent_init demo_srv) demo_run g \<and> astep g (Recv 1 ''x'' (MsgComplete demo_bc)) g'"
proof -
  obtain g where g: "runs astep (agent_init demo_srv) demo_run g" by (rule demo_run_runs)
  with receive_never_blocks [OF demo_pending g] show ?thesis by blast
qed

theorem streams_registered_witness:
  "\<exists>g. runs astep (agent_init demo_srv) demo_run g \<and> streams_ok (srv g)"
proof -
  obtain g where g: "runs astep (agent_init demo_srv) demo_run g" by (rule demo_run_runs)
  have "streams_ok (srv (agent_init demo_srv))" by (simp add: streams_ok_def agent_init_def demo_srv_def)
  with streams_registered [OF g] g show ?thesis by blast
qed

end
