(* ===== verification/Lexer.thy ===== *)
theory Lexer
  imports Prelude
begin

text \<open>
  The lexer of the pipeline language (\<^verbatim>\<open>internal/pipeline/lexer.go\<close>). The scan state is the record \<open>lexer\<close> with the fields
  of the Go struct; bytes are characters, and a read past the end gives the zero byte as in the source. Every loop is a
  recursion on the bytes left. Errors carry the text of the message and its position. The main theorem reads the token
  stream back: the source is the tokens' lexemes with blanks and comments between them, and every token carries the line
  and column of its first byte.
\<close>

section \<open>Tokens\<close>

datatype TokenKind = TokIdent | TokKeyword | TokString | TokNumber | TokOperator | TokLBrace | TokRBrace | TokLParen | TokRParen
  | TokLBracket | TokRBracket | TokComma | TokSemicolon | TokNewline | TokAnnotation | TokEOF

datatype StringKind = StringNotApplicable | StringSingle | StringDouble | StringTripleSingle | StringTripleDouble

record Token =
  Kind :: TokenKind
  Value :: string
  tok_StringKind :: StringKind
  Line :: nat
  Col :: nat

text \<open>\<open>Panic\<close> is an index out of range; \<open>OutOfFuel\<close> is a loop that has not ended within its fuel.\<close>

datatype perr =
    LexError string nat nat
  | ParseError string nat nat
  | ParseFail string
  | Panic
  | OutOfFuel

definition mkTok :: "TokenKind \<Rightarrow> string \<Rightarrow> nat \<Rightarrow> nat \<Rightarrow> Token" where
  "mkTok k v line col = \<lparr>Kind = k, Value = v, tok_StringKind = StringNotApplicable, Line = line, Col = col\<rparr>"

definition keyword_list :: "string list" where
  "keyword_list = [''pipeline'', ''agent'', ''label'', ''options'', ''stages'', ''stage'', ''steps'', ''script'', ''parallel'', ''when'',
     ''expression'', ''withCredentials'', ''post'', ''always'', ''success'', ''failure'', ''def'', ''return'', ''if'', ''else'', ''for'',
     ''while'', ''in'', ''try'', ''catch'', ''finally'', ''throw'', ''break'', ''continue'', ''null'', ''true'', ''false'', ''new'', ''instanceof'']"

section \<open>The scan state\<close>

record lexer =
  l_src :: string
  l_pos :: nat
  l_line :: nat
  l_col :: nat

definition eof :: "lexer \<Rightarrow> bool" where
  "eof l \<longleftrightarrow> l_pos l \<ge> length (l_src l)"

definition peekAt :: "nat \<Rightarrow> lexer \<Rightarrow> char" where
  "peekAt n l = (if l_pos l + n \<ge> length (l_src l) then CHR 0x00 else l_src l ! (l_pos l + n))"

definition peek :: "lexer \<Rightarrow> char" where
  "peek l = (if eof l then CHR 0x00 else l_src l ! l_pos l)"

text \<open>No caller uses the byte \<^verbatim>\<open>advance\<close> returns.\<close>

definition advance :: "lexer \<Rightarrow> lexer" where
  "advance l =
     (if eof l then l
      else if l_src l ! l_pos l = CHR 0x0A then l\<lparr>l_pos := l_pos l + 1, l_line := l_line l + 1, l_col := 1\<rparr>
      else l\<lparr>l_pos := l_pos l + 1, l_col := l_col l + 1\<rparr>)"

definition left :: "lexer \<Rightarrow> nat" where
  "left l = length (l_src l) - l_pos l"

lemma left_advance [simp]: "\<not> eof l \<Longrightarrow> left (advance l) < left l"
  by (auto simp: left_def advance_def eof_def)

lemma left_advance_le [simp]: "left (advance l) \<le> left l"
  by (auto simp: left_def advance_def)

section \<open>Blanks and comments\<close>

function skip_line :: "lexer \<Rightarrow> lexer" where
  "skip_line l = (if \<not> eof l \<and> peek l \<noteq> CHR 0x0A then skip_line (advance l) else l)"
  by auto
termination skip_line
  by (relation "measure left") auto

text \<open>The body of a block comment up to its end; \<open>None\<close> when it is not closed.\<close>

function skip_block :: "lexer \<Rightarrow> lexer option" where
  "skip_block l =
     (if eof l then None
      else if peek l = CHR ''*'' \<and> peekAt 1 l = CHR ''/'' then Some (advance (advance l))
      else skip_block (advance l))"
  by auto
termination skip_block
  by (relation "measure left") auto

declare skip_line.simps [simp del] skip_block.simps [simp del]

lemma left_skip_line: "left (skip_line l) \<le> left l"
  by (induction l rule: skip_line.induct) (subst skip_line.simps, auto intro: order_trans)

lemma left_skip_line_less: "\<not> eof l \<Longrightarrow> peek l \<noteq> CHR 0x0A \<Longrightarrow> left (skip_line l) < left l"
  by (subst skip_line.simps) (auto intro: le_less_trans [OF left_skip_line])

lemma left_skip_block: "skip_block l = Some l' \<Longrightarrow> left l' \<le> left l"
proof (induction l rule: skip_block.induct)
  case (1 l)
  from "1.prems" show ?case
    using "1.IH" by (subst (asm) skip_block.simps) (auto split: if_splits intro: order_trans [OF left_advance_le] order_trans)
qed

function skipSpaceAndComments :: "lexer \<Rightarrow> perr + lexer" where
  "skipSpaceAndComments l =
     (if eof l then Inr l
      else if peek l \<in> {CHR '' '', CHR 0x09, CHR 0x0D} then skipSpaceAndComments (advance l)
      else if peek l = CHR ''/'' \<and> peekAt 1 l = CHR ''/'' then skipSpaceAndComments (skip_line l)
      else if peek l = CHR ''/'' \<and> peekAt 1 l = CHR ''*'' then
        (case skip_block (advance (advance l)) of
           None \<Rightarrow> Inl (LexError ''unterminated block comment'' (l_line l) (l_col l))
         | Some l' \<Rightarrow> skipSpaceAndComments l')
      else Inr l)"
  by auto
termination skipSpaceAndComments
proof (relation "measure left")
  fix l l' assume "\<not> eof l" "skip_block (advance (advance l)) = Some l'"
  then show "(l', l) \<in> measure left"
    using left_skip_block [of "advance (advance l)" l'] left_advance [of l] left_advance_le [of "advance l"]
    unfolding measure_def inv_image_def by (simp del: left_advance left_advance_le)
qed (auto simp: left_skip_line_less)

declare skipSpaceAndComments.simps [simp del]

section \<open>Lexemes\<close>

definition isIdentStart :: "char \<Rightarrow> bool" where
  "isIdentStart c \<longleftrightarrow> c = CHR ''_'' \<or> is_letter c"

definition isIdentPart :: "char \<Rightarrow> bool" where
  "isIdentPart c \<longleftrightarrow> isIdentStart c \<or> is_digit c"

text \<open>\<^verbatim>\<open>for !l.eof() && p(l.peek()) { l.advance() }\<close>\<close>

function skip_while :: "(char \<Rightarrow> bool) \<Rightarrow> lexer \<Rightarrow> lexer" where
  "skip_while p l = (if \<not> eof l \<and> p (peek l) then skip_while p (advance l) else l)"
  by auto
termination skip_while
  by (relation "measure (left \<circ> snd)") auto

declare skip_while.simps [simp del]

text \<open>\<^verbatim>\<open>string(l.src[start:l.pos])\<close>\<close>

definition slice :: "lexer \<Rightarrow> nat \<Rightarrow> string" where
  "slice l start = take (l_pos l - start) (drop start (l_src l))"

definition readAnnotation :: "nat \<Rightarrow> nat \<Rightarrow> lexer \<Rightarrow> Token \<times> lexer" where
  "readAnnotation ln cl l =
     (let start = l_pos l; l' = skip_while isIdentPart l in (mkTok TokAnnotation (slice l' start) ln cl, l'))"

definition readIdent :: "nat \<Rightarrow> nat \<Rightarrow> lexer \<Rightarrow> Token \<times> lexer" where
  "readIdent ln cl l =
     (let start = l_pos l; l' = skip_while isIdentPart l; text = slice l' start;
          kind = (if text \<in> set keyword_list then TokKeyword else TokIdent)
      in (mkTok kind text ln cl, l'))"

definition readNumber :: "nat \<Rightarrow> nat \<Rightarrow> lexer \<Rightarrow> Token \<times> lexer" where
  "readNumber ln cl l =
     (let start = l_pos l; l' = skip_while is_digit l in (mkTok TokNumber (slice l' start) ln cl, l'))"

definition str_tok :: "StringKind \<Rightarrow> string \<Rightarrow> nat \<Rightarrow> nat \<Rightarrow> Token" where
  "str_tok sk v ln cl = (mkTok TokString v ln cl)\<lparr>tok_StringKind := sk\<rparr>"

text \<open>The loops of \<^verbatim>\<open>readTripleString\<close> and of the single-line case of \<^verbatim>\<open>readString\<close>.\<close>

function readTripleString :: "nat \<Rightarrow> nat \<Rightarrow> char \<Rightarrow> nat \<Rightarrow> lexer \<Rightarrow> perr + Token \<times> lexer" where
  "readTripleString ln cl quote start l =
     (if eof l then Inl (LexError ''unterminated triple-quoted string'' ln cl)
      else if peek l = quote \<and> peekAt 1 l = quote \<and> peekAt 2 l = quote then
        Inr (str_tok (if quote = CHR 0x22 then StringTripleDouble else StringTripleSingle) (slice l start) ln cl,
             advance (advance (advance l)))
      else readTripleString ln cl quote start (advance l))"
  by auto
termination readTripleString
  by (relation "measure (\<lambda>(_, _, _, _, l). left l)") auto

function readLineString :: "nat \<Rightarrow> nat \<Rightarrow> char \<Rightarrow> nat \<Rightarrow> lexer \<Rightarrow> perr + Token \<times> lexer" where
  "readLineString ln cl quote start l =
     (if eof l then Inl (LexError ''unterminated string'' ln cl)
      else if peek l = CHR 0x5C then
        (let l1 = advance l in readLineString ln cl quote start (if \<not> eof l1 then advance l1 else l1))
      else if peek l = quote then
        Inr (str_tok (if quote = CHR 0x22 then StringDouble else StringSingle) (slice l start) ln cl, advance l)
      else if peek l = CHR 0x0A then Inl (LexError ''newline in single-line string'' ln cl)
      else readLineString ln cl quote start (advance l))"
  by auto
termination readLineString
  by (relation "measure (\<lambda>(_, _, _, _, l). left l)") (auto intro: le_less_trans [OF left_advance_le])

declare readTripleString.simps [simp del] readLineString.simps [simp del]

definition readString :: "nat \<Rightarrow> nat \<Rightarrow> lexer \<Rightarrow> perr + Token \<times> lexer" where
  "readString ln cl l =
     (let quote = peek l in
      if peekAt 1 l = quote \<and> peekAt 2 l = quote
      then let l3 = advance (advance (advance l)) in readTripleString ln cl quote (l_pos l3) l3
      else let l1 = advance l in readLineString ln cl quote (l_pos l1) l1)"

definition punct :: "(char \<times> TokenKind) list" where
  "punct = [(CHR ''{'', TokLBrace), (CHR ''}'', TokRBrace), (CHR ''('', TokLParen), (CHR '')'', TokRParen), (CHR ''['', TokLBracket),
     (CHR '']'', TokRBracket), (CHR '','', TokComma), (CHR '';'', TokSemicolon)]"

definition twoChars :: "string list" where
  "twoChars = [''+='', ''-='', ''=='', ''!='', ''<='', ''>='', ''&&'', ''||'', ''++'', ''--'', ''->'']"

definition readPunctOrOperator :: "nat \<Rightarrow> nat \<Rightarrow> lexer \<Rightarrow> perr + Token \<times> lexer" where
  "readPunctOrOperator ln cl l =
     (let c = peek l in
      case map_of punct c of
        Some k \<Rightarrow> Inr (mkTok k [c] ln cl, advance l)
      | None \<Rightarrow>
          if [c, peekAt 1 l] \<in> set twoChars then Inr (mkTok TokOperator [c, peekAt 1 l] ln cl, advance (advance l))
          else if c \<in> set ''=+-.:?!<>*/'' then Inr (mkTok TokOperator [c] ln cl, advance l)
          else Inl (LexError ''unexpected character'' ln cl))"

text \<open>\<^verbatim>\<open>next\<close> is \<open>next_tok\<close>; \<open>read_tok\<close> is its part after the blanks.\<close>

definition read_tok :: "lexer \<Rightarrow> perr + Token \<times> lexer" where
  "read_tok l =
     (let ln = l_line l; cl = l_col l; c = peek l in
      if eof l then Inr (mkTok TokEOF '''' ln cl, l)
      else if c = CHR 0x0A then Inr (mkTok TokNewline '''' ln cl, advance l)
      else if isIdentStart c then Inr (readIdent ln cl l)
      else if is_digit c then Inr (readNumber ln cl l)
      else if c = CHR 0x27 \<or> c = CHR 0x22 then readString ln cl l
      else if c = CHR ''@'' \<and> isIdentStart (peekAt 1 l) then Inr (readAnnotation ln cl (advance l))
      else readPunctOrOperator ln cl l)"

definition next_tok :: "lexer \<Rightarrow> perr + Token \<times> lexer" where
  "next_tok l0 = (case skipSpaceAndComments l0 of Inl e \<Rightarrow> Inl e | Inr l \<Rightarrow> read_tok l)"

section \<open>What a scan consumes\<close>

text \<open>\<open>moved l w l'\<close>: from \<open>l\<close> to \<open>l'\<close> exactly the bytes \<open>w\<close> were consumed, with line and column kept in step.\<close>

definition rest :: "lexer \<Rightarrow> string" where
  "rest l = drop (l_pos l) (l_src l)"

definition step_pos :: "char \<Rightarrow> nat \<times> nat \<Rightarrow> nat \<times> nat" where
  "step_pos c p = (if c = CHR 0x0A then (fst p + 1, 1) else (fst p, snd p + 1))"

definition moved :: "lexer \<Rightarrow> string \<Rightarrow> lexer \<Rightarrow> bool" where
  "moved l w l' \<longleftrightarrow> l_src l' = l_src l \<and> rest l = w @ rest l' \<and> l_pos l' = l_pos l + length w
     \<and> (l_line l', l_col l') = fold step_pos w (l_line l, l_col l)"

lemma eof_rest: "eof l \<longleftrightarrow> rest l = []"
  by (simp add: eof_def rest_def)

lemma peek_Cons: "rest l = c # r \<Longrightarrow> peek l = c"
  by (auto simp: peek_def eof_def rest_def dest: nth_via_drop)

lemma rest_peek: "\<not> eof l \<Longrightarrow> \<exists>r. rest l = peek l # r"
  using peek_Cons by (cases "rest l") (auto simp: eof_rest)

lemma peekAt_rest: "peekAt n l = (if n < length (rest l) then rest l ! n else CHR 0x00)"
  by (auto simp: peekAt_def rest_def)

lemma left_rest: "left l = length (rest l)"
  by (simp add: left_def rest_def)

lemma moved_refl [simp]: "moved l [] l"
  by (simp add: moved_def)

lemma moved_trans: "moved l w l' \<Longrightarrow> moved l' v l'' \<Longrightarrow> moved l (w @ v) l''"
  by (simp add: moved_def)

lemma moved_advance: "rest l = c # r \<Longrightarrow> moved l [c] (advance l)"
  by (auto simp: moved_def advance_def eof_def rest_def step_pos_def Cons_nth_drop_Suc [symmetric] not_le
      dest: arg_cong [where f = length] nth_via_drop)

lemma rest_advance: "rest l = c # r \<Longrightarrow> rest (advance l) = r"
  using moved_advance by (fastforce simp: moved_def)

lemma moved_Cons: "rest l = c # r \<Longrightarrow> moved (advance l) w l' \<Longrightarrow> moved l (c # w) l'"
  using moved_trans [OF moved_advance] by fastforce

lemma moved_rest: "moved l w l' \<Longrightarrow> rest l = w @ rest l'"
  by (simp add: moved_def)

lemma moved_pos: "moved l w l' \<Longrightarrow> (l_line l', l_col l') = fold step_pos w (l_line l, l_col l)"
  by (simp add: moved_def)

lemma slice_moved: "moved l w l' \<Longrightarrow> slice l' (l_pos l) = w"
  by (auto simp: moved_def slice_def rest_def)

lemma skip_while_moved:
  "moved l (takeWhile p (rest l)) (skip_while p l)" "rest (skip_while p l) = dropWhile p (rest l)"
proof -
  have "moved l (takeWhile p (rest l)) (skip_while p l) \<and> rest (skip_while p l) = dropWhile p (rest l)"
  proof (induction p l rule: skip_while.induct)
    case (1 p l)
    show ?case
    proof (cases "rest l")
      case Nil
      then show ?thesis by (subst (1 2) skip_while.simps) (simp add: eof_rest)
    next
      case (Cons c r)
      note pk = peek_Cons [OF Cons] and adv = rest_advance [OF Cons]
      show ?thesis
      proof (cases "p c")
        case True
        then have "moved (advance l) (takeWhile p r) (skip_while p (advance l)) \<and> rest (skip_while p (advance l)) = dropWhile p r"
          using "1.IH" pk Cons adv by (simp add: eof_rest)
        with True show ?thesis
          using moved_Cons [OF Cons] by (subst (1 2) skip_while.simps) (simp add: eof_rest Cons pk)
      next
        case False
        then show ?thesis by (subst (1 2) skip_while.simps) (simp add: pk Cons)
      qed
    qed
  qed
  then show "moved l (takeWhile p (rest l)) (skip_while p l)" "rest (skip_while p l) = dropWhile p (rest l)" by auto
qed

lemma moved_Nil: "moved l [] l' \<longleftrightarrow> l' = l"
  by (auto simp: moved_def)

lemma moved_Cons_iff: "moved l (c # w) l' \<longleftrightarrow> (\<exists>r. rest l = c # r) \<and> moved (advance l) w l'"
proof
  assume m: "moved l (c # w) l'"
  then obtain r where r: "rest l = c # r" by (auto simp: moved_def)
  from m moved_advance [OF r] have "moved (advance l) w l'" by (auto simp: moved_def)
  with r show "(\<exists>r. rest l = c # r) \<and> moved (advance l) w l'" by blast
qed (auto intro: moved_Cons)

lemma slice_advance: "rest l = c # r \<Longrightarrow> start \<le> l_pos l \<Longrightarrow> slice (advance l) start = slice l start @ [c]"
proof -
  assume r: "rest l = c # r" and s: "start \<le> l_pos l"
  then have lt: "l_pos l < length (l_src l)" and c: "l_src l ! l_pos l = c"
    by (auto simp: rest_def nth_via_drop intro: ccontr)
  have "take (Suc (l_pos l) - start) (drop start (l_src l)) = take (l_pos l - start) (drop start (l_src l)) @ [c]"
    using lt c s by (simp add: Suc_diff_le take_Suc_conv_app_nth)
  with lt show ?thesis by (simp add: slice_def advance_def eof_def)
qed

lemma pos_advance: "rest l = c # r \<Longrightarrow> l_pos (advance l) = Suc (l_pos l)"
  using moved_advance by (fastforce simp: moved_def)

text \<open>The body of a string: no unescaped quote or newline on one line, no three quotes in a row in the triple form.\<close>

fun line_body :: "char \<Rightarrow> string \<Rightarrow> bool" where
  "line_body q [] = True"
| "line_body q (c # w) =
     (if c = CHR 0x5C then (case w of [] \<Rightarrow> False | d # w' \<Rightarrow> line_body q w')
      else c \<noteq> q \<and> c \<noteq> CHR 0x0A \<and> line_body q w)"

definition triple_body :: "char \<Rightarrow> string \<Rightarrow> bool" where
  "triple_body q w \<longleftrightarrow> \<not> sublist [q, q, q] (w @ [q, q])"


definition line_kind :: "char \<Rightarrow> StringKind" where
  "line_kind q = (if q = CHR 0x22 then StringDouble else StringSingle)"

lemma readLineString_step:
  "rest l = [] \<Longrightarrow> readLineString ln cl q start l = Inl (LexError ''unterminated string'' ln cl)"
  "rest l = [CHR 0x5C] \<Longrightarrow> readLineString ln cl q start l = Inl (LexError ''unterminated string'' ln cl)"
  "rest l = CHR 0x5C # d # r \<Longrightarrow> readLineString ln cl q start l = readLineString ln cl q start (advance (advance l))"
  "rest l = c # r \<Longrightarrow> c \<noteq> CHR 0x5C \<Longrightarrow> readLineString ln cl q start l =
     (if c = q then Inr (str_tok (line_kind q) (slice l start) ln cl, advance l)
      else if c = CHR 0x0A then Inl (LexError ''newline in single-line string'' ln cl)
      else readLineString ln cl q start (advance l))"
proof -
  show nil: "readLineString ln cl q start l = Inl (LexError ''unterminated string'' ln cl)" if "rest l = []" for l
    by (subst readLineString.simps) (simp add: eof_rest that)
  show "readLineString ln cl q start l = Inl (LexError ''unterminated string'' ln cl)" if "rest l = [CHR 0x5C]"
    using nil [OF rest_advance [OF that]] rest_advance [OF that]
    by (subst readLineString.simps) (simp add: eof_rest that Let_def peek_Cons [OF that])
  show "readLineString ln cl q start l = readLineString ln cl q start (advance (advance l))" if "rest l = CHR 0x5C # d # r"
    using rest_advance [OF that] by (subst readLineString.simps) (simp add: eof_rest that Let_def peek_Cons [OF that])
  show "readLineString ln cl q start l =
     (if c = q then Inr (str_tok (line_kind q) (slice l start) ln cl, advance l)
      else if c = CHR 0x0A then Inl (LexError ''newline in single-line string'' ln cl)
      else readLineString ln cl q start (advance l))" if "rest l = c # r" "c \<noteq> CHR 0x5C"
    by (subst readLineString.simps) (simp add: eof_rest that peek_Cons [OF that(1)] line_kind_def)
qed

text \<open>A string token: its body and closing quotes are consumed, and its value is what \<open>start\<close> to here and the body give.\<close>

definition reads :: "(string \<Rightarrow> bool) \<Rightarrow> string \<Rightarrow> (string \<Rightarrow> Token) \<Rightarrow> nat \<Rightarrow> lexer \<Rightarrow> Token \<Rightarrow> lexer \<Rightarrow> bool" where
  "reads B close f start l t l' \<longleftrightarrow> (\<exists>w. B w \<and> moved l (w @ close) l' \<and> t = f (slice l start @ w))"

lemma reads_shift:
  assumes "slice l1 start = slice l start @ u"
    and "\<And>w. B w \<and> moved l (w @ close) l' \<longleftrightarrow> (\<exists>w'. w = u @ w' \<and> B w' \<and> moved l1 (w' @ close) l')"
  shows "reads B close f start l t l' \<longleftrightarrow> reads B close f start l1 t l'"
proof
  assume "reads B close f start l t l'"
  then obtain w where "B w \<and> moved l (w @ close) l'" "t = f (slice l start @ w)" by (auto simp: reads_def)
  with assms(2) [of w] show "reads B close f start l1 t l'" by (auto simp: reads_def assms(1))
next
  assume "reads B close f start l1 t l'"
  then obtain w where w: "B w" "moved l1 (w @ close) l'" "t = f (slice l start @ u @ w)" by (auto simp: reads_def assms(1))
  with assms(2) [of "u @ w"] show "reads B close f start l t l'" by (auto simp: reads_def)
qed

lemma reads_here:
  assumes "\<And>w. B w \<and> moved l (w @ close) l' \<longleftrightarrow> w = [] \<and> l' = l1"
  shows "reads B close f start l t l' \<longleftrightarrow> t = f (slice l start) \<and> l' = l1"
proof
  assume "reads B close f start l t l'"
  then obtain w where "B w \<and> moved l (w @ close) l'" "t = f (slice l start @ w)" by (auto simp: reads_def)
  with assms [of w] show "t = f (slice l start) \<and> l' = l1" by auto
next
  assume "t = f (slice l start) \<and> l' = l1"
  with assms [of "[]"] show "reads B close f start l t l'" by (auto simp: reads_def)
qed

lemma reads_never: "(\<And>w. \<not> (B w \<and> moved l (w @ close) l')) \<Longrightarrow> \<not> reads B close f start l t l'"
  by (auto simp: reads_def)

lemma readLineString_iff:
  assumes "q \<noteq> CHR 0x5C" "q \<noteq> CHR 0x0A" "start \<le> l_pos l"
  shows "readLineString ln cl q start l = Inr (t, l') \<longleftrightarrow>
    reads (line_body q) [q] (\<lambda>v. str_tok (line_kind q) v ln cl) start l t l'"
  using assms
proof (induction q "rest l" arbitrary: l rule: line_body.induct)
  case (1 q)
  then show ?case by (simp add: readLineString_step(1) [OF "1.hyps" [symmetric]] moved_def reads_def)
next
  case (2 q c s)
  note r = "2.hyps"(3) [symmetric]
  note adv = rest_advance [OF r] and sl = slice_advance [OF r "2.prems"(3)] and ps = pos_advance [OF r]
  show ?case
  proof (cases "c = CHR 0x5C")
    case esc: True
    show ?thesis
    proof (cases s)
      case Nil
      have "\<not> (line_body q w \<and> moved l (w @ [q]) l')" for w
        using r Nil esc "2.prems" by (cases w) (auto simp: moved_def split: list.splits)
      with readLineString_step(2) r Nil esc show ?thesis by (simp add: reads_never)
    next
      case (Cons d s')
      note adv' = adv [unfolded Cons]
      have sl': "slice (advance (advance l)) start = slice l start @ [c, d]"
        using slice_advance [OF adv', of start] sl ps "2.prems"(3) by simp
      have "line_body q w \<and> moved l (w @ [q]) l' \<longleftrightarrow> (\<exists>w'. w = [c, d] @ w' \<and> line_body q w' \<and> moved (advance (advance l)) (w' @ [q]) l')" for w
        using r adv' esc "2.prems" by (cases w) (auto simp: moved_Cons_iff split: list.splits)
      note sh = reads_shift [OF sl' this]
      have "readLineString ln cl q start l = readLineString ln cl q start (advance (advance l))"
        using readLineString_step(3) r Cons esc by simp
      then show ?thesis
        using "2.hyps"(1) [OF esc, of d "advance (advance l)"] Cons rest_advance [OF adv'] "2.prems" ps pos_advance [OF adv'] sh by simp
    qed
  next
    case nesc: False
    note st = readLineString_step(4) [OF r nesc, of ln cl q start]
    consider (quote) "c = q" | (nl) "c \<noteq> q" "c = CHR 0x0A" | (other) "c \<noteq> q" "c \<noteq> CHR 0x0A" by blast
    then show ?thesis
    proof cases
      case quote
      have "line_body q w \<and> moved l (w @ [q]) l' \<longleftrightarrow> w = [] \<and> l' = advance l" for w
        using r nesc quote by (cases w) (auto simp: moved_Cons_iff moved_Nil)
      then show ?thesis using st quote by (auto simp: reads_here)
    next
      case nl
      have "\<not> (line_body q w \<and> moved l (w @ [q]) l')" for w
        using r nesc nl by (cases w) (auto simp: moved_Cons_iff moved_Nil)
      then show ?thesis using st nl by (simp add: reads_never)
    next
      case other
      have "line_body q w \<and> moved l (w @ [q]) l' \<longleftrightarrow> (\<exists>w'. w = [c] @ w' \<and> line_body q w' \<and> moved (advance l) (w' @ [q]) l')" for w
        using r nesc other by (cases w) (auto simp: moved_Cons_iff moved_Nil)
      from reads_shift [OF sl this] show ?thesis
        using st other "2.hyps"(2) [OF nesc adv [symmetric]] "2.prems" ps by simp
    qed
  qed
qed

definition triple_kind :: "char \<Rightarrow> StringKind" where
  "triple_kind q = (if q = CHR 0x22 then StringTripleDouble else StringTripleSingle)"

lemma triple_body_Nil: "triple_body q []"
  by (auto simp: triple_body_def dest: sublist_length_le)

lemma triple_body_Cons: "\<not> prefix [q, q, q] (c # w @ [q, q]) \<Longrightarrow> triple_body q (c # w) \<longleftrightarrow> triple_body q w"
  by (simp add: triple_body_def sublist_Cons_right)

lemma triple_body_late:
  assumes "w @ q # q # q # u = q # q # q # s" "w \<noteq> []"
  shows "\<not> triple_body q w"
proof -
  have "prefix [q, q, q] (w @ [q, q])"
  proof (cases w)
    case (Cons a w1)
    then show ?thesis using assms by (cases w1; cases "tl w1") (auto simp: prefix_def)
  qed (use assms(2) in simp)
  then show ?thesis by (auto simp: triple_body_def)
qed

lemma not_three_quotes:
  assumes "\<nexists>s. rest l = q # q # q # s"
  shows "\<not> (peek l = q \<and> peekAt 1 l = q \<and> peekAt 2 l = q) \<or> q = CHR 0x00 \<or> rest l = []"
proof (cases "length (rest l) < 3")
  case True
  then show ?thesis by (auto simp: peekAt_rest)
next
  case False
  then have "length (rest l) = Suc (Suc (Suc (length (rest l) - 3)))" by simp
  then obtain a b c s where r: "rest l = a # b # c # s" by (auto simp only: length_Suc_conv)
  with assms peek_Cons [OF r] show ?thesis by (auto simp: peekAt_rest)
qed

lemma readTripleString_iff:
  assumes "q \<noteq> CHR 0x00" "start \<le> l_pos l"
  shows "readTripleString ln cl q start l = Inr (t, l') \<longleftrightarrow>
    reads (triple_body q) [q, q, q] (\<lambda>v. str_tok (triple_kind q) v ln cl) start l t l'"
  using assms
proof (induction "rest l" arbitrary: l)
  case Nil
  then show ?case by (subst readTripleString.simps) (simp add: eof_rest moved_def reads_def)
next
  case (Cons c s)
  note r = Cons.hyps(2) [symmetric]
  note adv = rest_advance [OF r] and sl = slice_advance [OF r Cons.prems(2)] and ps = pos_advance [OF r]
  show ?case
  proof (cases "\<exists>s'. rest l = q # q # q # s'")
    case True
    then obtain s' where s': "rest l = q # q # q # s'" by blast
    then have "rest (advance l) = q # q # s'" "rest (advance (advance l)) = q # s'" using rest_advance by blast+
    then have m: "moved l [q, q, q] l' \<longleftrightarrow> l' = advance (advance (advance l))" using s' by (auto simp: moved_Cons_iff moved_Nil)
    have "triple_body q w \<and> moved l (w @ [q, q, q]) l' \<longleftrightarrow> w = [] \<and> l' = advance (advance (advance l))" for w
      using m triple_body_Nil triple_body_late [of w q "rest l'" s'] s' by (cases "w = []") (auto dest: moved_rest)
    moreover have "readTripleString ln cl q start l = Inr (str_tok (triple_kind q) (slice l start) ln cl, advance (advance (advance l)))"
      using s' by (subst readTripleString.simps) (simp add: eof_rest peek_Cons [OF s'] peekAt_rest triple_kind_def)
    ultimately show ?thesis by (auto simp: reads_here)
  next
    case False
    have "moved l (w @ [q, q, q]) l' \<longleftrightarrow> (\<exists>w'. w = [c] @ w' \<and> moved (advance l) (w' @ [q, q, q]) l')" for w
      using r False moved_rest [of l "[q, q, q]" l'] by (cases w) (auto simp: moved_Cons_iff)
    moreover have "triple_body q (c # w) \<longleftrightarrow> triple_body q w" if "moved l (c # w @ [q, q, q]) l'" for w
    proof (rule triple_body_Cons)
      show "\<not> prefix [q, q, q] (c # w @ [q, q])"
        using False moved_rest [OF that] by (auto simp: prefix_def append_eq_Cons_conv Cons_eq_append_conv)
    qed
    ultimately have "triple_body q w \<and> moved l (w @ [q, q, q]) l' \<longleftrightarrow>
        (\<exists>w'. w = [c] @ w' \<and> triple_body q w' \<and> moved (advance l) (w' @ [q, q, q]) l')" for w
      by (metis append_Cons append_Nil)
    note sh = reads_shift [OF sl this]
    have "readTripleString ln cl q start l = readTripleString ln cl q start (advance l)"
      using not_three_quotes [OF False] Cons.prems(1) r by (subst readTripleString.simps) (auto simp: eof_rest)
    then show ?thesis using Cons.hyps(1) [OF adv [symmetric]] Cons.prems ps sh by simp
  qed
qed

section \<open>Blanks and comments, declaratively\<close>

lemma moved_append: "moved l (w @ v) l' \<longleftrightarrow> (\<exists>l1. moved l w l1 \<and> moved l1 v l')"
  by (induction w arbitrary: l) (auto simp: moved_Nil moved_Cons_iff)

lemma moved_unique: "moved l w l1 \<Longrightarrow> moved l w l2 \<Longrightarrow> l1 = l2"
  by (induction w arbitrary: l) (auto simp: moved_Nil moved_Cons_iff)

text \<open>\<open>clean s\<close>: \<open>s\<close> does not start with a blank or a comment. \<open>gap g s\<close>: \<open>g\<close> is the blanks and comments before \<open>s\<close>.\<close>

definition clean :: "string \<Rightarrow> bool" where
  "clean s \<longleftrightarrow> s = [] \<or> hd s \<notin> {CHR '' '', CHR 0x09, CHR 0x0D} \<and> \<not> prefix ''//'' s \<and> \<not> prefix ''/*'' s"

inductive gap :: "string \<Rightarrow> string \<Rightarrow> bool" where
  gap_Nil: "clean s \<Longrightarrow> gap [] s"
| gap_blank: "c \<in> {CHR '' '', CHR 0x09, CHR 0x0D} \<Longrightarrow> gap g s \<Longrightarrow> gap (c # g) s"
| gap_line: "CHR 0x0A \<notin> set b \<Longrightarrow> s = [] \<or> hd s = CHR 0x0A \<Longrightarrow> gap (''//'' @ b) s"
| gap_block: "\<not> sublist ''*/'' b \<Longrightarrow> gap g s \<Longrightarrow> gap (''/*'' @ b @ ''*/'' @ g) s"

lemma gap_clean: "gap g s \<Longrightarrow> clean s"
  by (induction rule: gap.induct) (auto simp: clean_def neq_Nil_conv)

lemma skip_line_while: "skip_line l = skip_while (\<lambda>c. c \<noteq> CHR 0x0A) l"
  by (induction l rule: skip_line.induct) (subst skip_line.simps, subst skip_while.simps, auto)

lemma prefix2: "prefix [a, b] (rest l) \<longleftrightarrow> \<not> eof l \<and> peek l = a \<and> (\<exists>r. rest l = a # b # r)"
  using peek_Cons by (auto simp: prefix_def eof_rest)

lemma peek2: "b \<noteq> CHR 0x00 \<Longrightarrow> \<not> eof l \<Longrightarrow> peek l = a \<and> peekAt 1 l = b \<longleftrightarrow> prefix [a, b] (rest l)"
proof -
  assume b: "b \<noteq> CHR 0x00" "\<not> eof l"
  then obtain r where r: "rest l = peek l # r" using rest_peek by blast
  then have "peekAt 1 l = (case r of [] \<Rightarrow> CHR 0x00 | d # _ \<Rightarrow> d)" by (cases r) (simp_all add: peekAt_rest)
  with b r show ?thesis by (cases r) (auto simp: prefix_def)
qed

lemma skip_block_iff: "skip_block l = Some l' \<longleftrightarrow> (\<exists>b. \<not> sublist ''*/'' b \<and> moved l (b @ ''*/'') l')"
proof (induction "rest l" arbitrary: l)
  case Nil
  then show ?case by (subst skip_block.simps) (simp add: eof_rest moved_def)
next
  case (Cons c s)
  note r = Cons.hyps(2) [symmetric]
  have ne: "\<not> eof l" by (simp add: eof_rest r)
  show ?case
  proof (cases "prefix ''*/'' (rest l)")
    case True
    then obtain s' where s': "rest l = CHR ''*'' # CHR ''/'' # s'" by (auto simp: prefix_def)
    then have a: "rest (advance l) = CHR ''/'' # s'" by (rule rest_advance)
    have "skip_block l = Some (advance (advance l))"
      using ne True peek2 [of "CHR ''/''" l "CHR ''*''"] by (subst skip_block.simps) simp
    moreover have "\<not> sublist ''*/'' b \<and> moved l (b @ ''*/'') l' \<longleftrightarrow> b = [] \<and> l' = advance (advance l)" for b
      using s' a by (cases b; cases "tl b") (auto simp: moved_Cons_iff moved_Nil sublist_Cons_right)
    ultimately show ?thesis by auto
  next
    case False
    have "skip_block l = skip_block (advance l)"
      using ne False peek2 [of "CHR ''/''" l "CHR ''*''"] by (subst skip_block.simps) auto
    moreover have "\<not> sublist ''*/'' b \<and> moved l (b @ ''*/'') l' \<longleftrightarrow>
        (\<exists>b'. b = c # b' \<and> \<not> sublist ''*/'' b' \<and> moved (advance l) (b' @ ''*/'') l')" (is "?L b \<longleftrightarrow> ?R b") for b
    proof (cases b)
      case Nil
      then show ?thesis using False moved_rest [of l "''*/''" l'] by (auto simp: prefix_def)
    next
      case (Cons d b')
      have "prefix ''*/'' (d # b') \<Longrightarrow> moved l (b @ ''*/'') l' \<Longrightarrow> False"
        using False Cons moved_rest [of l "b @ ''*/''" l'] by (auto simp: prefix_def)
      then show ?thesis using Cons r by (auto simp: moved_Cons_iff sublist_Cons_right)
    qed
    ultimately show ?thesis using Cons.hyps(1) [OF rest_advance [OF r, symmetric]] by auto
  qed
qed

lemma skip_step:
  "clean (rest l) \<Longrightarrow> skipSpaceAndComments l = Inr l"
  "rest l = c # r \<Longrightarrow> c \<in> {CHR '' '', CHR 0x09, CHR 0x0D} \<Longrightarrow> skipSpaceAndComments l = skipSpaceAndComments (advance l)"
  "prefix ''//'' (rest l) \<Longrightarrow> skipSpaceAndComments l = skipSpaceAndComments (skip_line l)"
  "prefix ''/*'' (rest l) \<Longrightarrow> skipSpaceAndComments l = (case skip_block (advance (advance l)) of
     None \<Rightarrow> Inl (LexError ''unterminated block comment'' (l_line l) (l_col l)) | Some l' \<Rightarrow> skipSpaceAndComments l')"
proof -
  have p: "\<not> eof l \<Longrightarrow> peek l = CHR ''/'' \<and> peekAt 1 l = CHR ''/'' \<longleftrightarrow> prefix ''//'' (rest l)"
    "\<not> eof l \<Longrightarrow> peek l = CHR ''/'' \<and> peekAt 1 l = CHR ''*'' \<longleftrightarrow> prefix ''/*'' (rest l)" for l
    by (rule peek2; simp)+
  show "skipSpaceAndComments l = Inr l" if "clean (rest l)"
    using that p [of l] rest_peek [of l] by (subst skipSpaceAndComments.simps) (auto simp: clean_def eof_rest)
  show "skipSpaceAndComments l = skipSpaceAndComments (advance l)" if "rest l = c # r" "c \<in> {CHR '' '', CHR 0x09, CHR 0x0D}"
    using that peek_Cons [OF that(1)] by (subst skipSpaceAndComments.simps) (auto simp: eof_rest)
  show "skipSpaceAndComments l = skipSpaceAndComments (skip_line l)" if "prefix ''//'' (rest l)"
    using that p [of l] prefix2 by (subst skipSpaceAndComments.simps) auto
  show "skipSpaceAndComments l = (case skip_block (advance (advance l)) of
     None \<Rightarrow> Inl (LexError ''unterminated block comment'' (l_line l) (l_col l)) | Some l' \<Rightarrow> skipSpaceAndComments l')" if "prefix ''/*'' (rest l)"
  proof -
    have "\<not> prefix ''//'' (rest l)" "peek l = CHR ''/''" "\<not> eof l" using that prefix2 by (auto simp: prefix_def)
    then show ?thesis using that p [of l] by (subst skipSpaceAndComments.simps) simp
  qed
qed

lemma skip_sound: "skipSpaceAndComments l = Inr l' \<Longrightarrow> \<exists>g. moved l g l' \<and> gap g (rest l')"
proof (induction "left l" arbitrary: l rule: less_induct)
  case less
  consider (clean) "clean (rest l)" | (blank) c r where "rest l = c # r" "c \<in> {CHR '' '', CHR 0x09, CHR 0x0D}"
    | (line) "prefix ''//'' (rest l)" | (block) "prefix ''/*'' (rest l)"
    unfolding clean_def by (metis list.collapse)
  then show ?case
  proof cases
    case clean
    with less.prems skip_step(1) have "l' = l" by simp
    with clean show ?thesis using moved_refl gap_Nil by blast
  next
    case (blank c r)
    then have "left (advance l) < left l" by (simp add: eof_rest)
    with less blank skip_step(2) obtain g where "moved (advance l) g l'" "gap g (rest l')" by metis
    then show ?thesis using moved_Cons [OF blank(1)] gap_blank [OF blank(2)] by blast
  next
    case line
    let ?w = "takeWhile (\<lambda>c. c \<noteq> CHR 0x0A) (rest l)"
    have m: "moved l ?w (skip_line l)" and r: "rest (skip_line l) = dropWhile (\<lambda>c. c \<noteq> CHR 0x0A) (rest l)"
      using skip_while_moved by (simp_all add: skip_line_while)
    have e: "rest (skip_line l) = [] \<or> hd (rest (skip_line l)) = CHR 0x0A"
      unfolding r using hd_dropWhile [of "\<lambda>c. c \<noteq> CHR 0x0A" "rest l"] by auto
    then have "clean (rest (skip_line l))" by (auto simp: clean_def neq_Nil_conv)
    then have "l' = skip_line l" using less.prems skip_step(1,3) line by simp
    moreover obtain b where "?w = ''//'' @ b" "CHR 0x0A \<notin> set b"
      using line set_takeWhileD [of "CHR 0x0A" "\<lambda>c. c \<noteq> CHR 0x0A" "rest l"] by (fastforce simp: prefix_def)
    ultimately show ?thesis using m e gap_line by metis
  next
    case block
    then obtain s where s: "rest l = CHR ''/'' # CHR ''*'' # s" by (auto simp: prefix_def)
    note a = rest_advance [OF s]
    from less.prems block skip_step(4) obtain l1 where l1: "skip_block (advance (advance l)) = Some l1" "skipSpaceAndComments l1 = Inr l'"
      by (auto split: option.splits)
    have "left (advance l) < left l" using s by (simp add: eof_rest)
    then have "left l1 < left l" using left_skip_block [OF l1(1)] le_less_trans left_advance_le order_trans by metis
    with less.hyps l1(2) obtain g where g: "moved l1 g l'" "gap g (rest l')" by blast
    obtain b where b: "\<not> sublist ''*/'' b" "moved (advance (advance l)) (b @ ''*/'') l1" using l1(1) by (auto simp: skip_block_iff)
    have "moved l (''/*'' @ b @ ''*/'' @ g) l'" using moved_trans [OF b(2) g(1)] s a by (simp add: moved_Cons_iff)
    with gap_block [OF b(1) g(2)] show ?thesis by blast
  qed
qed

lemma skip_complete: "gap g s \<Longrightarrow> moved l g l' \<Longrightarrow> rest l' = s \<Longrightarrow> skipSpaceAndComments l = Inr l'"
proof (induction arbitrary: l rule: gap.induct)
  case (gap_Nil s)
  then show ?case using skip_step(1) by (simp add: moved_Nil)
next
  case (gap_blank c g s)
  then show ?case using skip_step(2) by (auto simp: moved_Cons_iff)
next
  case (gap_line b s)
  then have r: "rest l = ''//'' @ b @ s" by (auto simp: moved_def)
  have "takeWhile (\<lambda>c. c \<noteq> CHR 0x0A) (rest l) = ''//'' @ b"
    using gap_line.hyps by (cases s) (auto simp: r takeWhile_tail)
  then have "moved l (''//'' @ b) (skip_line l)" using skip_while_moved(1) [of l "\<lambda>c. c \<noteq> CHR 0x0A"] by (simp add: skip_line_while)
  then have "skip_line l = l'" using gap_line.prems(1) by (rule moved_unique)
  moreover have "clean (rest l')" using gap_line by (auto simp: clean_def neq_Nil_conv)
  ultimately show ?case using skip_step(1,3) r by simp
next
  case (gap_block b g s)
  then have p: "prefix ''/*'' (rest l)" and "moved (advance (advance l)) ((b @ ''*/'') @ g) l'"
    using moved_rest [of l "''/*'' @ b @ ''*/'' @ g" l'] by (auto simp: moved_Cons_iff)
  then obtain l1 where l1: "moved (advance (advance l)) (b @ ''*/'') l1" "moved l1 g l'" by (auto simp only: moved_append)
  then have "skip_block (advance (advance l)) = Some l1" using gap_block.hyps(1) by (auto simp: skip_block_iff)
  moreover have "skipSpaceAndComments l1 = Inr l'" using gap_block.IH l1(2) gap_block.prems(2) by blast
  ultimately show ?case using skip_step(4) [OF p] by simp
qed

section \<open>Tokens, declaratively\<close>

text \<open>
  \<open>lexeme t\<close> is the source text of \<open>t\<close>; \<open>tok_shape t\<close> says which texts are tokens of its kind; \<open>munch t r\<close> that the token
  could not go on into \<open>r\<close>.
\<close>

definition quotes :: "StringKind \<Rightarrow> string" where
  "quotes k = (case k of StringNotApplicable \<Rightarrow> [] | StringSingle \<Rightarrow> [CHR 0x27] | StringDouble \<Rightarrow> [CHR 0x22]
     | StringTripleSingle \<Rightarrow> replicate 3 CHR 0x27 | StringTripleDouble \<Rightarrow> replicate 3 CHR 0x22)"

definition lexeme :: "Token \<Rightarrow> string" where
  "lexeme t = (case Kind t of TokNewline \<Rightarrow> [CHR 0x0A] | TokEOF \<Rightarrow> [] | TokAnnotation \<Rightarrow> CHR ''@'' # Value t
     | TokString \<Rightarrow> quotes (tok_StringKind t) @ Value t @ quotes (tok_StringKind t) | _ \<Rightarrow> Value t)"

definition ident_text :: "string \<Rightarrow> bool" where
  "ident_text v \<longleftrightarrow> v \<noteq> [] \<and> isIdentStart (hd v) \<and> list_all isIdentPart v"

definition string_body :: "StringKind \<Rightarrow> string \<Rightarrow> bool" where
  "string_body k v = (case k of StringNotApplicable \<Rightarrow> False | StringSingle \<Rightarrow> line_body CHR 0x27 v | StringDouble \<Rightarrow> line_body CHR 0x22 v
     | StringTripleSingle \<Rightarrow> triple_body CHR 0x27 v | StringTripleDouble \<Rightarrow> triple_body CHR 0x22 v)"

definition tok_shape :: "Token \<Rightarrow> bool" where
  "tok_shape t = ((Kind t \<noteq> TokString \<longrightarrow> tok_StringKind t = StringNotApplicable) \<and> (case Kind t of
       TokIdent \<Rightarrow> ident_text (Value t) \<and> Value t \<notin> set keyword_list
     | TokKeyword \<Rightarrow> ident_text (Value t) \<and> Value t \<in> set keyword_list
     | TokString \<Rightarrow> string_body (tok_StringKind t) (Value t)
     | TokNumber \<Rightarrow> Value t \<noteq> [] \<and> list_all is_digit (Value t)
     | TokOperator \<Rightarrow> Value t \<in> set twoChars \<or> (\<exists>c \<in> set ''=+-.:?!<>*/''. Value t = [c])
     | TokNewline \<Rightarrow> Value t = []
     | TokAnnotation \<Rightarrow> ident_text (Value t)
     | TokEOF \<Rightarrow> Value t = []
     | k \<Rightarrow> (\<exists>c. Value t = [c] \<and> map_of punct c = Some k)))"

definition munch :: "Token \<Rightarrow> string \<Rightarrow> bool" where
  "munch t r = (case Kind t of
       TokIdent \<Rightarrow> r = [] \<or> \<not> isIdentPart (hd r) | TokKeyword \<Rightarrow> r = [] \<or> \<not> isIdentPart (hd r) | TokAnnotation \<Rightarrow> r = [] \<or> \<not> isIdentPart (hd r)
     | TokNumber \<Rightarrow> r = [] \<or> \<not> is_digit (hd r)
     | TokString \<Rightarrow> Value t = [] \<and> length (quotes (tok_StringKind t)) = 1 \<longrightarrow> r = [] \<or> [hd r] \<noteq> quotes (tok_StringKind t)
     | TokOperator \<Rightarrow> length (Value t) = 1 \<longrightarrow> r = [] \<or> [hd (Value t), hd r] \<notin> set twoChars
     | TokEOF \<Rightarrow> r = []
     | _ \<Rightarrow> True)"

lemma mkTok_simps [simp]:
  "Kind (mkTok k v a b) = k" "Value (mkTok k v a b) = v" "Line (mkTok k v a b) = a" "Col (mkTok k v a b) = b"
  "tok_StringKind (mkTok k v a b) = StringNotApplicable"
  by (simp_all add: mkTok_def)

lemma str_tok_simps [simp]:
  "Kind (str_tok k v a b) = TokString" "Value (str_tok k v a b) = v" "Line (str_tok k v a b) = a" "Col (str_tok k v a b) = b"
  "tok_StringKind (str_tok k v a b) = k"
  by (simp_all add: str_tok_def)

lemma run_moved:
  assumes "p c" "rest l = c # r"
  shows "moved l (c # takeWhile p r) (skip_while p l)" "rest (skip_while p l) = dropWhile p r"
  using skip_while_moved [where l = l and p = p] assms by simp_all

lemma run_unique:
  assumes "moved l v l'" "list_all p v" "rest l' = [] \<or> \<not> p (hd (rest l'))"
  shows "skip_while p l = l'"
proof -
  have "takeWhile p (rest l) = v"
    using assms by (cases "rest l'") (auto simp: moved_def list_all_iff takeWhile_tail)
  then show ?thesis using skip_while_moved(1) [of l p] moved_unique assms(1) by simp
qed

lemma dropWhile_stop: "dropWhile p s = [] \<or> \<not> p (hd (dropWhile p s))"
  using hd_dropWhile by blast

text \<open>Which first bytes start which kind of token.\<close>

lemma not_ident_start:
  "\<not> isIdentStart CHR 0x0A" "\<not> isIdentStart CHR 0x22" "\<not> isIdentStart CHR 0x27" "\<not> isIdentStart CHR ''@''"
  "\<not> is_digit CHR 0x0A" "\<not> is_digit CHR 0x22" "\<not> is_digit CHR 0x27" "\<not> is_digit CHR ''@'' "
  by (simp_all add: isIdentStart_def is_letter_def char_between_def is_digit_def less_eq_char_def)

lemma digit_not_start: "is_digit c \<Longrightarrow> \<not> isIdentStart c"
  by (auto simp: isIdentStart_def is_letter_def char_between_def is_digit_def less_eq_char_def)

lemma start_part: "isIdentStart c \<Longrightarrow> isIdentPart c"
  by (simp add: isIdentPart_def)

definition plain_start :: "char \<Rightarrow> bool" where
  "plain_start c \<longleftrightarrow> c \<notin> {CHR 0x0A, CHR 0x22, CHR 0x27, CHR ''@''} \<and> \<not> isIdentStart c \<and> \<not> is_digit c"

lemma list_all_plain: "list_all plain_start ''=+-.:?!<>*/&|{}()[],;''"
  by (simp add: plain_start_def isIdentStart_def is_letter_def char_between_def is_digit_def less_eq_char_def)

lemma op_start: "c \<in> set ''=+-.:?!<>*/&|'' \<Longrightarrow> plain_start c \<and> map_of punct c = None"
  using list_all_plain by (auto simp: punct_def)

lemma punct_start: "map_of punct c = Some k \<Longrightarrow> plain_start c"
  using list_all_plain by (auto simp: punct_def split: if_splits)

lemma two_start: "[c, d] \<in> set twoChars \<Longrightarrow> plain_start c \<and> map_of punct c = None"
  by (rule op_start) (auto simp: twoChars_def)

lemma two_length: "v \<in> set twoChars \<Longrightarrow> \<exists>c d. v = [c, d]"
  by (auto simp: twoChars_def)

text \<open>A token read at \<open>l\<close>, ending at \<open>l'\<close>.\<close>

definition tok_read :: "lexer \<Rightarrow> Token \<Rightarrow> lexer \<Rightarrow> bool" where
  "tok_read l t l' \<longleftrightarrow> moved l (lexeme t) l' \<and> Line t = l_line l \<and> Col t = l_col l \<and> tok_shape t \<and> munch t (rest l')"

lemma readIdent_read:
  assumes "rest l = c # r" "isIdentStart c" "readIdent (l_line l) (l_col l) l = (t, l')"
  shows "tok_read l t l'"
proof -
  note m = run_moved [of isIdentPart, OF start_part [OF assms(2)] assms(1)]
  have l': "l' = skip_while isIdentPart l" and t: "Kind t = (if c # takeWhile isIdentPart r \<in> set keyword_list then TokKeyword else TokIdent)"
      "Value t = c # takeWhile isIdentPart r" "Line t = l_line l" "Col t = l_col l" "tok_StringKind t = StringNotApplicable"
    using assms(3) slice_moved [OF m(1)] by (auto simp: readIdent_def Let_def)
  have "ident_text (Value t)" using assms(2) start_part by (auto simp: t ident_text_def list_all_iff dest: set_takeWhileD)
  then show ?thesis
    using m dropWhile_stop [of isIdentPart r] by (auto simp: tok_read_def t l' lexeme_def tok_shape_def munch_def)
qed

lemma readNumber_read:
  assumes "rest l = c # r" "is_digit c" "readNumber (l_line l) (l_col l) l = (t, l')"
  shows "tok_read l t l'"
proof -
  note m = run_moved [of is_digit, OF assms(2,1)]
  have l': "l' = skip_while is_digit l" and t: "t = mkTok TokNumber (c # takeWhile is_digit r) (l_line l) (l_col l)"
    using assms(3) slice_moved [OF m(1)] by (auto simp: readNumber_def Let_def)
  show ?thesis
    using m dropWhile_stop [of is_digit r] assms(2)
    by (auto simp: tok_read_def t l' lexeme_def tok_shape_def munch_def list_all_iff dest: set_takeWhileD)
qed

lemma readAnnotation_read:
  assumes "rest l = CHR ''@'' # c # r" "isIdentStart c" "readAnnotation (l_line l) (l_col l) (advance l) = (t, l')"
  shows "tok_read l t l'"
proof -
  note m = run_moved [of isIdentPart, OF start_part [OF assms(2)] rest_advance [OF assms(1)]]
  have l': "l' = skip_while isIdentPart (advance l)" and t: "t = mkTok TokAnnotation (c # takeWhile isIdentPart r) (l_line l) (l_col l)"
    using assms(3) slice_moved [OF m(1)] by (auto simp: readAnnotation_def Let_def)
  have "ident_text (Value t)" using assms(2) start_part by (auto simp: t ident_text_def list_all_iff dest: set_takeWhileD)
  then show ?thesis
    using m dropWhile_stop [of isIdentPart r] assms(1) by (auto simp: tok_read_def t l' lexeme_def tok_shape_def munch_def moved_Cons_iff)
qed

lemma kind_quotes:
  "q = CHR 0x27 \<or> q = CHR 0x22 \<Longrightarrow> quotes (line_kind q) = [q] \<and> quotes (triple_kind q) = [q, q, q]
     \<and> string_body (line_kind q) v = line_body q v \<and> string_body (triple_kind q) v = triple_body q v"
  by (auto simp: quotes_def line_kind_def triple_kind_def string_body_def numeral_3_eq_3)

lemma three_quotes: "q \<noteq> CHR 0x00 \<Longrightarrow> rest l = q # r \<Longrightarrow> peekAt 1 l = q \<and> peekAt 2 l = q \<longleftrightarrow> (\<exists>s. r = q # q # s)"
  using not_three_quotes [of l q] by (cases r; cases "tl r") (auto simp: peek_Cons peekAt_rest)

lemma readString_iff:
  assumes q: "q = CHR 0x27 \<or> q = CHR 0x22" and r: "rest l = q # r"
  shows "readString ln cl l = Inr (t, l') \<longleftrightarrow>
    (\<exists>v. t = str_tok (line_kind q) v ln cl \<and> line_body q v \<and> moved l ([q] @ v @ [q]) l' \<and> (v = [] \<longrightarrow> rest l' = [] \<or> hd (rest l') \<noteq> q))
    \<or> (\<exists>v. t = str_tok (triple_kind q) v ln cl \<and> triple_body q v \<and> moved l ([q, q, q] @ v @ [q, q, q]) l')"
proof -
  have nz: "q \<noteq> CHR 0x00" "q \<noteq> CHR 0x5C" "q \<noteq> CHR 0x0A" using q by auto
  have sl: "slice l1 (l_pos l1) = []" for l1 by (simp add: slice_def)
  show ?thesis
  proof (cases "\<exists>s. r = q # q # s")
    case True
    then obtain s where s: "rest l = q # q # q # s" using r by blast
    have adv: "rest (advance l) = q # q # s" "rest (advance (advance l)) = q # s" using rest_advance s rest_advance [of "advance l"] by auto
    have "readString ln cl l = readTripleString ln cl q (l_pos (advance (advance (advance l)))) (advance (advance (advance l)))"
      using three_quotes [OF nz(1) r] True peek_Cons [OF r] by (simp add: readString_def Let_def)
    moreover have "\<not> (line_body q v \<and> moved l ([q] @ v @ [q]) l' \<and> (v = [] \<longrightarrow> rest l' = [] \<or> hd (rest l') \<noteq> q))" for v
      using moved_rest [of l "[q] @ v @ [q]" l'] s nz by (cases v; cases "rest l'") (auto split: if_splits)
    ultimately show ?thesis
      using readTripleString_iff [OF nz(1) order_refl, of ln cl "advance (advance (advance l))" t l'] adv s
      by (auto simp: reads_def sl moved_Cons_iff)
  next
    case False
    have "readString ln cl l = readLineString ln cl q (l_pos (advance l)) (advance l)"
      using three_quotes [OF nz(1) r] False peek_Cons [OF r] by (auto simp: readString_def Let_def)
    moreover have "\<not> moved l ([q, q, q] @ v @ [q, q, q]) l'" for v
      using moved_rest [of l "[q, q, q] @ v @ [q, q, q]" l'] False r by auto
    moreover have "v = [] \<Longrightarrow> moved l ([q] @ v @ [q]) l' \<Longrightarrow> rest l' = [] \<or> hd (rest l') \<noteq> q" for v
      using moved_rest [of l "[q] @ v @ [q]" l'] False r by (cases "rest l'") auto
    ultimately show ?thesis
      using readLineString_iff [OF nz(2,3) order_refl, of ln cl "advance l" t l'] r
      by (auto simp: reads_def sl moved_Cons_iff)
  qed
qed

lemma readString_read:
  assumes "q = CHR 0x27 \<or> q = CHR 0x22" "rest l = q # r" "readString (l_line l) (l_col l) l = Inr (t, l')"
  shows "tok_read l t l'"
  using assms(3) kind_quotes [OF assms(1)] unfolding readString_iff [OF assms(1,2)]
  by (auto simp: tok_read_def lexeme_def tok_shape_def munch_def)

lemma readPunct_read:
  assumes "rest l = c # r" "readPunctOrOperator (l_line l) (l_col l) l = Inr (t, l')"
  shows "tok_read l t l'"
proof (cases "map_of punct c")
  case (Some k)
  then have "t = mkTok k [c] (l_line l) (l_col l)" "l' = advance l" "k \<in> {TokLBrace, TokRBrace, TokLParen, TokRParen, TokLBracket, TokRBracket, TokComma, TokSemicolon}"
    using assms by (auto simp: readPunctOrOperator_def peek_Cons [OF assms(1)] punct_def split: if_splits)
  with Some show ?thesis using moved_advance [OF assms(1)]
    by (auto simp: tok_read_def lexeme_def tok_shape_def munch_def)
next
  case None
  show ?thesis
  proof (cases "[c, peekAt 1 l] \<in> set twoChars")
    case True
    have "peekAt 1 l \<noteq> CHR 0x00" using True by (auto simp: twoChars_def)
    then obtain r' where r': "r = peekAt 1 l # r'" using assms(1) by (cases r) (auto simp: peekAt_rest)
    have "t = mkTok TokOperator [c, peekAt 1 l] (l_line l) (l_col l)" "l' = advance (advance l)"
      using assms(2) None True by (auto simp: readPunctOrOperator_def peek_Cons [OF assms(1)])
    with True r' assms(1) rest_advance [OF assms(1)] show ?thesis
      by (simp add: tok_read_def lexeme_def tok_shape_def munch_def moved_Cons_iff)
  next
    case False
    then have t: "t = mkTok TokOperator [c] (l_line l) (l_col l)" "l' = advance l" "c \<in> set ''=+-.:?!<>*/''"
      using assms(2) None by (auto simp: readPunctOrOperator_def peek_Cons [OF assms(1)] split: if_splits)
    have "r = [] \<or> peekAt 1 l = hd r" using assms(1) by (cases r) (auto simp: peekAt_rest)
    then have "munch t (rest l')" using False rest_advance [OF assms(1)] by (auto simp: munch_def t(1,2))
    then show ?thesis using moved_advance [OF assms(1)] t(3)
      unfolding tok_read_def by (auto simp: t(1,2) lexeme_def tok_shape_def)
  qed
qed

lemma read_tok_sound:
  assumes "read_tok l = Inr (t, l')"
  shows "tok_read l t l'"
proof (cases "rest l")
  case Nil
  then have "t = mkTok TokEOF '''' (l_line l) (l_col l)" "l' = l" using assms by (auto simp: read_tok_def eof_rest)
  with Nil show ?thesis by (simp add: tok_read_def lexeme_def tok_shape_def munch_def)
next
  case (Cons c r)
  note pk = peek_Cons [OF Cons]
  have at: "c = CHR ''@'' \<Longrightarrow> isIdentStart (peekAt 1 l) \<Longrightarrow> \<exists>d r'. rest l = CHR ''@'' # d # r' \<and> isIdentStart d"
    using Cons by (cases r) (auto simp: peekAt_rest isIdentStart_def is_letter_def char_between_def less_eq_char_def)
  have "c = CHR 0x0A \<Longrightarrow> t = mkTok TokNewline '''' (l_line l) (l_col l) \<and> l' = advance l"
    using assms Cons pk by (simp add: read_tok_def eof_rest)
  then have nl: "c = CHR 0x0A \<Longrightarrow> ?thesis"
    using moved_advance [OF Cons] by (auto simp: tok_read_def lexeme_def tok_shape_def munch_def)
  show ?thesis
    using assms Cons pk nl at readAnnotation_read [of l] readIdent_read [OF Cons] readNumber_read [OF Cons] readString_read [OF _ Cons]
      readPunct_read [OF Cons] by (auto simp: read_tok_def eof_rest Let_def split: if_splits)
qed

lemma token_eqI:
  "Kind t = k \<Longrightarrow> Value t = v \<Longrightarrow> Line t = a \<Longrightarrow> Col t = b \<Longrightarrow> tok_StringKind t = StringNotApplicable \<Longrightarrow> t = mkTok k v a b"
  "Kind t = TokString \<Longrightarrow> Value t = v \<Longrightarrow> Line t = a \<Longrightarrow> Col t = b \<Longrightarrow> tok_StringKind t = sk \<Longrightarrow> t = str_tok sk v a b"
  by (auto simp: mkTok_def str_tok_def)

lemma readIdent_complete:
  assumes "tok_read l t l'" "Kind t = TokIdent \<or> Kind t = TokKeyword"
  shows "read_tok l = Inr (t, l')"
proof -
  have it: "ident_text (Value t)" and m: "moved l (Value t) l'" and sk: "tok_StringKind t = StringNotApplicable"
    and kw: "Kind t = (if Value t \<in> set keyword_list then TokKeyword else TokIdent)" and mu: "rest l' = [] \<or> \<not> isIdentPart (hd (rest l'))"
    and p: "Line t = l_line l" "Col t = l_col l"
    using assms by (auto simp: tok_read_def tok_shape_def lexeme_def munch_def)
  obtain c v where v: "Value t = c # v" "isIdentStart c" using it by (cases "Value t") (auto simp: ident_text_def)
  then obtain r where r: "rest l = c # r" using moved_rest [OF m] by auto
  have "skip_while isIdentPart l = l'" using run_unique [of l _ l' isIdentPart, OF m _ mu] it by (simp add: ident_text_def)
  then have "readIdent (l_line l) (l_col l) l = (t, l')"
    using slice_moved [OF m] token_eqI(1) [OF kw refl p sk] by (simp add: readIdent_def Let_def)
  then show ?thesis using v(2) r not_ident_start by (auto simp: read_tok_def eof_rest peek_Cons [OF r] Let_def)
qed

lemma readNumber_complete:
  assumes "tok_read l t l'" "Kind t = TokNumber"
  shows "read_tok l = Inr (t, l')"
proof -
  have d: "Value t \<noteq> []" "list_all is_digit (Value t)" and m: "moved l (Value t) l'" and sk: "tok_StringKind t = StringNotApplicable"
    and mu: "rest l' = [] \<or> \<not> is_digit (hd (rest l'))" and p: "Line t = l_line l" "Col t = l_col l"
    using assms by (auto simp: tok_read_def tok_shape_def lexeme_def munch_def)
  obtain c v where v: "Value t = c # v" "is_digit c" using d by (cases "Value t") auto
  then obtain r where r: "rest l = c # r" using moved_rest [OF m] by auto
  have "skip_while is_digit l = l'" using run_unique [of l _ l' is_digit, OF m d(2) mu] .
  then have "readNumber (l_line l) (l_col l) l = (t, l')"
    using slice_moved [OF m] token_eqI(1) [OF assms(2) refl p sk] by (simp add: readNumber_def Let_def)
  then show ?thesis using v(2) r not_ident_start digit_not_start [OF v(2)] by (auto simp: read_tok_def eof_rest peek_Cons [OF r] Let_def)
qed

lemma readAnnotation_complete:
  assumes "tok_read l t l'" "Kind t = TokAnnotation"
  shows "read_tok l = Inr (t, l')"
proof -
  have it: "ident_text (Value t)" and m: "moved l (CHR ''@'' # Value t) l'" and sk: "tok_StringKind t = StringNotApplicable"
    and mu: "rest l' = [] \<or> \<not> isIdentPart (hd (rest l'))" and p: "Line t = l_line l" "Col t = l_col l"
    using assms by (auto simp: tok_read_def tok_shape_def lexeme_def munch_def)
  obtain c v where v: "Value t = c # v" "isIdentStart c" using it by (cases "Value t") (auto simp: ident_text_def)
  obtain r where r: "rest l = CHR ''@'' # r" and m': "moved (advance l) (Value t) l'" using m by (auto simp: moved_Cons_iff)
  have "peekAt 1 l = c" using moved_rest [OF m] v by (simp add: peekAt_rest)
  moreover have "skip_while isIdentPart (advance l) = l'" using run_unique [of "advance l" _ l' isIdentPart, OF m' _ mu] it by (simp add: ident_text_def)
  then have "readAnnotation (l_line l) (l_col l) (advance l) = (t, l')"
    using slice_moved [OF m'] token_eqI(1) [OF assms(2) refl p sk] by (simp add: readAnnotation_def Let_def)
  ultimately show ?thesis using v(2) r not_ident_start by (simp add: read_tok_def eof_rest peek_Cons [OF r] Let_def)
qed

lemma string_kind_quote: "string_body k v \<Longrightarrow> \<exists>q. (q = CHR 0x27 \<or> q = CHR 0x22) \<and> (k = line_kind q \<or> k = triple_kind q)"
  using exI [of "\<lambda>q. (q = CHR 0x27 \<or> q = CHR 0x22) \<and> (k = line_kind q \<or> k = triple_kind q)" "CHR 0x27"]
    exI [of "\<lambda>q. (q = CHR 0x27 \<or> q = CHR 0x22) \<and> (k = line_kind q \<or> k = triple_kind q)" "CHR 0x22"]
  by (cases k) (simp_all add: string_body_def line_kind_def triple_kind_def)

lemma readString_complete:
  assumes "tok_read l t l'" "Kind t = TokString"
  shows "read_tok l = Inr (t, l')"
proof -
  let ?k = "tok_StringKind t"
  have b: "string_body ?k (Value t)" and m: "moved l (quotes ?k @ Value t @ quotes ?k) l'" and p: "Line t = l_line l" "Col t = l_col l"
    and mu: "Value t = [] \<and> length (quotes ?k) = 1 \<longrightarrow> rest l' = [] \<or> [hd (rest l')] \<noteq> quotes ?k"
    using assms by (auto simp: tok_read_def tok_shape_def lexeme_def munch_def)
  obtain q where q: "q = CHR 0x27 \<or> q = CHR 0x22" "?k = line_kind q \<or> ?k = triple_kind q"
    using string_kind_quote [OF b] by blast
  note kq = kind_quotes [OF q(1), of "Value t"]
  obtain r where r: "rest l = q # r" using moved_rest [OF m] q(2) kq by auto
  have te: "t = str_tok ?k (Value t) (l_line l) (l_col l)" using token_eqI(2) [OF assms(2) refl p refl] .
  have "readString (l_line l) (l_col l) l = Inr (t, l')"
    using q(2)
  proof
    assume k: "?k = line_kind q"
    then show ?thesis unfolding readString_iff [OF q(1) r] using te b m mu kq
      by (intro disjI1 exI [of _ "Value t"]) auto
  next
    assume k: "?k = triple_kind q"
    then show ?thesis unfolding readString_iff [OF q(1) r] using te b m kq
      by (intro disjI2 exI [of _ "Value t"]) auto
  qed
  then show ?thesis using q(1) r not_ident_start by (auto simp: read_tok_def eof_rest peek_Cons [OF r] Let_def)
qed

lemma plain_dispatch: "rest l = c # r \<Longrightarrow> plain_start c \<Longrightarrow> read_tok l = readPunctOrOperator (l_line l) (l_col l) l"
  by (simp add: read_tok_def eof_rest peek_Cons plain_start_def Let_def)

lemma readOperator_complete:
  assumes "tok_read l t l'" "Kind t = TokOperator"
  shows "read_tok l = Inr (t, l')"
proof -
  have m: "moved l (Value t) l'" and sk: "tok_StringKind t = StringNotApplicable" and p: "Line t = l_line l" "Col t = l_col l"
    and sh: "Value t \<in> set twoChars \<or> (\<exists>c \<in> set ''=+-.:?!<>*/''. Value t = [c])"
    and mu: "length (Value t) = 1 \<longrightarrow> rest l' = [] \<or> [hd (Value t), hd (rest l')] \<notin> set twoChars"
    using assms by (auto simp: tok_read_def tok_shape_def lexeme_def munch_def)
  note te = token_eqI(1) [OF assms(2) refl p sk]
  from sh show ?thesis
  proof
    assume two: "Value t \<in> set twoChars"
    then obtain c d where v: "Value t = [c, d]" using two_length by blast
    have r: "rest l = c # d # rest l'" using moved_rest [OF m] v by simp
    have "peekAt 1 l = d" using r by (simp add: peekAt_rest)
    moreover have "l' = advance (advance l)" using m v by (auto simp: moved_Cons_iff moved_Nil)
    ultimately show ?thesis
      using two_start [of c d] two v te by (simp add: plain_dispatch [OF r] readPunctOrOperator_def peek_Cons [OF r] Let_def)
  next
    assume "\<exists>c \<in> set ''=+-.:?!<>*/''. Value t = [c]"
    then obtain c where c: "c \<in> set ''=+-.:?!<>*/''" "Value t = [c]" by blast
    have r: "rest l = c # rest l'" using moved_rest [OF m] c by simp
    have l': "l' = advance l" using m c(2) by (auto simp: moved_Cons_iff moved_Nil)
    have "[c, peekAt 1 l] \<notin> set twoChars"
      using mu c(2) r by (cases "rest l'") (auto simp: peekAt_rest twoChars_def)
    moreover have "plain_start c \<and> map_of punct c = None" by (rule op_start) (use c(1) in auto)
    ultimately show ?thesis
      using c te l' by (simp add: plain_dispatch [OF r] readPunctOrOperator_def peek_Cons [OF r] Let_def)
  qed
qed

lemma read_tok_complete:
  assumes "tok_read l t l'"
  shows "read_tok l = Inr (t, l')"
proof -
  have sh: "tok_shape t" and m: "moved l (lexeme t) l'" and p: "Line t = l_line l" "Col t = l_col l" and mu: "munch t (rest l')"
    using assms by (simp_all add: tok_read_def)
  have sk: "Kind t \<noteq> TokString \<Longrightarrow> tok_StringKind t = StringNotApplicable" using sh by (simp add: tok_shape_def)
  have punct: ?thesis if c: "Value t = [c]" "map_of punct c = Some (Kind t)" and k: "lexeme t = Value t" "Kind t \<noteq> TokString" for c
  proof -
    have r: "rest l = c # rest l'" using moved_rest [OF m] c(1) k by simp
    have l': "l' = advance l" using m c(1) k by (auto simp: moved_Cons_iff moved_Nil)
    have "t = mkTok (Kind t) [c] (l_line l) (l_col l)" using token_eqI(1) [OF refl c(1) p sk [OF k(2)]] .
    then show ?thesis
      using plain_dispatch [OF r punct_start [OF c(2)]] c(2) l' by (simp add: readPunctOrOperator_def peek_Cons [OF r] Let_def)
  qed
  show ?thesis
  proof (cases "Kind t")
    case TokNewline
    then have r: "rest l = CHR 0x0A # rest l'" using moved_rest [OF m] by (simp add: lexeme_def)
    have "l' = advance l" "Value t = []" using TokNewline m sh by (auto simp: lexeme_def tok_shape_def moved_Cons_iff moved_Nil)
    then show ?thesis using token_eqI(1) [OF TokNewline _ p sk] TokNewline r by (simp add: read_tok_def eof_rest peek_Cons [OF r] Let_def)
  next
    case TokEOF
    then have "l' = l" "Value t = []" "rest l = []" using m sh mu by (auto simp: lexeme_def tok_shape_def munch_def moved_Nil)
    then show ?thesis using token_eqI(1) [OF TokEOF _ p sk] TokEOF by (simp add: read_tok_def eof_rest Let_def)
  qed (use assms readIdent_complete readNumber_complete readAnnotation_complete readString_complete readOperator_complete sh punct in
      \<open>auto simp: tok_shape_def lexeme_def\<close>)
qed

lemma next_tok_iff:
  "next_tok l = Inr (t, l') \<longleftrightarrow> (\<exists>g. moved l (g @ lexeme t) l' \<and> gap g (lexeme t @ rest l')
     \<and> (Line t, Col t) = fold step_pos g (l_line l, l_col l) \<and> tok_shape t \<and> munch t (rest l'))"
proof
  assume "next_tok l = Inr (t, l')"
  then obtain l1 where l1: "skipSpaceAndComments l = Inr l1" "read_tok l1 = Inr (t, l')" by (auto simp: next_tok_def split: sum.splits)
  from skip_sound [OF l1(1)] obtain g where g: "moved l g l1" "gap g (rest l1)" by blast
  from read_tok_sound [OF l1(2)] g moved_pos [OF g(1)] show "\<exists>g. moved l (g @ lexeme t) l' \<and> gap g (lexeme t @ rest l')
     \<and> (Line t, Col t) = fold step_pos g (l_line l, l_col l) \<and> tok_shape t \<and> munch t (rest l')"
    by (intro exI [of _ g]) (auto simp: tok_read_def moved_append dest: moved_rest)
next
  assume "\<exists>g. moved l (g @ lexeme t) l' \<and> gap g (lexeme t @ rest l')
     \<and> (Line t, Col t) = fold step_pos g (l_line l, l_col l) \<and> tok_shape t \<and> munch t (rest l')"
  then obtain g l1 where g: "gap g (lexeme t @ rest l')" "(Line t, Col t) = fold step_pos g (l_line l, l_col l)" "tok_shape t" "munch t (rest l')"
    and l1: "moved l g l1" "moved l1 (lexeme t) l'" by (auto simp: moved_append)
  have "skipSpaceAndComments l = Inr l1" using skip_complete [OF g(1) l1(1)] moved_rest [OF l1(2)] by simp
  moreover have "tok_read l1 t l'" using g(3,4) l1 trans [OF g(2) moved_pos [OF l1(1), symmetric]] by (simp add: tok_read_def)
  ultimately show "next_tok l = Inr (t, l')" using read_tok_complete by (simp add: next_tok_def)
qed


section \<open>The token stream\<close>

lemma lexeme_nonempty: "tok_shape t \<Longrightarrow> Kind t \<noteq> TokEOF \<Longrightarrow> lexeme t \<noteq> []"
  by (cases "Kind t"; cases "tok_StringKind t") (auto simp: tok_shape_def lexeme_def ident_text_def quotes_def string_body_def twoChars_def)

lemma next_tok_progress: "next_tok l = Inr (t, l') \<Longrightarrow> Kind t \<noteq> TokEOF \<Longrightarrow> left l' < left l"
  using lexeme_nonempty by (fastforce simp: next_tok_iff left_rest moved_def)

function tokenize_from :: "lexer \<Rightarrow> perr + Token list" where
  "tokenize_from l =
     (case next_tok l of Inl e \<Rightarrow> Inl e
      | Inr (tok, l') \<Rightarrow>
          if Kind tok = TokEOF then Inr [tok]
          else (case tokenize_from l' of Inl e \<Rightarrow> Inl e | Inr toks \<Rightarrow> Inr (tok # toks)))"
  by auto
termination tokenize_from
  by (relation "measure left") (auto intro: next_tok_progress)

declare tokenize_from.simps [simp del]

definition Tokenize :: "string \<Rightarrow> perr + Token list" where
  "Tokenize s = tokenize_from \<lparr>l_src = s, l_pos = 0, l_line = 1, l_col = 1\<rparr>"

text \<open>
  The reference: \<open>lexed p s ts\<close> reads the stream \<open>ts\<close> as the text \<open>s\<close> that starts at position \<open>p\<close>.
\<close>

inductive lexed :: "nat \<times> nat \<Rightarrow> string \<Rightarrow> Token list \<Rightarrow> bool" where
  lexed_EOF: "gap g [] \<Longrightarrow> Kind t = TokEOF \<Longrightarrow> tok_shape t \<Longrightarrow> (Line t, Col t) = fold step_pos g p \<Longrightarrow> lexed p g [t]"
| lexed_Cons: "gap g (lexeme t @ r) \<Longrightarrow> Kind t \<noteq> TokEOF \<Longrightarrow> tok_shape t \<Longrightarrow> munch t r \<Longrightarrow> (Line t, Col t) = fold step_pos g p \<Longrightarrow>
    lexed (fold step_pos (g @ lexeme t) p) r ts \<Longrightarrow> lexed p (g @ lexeme t @ r) (t # ts)"

lemma tokenize_from_sound: "tokenize_from l = Inr ts \<Longrightarrow> lexed (l_line l, l_col l) (rest l) ts"
proof (induction l arbitrary: ts rule: tokenize_from.induct)
  case (1 l)
  from "1.prems" obtain t l' where n: "next_tok l = Inr (t, l')" by (subst (asm) tokenize_from.simps) (auto split: sum.splits)
  then obtain g where g: "moved l (g @ lexeme t) l'" "gap g (lexeme t @ rest l')" "(Line t, Col t) = fold step_pos g (l_line l, l_col l)"
    "tok_shape t" "munch t (rest l')" by (auto simp: next_tok_iff)
  show ?case
  proof (cases "Kind t = TokEOF")
    case True
    then have "ts = [t]" "lexeme t = []" "rest l' = []"
      using "1.prems" n g(5) by (auto simp: tokenize_from.simps [of l] lexeme_def munch_def)
    with g True moved_rest [OF g(1)] show ?thesis by (auto intro: lexed_EOF)
  next
    case False
    then obtain ts' where ts': "tokenize_from l' = Inr ts'" "ts = t # ts'"
      using "1.prems" n by (auto simp: tokenize_from.simps [of l] split: sum.splits)
    from lexed_Cons [OF g(2) False g(4,5,3)] "1.IH" [OF n refl False ts'(1)] moved_pos [OF g(1)] moved_rest [OF g(1)] show ?thesis
      by (simp add: ts'(2))
  qed
qed

lemma moved_exists: "rest l = w @ r \<Longrightarrow> \<exists>l'. moved l w l' \<and> rest l' = r"
proof (induction w arbitrary: l)
  case (Cons c w)
  then obtain l' where "moved (advance l) w l'" "rest l' = r" using rest_advance [of l c "w @ r"] by auto
  then show ?case using moved_Cons [of l c] Cons.prems by auto
qed (auto simp: moved_Nil)

lemma tokenize_from_complete: "lexed p s ts \<Longrightarrow> rest l = s \<Longrightarrow> p = (l_line l, l_col l) \<Longrightarrow> tokenize_from l = Inr ts"
proof (induction arbitrary: l rule: lexed.induct)
  case (lexed_EOF g t p)
  then obtain l' where "moved l g l'" "rest l' = []" using moved_exists [of l g "[]"] by auto
  with lexed_EOF have "next_tok l = Inr (t, l')"
    unfolding next_tok_iff by (intro exI [of _ g]) (simp add: lexeme_def munch_def)
  with lexed_EOF show ?case by (simp add: tokenize_from.simps [of l])
next
  case (lexed_Cons g t r p ts)
  then obtain l' where l': "moved l (g @ lexeme t) l'" "rest l' = r" using moved_exists [of l "g @ lexeme t" r] by auto
  with lexed_Cons have "next_tok l = Inr (t, l')" unfolding next_tok_iff by blast
  moreover have "tokenize_from l' = Inr ts" using lexed_Cons.IH [OF l'(2)] moved_pos [OF l'(1)] lexed_Cons.prems(2) by simp
  ultimately show ?case using lexed_Cons.hyps(2) by (simp add: tokenize_from.simps [of l])
qed

text \<open>
  C25. The lexer is exact: \<^verbatim>\<open>Tokenize\<close> succeeds with a token stream if and only if the source is the stream's lexemes in order
  with blanks and comments between them, each token has the shape of its kind, could not be longer, and carries the line and
  column of its first byte, and the stream ends with its only end-of-file token.
\<close>

theorem Tokenize_exact: "Tokenize s = Inr ts \<longleftrightarrow> lexed (1, 1) s ts"
proof
  show "Tokenize s = Inr ts \<Longrightarrow> lexed (1, 1) s ts"
    using tokenize_from_sound [of "\<lparr>l_src = s, l_pos = 0, l_line = 1, l_col = 1\<rparr>"] by (simp add: Tokenize_def rest_def)
  show "lexed (1, 1) s ts \<Longrightarrow> Tokenize s = Inr ts"
    unfolding Tokenize_def by (rule tokenize_from_complete) (simp_all add: rest_def)
qed

lemma lexed_eof: "lexed p s ts \<Longrightarrow> \<exists>body e. ts = body @ [e] \<and> Kind e = TokEOF \<and> (\<forall>t \<in> set body. Kind t \<noteq> TokEOF)"
proof (induction rule: lexed.induct)
  case (lexed_Cons g t r p ts)
  then obtain body e where "ts = body @ [e]" "Kind e = TokEOF" "\<forall>t \<in> set body. Kind t \<noteq> TokEOF" by blast
  with lexed_Cons.hyps(2) show ?case by (intro exI [of _ "t # body"]) auto
qed auto

lemma Tokenize_eof: "Tokenize s = Inr ts \<Longrightarrow> \<exists>body e. ts = body @ [e] \<and> Kind e = TokEOF \<and> (\<forall>t \<in> set body. Kind t \<noteq> TokEOF)"
  using tokenize_from_sound lexed_eof unfolding Tokenize_def by blast

text \<open>Every failure of the lexer is a lexical error with a position.\<close>

lemma skip_error: "skipSpaceAndComments l = Inl e \<Longrightarrow> \<exists>m a b. e = LexError m a b"
proof (induction l rule: skipSpaceAndComments.induct)
  case (1 l)
  from "1.prems" show ?case
    by (subst (asm) skipSpaceAndComments.simps) (use "1.IH" in \<open>auto split: if_splits option.splits\<close>)
qed

lemma readTriple_error: "readTripleString ln cl q start l = Inl e \<Longrightarrow> \<exists>m a b. e = LexError m a b"
proof (induction ln cl q start l rule: readTripleString.induct)
  case (1 ln cl q start l)
  from "1.prems" show ?case
    by (subst (asm) readTripleString.simps) (use "1.IH" in \<open>auto split: if_splits\<close>)
qed

lemma readLine_error: "readLineString ln cl q start l = Inl e \<Longrightarrow> \<exists>m a b. e = LexError m a b"
proof (induction ln cl q start l rule: readLineString.induct)
  case (1 ln cl q start l)
  from "1.prems" show ?case
    by (subst (asm) readLineString.simps) (use "1.IH" in \<open>auto simp: Let_def split: if_splits\<close>)
qed

lemma lex_error_shape: "tokenize_from l = Inl e \<Longrightarrow> \<exists>m a b. e = LexError m a b"
proof (induction l rule: tokenize_from.induct)
  case (1 l)
  have "next_tok l = Inl e \<Longrightarrow> \<exists>m a b. e = LexError m a b"
    by (auto simp: next_tok_def read_tok_def readString_def readPunctOrOperator_def Let_def split: sum.splits if_splits option.splits
        dest: skip_error readTriple_error readLine_error)
  with "1.prems" show ?case
    by (subst (asm) tokenize_from.simps) (use "1.IH" in \<open>auto split: sum.splits if_splits\<close>)
qed

lemma Tokenize_error: "Tokenize s = Inl e \<Longrightarrow> \<exists>m a b. e = LexError m a b"
  using lex_error_shape by (simp add: Tokenize_def)

end
