(* ===== verification/DeclParser.thy ===== *)
theory DeclParser
  imports Lexer
begin

text \<open>
  The declarative parser (\<^verbatim>\<open>internal/pipeline/parser_declarative.go\<close>). The cursor of the Go parser, \<^verbatim>\<open>tokens\<close> and \<^verbatim>\<open>pos\<close>, is the
  list of the tokens from the cursor on: the code never looks behind the cursor and never rewinds further than a position
  it has saved. Reading past the last token is the error \<open>Panic\<close>. Loops over single tokens are
  recursions on the list; loops that parse a construct per turn take fuel, and \<^verbatim>\<open>Parse\<close> passes the number of tokens, which
  is enough. Messages keep their text and position; the quoted token text some of them append is left out.
\<close>

section \<open>Syntax trees\<close>

record Position =
  pos_Line :: nat
  pos_Col :: nat

definition posOf :: "Token \<Rightarrow> Position" where
  "posOf t = \<lparr>pos_Line = Line t, pos_Col = Col t\<rparr>"

datatype ArgsKind = ArgsNone | ArgsParen | ArgsNaked

record AgentBlock =
  ab_Any :: bool
  ab_None :: bool
  ab_Label :: string
  ab_Pos :: Position

record Call =
  call_Name :: string
  call_ArgTokens :: "Token list"
  call_Pos :: Position

record OptionsBlock =
  Calls :: "Call list"
  ob_Pos :: Position

record WhenBlock =
  ExpressionBody :: "Token list"
  wb_Pos :: Position

record StepCall =
  sc_Name :: string
  sc_ArgsKind :: ArgsKind
  sc_ArgTokens :: "Token list"
  HasBlock :: bool
  sc_Block :: "Token list"
  sc_Pos :: Position

record StepsBlock =
  sb_Steps :: "StepCall list"
  sb_Pos :: Position

record PostBlock =
  po_Always :: "StepCall list"
  po_Success :: "StepCall list"
  po_Failure :: "StepCall list"
  po_Unstable :: "StepCall list"
  po_Aborted :: "StepCall list"
  po_Changed :: "StepCall list"
  po_Fixed :: "StepCall list"
  po_Regression :: "StepCall list"
  po_Cleanup :: "StepCall list"
  post_Pos :: Position

datatype Stage = Stage (st_Name: string) (st_When: "WhenBlock option") (st_Steps: "StepsBlock option")
    (st_Parallel: "ParallelBlock option") (st_Post: "PostBlock option") (st_Pos: Position)
  and ParallelBlock = ParallelBlock (Branches: "Stage list") (par_Pos: Position)

record StagesBlock =
  Stages :: "Stage list"
  stages_Pos :: Position

record PipelineBlock =
  pb_Agent :: "AgentBlock option"
  pb_Options :: "OptionsBlock option"
  pb_Stages :: "StagesBlock option"
  pb_Post :: "PostBlock option"
  pb_Pos :: Position

record PipelineFile =
  Preamble :: "Token list"
  Pipeline :: PipelineBlock

section \<open>Parsers\<close>

type_synonym ('s, 'a) parse = "'s \<Rightarrow> perr + 'a \<times> 's"
type_synonym 'a parser = "(Token list, 'a) parse"

definition returnP :: "'a \<Rightarrow> ('s, 'a) parse" where "returnP x s = Inr (x, s)"

definition raiseP :: "perr \<Rightarrow> ('s, 'a) parse" where "raiseP e s = Inl e"

definition bindP :: "('s, 'a) parse \<Rightarrow> ('a \<Rightarrow> ('s, 'b) parse) \<Rightarrow> ('s, 'b) parse" where
  "bindP m f s = (case m s of Inl e \<Rightarrow> Inl e | Inr (x, s') \<Rightarrow> f x s')"

definition thenP :: "('s, 'a) parse \<Rightarrow> ('s, 'b) parse \<Rightarrow> ('s, 'b) parse" where
  "thenP m k = bindP m (\<lambda>_. k)"

definition peekP :: "Token parser" where
  "peekP ts = (case ts of [] \<Rightarrow> Inl Panic | t # _ \<Rightarrow> Inr (t, ts))"

definition advanceP :: "Token parser" where
  "advanceP ts = (case ts of [] \<Rightarrow> Inl Panic | t # ts' \<Rightarrow> Inr (t, if Kind t = TokEOF then ts else ts'))"

definition errAt :: "string \<Rightarrow> Token \<Rightarrow> 'a parser" where
  "errAt m t = raiseP (ParseError m (Line t) (Col t))"

definition word :: "Token \<Rightarrow> bool" where
  "word t \<longleftrightarrow> Kind t = TokIdent \<or> Kind t = TokKeyword"

fun skipNewlines :: "unit parser" where
  "skipNewlines [] = Inl Panic"
| "skipNewlines (t # ts) = (if Kind t = TokNewline \<or> Kind t = TokSemicolon then skipNewlines ts else Inr ((), t # ts))"

section \<open>Raw slices\<close>

text \<open>The three nesting counters; a closer without an opener leaves its counter at zero.\<close>

type_synonym depth = "nat \<times> nat \<times> nat"

definition nest :: "TokenKind \<Rightarrow> depth \<Rightarrow> depth" where
  "nest k d = (case d of (paren, brace, brack) \<Rightarrow>
     (case k of TokLParen \<Rightarrow> (paren + 1, brace, brack) | TokRParen \<Rightarrow> (paren - 1, brace, brack)
      | TokLBrace \<Rightarrow> (paren, brace + 1, brack) | TokRBrace \<Rightarrow> (paren, brace - 1, brack)
      | TokLBracket \<Rightarrow> (paren, brace, brack + 1) | TokRBracket \<Rightarrow> (paren, brace, brack - 1)
      | _ \<Rightarrow> d))"

fun capture_loop :: "TokenKind \<Rightarrow> Token \<Rightarrow> string \<Rightarrow> depth \<Rightarrow> Token list parser" where
  "capture_loop closer opener label d [] = Inl Panic"
| "capture_loop closer opener label d (t # ts) =
     (if Kind t = TokEOF then Inl (ParseError (''unterminated '' @ label) (Line opener) (Col opener))
      else if d = (0, 0, 0) \<and> Kind t = closer then Inr ([], ts)
      else case capture_loop closer opener label (nest (Kind t) d) ts of
             Inl e \<Rightarrow> Inl e | Inr (out, r) \<Rightarrow> Inr (t # out, r))"

definition captureUntil :: "TokenKind \<Rightarrow> Token \<Rightarrow> string \<Rightarrow> Token list parser" where
  "captureUntil closer opener label = capture_loop closer opener label (0, 0, 0)"

fun naked_loop :: "depth \<Rightarrow> Token list parser" where
  "naked_loop d [] = Inl Panic"
| "naked_loop d (t # ts) =
     (if Kind t = TokEOF then Inr ([], t # ts)
      else if d = (0, 0, 0) \<and> Kind t \<in> {TokNewline, TokSemicolon, TokRBrace} then Inr ([], t # ts)
      else case naked_loop (nest (Kind t) d) ts of Inl e \<Rightarrow> Inl e | Inr (out, r) \<Rightarrow> Inr (t # out, r))"

definition captureNakedArgs :: "Token list parser" where
  "captureNakedArgs = naked_loop (0, 0, 0)"

definition expectLBrace :: "string \<Rightarrow> Token parser" where
  "expectLBrace ctx = thenP skipNewlines (bindP peekP (\<lambda>tok.
     if Kind tok \<noteq> TokLBrace then errAt (''expected { after '' @ ctx) tok else advanceP))"

text \<open>The loop of \<^verbatim>\<open>skipBracedSection\<close> and of the opaque case of \<^verbatim>\<open>parseWhen\<close>, at brace depth \<open>Suc d\<close>.\<close>

fun skip_braces :: "perr \<Rightarrow> nat \<Rightarrow> unit parser" where
  "skip_braces e d [] = Inl Panic"
| "skip_braces e d (t # ts) =
     (if Kind t = TokEOF then Inl e
      else if Kind t = TokLBrace then skip_braces e (Suc d) ts
      else if Kind t = TokRBrace then (case d of 0 \<Rightarrow> Inr ((), ts) | Suc d' \<Rightarrow> skip_braces e d' ts)
      else skip_braces e d ts)"

definition skipBracedSection :: "string \<Rightarrow> unit parser" where
  "skipBracedSection name = thenP skipNewlines (bindP peekP (\<lambda>tok.
     if Kind tok \<noteq> TokLBrace then errAt ''expected { after section'' tok
     else thenP advanceP (skip_braces (ParseFail (''unterminated section '' @ name)) 0)))"

section \<open>Agent, steps, options\<close>

definition parseAgent :: "AgentBlock parser" where
  "parseAgent = thenP skipNewlines (bindP peekP (\<lambda>head.
     let ab = \<lparr>ab_Any = False, ab_None = False, ab_Label = '''', ab_Pos = posOf head\<rparr> in
     if word head \<and> Value head = ''any'' then thenP advanceP (returnP (ab\<lparr>ab_Any := True\<rparr>))
     else if word head \<and> Value head = ''none'' then thenP advanceP (returnP (ab\<lparr>ab_None := True\<rparr>))
     else if Kind head \<noteq> TokLBrace then errAt ''expected agent { or any/none'' head
     else thenP advanceP (thenP skipNewlines (bindP peekP (\<lambda>lab.
       if Kind lab \<noteq> TokKeyword \<or> Value lab \<noteq> ''label'' then errAt ''expected label inside agent { }'' lab
       else thenP advanceP (thenP skipNewlines (bindP peekP (\<lambda>val.
         if Kind val \<noteq> TokString \<and> Kind val \<noteq> TokIdent then errAt ''expected string or identifier after label'' val
         else thenP advanceP (thenP skipNewlines (bindP peekP (\<lambda>close.
           if Kind close \<noteq> TokRBrace then errAt ''expected } to close agent'' close
           else thenP advanceP (returnP (ab\<lparr>ab_Label := Value val\<rparr>)))))))))))))"

definition isStmtEnd :: "Token \<Rightarrow> bool" where
  "isStmtEnd t \<longleftrightarrow> Kind t \<in> {TokNewline, TokSemicolon, TokEOF, TokRBrace}"

text \<open>\<^verbatim>\<open>for p.peek().Kind == TokNewline { p.advance() }\<close>\<close>

fun skip_nl :: "unit parser" where
  "skip_nl [] = Inl Panic"
| "skip_nl (t # ts) = (if Kind t = TokNewline then skip_nl ts else Inr ((), t # ts))"

text \<open>The trailing closure block of a step call; without one the cursor goes back to where it was (\<^verbatim>\<open>p.pos = saved\<close>).\<close>

definition step_block :: "StepCall \<Rightarrow> StepCall parser" where
  "step_block sc saved =
     (case thenP skip_nl (bindP peekP (\<lambda>t.
             if Kind t = TokLBrace
             then bindP advanceP (\<lambda>opener. bindP (captureUntil TokRBrace opener ''{'') (\<lambda>body. returnP (Some body)))
             else returnP None)) saved of
        Inl e \<Rightarrow> Inl e
      | Inr (Some body, ts) \<Rightarrow> Inr (sc\<lparr>HasBlock := True, sc_Block := body\<rparr>, ts)
      | Inr (None, _) \<Rightarrow> Inr (sc, saved))"

definition parseStepCall :: "StepCall parser" where
  "parseStepCall = bindP advanceP (\<lambda>nameTok.
     if \<not> word nameTok then errAt ''expected step name'' nameTok
     else
       let sc = \<lparr>sc_Name = Value nameTok, sc_ArgsKind = ArgsNone, sc_ArgTokens = [], HasBlock = False, sc_Block = [], sc_Pos = posOf nameTok\<rparr> in
       bindP (bindP peekP (\<lambda>t.
         if Kind t = TokLParen then
           bindP advanceP (\<lambda>opener. bindP (captureUntil TokRParen opener ''('') (\<lambda>body.
             returnP (sc\<lparr>sc_ArgsKind := ArgsParen, sc_ArgTokens := body\<rparr>)))
         else if isStmtEnd t \<or> Kind t = TokLBrace then returnP sc
         else bindP captureNakedArgs (\<lambda>body. returnP (sc\<lparr>sc_ArgsKind := ArgsNaked, sc_ArgTokens := body\<rparr>))))
       step_block)"

fun parseStepList :: "nat \<Rightarrow> string \<Rightarrow> StepCall list parser" where
  "parseStepList 0 label = raiseP OutOfFuel"
| "parseStepList (Suc n) label = thenP skipNewlines (bindP peekP (\<lambda>t.
     if Kind t = TokRBrace then thenP advanceP (returnP [])
     else if Kind t = TokEOF then raiseP (ParseFail (''unterminated '' @ label @ '' block''))
     else bindP parseStepCall (\<lambda>sc. bindP (parseStepList n label) (\<lambda>scs. returnP (sc # scs)))))"

definition option_call :: "Token \<Rightarrow> Call parser" where
  "option_call head =
     (let call = \<lparr>call_Name = Value head, call_ArgTokens = [], call_Pos = posOf head\<rparr> in
      bindP peekP (\<lambda>t.
        if Kind t = TokLParen then bindP advanceP (\<lambda>opener. bindP (captureUntil TokRParen opener ''('') (\<lambda>body.
          returnP (call\<lparr>call_ArgTokens := body\<rparr>)))
        else returnP call))"

fun options_loop :: "nat \<Rightarrow> Token \<Rightarrow> Call list parser" where
  "options_loop 0 openTok = raiseP OutOfFuel"
| "options_loop (Suc n) openTok = thenP skipNewlines (bindP peekP (\<lambda>head.
     if Kind head = TokRBrace then thenP advanceP (returnP [])
     else if Kind head = TokEOF then errAt ''unterminated options block'' openTok
     else if \<not> word head then errAt ''expected option call inside options block'' head
     else thenP advanceP (bindP (option_call head) (\<lambda>call. bindP (options_loop n openTok) (\<lambda>calls. returnP (call # calls))))))"

definition parseOptions :: "nat \<Rightarrow> OptionsBlock parser" where
  "parseOptions n = bindP (expectLBrace ''options'') (\<lambda>openTok.
     bindP (options_loop n openTok) (\<lambda>calls. returnP \<lparr>Calls = calls, ob_Pos = posOf openTok\<rparr>))"

section \<open>When and post blocks\<close>

definition parseWhen :: "WhenBlock parser" where
  "parseWhen = bindP (expectLBrace ''when'') (\<lambda>openTok. thenP skipNewlines (bindP peekP (\<lambda>head.
     let wb = \<lparr>ExpressionBody = [], wb_Pos = posOf openTok\<rparr> in
     if Kind head = TokKeyword \<and> Value head = ''expression''
     then thenP advanceP (bindP (expectLBrace ''expression'') (\<lambda>bodyOpen.
       bindP (captureUntil TokRBrace bodyOpen ''{'') (\<lambda>body. thenP skipNewlines (bindP peekP (\<lambda>close.
         if Kind close \<noteq> TokRBrace then errAt ''expected } to close when'' close
         else thenP advanceP (returnP (wb\<lparr>ExpressionBody := body\<rparr>)))))))
     else thenP (skip_braces (ParseFail ''unterminated when block'') 0) (returnP wb))))"

definition set_handler :: "string \<Rightarrow> StepCall list \<Rightarrow> PostBlock \<Rightarrow> PostBlock option" where
  "set_handler name steps pb =
     (if name = ''always'' then Some (pb\<lparr>po_Always := steps\<rparr>)
      else if name = ''success'' then Some (pb\<lparr>po_Success := steps\<rparr>)
      else if name = ''failure'' then Some (pb\<lparr>po_Failure := steps\<rparr>)
      else if name = ''unstable'' then Some (pb\<lparr>po_Unstable := steps\<rparr>)
      else if name = ''aborted'' then Some (pb\<lparr>po_Aborted := steps\<rparr>)
      else if name = ''changed'' then Some (pb\<lparr>po_Changed := steps\<rparr>)
      else if name = ''fixed'' then Some (pb\<lparr>po_Fixed := steps\<rparr>)
      else if name = ''regression'' then Some (pb\<lparr>po_Regression := steps\<rparr>)
      else if name = ''cleanup'' then Some (pb\<lparr>po_Cleanup := steps\<rparr>)
      else None)"

fun post_loop :: "nat \<Rightarrow> Token \<Rightarrow> PostBlock \<Rightarrow> PostBlock parser" where
  "post_loop 0 openTok pb = raiseP OutOfFuel"
| "post_loop (Suc n) openTok pb = thenP skipNewlines (bindP peekP (\<lambda>head.
     if Kind head = TokRBrace then thenP advanceP (returnP pb)
     else if Kind head = TokEOF then errAt ''unterminated post block'' openTok
     else if \<not> word head then errAt ''expected post handler'' head
     else thenP advanceP (thenP (expectLBrace (Value head)) (bindP (parseStepList n (Value head)) (\<lambda>steps.
       case set_handler (Value head) steps pb of
         None \<Rightarrow> errAt ''unknown post handler'' head
       | Some pb' \<Rightarrow> post_loop n openTok pb')))))"

definition parsePost :: "nat \<Rightarrow> PostBlock parser" where
  "parsePost n = bindP (expectLBrace ''post'') (\<lambda>openTok. post_loop n openTok
     \<lparr>po_Always = [], po_Success = [], po_Failure = [], po_Unstable = [], po_Aborted = [], po_Changed = [], po_Fixed = [],
      po_Regression = [], po_Cleanup = [], post_Pos = posOf openTok\<rparr>)"

section \<open>Stages\<close>

text \<open>The assignments \<^verbatim>\<open>stage.When = wb\<close> and so on: a repeated child overwrites the earlier one.\<close>

fun set_When :: "WhenBlock \<Rightarrow> Stage \<Rightarrow> Stage" where "set_When x (Stage nm w s p q ps) = Stage nm (Some x) s p q ps"
fun set_Steps :: "StepsBlock \<Rightarrow> Stage \<Rightarrow> Stage" where "set_Steps x (Stage nm w s p q ps) = Stage nm w (Some x) p q ps"
fun set_Parallel :: "ParallelBlock \<Rightarrow> Stage \<Rightarrow> Stage" where "set_Parallel x (Stage nm w s p q ps) = Stage nm w s (Some x) q ps"
fun set_Post :: "PostBlock \<Rightarrow> Stage \<Rightarrow> Stage" where "set_Post x (Stage nm w s p q ps) = Stage nm w s p (Some x) ps"

text \<open>
  \<open>parseStage\<close>, the loop over its children, \<^verbatim>\<open>parseParallelStageChild\<close> and the loop over a list of stages (which
  \<^verbatim>\<open>parseStages\<close> and \<^verbatim>\<open>parseParallelStageChild\<close> write out each with its own name in the messages).
\<close>

fun parseStage :: "nat \<Rightarrow> Stage parser"
  and stage_loop :: "nat \<Rightarrow> Stage \<Rightarrow> Stage parser"
  and parseParallelStageChild :: "nat \<Rightarrow> Token \<Rightarrow> ParallelBlock parser"
  and stages_loop :: "nat \<Rightarrow> string \<Rightarrow> Token \<Rightarrow> Stage list parser" where
  "parseStage 0 = raiseP OutOfFuel"
| "parseStage (Suc n) = bindP peekP (\<lambda>t0.
     if Kind t0 \<noteq> TokLParen then errAt ''expected ( after stage'' t0
     else thenP advanceP (thenP skipNewlines (bindP peekP (\<lambda>nameTok.
       if Kind nameTok \<noteq> TokString then errAt ''expected string for stage name'' nameTok
       else thenP advanceP (thenP skipNewlines (bindP peekP (\<lambda>t1.
         if Kind t1 \<noteq> TokRParen then errAt ''expected ) after stage name'' t1
         else thenP advanceP (thenP (expectLBrace ''stage'')
           (stage_loop n (Stage (Value nameTok) None None None None (posOf nameTok)))))))))))"
| "stage_loop 0 stage = raiseP OutOfFuel"
| "stage_loop (Suc n) stage = thenP skipNewlines (bindP peekP (\<lambda>head.
     if Kind head = TokRBrace then thenP advanceP (returnP stage)
     else if Kind head = TokEOF then raiseP (ParseError ''unterminated stage'' (pos_Line (st_Pos stage)) (pos_Col (st_Pos stage)))
     else if \<not> word head then errAt ''expected stage child'' head
     else if Value head = ''when'' then thenP advanceP (bindP parseWhen (\<lambda>wb. stage_loop n (set_When wb stage)))
     else if Value head = ''steps'' then thenP advanceP (thenP (expectLBrace ''steps'') (bindP (parseStepList n ''steps'') (\<lambda>steps.
       stage_loop n (set_Steps \<lparr>sb_Steps = steps, sb_Pos = posOf head\<rparr> stage))))
     else if Value head = ''parallel'' then thenP advanceP (bindP (parseParallelStageChild n head) (\<lambda>par. stage_loop n (set_Parallel par stage)))
     else if Value head = ''post'' then thenP advanceP (bindP (parsePost n) (\<lambda>pst. stage_loop n (set_Post pst stage)))
     else errAt ''unknown stage child'' head))"
| "parseParallelStageChild 0 parTok = raiseP OutOfFuel"
| "parseParallelStageChild (Suc n) parTok = bindP (expectLBrace ''parallel'') (\<lambda>openTok.
     bindP (stages_loop n ''parallel'' openTok) (\<lambda>branches. returnP (ParallelBlock branches (posOf parTok))))"
| "stages_loop 0 what openTok = raiseP OutOfFuel"
| "stages_loop (Suc n) what openTok = thenP skipNewlines (bindP peekP (\<lambda>head.
     if Kind head = TokRBrace then thenP advanceP (returnP [])
     else if Kind head = TokEOF then errAt (''unterminated '' @ what @ '' block'') openTok
     else if Kind head \<noteq> TokKeyword \<or> Value head \<noteq> ''stage'' then errAt (what @ '' block expects only stage(...) children'') head
     else thenP advanceP (bindP (parseStage n) (\<lambda>st. bindP (stages_loop n what openTok) (\<lambda>sts. returnP (st # sts))))))"

definition parseStages :: "nat \<Rightarrow> StagesBlock parser" where
  "parseStages n = bindP (expectLBrace ''stages'') (\<lambda>openTok.
     bindP (stages_loop n ''stages'' openTok) (\<lambda>sts. returnP \<lparr>Stages = sts, stages_Pos = posOf openTok\<rparr>))"

section \<open>The pipeline block\<close>

fun pipeline_loop :: "nat \<Rightarrow> Token \<Rightarrow> PipelineBlock \<Rightarrow> PipelineBlock parser" where
  "pipeline_loop 0 openTok pb = raiseP OutOfFuel"
| "pipeline_loop (Suc n) openTok pb = thenP skipNewlines (bindP peekP (\<lambda>sec.
     if Kind sec = TokRBrace then thenP advanceP (returnP pb)
     else if Kind sec = TokEOF then errAt ''unterminated pipeline block'' openTok
     else if \<not> word sec then errAt ''expected pipeline section'' sec
     else if Value sec = ''agent'' then thenP advanceP (bindP parseAgent (\<lambda>ab. pipeline_loop n openTok (pb\<lparr>pb_Agent := Some ab\<rparr>)))
     else if Value sec = ''options'' then thenP advanceP (bindP (parseOptions n) (\<lambda>ob. pipeline_loop n openTok (pb\<lparr>pb_Options := Some ob\<rparr>)))
     else if Value sec = ''stages'' then thenP advanceP (bindP (parseStages n) (\<lambda>ss. pipeline_loop n openTok (pb\<lparr>pb_Stages := Some ss\<rparr>)))
     else if Value sec = ''post'' then thenP advanceP (bindP (parsePost n) (\<lambda>po. pipeline_loop n openTok (pb\<lparr>pb_Post := Some po\<rparr>)))
     else if Value sec \<in> {''environment'', ''triggers'', ''parameters'', ''tools'', ''libraries''}
     then thenP advanceP (thenP (skipBracedSection (Value sec)) (pipeline_loop n openTok pb))
     else errAt ''unknown pipeline section'' sec))"

definition parsePipelineBlock :: "nat \<Rightarrow> PipelineBlock parser" where
  "parsePipelineBlock n = bindP advanceP (\<lambda>head. bindP (expectLBrace ''pipeline'') (\<lambda>openTok.
     pipeline_loop n openTok \<lparr>pb_Agent = None, pb_Options = None, pb_Stages = None, pb_Post = None, pb_Pos = posOf head\<rparr>))"

text \<open>The loop of \<^verbatim>\<open>Parse\<close>: the tokens before the \<^verbatim>\<open>pipeline\<close> keyword are the preamble, the tokens after its block are ignored.\<close>

fun parse_file :: "nat \<Rightarrow> PipelineFile parser" where
  "parse_file n [] = Inl Panic"
| "parse_file n (t # ts) =
     (if Kind t = TokEOF then Inl (ParseFail ''no pipeline block found in source'')
      else if Kind t = TokKeyword \<and> Value t = ''pipeline''
      then bindP (parsePipelineBlock n) (\<lambda>b. returnP \<lparr>Preamble = [], Pipeline = b\<rparr>) (t # ts)
      else case parse_file n ts of Inl e \<Rightarrow> Inl e
           | Inr (f, r) \<Rightarrow> Inr (f\<lparr>Preamble := t # Preamble f\<rparr>, r))"

definition Parse :: "string \<Rightarrow> perr + PipelineFile" where
  "Parse src =
     (case Tokenize src of Inl e \<Rightarrow> Inl e
      | Inr tokens \<Rightarrow> (case parse_file (length tokens) tokens of Inl e \<Rightarrow> Inl e | Inr (f, _) \<Rightarrow> Inr f))"

section \<open>Reasoning about parsers\<close>

text \<open>
  \<open>pok M T n k h m Q\<close>: run on a suffix of the stream \<open>T\<close> of at most \<open>n\<close> tokens (that starts with \<open>t\<close> when \<open>h = Some t\<close>), \<open>m\<close> fails
  only with a message that points at a token of \<open>T\<close>, or one of \<open>M\<close> that carries no position, and otherwise gives a value with \<open>Q\<close> and leaves
  a suffix that still has the end-of-file token and is at least \<open>k\<close> tokens shorter.
\<close>

definition stream_ok :: "Token list \<Rightarrow> bool" where
  "stream_ok T \<longleftrightarrow> T \<noteq> [] \<and> Kind (last T) = TokEOF"

text \<open>
  \<open>err_ok M T e\<close>: the error \<open>e\<close> has the line and column of a token of \<open>T\<close>, or it has no position and its message is one of \<open>M\<close>.
\<close>

fun err_ok :: "(string \<Rightarrow> bool) \<Rightarrow> Token list \<Rightarrow> perr \<Rightarrow> bool" where
  "err_ok M T (ParseError m l c) \<longleftrightarrow> (\<exists>t \<in> set T. Line t = l \<and> Col t = c)"
| "err_ok M T (ParseFail m) \<longleftrightarrow> M m"
| "err_ok M T e \<longleftrightarrow> False"

text \<open>
  The errors of \<^verbatim>\<open>Parse\<close> that carry no position: no \<^verbatim>\<open>pipeline\<close> keyword among the tokens, and the ends of input inside a
  \<^verbatim>\<open>when\<close> body, a skipped section, or the step list of \<^verbatim>\<open>steps\<close> or of a \<^verbatim>\<open>post\<close> handler.
\<close>

definition unplaced :: "Token list \<Rightarrow> string \<Rightarrow> bool" where
  "unplaced T m \<longleftrightarrow>
     m = ''no pipeline block found in source'' \<and> \<not> (\<exists>t \<in> set T. Kind t = TokKeyword \<and> Value t = ''pipeline'') \<or>
     m = ''unterminated when block'' \<or>
     (\<exists>x \<in> {''environment'', ''triggers'', ''parameters'', ''tools'', ''libraries''}. m = ''unterminated section '' @ x) \<or>
     (\<exists>t \<in> set T. word t \<and> m = ''unterminated '' @ Value t @ '' block'')"

definition pok :: "(string \<Rightarrow> bool) \<Rightarrow> Token list \<Rightarrow> nat \<Rightarrow> nat \<Rightarrow> Token option \<Rightarrow> 'a parser \<Rightarrow> ('a \<Rightarrow> bool) \<Rightarrow> bool" where
  "pok M T n k h m Q \<longleftrightarrow> stream_ok T \<longrightarrow> (\<forall>ts. suffix ts T \<longrightarrow> ts \<noteq> [] \<longrightarrow> length ts \<le> n \<longrightarrow> (\<forall>t. h = Some t \<longrightarrow> hd ts = t) \<longrightarrow>
     (case m ts of Inl e \<Rightarrow> err_ok M T e | Inr (x, ts') \<Rightarrow> suffix ts' ts \<and> ts' \<noteq> [] \<and> length ts' + k \<le> length ts \<and> Q x))"

lemma pokI:
  assumes "\<And>ts. stream_ok T \<Longrightarrow> suffix ts T \<Longrightarrow> ts \<noteq> [] \<Longrightarrow> length ts \<le> n \<Longrightarrow> (\<And>t. h = Some t \<Longrightarrow> hd ts = t) \<Longrightarrow>
     (case m ts of Inl e \<Rightarrow> err_ok M T e | Inr (x, ts') \<Rightarrow> suffix ts' ts \<and> ts' \<noteq> [] \<and> length ts' + k \<le> length ts \<and> Q x)"
  shows "pok M T n k h m Q"
  using assms unfolding pok_def by blast

lemma pokD:
  assumes "pok M T n k h m Q" "stream_ok T" "suffix ts T" "ts \<noteq> []" "length ts \<le> n" "\<And>t. h = Some t \<Longrightarrow> hd ts = t"
  shows "case m ts of Inl e \<Rightarrow> err_ok M T e | Inr (x, ts') \<Rightarrow> suffix ts' ts \<and> ts' \<noteq> [] \<and> length ts' + k \<le> length ts \<and> Q x"
  using assms unfolding pok_def by blast

lemma pok_weaken: "pok M T n k h m Q \<Longrightarrow> n' \<le> n \<Longrightarrow> k' \<le> k \<Longrightarrow> (\<And>x. Q x \<Longrightarrow> Q' x) \<Longrightarrow> pok M T n' k' h m Q'"
  unfolding pok_def by (fastforce split: sum.splits)

lemma pok_any: "pok M T n k None m Q \<Longrightarrow> pok M T n k h m Q"
  unfolding pok_def by auto

lemma pok_bind_gen:
  assumes "pok M T n a h m Q" "\<And>x. Q x \<Longrightarrow> pok M T (n - a) b None (f x) R"
  shows "pok M T n (a + b) h (bindP m f) R"
proof (rule pokI)
  fix ts assume a: "stream_ok T" "suffix ts T" "ts \<noteq> []" "length ts \<le> n" "\<And>t. h = Some t \<Longrightarrow> hd ts = t"
  note m = pokD [OF assms(1) a]
  show "case bindP m f ts of Inl e \<Rightarrow> err_ok M T e | Inr (x, ts') \<Rightarrow> suffix ts' ts \<and> ts' \<noteq> [] \<and> length ts' + (a + b) \<le> length ts \<and> R x"
  proof (cases "m ts")
    case (Inl e)
    with m show ?thesis by (simp add: bindP_def)
  next
    case (Inr r)
    obtain x ts1 where [simp]: "r = (x, ts1)" by (cases r)
    have m1: "suffix ts1 ts" "ts1 \<noteq> []" "length ts1 + a \<le> length ts" "Q x" using m Inr by auto
    then have "case f x ts1 of Inl e \<Rightarrow> err_ok M T e | Inr (y, ts') \<Rightarrow> suffix ts' ts1 \<and> ts' \<noteq> [] \<and> length ts' + b \<le> length ts1 \<and> R y"
      using pokD [OF assms(2) a(1), of x ts1] a suffix_order.trans by auto
    then show ?thesis using Inr m1 by (auto simp: bindP_def split: sum.splits intro: suffix_order.trans)
  qed
qed

lemma pok_bind: "pok M T n 0 h m Q \<Longrightarrow> (\<And>x. Q x \<Longrightarrow> pok M T n k None (f x) R) \<Longrightarrow> pok M T n k h (bindP m f) R"
  using pok_bind_gen [of M T n 0 h m Q k f R] by simp

lemma pok_bind1: "pok M T n 1 h m Q \<Longrightarrow> (\<And>x. Q x \<Longrightarrow> pok M T (n - 1) 0 None (f x) R) \<Longrightarrow> pok M T n 1 h (bindP m f) R"
  using pok_bind_gen [of M T n 1 h m Q 0 f R] by simp

lemma pok_then: "pok M T n 0 h m Q \<Longrightarrow> pok M T n k None m' R \<Longrightarrow> pok M T n k h (thenP m m') R"
  unfolding thenP_def by (rule pok_bind)

lemma pok_then1: "pok M T n 1 h m Q \<Longrightarrow> pok M T (n - 1) 0 None m' R \<Longrightarrow> pok M T n 1 h (thenP m m') R"
  unfolding thenP_def by (rule pok_bind1)

lemma suffix_last: "suffix ts T \<Longrightarrow> ts \<noteq> [] \<Longrightarrow> last ts = last T"
  by (auto simp: suffix_def)

lemma suffix_rest: "stream_ok T \<Longrightarrow> suffix (t # ts) T \<Longrightarrow> Kind t \<noteq> TokEOF \<Longrightarrow> ts \<noteq> []"
  using suffix_last [of "t # ts" T] by (auto simp: stream_ok_def)

lemma suffix_hd: "suffix (t # ts) T \<Longrightarrow> t \<in> set T"
  by (auto simp: suffix_def)

lemma pok_peek:
  assumes "\<And>t. t \<in> set T \<Longrightarrow> pok M T n k (Some t) (f t) Q"
  shows "pok M T n k h (bindP peekP f) Q"
proof (rule pokI)
  fix ts assume a: "stream_ok T" "suffix ts T" "ts \<noteq> []" "length ts \<le> n"
  then obtain t ts0 where ts: "ts = t # ts0" by (cases ts) auto
  have "t \<in> set T" using a(2) suffix_hd [of t ts0 T] ts by simp
  from pokD [OF assms [OF this] a] ts show
    "case bindP peekP f ts of Inl e \<Rightarrow> err_ok M T e | Inr (x, ts') \<Rightarrow> suffix ts' ts \<and> ts' \<noteq> [] \<and> length ts' + k \<le> length ts \<and> Q x"
    by (auto simp: bindP_def peekP_def)
qed

lemma pok_advance:
  assumes "Kind t \<noteq> TokEOF"
  shows "pok M T n 1 (Some t) advanceP (\<lambda>x. x = t \<and> t \<in> set T)"
proof (rule pokI)
  fix ts assume a: "stream_ok T" "suffix ts T" "ts \<noteq> []" "\<And>t'. Some t = Some t' \<Longrightarrow> hd ts = t'"
  then obtain ts' where ts: "ts = t # ts'" by (cases ts) auto
  have "t \<in> set T" "ts' \<noteq> []" using a(1,2) suffix_hd [of t ts' T] suffix_rest [of T t ts'] assms ts by simp_all
  with assms show "case advanceP ts of Inl e \<Rightarrow> err_ok M T e
      | Inr (x, ts') \<Rightarrow> suffix ts' ts \<and> ts' \<noteq> [] \<and> length ts' + 1 \<le> length ts \<and> x = t \<and> t \<in> set T"
    by (simp add: advanceP_def ts suffix_Cons)
qed

lemma pok_then_advance: "Kind t \<noteq> TokEOF \<Longrightarrow> pok M T (n - 1) 0 None m Q \<Longrightarrow> pok M T n 1 (Some t) (thenP advanceP m) Q"
  by (rule pok_then1 [OF pok_advance])

lemma pok_then_advance0: "Kind t \<noteq> TokEOF \<Longrightarrow> pok M T (n - 1) 0 None m Q \<Longrightarrow> pok M T n 0 (Some t) (thenP advanceP m) Q"
  by (rule pok_weaken [OF pok_then_advance]) auto

lemma pok_return: "Q x \<Longrightarrow> pok M T n 0 h (returnP x) Q"
  by (simp add: pok_def returnP_def)

lemma pok_errAt: "t \<in> set T \<Longrightarrow> pok M T n k h (errAt m t) Q"
  by (auto simp: pok_def errAt_def raiseP_def)

lemma pok_fail: "M m \<Longrightarrow> pok M T n k h (raiseP (ParseFail m)) Q"
  by (simp add: pok_def raiseP_def)

lemma pok_if: "(b \<Longrightarrow> pok M T n k h m Q) \<Longrightarrow> (\<not> b \<Longrightarrow> pok M T n k h m' Q) \<Longrightarrow> pok M T n k h (if b then m else m') Q"
  by simp

lemma skipNewlines_spec: "stream_ok T \<Longrightarrow> suffix ts T \<Longrightarrow> ts \<noteq> [] \<Longrightarrow> \<exists>ts'. skipNewlines ts = Inr ((), ts') \<and> suffix ts' ts \<and> ts' \<noteq> []"
proof (induction ts)
  case (Cons t ts)
  show ?case
  proof (cases "Kind t = TokNewline \<or> Kind t = TokSemicolon")
    case True
    then have "ts \<noteq> []" using suffix_rest [OF Cons.prems(1,2)] by auto
    then obtain ts' where "skipNewlines ts = Inr ((), ts')" "suffix ts' ts" "ts' \<noteq> []"
      using Cons.IH [OF Cons.prems(1) suffix_ConsD [OF Cons.prems(2)]] by blast
    with True show ?thesis by (auto intro: suffix_ConsI)
  qed auto
qed simp

lemma pok_skipNewlines: "pok M T n 0 h skipNewlines (\<lambda>_. True)"
proof (rule pokI)
  fix ts assume "stream_ok T" "suffix ts T" "ts \<noteq> []"
  from skipNewlines_spec [OF this] show
    "case skipNewlines ts of Inl e \<Rightarrow> err_ok M T e | Inr (x, ts') \<Rightarrow> suffix ts' ts \<and> ts' \<noteq> [] \<and> length ts' + 0 \<le> length ts \<and> True"
    by (auto dest: suffix_length_le)
qed

lemma pok_skip_then: "pok M T n k None m Q \<Longrightarrow> pok M T n k h (thenP skipNewlines m) Q"
  by (rule pok_then [OF pok_skipNewlines])

lemma pok_expectLBrace: "pok M T n 1 h (expectLBrace ctx) (\<lambda>t. t \<in> set T)"
  unfolding expectLBrace_def
  by (intro pok_skip_then pok_peek pok_if pok_errAt) (auto intro: pok_weaken [OF pok_advance])

section \<open>Slices are contiguous pieces of the stream\<close>

lemma sublist_suffix: "suffix (out @ r) T \<Longrightarrow> sublist out T"
  by (auto simp: suffix_def sublist_def)

lemma capture_loop_spec:
  assumes "stream_ok T" "suffix ts T" "ts \<noteq> []" "opener \<in> set T"
  shows "case capture_loop closer opener label d ts of Inl e \<Rightarrow> err_ok M T e | Inr (out, r) \<Rightarrow> \<exists>c. ts = out @ c # r \<and> r \<noteq> [] \<and> Kind c = closer"
  using assms
proof (induction closer opener label d ts rule: capture_loop.induct)
  case (2 closer opener label d t ts)
  show ?case
  proof (cases "Kind t = TokEOF")
    case True
    then show ?thesis using "2.prems" by auto
  next
    case False
    then have ne: "ts \<noteq> []" using suffix_rest [OF "2.prems"(1,2)] by blast
    show ?thesis
    proof (cases "d = (0, 0, 0) \<and> Kind t = closer")
      case True
      with False ne show ?thesis by simp
    next
      case F2: False
      from "2.IH" [OF False F2 "2.prems"(1) suffix_ConsD [OF "2.prems"(2)] ne "2.prems"(4)] False F2 show ?thesis
        by (auto split: sum.splits)
    qed
  qed
qed simp

lemma naked_loop_spec:
  assumes "stream_ok T" "suffix ts T" "ts \<noteq> []"
  shows "\<exists>out r. naked_loop d ts = Inr (out, r) \<and> ts = out @ r \<and> r \<noteq> []"
  using assms
proof (induction d ts rule: naked_loop.induct)
  case (2 d t ts)
  show ?case
  proof (cases "Kind t = TokEOF \<or> d = (0, 0, 0) \<and> Kind t \<in> {TokNewline, TokSemicolon, TokRBrace}")
    case True
    then show ?thesis by auto
  next
    case False
    then have ne: "ts \<noteq> []" using suffix_rest [OF "2.prems"(1,2)] by blast
    then obtain out r where "naked_loop (nest (Kind t) d) ts = Inr (out, r)" "ts = out @ r" "r \<noteq> []"
      using "2.IH" [OF _ _ "2.prems"(1) suffix_ConsD [OF "2.prems"(2)] ne] False by blast
    with False show ?thesis by auto
  qed
qed simp

lemma skip_braces_spec:
  assumes "stream_ok T" "suffix ts T" "ts \<noteq> []" "err_ok M T e"
  shows "case skip_braces e d ts of Inl e' \<Rightarrow> e' = e | Inr (x, r) \<Rightarrow> suffix r ts \<and> r \<noteq> [] \<and> length r < length ts"
  using assms
proof (induction e d ts rule: skip_braces.induct)
  case (2 e d t ts)
  show ?case
  proof (cases "Kind t = TokEOF")
    case True
    then show ?thesis by simp
  next
    case False
    then have ne: "ts \<noteq> []" using suffix_rest [OF "2.prems"(1,2)] by blast
    show ?thesis
      using "2.IH"(1) [OF False _ "2.prems"(1) suffix_ConsD [OF "2.prems"(2)] ne "2.prems"(4)]
        "2.IH"(2) [OF False _ _ _ "2.prems"(1) suffix_ConsD [OF "2.prems"(2)] ne "2.prems"(4)]
        "2.IH"(3) [OF False _ _ "2.prems"(1) suffix_ConsD [OF "2.prems"(2)] ne "2.prems"(4)] False ne
      by (auto simp: suffix_Cons split: sum.splits nat.splits)
  qed
qed simp

lemma pok_capture: "opener \<in> set T \<Longrightarrow> pok M T n 1 h (captureUntil closer opener label) (\<lambda>x. sublist x T)"
proof (rule pokI)
  fix ts assume a: "opener \<in> set T" "stream_ok T" "suffix ts T" "ts \<noteq> []"
  from capture_loop_spec [OF a(2,3,4,1), where closer = closer and label = label and d = "(0, 0, 0)"] a(3) sublist_suffix [of _ _ T]
  show "case captureUntil closer opener label ts of Inl e \<Rightarrow> err_ok M T e
      | Inr (x, ts') \<Rightarrow> suffix ts' ts \<and> ts' \<noteq> [] \<and> length ts' + 1 \<le> length ts \<and> sublist x T"
    by (auto simp: captureUntil_def suffix_def split: sum.splits)
qed

lemma pok_naked: "pok M T n 0 h captureNakedArgs (\<lambda>x. sublist x T)"
proof (rule pokI)
  fix ts assume a: "stream_ok T" "suffix ts T" "ts \<noteq> []"
  from naked_loop_spec [OF a, of "(0, 0, 0)"] a(2) sublist_suffix [of _ _ T]
  show "case captureNakedArgs ts of Inl e \<Rightarrow> err_ok M T e
      | Inr (x, ts') \<Rightarrow> suffix ts' ts \<and> ts' \<noteq> [] \<and> length ts' + 0 \<le> length ts \<and> sublist x T"
    by (auto simp: captureNakedArgs_def suffix_def)
qed

lemma pok_skip_braces: "M m \<Longrightarrow> pok M T n 1 h (skip_braces (ParseFail m) d) (\<lambda>_. True)"
proof (rule pokI)
  fix ts assume "M m" and a: "stream_ok T" "suffix ts T" "ts \<noteq> []"
  with skip_braces_spec [OF a, of M "ParseFail m" d]
  show "case skip_braces (ParseFail m) d ts of Inl e \<Rightarrow> err_ok M T e
      | Inr (x, ts') \<Rightarrow> suffix ts' ts \<and> ts' \<noteq> [] \<and> length ts' + 1 \<le> length ts \<and> True"
    by (auto split: sum.splits simp: Suc_le_eq)
qed

lemma pok_skip_nl: "pok M T n 0 h skip_nl (\<lambda>_. True)"
proof (rule pokI)
  have "stream_ok T \<Longrightarrow> suffix ts T \<Longrightarrow> ts \<noteq> [] \<Longrightarrow> \<exists>ts'. skip_nl ts = Inr ((), ts') \<and> suffix ts' ts \<and> ts' \<noteq> []" for ts
  proof (induction ts)
    case (Cons t ts)
    then show ?case
      using suffix_rest [OF Cons.prems(1,2)] Cons.IH [OF Cons.prems(1) suffix_ConsD [OF Cons.prems(2)]] by (auto simp: suffix_Cons)
  qed simp
  then show "\<And>ts. stream_ok T \<Longrightarrow> suffix ts T \<Longrightarrow> ts \<noteq> [] \<Longrightarrow>
      case skip_nl ts of Inl e \<Rightarrow> err_ok M T e | Inr (x, ts') \<Rightarrow> suffix ts' ts \<and> ts' \<noteq> [] \<and> length ts' + 0 \<le> length ts \<and> True"
    by (fastforce dest: suffix_length_le)
qed

section \<open>Well-formed trees\<close>

definition step_ok :: "Token list \<Rightarrow> StepCall \<Rightarrow> bool" where
  "step_ok T sc \<longleftrightarrow> sublist (sc_ArgTokens sc) T \<and> sublist (sc_Block sc) T
     \<and> (sc_ArgsKind sc = ArgsNone \<longrightarrow> sc_ArgTokens sc = []) \<and> (\<not> HasBlock sc \<longrightarrow> sc_Block sc = [])
     \<and> (\<exists>t \<in> set T. word t \<and> sc_Name sc = Value t \<and> sc_Pos sc = posOf t)"

definition post_steps :: "PostBlock \<Rightarrow> StepCall list" where
  "post_steps pb = po_Always pb @ po_Success pb @ po_Failure pb @ po_Unstable pb @ po_Aborted pb @ po_Changed pb @ po_Fixed pb
     @ po_Regression pb @ po_Cleanup pb"

definition post_ok :: "Token list \<Rightarrow> PostBlock \<Rightarrow> bool" where
  "post_ok T pb \<longleftrightarrow> (\<forall>sc \<in> set (post_steps pb). step_ok T sc)"

inductive stage_ok :: "Token list \<Rightarrow> Stage \<Rightarrow> bool" where
  "\<lbrakk>\<exists>t \<in> set T. Kind t = TokString \<and> Value t = nm \<and> posOf t = ps; \<And>x. w = Some x \<Longrightarrow> sublist (ExpressionBody x) T;
    \<And>x. s = Some x \<Longrightarrow> \<forall>sc \<in> set (sb_Steps x). step_ok T sc; \<And>b. p = Some b \<Longrightarrow> \<forall>st \<in> set (Branches b). stage_ok T st;
    \<And>x. q = Some x \<Longrightarrow> post_ok T x\<rbrakk> \<Longrightarrow> stage_ok T (Stage nm w s p q ps)"

inductive_simps stage_ok_iff: "stage_ok T (Stage nm w s p q ps)"

definition pipeline_ok :: "Token list \<Rightarrow> PipelineBlock \<Rightarrow> bool" where
  "pipeline_ok T pb \<longleftrightarrow> (\<forall>ob. pb_Options pb = Some ob \<longrightarrow> (\<forall>c \<in> set (Calls ob). sublist (call_ArgTokens c) T))
     \<and> (\<forall>ss. pb_Stages pb = Some ss \<longrightarrow> (\<forall>st \<in> set (Stages ss). stage_ok T st)) \<and> (\<forall>po. pb_Post pb = Some po \<longrightarrow> post_ok T po)"

section \<open>Every construct\<close>

lemma pok_sub: "pok M T n k None m Q \<Longrightarrow> n' \<le> n \<Longrightarrow> k' \<le> k \<Longrightarrow> pok M T n' k' h m Q"
  by (rule pok_any) (rule pok_weaken)

lemma pok_bind_adv:
  assumes "\<And>t. t \<in> set T \<Longrightarrow> Kind t \<noteq> TokEOF \<Longrightarrow> pok M T (n - 1) 0 None (f t) Q" "\<And>t. t \<in> set T \<Longrightarrow> Kind t = TokEOF \<Longrightarrow> pok M T n 1 None (f t) Q"
  shows "pok M T n 1 h (bindP advanceP f) Q"
proof (rule pok_any, rule pokI)
  fix ts assume a: "stream_ok T" "suffix ts T" "ts \<noteq> []" "length ts \<le> n"
  then obtain t ts' where ts: "ts = t # ts'" by (cases ts) auto
  have t: "t \<in> set T" using a(2) suffix_hd [of t ts' T] ts by simp
  show "case bindP advanceP f ts of Inl e \<Rightarrow> err_ok M T e | Inr (x, ts') \<Rightarrow> suffix ts' ts \<and> ts' \<noteq> [] \<and> length ts' + 1 \<le> length ts \<and> Q x"
  proof (cases "Kind t = TokEOF")
    case True
    then have "bindP advanceP f ts = f t ts" by (simp add: bindP_def advanceP_def ts)
    with pokD [OF assms(2) [OF t True] a] show ?thesis by simp
  next
    case False
    have "pok M T n 1 (Some t) (bindP advanceP f) Q" by (rule pok_bind1 [OF pok_advance [OF False]]) (use assms(1) [OF t False] in auto)
    from pokD [OF this a] ts show ?thesis by simp
  qed
qed

lemma pok_bind_adv_at: "Kind t \<noteq> TokEOF \<Longrightarrow> t \<in> set T \<Longrightarrow> pok M T (n - 1) 0 None (f t) Q \<Longrightarrow> pok M T n 0 (Some t) (bindP advanceP f) Q"
  by (rule pok_weaken [OF pok_bind1 [OF pok_advance]]) auto

lemma pok_step_block:
  assumes "step_ok T sc" "\<not> HasBlock sc"
  shows "pok M T n 0 h (step_block sc) (step_ok T)"
proof (rule pokI)
  fix ts assume a: "stream_ok T" "suffix ts T" "ts \<noteq> []" "length ts \<le> n"
  let ?m = "thenP skip_nl (bindP peekP (\<lambda>t. if Kind t = TokLBrace
     then bindP advanceP (\<lambda>opener. bindP (captureUntil TokRBrace opener ''{'') (\<lambda>body. returnP (Some body))) else returnP None))"
  have "pok M T n 0 None ?m (\<lambda>x. \<forall>body. x = Some body \<longrightarrow> sublist body T)"
    by (intro pok_then [OF pok_skip_nl] pok_peek pok_if pok_bind_adv_at pok_bind [OF pok_sub [OF pok_capture]] pok_return) auto
  from pokD [OF this a] assms
  show "case step_block sc ts of Inl e \<Rightarrow> err_ok M T e | Inr (x, ts') \<Rightarrow> suffix ts' ts \<and> ts' \<noteq> [] \<and> length ts' + 0 \<le> length ts \<and> step_ok T x"
    by (auto simp: step_block_def step_ok_def a(3) split: sum.splits option.splits)
qed

lemma pok_parseStepCall: "pok M T n 1 h parseStepCall (step_ok T)"
  unfolding parseStepCall_def
proof (intro pok_bind_adv pok_if pok_errAt)
  fix t assume t: "t \<in> set T" "Kind t \<noteq> TokEOF" "\<not> \<not> word t"
  let ?sc = "\<lparr>sc_Name = Value t, sc_ArgsKind = ArgsNone, sc_ArgTokens = [], HasBlock = False, sc_Block = [], sc_Pos = posOf t\<rparr>"
  have sc: "step_ok T ?sc \<and> \<not> HasBlock ?sc" using t by (auto simp: step_ok_def)
  then have args: "sublist body T \<Longrightarrow> k \<noteq> ArgsNone \<Longrightarrow> step_ok T (?sc\<lparr>sc_ArgsKind := k, sc_ArgTokens := body\<rparr>)" for body k
    by (simp add: step_ok_def)
  show "pok M T (n - 1) 0 None (let sc = ?sc in bindP (bindP peekP (\<lambda>t.
         if Kind t = TokLParen then bindP advanceP (\<lambda>opener. bindP (captureUntil TokRParen opener ''('') (\<lambda>body.
             returnP (sc\<lparr>sc_ArgsKind := ArgsParen, sc_ArgTokens := body\<rparr>)))
         else if isStmtEnd t \<or> Kind t = TokLBrace then returnP sc
         else bindP captureNakedArgs (\<lambda>body. returnP (sc\<lparr>sc_ArgsKind := ArgsNaked, sc_ArgTokens := body\<rparr>)))) step_block) (step_ok T)"
    unfolding Let_def
  proof (rule pok_bind [where Q = "\<lambda>sc. step_ok T sc \<and> \<not> HasBlock sc"])
    show "pok M T (n - 1) 0 None (bindP peekP (\<lambda>t.
         if Kind t = TokLParen then bindP advanceP (\<lambda>opener. bindP (captureUntil TokRParen opener ''('') (\<lambda>body.
             returnP (?sc\<lparr>sc_ArgsKind := ArgsParen, sc_ArgTokens := body\<rparr>)))
         else if isStmtEnd t \<or> Kind t = TokLBrace then returnP ?sc
         else bindP captureNakedArgs (\<lambda>body. returnP (?sc\<lparr>sc_ArgsKind := ArgsNaked, sc_ArgTokens := body\<rparr>))))
       (\<lambda>sc. step_ok T sc \<and> \<not> HasBlock sc)"
      by (intro pok_peek pok_if pok_bind_adv_at pok_bind [OF pok_sub [OF pok_capture]] pok_bind [OF pok_naked] pok_return) (use sc args in auto)
  qed (auto intro: pok_step_block)
qed (auto simp: word_def)

lemma pok_parseStepList: "\<exists>t \<in> set T. word t \<and> Value t = label \<Longrightarrow> pok (unplaced T) T n 1 h (parseStepList n label) (\<lambda>scs. \<forall>sc \<in> set scs. step_ok T sc)"
proof (induction n arbitrary: h)
  case 0
  then show ?case by (simp add: pok_def)
next
  case (Suc n)
  show ?case
    unfolding parseStepList.simps
    by (intro pok_skip_then pok_peek pok_if pok_fail pok_then_advance pok_return pok_bind1 [OF pok_parseStepCall] pok_bind [OF pok_sub [OF Suc.IH]])
      (use Suc.prems in \<open>auto simp: unplaced_def\<close>)
qed

lemma pok_parseAgent: "pok (unplaced T) T n 1 h parseAgent (\<lambda>_. True)"
  unfolding parseAgent_def Let_def
  by (intro pok_skip_then pok_peek pok_if pok_errAt pok_then_advance pok_then_advance0 pok_return) (auto simp: word_def)

lemma pok_option_call: "pok (unplaced T) T n 0 h (option_call head) (\<lambda>c. sublist (call_ArgTokens c) T)"
  unfolding option_call_def Let_def
  by (intro pok_peek pok_if pok_bind_adv_at pok_bind [OF pok_sub [OF pok_capture]] pok_return) auto

lemma pok_options_loop: "openTok \<in> set T \<Longrightarrow> pok (unplaced T) T n 1 h (options_loop n openTok) (\<lambda>cs. \<forall>c \<in> set cs. sublist (call_ArgTokens c) T)"
proof (induction n arbitrary: h)
  case 0
  then show ?case by (simp add: pok_def)
next
  case (Suc n)
  show ?case
    unfolding options_loop.simps
    by (intro pok_skip_then pok_peek pok_if pok_errAt pok_then_advance pok_return pok_bind [OF pok_option_call] pok_bind [OF pok_sub [OF Suc.IH]])
      (use Suc.prems in \<open>auto simp: word_def\<close>)
qed

lemma pok_parseOptions: "pok (unplaced T) T n 1 h (parseOptions n) (\<lambda>ob. \<forall>c \<in> set (Calls ob). sublist (call_ArgTokens c) T)"
  unfolding parseOptions_def
  by (intro pok_bind1 [OF pok_expectLBrace] pok_bind [OF pok_sub [OF pok_options_loop]] pok_return) auto

lemma pok_parseWhen: "pok (unplaced T) T n 1 h parseWhen (\<lambda>wb. sublist (ExpressionBody wb) T)"
  unfolding parseWhen_def Let_def
  by (intro pok_bind1 [OF pok_expectLBrace] pok_skip_then pok_peek pok_if pok_errAt pok_then_advance0 pok_bind [OF pok_sub [OF pok_expectLBrace]]
      pok_bind [OF pok_sub [OF pok_capture]] pok_then [OF pok_sub [OF pok_skip_braces]] pok_return) (auto simp: unplaced_def)

lemma post_ok_set: "post_ok T pb \<Longrightarrow> \<forall>sc \<in> set steps. step_ok T sc \<Longrightarrow> set_handler name steps pb = Some pb' \<Longrightarrow> post_ok T pb'"
  by (force simp: post_ok_def post_steps_def set_handler_def split: if_splits)

lemma pok_post_loop: "openTok \<in> set T \<Longrightarrow> post_ok T pb \<Longrightarrow> pok (unplaced T) T n 1 h (post_loop n openTok pb) (post_ok T)"
proof (induction n arbitrary: h pb)
  case 0
  then show ?case by (simp add: pok_def)
next
  case (Suc n)
  have set: "pok (unplaced T) T n' 0 None (case set_handler nm steps pb of None \<Rightarrow> errAt m head | Some pb' \<Rightarrow> post_loop n openTok pb') (post_ok T)"
    if "head \<in> set T" "\<forall>sc \<in> set steps. step_ok T sc" "n' \<le> n" for nm steps head m n'
  proof (cases "set_handler nm steps pb")
    case (Some pb')
    then show ?thesis
      using pok_sub [OF Suc.IH [OF Suc.prems(1) post_ok_set [OF Suc.prems(2) that(2) Some]] that(3), of 0 None] by simp
  qed (use that in \<open>simp add: pok_errAt\<close>)
  show ?case
    unfolding post_loop.simps
    by (intro pok_skip_then pok_peek pok_if pok_errAt pok_then_advance pok_return pok_then [OF pok_sub [OF pok_expectLBrace]]
        pok_bind [OF pok_sub [OF pok_parseStepList]] set) (use Suc.prems in \<open>auto simp: word_def\<close>)
qed

lemma pok_parsePost: "pok (unplaced T) T n 1 h (parsePost n) (post_ok T)"
  unfolding parsePost_def
  by (intro pok_bind1 [OF pok_expectLBrace] pok_sub [OF pok_post_loop]) (auto simp: post_ok_def post_steps_def)

lemma stage_ok_set:
  "stage_ok T st \<Longrightarrow> sublist (ExpressionBody wb) T \<Longrightarrow> stage_ok T (set_When wb st)"
  "stage_ok T st \<Longrightarrow> \<forall>sc \<in> set (sb_Steps s). step_ok T sc \<Longrightarrow> stage_ok T (set_Steps s st)"
  "stage_ok T st \<Longrightarrow> \<forall>x \<in> set (Branches p). stage_ok T x \<Longrightarrow> stage_ok T (set_Parallel p st)"
  "stage_ok T st \<Longrightarrow> post_ok T q \<Longrightarrow> stage_ok T (set_Post q st)"
  by (cases st; simp add: stage_ok_iff)+

lemma stage_ok_pos: "stage_ok T st \<Longrightarrow> \<exists>t \<in> set T. Line t = pos_Line (st_Pos st) \<and> Col t = pos_Col (st_Pos st)"
  by (cases st) (auto simp: stage_ok_iff posOf_def)

lemma pok_unterminated: "stage_ok T st \<Longrightarrow> pok (unplaced T) T n k h (raiseP (ParseError m (pos_Line (st_Pos st)) (pos_Col (st_Pos st)))) Q"
  using stage_ok_pos by (simp add: pok_def raiseP_def)

lemma pok_stages:
  "pok (unplaced T) T n 1 None (parseStage n) (stage_ok T)"
  "stage_ok T st \<Longrightarrow> pok (unplaced T) T n 1 None (stage_loop n st) (stage_ok T)"
  "pok (unplaced T) T n 1 None (parseParallelStageChild n parTok) (\<lambda>b. \<forall>x \<in> set (Branches b). stage_ok T x)"
  "openTok \<in> set T \<Longrightarrow> pok (unplaced T) T n 1 None (stages_loop n what openTok) (\<lambda>sts. \<forall>x \<in> set sts. stage_ok T x)"
proof (induction n arbitrary: st parTok what openTok)
  case 0
  {
    case 1 then show ?case by (simp add: pok_def)
  next
    case 2 then show ?case by (simp add: pok_def)
  next
    case 3 then show ?case by (simp add: pok_def)
  next
    case 4 then show ?case by (simp add: pok_def)
  }
next
  case (Suc n)
  {
    case 1
    show ?case
      unfolding parseStage.simps
      by (intro pok_peek pok_if pok_errAt pok_then_advance pok_then_advance0 pok_skip_then pok_then [OF pok_sub [OF pok_expectLBrace]] pok_sub [OF Suc.IH(2)])
        (auto simp: stage_ok_iff)
  next
    case 2
    note loop = pok_sub [OF Suc.IH(2) [OF stage_ok_set(1) [OF 2]]] pok_sub [OF Suc.IH(2) [OF stage_ok_set(2) [OF 2]]]
      pok_sub [OF Suc.IH(2) [OF stage_ok_set(3) [OF 2]]] pok_sub [OF Suc.IH(2) [OF stage_ok_set(4) [OF 2]]]
    show ?case
      unfolding stage_loop.simps
      by (intro pok_skip_then pok_peek pok_if pok_errAt pok_unterminated pok_then_advance pok_return pok_bind [OF pok_sub [OF pok_parseWhen]]
          pok_then [OF pok_sub [OF pok_expectLBrace]] pok_bind [OF pok_sub [OF pok_parseStepList]] pok_bind [OF pok_sub [OF pok_parsePost]]
          pok_bind [OF pok_sub [OF Suc.IH(3)]] loop) (use 2 in \<open>auto simp: word_def\<close>)
  next
    case 3
    show ?case
      unfolding parseParallelStageChild.simps
      by (intro pok_bind1 [OF pok_expectLBrace] pok_bind [OF pok_sub [OF Suc.IH(4)]] pok_return) auto
  next
    case 4
    show ?case
      unfolding stages_loop.simps
      by (intro pok_skip_then pok_peek pok_if pok_errAt pok_then_advance pok_return pok_bind [OF pok_sub [OF Suc.IH(1)]]
          pok_bind [OF pok_sub [OF Suc.IH(4)]]) (use 4 in auto)
  }
qed

lemma pok_parseStages: "pok (unplaced T) T n 1 h (parseStages n) (\<lambda>ss. \<forall>x \<in> set (Stages ss). stage_ok T x)"
  unfolding parseStages_def
  by (intro pok_bind1 [OF pok_expectLBrace] pok_bind [OF pok_sub [OF pok_stages(4)]] pok_return) auto

lemma pok_skipBracedSection: "name \<in> {''environment'', ''triggers'', ''parameters'', ''tools'', ''libraries''} \<Longrightarrow> pok (unplaced T) T n 1 h (skipBracedSection name) (\<lambda>_. True)"
  unfolding skipBracedSection_def
  by (intro pok_skip_then pok_peek pok_if pok_errAt pok_then_advance pok_sub [OF pok_skip_braces]) (auto simp: unplaced_def)

lemma pok_pipeline_loop: "openTok \<in> set T \<Longrightarrow> pipeline_ok T pb \<Longrightarrow> pok (unplaced T) T n 1 h (pipeline_loop n openTok pb) (pipeline_ok T)"
proof (induction n arbitrary: h pb)
  case 0
  then show ?case by (simp add: pok_def)
next
  case (Suc n)
  note loop = pok_sub [OF Suc.IH [OF Suc.prems(1)]]
  show ?case
    unfolding pipeline_loop.simps
    by (intro pok_skip_then pok_peek pok_if pok_errAt pok_then_advance pok_return pok_bind [OF pok_sub [OF pok_parseAgent]]
        pok_bind [OF pok_sub [OF pok_parseOptions]] pok_bind [OF pok_sub [OF pok_parseStages]] pok_bind [OF pok_sub [OF pok_parsePost]]
        pok_then [OF pok_sub [OF pok_skipBracedSection]] loop) (use Suc.prems in \<open>auto simp: word_def pipeline_ok_def\<close>)
qed

lemma pok_parsePipelineBlock: "Kind t \<noteq> TokEOF \<Longrightarrow> t \<in> set T \<Longrightarrow> pok (unplaced T) T n 0 (Some t) (parsePipelineBlock n) (pipeline_ok T)"
  unfolding parsePipelineBlock_def
  by (intro pok_bind_adv_at pok_bind [OF pok_sub [OF pok_expectLBrace]] pok_sub [OF pok_pipeline_loop]) (auto simp: pipeline_ok_def)

lemma parse_file_spec:
  assumes "stream_ok T" "T = pre @ ts" "ts \<noteq> []" "length ts \<le> n"
    and "\<not> (\<exists>t \<in> set pre. Kind t = TokKeyword \<and> Value t = ''pipeline'')" and only: "\<forall>t \<in> set (butlast T). Kind t \<noteq> TokEOF"
  shows "case parse_file n ts of Inl e \<Rightarrow> err_ok (unplaced T) T e
     | Inr (f, r) \<Rightarrow> pipeline_ok T (Pipeline f) \<and> prefix (Preamble f) ts \<and> \<not> (\<exists>t \<in> set (Preamble f). Kind t = TokKeyword \<and> Value t = ''pipeline'')"
  using assms(1-5)
proof (induction n ts arbitrary: pre rule: parse_file.induct)
  case (2 n t ts)
  have suf: "suffix (t # ts) T" using "2.prems"(2) by (simp add: suffix_def)
  have t: "t \<in> set T" by (rule suffix_hd [OF suf])
  consider (eof) "Kind t = TokEOF" | (block) "Kind t \<noteq> TokEOF" "Kind t = TokKeyword \<and> Value t = ''pipeline''"
    | (pre) "Kind t \<noteq> TokEOF" "\<not> (Kind t = TokKeyword \<and> Value t = ''pipeline'')" by blast
  then show ?case
  proof cases
    case eof
    then have "ts = []" using only "2.prems"(2) by (cases "ts = []") (auto simp: butlast_append)
    with eof "2.prems"(2,5) show ?thesis by (auto simp: unplaced_def)
  next
    case block
    with t show ?thesis
      using pokD [OF pok_parsePipelineBlock [of t T n] "2.prems"(1) suf "2.prems"(3,4)] by (auto simp: bindP_def returnP_def split: sum.splits)
  next
    case pre
    then have ne: "ts \<noteq> []" using suffix_rest [OF "2.prems"(1) suf] by blast
    from "2.IH" [of "pre @ [t]"] pre ne "2.prems" show ?thesis by (auto split: sum.splits)
  qed
qed simp

text \<open>
  C26. \<^verbatim>\<open>Parse\<close> is total and points into its input: on every source it returns, without running past the token list and within its
  fuel. An error is a lexer error with its position, or has the line and column of a token of the source, or is one of the few
  messages that carry no position (\<open>unplaced\<close>: no \<^verbatim>\<open>pipeline\<close> keyword in the source, or the source ends inside a \<^verbatim>\<open>when\<close> body, a skipped section or a step list;
  the comment of \<^verbatim>\<open>Parse\<close> promises a position for these, too); a result keeps its raw slices (step arguments, blocks, option arguments, \<^verbatim>\<open>when\<close> bodies) as contiguous pieces of the
  token stream and its preamble as the tokens before the first \<^verbatim>\<open>pipeline\<close> keyword.
\<close>

theorem Parse_total:
  "case Parse src of
     Inl e \<Rightarrow> (case Tokenize src of Inl e' \<Rightarrow> e = e' \<and> (\<exists>m l c. e = LexError m l c) | Inr T \<Rightarrow> err_ok (unplaced T) T e)
   | Inr f \<Rightarrow> (\<exists>T. Tokenize src = Inr T \<and> pipeline_ok T (Pipeline f) \<and> prefix (Preamble f) T
       \<and> \<not> (\<exists>t \<in> set (Preamble f). Kind t = TokKeyword \<and> Value t = ''pipeline''))"
proof (cases "Tokenize src")
  case (Inl e)
  then show ?thesis using Tokenize_error by (simp add: Parse_def)
next
  case (Inr T)
  then obtain body e where "T = body @ [e]" "Kind e = TokEOF" "\<forall>t \<in> set body. Kind t \<noteq> TokEOF" using Tokenize_eof by blast
  then have T: "stream_ok T" "T = [] @ T" "T \<noteq> []" "\<forall>t \<in> set (butlast T). Kind t \<noteq> TokEOF" by (auto simp: stream_ok_def)
  from parse_file_spec [OF T(1-3) order_refl _ T(4)] Inr show ?thesis
    by (auto simp: Parse_def split: sum.splits)
qed

end
