(* ===== verification/ScriptParser.thy ===== *)
theory ScriptParser
  imports DeclParser
begin

text \<open>
  The script parser (\<^verbatim>\<open>internal/pipeline/parser_script.go\<close>): syntax trees, the cursor with its bracket depth, and one definition
  per production. The productions call each other in a cycle; the calls that close the cycle go through a table \<open>knot\<close> of
  the recursive entry points, and \<open>tied\<close> stacks the tables: level \<open>n\<close> calls level \<open>n - 1\<close>. Loops
  take the same fuel. The entry points pass the number of tokens, which is enough: every call that closes the cycle comes
  after a token has been consumed.
\<close>

section \<open>Syntax trees\<close>

datatype 'e CallArgOf = CallArg (ca_Name: string) (ca_Value: 'e)

datatype 'e MapEntryOf = MapEntry (me_Key: 'e) (me_Value: 'e)

datatype 'e ParamOf = Param (param_Type: string) (param_Name: string) (param_Default: "'e option")

datatype 's BlockOf = Block (Statements: "'s list") (block_Pos: Position)

datatype 's CatchOf = CatchClause (cc_ParamType: string) (cc_ParamName: string) (cc_Body: "'s BlockOf") (cc_Pos: Position)

datatype ('e, 's) ClosureOf = ClosureExpr (cl_Params: "'e ParamOf list") (cl_Body: "'s BlockOf") (cl_Pos: Position)

datatype Expr =
    NumberLit string Position
  | StringLit string StringKind Position
  | BoolLit bool Position
  | NullLit Position
  | IdentExpr string Position
  | MemberExpr Expr string Position
  | SubscriptExpr Expr Expr Position
  | CallExpr Expr "Expr CallArgOf list" "(Expr, Stmt) ClosureOf option" Position
  | CommandCallExpr Expr Expr Position
  | BinaryExpr string Expr Expr Position
  | UnaryExpr string Expr Position
  | TernaryExpr Expr Expr Expr Position
  | AssignExpr Expr string Expr Position
  | ListExpr "Expr list" Position
  | MapExpr "Expr MapEntryOf list" Position
  | Closure "(Expr, Stmt) ClosureOf"
  | NewExpr string "Expr CallArgOf list" Position
  and Stmt =
    FuncDecl string "Expr ParamOf list" "Stmt BlockOf" "string list" Position
  | VarDecl string string "Expr option" Position
  | AssignStmt Expr string Expr Position
  | ExprStmt Expr Position
  | IfStmt Expr Stmt "Stmt option" Position
  | ForInStmt string Expr Stmt Position
  | ForCStmt "Stmt option" "Expr option" "Expr option" Stmt Position
  | WhileStmt Expr Stmt Position
  | TryStmt "Stmt BlockOf" "Stmt CatchOf list" "Stmt BlockOf option" Position
  | ReturnStmt "Expr option" Position
  | ThrowStmt Expr Position
  | BreakStmt Position
  | ContinueStmt Position
  | BlockStmt "Stmt BlockOf" Position

type_synonym CallArg = "Expr CallArgOf"
type_synonym MapEntry = "Expr MapEntryOf"
type_synonym Param = "Expr ParamOf"
type_synonym Block = "Stmt BlockOf"
type_synonym CatchClause = "Stmt CatchOf"
type_synonym ClosureExpr = "(Expr, Stmt) ClosureOf"

text \<open>\<^verbatim>\<open>ExprPos\<close>\<close>

fun ExprPos :: "Expr \<Rightarrow> Position" where
  "ExprPos (NumberLit _ p) = p"
| "ExprPos (StringLit _ _ p) = p"
| "ExprPos (BoolLit _ p) = p"
| "ExprPos (NullLit p) = p"
| "ExprPos (IdentExpr _ p) = p"
| "ExprPos (MemberExpr _ _ p) = p"
| "ExprPos (SubscriptExpr _ _ p) = p"
| "ExprPos (CallExpr _ _ _ p) = p"
| "ExprPos (CommandCallExpr _ _ p) = p"
| "ExprPos (BinaryExpr _ _ _ p) = p"
| "ExprPos (UnaryExpr _ _ p) = p"
| "ExprPos (TernaryExpr _ _ _ p) = p"
| "ExprPos (AssignExpr _ _ _ p) = p"
| "ExprPos (ListExpr _ p) = p"
| "ExprPos (MapExpr _ p) = p"
| "ExprPos (Closure c) = cl_Pos c"
| "ExprPos (NewExpr _ _ p) = p"

section \<open>The cursor\<close>

text \<open>The state: the tokens from the cursor on, and the bracket depth.\<close>

type_synonym scriptParser = "Token list \<times> nat"
type_synonym 'a sparser = "(scriptParser, 'a) parse"

definition peekS :: "Token sparser" where
  "peekS s = (case fst s of [] \<Rightarrow> Inl Panic | t # _ \<Rightarrow> Inr (t, s))"

definition advanceS :: "Token sparser" where
  "advanceS s = (case fst s of [] \<Rightarrow> Inl Panic | t # ts \<Rightarrow> Inr (t, if Kind t = TokEOF then s else (ts, snd s)))"

definition enterBracket :: "unit sparser" where
  "enterBracket s = Inr ((), (fst s, snd s + 1))"

definition exitBracket :: "unit sparser" where
  "exitBracket s = Inr ((), (fst s, if snd s > 0 then snd s - 1 else snd s))"

fun drop_nl :: "Token list \<Rightarrow> Token list" where
  "drop_nl [] = []"
| "drop_nl (t # ts) = (if Kind t = TokNewline then drop_nl ts else t # ts)"

fun look :: "nat \<Rightarrow> Token list \<Rightarrow> Token option" where
  "look n ts = (case drop_nl ts of [] \<Rightarrow> None
     | t # r \<Rightarrow> (case n of 0 \<Rightarrow> Some t | Suc m \<Rightarrow> if Kind t = TokEOF then Some t else look m r))"

definition lookAhead :: "nat \<Rightarrow> Token sparser" where
  "lookAhead n s = (case look n (fst s) of None \<Rightarrow> Inl Panic | Some t \<Rightarrow> Inr (t, s))"

text \<open>\<open>on_toks m\<close>: a parser that leaves the bracket depth alone.\<close>

definition on_toks :: "'a parser \<Rightarrow> 'a sparser" where
  "on_toks m s = (case m (fst s) of Inl e \<Rightarrow> Inl e | Inr (x, ts) \<Rightarrow> Inr (x, (ts, snd s)))"

definition skipNL :: "unit sparser" where
  "skipNL = on_toks skipNewlines"

definition skipWS :: "unit sparser" where
  "skipWS s = (if snd s = 0 then Inr ((), s) else on_toks skip_nl s)"

definition errorf :: "string \<Rightarrow> 'a sparser" where
  "errorf m = bindP peekS (\<lambda>tok. raiseP (ParseError m (Line tok) (Col tok)))"

text \<open>\<open>peeking m\<close>: run \<open>m\<close>, then put the cursor back (\<^verbatim>\<open>p.pos = saved\<close>).\<close>

definition peeking :: "'a sparser \<Rightarrow> 'a sparser" where
  "peeking m s = (case m s of Inl e \<Rightarrow> Inl e | Inr (x, _) \<Rightarrow> Inr (x, s))"

definition isOp :: "string \<Rightarrow> Token \<Rightarrow> bool" where
  "isOp v t \<longleftrightarrow> Kind t = TokOperator \<and> Value t = v"

definition isKw :: "string \<Rightarrow> Token \<Rightarrow> bool" where
  "isKw v t \<longleftrightarrow> Kind t = TokKeyword \<and> Value t = v"

text \<open>A word between single quotes, in messages.\<close>

definition sq :: "string \<Rightarrow> string" where
  "sq w = CHR 0x27 # w @ [CHR 0x27]"

text \<open>\<^verbatim>\<open>if p.peek().Kind != k { return p.errorf(m) }; p.advance()\<close>\<close>

definition expect :: "TokenKind \<Rightarrow> string \<Rightarrow> Token sparser" where
  "expect k m = bindP peekS (\<lambda>t. if Kind t \<noteq> k then errorf m else advanceS)"

text \<open>
  \<open>whileS n c body x\<close>: while the token at the cursor satisfies \<open>c x\<close>, run \<open>body\<close>. \<open>loopS n body x\<close>: run \<open>body\<close>, which either
  goes on with a new value (\<^verbatim>\<open>continue\<close>) or returns.
\<close>

primrec whileS :: "nat \<Rightarrow> ('a \<Rightarrow> Token \<Rightarrow> bool) \<Rightarrow> ('a \<Rightarrow> 'a sparser) \<Rightarrow> 'a \<Rightarrow> 'a sparser" where
  "whileS 0 c body x = raiseP OutOfFuel"
| "whileS (Suc n) c body x = bindP peekS (\<lambda>t. if c x t then bindP (body x) (whileS n c body) else returnP x)"

primrec loopS :: "nat \<Rightarrow> ('a \<Rightarrow> ('a + 'b) sparser) \<Rightarrow> 'a \<Rightarrow> 'b sparser" where
  "loopS 0 body x = raiseP OutOfFuel"
| "loopS (Suc n) body x = bindP (body x) (\<lambda>r. case r of Inl x' \<Rightarrow> loopS n body x' | Inr y \<Rightarrow> returnP y)"

text \<open>The recursive entry points, and the calls through a table of them.\<close>

datatype entry = EExpr | EPostfix | EStmt | EBlock

datatype node = NExpr Expr | NStmt Stmt | NBlock Block

type_synonym knot = "entry \<Rightarrow> node sparser"

definition rExpr :: "knot \<Rightarrow> Expr sparser" where
  "rExpr r = bindP (r EExpr) (\<lambda>x. case x of NExpr e \<Rightarrow> returnP e | _ \<Rightarrow> raiseP Panic)"

definition rPostfix :: "knot \<Rightarrow> Expr sparser" where
  "rPostfix r = bindP (r EPostfix) (\<lambda>x. case x of NExpr e \<Rightarrow> returnP e | _ \<Rightarrow> raiseP Panic)"

definition rStmt :: "knot \<Rightarrow> Stmt sparser" where
  "rStmt r = bindP (r EStmt) (\<lambda>x. case x of NStmt st \<Rightarrow> returnP st | _ \<Rightarrow> raiseP Panic)"

definition rBlock :: "knot \<Rightarrow> Block sparser" where
  "rBlock r = bindP (r EBlock) (\<lambda>x. case x of NBlock b \<Rightarrow> returnP b | _ \<Rightarrow> raiseP Panic)"

section \<open>Parameters and arguments\<close>

definition parseParam :: "knot \<Rightarrow> Param sparser" where
  "parseParam r = bindP (expect TokIdent ''expected parameter name'') (\<lambda>first.
     bindP peekS (\<lambda>t.
     bindP (if Kind t = TokIdent then bindP advanceS (\<lambda>nm. returnP (Value first, Value nm)) else returnP ('''', Value first)) (\<lambda>(typ, name).
     bindP peekS (\<lambda>t2.
     if isOp ''='' t2 then thenP advanceS (bindP (rExpr r) (\<lambda>e. returnP (Param typ name (Some e))))
     else returnP (Param typ name None)))))"

definition parseParamList :: "nat \<Rightarrow> knot \<Rightarrow> Param list sparser" where
  "parseParamList n r = thenP skipWS (bindP peekS (\<lambda>t.
     if Kind t = TokRParen then returnP []
     else loopS n (\<lambda>params. bindP (parseParam r) (\<lambda>param. thenP skipWS (bindP peekS (\<lambda>t.
       if Kind t = TokComma then thenP advanceS (thenP skipWS (returnP (Inl (params @ [param]))))
       else returnP (Inr (params @ [param])))))) []))"

definition parseOneArg :: "knot \<Rightarrow> CallArg sparser" where
  "parseOneArg r = bindP peekS (\<lambda>head. bindP (lookAhead 1) (\<lambda>t1.
     if word head \<and> isOp '':'' t1
     then bindP advanceS (\<lambda>nameTok. thenP advanceS (thenP skipWS (bindP (rExpr r) (\<lambda>v. returnP (CallArg (Value nameTok) v)))))
     else bindP (rExpr r) (\<lambda>v. returnP (CallArg '''' v))))"

definition parseArgList :: "nat \<Rightarrow> knot \<Rightarrow> CallArg list sparser" where
  "parseArgList n r = thenP skipWS (bindP peekS (\<lambda>t.
     if Kind t = TokRParen then returnP []
     else loopS n (\<lambda>args. bindP (parseOneArg r) (\<lambda>arg. thenP skipWS (bindP peekS (\<lambda>t.
       if Kind t = TokComma then thenP advanceS (thenP skipWS (returnP (Inl (args @ [arg]))))
       else returnP (Inr (args @ [arg])))))) []))"

section \<open>Closures\<close>

text \<open>The loop of \<^verbatim>\<open>hasClosureParams\<close>; its value becomes \<open>False\<close> when a comma is not followed by a name.\<close>

definition has_params_rest :: "nat \<Rightarrow> bool sparser" where
  "has_params_rest n = bindP (whileS n (\<lambda>ok t. ok \<and> Kind t = TokComma) (\<lambda>_. thenP advanceS (thenP skipNL (bindP peekS (\<lambda>t2.
       if Kind t2 \<noteq> TokIdent then returnP False
       else thenP advanceS (bindP peekS (\<lambda>t3. if Kind t3 = TokIdent then thenP advanceS (returnP True) else returnP True)))))) True)
     (\<lambda>ok. if \<not> ok then returnP False else thenP skipNL (bindP peekS (\<lambda>t2. returnP (isOp ''->'' t2))))"

definition hasClosureParams :: "nat \<Rightarrow> bool sparser" where
  "hasClosureParams n = peeking (thenP skipNL (bindP peekS (\<lambda>t.
     if isOp ''->'' t then returnP True
     else if Kind t \<noteq> TokIdent then returnP False
     else thenP advanceS (bindP peekS (\<lambda>t2. thenP (if Kind t2 = TokIdent then thenP advanceS (returnP ()) else returnP ()) (has_params_rest n))))))"

definition parseClosureParams :: "nat \<Rightarrow> knot \<Rightarrow> Param list sparser" where
  "parseClosureParams n r = thenP skipNL (bindP peekS (\<lambda>t.
     if isOp ''->'' t then thenP advanceS (returnP [])
     else bindP (loopS n (\<lambda>params. bindP (parseParam r) (\<lambda>param. thenP skipNL (bindP peekS (\<lambda>t.
         if Kind t = TokComma then thenP advanceS (thenP skipNL (returnP (Inl (params @ [param]))))
         else returnP (Inr (params @ [param])))))) []) (\<lambda>params.
       bindP peekS (\<lambda>t. if \<not> isOp ''->'' t then errorf ''expected -> after closure params'' else thenP advanceS (returnP params)))))"

definition parseClosureOrFail :: "nat \<Rightarrow> knot \<Rightarrow> ClosureExpr sparser" where
  "parseClosureOrFail n r = bindP advanceS (\<lambda>opener. bindP (hasClosureParams n) (\<lambda>hp.
     bindP (if hp then parseClosureParams n r else returnP []) (\<lambda>params.
     bindP (rBlock r) (\<lambda>body. returnP (ClosureExpr params body (posOf opener))))))"

definition parseClosure :: "nat \<Rightarrow> knot \<Rightarrow> ClosureExpr sparser" where
  "parseClosure n r = parseClosureOrFail n r"

section \<open>Primary expressions\<close>

definition parseNew :: "nat \<Rightarrow> knot \<Rightarrow> Expr sparser" where
  "parseNew n r = bindP advanceS (\<lambda>head. bindP (expect TokIdent (''expected type name after '' @ sq ''new'')) (\<lambda>nameTok.
     thenP (expect TokLParen ''expected ( after new TypeName'') (thenP enterBracket (thenP skipWS (bindP (parseArgList n r) (\<lambda>args.
     thenP skipWS (thenP (expect TokRParen ''expected ) closing new(...)'') (thenP exitBracket
       (returnP (NewExpr (Value nameTok) args (posOf head)))))))))))"

definition isMapKey :: "Token \<Rightarrow> bool" where
  "isMapKey t \<longleftrightarrow> Kind t \<in> {TokIdent, TokString, TokNumber, TokKeyword}"

text \<open>Both exits of the list loop, and the exit of the map loop, consume the bracket and call \<^verbatim>\<open>exitBracket\<close>.\<close>

definition parseListBody :: "nat \<Rightarrow> knot \<Rightarrow> Position \<Rightarrow> Expr sparser" where
  "parseListBody n r pos = bindP (loopS n (\<lambda>es. thenP skipWS (bindP (rExpr r) (\<lambda>e. thenP skipWS (bindP peekS (\<lambda>t.
     if Kind t = TokComma then thenP advanceS (thenP skipWS (bindP peekS (\<lambda>t2.
       if Kind t2 = TokRBracket then thenP advanceS (returnP (Inr (es @ [e])))
       else returnP (Inl (es @ [e])))))
     else if Kind t = TokRBracket then thenP advanceS (returnP (Inr (es @ [e])))
     else errorf ''expected , or ] in list literal''))))) []) (\<lambda>es. thenP exitBracket (returnP (ListExpr es pos)))"

definition key_expr :: "Token \<Rightarrow> Expr" where
  "key_expr t = (case Kind t of TokString \<Rightarrow> StringLit (Value t) (tok_StringKind t) (posOf t)
     | TokNumber \<Rightarrow> NumberLit (Value t) (posOf t) | _ \<Rightarrow> IdentExpr (Value t) (posOf t))"

definition parseMapBody :: "nat \<Rightarrow> knot \<Rightarrow> Position \<Rightarrow> Expr sparser" where
  "parseMapBody n r pos = bindP (loopS n (\<lambda>es. thenP skipWS (bindP peekS (\<lambda>keyTok.
     if \<not> isMapKey keyTok then errorf ''expected map key''
     else thenP advanceS (bindP peekS (\<lambda>colon.
       if \<not> isOp '':'' colon then errorf ''expected : after map key''
       else thenP advanceS (thenP skipWS (bindP (rExpr r) (\<lambda>v.
         let es' = es @ [MapEntry (key_expr keyTok) v] in
         thenP skipWS (bindP peekS (\<lambda>t.
           if Kind t = TokComma then thenP advanceS (returnP (Inl es'))
           else if Kind t = TokRBracket then thenP advanceS (returnP (Inr es'))
           else errorf ''expected , or ] in map literal'')))))))))) []) (\<lambda>es. thenP exitBracket (returnP (MapExpr es pos)))"

definition parseListOrMap :: "nat \<Rightarrow> knot \<Rightarrow> Expr sparser" where
  "parseListOrMap n r = bindP advanceS (\<lambda>opener. thenP enterBracket (thenP skipWS (bindP peekS (\<lambda>t.
     let pos = posOf opener in
     if Kind t = TokRBracket then thenP advanceS (thenP exitBracket (returnP (ListExpr [] pos)))
     else if isOp '':'' t then thenP advanceS (thenP skipWS (thenP (expect TokRBracket ''expected ] after [: empty map marker'')
       (thenP exitBracket (returnP (MapExpr [] pos)))))
     else bindP (lookAhead 1) (\<lambda>t1.
       if isMapKey t \<and> isOp '':'' t1 then parseMapBody n r pos else parseListBody n r pos)))))"

definition parsePrimary :: "nat \<Rightarrow> knot \<Rightarrow> Expr sparser" where
  "parsePrimary n r = thenP skipWS (bindP peekS (\<lambda>tok.
     let pos = posOf tok in
     case Kind tok of
       TokNumber \<Rightarrow> thenP advanceS (returnP (NumberLit (Value tok) pos))
     | TokString \<Rightarrow> thenP advanceS (returnP (StringLit (Value tok) (tok_StringKind tok) pos))
     | TokKeyword \<Rightarrow>
         if Value tok = ''true'' then thenP advanceS (returnP (BoolLit True pos))
         else if Value tok = ''false'' then thenP advanceS (returnP (BoolLit False pos))
         else if Value tok = ''null'' then thenP advanceS (returnP (NullLit pos))
         else if Value tok = ''new'' then parseNew n r
         else thenP advanceS (returnP (IdentExpr (Value tok) pos))
     | TokIdent \<Rightarrow> thenP advanceS (returnP (IdentExpr (Value tok) pos))
     | TokLParen \<Rightarrow> thenP advanceS (thenP enterBracket (thenP skipWS (bindP (rExpr r) (\<lambda>e.
         thenP skipWS (thenP (expect TokRParen ''expected ) closing parenthesised expr'') (thenP exitBracket (returnP e)))))))
     | TokLBracket \<Rightarrow> parseListOrMap n r
     | TokLBrace \<Rightarrow> bindP (parseClosure n r) (\<lambda>c. returnP (Closure c))
     | _ \<Rightarrow> errorf ''unexpected token in expression''))"


section \<open>Postfix and binary operators\<close>

text \<open>The trailing closure of a call: behind newlines only inside brackets (where \<^verbatim>\<open>skipWS\<close> skips them); otherwise the cursor goes back.\<close>

definition trailing_closure :: "nat \<Rightarrow> knot \<Rightarrow> ClosureExpr option sparser" where
  "trailing_closure n r = bindP (peeking (thenP skipWS peekS)) (\<lambda>t.
     if Kind t = TokLBrace then thenP skipWS (bindP (parseClosureOrFail n r) (\<lambda>cl. returnP (Some cl))) else returnP None)"

definition is_name :: "Expr \<Rightarrow> bool" where
  "is_name e = (case e of IdentExpr _ _ \<Rightarrow> True | MemberExpr _ _ _ \<Rightarrow> True | _ \<Rightarrow> False)"

definition postfix_starts :: "Expr \<Rightarrow> Token \<Rightarrow> bool" where
  "postfix_starts base t \<longleftrightarrow> isOp ''.'' t \<or> Kind t = TokLParen \<or> Kind t = TokLBracket \<or> Kind t = TokLBrace \<and> is_name base"

definition postfix_op :: "nat \<Rightarrow> knot \<Rightarrow> Expr \<Rightarrow> Expr sparser" where
  "postfix_op n r base = bindP peekS (\<lambda>tok.
     if isOp ''.'' tok then thenP advanceS (thenP skipWS (bindP peekS (\<lambda>name.
       if \<not> word name then errorf ''expected identifier after .''
       else thenP advanceS (returnP (MemberExpr base (Value name) (ExprPos base))))))
     else if Kind tok = TokLParen then bindP advanceS (\<lambda>opener. thenP enterBracket (thenP skipWS (bindP (parseArgList n r) (\<lambda>args.
       thenP skipWS (thenP (expect TokRParen ''expected ) closing call'') (thenP exitBracket
         (bindP (trailing_closure n r) (\<lambda>cl. returnP (CallExpr base args cl (posOf opener))))))))))
     else if Kind tok = TokLBracket then bindP advanceS (\<lambda>opener. thenP enterBracket (thenP skipWS (bindP (rExpr r) (\<lambda>idx.
       thenP skipWS (thenP (expect TokRBracket ''expected ] closing subscript'') (thenP exitBracket
         (returnP (SubscriptExpr base idx (posOf opener)))))))))
     else bindP (parseClosureOrFail n r) (\<lambda>cl. returnP (CallExpr base [] (Some cl) (ExprPos base))))"

definition parsePostfixOps :: "nat \<Rightarrow> knot \<Rightarrow> Expr \<Rightarrow> Expr sparser" where
  "parsePostfixOps n r base = whileS n postfix_starts (postfix_op n r) base"

definition parsePostfix :: "nat \<Rightarrow> knot \<Rightarrow> Expr sparser" where
  "parsePostfix n r = bindP peekS (\<lambda>t.
     if isOp ''!'' t \<or> isOp ''-'' t then bindP advanceS (\<lambda>opTok. bindP (rPostfix r) (\<lambda>x. returnP (UnaryExpr (Value opTok) x (posOf opTok))))
     else bindP (parsePrimary n r) (parsePostfixOps n r))"

text \<open>One level of binary operators: \<open>ops\<close> at the cursor continue the level, \<open>sub\<close> is the next tighter level.\<close>

definition binary_level :: "nat \<Rightarrow> knot \<Rightarrow> (Token \<Rightarrow> bool) \<Rightarrow> (Expr \<Rightarrow> Expr sparser) \<Rightarrow> Expr \<Rightarrow> Expr sparser" where
  "binary_level n r ops sub lhs = bindP (sub lhs) (whileS n (\<lambda>_. ops) (\<lambda>e. bindP advanceS (\<lambda>op. thenP skipWS
     (bindP (parsePostfix n r) (\<lambda>rhsP. bindP (sub rhsP) (\<lambda>rhs. returnP (BinaryExpr (Value op) e rhs (ExprPos e))))))))"

definition parseMultiplicative :: "nat \<Rightarrow> knot \<Rightarrow> Expr \<Rightarrow> Expr sparser" where
  "parseMultiplicative n r lhs = binary_level n r (\<lambda>t. isOp ''*'' t \<or> isOp ''/'' t) returnP lhs"

definition parseAdditive :: "nat \<Rightarrow> knot \<Rightarrow> Expr \<Rightarrow> Expr sparser" where
  "parseAdditive n r lhs = binary_level n r (\<lambda>t. isOp ''+'' t \<or> isOp ''-'' t) (parseMultiplicative n r) lhs"

definition parseRelational :: "nat \<Rightarrow> knot \<Rightarrow> Expr \<Rightarrow> Expr sparser" where
  "parseRelational n r lhs = binary_level n r
     (\<lambda>t. isOp ''<'' t \<or> isOp ''>'' t \<or> isOp ''<='' t \<or> isOp ''>='' t \<or> isKw ''instanceof'' t) (parseAdditive n r) lhs"

definition parseEquality :: "nat \<Rightarrow> knot \<Rightarrow> Expr \<Rightarrow> Expr sparser" where
  "parseEquality n r lhs = binary_level n r (\<lambda>t. isOp ''=='' t \<or> isOp ''!='' t) (parseRelational n r) lhs"

definition parseLogicalAnd :: "nat \<Rightarrow> knot \<Rightarrow> Expr \<Rightarrow> Expr sparser" where
  "parseLogicalAnd n r lhs = binary_level n r (isOp ''&&'') (parseEquality n r) lhs"

definition parseLogicalOr :: "nat \<Rightarrow> knot \<Rightarrow> Expr \<Rightarrow> Expr sparser" where
  "parseLogicalOr n r lhs = binary_level n r (isOp ''||'') (parseLogicalAnd n r) lhs"

definition parseTernary :: "nat \<Rightarrow> knot \<Rightarrow> Expr \<Rightarrow> Expr sparser" where
  "parseTernary n r lhs = bindP (parseLogicalOr n r lhs) (\<lambda>cond. bindP peekS (\<lambda>t.
     if isOp ''?'' t then thenP advanceS (thenP skipWS (bindP (rExpr r) (\<lambda>thenExpr. thenP skipWS (bindP peekS (\<lambda>t2.
       if \<not> isOp '':'' t2 then errorf ''expected : in ternary expression''
       else thenP advanceS (thenP skipWS (bindP (rExpr r) (\<lambda>elseExpr. returnP (TernaryExpr cond thenExpr elseExpr (ExprPos cond))))))))))
     else returnP cond))"

definition parseExprFrom :: "nat \<Rightarrow> knot \<Rightarrow> Expr \<Rightarrow> Expr sparser" where
  "parseExprFrom n r lhs = parseTernary n r lhs"

definition parseExpr :: "nat \<Rightarrow> knot \<Rightarrow> Expr sparser" where
  "parseExpr n r = bindP (parsePostfix n r) (parseExprFrom n r)"

section \<open>Statements\<close>

definition isCommandHead :: "Expr \<Rightarrow> bool" where
  "isCommandHead e = is_name e"

definition startsExpr :: "Token \<Rightarrow> bool" where
  "startsExpr tok = (case Kind tok of
       TokNumber \<Rightarrow> True | TokString \<Rightarrow> True | TokIdent \<Rightarrow> True | TokLBracket \<Rightarrow> True | TokLBrace \<Rightarrow> True | TokLParen \<Rightarrow> True
     | TokKeyword \<Rightarrow> Value tok \<in> {''true'', ''false'', ''null'', ''new''}
     | TokOperator \<Rightarrow> Value tok \<in> {''!'', ''-''}
     | _ \<Rightarrow> False)"

definition is_assign :: "Token \<Rightarrow> bool" where
  "is_assign t \<longleftrightarrow> isOp ''='' t \<or> isOp ''+='' t \<or> isOp ''-='' t"

definition depthS :: "nat sparser" where
  "depthS s = Inr (snd s, s)"

text \<open>\<^verbatim>\<open>op := p.advance().Value; rhs := parseExpr()\<close>, wrapped as an assignment.\<close>

definition assign_rest :: "nat \<Rightarrow> knot \<Rightarrow> Expr \<Rightarrow> Position \<Rightarrow> Stmt sparser" where
  "assign_rest n r target pos = bindP advanceS (\<lambda>op. bindP (parseExpr n r) (\<lambda>rhs. returnP (AssignStmt target (Value op) rhs pos)))"

definition parseExprOrAssignStmt :: "nat \<Rightarrow> knot \<Rightarrow> Stmt sparser" where
  "parseExprOrAssignStmt n r = bindP peekS (\<lambda>startTok. bindP (parsePostfix n r) (\<lambda>lhs. bindP peekS (\<lambda>t.
     let pos = posOf startTok in
     if is_assign t then assign_rest n r lhs pos
     else bindP depthS (\<lambda>d.
       if isCommandHead lhs \<and> startsExpr t \<and> d = 0
       then bindP (parseExpr n r) (\<lambda>arg. returnP (ExprStmt (CommandCallExpr lhs arg (ExprPos lhs)) pos))
       else bindP (parseExprFrom n r lhs) (\<lambda>fullExpr. bindP peekS (\<lambda>t2.
         if is_assign t2 then assign_rest n r fullExpr pos else returnP (ExprStmt fullExpr pos)))))))"

definition parseBlockStmt :: "knot \<Rightarrow> Stmt sparser" where
  "parseBlockStmt r = bindP advanceS (\<lambda>openTok. bindP (rBlock r) (\<lambda>body. returnP (BlockStmt body (posOf openTok))))"

definition parseStmtOrBlock :: "knot \<Rightarrow> Stmt sparser" where
  "parseStmtOrBlock r = bindP peekS (\<lambda>t. if Kind t = TokLBrace then parseBlockStmt r else rStmt r)"

text \<open>\<open>( expr )\<close> after \<open>if\<close> and \<open>while\<close>.\<close>

definition paren_cond :: "nat \<Rightarrow> knot \<Rightarrow> string \<Rightarrow> string \<Rightarrow> Expr sparser" where
  "paren_cond n r m1 m2 = thenP (expect TokLParen m1) (thenP enterBracket (thenP skipWS (bindP (parseExpr n r) (\<lambda>cond.
     thenP skipWS (thenP (expect TokRParen m2) (thenP exitBracket (thenP skipNL (returnP cond))))))))"

definition parseIf :: "nat \<Rightarrow> knot \<Rightarrow> Stmt sparser" where
  "parseIf n r = bindP advanceS (\<lambda>head. bindP (paren_cond n r (''expected ( after '' @ sq ''if'') ''expected ) closing if condition'') (\<lambda>cond.
     bindP (parseStmtOrBlock r) (\<lambda>thenStmt. bindP (peeking (thenP skipNL peekS)) (\<lambda>t.
     if isKw ''else'' t
     then thenP skipNL (thenP advanceS (thenP skipNL (bindP (parseStmtOrBlock r) (\<lambda>el. returnP (IfStmt cond thenStmt (Some el) (posOf head))))))
     else returnP (IfStmt cond thenStmt None (posOf head))))))"

definition parseWhile :: "nat \<Rightarrow> knot \<Rightarrow> Stmt sparser" where
  "parseWhile n r = bindP advanceS (\<lambda>head. bindP (paren_cond n r (''expected ( after '' @ sq ''while'') ''expected ) closing while condition'') (\<lambda>cond.
     bindP (parseStmtOrBlock r) (\<lambda>body. returnP (WhileStmt cond body (posOf head)))))"

definition for_in :: "nat \<Rightarrow> knot \<Rightarrow> Token \<Rightarrow> Stmt sparser" where
  "for_in n r head = bindP advanceS (\<lambda>varTok. thenP advanceS (thenP skipWS (bindP (parseExpr n r) (\<lambda>iter.
     thenP skipWS (thenP (expect TokRParen ''expected ) closing for-in header'') (thenP exitBracket (thenP skipNL
       (bindP (parseStmtOrBlock r) (\<lambda>body. returnP (ForInStmt (Value varTok) iter body (posOf head)))))))))))"

definition unless :: "TokenKind \<Rightarrow> 'a sparser \<Rightarrow> 'a option sparser" where
  "unless k m = bindP peekS (\<lambda>t. if Kind t \<noteq> k then bindP m (\<lambda>x. returnP (Some x)) else returnP None)"

definition for_c :: "nat \<Rightarrow> knot \<Rightarrow> Token \<Rightarrow> Stmt sparser" where
  "for_c n r head = bindP (unless TokSemicolon (rStmt r)) (\<lambda>init. thenP (expect TokSemicolon ''expected ; after for init'') (thenP skipWS
     (bindP (unless TokSemicolon (parseExpr n r)) (\<lambda>cond. thenP (expect TokSemicolon ''expected ; after for cond'') (thenP skipWS
     (bindP (unless TokRParen (parseExpr n r)) (\<lambda>step. thenP (expect TokRParen ''expected ) closing for header'') (thenP exitBracket (thenP skipNL
       (bindP (parseStmtOrBlock r) (\<lambda>body. returnP (ForCStmt init cond step body (posOf head)))))))))))))"

definition parseFor :: "nat \<Rightarrow> knot \<Rightarrow> Stmt sparser" where
  "parseFor n r = bindP advanceS (\<lambda>head. thenP (expect TokLParen (''expected ( after '' @ sq ''for'')) (thenP enterBracket (thenP skipWS
     (bindP peekS (\<lambda>t. bindP (lookAhead 1) (\<lambda>t1. if Kind t = TokIdent \<and> isKw ''in'' t1 then for_in n r head else for_c n r head))))))"

definition parseCatch :: "nat \<Rightarrow> knot \<Rightarrow> CatchClause sparser" where
  "parseCatch n r = bindP advanceS (\<lambda>head. thenP (expect TokLParen (''expected ( after '' @ sq ''catch'')) (thenP enterBracket (thenP skipWS
     (bindP (expect TokIdent ''expected catch parameter'') (\<lambda>first. bindP peekS (\<lambda>t.
     bindP (if Kind t = TokIdent then bindP advanceS (\<lambda>nm. returnP (Value first, Value nm)) else returnP ('''', Value first)) (\<lambda>(typ, name).
     thenP skipWS (thenP (expect TokRParen ''expected ) closing catch parameter'') (thenP exitBracket (thenP skipNL
     (thenP (expect TokLBrace ''expected { after catch (...)'') (bindP (rBlock r) (\<lambda>body. returnP (CatchClause typ name body (posOf head)))))))))))))))"

text \<open>
  The loop over the handlers of a \<^verbatim>\<open>try\<close>: it looks behind newlines and puts the cursor back when neither \<^verbatim>\<open>catch\<close> nor \<^verbatim>\<open>finally\<close>
  follows.
\<close>

definition try_rest :: "nat \<Rightarrow> knot \<Rightarrow> (CatchClause list \<times> Block option) sparser" where
  "try_rest n r = bindP (peeking (thenP skipNL peekS)) (\<lambda>t0. bindP
     (whileS n (\<lambda>(t, _) _. isKw ''catch'' t)
        (\<lambda>(t, ccs). thenP skipNL (bindP (parseCatch n r) (\<lambda>cc. bindP (peeking (thenP skipNL peekS)) (\<lambda>t'. returnP (t', ccs @ [cc]))))) (t0, [])) (\<lambda>(t, ccs).
     if isKw ''finally'' t
     then thenP skipNL (thenP advanceS (thenP skipNL (thenP (expect TokLBrace (''expected { after '' @ sq ''finally'')) (bindP (rBlock r) (\<lambda>fin. returnP (ccs, Some fin))))))
     else returnP (ccs, None)))"

definition parseTry :: "nat \<Rightarrow> knot \<Rightarrow> Stmt sparser" where
  "parseTry n r = bindP advanceS (\<lambda>head. thenP skipNL (thenP (expect TokLBrace (''expected { after '' @ sq ''try'')) (bindP (rBlock r) (\<lambda>body.
     bindP (try_rest n r) (\<lambda>(ccs, fin). returnP (TryStmt body ccs fin (posOf head)))))))"

definition parseReturn :: "nat \<Rightarrow> knot \<Rightarrow> Stmt sparser" where
  "parseReturn n r = bindP advanceS (\<lambda>head. bindP peekS (\<lambda>t.
     if \<not> isStmtEnd t \<and> startsExpr t then bindP (parseExpr n r) (\<lambda>v. returnP (ReturnStmt (Some v) (posOf head)))
     else returnP (ReturnStmt None (posOf head))))"

definition parseThrow :: "nat \<Rightarrow> knot \<Rightarrow> Stmt sparser" where
  "parseThrow n r = bindP advanceS (\<lambda>head. bindP (parseExpr n r) (\<lambda>v. returnP (ThrowStmt v (posOf head))))"

section \<open>Declarations and blocks\<close>

definition parseFuncDecl :: "nat \<Rightarrow> knot \<Rightarrow> string list \<Rightarrow> Stmt sparser" where
  "parseFuncDecl n r annotations = bindP advanceS (\<lambda>head. bindP advanceS (\<lambda>nameTok. thenP advanceS (thenP enterBracket (thenP skipWS
     (bindP (parseParamList n r) (\<lambda>params. thenP skipWS (thenP (expect TokRParen ''expected ) closing param list'') (thenP exitBracket (thenP skipNL
     (thenP (expect TokLBrace ''expected { opening function body'')
       (bindP (rBlock r) (\<lambda>body. returnP (FuncDecl (Value nameTok) params body annotations (posOf head))))))))))))))"

text \<open>\<^verbatim>\<open>p.lookAhead(1).Kind == TokIdent && p.lookAhead(2).Kind == TokLParen\<close>\<close>

definition func_ahead :: "bool sparser" where
  "func_ahead = bindP (lookAhead 1) (\<lambda>t1. bindP (lookAhead 2) (\<lambda>t2. returnP (Kind t1 = TokIdent \<and> Kind t2 = TokLParen)))"

definition parseDefStmt :: "nat \<Rightarrow> knot \<Rightarrow> Stmt sparser" where
  "parseDefStmt n r = bindP func_ahead (\<lambda>fd.
     if fd then parseFuncDecl n r []
     else bindP advanceS (\<lambda>head. bindP (expect TokIdent (''expected name after '' @ sq ''def'')) (\<lambda>nameTok. bindP peekS (\<lambda>t.
       if isOp ''='' t then thenP advanceS (bindP (parseExpr n r) (\<lambda>v. returnP (VarDecl '''' (Value nameTok) (Some v) (posOf head))))
       else returnP (VarDecl '''' (Value nameTok) None (posOf head))))))"

definition parseTypedVarDecl :: "nat \<Rightarrow> knot \<Rightarrow> Stmt sparser" where
  "parseTypedVarDecl n r = bindP advanceS (\<lambda>typTok. bindP advanceS (\<lambda>nameTok. thenP advanceS (bindP (parseExpr n r) (\<lambda>v.
     returnP (VarDecl (Value typTok) (Value nameTok) (Some v) (posOf typTok))))))"

text \<open>\<^verbatim>\<open>IDENT IDENT =\<close>, the heuristic for a typed declaration.\<close>

definition typed_ahead :: "Token \<Rightarrow> bool sparser" where
  "typed_ahead tok = bindP (lookAhead 1) (\<lambda>t1. bindP (lookAhead 2) (\<lambda>t2.
     returnP (Kind tok = TokIdent \<and> Kind t1 = TokIdent \<and> isOp ''='' t2)))"

definition parseStmt :: "nat \<Rightarrow> knot \<Rightarrow> Stmt sparser" where
  "parseStmt n r = thenP skipNL (bindP peekS (\<lambda>tok.
     if isKw ''if'' tok then parseIf n r
     else if isKw ''for'' tok then parseFor n r
     else if isKw ''while'' tok then parseWhile n r
     else if isKw ''try'' tok then parseTry n r
     else if isKw ''return'' tok then parseReturn n r
     else if isKw ''throw'' tok then parseThrow n r
     else if isKw ''break'' tok then bindP advanceS (\<lambda>t. returnP (BreakStmt (posOf t)))
     else if isKw ''continue'' tok then bindP advanceS (\<lambda>t. returnP (ContinueStmt (posOf t)))
     else if isKw ''def'' tok then parseDefStmt n r
     else if Kind tok = TokLBrace then parseBlockStmt r
     else bindP (typed_ahead tok) (\<lambda>typed. if typed then parseTypedVarDecl n r else parseExprOrAssignStmt n r)))"

definition parseBlock :: "nat \<Rightarrow> knot \<Rightarrow> Block sparser" where
  "parseBlock n r = bindP peekS (\<lambda>t0. bindP
     (loopS n (\<lambda>sts. thenP skipNL (bindP peekS (\<lambda>t.
        if Kind t = TokRBrace then thenP advanceS (returnP (Inr sts))
        else if Kind t = TokEOF then errorf ''unterminated block''
        else bindP (parseStmt n r) (\<lambda>st. returnP (Inl (sts @ [st])))))) []) (\<lambda>sts. returnP (Block sts (posOf t0))))"

primrec tied :: "nat \<Rightarrow> entry \<Rightarrow> node sparser" where
  "tied 0 e s = Inl OutOfFuel"
| "tied (Suc n) e s =
     (case e of
        EExpr \<Rightarrow> bindP (parseExpr (Suc n) (tied n)) (\<lambda>x. returnP (NExpr x)) s
      | EPostfix \<Rightarrow> bindP (parsePostfix (Suc n) (tied n)) (\<lambda>x. returnP (NExpr x)) s
      | EStmt \<Rightarrow> bindP (parseStmt (Suc n) (tied n)) (\<lambda>x. returnP (NStmt x)) s
      | EBlock \<Rightarrow> bindP (parseBlock (Suc n) (tied n)) (\<lambda>x. returnP (NBlock x)) s)"

definition parseTopStmt :: "nat \<Rightarrow> knot \<Rightarrow> Stmt sparser" where
  "parseTopStmt n r = bindP (whileS n (\<lambda>_ t. Kind t = TokAnnotation)
       (\<lambda>anns. bindP advanceS (\<lambda>a. thenP skipNL (returnP (anns @ [Value a])))) []) (\<lambda>annotations.
     bindP peekS (\<lambda>t. bindP func_ahead (\<lambda>fd.
       if isKw ''def'' t \<and> fd then parseFuncDecl n r annotations else parseStmt n r)))"

definition parseTopBlock :: "nat \<Rightarrow> knot \<Rightarrow> Block sparser" where
  "parseTopBlock n r = thenP skipNL (bindP (whileS n (\<lambda>_ t. Kind t \<noteq> TokEOF)
     (\<lambda>sts. bindP (parseTopStmt n r) (\<lambda>st. thenP skipNL (returnP (sts @ [st])))) []) (\<lambda>sts. returnP (Block sts \<lparr>pos_Line = 1, pos_Col = 1\<rparr>)))"

section \<open>Entry points\<close>

definition ensureEOF :: "Token list \<Rightarrow> Token list" where
  "ensureEOF tokens =
     (if tokens \<noteq> [] \<and> Kind (last tokens) = TokEOF then tokens
      else let (line, col) = (if tokens = [] then (1, 1) else (Line (last tokens), Col (last tokens)))
           in tokens @ [mkTok TokEOF '''' line col])"

definition run :: "'a sparser \<Rightarrow> Token list \<Rightarrow> nat \<Rightarrow> perr + 'a" where
  "run m tokens depth = (case m (tokens, depth) of Inl e \<Rightarrow> Inl e | Inr (x, _) \<Rightarrow> Inr x)"

record ScriptFile =
  sf_Block :: Block

definition ParseScriptTokens :: "Token list \<Rightarrow> perr + ScriptFile" where
  "ParseScriptTokens tokens0 =
     (let tokens = ensureEOF tokens0; n = length tokens in
      run (bindP (parseTopBlock n (tied n)) (\<lambda>b. returnP \<lparr>sf_Block = b\<rparr>)) tokens 0)"

definition ParseScript :: "string \<Rightarrow> perr + ScriptFile" where
  "ParseScript src = (case Tokenize src of Inl e \<Rightarrow> Inl e | Inr tokens \<Rightarrow> ParseScriptTokens tokens)"

definition ParseExprTokens :: "Token list \<Rightarrow> perr + Expr" where
  "ParseExprTokens tokens0 =
     (let tokens = ensureEOF tokens0; n = length tokens in
      run (thenP skipNL (bindP peekS (\<lambda>t.
        if Kind t = TokEOF then raiseP (ParseFail ''empty input'')
        else bindP (parseExpr n (tied n)) (\<lambda>e. thenP skipNL (bindP peekS (\<lambda>tok.
          if Kind tok \<noteq> TokEOF then raiseP (ParseError ''trailing tokens after expression'' (Line tok) (Col tok)) else returnP e)))))) tokens 0)"

definition ParseArgListTokens :: "Token list \<Rightarrow> perr + CallArg list" where
  "ParseArgListTokens tokens0 =
     (let tokens = ensureEOF tokens0; n = length tokens in
      run (thenP skipWS (bindP peekS (\<lambda>t.
        if Kind t = TokEOF then returnP []
        else bindP (parseArgList n (tied n)) (\<lambda>args. thenP skipWS (bindP peekS (\<lambda>tok.
          if Kind tok \<noteq> TokEOF then raiseP (ParseError ''trailing tokens after arg list'' (Line tok) (Col tok)) else returnP args)))))) tokens 1)"

end
