(* ===== verification/ScriptTotal.thy ===== *)
theory ScriptTotal
  imports ScriptParser
begin

text \<open>
  The script parser returns on every token list: it never reads past the last token, its fuel is enough, its errors point at a
  token, and every production leaves the bracket depth as it found it. A production run at a fixed depth is a parser of the
  declarative kind that also returns the depth, so the rules of \<open>pok\<close> carry over.
\<close>

section \<open>Rules\<close>

definition at_depth :: "nat \<Rightarrow> 'a sparser \<Rightarrow> ('a \<times> nat) parser" where
  "at_depth d m ts = (case m (ts, d) of Inl e \<Rightarrow> Inl e | Inr (x, (ts', d')) \<Rightarrow> Inr ((x, d'), ts'))"

text \<open>
  \<open>sok T n k h a b m\<close>: as \<open>pok\<close> on the suffixes of \<open>T\<close> of at most \<open>n\<close> tokens, of which at least \<open>k\<close> are consumed, and a depth of
  \<open>d + a\<close> before is \<open>d + b\<close> after.
\<close>

text \<open>Every error of the script parser has a position: \<open>placed\<close> allows no message without one.\<close>

definition placed :: "string \<Rightarrow> bool" where "placed m \<longleftrightarrow> False"

definition sok :: "Token list \<Rightarrow> nat \<Rightarrow> nat \<Rightarrow> Token option \<Rightarrow> nat \<Rightarrow> nat \<Rightarrow> 'a sparser \<Rightarrow> bool" where
  "sok T n k h a b m \<longleftrightarrow> (\<forall>d. pok placed T n k h (at_depth (d + a) m) (\<lambda>x. snd x = d + b))"

lemma sokI: "(\<And>d. pok placed T n k h (at_depth (d + a) m) (\<lambda>x. snd x = d + b)) \<Longrightarrow> sok T n k h a b m"
  by (simp add: sok_def)

lemma sokD: "sok T n k h a b m \<Longrightarrow> pok placed T n k h (at_depth (d + a) m) (\<lambda>x. snd x = d + b)"
  by (simp add: sok_def)

lemma at_bind: "at_depth d (bindP m f) = bindP (at_depth d m) (\<lambda>p. at_depth (snd p) (f (fst p)))"
  by (auto simp: at_depth_def bindP_def fun_eq_iff split: sum.splits)

lemma at_peek: "at_depth d (bindP peekS f) = bindP peekP (\<lambda>t. at_depth d (f t))"
  by (auto simp: at_depth_def bindP_def peekS_def peekP_def fun_eq_iff split: sum.splits list.splits)

lemma at_advance: "at_depth d advanceS = bindP advanceP (\<lambda>t. returnP (t, d))"
  by (auto simp: at_depth_def bindP_def advanceS_def advanceP_def returnP_def fun_eq_iff split: sum.splits list.splits)

lemma at_on_toks: "at_depth d (on_toks m) = bindP m (\<lambda>x. returnP (x, d))"
  by (auto simp: at_depth_def bindP_def on_toks_def returnP_def fun_eq_iff split: sum.splits)

lemma at_return: "at_depth d (returnP x) = returnP (x, d)"
  by (simp add: at_depth_def returnP_def fun_eq_iff)

lemma at_raise: "at_depth d (raiseP e) = raiseP e"
  by (simp add: at_depth_def raiseP_def fun_eq_iff)

lemma bindP_returnP: "bindP m returnP = m"
  by (simp add: bindP_def returnP_def fun_eq_iff split: sum.splits)

lemma sok_weaken: "sok T n k h a b m \<Longrightarrow> n' \<le> n \<Longrightarrow> k' \<le> k \<Longrightarrow> sok T n' k' h a b m"
  by (rule sokI) (rule pok_weaken [OF sokD])

lemma sok_any: "sok T n k None a b m \<Longrightarrow> sok T n k h a b m"
  by (rule sokI) (rule pok_any [OF sokD])

lemma sok_sub: "sok T n k None a b m \<Longrightarrow> n' \<le> n \<Longrightarrow> k' \<le> k \<Longrightarrow> sok T n' k' h a b m"
  by (rule sok_any) (rule sok_weaken)

lemma sok_bind_gen:
  assumes "sok T n i h a b m" "\<And>x. sok T (n - i) j None b c (f x)"
  shows "sok T n (i + j) h a c (bindP m f)"
  by (rule sokI) (simp only: at_bind, rule pok_bind_gen [OF sokD [OF assms(1)]], use sokD [OF assms(2)] in simp)

text \<open>After a parser that may consume nothing, the bounds stay; after one that consumes a token, they go down by one.\<close>

lemma sok_bind0: "sok T n 0 h a b m \<Longrightarrow> (\<And>x. sok T n k None b c (f x)) \<Longrightarrow> sok T n k h a c (bindP m f)"
  using sok_bind_gen [of T n 0 h a b m k c f] by simp

lemma sok_bind1: "sok T n 1 h a b m \<Longrightarrow> (\<And>x. sok T (n - 1) (k - 1) None b c (f x)) \<Longrightarrow> sok T n k h a c (bindP m f)"
  using sok_weaken [OF sok_bind_gen [of T n 1 h a b m "k - 1" c f], of n k] by simp

lemma sok_lift: "sok T n k h 0 0 m \<Longrightarrow> sok T n k h a a m"
  by (rule sokI) (use sokD [of T n k h 0 0 m] in simp)

lemma sok_fuel0: "sok T 0 k h a b m"
  by (simp add: sok_def pok_def)

lemma sok_peek: "(\<And>t. t \<in> set T \<Longrightarrow> sok T n k (Some t) a b (f t)) \<Longrightarrow> sok T n k h a b (bindP peekS f)"
  by (rule sokI) (simp only: at_peek, rule pok_peek, rule sokD)

lemma sok_peek_at:
  assumes "sok T n k (Some t) a b (f t)"
  shows "sok T n k (Some t) a b (bindP peekS f)"
proof (rule sokI, rule pokI)
  fix d ts assume a: "stream_ok T" "suffix ts T" "ts \<noteq> []" "length ts \<le> n" "\<And>t'. Some t = Some t' \<Longrightarrow> hd ts = t'"
  then have "at_depth (d + a) (bindP peekS f) ts = at_depth (d + a) (f t) ts" by (cases ts) (auto simp: at_depth_def bindP_def peekS_def)
  with pokD [OF sokD [OF assms] a, of d] show "case at_depth (d + a) (bindP peekS f) ts of Inl e \<Rightarrow> err_ok placed T e
      | Inr (x, ts') \<Rightarrow> suffix ts' ts \<and> ts' \<noteq> [] \<and> length ts' + k \<le> length ts \<and> snd x = d + b"
    by simp
qed

lemma sok_return: "k = 0 \<Longrightarrow> sok T n k h a a (returnP x)"
  by (simp add: sok_def at_return pok_return)

lemma sok_raise: "t \<in> set T \<Longrightarrow> sok T n k h a b (raiseP (ParseError m (Line t) (Col t)))"
  by (rule sokI) (simp only: at_raise, fold errAt_def, rule pok_errAt)

lemma sok_errorf: "sok T n k h a b (errorf m)"
  unfolding errorf_def by (intro sok_peek sok_raise)

lemma sok_if: "(c \<Longrightarrow> sok T n k h a b m) \<Longrightarrow> (\<not> c \<Longrightarrow> sok T n k h a b m') \<Longrightarrow> sok T n k h a b (if c then m else m')"
  by simp

lemma sok_pair: "(\<And>x y. sok T n k h a b (f x y)) \<Longrightarrow> sok T n k h a b (case p of (x, y) \<Rightarrow> f x y)"
  by (cases p) simp

lemma sok_advance: "Kind t \<noteq> TokEOF \<Longrightarrow> sok T n 1 (Some t) a a advanceS"
  by (rule sokI) (simp only: at_advance, rule pok_bind1 [OF pok_advance], simp, rule pok_return, simp)

lemma sok_adv: "Kind t \<noteq> TokEOF \<Longrightarrow> (\<And>x. sok T (n - 1) (k - 1) None a b (f x)) \<Longrightarrow> sok T n k (Some t) a b (bindP advanceS f)"
  by (rule sok_bind1 [OF sok_advance])

lemma sok_advance_any: "sok T n 0 h a a advanceS"
proof (rule sokI, unfold at_advance, rule pok_bind)
  show "pok placed T n 0 h advanceP (\<lambda>_. True)"
    using suffix_rest by (fastforce simp: pok_def advanceP_def suffix_Cons split: list.splits)
qed (simp add: pok_return)

lemma sok_adv_any: "(\<And>x. sok T n k None a b (f x)) \<Longrightarrow> sok T n k h a b (bindP advanceS f)"
  by (rule sok_bind0 [OF sok_advance_any])

lemma sok_expect: "kd \<noteq> TokEOF \<Longrightarrow> sok T n 1 h a a (expect kd m)"
  unfolding expect_def by (intro sok_peek sok_if sok_errorf sok_advance) auto

lemma sok_skipNL: "sok T n 0 h a a skipNL"
  by (rule sokI) (simp only: skipNL_def at_on_toks, rule pok_bind [OF pok_skipNewlines], rule pok_return, simp)

lemma sok_skipWS: "sok T n 0 h a a skipWS"
proof (rule sokI)
  fix d
  have "at_depth (d + a) skipWS = (if d + a = 0 then returnP ((), d + a) else bindP skip_nl (\<lambda>x. returnP (x, d + a)))"
    unfolding at_on_toks [symmetric] by (auto simp: at_depth_def skipWS_def returnP_def fun_eq_iff)
  then show "pok placed T n 0 h (at_depth (d + a) skipWS) (\<lambda>x. snd x = d + a)"
    by (auto intro!: pok_bind [OF pok_skip_nl] pok_return)
qed

lemma sok_enter: "sok T n 0 h a (Suc a) enterBracket"
  by (auto simp: sok_def pok_def at_depth_def enterBracket_def)

lemma sok_exit: "sok T n 0 h (Suc a) a exitBracket"
  by (auto simp: sok_def pok_def at_depth_def exitBracket_def)

text \<open>Parsers that look ahead and leave the state as it was.\<close>

definition stays :: "'a sparser \<Rightarrow> ('a \<Rightarrow> bool) \<Rightarrow> bool" where
  "stays m P \<longleftrightarrow> (\<forall>T ts d. stream_ok T \<longrightarrow> suffix ts T \<longrightarrow> ts \<noteq> [] \<longrightarrow> (\<exists>x. m (ts, d) = Inr (x, (ts, d)) \<and> P x))"

lemma sok_stays:
  assumes "stays m P" "\<And>x. P x \<Longrightarrow> sok T n k h a b (f x)"
  shows "sok T n k h a b (bindP m f)"
proof (rule sokI, rule pokI)
  fix d ts assume a: "stream_ok T" "suffix ts T" "ts \<noteq> []" "length ts \<le> n" "\<And>t. h = Some t \<Longrightarrow> hd ts = t"
  then obtain x where x: "m (ts, d + a) = Inr (x, (ts, d + a))" "P x" using assms(1) unfolding stays_def by blast
  have "at_depth (d + a) (bindP m f) ts = at_depth (d + a) (f x) ts" by (simp add: at_depth_def bindP_def x)
  with pokD [OF sokD [OF assms(2) [OF x(2)]] a, of d] show "case at_depth (d + a) (bindP m f) ts of Inl e \<Rightarrow> err_ok placed T e
      | Inr (x, ts') \<Rightarrow> suffix ts' ts \<and> ts' \<noteq> [] \<and> length ts' + k \<le> length ts \<and> snd x = d + b"
    by simp
qed

lemma stays_bind:
  assumes "stays m P" "\<And>x. P x \<Longrightarrow> stays (f x) Q"
  shows "stays (bindP m f) Q"
proof (unfold stays_def, intro allI impI)
  fix T ts and d :: nat
  assume a: "stream_ok T" "suffix ts T" "ts \<noteq> []"
  then obtain x where x: "m (ts, d) = Inr (x, (ts, d))" "P x" using assms(1) unfolding stays_def by blast
  then obtain y where "f x (ts, d) = Inr (y, (ts, d))" "Q y" using assms(2) [OF x(2)] a unfolding stays_def by blast
  with x show "\<exists>y. bindP m f (ts, d) = Inr (y, (ts, d)) \<and> Q y" by (simp add: bindP_def)
qed

lemma stays_return: "P x \<Longrightarrow> stays (returnP x) P"
  by (simp add: stays_def returnP_def)

lemma drop_nl_spec: "stream_ok T \<Longrightarrow> suffix ts T \<Longrightarrow> ts \<noteq> [] \<Longrightarrow> suffix (drop_nl ts) ts \<and> drop_nl ts \<noteq> []"
proof (induction ts)
  case (Cons t ts)
  then show ?case
    using suffix_rest [OF Cons.prems(1,2)] Cons.IH [OF Cons.prems(1) suffix_ConsD [OF Cons.prems(2)]] by (auto simp: suffix_Cons)
qed simp

lemma look_some: "stream_ok T \<Longrightarrow> suffix ts T \<Longrightarrow> ts \<noteq> [] \<Longrightarrow> \<exists>t. look n ts = Some t"
proof (induction n arbitrary: ts)
  case 0
  then show ?case using drop_nl_spec [OF 0] by (auto split: list.splits)
next
  case (Suc n)
  from drop_nl_spec [OF Suc.prems] obtain t r where d: "drop_nl ts = t # r" "suffix (t # r) ts" by (cases "drop_nl ts") auto
  then have s: "suffix (t # r) T" using Suc.prems(2) suffix_order.trans by blast
  have "Kind t \<noteq> TokEOF \<Longrightarrow> \<exists>t. look n r = Some t"
    using Suc.IH [OF Suc.prems(1) suffix_ConsD [OF s]] suffix_rest [OF Suc.prems(1) s] by blast
  then show ?case by (auto simp: d(1) simp del: look.simps simp add: look.simps [of "Suc n"])
qed

lemma stays_lookAhead: "stays (lookAhead n) (\<lambda>_. True)"
proof (unfold stays_def, intro allI impI)
  fix T ts and d :: nat
  assume "stream_ok T" "suffix ts T" "ts \<noteq> []"
  then obtain t where "look n ts = Some t" using look_some by blast
  then show "\<exists>x. lookAhead n (ts, d) = Inr (x, (ts, d)) \<and> True" by (simp add: lookAhead_def del: look.simps)
qed

lemma stays_depth: "stays depthS (\<lambda>_. True)"
  by (simp add: stays_def depthS_def)

lemma sok_look: "(\<And>x. sok T n k h a b (f x)) \<Longrightarrow> sok T n k h a b (bindP (lookAhead j) f)"
  by (rule sok_stays [OF stays_lookAhead])

lemma sok_depth: "(\<And>x. sok T n k h a b (f x)) \<Longrightarrow> sok T n k h a b (bindP depthS f)"
  by (rule sok_stays [OF stays_depth])

lemma sok_func_ahead: "(\<And>x. sok T n k h a b (f x)) \<Longrightarrow> sok T n k h a b (bindP func_ahead f)"
  by (rule sok_stays [where P = "\<lambda>_. True"]) (auto simp: func_ahead_def intro!: stays_bind [OF stays_lookAhead] stays_return)

lemma sok_typed_ahead: "(\<And>x. (x \<Longrightarrow> Kind t = TokIdent) \<Longrightarrow> sok T n k h a b (f x)) \<Longrightarrow> sok T n k h a b (bindP (typed_ahead t) f)"
  by (rule sok_stays [where P = "\<lambda>x. x \<longrightarrow> Kind t = TokIdent"])
    (auto simp: typed_ahead_def intro!: stays_bind [OF stays_lookAhead] stays_return)

lemma sok_peeking:
  assumes "\<And>d. sok T n 0 h d d m" "\<And>x. sok T n k h a b (f x)"
  shows "sok T n k h a b (bindP (peeking m) f)"
proof (rule sokI, rule pokI)
  fix d ts assume a: "stream_ok T" "suffix ts T" "ts \<noteq> []" "length ts \<le> n" "\<And>t. h = Some t \<Longrightarrow> hd ts = t"
  show "case at_depth (d + a) (bindP (peeking m) f) ts of Inl e \<Rightarrow> err_ok placed T e
      | Inr (x, ts') \<Rightarrow> suffix ts' ts \<and> ts' \<noteq> [] \<and> length ts' + k \<le> length ts \<and> snd x = d + b"
  proof (cases "m (ts, d + a)")
    case (Inl e)
    then show ?thesis using pokD [OF sokD [OF assms(1) [of a]] a, of d] by (simp add: at_depth_def bindP_def peeking_def)
  next
    case (Inr r)
    then have "at_depth (d + a) (bindP (peeking m) f) ts = at_depth (d + a) (f (fst r)) ts"
      by (cases r) (simp add: at_depth_def bindP_def peeking_def)
    with pokD [OF sokD [OF assms(2)] a, of d "fst r"] show ?thesis by simp
  qed
qed

lemma sok_peek_end: "k = 0 \<Longrightarrow> sok T n k h a a peekS"
  using sok_peek [of T n k a a returnP h] by (simp add: sok_return bindP_returnP)

section \<open>Loops\<close>

lemma sok_loop: "N \<le> m \<Longrightarrow> (\<And>x. sok T N 1 None a a (body x)) \<Longrightarrow> sok T N 1 h a a (loopS m body x)"
proof (induction m arbitrary: N x h)
  case 0
  then show ?case by (simp add: sok_fuel0)
next
  case (Suc m)
  have "sok T (N - 1) 0 None a a (case r of Inl x' \<Rightarrow> loopS m body x' | Inr y \<Rightarrow> returnP y)" for r
  proof (cases r)
    case (Inl x')
    have "sok T (N - 1) 1 None a a (loopS m body x')"
      by (rule Suc.IH [OF _ sok_weaken [OF Suc.prems(2)]]) (use Suc.prems(1) in auto)
    then show ?thesis using Inl by (auto intro: sok_weaken)
  qed (simp add: sok_return)
  then show ?case unfolding loopS.simps by (intro sok_bind1 [OF sok_any [OF Suc.prems(2)]]) simp
qed

lemma sok_while: "N \<le> m \<Longrightarrow> (\<And>x t. c x t \<Longrightarrow> t \<in> set T \<Longrightarrow> sok T N 1 (Some t) a a (body x)) \<Longrightarrow> sok T N 0 h a a (whileS m c body x)"
proof (induction m arbitrary: N x h)
  case 0
  then show ?case by (simp add: sok_fuel0)
next
  case (Suc m)
  have "sok T (N - 1) 0 None a a (whileS m c body x')" for x'
    by (rule Suc.IH [OF _ sok_weaken [OF Suc.prems(2)]]) (use Suc.prems(1) in auto)
  then show ?case unfolding whileS.simps
    by (intro sok_peek sok_if sok_return sok_bind1 [OF Suc.prems(2)]) simp_all
qed

section \<open>Every production\<close>

lemma bind_assoc: "bindP (bindP m f) g = bindP m (\<lambda>x. bindP (f x) g)"
  by (simp add: bindP_def fun_eq_iff split: sum.splits)

lemma bind_return: "bindP (returnP x) f = f x"
  by (simp add: bindP_def returnP_def fun_eq_iff)

lemma bind_errorf: "bindP (errorf m) f = errorf m"
  by (simp add: errorf_def bind_assoc) (simp add: bindP_def raiseP_def fun_eq_iff split: sum.splits)

lemma bind_if: "bindP (if c then m else m') f = (if c then bindP m f else bindP m' f)"
  by simp

lemma bind_pair: "bindP (case p of (x, y) \<Rightarrow> m x y) f = (case p of (x, y) \<Rightarrow> bindP (m x y) f)"
  by (cases p) simp

lemmas bind_laws = thenP_def bind_assoc bind_return bind_errorf bind_if bind_pair Let_def prod.case

lemma not_eof: "isOp v t \<Longrightarrow> Kind t \<noteq> TokEOF" "isKw v t \<Longrightarrow> Kind t \<noteq> TokEOF" "word t \<Longrightarrow> Kind t \<noteq> TokEOF"
  "is_assign t \<Longrightarrow> Kind t \<noteq> TokEOF" "isMapKey t \<Longrightarrow> Kind t \<noteq> TokEOF"
  by (auto simp: isOp_def isKw_def word_def is_assign_def isMapKey_def)

lemma sok_loop_bind:
  "(\<And>x. sok T N 1 None a a (body x)) \<Longrightarrow> N \<le> m \<Longrightarrow> (\<And>x. sok T (N - 1) (k - 1) None a b (f x)) \<Longrightarrow> sok T N k h a b (bindP (loopS m body x) f)"
  by (rule sok_bind1 [OF sok_loop])

lemma sok_loop_end: "(\<And>x. sok T N 1 None a a (body x)) \<Longrightarrow> N \<le> m \<Longrightarrow> k \<le> 1 \<Longrightarrow> sok T N k h a a (loopS m body x)"
  by (rule sok_weaken [OF sok_loop [of N]]) auto

lemma sok_while_bind:
  "(\<And>x t. c x t \<Longrightarrow> t \<in> set T \<Longrightarrow> sok T N 1 (Some t) a a (body x)) \<Longrightarrow> N \<le> m \<Longrightarrow> (\<And>x. sok T N k None a b (f x))
   \<Longrightarrow> sok T N k h a b (bindP (whileS m c body x) f)"
  by (rule sok_bind0 [OF sok_while])

lemmas sok_skips = sok_bind0 [OF sok_skipNL] sok_bind0 [OF sok_skipWS] sok_bind0 [OF sok_enter] sok_bind0 [OF sok_exit]

lemma sok_adv_none: "(\<And>x. sok T n k None a b (f x)) \<Longrightarrow> sok T n k None a b (bindP advanceS f)"
  by (rule sok_adv_any)

lemmas sok_rules = sok_skips sok_peek sok_if sok_pair sok_return sok_errorf sok_adv sok_adv_none sok_bind1 [OF sok_expect]
  sok_look sok_depth sok_func_ahead sok_typed_ahead sok_loop_bind sok_loop_end sok_peek_end sok_while_bind

text \<open>The table of recursive entry points, seen by a production: each consumes a token and keeps the depth, on at most \<open>K\<close> tokens.\<close>

locale knotted =
  fixes T :: "Token list" and K :: nat and r :: knot
  assumes expr: "sok T K 1 None 0 0 (rExpr r)" and postfix: "sok T K 1 None 0 0 (rPostfix r)"
    and stmt: "sok T K 1 None 0 0 (rStmt r)" and block: "sok T K 1 None 0 0 (rBlock r)"
begin

lemma call: "sok T K 1 None 0 0 m \<Longrightarrow> n \<le> K \<Longrightarrow> (\<And>x. sok T (n - 1) (k - 1) None a b (f x)) \<Longrightarrow> sok T n k h a b (bindP m f)"
  by (rule sok_bind1 [OF sok_lift [OF sok_sub]]) auto

lemma stmt_end: "n \<le> K \<Longrightarrow> k \<le> 1 \<Longrightarrow> sok T n k h a a (rStmt r)"
  by (rule sok_lift [OF sok_sub [OF stmt]])

lemmas calls = call [OF expr] call [OF postfix] call [OF stmt] call [OF block]

lemma parseParam_ok: "N \<le> K \<Longrightarrow> sok T N 1 h a a (parseParam r)"
  unfolding parseParam_def bind_laws by (intro sok_rules calls) (auto dest: not_eof)

lemma parseParamList_ok: "N \<le> K \<Longrightarrow> N \<le> n \<Longrightarrow> sok T N 0 h a a (parseParamList n r)"
  unfolding parseParamList_def bind_laws
  by (intro sok_rules sok_bind1 [OF parseParam_ok]) (auto dest: not_eof)

lemma parseOneArg_ok: "N \<le> K \<Longrightarrow> sok T N 1 h a a (parseOneArg r)"
  unfolding parseOneArg_def bind_laws by (intro sok_rules calls) (auto dest: not_eof)

lemma parseArgList_ok: "N \<le> K \<Longrightarrow> N \<le> n \<Longrightarrow> sok T N 0 h a a (parseArgList n r)"
  unfolding parseArgList_def bind_laws
  by (intro sok_rules sok_bind1 [OF parseOneArg_ok]) (auto dest: not_eof)

lemma hasClosureParams_ok: "N \<le> n \<Longrightarrow> (\<And>x. sok T N k h a b (f x)) \<Longrightarrow> sok T N k h a b (bindP (hasClosureParams n) f)"
  unfolding hasClosureParams_def
  by (rule sok_peeking, unfold has_params_rest_def bind_laws, intro sok_rules) (auto dest: not_eof)

lemma parseClosureParams_ok: "N \<le> K \<Longrightarrow> N \<le> n \<Longrightarrow> sok T N 1 h a a (parseClosureParams n r)"
  unfolding parseClosureParams_def bind_laws
  by (intro sok_rules sok_bind1 [OF parseParam_ok]) (auto dest: not_eof)

lemma closure_rest:
  "N \<le> K \<Longrightarrow> N \<le> n \<Longrightarrow> (\<And>x. sok T (N - 1) (k - 1) None a b (f x)) \<Longrightarrow>
   sok T N k h a b (bindP (hasClosureParams n) (\<lambda>hp. if hp then bindP (parseClosureParams n r) (\<lambda>params. bindP (rBlock r) (\<lambda>body.
     f (ClosureExpr params body p))) else bindP (rBlock r) (\<lambda>body. f (ClosureExpr [] body p))))"
  by (intro hasClosureParams_ok sok_rules calls sok_bind1 [OF parseClosureParams_ok]) (auto intro: sok_weaken [where n = "N - Suc 0" and k = "k - Suc 0"])

text \<open>A closure whose brace is at the cursor, and one found behind newlines.\<close>

lemma parseClosureOrFail_ok:
  "Kind t \<noteq> TokEOF \<Longrightarrow> N \<le> Suc K \<Longrightarrow> N \<le> n \<Longrightarrow> (\<And>x. sok T (N - 1) (k - 1) None a b (f x)) \<Longrightarrow>
   sok T N k (Some t) a b (bindP (parseClosureOrFail n r) f)"
  unfolding parseClosureOrFail_def bind_laws
  by (intro sok_rules closure_rest) (auto intro: sok_weaken [where n = "N - Suc 0" and k = "k - Suc 0"])

lemma parseClosureOrFail_ok':
  "N \<le> K \<Longrightarrow> N \<le> n \<Longrightarrow> (\<And>x. sok T (N - 1) (k - 1) None a b (f x)) \<Longrightarrow>
   sok T N k None a b (bindP (parseClosureOrFail n r) f)"
  unfolding parseClosureOrFail_def bind_laws
  by (intro sok_rules closure_rest) (auto intro: sok_weaken [where n = "N - Suc 0" and k = "k - Suc 0"])

lemma parseNew_ok: "Kind t \<noteq> TokEOF \<Longrightarrow> N \<le> Suc K \<Longrightarrow> N \<le> n \<Longrightarrow> sok T N 1 (Some t) a a (parseNew n r)"
  unfolding parseNew_def bind_laws by (intro sok_rules sok_bind0 [OF parseArgList_ok]) auto

lemma parseListBody_ok: "N \<le> K \<Longrightarrow> N \<le> n \<Longrightarrow> k \<le> 1 \<Longrightarrow> sok T N k h (Suc a) a (parseListBody n r p)"
  unfolding parseListBody_def bind_laws by (intro sok_rules calls) (auto dest: not_eof)

lemma parseMapBody_ok: "N \<le> K \<Longrightarrow> N \<le> n \<Longrightarrow> k \<le> 1 \<Longrightarrow> sok T N k h (Suc a) a (parseMapBody n r p)"
  unfolding parseMapBody_def bind_laws by (intro sok_rules calls) (auto dest: not_eof)

lemma parseListOrMap_ok: "Kind t \<noteq> TokEOF \<Longrightarrow> N \<le> Suc K \<Longrightarrow> N \<le> n \<Longrightarrow> sok T N 1 (Some t) a a (parseListOrMap n r)"
  unfolding parseListOrMap_def bind_laws
  by (intro sok_rules parseListBody_ok parseMapBody_ok) (auto dest: not_eof)

lemma parsePrimary_ok: "N \<le> Suc K \<Longrightarrow> N \<le> n \<Longrightarrow> sok T N 1 h a a (parsePrimary n r)"
  unfolding parsePrimary_def bind_laws
  apply (intro sok_skips sok_peek)
  subgoal for x t
    by (cases "Kind t"; simp only: TokenKind.case parseClosure_def;
      intro sok_rules calls parseNew_ok parseListOrMap_ok parseClosureOrFail_ok; simp)
  done

lemma postfix_op_ok: "postfix_starts e t \<Longrightarrow> N \<le> Suc K \<Longrightarrow> N \<le> n \<Longrightarrow> sok T N 1 (Some t) a a (postfix_op n r e)"
  unfolding postfix_op_def trailing_closure_def bind_laws
  apply (rule sok_peek_at)
  apply (intro sok_rules calls sok_bind0 [OF parseArgList_ok] parseClosureOrFail_ok parseClosureOrFail_ok' sok_peeking)
  apply (auto dest: not_eof simp: postfix_starts_def)
  done

lemma parsePostfixOps_ok: "N \<le> Suc K \<Longrightarrow> N \<le> n \<Longrightarrow> sok T N 0 h a a (parsePostfixOps n r e)"
  unfolding parsePostfixOps_def by (rule sok_while [OF _ postfix_op_ok])

lemma parsePostfix_ok: "N \<le> Suc K \<Longrightarrow> N \<le> n \<Longrightarrow> sok T N 1 h a a (parsePostfix n r)"
  unfolding parsePostfix_def bind_laws
  by (intro sok_rules calls sok_bind1 [OF parsePrimary_ok] sok_weaken [OF parsePostfixOps_ok [of N]]) (auto dest: not_eof)

text \<open>A level of binary operators keeps what the tighter level has.\<close>

lemma binary_level_ok:
  assumes "\<And>t. ops t \<Longrightarrow> Kind t \<noteq> TokEOF" "\<And>N h a e. N \<le> Suc K \<Longrightarrow> N \<le> n \<Longrightarrow> sok T N 0 h a a (sub e)" "N \<le> Suc K" "N \<le> n"
  shows "sok T N 0 h a a (binary_level n r ops sub e)"
  unfolding binary_level_def bind_laws
  by (intro sok_bind0 [OF assms(2)] sok_while sok_rules sok_bind1 [OF parsePostfix_ok]) (use assms(1,3,4) in auto)

lemma parseMultiplicative_ok: "N \<le> Suc K \<Longrightarrow> N \<le> n \<Longrightarrow> sok T N 0 h a a (parseMultiplicative n r e)"
  unfolding parseMultiplicative_def by (rule binary_level_ok) (auto dest: not_eof intro: sok_return)

lemma parseAdditive_ok: "N \<le> Suc K \<Longrightarrow> N \<le> n \<Longrightarrow> sok T N 0 h a a (parseAdditive n r e)"
  unfolding parseAdditive_def by (rule binary_level_ok) (auto dest: not_eof intro: parseMultiplicative_ok)

lemma parseRelational_ok: "N \<le> Suc K \<Longrightarrow> N \<le> n \<Longrightarrow> sok T N 0 h a a (parseRelational n r e)"
  unfolding parseRelational_def by (rule binary_level_ok) (auto dest: not_eof intro: parseAdditive_ok)

lemma parseEquality_ok: "N \<le> Suc K \<Longrightarrow> N \<le> n \<Longrightarrow> sok T N 0 h a a (parseEquality n r e)"
  unfolding parseEquality_def by (rule binary_level_ok) (auto dest: not_eof intro: parseRelational_ok)

lemma parseLogicalAnd_ok: "N \<le> Suc K \<Longrightarrow> N \<le> n \<Longrightarrow> sok T N 0 h a a (parseLogicalAnd n r e)"
  unfolding parseLogicalAnd_def by (rule binary_level_ok) (auto dest: not_eof intro: parseEquality_ok)

lemma parseLogicalOr_ok: "N \<le> Suc K \<Longrightarrow> N \<le> n \<Longrightarrow> sok T N 0 h a a (parseLogicalOr n r e)"
  unfolding parseLogicalOr_def by (rule binary_level_ok) (auto dest: not_eof intro: parseLogicalAnd_ok)

lemma parseExprFrom_ok: "N \<le> Suc K \<Longrightarrow> N \<le> n \<Longrightarrow> sok T N 0 h a a (parseExprFrom n r e)"
  unfolding parseExprFrom_def parseTernary_def bind_laws
  by (intro sok_rules calls sok_bind0 [OF parseLogicalOr_ok]) (auto dest: not_eof)

lemma parseExpr_ok: "N \<le> Suc K \<Longrightarrow> N \<le> n \<Longrightarrow> sok T N 1 h a a (parseExpr n r)"
  unfolding parseExpr_def by (intro sok_bind1 [OF parsePostfix_ok] sok_weaken [OF parseExprFrom_ok [of N]]) auto

lemma assign_rest_ok: "is_assign t \<Longrightarrow> N \<le> Suc K \<Longrightarrow> N \<le> n \<Longrightarrow> k \<le> 1 \<Longrightarrow> sok T N k (Some t) a a (assign_rest n r e p)"
  unfolding assign_rest_def by (intro sok_rules sok_bind1 [OF parseExpr_ok]) (auto dest: not_eof)

lemma parseExprOrAssignStmt_ok: "N \<le> Suc K \<Longrightarrow> N \<le> n \<Longrightarrow> sok T N 1 h a a (parseExprOrAssignStmt n r)"
  unfolding parseExprOrAssignStmt_def bind_laws
  by (intro sok_rules sok_bind1 [OF parsePostfix_ok] sok_bind1 [OF parseExpr_ok] sok_bind0 [OF parseExprFrom_ok] assign_rest_ok) auto

lemma parseBlockStmt_ok: "Kind t \<noteq> TokEOF \<Longrightarrow> N \<le> Suc K \<Longrightarrow> k \<le> 1 \<Longrightarrow> sok T N k (Some t) a a (parseBlockStmt r)"
  unfolding parseBlockStmt_def by (intro sok_rules calls) auto

lemma parseStmtOrBlock_ok: "N \<le> K \<Longrightarrow> sok T N 1 h a a (parseStmtOrBlock r)"
  unfolding parseStmtOrBlock_def by (intro sok_rules parseBlockStmt_ok stmt_end) auto

lemma paren_cond_ok: "N \<le> Suc K \<Longrightarrow> N \<le> n \<Longrightarrow> sok T N 1 h a a (paren_cond n r m1 m2)"
  unfolding paren_cond_def bind_laws by (intro sok_rules sok_bind1 [OF parseExpr_ok]) auto

lemmas parts = sok_bind1 [OF parseExpr_ok] sok_bind1 [OF parseStmtOrBlock_ok] sok_bind1 [OF paren_cond_ok] sok_peeking calls

lemma parseIf_ok: "Kind t \<noteq> TokEOF \<Longrightarrow> N \<le> Suc K \<Longrightarrow> N \<le> n \<Longrightarrow> sok T N 1 (Some t) a a (parseIf n r)"
  unfolding parseIf_def bind_laws by (intro sok_rules parts) auto

lemma parseWhile_ok: "Kind t \<noteq> TokEOF \<Longrightarrow> N \<le> Suc K \<Longrightarrow> N \<le> n \<Longrightarrow> sok T N 1 (Some t) a a (parseWhile n r)"
  unfolding parseWhile_def by (intro sok_rules parts) auto

lemma for_in_ok: "Kind t \<noteq> TokEOF \<Longrightarrow> N \<le> Suc K \<Longrightarrow> N \<le> n \<Longrightarrow> sok T N 0 (Some t) (Suc a) a (for_in n r head)"
  unfolding for_in_def bind_laws by (intro sok_rules parts) auto

lemma unless_ok:
  assumes "\<And>h. sok T N 0 h a a m" "\<And>x. sok T N k None a b (f x)"
  shows "sok T N k h a b (bindP (unless kd m) f)"
  by (rule sok_bind0 [OF _ assms(2)]) (unfold unless_def bind_laws, intro sok_rules sok_bind0 [OF assms(1)], auto)

lemma for_c_ok: "N \<le> K \<Longrightarrow> N \<le> n \<Longrightarrow> sok T N 0 h (Suc a) a (for_c n r head)"
  unfolding for_c_def bind_laws
  by (intro unless_ok sok_rules parts stmt_end sok_weaken [OF parseExpr_ok [of N]]) auto

lemma parseFor_ok: "Kind t \<noteq> TokEOF \<Longrightarrow> N \<le> Suc K \<Longrightarrow> N \<le> n \<Longrightarrow> sok T N 1 (Some t) a a (parseFor n r)"
  unfolding parseFor_def bind_laws by (intro sok_rules sok_weaken [OF for_in_ok [of _ N]] sok_weaken [OF for_c_ok [of "N - 1"]]) auto

lemma parseCatch_ok: "N \<le> K \<Longrightarrow> N \<le> n \<Longrightarrow> sok T N 1 None a a (parseCatch n r)"
  unfolding parseCatch_def bind_laws by (intro sok_rules parts) auto

lemma try_rest_ok: "N \<le> K \<Longrightarrow> N \<le> n \<Longrightarrow> sok T N 0 h a a (try_rest n r)"
  unfolding try_rest_def bind_laws by (intro sok_rules parts sok_bind1 [OF parseCatch_ok]) auto

lemma parseTry_ok: "Kind t \<noteq> TokEOF \<Longrightarrow> N \<le> Suc K \<Longrightarrow> N \<le> n \<Longrightarrow> sok T N 1 (Some t) a a (parseTry n r)"
  unfolding parseTry_def bind_laws by (intro sok_rules parts sok_bind0 [OF try_rest_ok]) auto

lemma parseReturn_ok: "Kind t \<noteq> TokEOF \<Longrightarrow> N \<le> Suc K \<Longrightarrow> N \<le> n \<Longrightarrow> sok T N 1 (Some t) a a (parseReturn n r)"
  unfolding parseReturn_def by (intro sok_rules parts) auto

lemma parseThrow_ok: "Kind t \<noteq> TokEOF \<Longrightarrow> N \<le> Suc K \<Longrightarrow> N \<le> n \<Longrightarrow> sok T N 1 (Some t) a a (parseThrow n r)"
  unfolding parseThrow_def by (intro sok_rules parts) auto

lemma parseFuncDecl_ok: "Kind t \<noteq> TokEOF \<Longrightarrow> N \<le> Suc K \<Longrightarrow> N \<le> n \<Longrightarrow> sok T N 1 (Some t) a a (parseFuncDecl n r anns)"
  unfolding parseFuncDecl_def bind_laws by (intro sok_rules parts sok_bind0 [OF parseParamList_ok]) auto

lemma parseDefStmt_ok: "Kind t \<noteq> TokEOF \<Longrightarrow> N \<le> Suc K \<Longrightarrow> N \<le> n \<Longrightarrow> sok T N 1 (Some t) a a (parseDefStmt n r)"
  unfolding parseDefStmt_def bind_laws by (intro sok_rules parts parseFuncDecl_ok) (auto dest: not_eof)

lemma parseTypedVarDecl_ok: "Kind t \<noteq> TokEOF \<Longrightarrow> N \<le> Suc K \<Longrightarrow> N \<le> n \<Longrightarrow> sok T N 1 (Some t) a a (parseTypedVarDecl n r)"
  unfolding parseTypedVarDecl_def bind_laws by (intro sok_rules parts) auto

lemma parseStmt_ok: "N \<le> Suc K \<Longrightarrow> N \<le> n \<Longrightarrow> sok T N 1 h a a (parseStmt n r)"
  unfolding parseStmt_def bind_laws
  by (intro sok_rules parseIf_ok parseFor_ok parseWhile_ok parseTry_ok parseReturn_ok parseThrow_ok parseDefStmt_ok
      parseBlockStmt_ok parseTypedVarDecl_ok parseExprOrAssignStmt_ok) (auto dest: not_eof)

lemma parseBlock_ok: "N \<le> Suc K \<Longrightarrow> N \<le> n \<Longrightarrow> sok T N 1 h a a (parseBlock n r)"
  unfolding parseBlock_def bind_laws by (intro sok_rules sok_bind1 [OF parseStmt_ok]) auto

lemma parseTopStmt_ok: "N \<le> Suc K \<Longrightarrow> N \<le> n \<Longrightarrow> sok T N 1 h a a (parseTopStmt n r)"
  unfolding parseTopStmt_def bind_laws by (intro sok_rules parseFuncDecl_ok parseStmt_ok) (auto dest: not_eof)

lemma parseTopBlock_ok: "N \<le> Suc K \<Longrightarrow> N \<le> n \<Longrightarrow> sok T N 0 h a a (parseTopBlock n r)"
  unfolding parseTopBlock_def bind_laws by (intro sok_rules sok_bind1 [OF parseTopStmt_ok]) auto

end

section \<open>The tied table\<close>

lemma tied_calls:
  "rExpr (tied (Suc n)) = parseExpr (Suc n) (tied n)" "rPostfix (tied (Suc n)) = parsePostfix (Suc n) (tied n)"
  "rStmt (tied (Suc n)) = parseStmt (Suc n) (tied n)" "rBlock (tied (Suc n)) = parseBlock (Suc n) (tied n)"
  by (auto simp: rExpr_def rPostfix_def rStmt_def rBlock_def bindP_def returnP_def fun_eq_iff split: sum.splits)

lemma knotted_tied: "knotted T K (tied K)"
proof (induction K)
  case 0
  show ?case by unfold_locales (simp_all add: sok_fuel0)
next
  case (Suc K)
  then show ?case
    by unfold_locales (simp_all only: tied_calls knotted.parseExpr_ok knotted.parsePostfix_ok knotted.parseStmt_ok knotted.parseBlock_ok order_refl)
qed

interpretation tie: knotted T K "tied K" for T K
  by (rule knotted_tied)

section \<open>The entry points\<close>

lemma ensureEOF_ok: "stream_ok (ensureEOF ts)"
  by (auto simp: ensureEOF_def stream_ok_def mkTok_def split: prod.splits)

lemma sok_run:
  assumes "sok T (length T) 0 None a b m" "stream_ok T"
  shows "case m (T, a) of Inl e \<Rightarrow> err_ok placed T e | Inr (x, ts, d) \<Rightarrow> suffix ts T \<and> ts \<noteq> [] \<and> d = b"
  using pokD [OF sokD [OF assms(1), of 0] assms(2), of T] assms(2)
  by (auto simp: at_depth_def stream_ok_def split: sum.splits prod.splits)

lemma run_ok: "sok T (length T) 0 None a b m \<Longrightarrow> stream_ok T \<Longrightarrow> case run m T a of Inl e \<Rightarrow> err_ok placed T e | Inr x \<Rightarrow> True"
  using sok_run [of T a b m] by (auto simp: run_def split: sum.splits)

lemma whileS_exit: "whileS n c body x s = Inr (y, s') \<Longrightarrow> fst s' \<noteq> [] \<and> \<not> c y (hd (fst s'))"
  by (induction n arbitrary: x s)
    (auto simp: raiseP_def bindP_def peekS_def returnP_def split: sum.splits prod.splits list.splits if_splits)

lemma parseTopBlock_eof: "parseTopBlock n r s = Inr (b, ts, d) \<Longrightarrow> Kind (hd ts) = TokEOF"
  by (auto simp: parseTopBlock_def thenP_def bindP_def returnP_def split: sum.splits prod.splits dest!: whileS_exit)

text \<open>
  C27. The script parser accepts or rejects every token list with the fuel it passes itself: on success it stands on an end-of-file
  token of the input with every bracket closed (bracket depth 0), and otherwise the error has the line and column of one of the tokens. It never
  indexes past the last token.
\<close>

theorem ParseScript_total:
  "case parseTopBlock (length (ensureEOF ts)) (tied (length (ensureEOF ts))) (ensureEOF ts, 0) of
     Inl e \<Rightarrow> err_ok placed (ensureEOF ts) e \<and> ParseScriptTokens ts = Inl e
   | Inr (b, ts', depth) \<Rightarrow> suffix ts' (ensureEOF ts) \<and> Kind (hd ts') = TokEOF \<and> depth = 0
       \<and> ParseScriptTokens ts = Inr \<lparr>sf_Block = b\<rparr>"
  using sok_run [OF tie.parseTopBlock_ok ensureEOF_ok, of ts "length (ensureEOF ts)" "length (ensureEOF ts)" 0]
  by (auto simp: ParseScriptTokens_def run_def bindP_def returnP_def Let_def dest: parseTopBlock_eof split: sum.splits)

text \<open>
  The two entry points for fragments, an expression and the argument list between two parentheses (whose parser starts at
  bracket depth 1), also return on every token list, with a value an error that points at a token, or, for an expression, the error that the input is empty.
\<close>

theorem ParseFragments_total:
  "(case ParseExprTokens ts of Inl e \<Rightarrow> e = ParseFail ''empty input'' \<or> err_ok placed (ensureEOF ts) e | Inr e \<Rightarrow> True)
   \<and> (case ParseArgListTokens ts of Inl e \<Rightarrow> err_ok placed (ensureEOF ts) e | Inr args \<Rightarrow> True)"
proof
  let ?T = "ensureEOF ts"
  let ?p = "bindP (parseExpr (length ?T) (tied (length ?T))) (\<lambda>e. thenP skipNL (bindP peekS (\<lambda>tok.
      if Kind tok \<noteq> TokEOF then raiseP (ParseError ''trailing tokens after expression'' (Line tok) (Col tok)) else returnP e)))"
  have "case run (thenP skipNL ?p) ?T 0 of Inl e \<Rightarrow> err_ok placed ?T e | Inr e \<Rightarrow> True"
    by (rule run_ok [where b = 0, OF _ ensureEOF_ok], unfold bind_laws, intro sok_rules sok_raise sok_bind1 [OF tie.parseExpr_ok]) auto
  moreover have "ParseExprTokens ts = Inl (ParseFail ''empty input'') \<or> ParseExprTokens ts = run (thenP skipNL ?p) ?T 0"
    using skipNewlines_spec [OF ensureEOF_ok suffix_order.refl, of ts] ensureEOF_ok [of ts]
    by (auto simp: ParseExprTokens_def Let_def run_def thenP_def bindP_def skipNL_def on_toks_def peekS_def raiseP_def stream_ok_def
        split: list.splits)
  ultimately show "case ParseExprTokens ts of Inl e \<Rightarrow> e = ParseFail ''empty input'' \<or> err_ok placed ?T e | Inr e \<Rightarrow> True"
    by (auto split: sum.splits)
  show "case ParseArgListTokens ts of Inl e \<Rightarrow> err_ok placed ?T e | Inr args \<Rightarrow> True"
    unfolding ParseArgListTokens_def Let_def
    by (rule run_ok [where b = 1, OF _ ensureEOF_ok], unfold bind_laws, intro sok_rules sok_raise sok_bind0 [OF tie.parseArgList_ok]) auto
qed

section \<open>Newlines between statements\<close>

text \<open>
  Two statements on two lines, a name and an assignment, are rejected: the test for a typed declaration looks behind newlines,
  takes \<open>foo\<close> and \<open>bar\<close> for the type and the name, and the token it then consumes as the equals sign is \<open>bar\<close>'s. With a
  semicolon after the name the same program has two statements.
\<close>

theorem newline_typed_decl:
  "ParseScript (''foo'' @ [CHR 0x0A] @ ''bar = 1'') = Inl (ParseError ''unexpected token in expression'' 2 5)
   \<and> (case ParseScript (''foo;'' @ [CHR 0x0A] @ ''bar = 1'') of Inl e \<Rightarrow> False
      | Inr f \<Rightarrow> (case Statements (sf_Block f) of
           [ExprStmt (IdentExpr v _) _, AssignStmt (IdentExpr w _) _ (NumberLit x _) _] \<Rightarrow> v = ''foo'' \<and> w = ''bar'' \<and> x = ''1''
         | _ \<Rightarrow> False))"
  by (intro conjI; code_simp)

text \<open>
  A command call in a closure that is itself inside brackets is split: in \<^verbatim>\<open>f([a: { sh 1 }])\<close> the body of the closure has the two
  statements \<^verbatim>\<open>sh\<close> and \<^verbatim>\<open>1\<close>, because the bracket depth of the call is still counted inside the braces.
\<close>

theorem closure_in_brackets_splits_command:
  "case ParseScript ''f([a: { sh 1 }])'' of Inl e \<Rightarrow> False
   | Inr f \<Rightarrow> (case Statements (sf_Block f) of
        [ExprStmt (CallExpr _ [CallArg _ (MapExpr [MapEntry _ (Closure c)] _)] _ _) _] \<Rightarrow>
          (case Statements (cl_Body c) of [ExprStmt (IdentExpr v _) _, ExprStmt (NumberLit w _) _] \<Rightarrow> v = ''sh'' \<and> w = ''1'' | _ \<Rightarrow> False)
      | _ \<Rightarrow> False)"
  by code_simp

end
