(* ===== verification/LocalExec.thy ===== *)
theory LocalExec
  imports Matrix
begin

text \<open>
  The in-process executor, \<^verbatim>\<open>internal/scheduler/local.go\<close>: build directory, log, the environment of every step, the loop over
  the steps, the collection of declared artifacts and the result file. The shell (\<^verbatim>\<open>os/exec\<close>), the JSON library, the host's
  environment and the text of a system error are the record \<open>host\<close>, a parameter. A Go slice that may be \<^verbatim>\<open>nil\<close> where that
  matters is an option. The commands run and the chunks handed to the \<^verbatim>\<open>onLog\<close> callback are part of the result.
\<close>

section \<open>The host\<close>

datatype run_err = ExitError int | RunFailed string

text \<open>\<^verbatim>\<open>cmd.Run()\<close>: its error, \<^verbatim>\<open>ctx.Err()\<close> right after it, and the output in the chunks it arrived in.\<close>

record run_result =
  rr_err :: "run_err option"
  rr_ctxErr :: "string option"
  rr_out :: "string list"

record host =
  Environ :: "string list"
  sh :: "path \<Rightarrow> string list \<Rightarrow> string \<Rightarrow> world \<Rightarrow> run_result \<times> world"
  res_json :: "BuildResult \<Rightarrow> string"
  env_json :: "string \<Rightarrow> env option"
  errText :: "goerr \<Rightarrow> string"

record LocalExecutor =
  le_root :: path
  le_onLog :: bool

record call =
  call_dir :: path
  call_env :: "string list"
  call_script :: string
  call_result :: run_result

type_synonym chunk = "string \<times> int \<times> string"

section \<open>Environments\<close>

text \<open>A list of \<^verbatim>\<open>KEY=value\<close> entries; \<open>None\<close> is the nil slice, on which \<^verbatim>\<open>cmd.Env\<close> means the process's own environment.\<close>

fun cut_eq :: "string \<Rightarrow> (string \<times> string) option" where
  "cut_eq [] = None"
| "cut_eq (c # cs) = (if c = CHR ''='' then Some ([], cs) else map_option (\<lambda>(k, v). (c # k, v)) (cut_eq cs))"

definition entry :: "string \<Rightarrow> string \<Rightarrow> string" where
  "entry k v = k @ CHR ''='' # v"

definition over_key :: "env \<Rightarrow> string \<Rightarrow> (string \<times> string) option" where
  "over_key overlay kv = (case cut_eq kv of None \<Rightarrow> None
     | Some (key, _) \<Rightarrow> (case map_of overlay key of None \<Rightarrow> None | Some v \<Rightarrow> Some (key, v)))"

definition mergeEnv :: "string list option \<Rightarrow> env \<Rightarrow> string list option" where
  "mergeEnv base overlay =
     (if overlay = [] then base
      else let b = (case base of None \<Rightarrow> [] | Some l \<Rightarrow> l);
               overridden = map fst (List.map_filter (over_key overlay) b)
           in Some (map (\<lambda>kv. case over_key overlay kv of None \<Rightarrow> kv | Some (key, v) \<Rightarrow> entry key v) b
                    @ map (\<lambda>(k, v). entry k v) (filter (\<lambda>(k, v). k \<notin> set overridden) overlay)))"

definition build_dir :: "path \<Rightarrow> string \<Rightarrow> int \<Rightarrow> path" where
  "build_dir root job num = join_path root [''builds'', job, Itoa num]"

text \<open>The empty list stands for the nil map of a missing or malformed file.\<close>

definition loadPriorExportedEnv :: "host \<Rightarrow> path \<Rightarrow> string \<Rightarrow> int \<Rightarrow> world \<Rightarrow> env" where
  "loadPriorExportedEnv h root job num w =
     (case fst (os_ReadFile (join_path (build_dir root job num) [''exported-env.json'']) w) of
        Inl e \<Rightarrow> []
      | Inr data \<Rightarrow> (case env_json h data of None \<Rightarrow> [] | Some m \<Rightarrow> m))"

definition step_overlay :: "Job \<Rightarrow> Step \<Rightarrow> string \<Rightarrow> env" where
  "step_overlay job st inputs =
     (let m = assign_all (assign_all [] (Env job)) (step_Env st) in
      if inputs \<noteq> '''' \<and> map_of m ''WOLFCI_INPUTS'' = None then AList.update ''WOLFCI_INPUTS'' inputs m else m)"

definition step_base :: "host \<Rightarrow> path \<Rightarrow> Job \<Rightarrow> int \<Rightarrow> world \<Rightarrow> string list option" where
  "step_base h root job num w =
     (let base = (case job_BuildEnv job of None \<Rightarrow> Some (Environ h)
                  | Some be \<Rightarrow> if KeepJenkinsEnvVars be then Some (Environ h) else None) in
      case job_BuildEnv job of None \<Rightarrow> base
      | Some be \<Rightarrow> if KeepJenkinsBuildVars be \<and> num > 1
                   then mergeEnv base (loadPriorExportedEnv h root (Name job) (num - 1) w) else base)"

text \<open>\<^verbatim>\<open>cmd.Env\<close> and the environment \<^verbatim>\<open>os/exec\<close> starts the process with.\<close>

definition step_env :: "host \<Rightarrow> path \<Rightarrow> Job \<Rightarrow> int \<Rightarrow> string \<Rightarrow> Step \<Rightarrow> world \<Rightarrow> string list option" where
  "step_env h root job num inputs st w = mergeEnv (step_base h root job num w) (step_overlay job st inputs)"

definition process_env :: "host \<Rightarrow> string list option \<Rightarrow> string list" where
  "process_env h e = (case e of None \<Rightarrow> Environ h | Some l \<Rightarrow> l)"

section \<open>The log\<close>

text \<open>
  A write through the open log handle: its error is ignored by the callers, and it reaches nothing once the file is unlinked. The
  number of bytes written decides what the tee hands on.
\<close>

definition log_write :: "path \<Rightarrow> string \<Rightarrow> world \<Rightarrow> nat \<times> world" where
  "log_write p data w =
     (if file_at w p = None then (length data, w)
      else (case f_Write p data w of
              (Inl e, w') \<Rightarrow> (min (torn w p) (length data), w')
            | (Inr _, w') \<Rightarrow> (length data, w')))"

fun log_lines :: "path \<Rightarrow> string list \<Rightarrow> world \<Rightarrow> world" where
  "log_lines p [] w = w"
| "log_lines p (s # ss) w = log_lines p ss (snd (log_write p s w))"

fun tee_Write :: "bool \<Rightarrow> string \<Rightarrow> int \<Rightarrow> path \<Rightarrow> string list \<Rightarrow> world \<Rightarrow> chunk list \<times> world" where
  "tee_Write onlog job num p [] w = ([], w)"
| "tee_Write onlog job num p (s # ss) w =
     (let (n, w1) = log_write p s w; (cs, w2) = tee_Write onlog job num p ss w1
      in ((if n > 0 \<and> onlog then [(job, num, take n s)] else []) @ cs, w2))"

definition nl :: string where "nl = [CHR 0x0A]"

section \<open>The steps\<close>

text \<open>What the loop does after \<^verbatim>\<open>cmd.Run\<close>: the new result, a log line, and whether it leaves the loop.\<close>

definition after_run :: "run_result \<Rightarrow> BuildResult \<Rightarrow> BuildResult \<times> string list \<times> bool" where
  "after_run rr r =
     (case rr_err rr of None \<Rightarrow> (r, [], False)
      | Some e \<Rightarrow> (case rr_ctxErr rr of
          Some m \<Rightarrow> (r\<lparr>res_Status := StatusCancelled, res_Error := m\<rparr>, [''[wolfci] cancelled: '' @ m @ nl], True)
        | None \<Rightarrow> (case e of
            ExitError n \<Rightarrow> (r\<lparr>res_Status := StatusFailure, ExitCode := n\<rparr>, [''[wolfci] step exited with code '' @ Itoa n @ nl], True)
          | RunFailed m \<Rightarrow> (r\<lparr>res_Status := StatusError, res_Error := m\<rparr>, [''[wolfci] step error: '' @ m @ nl], True))))"

definition step_header :: "nat \<Rightarrow> Step \<Rightarrow> string list" where
  "step_header i st = [''+ [step '' @ Itoa (int i + 1)] @ (if step_Name st \<noteq> '''' then ['' '' @ step_Name st] else [])
     @ [''] '' @ Shell st @ nl]"

record run_state =
  rs_result :: BuildResult
  rs_calls :: "call list"
  rs_chunks :: "chunk list"
  rs_world :: world

fun run_steps :: "host \<Rightarrow> LocalExecutor \<Rightarrow> Job \<Rightarrow> int \<Rightarrow> path \<Rightarrow> path \<Rightarrow> string \<Rightarrow> nat \<Rightarrow> Step list \<Rightarrow> run_state \<Rightarrow> run_state" where
  "run_steps h e job num logPath workspace inputs i [] s = s"
| "run_steps h e job num logPath workspace inputs i (st # sts) s =
     (if Shell st = '''' then run_steps h e job num logPath workspace inputs (Suc i) sts s
      else let w1 = log_lines logPath (step_header i st) (rs_world s);
               env = process_env h (step_env h (le_root e) job num inputs st w1);
               (rr, w2) = sh h workspace env (Shell st) w1;
               (chunks, w3) = tee_Write (le_onLog e) (Name job) num logPath (rr_out rr) w2;
               (r, msg, leave) = after_run rr (rs_result s);
               s' = \<lparr>rs_result = r,
                     rs_calls = rs_calls s @ [\<lparr>call_dir = workspace, call_env = env, call_script = Shell st, call_result = rr\<rparr>],
                     rs_chunks = rs_chunks s @ chunks, rs_world = log_lines logPath msg w3\<rparr>
           in if leave then s' else run_steps h e job num logPath workspace inputs (Suc i) sts s')"

section \<open>Artifacts and the result file\<close>

text \<open>\<^verbatim>\<open>filepath.Base\<close>.\<close>

definition Base :: "string \<Rightarrow> string" where
  "Base s = (if s = '''' then ''.'' else case filter (\<lambda>c. c \<noteq> '''') (Split (CHR ''/'') s) of [] \<Rightarrow> ''/'' | cs \<Rightarrow> last cs)"

definition copyArtifact :: "path \<Rightarrow> path \<Rightarrow> string \<Rightarrow> unit io" where
  "copyArtifact srcRoot dstDir rel =
     (if rel = '''' then raiseIO (Msg ''empty artifact path'')
      else if IsAbs rel then raiseIO (Msg (''absolute path '' @ quoted rel @ '' rejected''))
      else if ''..'' \<in> set (Split (CHR ''/'') rel) then raiseIO (Msg (''path traversal '' @ quoted rel @ '' rejected''))
      else bindIO (os_ReadFile (join_path srcRoot [rel])) (\<lambda>data. os_WriteFile (join_path dstDir [Base rel]) data))"

text \<open>The two nested loops over the triggers and their artifacts, which stop together: the failing artifact and its error.\<close>

fun copy_all :: "path \<Rightarrow> path \<Rightarrow> string list \<Rightarrow> world \<Rightarrow> (string \<times> goerr) option \<times> world" where
  "copy_all srcRoot dstDir [] w = (None, w)"
| "copy_all srcRoot dstDir (rel # rels) w =
     (case copyArtifact srcRoot dstDir rel w of
        (Inl e, w') \<Rightarrow> (Some (rel, e), w')
      | (Inr _, w') \<Rightarrow> copy_all srcRoot dstDir rels w')"

definition declared :: "Job \<Rightarrow> string list" where
  "declared job = concat (map Artifacts (TriggersDownstream job))"

definition collect :: "host \<Rightarrow> Job \<Rightarrow> path \<Rightarrow> path \<Rightarrow> path \<Rightarrow> BuildResult \<Rightarrow> world \<Rightarrow> BuildResult \<times> world" where
  "collect h job dir workspace logPath r w =
     (if res_Status r \<noteq> StatusSuccess \<or> TriggersDownstream job = [] then (r, w)
      else let artDir = join_path dir [''artifacts''] in
        case os_MkdirAll artDir w of
          (Inl e, w1) \<Rightarrow> (r\<lparr>res_Status := StatusError, res_Error := ''scheduler.LocalExecutor: mkdir artifacts: '' @ errText h e\<rparr>, w1)
        | (Inr _, w1) \<Rightarrow> (case copy_all workspace artDir (declared job) w1 of
            (None, w2) \<Rightarrow> (r, w2)
          | (Some (rel, e), w2) \<Rightarrow>
              let m = ''scheduler.LocalExecutor: missing artifact '' @ quoted rel @ '': '' @ errText h e
              in (r\<lparr>res_Status := StatusFailure, res_Error := m\<rparr>, log_lines logPath [''[wolfci] '' @ m @ nl] w2)))"

definition writeResultJSON :: "host \<Rightarrow> path \<Rightarrow> BuildResult \<Rightarrow> unit io" where
  "writeResultJSON h dir r = wrapIO ''write'' (os_WriteFile (join_path dir [''result.json'']) (res_json h r))"

text \<open>\<^verbatim>\<open>os.OpenFile\<close> with \<^verbatim>\<open>O_RDWR|O_CREATE|O_TRUNC\<close>.\<close>

definition os_OpenFile_trunc :: "path \<Rightarrow> unit io" where
  "os_OpenFile_trunc p = bindIO (os_OpenFile_create p) (\<lambda>_ w. (Inr (), fs_put p (FileN '''' (clock w)) w))"

section \<open>Execute\<close>

definition fail_early :: "host \<Rightarrow> BuildResult \<Rightarrow> string \<Rightarrow> goerr \<Rightarrow> world \<Rightarrow> run_state" where
  "fail_early h r what e w = \<lparr>rs_result = r\<lparr>res_Error := ''scheduler.LocalExecutor: '' @ what @ '': '' @ errText h e\<rparr>,
     rs_calls = [], rs_chunks = [], rs_world = w\<rparr>"

definition finish :: "host \<Rightarrow> Job \<Rightarrow> path \<Rightarrow> path \<Rightarrow> path \<Rightarrow> run_state \<Rightarrow> run_state" where
  "finish h job dir workspace logPath s =
     (let (r, w1) = collect h job dir workspace logPath (rs_result s) (rs_world s) in
      case writeResultJSON h dir r w1 of
        (Inl e, w2) \<Rightarrow> s\<lparr>rs_result := r, rs_world := log_lines logPath [''[wolfci] result.json: '' @ errText h e @ nl] w2\<rparr>
      | (Inr _, w2) \<Rightarrow> s\<lparr>rs_result := r, rs_world := w2\<rparr>)"

definition inputs_dir :: "path \<Rightarrow> BuildRef option \<Rightarrow> string" where
  "inputs_dir root parent = (case parent of None \<Rightarrow> ''''
     | Some p \<Rightarrow> path_string (join_path root [''builds'', ref_Job p, Itoa (ref_Build p), ''artifacts'']))"

definition Execute :: "host \<Rightarrow> LocalExecutor \<Rightarrow> BuildRef option \<Rightarrow> Job \<Rightarrow> int \<Rightarrow> world \<Rightarrow> run_state" where
  "Execute h e parent job num w =
     (let r0 = \<lparr>JobName = Name job, Number = num, res_Status = StatusError, ExitCode = 0, res_Error = '''', TriggeredBy = None\<rparr> in
      if Name job = ''''
      then \<lparr>rs_result = r0\<lparr>res_Error := ''scheduler.LocalExecutor: empty Job.Name''\<rparr>, rs_calls = [], rs_chunks = [], rs_world = w\<rparr>
      else let dir = build_dir (le_root e) (Name job) num; workspace = join_path dir [''workspace'']; logPath = join_path dir [''log''] in
        case os_MkdirAll dir w of (Inl err, w1) \<Rightarrow> fail_early h r0 ''mkdir'' err w1
        | (Inr _, w1) \<Rightarrow> (case os_MkdirAll workspace w1 of (Inl err, w2) \<Rightarrow> fail_early h r0 ''mkdir workspace'' err w2
        | (Inr _, w2) \<Rightarrow> (case os_OpenFile_trunc logPath w2 of (Inl err, w3) \<Rightarrow> fail_early h r0 ''open log'' err w3
        | (Inr _, w3) \<Rightarrow>
            finish h job dir workspace logPath
              (run_steps h e job num logPath workspace (inputs_dir (le_root e) parent) 0 (Steps job)
                \<lparr>rs_result = r0\<lparr>TriggeredBy := parent, res_Status := StatusSuccess\<rparr>, rs_calls = [], rs_chunks = [], rs_world = w3\<rparr>))))"

text \<open>The executor the scheduler calls.\<close>

definition local_executor :: "host \<Rightarrow> LocalExecutor \<Rightarrow> executor" where
  "local_executor h e parent job num w = (rs_result (Execute h e parent job num w), rs_world (Execute h e parent job num w))"

section \<open>Lookups in an environment\<close>

text \<open>The value a process sees: the last entry of a key wins.\<close>

definition getenv :: "string list \<Rightarrow> string \<rightharpoonup> string" where
  "getenv l = map_of (rev (List.map_filter cut_eq l))"

definition keys_ok :: "env \<Rightarrow> bool" where
  "keys_ok m \<longleftrightarrow> distinct (map fst m) \<and> (\<forall>k \<in> fst ` set m. CHR ''='' \<notin> set k)"

lemma cut_eq_entry: "CHR ''='' \<notin> set k \<Longrightarrow> cut_eq (entry k v) = Some (k, v)"
  by (induction k) (auto simp: entry_def)

lemma cut_eq_key: "cut_eq s = Some (k, v) \<Longrightarrow> CHR ''='' \<notin> set k"
  by (induction s arbitrary: k v) (auto split: if_splits)

lemma cut_eq_over: "cut_eq (case over_key ov kv of None \<Rightarrow> kv | Some (key, v) \<Rightarrow> entry key v)
    = map_option (\<lambda>(k, v). (k, case map_of ov k of None \<Rightarrow> v | Some v' \<Rightarrow> v')) (cut_eq kv)"
  by (auto simp: over_key_def split: option.splits intro: cut_eq_entry dest: cut_eq_key)

lemma map_filter_over:
  "List.map_filter cut_eq (map (\<lambda>kv. case over_key ov kv of None \<Rightarrow> kv | Some (key, v) \<Rightarrow> entry key v) b)
   = map (\<lambda>(k, v). (k, case map_of ov k of None \<Rightarrow> v | Some v' \<Rightarrow> v')) (List.map_filter cut_eq b)"
  by (induction b) (auto simp: map_filter_simps cut_eq_over split: option.splits)

lemma map_filter_entries: "\<forall>k \<in> fst ` set l. CHR ''='' \<notin> set k \<Longrightarrow> List.map_filter cut_eq (map (\<lambda>(k, v). entry k v) l) = l"
  by (induction l) (auto simp: map_filter_simps cut_eq_entry)

lemma mf_append: "List.map_filter f (xs @ ys) = List.map_filter f xs @ List.map_filter f ys"
  by (simp add: map_filter_def)

lemma map_of_map_over: "map_of (map (\<lambda>(k, v). (k, f k v)) l) k = map_option (f k) (map_of l k)"
  by (induction l) auto

lemma map_of_filter_keys: "map_of (filter (\<lambda>(k, v). k \<notin> S) l) k = (if k \<in> S then None else map_of l k)"
  by (induction l) auto

lemma overridden_keys: "set (map fst (List.map_filter (over_key ov) b)) = {k. k \<in> dom (getenv b) \<and> map_of ov k \<noteq> None}"
proof -
  have "set (map fst (List.map_filter (over_key ov) b)) = {k. k \<in> fst ` set (List.map_filter cut_eq b) \<and> map_of ov k \<noteq> None}"
    by (induction b) (auto simp: map_filter_simps over_key_def split: option.splits)
  then show ?thesis by (simp add: getenv_def dom_map_of_conv_image_fst)
qed

lemma getenv_mergeEnv:
  assumes "keys_ok ov" "mergeEnv base ov = Some l"
  shows "getenv l k = (case map_of ov k of Some v \<Rightarrow> Some v | None \<Rightarrow> getenv (case base of None \<Rightarrow> [] | Some b \<Rightarrow> b) k)"
proof (cases "ov = []")
  case True
  with assms(2) show ?thesis by (simp add: mergeEnv_def)
next
  case False
  define b where "b = (case base of None \<Rightarrow> [] | Some b \<Rightarrow> b)"
  define S where "S = set (map fst (List.map_filter (over_key ov) b))"
  let ?left = "filter (\<lambda>(k, v). k \<notin> S) ov" and ?over = "map (\<lambda>(k, v). (k, case map_of ov k of None \<Rightarrow> v | Some v' \<Rightarrow> v'))"
  have l: "l = map (\<lambda>kv. case over_key ov kv of None \<Rightarrow> kv | Some (key, v) \<Rightarrow> entry key v) b @ map (\<lambda>(k, v). entry k v) ?left"
    using assms(2) False by (simp add: mergeEnv_def b_def S_def Let_def)
  have "\<forall>k \<in> fst ` set ?left. CHR ''='' \<notin> set k" using assms(1) by (auto simp: keys_ok_def)
  then have "List.map_filter cut_eq l = ?over (List.map_filter cut_eq b) @ ?left"
    unfolding l by (simp add: mf_append map_filter_over map_filter_entries)
  then have "getenv l = map_of (?over (rev (List.map_filter cut_eq b))) ++ map_of (rev ?left)"
    by (simp add: getenv_def rev_map)
  moreover have "distinct (map fst ?left)" using assms(1) by (simp add: keys_ok_def distinct_map_filter)
  ultimately have "getenv l k = (case map_of ?left k of Some v \<Rightarrow> Some v
      | None \<Rightarrow> map_option (\<lambda>v. case map_of ov k of None \<Rightarrow> v | Some v' \<Rightarrow> v') (getenv b k))"
    by (simp only: map_of_rev_distinct map_add_def map_of_map_over getenv_def)
  moreover have "k \<in> S \<longleftrightarrow> getenv b k \<noteq> None \<and> map_of ov k \<noteq> None" by (simp only: S_def overridden_keys) auto
  ultimately show ?thesis unfolding b_def [symmetric] by (auto simp: map_of_filter_keys option.map_ident split: option.splits)
qed

lemma keys_ok_update: "keys_ok m \<Longrightarrow> CHR ''='' \<notin> set k \<Longrightarrow> keys_ok (AList.update k v m)"
  by (auto simp: keys_ok_def keys_update distinct_update)

lemma keys_ok_assign_all: "keys_ok m \<Longrightarrow> \<forall>k \<in> fst ` set kvs. CHR ''='' \<notin> set k \<Longrightarrow> keys_ok (assign_all m kvs)"
  by (induction kvs arbitrary: m) (auto simp: assign_all_def keys_ok_update)

lemma keys_ok_overlay: "keys_ok (Env job) \<Longrightarrow> keys_ok (step_Env st) \<Longrightarrow> keys_ok (step_overlay job st inputs)"
proof -
  assume "keys_ok (Env job)" "keys_ok (step_Env st)"
  then have "keys_ok (assign_all (assign_all [] (Env job)) (step_Env st))"
    by (intro keys_ok_assign_all) (auto simp: keys_ok_def)
  then show ?thesis by (simp add: step_overlay_def Let_def keys_ok_update)
qed

lemma map_of_overlay:
  assumes "keys_ok (Env job)" "keys_ok (step_Env st)"
  shows "map_of (step_overlay job st inputs) =
     (if inputs \<noteq> '''' then [''WOLFCI_INPUTS'' \<mapsto> inputs] else Map.empty) ++ map_of (Env job) ++ map_of (step_Env st)"
proof -
  have "map_of (assign_all (assign_all [] (Env job)) (step_Env st)) = map_of (Env job) ++ map_of (step_Env st)"
    using assms by (simp add: keys_ok_def map_of_assign_all map_of_rev_distinct)
  then show ?thesis by (auto simp: step_overlay_def Let_def fun_eq_iff map_add_def split: option.splits)
qed

lemma getenv_step_base:
  assumes "keys_ok (loadPriorExportedEnv h root (Name job) (num - 1) w)"
  shows "getenv (case step_base h root job num w of None \<Rightarrow> [] | Some b \<Rightarrow> b) =
     (if case job_BuildEnv job of None \<Rightarrow> True | Some be \<Rightarrow> KeepJenkinsEnvVars be then getenv (Environ h) else Map.empty)
     ++ (if (case job_BuildEnv job of None \<Rightarrow> False | Some be \<Rightarrow> KeepJenkinsBuildVars be) \<and> num > 1
         then map_of (loadPriorExportedEnv h root (Name job) (num - 1) w) else Map.empty)"
proof -
  let ?p = "loadPriorExportedEnv h root (Name job) (num - 1) w"
  have nil: "getenv [] = Map.empty" by (simp add: getenv_def map_filter_simps)
  have "getenv (case mergeEnv base ?p of None \<Rightarrow> [] | Some b \<Rightarrow> b) = getenv (case base of None \<Rightarrow> [] | Some b \<Rightarrow> b) ++ map_of ?p" for base
  proof (cases "mergeEnv base ?p")
    case None
    then have "base = None" "?p = []" by (auto simp: mergeEnv_def Let_def split: if_splits)
    then show ?thesis by (simp add: mergeEnv_def)
  next
    case (Some l)
    from getenv_mergeEnv [OF assms this] Some show ?thesis by (auto simp: fun_eq_iff map_add_def split: option.splits)
  qed
  then show ?thesis by (simp add: step_base_def Let_def nil split: option.split)
qed

lemma step_base_None: "step_base h root job num w = None \<longleftrightarrow>
    \<not> (case job_BuildEnv job of None \<Rightarrow> True | Some be \<Rightarrow> KeepJenkinsEnvVars be)
    \<and> ((case job_BuildEnv job of None \<Rightarrow> False | Some be \<Rightarrow> KeepJenkinsBuildVars be) \<and> num > 1
        \<longrightarrow> loadPriorExportedEnv h root (Name job) (num - 1) w = [])"
  by (auto simp: step_base_def mergeEnv_def Let_def split: option.splits)

text \<open>
  The environment of a step is layered: a variable has the value of the step, else of the job, else (for \<open>WOLFCI_INPUTS\<close>) the
  upstream's artifacts directory, else the previous build's export when those are kept, else the host's value when that is kept.
  The theorem asks for at least one entry above the host or for the host's environment to be kept.
\<close>

theorem step_env_layers:
  assumes "keys_ok (Env job)" "keys_ok (step_Env st)" "keys_ok prior" "prior = loadPriorExportedEnv h root (Name job) (num - 1) w"
    and "keep_host \<longleftrightarrow> (case job_BuildEnv job of None \<Rightarrow> True | Some be \<Rightarrow> KeepJenkinsEnvVars be)"
    and "keep_prior \<longleftrightarrow> (case job_BuildEnv job of None \<Rightarrow> False | Some be \<Rightarrow> KeepJenkinsBuildVars be) \<and> num > 1"
    and "keep_host \<or> keep_prior \<and> prior \<noteq> [] \<or> Env job \<noteq> [] \<or> step_Env st \<noteq> [] \<or> inputs \<noteq> ''''"
  shows "getenv (process_env h (step_env h root job num inputs st w)) =
     (if keep_host then getenv (Environ h) else Map.empty) ++ (if keep_prior then map_of prior else Map.empty)
     ++ (if inputs \<noteq> '''' then [''WOLFCI_INPUTS'' \<mapsto> inputs] else Map.empty) ++ map_of (Env job) ++ map_of (step_Env st)"
proof
  fix k
  let ?ov = "step_overlay job st inputs" and ?base = "step_base h root job num w"
  have ov: "map_of ?ov = (if inputs \<noteq> '''' then [''WOLFCI_INPUTS'' \<mapsto> inputs] else Map.empty) ++ map_of (Env job) ++ map_of (step_Env st)"
    using assms(1,2) by (rule map_of_overlay)
  have base: "getenv (case ?base of None \<Rightarrow> [] | Some b \<Rightarrow> b) =
      (if keep_host then getenv (Environ h) else Map.empty) ++ (if keep_prior then map_of prior else Map.empty)"
    using getenv_step_base [of h root job num w] assms(3-6) by simp
  have "?ov = [] \<Longrightarrow> inputs = '''' \<and> Env job = [] \<and> step_Env st = []" using ov by (auto split: if_splits)
  then have "?base \<noteq> None \<or> ?ov \<noteq> []" using assms(4-7) step_base_None [of h root job num w] by auto
  then have "mergeEnv ?base ?ov \<noteq> None" by (auto simp: mergeEnv_def Let_def)
  then obtain l where l: "mergeEnv ?base ?ov = Some l" by blast
  from getenv_mergeEnv [OF keys_ok_overlay [OF assms(1,2)] l, of k] show "getenv (process_env h (step_env h root job num inputs st w)) k =
     ((if keep_host then getenv (Environ h) else Map.empty) ++ (if keep_prior then map_of prior else Map.empty)
     ++ (if inputs \<noteq> '''' then [''WOLFCI_INPUTS'' \<mapsto> inputs] else Map.empty) ++ map_of (Env job) ++ map_of (step_Env st)) k"
    by (simp add: process_env_def step_env_def l base ov map_add_def split: option.splits)
qed

text \<open>
  Without an entry of its own a step inherits what it was meant to drop: when the job says not to keep the host's variables and
  nothing else contributes an entry, \<^verbatim>\<open>mergeEnv\<close> returns the nil slice, and the process starts with the whole environment of the server.
\<close>

theorem empty_env_inherits_host:
  assumes "job_BuildEnv job = Some be" "\<not> KeepJenkinsEnvVars be" "\<not> KeepJenkinsBuildVars be" "Env job = []" "step_Env st = []"
  shows "process_env h (step_env h root job num '''' st w) = Environ h"
  using assms by (simp add: process_env_def step_env_def step_base_def step_overlay_def assign_all_def mergeEnv_def)

section \<open>What a build may touch\<close>

definition only_in :: "(path \<Rightarrow> bool) \<Rightarrow> world \<Rightarrow> world \<Rightarrow> bool" where
  "only_in D w w' \<longleftrightarrow> fault w' = fault w \<and> (\<forall>q. \<not> D q \<longrightarrow> file_at w' q = file_at w q)"

named_theorems only_in_intros \<open>file calls that keep to a set of paths\<close>

lemma only_in_refl [simp, only_in_intros]: "only_in D w w"
  by (simp add: only_in_def)

lemma only_in_trans: "only_in D u v \<Longrightarrow> only_in D v w \<Longrightarrow> only_in D u w"
  by (simp add: only_in_def)

lemma only_in_put: "D p \<Longrightarrow> only_in D w (fs_put p n w)"
  by (auto simp: only_in_def file_at_def)

lemma only_in_MkdirAll: "os_MkdirAll p w = (r, w') \<Longrightarrow> only_in D w w'"
  by (simp add: only_in_def MkdirAll_frame)

lemma only_in_create: "os_OpenFile_create p w = (r, w') \<Longrightarrow> D p \<Longrightarrow> only_in D w w'"
  by (auto simp: os_OpenFile_create_def only_in_put split: if_splits option.splits)

lemma only_in_trunc: "os_OpenFile_trunc p w = (r, w') \<Longrightarrow> D p \<Longrightarrow> only_in D w w'"
  by (auto simp: os_OpenFile_trunc_def bindIO_def split: prod.splits sum.splits
      dest: only_in_create intro: only_in_trans only_in_put)

lemma only_in_WriteFile: "os_WriteFile p data w = (r, w') \<Longrightarrow> D p \<Longrightarrow> only_in D w w'"
proof -
  assume a: "os_WriteFile p data w = (r, w')" "D p"
  have "fs_get w' q = fs_get w q" if "\<not> D q" for q using WriteFile_frame(1) [OF a(1), of q] a(2) that by blast
  with WriteFile_frame(3) [OF a(1)] show ?thesis by (simp add: only_in_def file_at_def)
qed

lemma only_in_f_Write: "f_Write p data w = (r, w') \<Longrightarrow> D p \<Longrightarrow> only_in D w w'"
  by (auto simp: f_Write_def Let_def only_in_put split: if_splits)

lemma only_in_log: "D p \<Longrightarrow> only_in D w (snd (log_write p s w))"
  by (auto simp: log_write_def split: prod.splits sum.splits dest: only_in_f_Write)

lemma only_in_log_lines: "D p \<Longrightarrow> only_in D w (log_lines p ss w)"
  by (induction ss arbitrary: w) (auto intro: only_in_trans only_in_log)

lemma tee_world: "snd (tee_Write onlog job num p ss w) = log_lines p ss w"
  by (induction ss arbitrary: w) (simp_all add: Let_def case_prod_unfold)

lemma only_in_run_steps:
  assumes sh: "\<And>env s w. only_in D w (snd (sh h workspace env s w))" and "D logPath"
  shows "only_in D (rs_world s) (rs_world (run_steps h e job num logPath workspace inputs i sts s))"
proof (induction sts arbitrary: i s)
  case (Cons st sts)
  show ?case
  proof (cases "Shell st = ''''")
    case False
    let ?w1 = "log_lines logPath (step_header i st) (rs_world s)"
    let ?run = "sh h workspace (process_env h (step_env h (le_root e) job num inputs st ?w1)) (Shell st) ?w1"
    obtain rr w2 where run: "?run = (rr, w2)" by (cases ?run)
    obtain cs w3 where tee: "tee_Write (le_onLog e) (Name job) num logPath (rr_out rr) w2 = (cs, w3)" by fastforce
    have log: "only_in D v (log_lines logPath ss v)" for v ss by (rule only_in_log_lines [where D = D and p = logPath, OF assms(2)])
    have w1: "only_in D (rs_world s) ?w1" by (rule log)
    have w2: "only_in D ?w1 w2" using sh run by (metis snd_conv)
    have w3: "w3 = log_lines logPath (rr_out rr) w2" using tee_world [of "le_onLog e" "Name job" num logPath "rr_out rr" w2] tee by simp
    have "only_in D (rs_world s) (log_lines logPath msg w3)" for msg
      unfolding w3 by (rule only_in_trans [OF only_in_trans [OF only_in_trans [OF w1 w2] log] log])
    moreover obtain r msg leave where ar: "after_run rr (rs_result s) = (r, msg, leave)" by (cases "after_run rr (rs_result s)")
    moreover define s' where "s' = \<lparr>rs_result = r,
        rs_calls = rs_calls s @ [\<lparr>call_dir = workspace, call_env = process_env h (step_env h (le_root e) job num inputs st ?w1),
          call_script = Shell st, call_result = rr\<rparr>],
        rs_chunks = rs_chunks s @ cs, rs_world = log_lines logPath msg w3\<rparr>"
    ultimately have s': "only_in D (rs_world s) (rs_world s')" by simp
    have "run_steps h e job num logPath workspace inputs i (st # sts) s
        = (if leave then s' else run_steps h e job num logPath workspace inputs (Suc i) sts s')"
      using False run tee ar by (simp add: Let_def s'_def)
    then show ?thesis using s' only_in_trans [OF s' Cons.IH [where s = s' and i = "Suc i"]] by simp
  qed (simp add: Cons.IH)
qed simp

lemma only_in_bind:
  assumes "bindIO m f w = (r, w')" "\<And>x v. m w = (x, v) \<Longrightarrow> only_in D w v" "\<And>x u r v. f x u = (r, v) \<Longrightarrow> only_in D u v"
  shows "only_in D w w'"
proof (cases "m w")
  case (Pair x v)
  then show ?thesis using assms by (cases x) (auto simp: bindIO_def intro: only_in_trans)
qed

lemma only_in_copyArtifact:
  assumes "copyArtifact src dst rel w = (r, w')"
    and "rel \<noteq> '''' \<Longrightarrow> \<not> IsAbs rel \<Longrightarrow> ''..'' \<notin> set (Split (CHR ''/'') rel) \<Longrightarrow> D (join_path dst [Base rel])"
  shows "only_in D w w'"
proof (cases "rel = '''' \<or> IsAbs rel \<or> ''..'' \<in> set (Split (CHR ''/'') rel)")
  case True
  then show ?thesis using assms(1) by (auto simp: copyArtifact_def raiseIO_def split: if_splits)
next
  case False
  then have "bindIO (os_ReadFile (join_path src [rel])) (\<lambda>data. os_WriteFile (join_path dst [Base rel]) data) w = (r, w')"
    using assms(1) by (simp add: copyArtifact_def)
  then show ?thesis by (rule only_in_bind) (use False assms(2) in \<open>auto dest: ReadFile_world only_in_WriteFile\<close>)
qed

definition artifact_ok :: "string \<Rightarrow> bool" where
  "artifact_ok rel \<longleftrightarrow> rel \<noteq> '''' \<and> \<not> IsAbs rel \<and> ''..'' \<notin> set (Split (CHR ''/'') rel)"

lemma only_in_copy_all:
  "copy_all src dst rels w = (r, w') \<Longrightarrow> (\<And>rel. rel \<in> set rels \<Longrightarrow> artifact_ok rel \<Longrightarrow> D (join_path dst [Base rel])) \<Longrightarrow> only_in D w w'"
proof (induction rels arbitrary: w)
  case (Cons rel rels)
  obtain x v where c: "copyArtifact src dst rel w = (x, v)" by (cases "copyArtifact src dst rel w")
  have "only_in D w v" by (rule only_in_copyArtifact [OF c]) (use Cons.prems(2) in \<open>auto simp: artifact_ok_def\<close>)
  then show ?case using Cons c by (cases x) (auto intro: only_in_trans)
qed simp

lemma only_in_collect:
  assumes "collect h job dir workspace logPath r w = (r', w')" "D logPath"
    "\<And>rel. rel \<in> set (declared job) \<Longrightarrow> artifact_ok rel \<Longrightarrow> D (join_path (join_path dir [''artifacts'']) [Base rel])"
  shows "only_in D w w'"
proof (cases "res_Status r \<noteq> StatusSuccess \<or> TriggersDownstream job = []")
  case False
  obtain x v where m: "os_MkdirAll (join_path dir [''artifacts'']) w = (x, v)" by fastforce
  obtain y u where c: "copy_all workspace (join_path dir [''artifacts'']) (declared job) v = (y, u)" by fastforce
  have "only_in D w u"
    using only_in_MkdirAll [OF m] only_in_copy_all [OF c, of D] assms(3) by (auto intro: only_in_trans)
  moreover have "only_in D u (log_lines logPath ss u)" for ss by (rule only_in_log_lines [where D = D and p = logPath, OF assms(2)])
  moreover have "w' = v \<or> w' = u \<or> (\<exists>ss. w' = log_lines logPath ss u)"
    using assms(1) False m c by (auto simp: collect_def Let_def simp del: log_lines.simps split: sum.splits option.splits)
  ultimately show ?thesis using only_in_MkdirAll [OF m, of D] only_in_trans by blast
qed (use assms in \<open>simp add: collect_def\<close>)

lemma only_in_finish:
  assumes "D logPath" "D (join_path dir [''result.json''])"
    "\<And>rel. rel \<in> set (declared job) \<Longrightarrow> artifact_ok rel \<Longrightarrow> D (join_path (join_path dir [''artifacts'']) [Base rel])"
  shows "only_in D (rs_world s) (rs_world (finish h job dir workspace logPath s))"
proof -
  obtain r w1 where c: "collect h job dir workspace logPath (rs_result s) (rs_world s) = (r, w1)" by fastforce
  obtain x w2 where x: "writeResultJSON h dir r w1 = (x, w2)" by fastforce
  then have "only_in D w1 w2"
    using assms(2) by (auto simp: writeResultJSON_def wrapIO_def split: prod.splits sum.splits dest: only_in_WriteFile)
  then have "only_in D (rs_world s) w2" using only_in_collect [OF c, of D] assms by (blast intro: only_in_trans)
  moreover have "only_in D w2 (log_lines logPath ss w2)" for ss by (rule only_in_log_lines [where D = D and p = logPath, OF assms(1)])
  moreover have "rs_world (finish h job dir workspace logPath s) =
      (case x of Inl e \<Rightarrow> log_lines logPath [''[wolfci] result.json: '' @ errText h e @ nl] w2 | Inr u \<Rightarrow> w2)"
    by (simp only: finish_def c x Let_def prod.case split: sum.split) (simp del: log_lines.simps)
  ultimately show ?thesis using only_in_trans by (auto split: sum.splits simp del: log_lines.simps)
qed

lemma only_in_Execute:
  assumes "\<And>env s w. only_in D w (snd (sh h (join_path dir [''workspace'']) env s w))"
    and "dir = build_dir (le_root e) (Name job) num" "D (join_path dir [''log''])" "D (join_path dir [''result.json''])"
    and "\<And>rel. rel \<in> set (declared job) \<Longrightarrow> artifact_ok rel \<Longrightarrow> D (join_path (join_path dir [''artifacts'']) [Base rel])"
  shows "only_in D w (rs_world (Execute h e parent job num w))"
proof (cases "Name job = ''''")
  case False
  let ?ws = "join_path dir [''workspace'']" and ?log = "join_path dir [''log'']"
  obtain x1 w1 where 1: "os_MkdirAll dir w = (x1, w1)" by fastforce
  obtain x2 w2 where 2: "os_MkdirAll ?ws w1 = (x2, w2)" by fastforce
  obtain x3 w3 where 3: "os_OpenFile_trunc ?log w2 = (x3, w3)" by fastforce
  note w = only_in_MkdirAll [OF 1, of D] only_in_MkdirAll [OF 2, of D] only_in_trunc [OF 3, of D, OF assms(3)]
  have w13: "only_in D w w2" "only_in D w w3" using w by (blast intro: only_in_trans)+
  have "only_in D w3 (rs_world (finish h job dir ?ws ?log
      (run_steps h e job num ?log ?ws inputs 0 (Steps job) \<lparr>rs_result = r, rs_calls = [], rs_chunks = [], rs_world = w3\<rparr>)))" for inputs r
    using only_in_trans [OF only_in_run_steps [where D = D and logPath = ?log, OF assms(1) assms(3)]
        only_in_finish [where D = D and logPath = ?log, OF assms(3-5)]]
    by (metis run_state.select_convs(4))
  then show ?thesis using False 1 2 3 w w13
    by (auto simp: Execute_def fail_early_def Let_def assms(2) split: sum.splits intro: only_in_trans)
qed (simp add: Execute_def)

lemma artifact_path: "artifact_ok rel \<Longrightarrow> join_path d [Base rel] = d \<or> join_path d [Base rel] = d @ [Base rel]"
proof -
  assume ok: "artifact_ok rel"
  let ?cs = "filter (\<lambda>c. c \<noteq> '''') (Split (CHR ''/'') rel)"
  show ?thesis
  proof (cases "?cs = []")
    case True
    then have "Base rel = ''/''" using ok by (simp add: Base_def artifact_ok_def)
    then show ?thesis by (simp add: join_path_def clean_comp_def)
  next
    case False
    then have b: "Base rel = last ?cs" using ok by (cases ?cs) (auto simp: Base_def artifact_ok_def)
    then have m: "Base rel \<in> set ?cs" using False last_in_set by metis
    show ?thesis
    proof (cases "Base rel = ''.''")
      case True
      then show ?thesis by (simp add: join_path_def clean_comp_def)
    next
      case F: False
      have "safe_name (Base rel)" using m F ok Split_no_sep_in [of "Base rel" "CHR ''/''" rel] by (auto simp: safe_name_def artifact_ok_def)
      then show ?thesis using join_path_safe [of "[Base rel]" d] by simp
    qed
  qed
qed

lemma dir_entries: "join_path d [''log''] = d @ [''log'']" "join_path d [''result.json''] = d @ [''result.json'']"
  "join_path d [''artifacts''] = d @ [''artifacts'']" "join_path d [''workspace''] = d @ [''workspace'']"
  by (simp_all add: join_path_safe safe_name_def)

text \<open>
  C30. A build stays in its directory: when the shell changes no file outside the workspace it is started in, \<^verbatim>\<open>Execute\<close> changes no
  file outside \<^verbatim>\<open>builds/<job>/<number>\<close>, whatever artifacts the spec declares and however the file calls fail.
\<close>

theorem Execute_confined:
  assumes "dir = build_dir (le_root e) (Name job) num"
    and "\<And>env s w. only_in (prefix (dir @ [''workspace''])) w (snd (sh h (dir @ [''workspace'']) env s w))"
  shows "only_in (prefix dir) w (rs_world (Execute h e parent job num w))"
proof (rule only_in_Execute [OF _ assms(1)])
  have mono: "only_in (prefix (dir @ [''workspace''])) u v \<Longrightarrow> only_in (prefix dir) u v" for u v
    by (auto simp: only_in_def dest: append_prefixD)
  show "only_in (prefix dir) w (snd (sh h (join_path dir [''workspace'']) env s w))" for env s w
    using mono [OF assms(2)] by (simp add: dir_entries)
  show "prefix dir (join_path dir [''log''])" "prefix dir (join_path dir [''result.json''])" by (simp_all add: dir_entries)
  show "prefix dir (join_path (join_path dir [''artifacts'']) [Base rel])" if "artifact_ok rel" for rel
    using artifact_path [OF that, of "dir @ [''artifacts'']"] by (auto simp: dir_entries)
qed

text \<open>
  C28. The local executor keeps the contract the scheduler's loop relies on: what it does to the disk and the result it returns are a
  \<open>Finish\<close> step of the scheduler's model, so every theorem about its runs holds with this executor. It asks that the shell
  commands leave the counter files alone and that no artifact is declared under their name.
\<close>

theorem local_executor_step:
  assumes "phase g = Running q" "local_executor h e (qj_parent q) (qj_job q) (qj_num q) (disk (sch g)) = (r, w)"
    and "\<And>d env s w. exec_frame w (snd (sh h d env s w))"
    and "\<forall>rel \<in> set (declared (qj_job q)). Base rel \<noteq> ''.next-build-number''"
  shows "step c root g (Finish q (stamp q r))
     (g\<lparr>sch := record_result q (stamp q r) (sch g\<lparr>disk := w\<rparr>), phase := Recorded q (stamp q r)\<rparr>)"
proof (rule step.finish [OF assms(1)])
  let ?D = "\<lambda>p. p = [] \<or> last p \<noteq> ''.next-build-number''" and ?dir = "build_dir (le_root e) (Name (qj_job q)) (qj_num q)"
  have D: "exec_frame u v \<longleftrightarrow> only_in ?D u v" for u v
    by (auto simp: exec_frame_def only_in_def) (metis append_butlast_last_id)
  have art: "?D (join_path (join_path ?dir [''artifacts'']) [Base rel])" if "rel \<in> set (declared (qj_job q))" "artifact_ok rel" for rel
    using artifact_path [OF that(2), of "?dir @ [''artifacts'']"] assms(4) that(1) by (auto simp: dir_entries)
  have "only_in ?D (disk (sch g)) (rs_world (Execute h e (qj_parent q) (qj_job q) (qj_num q) (disk (sch g))))"
    by (rule only_in_Execute [where D = ?D, OF _ refl]) (use assms(3) art in \<open>simp_all add: D dir_entries\<close>)
  with assms(2) show "exec_frame (disk (sch g)) w" by (simp add: D local_executor_def)
qed

section \<open>The commands of a build\<close>

definition scripts :: "Step list \<Rightarrow> string list" where
  "scripts sts = filter (\<lambda>s. s \<noteq> '''') (map Shell sts)"

definition all_ok :: "call list \<Rightarrow> bool" where
  "all_ok cs \<longleftrightarrow> (\<forall>c \<in> set cs. rr_err (call_result c) = None)"

lemma run_steps_calls:
  "\<exists>new. rs_calls (run_steps h e job num logPath workspace inputs i sts s) = rs_calls s @ new
     \<and> map call_script new = take (length new) (scripts sts) \<and> (\<forall>c \<in> set new. call_dir c = workspace) \<and> all_ok (butlast new)
     \<and> (if all_ok new then length new = length (scripts sts) \<and> rs_result (run_steps h e job num logPath workspace inputs i sts s) = rs_result s
        else rs_result (run_steps h e job num logPath workspace inputs i sts s) = fst (after_run (call_result (last new)) (rs_result s)))"
proof (induction sts arbitrary: i s)
  case Nil
  then show ?case by (intro exI [of _ "[]"]) (simp add: scripts_def all_ok_def)
next
  case (Cons st sts)
  show ?case
  proof (cases "Shell st = ''''")
    case True
    then have "run_steps h e job num logPath workspace inputs i (st # sts) s = run_steps h e job num logPath workspace inputs (Suc i) sts s"
      "scripts (st # sts) = scripts sts" by (simp_all add: scripts_def)
    with Cons.IH [where s = s and i = "Suc i"] show ?thesis by (simp only:)
  next
    case False
    let ?w1 = "log_lines logPath (step_header i st) (rs_world s)"
    let ?env = "process_env h (step_env h (le_root e) job num inputs st ?w1)"
    obtain rr w2 where run: "sh h workspace ?env (Shell st) ?w1 = (rr, w2)" by fastforce
    obtain cs w3 where tee: "tee_Write (le_onLog e) (Name job) num logPath (rr_out rr) w2 = (cs, w3)" by fastforce
    obtain r msg leave where ar: "after_run rr (rs_result s) = (r, msg, leave)" by (cases "after_run rr (rs_result s)")
    define call where "call = \<lparr>call_dir = workspace, call_env = ?env, call_script = Shell st, call_result = rr\<rparr>"
    define s' where "s' = \<lparr>rs_result = r, rs_calls = rs_calls s @ [call], rs_chunks = rs_chunks s @ cs,
        rs_world = log_lines logPath msg w3\<rparr>"
    have st: "run_steps h e job num logPath workspace inputs i (st # sts) s
        = (if leave then s' else run_steps h e job num logPath workspace inputs (Suc i) sts s')"
      using False run tee ar by (simp add: Let_def s'_def call_def)
    have sc: "scripts (st # sts) = Shell st # scripts sts" using False by (simp add: scripts_def)
    have leave: "leave \<longleftrightarrow> rr_err rr \<noteq> None" "\<not> leave \<Longrightarrow> r = rs_result s"
      using ar by (auto simp: after_run_def split: option.splits run_err.splits)
    show ?thesis
    proof (cases leave)
      case True
      then show ?thesis using st sc leave ar by (intro exI [of _ "[call]"]) (auto simp: s'_def call_def all_ok_def)
    next
      case F: False
      from Cons.IH [where s = s' and i = "Suc i"] obtain new where
        new: "rs_calls (run_steps h e job num logPath workspace inputs (Suc i) sts s') = rs_calls s' @ new"
          "map call_script new = take (length new) (scripts sts)" "\<forall>c \<in> set new. call_dir c = workspace" "all_ok (butlast new)"
          "if all_ok new then length new = length (scripts sts) \<and> rs_result (run_steps h e job num logPath workspace inputs (Suc i) sts s') = rs_result s'
           else rs_result (run_steps h e job num logPath workspace inputs (Suc i) sts s') = fst (after_run (call_result (last new)) (rs_result s'))"
        by blast
      have c: "rr_err (call_result call) = None" "rs_result s' = rs_result s" "call_dir call = workspace" "call_script call = Shell st"
        using leave F by (auto simp: call_def s'_def)
      have ok: "all_ok (call # new) \<longleftrightarrow> all_ok new" "all_ok (butlast (call # new))" "\<not> all_ok new \<Longrightarrow> new \<noteq> []"
        using c new(4) by (auto simp: all_ok_def)
      show ?thesis using st sc F new c ok by (intro exI [of _ "call # new"]) (auto simp: s'_def)
    qed
  qed
qed

lemma after_run_fails: "rr_err rr \<noteq> None \<Longrightarrow> res_Status (fst (after_run rr r)) \<noteq> StatusSuccess"
  by (auto simp: after_run_def StatusSuccess_def StatusFailure_def StatusError_def StatusCancelled_def split: option.splits run_err.splits)

lemma collect_keeps: "res_Status r \<noteq> StatusSuccess \<Longrightarrow> collect h job dir workspace logPath r w = (r, w)"
  by (simp add: collect_def)

lemma finish_calls: "rs_calls (finish h job dir workspace logPath s) = rs_calls s"
  by (auto simp: finish_def split: prod.splits sum.splits)

lemma finish_failed: "res_Status (rs_result s) \<noteq> StatusSuccess \<Longrightarrow> rs_result (finish h job dir workspace logPath s) = rs_result s"
  by (auto simp: finish_def collect_keeps split: prod.splits sum.splits)

lemma fail_early_simps: "rs_calls (fail_early h r what e w) = []" "res_Status (rs_result (fail_early h r what e w)) = res_Status r"
  by (simp_all add: fail_early_def)

lemma StatusError_not_success: "StatusError \<noteq> StatusSuccess"
  by (simp add: StatusError_def StatusSuccess_def)

lemma Execute_cases:
  fixes h e parent job num w
  defines "s \<equiv> Execute h e parent job num w" and "dir \<equiv> build_dir (le_root e) (Name job) num"
  shows "rs_calls s = [] \<and> res_Status (rs_result s) \<noteq> StatusSuccess
     \<or> (\<exists>w3. s = finish h job dir (dir @ [''workspace'']) (dir @ [''log''])
          (run_steps h e job num (dir @ [''log'']) (dir @ [''workspace'']) (inputs_dir (le_root e) parent) 0 (Steps job)
            \<lparr>rs_result = \<lparr>JobName = Name job, Number = num, res_Status = StatusSuccess, ExitCode = 0, res_Error = '''', TriggeredBy = parent\<rparr>,
             rs_calls = [], rs_chunks = [], rs_world = w3\<rparr>))"
proof (cases "Name job = ''''")
  case True
  then show ?thesis by (simp add: s_def Execute_def StatusError_not_success)
next
  case False
  obtain x1 w1 where 1: "os_MkdirAll dir w = (x1, w1)" by fastforce
  obtain x2 w2 where 2: "os_MkdirAll (dir @ [''workspace'']) w1 = (x2, w2)" by fastforce
  obtain x3 w3 where 3: "os_OpenFile_trunc (dir @ [''log'']) w2 = (x3, w3)" by fastforce
  show ?thesis using False
    unfolding s_def Execute_def Let_def dir_entries dir_def [symmetric] 1 2 3 prod.case
    by (cases x1; cases x2; cases x3) (simp_all add: fail_early_simps StatusError_not_success, blast)
qed


section \<open>Examples\<close>

definition demo_sh :: "path \<Rightarrow> string list \<Rightarrow> string \<Rightarrow> world \<Rightarrow> run_result \<times> world" where
  "demo_sh d env s w = (if s = ''make'' then (\<lparr>rr_err = None, rr_ctxErr = None, rr_out = [''ok'']\<rparr>, w)
     else (\<lparr>rr_err = Some (ExitError 2), rr_ctxErr = None, rr_out = []\<rparr>, w))"

definition demo_host :: host where
  "demo_host = \<lparr>Environ = [''PATH=/bin'', ''TOKEN=s3cret''], sh = demo_sh, res_json = (\<lambda>r. ''{}''), env_json = (\<lambda>s. None), errText = (\<lambda>e. ''error'')\<rparr>"

definition demo_exec :: LocalExecutor where
  "demo_exec = \<lparr>le_root = demo_root, le_onLog = True\<rparr>"

definition demo_steps :: Job where
  "demo_steps = (empty_job ''app'')\<lparr>Env := [(''CC'', ''gcc'')],
     Steps := [\<lparr>step_Name = ''build'', Shell = ''make'', step_Env = [(''CC'', ''clang'')]\<rparr>,
       \<lparr>step_Name = '''', Shell = '''', step_Env = []\<rparr>, \<lparr>step_Name = ''test'', Shell = ''make test'', step_Env = []\<rparr>,
       \<lparr>step_Name = ''publish'', Shell = ''make'', step_Env = []\<rparr>]\<rparr>"

definition demo_bare :: Job where
  "demo_bare = (empty_job ''app'')\<lparr>
     job_BuildEnv := Some \<lparr>PrepareEnvForRun = True, KeepJenkinsEnvVars = False, KeepJenkinsBuildVars = False\<rparr>\<rparr>"

definition demo_step :: Step where
  "demo_step = \<lparr>step_Name = '''', Shell = ''make'', step_Env = []\<rparr>"

theorem step_env_layers_witness:
  "getenv (process_env demo_host (step_env demo_host demo_root demo_steps 1 '''' (hd (Steps demo_steps)) demo_world)) ''CC'' = Some ''clang''"
proof -
  have "keys_ok (Env demo_steps)" "keys_ok (step_Env (hd (Steps demo_steps)))"
    "keys_ok (loadPriorExportedEnv demo_host demo_root (Name demo_steps) (1 - 1) demo_world)" by code_simp+
  from step_env_layers [OF this refl, where keep_host = True and keep_prior = False and inputs = "''''"] show ?thesis
    by (simp add: demo_steps_def empty_job_def map_add_def)
qed

theorem empty_env_inherits_host_witness:
  "process_env demo_host (step_env demo_host demo_root demo_bare 1 '''' demo_step demo_world) = [''PATH=/bin'', ''TOKEN=s3cret'']"
  using empty_env_inherits_host [of demo_bare "\<lparr>PrepareEnvForRun = True, KeepJenkinsEnvVars = False, KeepJenkinsBuildVars = False\<rparr>" demo_step
      demo_host demo_root 1 demo_world]
  by (simp add: demo_bare_def demo_step_def empty_job_def demo_host_def)

theorem Execute_confined_witness:
  "only_in (prefix [''srv'', ''builds'', ''app'', ''1'']) demo_world (rs_world (Execute demo_host demo_exec None demo_steps 1 demo_world))"
proof (rule Execute_confined)
  show "[''srv'', ''builds'', ''app'', ''1''] = build_dir (le_root demo_exec) (Name demo_steps) 1" by code_simp
  show "only_in (prefix ([''srv'', ''builds'', ''app'', ''1''] @ [''workspace''])) w
      (snd (sh demo_host ([''srv'', ''builds'', ''app'', ''1''] @ [''workspace'']) env s w))" for env s w
    by (simp add: demo_host_def demo_sh_def)
qed

theorem local_executor_step_witness:
  "\<exists>g' r. step demo_codec demo_root \<lparr>sch = newScheduler demo_world, inflight = [], phase = Running demo_q\<rparr> (Finish demo_q (stamp demo_q r)) g'"
proof -
  let ?g = "\<lparr>sch = newScheduler demo_world, inflight = [], phase = Running demo_q\<rparr>"
  obtain r w where rw: "local_executor demo_host demo_exec (qj_parent demo_q) (qj_job demo_q) (qj_num demo_q) (disk (sch ?g)) = (r, w)"
    by (cases "local_executor demo_host demo_exec (qj_parent demo_q) (qj_job demo_q) (qj_num demo_q) (disk (sch ?g))")
  have art: "\<forall>rel \<in> set (declared (qj_job demo_q)). Base rel \<noteq> ''.next-build-number''" by code_simp
  have sh: "exec_frame u (snd (sh demo_host d env s u))" for d env s u
    by (simp add: demo_host_def demo_sh_def exec_frame_def)
  have "phase ?g = Running demo_q" by simp
  from local_executor_step [OF this rw sh art] show ?thesis by blast
qed


end
