(* ===== verification/Router.thy ===== *)
theory Router
  imports LocalExec AgentSvc
begin

text \<open>
  The router, \<^verbatim>\<open>internal/scheduler/router.go\<close>: an executor that runs a build in the process, on a connected agent, or on a node it asks a
  provisioner for. The agent service is present. The provisioner is an interface and a parameter; its calls are recorded in order. What the rest of the
  server does while the router waits is a parameter of each wait, a function on the server's state.
\<close>

section \<open>Data\<close>

text \<open>The calls to the provisioner: \<open>Provisioned\<close> carries the node's id.\<close>

datatype prov_event = ProvisionFailed string | Provisioned string string | Terminated string

record provisioner =
  Provision :: "string \<Rightarrow> string res"

record RouterCfg =
  rt_local :: executor
  rt_localLabels :: "string list"
  rt_provisioner :: "provisioner option"
  rt_timeoutText :: string

text \<open>
  One run of \<^verbatim>\<open>SubmitAndWait\<close>: the others' steps before the assignment is sent and while the router waits, the choices of the two
  \<^verbatim>\<open>select\<close> statements, and the context's error when the wait ends, if it was cancelled.
\<close>

record waiting =
  wt_before :: "Server \<Rightarrow> Server"
  wt_pick :: bool
  wt_during :: "Server \<Rightarrow> Server"
  wt_ctxErr :: "goerr option"
  wt_preferCtx :: bool

text \<open>One turn of the polling loop: the others' steps before it, and whether the context is done after it.\<close>

type_synonym poll = "(Server \<Rightarrow> Server) \<times> goerr option"

section \<open>SubmitAndWait\<close>

text \<open>\<open>None\<close> when the call never returns.\<close>

definition SubmitAndWait :: "waiting \<Rightarrow> string \<Rightarrow> JobAssignment option \<Rightarrow> Server \<Rightarrow> (BuildComplete res \<times> Server) option" where
  "SubmitAndWait wt agentID job s =
     (case submit_begin agentID job s of (Inl e, s1) \<Rightarrow> Some (Inl e, s1)
      | (Inr (key, ch), s1) \<Rightarrow>
          (case AssignJob (wt_pick wt) agentID (the job) (wt_before wt s1) of
             None \<Rightarrow> None
           | Some (Inl e, s2) \<Rightarrow> Some (Inl e, submit_cleanup key s2)
           | Some (Inr _, s2) \<Rightarrow>
               let s3 = wt_during wt s2; msgs = (if ch < length (dones s3) then dones s3 ! ch else []) in
               (case wt_ctxErr wt of
                  Some e \<Rightarrow> if msgs = [] \<or> wt_preferCtx wt then Some (Inl e, submit_cleanup key s3)
                            else Some (Inr (hd msgs), submit_cleanup key (s3\<lparr>dones := (dones s3)[ch := tl msgs]\<rparr>))
                | None \<Rightarrow> if msgs = [] then None
                          else Some (Inr (hd msgs), submit_cleanup key (s3\<lparr>dones := (dones s3)[ch := tl msgs]\<rparr>)))))"

section \<open>Routing\<close>

definition matchesLocal :: "RouterCfg \<Rightarrow> string \<Rightarrow> bool" where
  "matchesLocal r label \<longleftrightarrow> label = '''' \<or> label \<in> set (rt_localLabels r)"

definition jobToProto :: "Job \<Rightarrow> int \<Rightarrow> JobAssignment" where
  "jobToProto job num = \<lparr>ja_JobName = Name job, ja_BuildNumber = int32 num,
     ja_Steps = map (\<lambda>s. \<lparr>ps_Name = step_Name s, ps_Shell = Shell s, ps_Env = step_Env s\<rparr>) (Steps job)\<rparr>"

definition protoToBuildResult :: "BuildComplete \<Rightarrow> string \<Rightarrow> BuildResult" where
  "protoToBuildResult bc jobName = \<lparr>JobName = jobName, Number = bc_BuildNumber bc, res_Status = bc_Status bc,
     ExitCode = bc_ExitCode bc, res_Error = bc_Error bc, TriggeredBy = None\<rparr>"

fun poll_loop :: "string \<Rightarrow> string \<Rightarrow> string \<Rightarrow> poll list \<Rightarrow> Server \<Rightarrow> string res \<times> Server" where
  "poll_loop limit label node [] s = (Inl (Msg (''provisioned node '' @ quoted node @ '' did not register within '' @ limit)), s)"
| "poll_loop limit label node ((others, done) # polls) s =
     (let s' = others s; a = IdleAgentWithLabel label s' in
      if a \<noteq> '''' then (Inr a, s')
      else case done of Some e \<Rightarrow> (Inl e, s') | None \<Rightarrow> poll_loop limit label node polls s')"

definition provisionAndWait :: "string \<Rightarrow> provisioner \<Rightarrow> string \<Rightarrow> poll list \<Rightarrow> Server \<Rightarrow> ((string \<times> string) res \<times> prov_event list) \<times> Server" where
  "provisionAndWait limit p label polls s =
     (case Provision p label of
        Inl e \<Rightarrow> ((Inl (Wrap ''Provision'' e), [ProvisionFailed label]), s)
      | Inr node \<Rightarrow>
          (case poll_loop limit label node polls s of
             (Inl e, s') \<Rightarrow> ((Inl e, [Provisioned label node, Terminated node]), s')
           | (Inr a, s') \<Rightarrow> ((Inr (node, a), [Provisioned label node]), s')))"

text \<open>The part of \<^verbatim>\<open>Execute\<close> after an agent has been found.\<close>

definition run_remote :: "(goerr \<Rightarrow> string) \<Rightarrow> waiting \<Rightarrow> string \<Rightarrow> Job \<Rightarrow> int \<Rightarrow> Server \<Rightarrow> (BuildResult \<times> Server) option" where
  "run_remote txt wt agentID job num s =
     (case SubmitAndWait wt agentID (Some (jobToProto job num)) s of
        None \<Rightarrow> None
      | Some (Inl e, s') \<Rightarrow> Some (\<lparr>JobName = Name job, Number = num, res_Status = StatusError, ExitCode = 0,
            res_Error = ''scheduler.Router: SubmitAndWait('' @ agentID @ ''): '' @ txt e, TriggeredBy = None\<rparr>, s')
      | Some (Inr bc, s') \<Rightarrow> Some (protoToBuildResult bc (Name job), s'))"

definition route_error :: "Job \<Rightarrow> int \<Rightarrow> string \<Rightarrow> BuildResult" where
  "route_error job num m = \<lparr>JobName = Name job, Number = num, res_Status = StatusError, ExitCode = 0, res_Error = m, TriggeredBy = None\<rparr>"

definition no_agent :: "Job \<Rightarrow> string" where
  "no_agent job = ''scheduler.Router: no agent available for node_label='' @ quoted (NodeLabel job)"

definition Router_Execute :: "(goerr \<Rightarrow> string) \<Rightarrow> RouterCfg \<Rightarrow> waiting \<Rightarrow> poll list \<Rightarrow> BuildRef option \<Rightarrow> Job \<Rightarrow> int
    \<Rightarrow> Server \<times> world \<Rightarrow> ((BuildResult \<times> prov_event list) \<times> Server \<times> world) option" where
  "Router_Execute txt r wt polls parent job num sw =
     (case sw of (s, w) \<Rightarrow>
      if matchesLocal r (NodeLabel job) then
        (if IsDisabled s BuiltInNodeAgentID
         then Some ((route_error job num (no_agent job @ '' (master is offline)''), []), s, w)
         else (case rt_local r parent job num w of (res, w') \<Rightarrow> Some ((res, []), s, w')))
      else let a = IdleAgentWithLabel (NodeLabel job) s in
        if a \<noteq> ''''
        then map_option (\<lambda>(res, s'). ((res, []), s', w)) (run_remote txt wt a job num s)
        else (case rt_provisioner r of
          None \<Rightarrow> Some ((route_error job num (no_agent job), []), s, w)
        | Some p \<Rightarrow>
            (case provisionAndWait (rt_timeoutText r) p (NodeLabel job) polls s of
               ((Inl e, evs), s') \<Rightarrow> Some ((route_error job num (''scheduler.Router: provision: '' @ txt e), evs), s', w)
             | ((Inr (node, agent), evs), s') \<Rightarrow>
                 map_option (\<lambda>(res, s''). ((res, evs @ [Terminated node]), s'', w)) (run_remote txt wt agent job num s'))))"

section \<open>Policy\<close>

text \<open>The idle agent a label finds is connected, enabled and advertises the label.\<close>

definition serves :: "Server \<Rightarrow> string \<Rightarrow> string \<Rightarrow> bool" where
  "serves s label a \<longleftrightarrow> (\<exists>st. (a, st) \<in> set (streams s) \<and> \<not> IsDisabled s a \<and> (label = '''' \<or> label \<in> set (ai_Labels (st_info st))))"

lemma IdleAgentWithLabel_serves:
  "IdleAgentWithLabel label s \<noteq> '''' \<Longrightarrow> serves s label (IdleAgentWithLabel label s)"
proof -
  let ?l = "filter (\<lambda>(i, st). \<not> IsDisabled s i \<and> (label = '''' \<or> label \<in> set (ai_Labels (st_info st)))) (streams s)"
  assume ne: "IdleAgentWithLabel label s \<noteq> ''''"
  then obtain i st rest where l: "?l = (i, st) # rest" by (cases ?l) (auto simp: IdleAgentWithLabel_def)
  then have "(i, st) \<in> set ?l" by (metis list.set_intros(1))
  then have "serves s label i" by (auto simp: serves_def)
  then show ?thesis using l by (simp add: IdleAgentWithLabel_def)
qed

lemma IdleAgentWithLabel_none:
  "IdleAgentWithLabel label s = '''' \<Longrightarrow> serves s label a \<Longrightarrow> '''' \<in> fst ` set (streams s)"
proof -
  let ?l = "filter (\<lambda>(i, st). \<not> IsDisabled s i \<and> (label = '''' \<or> label \<in> set (ai_Labels (st_info st)))) (streams s)"
  assume e: "IdleAgentWithLabel label s = ''''" and "serves s label a"
  then obtain st where "(a, st) \<in> set ?l" by (auto simp: serves_def)
  then obtain i st' rest where l: "?l = (i, st') # rest" by (cases ?l) auto
  then have "(i, st') \<in> set (streams s)" by (metis filter_is_subset list.set_intros(1) subsetD)
  with e l show ?thesis by (force simp: IdleAgentWithLabel_def)
qed

fun balanced :: "prov_event list \<Rightarrow> bool" where
  "balanced [] = True"
| "balanced [ProvisionFailed l] = True"
| "balanced [Provisioned l n, Terminated n'] = (n' = n)"
| "balanced es = False"

text \<open>
  C31. On-premises first, and no node is left running: a job that matches a local label never reaches an agent or the provisioner; for any
  other job the provisioner is called only when no connected, enabled agent serves its label; and whenever \<^verbatim>\<open>Execute\<close> returns, a node
  it was given has been terminated exactly once, whether the build ran, failed, was cancelled or the node never registered. No stream
  is open under the empty id, which \<^verbatim>\<open>Register\<close> refuses.
\<close>

theorem Router_policy:
  assumes "Router_Execute txt r wt polls parent job num (s, w) = Some ((res, evs), s', w')" "'''' \<notin> fst ` set (streams s)"
  shows "balanced evs
    \<and> (matchesLocal r (NodeLabel job) \<longrightarrow> evs = [] \<and> s' = s
        \<and> (if IsDisabled s BuiltInNodeAgentID then w' = w \<and> res_Status res = StatusError else (res, w') = rt_local r parent job num w))
    \<and> (\<not> matchesLocal r (NodeLabel job) \<longrightarrow> w' = w)
    \<and> (evs \<noteq> [] \<longrightarrow> (\<forall>a. \<not> serves s (NodeLabel job) a))"
proof -
  have ev: "balanced evs \<and> (evs \<noteq> [] \<longrightarrow> \<not> matchesLocal r (NodeLabel job) \<and> IdleAgentWithLabel (NodeLabel job) s = '''')"
    using assms(1)
    by (auto simp: Router_Execute_def Let_def provisionAndWait_def split: if_splits option.splits sum.splits prod.splits)
  have "(matchesLocal r (NodeLabel job) \<longrightarrow> s' = s \<and> (if IsDisabled s BuiltInNodeAgentID then w' = w \<and> res_Status res = StatusError
      else (res, w') = rt_local r parent job num w)) \<and> (\<not> matchesLocal r (NodeLabel job) \<longrightarrow> w' = w)"
    using assms(1)
    by (auto simp: Router_Execute_def Let_def route_error_def split: if_splits option.splits sum.splits prod.splits)
  with ev show ?thesis using IdleAgentWithLabel_none assms(2) by blast
qed

section \<open>Example\<close>

definition demo_router :: RouterCfg where
  "demo_router = \<lparr>rt_local = local_executor demo_host demo_exec, rt_localLabels = [''linux''],
     rt_provisioner = Some \<lparr>Provision = (\<lambda>l. Inr ''vm-1'')\<rparr>, rt_timeoutText = ''30s''\<rparr>"

definition demo_wait :: waiting where
  "demo_wait = \<lparr>wt_before = id, wt_pick = False, wt_during = id, wt_ctxErr = None, wt_preferCtx = False\<rparr>"

theorem Router_policy_witness:
  "\<exists>res evs s' w'. Router_Execute (\<lambda>e. ''error'') demo_router demo_wait [(id, None)] None (demo_steps\<lparr>NodeLabel := ''gpu''\<rparr>) 1
     (newServer ''v1'', demo_world) = Some ((res, evs), s', w') \<and> evs = [Provisioned ''gpu'' ''vm-1'', Terminated ''vm-1''] \<and> balanced evs \<and> w' = demo_world"
proof -
  let ?x = "Router_Execute (\<lambda>e. ''error'') demo_router demo_wait [(id, None)] None (demo_steps\<lparr>NodeLabel := ''gpu''\<rparr>) 1 (newServer ''v1'', demo_world)"
  have "\<exists>res s' w'. ?x = Some ((res, [Provisioned ''gpu'' ''vm-1'', Terminated ''vm-1'']), s', w')"
    by (simp add: Router_Execute_def matchesLocal_def demo_router_def provisionAndWait_def IdleAgentWithLabel_def newServer_def)
  then obtain res s' w' where x: "?x = Some ((res, [Provisioned ''gpu'' ''vm-1'', Terminated ''vm-1'']), s', w')" by blast
  have "'''' \<notin> fst ` set (streams (newServer ''v1''))" by (simp add: newServer_def)
  from Router_policy [OF x this] x show ?thesis by (auto simp: matchesLocal_def demo_router_def)
qed

end
