(* ===== verification/ScriptRt.thy ===== *)
theory ScriptRt
  imports ScriptParser CredStore
begin

text \<open>
  The runtime of the script interpreter, \<^verbatim>\<open>internal/pipeline/exec_script.go\<close>: values, scopes, the state the steps share, and the
  operations on values. Lists, maps and scopes are Go pointers, so they live in a heap and a value holds an address. A Go error is a
  value of \<open>serr\<close>, the control-flow signals among them. A computation takes the runtime to \<open>None\<close> when its fuel runs out, and
  otherwise to an error or a value and the runtime left behind. The recursive calls go through a table (\<open>ktable\<close>), which the theory
  \<open>Interp\<close> ties. Upper and lower case, white space and the verbs of \<^verbatim>\<open>fmt\<close> are those of ASCII text.
\<close>

section \<open>Values\<close>

text \<open>
  The functions the interpreter makes: a registered step, a method of a string or a list (with its receiver), an accessor with the text or
  number it returns, and the two accessors of a build that make a new map.
\<close>

datatype native =
    NStep string
  | NStrM string string
  | NListM string nat
  | NText string string
  | NNum string int
  | NBool string bool
  | NVars string "(string \<times> string) list"
  | NPrev string int

datatype sval =
    SNull
  | SBool bool
  | SNum int
  | SStr string
  | SList nat
  | SMap nat
  | SClos "Param list" Block nat
  | SNative native
  | SExcept string string

text \<open>
  \<open>SPanic\<close> is a run-time panic of Go, which ends the process. \<open>Dangling\<close> is no behaviour of the program: it marks an address outside
  the heap, and \<open>no_dangling\<close> below shows that no evaluation reaches it.
\<close>

datatype serr = SigRet sval | SigBr | SigCont | SigThrow sval | Err goerr | SPanic | Dangling

datatype BuildStatus = BuildPending | BuildRunning | BuildSuccess | BuildFailure

record senv =
  parent :: "nat option"
  vars :: "(string \<times> sval) list"

text \<open>\<^verbatim>\<open>BuildInfo\<close>, \<^verbatim>\<open>BuildParam\<close> and what a wait on a child build ends with.\<close>

record BuildInfo =
  bi_JobName :: string
  bi_Number :: int
  DisplayName :: string
  bi_Result :: string
  Variables :: "(string \<times> string) list"
  Environment :: "(string \<times> string) list"
  PreviousBuildNumber :: int

type_synonym BuildParam = "string \<times> string"

datatype child_end = ChildBuildResult string int string | ChanClosed | CtxDone goerr

text \<open>How \<^verbatim>\<open>cmd.Run()\<close> ends for a shell script.\<close>

datatype shell_end = ShExit int | ShErr goerr

text \<open>
  The seams: what the runtime finds on the executor it is made for, the third-party and system calls, and the choices of the
  scheduler. Executors are numbered; those that are a \<^verbatim>\<open>*LocalExecutor\<close> have an entry in the state's \<open>exec_ws\<close>, and run \<open>p_shell\<close> with a
  directory and an environment (\<open>None\<close> is the process's own). \<open>p_rank\<close> orders the branches of \<^verbatim>\<open>parallel\<close>. A Go map whose iteration
  order the code exposes is an association list in the order it is ranged over.
\<close>

record seams =
  p_shell :: "path option \<Rightarrow> string list option \<Rightarrow> string \<Rightarrow> world \<Rightarrow> (shell_end \<times> string) \<times> world"
  p_Environ :: "string list"
  p_Sh :: "nat \<Rightarrow> string \<Rightarrow> string list \<Rightarrow> world \<Rightarrow> (int \<times> string) res \<times> world"
  p_cwd :: path
  p_stashDir :: "path option"
  p_artifactsDir :: "path option"
  p_initialEnv :: "(string \<times> string) list"
  p_router :: "(string \<Rightarrow> nat res) option"
  p_dispatch :: "(string \<Rightarrow> BuildParam list \<Rightarrow> child_end res) option"
  p_builds :: "(BuildInfo option \<times> (string \<Rightarrow> int \<Rightarrow> BuildInfo option)) option"
  p_creds :: "Store option"
  p_wolf :: gowolf
  p_codec :: cred_codec
  p_secret :: "bytes \<Rightarrow> string res"
  p_sshPayload :: "bytes \<Rightarrow> (string \<times> string) res"
  p_parsePEM :: "string \<Rightarrow> (string \<times> string) res"
  p_ed25519 :: "string \<Rightarrow> int \<times> int"
  p_mkdirTemp :: "string res"
  p_listen :: "string \<Rightarrow> goerr option"
  p_chmod :: "string \<Rightarrow> goerr option"
  p_regex :: "string \<Rightarrow> (string \<Rightarrow> string \<Rightarrow> string) res"
  p_Match :: "string \<Rightarrow> string \<Rightarrow> bool"
  p_wait :: "int \<Rightarrow> goerr option"
  p_rank :: "string \<Rightarrow> nat"

record rt =
  executor :: nat
  echoBuf :: "string list"
  lastExitCode :: int
  workspace :: "path option"
  catchForcedBuild :: BuildStatus
  catchForcedStage :: BuildStatus
  envExtra :: "string list"
  masks :: "string list"
  exec_ws :: "(nat \<times> path option) list"
  dispatched :: "(string \<times> BuildParam list) list"
  hlists :: "sval list list"
  hmaps :: "(string \<times> sval) list list"
  henvs :: "senv list"
  rworld :: world

section \<open>Computations\<close>

type_synonym 'a ev = "rt \<Rightarrow> ((serr + 'a) \<times> rt) option"

definition retE :: "'a \<Rightarrow> 'a ev" where "retE x s = Some (Inr x, s)"

definition failE :: "serr \<Rightarrow> 'a ev" where "failE e s = Some (Inl e, s)"

definition bindE :: "'a ev \<Rightarrow> ('a \<Rightarrow> 'b ev) \<Rightarrow> 'b ev" where
  "bindE m f s = (case m s of None \<Rightarrow> None | Some (Inl e, s') \<Rightarrow> Some (Inl e, s') | Some (Inr x, s') \<Rightarrow> f x s')"

definition seqE :: "'a ev \<Rightarrow> 'b ev \<Rightarrow> 'b ev" where "seqE m k = bindE m (\<lambda>_. k)"

definition getE :: "(rt \<Rightarrow> 'a) \<Rightarrow> 'a ev" where "getE f s = Some (Inr (f s), s)"

definition modE :: "(rt \<Rightarrow> rt) \<Rightarrow> unit ev" where "modE f s = Some (Inr (), f s)"

text \<open>\<open>tryE m\<close> hands the error to the continuation; \<open>deferE f m\<close> applies \<open>f\<close> to the state however \<open>m\<close> ends.\<close>

definition tryE :: "'a ev \<Rightarrow> (serr + 'a) ev" where
  "tryE m s = (case m s of None \<Rightarrow> None | Some (r, s') \<Rightarrow> Some (Inr r, s'))"

definition deferE :: "(rt \<Rightarrow> rt) \<Rightarrow> 'a ev \<Rightarrow> 'a ev" where
  "deferE f m s = (case m s of None \<Rightarrow> None | Some (r, s') \<Rightarrow> Some (r, f s'))"

definition errE :: "string \<Rightarrow> 'a ev" where "errE m = failE (Err (Msg m))"

text \<open>File calls: \<open>liftE\<close> passes the error on, \<open>ioE\<close> wraps it.\<close>

definition liftE :: "'a io \<Rightarrow> 'a ev" where
  "liftE m s = (case m (rworld s) of
     (Inl e, w) \<Rightarrow> Some (Inl (Err e), s\<lparr>rworld := w\<rparr>)
   | (Inr x, w) \<Rightarrow> Some (Inr x, s\<lparr>rworld := w\<rparr>))"

definition ioE :: "string \<Rightarrow> 'a io \<Rightarrow> 'a ev" where "ioE what m = liftE (wrapIO what m)"

text \<open>\<open>loopE f xs\<close>: a loop over \<open>xs\<close> that \<open>f\<close> leaves with \<open>False\<close>.\<close>

primrec loopE :: "('a \<Rightarrow> bool ev) \<Rightarrow> 'a list \<Rightarrow> unit ev" where
  "loopE f [] = retE ()"
| "loopE f (x # xs) = bindE (f x) (\<lambda>go. if go then loopE f xs else retE ())"

primrec mapE :: "('a \<Rightarrow> 'b ev) \<Rightarrow> 'a list \<Rightarrow> 'b list ev" where
  "mapE f [] = retE []"
| "mapE f (x # xs) = bindE (f x) (\<lambda>y. bindE (mapE f xs) (\<lambda>ys. retE (y # ys)))"

section \<open>The heap\<close>

definition newList :: "sval list \<Rightarrow> sval ev" where
  "newList items s = Some (Inr (SList (length (hlists s))), s\<lparr>hlists := hlists s @ [items]\<rparr>)"

definition allocMap :: "(string \<times> sval) list \<Rightarrow> nat ev" where
  "allocMap kvs s = Some (Inr (length (hmaps s)), s\<lparr>hmaps := hmaps s @ [kvs]\<rparr>)"

definition newMap :: "(string \<times> sval) list \<Rightarrow> sval ev" where
  "newMap kvs = bindE (allocMap kvs) (\<lambda>a. retE (SMap a))"

definition newEnv :: "nat option \<Rightarrow> nat ev" where
  "newEnv p s = Some (Inr (length (henvs s)), s\<lparr>henvs := henvs s @ [\<lparr>parent = p, vars = []\<rparr>]\<rparr>)"

definition readList :: "nat \<Rightarrow> sval list ev" where
  "readList a s = (if a < length (hlists s) then Some (Inr (hlists s ! a), s) else Some (Inl Dangling, s))"

definition readMap :: "nat \<Rightarrow> (string \<times> sval) list ev" where
  "readMap a s = (if a < length (hmaps s) then Some (Inr (hmaps s ! a), s) else Some (Inl Dangling, s))"

text \<open>\<^verbatim>\<open>sMap.set\<close>: a new key goes to the end, an old one keeps its place.\<close>

definition mapSet :: "nat \<Rightarrow> string \<Rightarrow> sval \<Rightarrow> unit ev" where
  "mapSet a k v s = (if a < length (hmaps s) then Some (Inr (), s\<lparr>hmaps := (hmaps s)[a := AList.update k v (hmaps s ! a)]\<rparr>)
     else Some (Inl Dangling, s))"

definition listSet :: "nat \<Rightarrow> nat \<Rightarrow> sval \<Rightarrow> unit ev" where
  "listSet a i v s = (if a < length (hlists s) \<and> i < length (hlists s ! a)
     then Some (Inr (), s\<lparr>hlists := (hlists s)[a := (hlists s ! a)[i := v]]\<rparr>) else Some (Inl Dangling, s))"

text \<open>\<^verbatim>\<open>sEnv.lookup\<close>: the defining scope and the value. A parent is allocated before its children.\<close>

fun lookup_env :: "senv list \<Rightarrow> nat \<Rightarrow> string \<Rightarrow> (nat \<times> sval) option" where
  "lookup_env es e x =
     (if e < length es
      then case map_of (vars (es ! e)) x of Some v \<Rightarrow> Some (e, v)
           | None \<Rightarrow> (case parent (es ! e) of None \<Rightarrow> None | Some p \<Rightarrow> if p < e then lookup_env es p x else None)
      else None)"

fun root_env :: "senv list \<Rightarrow> nat \<Rightarrow> nat" where
  "root_env es e = (if e < length es then case parent (es ! e) of None \<Rightarrow> e | Some p \<Rightarrow> if p < e then root_env es p else e else e)"

declare lookup_env.simps [simp del] root_env.simps [simp del]

definition define_in :: "nat \<Rightarrow> string \<Rightarrow> sval \<Rightarrow> unit ev" where
  "define_in e x v s = (if e < length (henvs s)
     then Some (Inr (), s\<lparr>henvs := (henvs s)[e := (henvs s ! e)\<lparr>vars := AList.update x v (vars (henvs s ! e))\<rparr>]\<rparr>)
     else Some (Inl Dangling, s))"

definition assign_var :: "nat \<Rightarrow> string \<Rightarrow> sval \<Rightarrow> unit ev" where
  "assign_var e x v s =
     (case lookup_env (henvs s) e x of Some (d, _) \<Rightarrow> define_in d x v s | None \<Rightarrow> define_in (root_env (henvs s) e) x v s)"

section \<open>The runtime\<close>

primrec severity :: "BuildStatus \<Rightarrow> nat" where
  "severity BuildPending = 0"
| "severity BuildRunning = 1"
| "severity BuildSuccess = 2"
| "severity BuildFailure = 3"

definition isMoreSevereStatus :: "BuildStatus \<Rightarrow> BuildStatus \<Rightarrow> bool" where
  "isMoreSevereStatus a b \<longleftrightarrow> severity a > severity b"

definition applyCatchForced :: "BuildStatus \<Rightarrow> BuildStatus \<Rightarrow> rt \<Rightarrow> rt" where
  "applyCatchForced b st s =
     (let s1 = (if isMoreSevereStatus b (catchForcedBuild s) then s\<lparr>catchForcedBuild := b\<rparr> else s)
      in if isMoreSevereStatus st (catchForcedStage s1) then s1\<lparr>catchForcedStage := st\<rparr> else s1)"

text \<open>\<^verbatim>\<open>strings.ReplaceAll\<close> for a non-empty pattern: \<open>k\<close> characters of the last match are still to be skipped.\<close>

primrec replace_from :: "string \<Rightarrow> string \<Rightarrow> nat \<Rightarrow> string \<Rightarrow> string" where
  "replace_from m new k [] = []"
| "replace_from m new k (c # cs) =
     (if k > 0 then replace_from m new (k - 1) cs
      else if prefix m (c # cs) then new @ replace_from m new (length m - 1) cs
      else c # replace_from m new 0 cs)"

definition stars :: string where "stars = ''********''"

definition maskOutput :: "string list \<Rightarrow> string \<Rightarrow> string" where
  "maskOutput ms s = foldl (\<lambda>t m. if m = '''' then t else replace_from m stars 0 t) s ms"

definition appendEcho :: "string \<Rightarrow> rt \<Rightarrow> rt" where
  "appendEcho msg s = s\<lparr>echoBuf := echoBuf s @ [maskOutput (masks s) msg]\<rparr>"

fun join_str :: "string \<Rightarrow> string list \<Rightarrow> string" where
  "join_str sep [] = ''''"
| "join_str sep [x] = x"
| "join_str sep (x # xs) = x @ sep @ join_str sep xs"

definition outputString :: "rt \<Rightarrow> string" where
  "outputString s = join_str [CHR 0x0A] (echoBuf s)"

definition pushSecrets :: "string list \<Rightarrow> string list \<Rightarrow> rt \<Rightarrow> rt" where
  "pushSecrets env ms s = s\<lparr>envExtra := envExtra s @ env, masks := masks s @ ms\<rparr>"

text \<open>The frame is the pair of lengths before the push.\<close>

definition popSecrets :: "nat \<times> nat \<Rightarrow> rt \<Rightarrow> rt" where
  "popSecrets f s = s\<lparr>envExtra := take (fst f) (envExtra s), masks := take (snd f) (masks s)\<rparr>"

section \<open>Operations on values\<close>

definition truthy :: "rt \<Rightarrow> sval \<Rightarrow> bool" where
  "truthy s v = (case v of
       SNull \<Rightarrow> False
     | SBool b \<Rightarrow> b
     | SNum n \<Rightarrow> n \<noteq> 0
     | SStr t \<Rightarrow> t \<noteq> ''''
     | SList a \<Rightarrow> a < length (hlists s) \<and> hlists s ! a \<noteq> []
     | SMap a \<Rightarrow> a < length (hmaps s) \<and> hmaps s ! a \<noteq> []
     | _ \<Rightarrow> True)"

definition goT :: "sval \<Rightarrow> string" where
  "goT v = ''*pipeline.'' @ (case v of SNull \<Rightarrow> ''sNull'' | SBool _ \<Rightarrow> ''sBool'' | SNum _ \<Rightarrow> ''sNum'' | SStr _ \<Rightarrow> ''sStr''
     | SList _ \<Rightarrow> ''sList'' | SMap _ \<Rightarrow> ''sMap'' | SClos _ _ _ \<Rightarrow> ''sClosure'' | SNative _ \<Rightarrow> ''sNative'' | SExcept _ _ \<Rightarrow> ''sExcept'')"

definition equals :: "sval \<Rightarrow> sval \<Rightarrow> bool" where
  "equals l r = (case (l, r) of
       (SNull, SNull) \<Rightarrow> True
     | (SBool a, SBool b) \<Rightarrow> a = b
     | (SNum a, SNum b) \<Rightarrow> a = b
     | (SStr a, SStr b) \<Rightarrow> a = b
     | _ \<Rightarrow> False)"

definition instanceofCheck :: "sval \<Rightarrow> sval \<Rightarrow> bool" where
  "instanceofCheck l r = (case r of SStr t \<Rightarrow>
       (case l of
          SExcept typ _ \<Rightarrow> typ = t \<or> t \<in> {''Exception'', ''Throwable'', ''RuntimeException''}
        | SList _ \<Rightarrow> t \<in> {''Collection'', ''List'', ''ArrayList'', ''Iterable''}
        | SMap _ \<Rightarrow> t \<in> {''Map'', ''HashMap'', ''LinkedHashMap''}
        | SStr _ \<Rightarrow> t \<in> {''String'', ''CharSequence'', ''GString''}
        | SNum _ \<Rightarrow> t \<in> {''Number'', ''Integer'', ''Long''}
        | SBool _ \<Rightarrow> t = ''Boolean''
        | _ \<Rightarrow> False)
     | _ \<Rightarrow> False)"

definition compareNums :: "sval \<Rightarrow> sval \<Rightarrow> string \<Rightarrow> sval ev" where
  "compareNums l r opr = (case (l, r) of
       (SNum a, SNum b) \<Rightarrow> retE (SBool (if opr = ''<'' then a < b else if opr = ''>'' then a > b else if opr = ''<='' then a \<le> b else a \<ge> b))
     | _ \<Rightarrow> errE (''pipeline.exec_script: '' @ opr @ '' requires numbers''))"

text \<open>Go's integer division rounds toward zero.\<close>

definition go_div :: "int \<Rightarrow> int \<Rightarrow> int" where
  "go_div a b = (if (a < 0) = (b < 0) then \<bar>a\<bar> div \<bar>b\<bar> else - (\<bar>a\<bar> div \<bar>b\<bar>))"

definition map_get :: "(string \<times> sval) list \<Rightarrow> string \<Rightarrow> sval" where
  "map_get m k = (case map_of m k of Some v \<Rightarrow> v | None \<Rightarrow> SNull)"

text \<open>\<^verbatim>\<open>m.values[k].(*sStr)\<close> and its siblings.\<close>

definition str_arg :: "(string \<times> sval) list \<Rightarrow> string \<Rightarrow> string option" where
  "str_arg m k = (case map_of m k of Some (SStr t) \<Rightarrow> Some t | _ \<Rightarrow> None)"

definition bool_arg :: "(string \<times> sval) list \<Rightarrow> string \<Rightarrow> bool option" where
  "bool_arg m k = (case map_of m k of Some (SBool b) \<Rightarrow> Some b | _ \<Rightarrow> None)"

definition num_arg :: "(string \<times> sval) list \<Rightarrow> string \<Rightarrow> int option" where
  "num_arg m k = (case map_of m k of Some (SNum n) \<Rightarrow> Some n | _ \<Rightarrow> None)"

definition upper :: "char \<Rightarrow> char" where
  "upper c = (if char_between CHR ''a'' CHR ''z'' c then char_of (of_char c - 32 :: nat) else c)"

definition ToUpper :: "string \<Rightarrow> string" where "ToUpper = map upper"

text \<open>\<^verbatim>\<open>strings.TrimRight\<close> of newlines.\<close>

definition trim_nl :: "string \<Rightarrow> string" where
  "trim_nl s = rev (dropWhile (\<lambda>c. c = CHR 0x0A) (rev s))"

text \<open>The number of runes of a byte string; an invalid byte counts as one.\<close>

definition byte_in :: "nat \<Rightarrow> nat \<Rightarrow> char \<Rightarrow> bool" where "byte_in lo hi c \<longleftrightarrow> lo \<le> of_char c \<and> of_char c \<le> hi"

definition cont :: "string \<Rightarrow> nat \<Rightarrow> nat \<Rightarrow> nat \<Rightarrow> bool" where
  "cont s n lo hi \<longleftrightarrow> length s > n \<and> byte_in lo hi (s ! 1) \<and> (\<forall>i < n. i = 0 \<or> byte_in 128 191 (s ! (i + 1)))"

definition rune_len :: "string \<Rightarrow> nat" where
  "rune_len s =
     (if s = [] then 1 else let b = of_char (hd s) :: nat in
      if 194 \<le> b \<and> b \<le> 223 \<and> cont s 1 128 191 then 2
      else if b = 224 \<and> cont s 2 160 191 \<or> b = 237 \<and> cont s 2 128 159 \<or> 225 \<le> b \<and> b \<le> 239 \<and> b \<noteq> 237 \<and> cont s 2 128 191 then 3
      else if b = 240 \<and> cont s 3 144 191 \<or> b = 244 \<and> cont s 3 128 143 \<or> 241 \<le> b \<and> b \<le> 243 \<and> cont s 3 128 191 then 4
      else 1)"

text \<open>\<open>k\<close> bytes of the rune before are still to be passed.\<close>

primrec rune_count :: "nat \<Rightarrow> string \<Rightarrow> nat" where
  "rune_count k [] = 0"
| "rune_count k (c # cs) = (if k > 0 then rune_count (k - 1) cs else Suc (rune_count (rune_len (c # cs) - 1) cs))"

section \<open>The recursive entry points\<close>

text \<open>
  An expression, a statement, a call of a closure, the text of a value, and a step of \<^verbatim>\<open>filepath.WalkDir\<close> below a root, at a path that is
  a directory or not, which copies to a destination what passes a filter.
\<close>

datatype task = TE nat Expr | TS nat Stmt | TC "Param list" Block nat "sval list" | TStr sval
  | TWalk path path "(string \<times> string) option" path bool

type_synonym ktable = "task \<Rightarrow> sval ev"

definition evE :: "ktable \<Rightarrow> nat \<Rightarrow> Expr \<Rightarrow> sval ev" where "evE r env e = r (TE env e)"

definition evS :: "ktable \<Rightarrow> nat \<Rightarrow> Stmt \<Rightarrow> unit ev" where "evS r env st = seqE (r (TS env st)) (retE ())"

definition callC :: "ktable \<Rightarrow> Param list \<Rightarrow> Block \<Rightarrow> nat \<Rightarrow> sval list \<Rightarrow> sval ev" where
  "callC r ps b env args = r (TC ps b env args)"

definition str_of :: "ktable \<Rightarrow> sval \<Rightarrow> string ev" where
  "str_of r v = bindE (r (TStr v)) (\<lambda>x. case x of SStr t \<Rightarrow> retE t | _ \<Rightarrow> failE Dangling)"

definition native_name :: "native \<Rightarrow> string" where
  "native_name f = (case f of NStep n \<Rightarrow> n | NStrM n _ \<Rightarrow> n | NListM n _ \<Rightarrow> n | NText n _ \<Rightarrow> n | NNum n _ \<Rightarrow> n | NBool n _ \<Rightarrow> n
     | NVars n _ \<Rightarrow> n | NPrev _ _ \<Rightarrow> ''getPreviousBuild'')"

definition except_text :: "string \<Rightarrow> string \<Rightarrow> string" where
  "except_text typ msg = (if msg \<noteq> '''' then typ @ '': '' @ msg else typ)"

definition stringify :: "ktable \<Rightarrow> sval \<Rightarrow> string ev" where
  "stringify r v = (case v of
       SNull \<Rightarrow> retE ''null''
     | SBool b \<Rightarrow> retE (if b then ''true'' else ''false'')
     | SNum n \<Rightarrow> retE (Itoa n)
     | SStr t \<Rightarrow> retE t
     | SList a \<Rightarrow> bindE (readList a) (\<lambda>items. bindE (mapE (str_of r) items) (\<lambda>ts. retE (''['' @ join_str '', '' ts @ '']'')))
     | SMap a \<Rightarrow> bindE (readMap a) (\<lambda>kvs. bindE (mapE (\<lambda>(k, x). bindE (str_of r x) (\<lambda>t. retE (k @ '':'' @ t))) kvs)
         (\<lambda>ts. retE (''['' @ join_str '', '' ts @ '']'')))
     | SExcept typ msg \<Rightarrow> retE (except_text typ msg)
     | SClos _ _ _ \<Rightarrow> retE ''<closure>''
     | SNative f \<Rightarrow> retE (''<native '' @ native_name f @ ''>''))"

end
