(* ===== verification/StepLib.thy ===== *)
theory StepLib
  imports ScriptRt
begin

text \<open>
  The step library of the script interpreter: \<^verbatim>\<open>steps_core.go\<close>, \<^verbatim>\<open>steps_workspace.go\<close>, \<^verbatim>\<open>steps_creds.go\<close>, \<^verbatim>\<open>steps_ssh.go\<close>,
  \<^verbatim>\<open>steps_load.go\<close>, \<^verbatim>\<open>steps_build.go\<close>, \<^verbatim>\<open>steps_catcherr.go\<close>, \<^verbatim>\<open>steps_node.go\<close>, \<^verbatim>\<open>builtins_currentbuild.go\<close>, and the \<^verbatim>\<open>parallel\<close> and the methods of
  \<^verbatim>\<open>exec_script.go\<close>. One definition per Go function; \<open>p\<close> holds the seams and \<open>r\<close> is the table of the recursive calls. The branches
  of \<^verbatim>\<open>parallel\<close> are goroutines; here each runs to its end before the next begins, in the order \<open>p_rank\<close> gives. What finer
  interleavings do to the secret stack and to the executor is the subject of the theory \<open>Parallel\<close>.
\<close>

definition got :: "sval \<Rightarrow> string" where "got v = '' (got '' @ goT v @ '')''"

definition call0 :: "ktable \<Rightarrow> sval \<Rightarrow> string \<Rightarrow> sval ev" where
  "call0 r v m = (case v of SClos ps b env \<Rightarrow> callC r ps b env [] | _ \<Rightarrow> errE m)"

section \<open>Echo, sh, sleep, error, script\<close>

definition nativeEcho :: "ktable \<Rightarrow> sval list \<Rightarrow> sval ev" where
  "nativeEcho r args = bindE (mapE (str_of r) args) (\<lambda>parts. seqE (modE (appendEcho (join_str '' '' parts))) (retE SNull))"

text \<open>\<^verbatim>\<open>LocalExecutor.Sh\<close>, and \<^verbatim>\<open>rt.executor.Sh\<close> with the snapshot of the extra environment.\<close>

definition LocalExecutor_Sh :: "seams \<Rightarrow> path option \<Rightarrow> string \<Rightarrow> string list \<Rightarrow> world \<Rightarrow> (int \<times> string) res \<times> world" where
  "LocalExecutor_Sh p d script extraEnv w =
     (case p_shell p d (if extraEnv = [] then None else Some (p_Environ p @ extraEnv)) script w of
        ((ShExit code, out), w') \<Rightarrow> (Inr (code, out), w')
      | ((ShErr e, out), w') \<Rightarrow> (Inl e, w'))"

definition executor_Sh :: "seams \<Rightarrow> string \<Rightarrow> (int \<times> string) ev" where
  "executor_Sh p script s = liftE (case map_of (exec_ws s) (executor s) of
       Some ws \<Rightarrow> LocalExecutor_Sh p ws script (envExtra s)
     | None \<Rightarrow> p_Sh p (executor s) script (envExtra s)) s"

definition sh_args :: "sval list \<Rightarrow> (string \<times> bool \<times> bool) ev" where
  "sh_args args = (case args of [] \<Rightarrow> errE ''sh: no arguments''
     | SStr t # _ \<Rightarrow> retE (t, False, False)
     | SMap a # _ \<Rightarrow> bindE (readMap a) (\<lambda>m. case str_arg m ''script'' of
           None \<Rightarrow> errE ''sh: missing or non-string 'script' arg''
         | Some t \<Rightarrow> retE (t, bool_arg m ''returnStatus'' = Some True, bool_arg m ''returnStdout'' = Some True))
     | v # _ \<Rightarrow> errE (''sh: arg must be string or map'' @ got v))"

definition throw :: "string \<Rightarrow> string \<Rightarrow> 'a ev" where
  "throw typ msg = failE (SigThrow (SExcept typ msg))"

text \<open>The output is masked twice, here and in \<^verbatim>\<open>appendEcho\<close>.\<close>

definition echo_masked :: "string \<Rightarrow> rt \<Rightarrow> rt" where
  "echo_masked t s = appendEcho (maskOutput (masks s) t) s"

definition nativeSh :: "seams \<Rightarrow> sval list \<Rightarrow> sval ev" where
  "nativeSh p args = bindE (sh_args args) (\<lambda>(script, returnStatus, returnStdout).
     bindE (executor_Sh p script) (\<lambda>(code, out).
     seqE (modE (\<lambda>s. s\<lparr>lastExitCode := code\<rparr>))
       (if returnStdout then retE (SStr (trim_nl out))
        else seqE (modE (\<lambda>s. if out \<noteq> '''' then echo_masked (trim_nl out) s else s))
          (if returnStatus then retE (SNum (go_int code))
           else if code \<noteq> 0 then throw ''Error'' (''sh: script returned exit code '' @ Itoa code)
           else retE SNull))))"

definition sleepUnitDuration :: "string \<Rightarrow> int ev" where
  "sleepUnitDuration unit =
     (let u = ToUpper unit in
      if u = ''NANOSECONDS'' then retE 1 else if u = ''MICROSECONDS'' then retE 1000
      else if u = ''MILLISECONDS'' then retE 1000000 else if u = ''SECONDS'' then retE 1000000000
      else if u = ''MINUTES'' then retE 60000000000 else if u = ''HOURS'' then retE 3600000000000
      else if u = ''DAYS'' then retE 86400000000000 else errE (''sleep: unknown unit '' @ quoted unit))"

definition nativeSleep :: "seams \<Rightarrow> sval list \<Rightarrow> sval ev" where
  "nativeSleep p args = bindE (case args of [] \<Rightarrow> errE ''sleep: no arguments''
       | SNum n # _ \<Rightarrow> retE (go_int (n * 1000000))
       | SMap a # _ \<Rightarrow> bindE (readMap a) (\<lambda>m. case num_arg m ''time'' of
             None \<Rightarrow> errE ''sleep: missing or non-integer 'time' arg''
           | Some amount \<Rightarrow> bindE (sleepUnitDuration (case str_arg m ''unit'' of Some u \<Rightarrow> u | None \<Rightarrow> ''MILLISECONDS''))
               (\<lambda>u. retE (go_int (amount * u))))
       | v # _ \<Rightarrow> errE (''sleep: arg must be number or map'' @ got v))
     (\<lambda>d. case p_wait p d of None \<Rightarrow> retE SNull | Some e \<Rightarrow> failE (Err e))"

definition nativeError :: "ktable \<Rightarrow> sval list \<Rightarrow> sval ev" where
  "nativeError r args = bindE (case args of [] \<Rightarrow> retE '''' | v # _ \<Rightarrow> str_of r v) (throw ''FlowInterruptedException'')"

definition nativeScript :: "ktable \<Rightarrow> sval list \<Rightarrow> sval ev" where
  "nativeScript r args = (if args = [] then errE ''script: missing closure body''
     else call0 r (last args) (''script: last arg must be a closure'' @ got (last args)))"

section \<open>Workspace steps\<close>

definition nativeCleanWs :: "sval ev" where
  "nativeCleanWs = bindE (getE workspace) (\<lambda>ws. case ws of
       None \<Rightarrow> errE ''cleanWs: workspace not configured on executor''
     | Some wd \<Rightarrow> bindE (ioE ''cleanWs'' (os_ReadDir wd)) (\<lambda>es.
         seqE (loopE (\<lambda>e. seqE (ioE ''cleanWs'' (os_RemoveAll (join_path wd [fst e]))) (retE True)) es) (retE SNull)))"

text \<open>
  The directory \<^verbatim>\<open>dir\<close> changes to: an absolute path, or one below the workspace. Without a workspace a relative path is one below the working directory of the
  process, and \<^verbatim>\<open>filepath.Join("", "")\<close> is the empty path, which \<^verbatim>\<open>os.MkdirAll\<close> refuses.
\<close>

definition dir_target :: "seams \<Rightarrow> path option \<Rightarrow> string \<Rightarrow> path option" where
  "dir_target p ws d = (if IsAbs d then Some (join_path [] [d])
     else case ws of Some w \<Rightarrow> Some (join_path w [d]) | None \<Rightarrow> if d = '''' then None else Some (join_path (p_cwd p) [d]))"

definition enter_dir :: "path \<Rightarrow> rt \<Rightarrow> rt" where
  "enter_dir d s = s\<lparr>workspace := Some d,
     exec_ws := (if map_of (exec_ws s) (executor s) = None then exec_ws s else AList.update (executor s) (Some d) (exec_ws s))\<rparr>"

definition leave_dir :: "path option \<Rightarrow> nat \<Rightarrow> path option option \<Rightarrow> rt \<Rightarrow> rt" where
  "leave_dir savedRt le savedExe s = s\<lparr>workspace := savedRt,
     exec_ws := (case savedExe of None \<Rightarrow> exec_ws s | Some d \<Rightarrow> AList.update le d (exec_ws s))\<rparr>"

definition in_dir :: "path \<Rightarrow> 'a ev \<Rightarrow> 'a ev" where
  "in_dir d m s = deferE (leave_dir (workspace s) (executor s) (map_of (exec_ws s) (executor s))) m (enter_dir d s)"

definition nativeDir :: "seams \<Rightarrow> ktable \<Rightarrow> sval list \<Rightarrow> sval ev" where
  "nativeDir p r args = (case args of
       SStr d # _ # _ \<Rightarrow>
         (case last args of SClos ps b env \<Rightarrow>
            bindE (getE workspace) (\<lambda>ws. case dir_target p ws d of
                None \<Rightarrow> failE (Err (Wrap ''dir'' ErrNotExist))
              | Some newDir \<Rightarrow> seqE (ioE ''dir'' (os_MkdirAll newDir)) (seqE (in_dir newDir (callC r ps b env [])) (retE SNull)))
          | v \<Rightarrow> errE (''dir: last arg must be a closure'' @ got v))
     | v # _ # _ \<Rightarrow> errE (''dir: first arg must be a string path'' @ got v)
     | _ \<Rightarrow> errE ''dir: expected path and closure arguments'')"

text \<open>\<^verbatim>\<open>matchAnyGlob\<close>; a relative path is the text between the separators.\<close>

fun join_slash :: "string list \<Rightarrow> string" where
  "join_slash [] = ''.''"
| "join_slash [c] = c"
| "join_slash (c # cs) = c @ CHR ''/'' # join_slash cs"

definition matchAnyGlob :: "(string \<Rightarrow> string \<Rightarrow> bool) \<Rightarrow> string \<Rightarrow> path \<Rightarrow> bool" where
  "matchAnyGlob mtch pattern rel \<longleftrightarrow> pattern \<noteq> '''' \<and>
     list_ex (\<lambda>q. q \<noteq> '''' \<and> (q = ''**'' \<or> mtch q (join_slash rel) \<or> mtch q (if rel = [] then ''.'' else last rel)))
       (map TrimSpace (Split (CHR '','') pattern))"

definition copyOneFile :: "path \<Rightarrow> path \<Rightarrow> unit io" where
  "copyOneFile src dst = bindIO (os_ReadFile src) (os_WriteFile dst)"

text \<open>The callback of \<^verbatim>\<open>copyByGlob\<close> (with patterns) and of \<^verbatim>\<open>copyTree\<close> (without).\<close>

definition visit :: "seams \<Rightarrow> path \<Rightarrow> path \<Rightarrow> (string \<times> string) option \<Rightarrow> path \<Rightarrow> bool \<Rightarrow> unit io" where
  "visit p src dst pats pth isdir =
     (let rel = drop (length src) pth; target = dst @ rel in
      case pats of
        Some (includes, excludes) \<Rightarrow>
          if isdir then returnIO ()
          else if \<not> matchAnyGlob (p_Match p) includes rel then returnIO ()
          else if excludes \<noteq> '''' \<and> matchAnyGlob (p_Match p) excludes rel then returnIO ()
          else seqIO (os_MkdirAll (butlast target)) (copyOneFile pth target)
      | None \<Rightarrow> if rel = [] then returnIO () else if isdir then os_MkdirAll target else copyOneFile pth target)"

text \<open>\<^verbatim>\<open>filepath.WalkDir\<close>: the callback on a path, then on the entries of a directory in the order of their names.\<close>

definition walk :: "seams \<Rightarrow> ktable \<Rightarrow> path \<Rightarrow> path \<Rightarrow> (string \<times> string) option \<Rightarrow> path \<Rightarrow> bool \<Rightarrow> sval ev" where
  "walk p r src dst pats pth isdir = seqE (liftE (visit p src dst pats pth isdir))
     (if isdir then bindE (liftE (os_ReadDir pth)) (\<lambda>es.
        seqE (loopE (\<lambda>(n, d). seqE (r (TWalk src dst pats (pth @ [n]) d)) (retE True)) es) (retE SNull))
      else retE SNull)"

definition walk_root :: "ktable \<Rightarrow> path \<Rightarrow> path \<Rightarrow> (string \<times> string) option \<Rightarrow> sval ev" where
  "walk_root r src dst pats = bindE (if src = [] then retE True else bindE (liftE (os_Stat src)) (\<lambda>n. retE (node_dir n)))
     (\<lambda>d. r (TWalk src dst pats src d))"

definition copyByGlob :: "ktable \<Rightarrow> path \<Rightarrow> path \<Rightarrow> string \<Rightarrow> string \<Rightarrow> sval ev" where
  "copyByGlob r src dst includes excludes = walk_root r src dst (Some (includes, excludes))"

definition copyTree :: "ktable \<Rightarrow> path \<Rightarrow> path \<Rightarrow> sval ev" where
  "copyTree r src dst = walk_root r src dst None"

text \<open>\<^verbatim>\<open>fmt.Errorf("what: %w", err)\<close> around an error of any kind: a signal becomes an ordinary error, a panic goes through.\<close>

definition wrap_err :: "string \<Rightarrow> serr \<Rightarrow> serr" where
  "wrap_err what e = (case e of
       Err g \<Rightarrow> Err (Wrap what g)
     | SigRet _ \<Rightarrow> Err (Wrap what (Msg ''script: return''))
     | SigBr \<Rightarrow> Err (Wrap what (Msg ''script: break''))
     | SigCont \<Rightarrow> Err (Wrap what (Msg ''script: continue''))
     | SigThrow _ \<Rightarrow> Err (Wrap what (Msg ''script: throw''))
     | SPanic \<Rightarrow> SPanic
     | Dangling \<Rightarrow> Dangling)"

definition wrapE :: "string \<Rightarrow> 'a ev \<Rightarrow> 'a ev" where
  "wrapE what m = bindE (tryE m) (\<lambda>x. case x of Inr v \<Rightarrow> retE v | Inl e \<Rightarrow> failE (wrap_err what e))"

definition named_args :: "string \<Rightarrow> string \<Rightarrow> string \<Rightarrow> sval list \<Rightarrow> (string \<times> (string \<times> sval) list) ev" where
  "named_args step key none args = (case args of [] \<Rightarrow> errE (step @ none)
     | SStr t # _ \<Rightarrow> retE (t, [])
     | SMap a # _ \<Rightarrow> bindE (readMap a) (\<lambda>m. retE (case str_arg m key of Some t \<Rightarrow> t | None \<Rightarrow> '''', m))
     | v # _ \<Rightarrow> errE (step @ '': arg must be string or map'' @ got v))"

definition or_default :: "string \<Rightarrow> string option \<Rightarrow> string" where
  "or_default d x = (case x of Some t \<Rightarrow> t | None \<Rightarrow> d)"

definition nativeStash :: "seams \<Rightarrow> ktable \<Rightarrow> sval list \<Rightarrow> sval ev" where
  "nativeStash p r args = bindE (named_args ''stash'' ''name'' '': no arguments'' args) (\<lambda>(name, m).
     if name = '''' then errE (''stash: missing '' @ sq ''name'')
     else bindE (getE workspace) (\<lambda>ws. case ws of None \<Rightarrow> errE ''stash: workspace not configured on executor''
       | Some wd \<Rightarrow> (case p_stashDir p of None \<Rightarrow> errE ''stash: stashDir not configured on executor''
         | Some sd \<Rightarrow> let dest = join_path sd [name] in
             seqE (ioE ''stash'' (os_RemoveAll dest)) (seqE (ioE ''stash'' (os_MkdirAll dest))
               (seqE (wrapE ''stash'' (copyByGlob r wd dest (or_default ''**'' (str_arg m ''includes'')) (or_default '''' (str_arg m ''excludes''))))
                 (retE SNull))))))"

definition nativeUnstash :: "seams \<Rightarrow> ktable \<Rightarrow> sval list \<Rightarrow> sval ev" where
  "nativeUnstash p r args = bindE (named_args ''unstash'' ''name'' '': no arguments'' args) (\<lambda>(name, m).
     if name = '''' then errE ''unstash: missing name''
     else bindE (getE workspace) (\<lambda>ws. case (ws, p_stashDir p) of
         (Some wd, Some sd) \<Rightarrow> let src = join_path sd [name] in
           bindE (tryE (liftE (os_Stat src))) (\<lambda>st. case st of
               Inr (DirN _) \<Rightarrow> seqE (ioE ''unstash'' (os_MkdirAll wd)) (seqE (wrapE ''unstash'' (copyTree r src wd)) (retE SNull))
             | _ \<Rightarrow> errE (''unstash: stash '' @ quoted name @ '' not found''))
       | _ \<Rightarrow> errE ''unstash: workspace/stashDir not configured''))"

definition nativeArchiveArtifacts :: "seams \<Rightarrow> ktable \<Rightarrow> sval list \<Rightarrow> sval ev" where
  "nativeArchiveArtifacts p r args = bindE (named_args ''archiveArtifacts'' ''artifacts'' '': no arguments'' args) (\<lambda>(pattern, m).
     if pattern = '''' then errE ''archiveArtifacts: missing 'artifacts' pattern''
     else bindE (getE workspace) (\<lambda>ws. case (ws, p_artifactsDir p) of
         (Some wd, Some ad) \<Rightarrow> seqE (ioE ''archiveArtifacts'' (os_MkdirAll ad))
           (seqE (wrapE ''archiveArtifacts'' (copyByGlob r wd ad pattern (or_default '''' (str_arg m ''excludes'')))) (retE SNull))
       | _ \<Rightarrow> errE ''archiveArtifacts: workspace/ArtifactsDir not configured''))"

section \<open>Credentials\<close>

definition set_all :: "(string \<times> sval) list \<Rightarrow> (string \<times> sval) list \<Rightarrow> (string \<times> sval) list" where
  "set_all m kvs = fold (\<lambda>(k, v). AList.update k v) kvs m"

definition nativeStringCred :: "sval list \<Rightarrow> sval ev" where
  "nativeStringCred args = (case args of
       [] \<Rightarrow> errE ''string: no arguments (expected credentialsId+variable, or name+value)''
     | SMap a # _ \<Rightarrow> bindE (readMap a) (\<lambda>m.
         newMap (set_all [(''_credType'', SStr ''string'')] (filter (\<lambda>(k, v). k \<noteq> ''_credType'') m)))
     | v # _ \<Rightarrow> errE (''string: expected map of named args'' @ got v))"

definition TypeSecretText :: string where "TypeSecretText = ''secret-text''"

definition TypeSshPrivateKey :: string where "TypeSshPrivateKey = ''ssh-private-key''"

definition cred_get :: "seams \<Rightarrow> Store \<Rightarrow> string \<Rightarrow> Record io" where
  "cred_get p cs = Get (p_wolf p) (p_codec p) cs"

text \<open>One turn of the loop of \<^verbatim>\<open>nativeWithCredentials\<close>: the entry for the environment and the mask.\<close>

definition bind_secret :: "seams \<Rightarrow> Store \<Rightarrow> sval \<Rightarrow> (string \<times> string) ev" where
  "bind_secret p cs item = (case item of
       SMap a \<Rightarrow> bindE (readMap a) (\<lambda>m.
         case str_arg m ''_credType'' of
           None \<Rightarrow> errE ''withCredentials: binding descriptor missing _credType (use string(...) to construct it)''
         | Some ct \<Rightarrow> if ct \<noteq> ''string''
             then errE (''withCredentials: unsupported binding type '' @ quoted ct @ '' (18.18 supports secret-text bindings only via the `string(...)` form)'')
             else (case (str_arg m ''credentialsId'', str_arg m ''variable'') of
                 (Some cid, Some variable) \<Rightarrow>
                   bindE (ioE (''withCredentials: get '' @ quoted cid) (cred_get p cs cid)) (\<lambda>rec.
                     if rec_Type rec \<noteq> TypeSecretText
                     then errE (''withCredentials: binding '' @ quoted cid @ '' wants secret-text but credential is '' @ quoted (rec_Type rec))
                     else (case p_secret p (Payload rec) of
                         Inl e \<Rightarrow> failE (Err (Wrap (''withCredentials: unmarshal '' @ quoted cid @ '' payload'') e))
                       | Inr secret \<Rightarrow> retE (variable @ ''='' @ secret, secret)))
               | _ \<Rightarrow> errE ''withCredentials: binding missing credentialsId or variable''))
     | _ \<Rightarrow> errE ''withCredentials: binding descriptor must be a map (use string(credentialsId: ...))'')"

text \<open>\<^verbatim>\<open>frame := rt.pushSecrets(env, masks); defer rt.popSecrets(frame)\<close> around a computation.\<close>

definition with_secrets :: "string list \<Rightarrow> string list \<Rightarrow> 'a ev \<Rightarrow> 'a ev" where
  "with_secrets env ms m s = deferE (popSecrets (length (envExtra s), length (masks s))) m (pushSecrets env ms s)"

definition nativeWithCredentials :: "seams \<Rightarrow> ktable \<Rightarrow> sval list \<Rightarrow> sval ev" where
  "nativeWithCredentials p r args =
     (if length args < 2 then errE ''withCredentials: expected a bindings list and a closure body''
      else case hd args of
        SList a \<Rightarrow> (case last args of
            SClos ps b env \<Rightarrow> (case p_creds p of
                None \<Rightarrow> errE ''withCredentials: credstore not configured on executor''
              | Some cs \<Rightarrow> bindE (readList a) (\<lambda>items. bindE (mapE (bind_secret p cs) items) (\<lambda>bs.
                  seqE (with_secrets (map fst bs) (map snd bs) (callC r ps b env [])) (retE SNull))))
          | _ \<Rightarrow> errE ''withCredentials: last arg must be a closure'')
      | v \<Rightarrow> errE (''withCredentials: first arg must be a list of binding descriptors'' @ got v))"

text \<open>
  \<^verbatim>\<open>loadAgentIdentity\<close>, without the identity and the handle it returns: they go to the agent, whose goroutines serve a socket and
  touch nothing of the runtime. The two return codes are those of \<^verbatim>\<open>Wc_ed25519_init\<close> and \<^verbatim>\<open>Wc_ed25519_import_private_key\<close>.
\<close>

definition loadAgentIdentity :: "seams \<Rightarrow> Store \<Rightarrow> string \<Rightarrow> unit ev" where
  "loadAgentIdentity p cs cid = bindE (liftE (cred_get p cs cid)) (\<lambda>rec.
     if rec_Type rec \<noteq> TypeSshPrivateKey then errE (''expected ssh-private-key cred, got '' @ quoted (rec_Type rec))
     else case p_sshPayload p (Payload rec) of
       Inl e \<Rightarrow> failE (Err (Wrap ''unmarshal payload'' e))
     | Inr (key, passphrase) \<Rightarrow>
         if passphrase \<noteq> '''' then errE ''passphrase-protected keys are not supported in 18.20 (unsealed keys only)''
         else (case p_parsePEM p key of
             Inl e \<Rightarrow> failE (Err (Wrap ''parse PEM'' e))
           | Inr (algorithm, seed) \<Rightarrow>
               if algorithm \<noteq> ''ssh-ed25519'' then errE (''algorithm '' @ quoted algorithm @ '' not supported in 18.20 (ssh-ed25519 only)'')
               else (case p_ed25519 p seed of (init, import) \<Rightarrow>
                 if init \<noteq> 0 then errE (''Wc_ed25519_init: '' @ Itoa init)
                 else if import \<noteq> 0 then errE (''Wc_ed25519_import_private_key: '' @ Itoa import)
                 else retE ())))"

definition load_key :: "seams \<Rightarrow> Store \<Rightarrow> sval \<Rightarrow> bool ev" where
  "load_key p cs item = (case item of
       SStr cid \<Rightarrow> seqE (wrapE (''sshagent: load '' @ quoted cid) (loadAgentIdentity p cs cid)) (retE True)
     | v \<Rightarrow> errE (''sshagent: credentials list entries must be strings'' @ got v))"

definition agent_socket :: "seams \<Rightarrow> string ev" where
  "agent_socket p = (case p_mkdirTemp p of
       Inl e \<Rightarrow> failE (Err (Wrap ''sshagent: create temp dir'' e))
     | Inr sockDir \<Rightarrow> let sockPath = sockDir @ ''/agent.sock'' in
         (case p_listen p sockPath of Some e \<Rightarrow> failE (Err (Wrap (''sshagent: listen '' @ sockPath) e))
          | None \<Rightarrow> (case p_chmod p sockPath of Some e \<Rightarrow> failE (Err (Wrap (''sshagent: chmod '' @ sockPath) e))
                     | None \<Rightarrow> retE sockPath)))"

definition nativeSshagent :: "seams \<Rightarrow> ktable \<Rightarrow> sval list \<Rightarrow> sval ev" where
  "nativeSshagent p r args =
     (if length args < 2 then errE ''sshagent: expected a named-arg map (credentials: [...]) and a closure body''
      else case hd args of
        SMap a \<Rightarrow> bindE (readMap a) (\<lambda>m. case map_of m ''credentials'' of
            Some (SList l) \<Rightarrow> (case last args of
                SClos ps b env \<Rightarrow> (case p_creds p of
                    None \<Rightarrow> errE ''sshagent: credstore not configured on executor''
                  | Some cs \<Rightarrow> bindE (readList l) (\<lambda>items. seqE (loopE (load_key p cs) items)
                      (bindE (agent_socket p) (\<lambda>sock.
                        seqE (with_secrets [''SSH_AUTH_SOCK='' @ sock] [] (callC r ps b env [])) (retE SNull)))))
              | _ \<Rightarrow> errE ''sshagent: last arg must be a closure'')
          | _ \<Rightarrow> errE ''sshagent: missing 'credentials' list'')
      | v \<Rightarrow> errE (''sshagent: first arg must be a map of named args'' @ got v))"

section \<open>Downstream builds\<close>

definition buildResultObject :: "string \<Rightarrow> int \<Rightarrow> string \<Rightarrow> sval ev" where
  "buildResultObject job number status = newMap
     [(''result'', SStr status), (''number'', SNum (go_int number)), (''projectName'', SStr job), (''fullProjectName'', SStr job),
      (''getResult'', SNative (NText ''getResult'' status)), (''getNumber'', SNative (NNum ''getNumber'' (go_int number))),
      (''getProjectName'', SNative (NText ''getProjectName'' job)), (''getFullProjectName'', SNative (NText ''getFullProjectName'' job))]"

definition build_param :: "ktable \<Rightarrow> sval \<Rightarrow> BuildParam ev" where
  "build_param r item = (case item of
       SMap a \<Rightarrow> bindE (readMap a) (\<lambda>m. case str_arg m ''name'' of
           None \<Rightarrow> errE (''parameters entry missing '' @ sq ''name'')
         | Some nm \<Rightarrow> (case map_of m ''value'' of
             None \<Rightarrow> retE (nm, '''')
           | Some v \<Rightarrow> bindE (str_of r v) (\<lambda>t. retE (nm, t))))
     | v \<Rightarrow> errE (''parameters entry must be a descriptor map'' @ got v))"

definition unrollBuildParams :: "ktable \<Rightarrow> sval option \<Rightarrow> BuildParam list ev" where
  "unrollBuildParams r raw = (case raw of
       None \<Rightarrow> retE []
     | Some SNull \<Rightarrow> retE []
     | Some (SList a) \<Rightarrow> bindE (readList a) (mapE (build_param r))
     | Some v \<Rightarrow> errE (''parameters must be a list'' @ got v))"

definition build_args :: "sval list \<Rightarrow> (string \<times> sval) list ev" where
  "build_args args = (case args of
       [] \<Rightarrow> errE ''build: missing arguments (need at least job: ...)''
     | SMap a # _ \<Rightarrow> readMap a
     | SStr t # _ \<Rightarrow> retE [(''job'', SStr t)]
     | v # _ \<Rightarrow> errE (''build: first arg must be a map of named args'' @ got v))"

definition await_child :: "string \<Rightarrow> bool \<Rightarrow> child_end \<Rightarrow> sval ev" where
  "await_child job propagate ending = (case ending of
       ChanClosed \<Rightarrow> errE (''build: dispatcher closed result channel without emitting a result for '' @ quoted job)
     | CtxDone e \<Rightarrow> failE (Err e)
     | ChildBuildResult cjob number status \<Rightarrow> bindE (buildResultObject cjob number status) (\<lambda>obj.
         if propagate \<and> status \<noteq> ''SUCCESS''
         then throw ''Error'' (''build: downstream job '' @ quoted job @ '' finished with status '' @ quoted status @ '' (propagate=true)'')
         else retE obj))"

definition nativeBuild :: "seams \<Rightarrow> ktable \<Rightarrow> sval list \<Rightarrow> sval ev" where
  "nativeBuild p r args = bindE (build_args args) (\<lambda>m. case str_arg m ''job'' of
       None \<Rightarrow> errE ''build: missing 'job' (string) argument''
     | Some job \<Rightarrow> (case p_dispatch p of
         None \<Rightarrow> errE ''build: dispatcher not configured on executor''
       | Some dispatch \<Rightarrow> bindE (wrapE ''build'' (unrollBuildParams r (map_of m ''parameters''))) (\<lambda>params.
           seqE (modE (\<lambda>s. s\<lparr>dispatched := dispatched s @ [(job, params)]\<rparr>))
           (case dispatch job params of
             Inl e \<Rightarrow> failE (Err (Wrap (''build: enqueue '' @ quoted job) e))
           | Inr ending \<Rightarrow>
               if bool_arg m ''wait'' = Some False then buildResultObject job 0 ''NOT_BUILT''
               else await_child job (bool_arg m ''propagate'' \<noteq> Some False) ending))))"

section \<open>catchError, node, load\<close>

definition normalizeCatchResult :: "string \<Rightarrow> BuildStatus" where
  "normalizeCatchResult name = (let u = ToUpper name in
     if u = ''SUCCESS'' then BuildSuccess else if u = '''' \<or> u = ''NOT_BUILT'' then BuildRunning else BuildFailure)"

definition catch_verdict :: "(string \<times> sval) list \<Rightarrow> BuildStatus \<times> BuildStatus" where
  "catch_verdict named =
     (let br = ToUpper (or_default ''FAILURE'' (str_arg named ''buildResult''));
          sr0 = ToUpper (or_default '''' (str_arg named ''stageResult''))
      in (normalizeCatchResult br, normalizeCatchResult (if sr0 = '''' then br else sr0)))"

definition nativeCatchError :: "ktable \<Rightarrow> sval list \<Rightarrow> sval ev" where
  "nativeCatchError r args = (if args = [] then errE ''catchError: expected a closure body (and optional named-args map)''
     else case last args of
       SClos ps b env \<Rightarrow> bindE (case hd args of SMap a \<Rightarrow> readMap a | _ \<Rightarrow> retE []) (\<lambda>named.
         bindE (tryE (callC r ps b env [])) (\<lambda>res. case res of
              Inr _ \<Rightarrow> retE SNull
            | Inl (SigThrow _) \<Rightarrow>
                seqE (modE (\<lambda>s. case or_default '''' (str_arg named ''message'') of [] \<Rightarrow> s | message \<Rightarrow> appendEcho message s))
                (seqE (modE (applyCatchForced (fst (catch_verdict named)) (snd (catch_verdict named)))) (retE SNull))
            | Inl e \<Rightarrow> failE e))
     | v \<Rightarrow> errE (''catchError: last arg must be a closure'' @ got v))"

definition on_executor :: "nat \<Rightarrow> 'a ev \<Rightarrow> 'a ev" where
  "on_executor next m s = deferE (\<lambda>s'. s'\<lparr>executor := executor s\<rparr>) m (s\<lparr>executor := next\<rparr>)"

definition nativeNode :: "seams \<Rightarrow> ktable \<Rightarrow> sval list \<Rightarrow> sval ev" where
  "nativeNode p r args = (case args of
       SStr label # _ # _ \<Rightarrow> (case last args of
           SClos ps b env \<Rightarrow> (case p_router p of
               None \<Rightarrow> errE ''node: NodeRouter not configured on executor''
             | Some router \<Rightarrow> (case router label of
                 Inl e \<Rightarrow> failE (Err (Wrap (''node: resolve label '' @ quoted label) e))
               | Inr next \<Rightarrow> on_executor next (callC r ps b env [])))
         | v \<Rightarrow> errE (''node: last arg must be a closure'' @ got v))
     | v # _ # _ \<Rightarrow> errE (''node: first arg must be a string label'' @ got v)
     | _ \<Rightarrow> errE ''node: expected (label, closure)'')"

definition perr_text :: "perr \<Rightarrow> goerr" where
  "perr_text e = (case e of LexError m l c \<Rightarrow> Msg m | ParseError m l c \<Rightarrow> Msg m | ParseFail m \<Rightarrow> Msg m | _ \<Rightarrow> Msg '''')"

text \<open>\<^verbatim>\<open>evalBlock\<close>. The global scope is the first of the heap.\<close>

definition evalBlock :: "ktable \<Rightarrow> nat \<Rightarrow> Block \<Rightarrow> unit ev" where
  "evalBlock r env b = loopE (\<lambda>st. seqE (evS r env st) (retE True)) (Statements b)"

definition globals :: nat where "globals = 0"

definition closures_of :: "nat \<Rightarrow> (string \<times> sval) list ev" where
  "closures_of e s = (if e < length (henvs s)
     then Some (Inr (filter (\<lambda>(x, v). case v of SClos _ _ _ \<Rightarrow> True | _ \<Rightarrow> False) (vars (henvs s ! e))), s)
     else Some (Inl Dangling, s))"

definition load_script :: "ktable \<Rightarrow> string \<Rightarrow> path \<Rightarrow> sval ev" where
  "load_script r txt full = bindE (ioE (''load: read '' @ txt) (os_ReadFile full)) (\<lambda>data.
     case ParseScript data of
       Inl e \<Rightarrow> failE (Err (Wrap (''load: parse '' @ txt) (perr_text e)))
     | Inr script \<Rightarrow>
         bindE (newEnv (Some globals)) (\<lambda>loadedEnv.
         seqE (define_in loadedEnv ''this'' SNull)
         (bindE (tryE (evalBlock r loadedEnv (sf_Block script))) (\<lambda>res.
           case res of
             Inl (SigRet _) \<Rightarrow> bindE (closures_of loadedEnv) newMap
           | Inl e \<Rightarrow> failE (wrap_err (''load: execute '' @ txt) e)
           | Inr _ \<Rightarrow> bindE (closures_of loadedEnv) newMap))))"

definition nativeLoad :: "ktable \<Rightarrow> sval list \<Rightarrow> sval ev" where
  "nativeLoad r args = (case args of
       [] \<Rightarrow> errE ''load: missing path argument''
     | SStr t # _ \<Rightarrow>
         if IsAbs t then load_script r t (join_path [] [t])
         else bindE (getE workspace) (\<lambda>ws. case ws of
             None \<Rightarrow> errE (''load: relative path '' @ quoted t @ '' but no workspace configured'')
           | Some w \<Rightarrow> let full = join_path w [t] in load_script r (path_string full) full)
     | v # _ \<Rightarrow> errE (''load: path must be a string'' @ got v))"

section \<open>parallel\<close>

text \<open>
  The branches before the first value that is not a closure are started; when there is such a value the function returns its error at once, and the
  started branches go on. Here they have run to their ends by then. The first error is the one reported; a panic in a branch ends the process.
  The code starts one goroutine for each branch, on the one shared runtime; here the branches run one after another, in the order of
  \<open>p_rank\<close>, each from the state the one before left. What overlapping branches do to the shared masks and environment is the matter of the
  theory \<open>Parallel\<close>.
\<close>

definition is_clos :: "sval \<Rightarrow> bool" where "is_clos v = (case v of SClos _ _ _ \<Rightarrow> True | _ \<Rightarrow> False)"

definition run_branch :: "ktable \<Rightarrow> sval \<Rightarrow> sval ev" where
  "run_branch r v = (case v of SClos ps b env \<Rightarrow> callC r ps b env [] | _ \<Rightarrow> retE SNull)"

primrec branches :: "ktable \<Rightarrow> serr option \<Rightarrow> (string \<times> sval) list \<Rightarrow> serr option ev" where
  "branches r e [] = retE e"
| "branches r e (b # bs) = bindE (tryE (run_branch r (snd b))) (\<lambda>res. case res of
       Inr _ \<Rightarrow> branches r e bs
     | Inl SPanic \<Rightarrow> failE SPanic
     | Inl e' \<Rightarrow> branches r (case e of None \<Rightarrow> Some e' | Some _ \<Rightarrow> e) bs)"

definition nativeParallel :: "seams \<Rightarrow> ktable \<Rightarrow> sval list \<Rightarrow> sval ev" where
  "nativeParallel p r args = (case args of
       [SMap a] \<Rightarrow> bindE (readMap a) (\<lambda>m.
         let started = takeWhile (\<lambda>(k, v). is_clos v) m; rest = dropWhile (\<lambda>(k, v). is_clos v) m in
         bindE (branches r None (sort_key (\<lambda>(k, v). p_rank p k) started)) (\<lambda>e.
           case rest of
             (k, v) # _ \<Rightarrow> errE (''parallel: map value for '' @ quoted k @ '' must be a closure'' @ got v)
           | [] \<Rightarrow> (case e of None \<Rightarrow> retE SNull | Some err \<Rightarrow> failE err)))
     | [v] \<Rightarrow> errE (''parallel: argument must be a map'' @ got v)
     | _ \<Rightarrow> errE (''parallel: expected 1 argument, got '' @ Itoa (int (length args))))"

section \<open>Methods and accessors\<close>

definition exceptMember :: "string \<Rightarrow> string \<Rightarrow> string \<Rightarrow> sval" where
  "exceptMember typ msg name =
     (if name = ''message'' then SStr msg else if name = ''type'' then SStr typ
      else if name = ''getMessage'' then SNative (NText ''getMessage'' msg)
      else if name = ''toString'' then SNative (NText ''toString'' (except_text typ msg)) else SNull)"

definition stringMember :: "string \<Rightarrow> string \<Rightarrow> sval" where
  "stringMember v name =
     (if name \<in> {''replaceAll'', ''contains'', ''startsWith'', ''endsWith''} then SNative (NStrM name v)
      else if name = ''trim'' then SNative (NText ''trim'' (TrimSpace v))
      else if name = ''toString'' then SNative (NText ''toString'' v)
      else if name = ''length'' \<or> name = ''size'' then SNative (NNum name (go_int (int (rune_count 0 v)))) else SNull)"

definition listMember :: "ktable \<Rightarrow> nat \<Rightarrow> string \<Rightarrow> sval ev" where
  "listMember r a name =
     (if name \<in> {''each'', ''collect'', ''join''} then retE (SNative (NListM name a))
      else if name = ''size'' \<or> name = ''length'' then bindE (readList a) (\<lambda>items. retE (SNative (NNum name (go_int (int (length items))))))
      else if name = ''isEmpty'' then bindE (readList a) (\<lambda>items. retE (SNative (NBool name (items = []))))
      else if name = ''toString'' then bindE (stringify r (SList a)) (\<lambda>t. retE (SNative (NText name t)))
      else retE SNull)"

definition string_method :: "seams \<Rightarrow> string \<Rightarrow> string \<Rightarrow> sval list \<Rightarrow> sval ev" where
  "string_method p name v args =
     (if name = ''replaceAll'' then
        (case args of
           [SStr pat, SStr repl] \<Rightarrow> (case p_regex p pat of
               Inl e \<Rightarrow> failE (Err (Wrap (''String.replaceAll: bad regex '' @ quoted pat) e))
             | Inr replace \<Rightarrow> retE (SStr (replace v repl)))
         | [SStr pat, x] \<Rightarrow> errE (''String.replaceAll: replacement arg must be a string'' @ got x)
         | [x, _] \<Rightarrow> errE (''String.replaceAll: regex arg must be a string'' @ got x)
         | _ \<Rightarrow> errE (''String.replaceAll: expected 2 args, got '' @ Itoa (int (length args))))
      else if name = ''contains'' then
        (case args of [SStr t] \<Rightarrow> retE (SBool (sublist t v)) | [_] \<Rightarrow> errE ''String.contains: arg must be a string''
         | _ \<Rightarrow> errE ''String.contains: expected 1 arg'')
      else (case args of [] \<Rightarrow> failE SPanic
         | SStr t # _ \<Rightarrow> retE (SBool (if name = ''startsWith'' then prefix t v else suffix t v))
         | _ \<Rightarrow> retE (SBool False)))"

text \<open>A list's length never changes; a loop over it reads each item when it gets there.\<close>

definition item_at :: "nat \<Rightarrow> nat \<Rightarrow> sval ev" where
  "item_at a i = bindE (readList a) (\<lambda>items. if i < length items then retE (items ! i) else failE Dangling)"

definition list_method :: "ktable \<Rightarrow> string \<Rightarrow> nat \<Rightarrow> sval list \<Rightarrow> sval ev" where
  "list_method r name a args =
     (if name = ''join'' then bindE (readList a) (\<lambda>items. bindE (mapE (str_of r) items) (\<lambda>parts.
        retE (SStr (join_str (case args of SStr sep # _ \<Rightarrow> sep | _ \<Rightarrow> '''') parts))))
      else if args = [] then errE (''List.'' @ name @ '': missing closure'')
      else case last args of
        SClos ps b env \<Rightarrow> bindE (readList a) (\<lambda>items.
          bindE (mapE (\<lambda>i. bindE (item_at a i) (\<lambda>v. callC r ps b env [v])) [0..<length items]) (\<lambda>vs.
            if name = ''each'' then retE SNull else newList vs))
      | _ \<Rightarrow> errE (''List.'' @ name @ '': arg must be a closure''))"

definition stringMapToScript :: "(string \<times> string) list \<Rightarrow> sval ev" where
  "stringMapToScript kvs = newMap (set_all [] (map (\<lambda>(k, v). (k, SStr v)) kvs))"

text \<open>\<^verbatim>\<open>buildInfoToValue\<close>: the last entry makes the map a member of itself.\<close>

definition build_fields :: "BuildInfo \<Rightarrow> (string \<times> sval) list" where
  "build_fields info =
     [(''number'', SNum (go_int (bi_Number info))), (''displayName'', SStr (DisplayName info)), (''result'', SStr (bi_Result info)),
      (''projectName'', SStr (bi_JobName info)), (''fullProjectName'', SStr (bi_JobName info)),
      (''getNumber'', SNative (NNum ''getNumber'' (go_int (bi_Number info)))),
      (''getDisplayName'', SNative (NText ''getDisplayName'' (DisplayName info))),
      (''getResult'', SNative (NText ''getResult'' (bi_Result info))),
      (''getProjectName'', SNative (NText ''getProjectName'' (bi_JobName info))),
      (''getFullProjectName'', SNative (NText ''getFullProjectName'' (bi_JobName info))),
      (''getBuildVariables'', SNative (NVars ''getBuildVariables'' (Variables info))),
      (''getEnvironment'', SNative (NVars ''getEnvironment'' (Environment info))),
      (''getPreviousBuild'', SNative (NPrev (bi_JobName info) (PreviousBuildNumber info)))]"

definition buildInfoToValue :: "BuildInfo \<Rightarrow> sval ev" where
  "buildInfoToValue info = bindE (allocMap (build_fields info)) (\<lambda>a. seqE (mapSet a ''rawBuild'' (SMap a)) (retE (SMap a)))"

definition getPreviousBuild :: "seams \<Rightarrow> string \<Rightarrow> int \<Rightarrow> sval ev" where
  "getPreviousBuild p job num = (case p_builds p of
       None \<Rightarrow> retE SNull
     | Some (_, lookup) \<Rightarrow> if num \<le> 0 then retE SNull
         else (case lookup job num of None \<Rightarrow> retE SNull | Some prev \<Rightarrow> buildInfoToValue prev))"

section \<open>Dispatch\<close>

definition step_names :: "string list" where
  "step_names = [''sh'', ''echo'', ''sleep'', ''error'', ''script'', ''cleanWs'', ''dir'', ''stash'', ''unstash'', ''archiveArtifacts'',
     ''string'', ''withCredentials'', ''sshagent'', ''load'', ''build'', ''catchError'', ''node'']"

definition invokeStep :: "seams \<Rightarrow> ktable \<Rightarrow> string \<Rightarrow> sval list \<Rightarrow> sval ev" where
  "invokeStep p r name args =
     (if name = ''parallel'' then nativeParallel p r args else if name = ''sh'' then nativeSh p args
      else if name = ''echo'' then nativeEcho r args else if name = ''sleep'' then nativeSleep p args
      else if name = ''error'' then nativeError r args else if name = ''script'' then nativeScript r args
      else if name = ''cleanWs'' then nativeCleanWs else if name = ''dir'' then nativeDir p r args
      else if name = ''stash'' then nativeStash p r args else if name = ''unstash'' then nativeUnstash p r args
      else if name = ''archiveArtifacts'' then nativeArchiveArtifacts p r args else if name = ''string'' then nativeStringCred args
      else if name = ''withCredentials'' then nativeWithCredentials p r args else if name = ''sshagent'' then nativeSshagent p r args
      else if name = ''load'' then nativeLoad r args else if name = ''build'' then nativeBuild p r args
      else if name = ''catchError'' then nativeCatchError r args else nativeNode p r args)"

definition invokeNative :: "seams \<Rightarrow> ktable \<Rightarrow> native \<Rightarrow> sval list \<Rightarrow> sval ev" where
  "invokeNative p r f args = (case f of
       NStep name \<Rightarrow> invokeStep p r name args
     | NStrM name v \<Rightarrow> string_method p name v args
     | NListM name a \<Rightarrow> list_method r name a args
     | NText _ t \<Rightarrow> retE (SStr t)
     | NNum _ n \<Rightarrow> retE (SNum n)
     | NBool _ b \<Rightarrow> retE (SBool b)
     | NVars _ kvs \<Rightarrow> stringMapToScript kvs
     | NPrev job num \<Rightarrow> getPreviousBuild p job num)"

definition invokeCallable :: "seams \<Rightarrow> ktable \<Rightarrow> sval \<Rightarrow> sval list \<Rightarrow> sval ev" where
  "invokeCallable p r fn args = (case fn of
       SNative f \<Rightarrow> invokeNative p r f args
     | SClos ps b env \<Rightarrow> callC r ps b env args
     | v \<Rightarrow> errE (''pipeline.exec_script: value is not callable ('' @ goT v @ '')''))"

definition memberAccess :: "ktable \<Rightarrow> sval \<Rightarrow> string \<Rightarrow> sval ev" where
  "memberAccess r obj name = (case obj of
       SMap a \<Rightarrow> bindE (readMap a) (\<lambda>m. retE (map_get m name))
     | SExcept typ msg \<Rightarrow> retE (exceptMember typ msg name)
     | SStr v \<Rightarrow> retE (stringMember v name)
     | SList a \<Rightarrow> listMember r a name
     | _ \<Rightarrow> retE SNull)"

end
