(* ===== verification/Interp.thy ===== *)
theory Interp
  imports StepLib
begin

text \<open>
  The tree-walking evaluator of \<^verbatim>\<open>internal/pipeline/exec_script.go\<close>: expressions, statements, closures, and the entry point. Every
  function takes the table of the recursive calls; \<open>evalN\<close> ties it, level \<open>n + 1\<close> over level \<open>n\<close>, and at level 0 the fuel is out. A
  \<^verbatim>\<open>while\<close> loop goes round through the table, so a result of any level is a result of the program, and a program that does not return
  has none at any level.
\<close>

section \<open>Expressions\<close>

definition subscriptGet :: "ktable \<Rightarrow> sval \<Rightarrow> sval \<Rightarrow> sval ev" where
  "subscriptGet r obj idx = (case obj of
       SMap a \<Rightarrow> bindE (stringify r idx) (\<lambda>k. bindE (readMap a) (\<lambda>m. retE (map_get m k)))
     | SList a \<Rightarrow> (case idx of
         SNum i \<Rightarrow> bindE (readList a) (\<lambda>items. if i < 0 \<or> i \<ge> int (length items) then retE SNull else retE (items ! nat i))
       | _ \<Rightarrow> errE ''list subscript must be a number'')
     | _ \<Rightarrow> errE (''pipeline.exec_script: subscript on '' @ goT obj))"

definition subscriptSet :: "ktable \<Rightarrow> sval \<Rightarrow> sval \<Rightarrow> sval \<Rightarrow> unit ev" where
  "subscriptSet r obj idx v = (case obj of
       SMap a \<Rightarrow> bindE (stringify r idx) (\<lambda>k. mapSet a k v)
     | SList a \<Rightarrow> (case idx of
         SNum i \<Rightarrow> bindE (readList a) (\<lambda>items. if i < 0 \<or> i \<ge> int (length items) then errE ''list subscript out of range''
           else listSet a (nat i) v)
       | _ \<Rightarrow> errE ''list subscript must be a number'')
     | _ \<Rightarrow> errE (''pipeline.exec_script: subscript assignment on '' @ goT obj))"

definition assignTo :: "ktable \<Rightarrow> nat \<Rightarrow> Expr \<Rightarrow> sval \<Rightarrow> unit ev" where
  "assignTo r env target v = (case target of
       IdentExpr x _ \<Rightarrow> assign_var env x v
     | SubscriptExpr ob ix _ \<Rightarrow> bindE (evE r env ob) (\<lambda>obj. bindE (evE r env ix) (\<lambda>idx. subscriptSet r obj idx v))
     | _ \<Rightarrow> errE ''pipeline.exec_script: invalid assignment target'')"

definition binary_op :: "ktable \<Rightarrow> string \<Rightarrow> sval \<Rightarrow> sval \<Rightarrow> sval ev" where
  "binary_op r opr l rv =
     (let unsupported = errE (''pipeline.exec_script: unsupported binary op '' @ quoted opr @ '' on '' @ goT l @ '' and '' @ goT rv);
          nums = (\<lambda>f. case (l, rv) of (SNum a, SNum b) \<Rightarrow> f a b | _ \<Rightarrow> unsupported)
      in if opr = ''+'' then
           (case (l, rv) of
              (SStr a, _) \<Rightarrow> bindE (stringify r rv) (\<lambda>t. retE (SStr (a @ t)))
            | (_, SStr b) \<Rightarrow> bindE (stringify r l) (\<lambda>t. retE (SStr (t @ b)))
            | _ \<Rightarrow> nums (\<lambda>a b. retE (SNum (go_int (a + b)))))
         else if opr = ''-'' then nums (\<lambda>a b. retE (SNum (go_int (a - b))))
         else if opr = ''*'' then nums (\<lambda>a b. retE (SNum (go_int (a * b))))
         else if opr = ''/'' then nums (\<lambda>a b. if b = 0 then errE ''pipeline.exec_script: divide by zero'' else retE (SNum (go_int (go_div a b))))
         else if opr = ''=='' then retE (SBool (equals l rv))
         else if opr = ''!='' then retE (SBool (\<not> equals l rv))
         else if opr \<in> {''<'', ''>'', ''<='', ''>=''} then compareNums l rv opr
         else if opr = ''instanceof'' then retE (SBool (instanceofCheck l rv))
         else unsupported)"

definition evalBinary :: "ktable \<Rightarrow> nat \<Rightarrow> string \<Rightarrow> Expr \<Rightarrow> Expr \<Rightarrow> sval ev" where
  "evalBinary r env opr lhs rhs =
     (if opr = ''&&'' \<or> opr = ''||''
      then bindE (evE r env lhs) (\<lambda>l. bindE (getE (\<lambda>s. truthy s l)) (\<lambda>lt.
        if opr = ''&&'' \<and> \<not> lt then retE (SBool False) else if opr = ''||'' \<and> lt then retE (SBool True)
        else bindE (evE r env rhs) (\<lambda>rv. bindE (getE (\<lambda>s. truthy s rv)) (\<lambda>b. retE (SBool b)))))
      else bindE (evE r env lhs) (\<lambda>l. bindE (evE r env rhs) (\<lambda>rv. binary_op r opr l rv)))"

definition collectCallArgs :: "ktable \<Rightarrow> nat \<Rightarrow> CallArg list \<Rightarrow> ClosureExpr option \<Rightarrow> sval list ev" where
  "collectCallArgs r env cargs closureArg =
     bindE (mapE (\<lambda>a. bindE (evE r env (ca_Value a)) (\<lambda>v. retE (ca_Name a, v))) cargs) (\<lambda>vs.
       let named = filter (\<lambda>(n, v). n \<noteq> '''') vs; positional = map snd (filter (\<lambda>(n, v). n = '''') vs) in
       bindE (if named = [] then retE [] else bindE (newMap (set_all [] named)) (\<lambda>m. retE [m])) (\<lambda>ms.
         case closureArg of
           None \<Rightarrow> retE (ms @ positional)
         | Some c \<Rightarrow> bindE (evE r env (Closure c)) (\<lambda>cv. retE (ms @ positional @ [cv]))))"

text \<open>The message of an exception: its first argument that is a string; those after it are not evaluated.\<close>

primrec new_msg :: "ktable \<Rightarrow> nat \<Rightarrow> CallArg list \<Rightarrow> string ev" where
  "new_msg r env [] = retE ''''"
| "new_msg r env (a # as) = bindE (evE r env (ca_Value a)) (\<lambda>v. case v of SStr t \<Rightarrow> retE t | _ \<Rightarrow> new_msg r env as)"

text \<open>An identifier that is a key of a map literal is the key's text.\<close>

definition map_key :: "ktable \<Rightarrow> nat \<Rightarrow> Expr \<Rightarrow> string ev" where
  "map_key r env k = (case k of IdentExpr x _ \<Rightarrow> retE x | _ \<Rightarrow> bindE (evE r env k) (stringify r))"

definition evalExpr :: "seams \<Rightarrow> ktable \<Rightarrow> nat \<Rightarrow> Expr \<Rightarrow> sval ev" where
  "evalExpr p r env e = (case e of
       NullLit _ \<Rightarrow> retE SNull
     | BoolLit b _ \<Rightarrow> retE (SBool b)
     | NumberLit t _ \<Rightarrow> (case Atoi t of None \<Rightarrow> errE (''pipeline.exec_script: bad number '' @ quoted t) | Some n \<Rightarrow> retE (SNum n))
     | StringLit t _ _ \<Rightarrow> retE (SStr t)
     | IdentExpr x pos \<Rightarrow> bindE (getE (\<lambda>s. lookup_env (henvs s) env x)) (\<lambda>found. case found of
           None \<Rightarrow> errE (''pipeline.exec_script: undefined identifier '' @ quoted x @ '' at '' @ Itoa (int (pos_Line pos)) @ '':'' @ Itoa (int (pos_Col pos)))
         | Some (_, v) \<Rightarrow> retE v)
     | ListExpr es _ \<Rightarrow> bindE (mapE (evE r env) es) newList
     | MapExpr ens _ \<Rightarrow> bindE (mapE (\<lambda>en. bindE (map_key r env (me_Key en)) (\<lambda>k. bindE (evE r env (me_Value en)) (\<lambda>v. retE (k, v)))) ens)
         (\<lambda>kvs. newMap (set_all [] kvs))
     | Closure c \<Rightarrow> retE (SClos (cl_Params c) (cl_Body c) env)
     | MemberExpr ob name _ \<Rightarrow> bindE (evE r env ob) (\<lambda>obj. memberAccess r obj name)
     | SubscriptExpr ob ix _ \<Rightarrow> bindE (evE r env ob) (\<lambda>obj. bindE (evE r env ix) (\<lambda>idx. subscriptGet r obj idx))
     | CallExpr f as c _ \<Rightarrow> bindE (evE r env f) (\<lambda>fn. bindE (collectCallArgs r env as c) (\<lambda>args. invokeCallable p r fn args))
     | CommandCallExpr f a _ \<Rightarrow> bindE (evE r env f) (\<lambda>fn. bindE (evE r env a) (\<lambda>arg. invokeCallable p r fn [arg]))
     | BinaryExpr opr l rh _ \<Rightarrow> evalBinary r env opr l rh
     | UnaryExpr opr x _ \<Rightarrow> bindE (evE r env x) (\<lambda>v.
         if opr = ''!'' then bindE (getE (\<lambda>s. truthy s v)) (\<lambda>b. retE (SBool (\<not> b)))
         else if opr = ''-'' then (case v of SNum n \<Rightarrow> retE (SNum (go_int (- n))) | _ \<Rightarrow> errE ''pipeline.exec_script: unary - on non-number'')
         else errE ''pipeline.exec_script: unsupported expression *pipeline.UnaryExpr'')
     | TernaryExpr c t f _ \<Rightarrow> bindE (evE r env c) (\<lambda>cv. bindE (getE (\<lambda>s. truthy s cv)) (\<lambda>b. if b then evE r env t else evE r env f))
     | NewExpr typ as _ \<Rightarrow> bindE (new_msg r env as) (\<lambda>msg. retE (SExcept typ msg))
     | AssignExpr target _ val _ \<Rightarrow> bindE (evE r env val) (\<lambda>v. seqE (assignTo r env target v) (retE v)))"

section \<open>Statements\<close>

text \<open>The body of a loop, run once: whether the loop goes on.\<close>

definition loop_body :: "ktable \<Rightarrow> nat \<Rightarrow> Stmt \<Rightarrow> bool ev" where
  "loop_body r env body = bindE (tryE (evS r env body)) (\<lambda>res. case res of
       Inr _ \<Rightarrow> retE True
     | Inl SigBr \<Rightarrow> retE False
     | Inl SigCont \<Rightarrow> retE True
     | Inl e \<Rightarrow> failE e)"

definition forEach_body :: "ktable \<Rightarrow> nat \<Rightarrow> string \<Rightarrow> Stmt \<Rightarrow> sval \<Rightarrow> bool ev" where
  "forEach_body r env x body item = bindE (newEnv (Some env)) (\<lambda>loopEnv. seqE (define_in loopEnv x item) (loop_body r loopEnv body))"

definition forEach :: "ktable \<Rightarrow> nat \<Rightarrow> sval \<Rightarrow> string \<Rightarrow> Stmt \<Rightarrow> unit ev" where
  "forEach r env iter x body = (case iter of
       SList a \<Rightarrow> bindE (readList a) (\<lambda>items. loopE (\<lambda>i. bindE (item_at a i) (forEach_body r env x body)) [0..<length items])
     | SMap a \<Rightarrow> bindE (readMap a) (\<lambda>m. loopE (forEach_body r env x body) (map (\<lambda>(k, v). SStr k) m))
     | v \<Rightarrow> errE (''pipeline.exec_script: for-in iter not iterable ('' @ goT v @ '')''))"

definition block_in :: "ktable \<Rightarrow> nat \<Rightarrow> Block \<Rightarrow> unit ev" where
  "block_in r env b = bindE (newEnv (Some env)) (\<lambda>child. evalBlock r child b)"

text \<open>A panic does not come back as an error: neither the catch clauses nor the \<^verbatim>\<open>finally\<close> of the script see it.\<close>

definition evalTry :: "ktable \<Rightarrow> nat \<Rightarrow> Block \<Rightarrow> CatchClause list \<Rightarrow> Block option \<Rightarrow> unit ev" where
  "evalTry r env body catches fin = bindE (tryE (block_in r env body)) (\<lambda>res. case res of
       Inl SPanic \<Rightarrow> failE SPanic
     | _ \<Rightarrow> bindE (case (res, catches) of
               (Inl (SigThrow v), cc # _) \<Rightarrow> tryE (bindE (newEnv (Some env)) (\<lambda>catchEnv.
                  seqE (define_in catchEnv (cc_ParamName cc) v) (evalBlock r catchEnv (cc_Body cc))))
             | _ \<Rightarrow> retE res) (\<lambda>bodyErr. case bodyErr of
         Inl SPanic \<Rightarrow> failE SPanic
       | _ \<Rightarrow> seqE (case fin of None \<Rightarrow> retE () | Some b \<Rightarrow> block_in r env b) (case bodyErr of Inl e \<Rightarrow> failE e | Inr _ \<Rightarrow> retE ())))"

definition evalStmt :: "ktable \<Rightarrow> nat \<Rightarrow> Stmt \<Rightarrow> unit ev" where
  "evalStmt r env st = (case st of
       VarDecl _ x init _ \<Rightarrow> bindE (case init of None \<Rightarrow> retE SNull | Some e \<Rightarrow> evE r env e) (define_in env x)
     | AssignStmt target _ val _ \<Rightarrow> bindE (evE r env val) (assignTo r env target)
     | ExprStmt e _ \<Rightarrow> seqE (evE r env e) (retE ())
     | ReturnStmt e _ \<Rightarrow> bindE (case e of None \<Rightarrow> retE SNull | Some x \<Rightarrow> evE r env x) (\<lambda>v. failE (SigRet v))
     | ThrowStmt e _ \<Rightarrow> bindE (evE r env e) (\<lambda>v. failE (SigThrow v))
     | BreakStmt _ \<Rightarrow> failE SigBr
     | ContinueStmt _ \<Rightarrow> failE SigCont
     | IfStmt c t f _ \<Rightarrow> bindE (evE r env c) (\<lambda>cv. bindE (getE (\<lambda>s. truthy s cv)) (\<lambda>b.
         if b then evS r env t else case f of None \<Rightarrow> retE () | Some st' \<Rightarrow> evS r env st'))
     | WhileStmt c body pos \<Rightarrow> bindE (evE r env c) (\<lambda>cv. bindE (getE (\<lambda>s. truthy s cv)) (\<lambda>b.
         if \<not> b then retE () else bindE (loop_body r env body) (\<lambda>go. if go then evS r env (WhileStmt c body pos) else retE ())))
     | ForInStmt x e body _ \<Rightarrow> bindE (evE r env e) (\<lambda>iter. forEach r env iter x body)
     | BlockStmt b _ \<Rightarrow> block_in r env b
     | FuncDecl x ps b _ _ \<Rightarrow> define_in env x (SClos ps b env)
     | TryStmt b catches fin _ \<Rightarrow> evalTry r env b catches fin
     | ForCStmt _ _ _ _ _ \<Rightarrow> errE ''pipeline.exec_script: unsupported statement *pipeline.ForCStmt'')"

section \<open>Closures\<close>

definition bind_param :: "nat \<Rightarrow> sval list \<Rightarrow> nat \<times> Param \<Rightarrow> bool ev" where
  "bind_param child args ip = (case ip of (i, q) \<Rightarrow>
     seqE (define_in child (param_Name q) (if i < length args then args ! i else SNull)) (retE True))"

primrec run_body :: "ktable \<Rightarrow> nat \<Rightarrow> Stmt list \<Rightarrow> sval ev" where
  "run_body r env [] = retE SNull"
| "run_body r env (st # sts) = (case (sts, st) of
     ([], ExprStmt e _) \<Rightarrow> evE r env e
   | _ \<Rightarrow> seqE (evS r env st) (run_body r env sts))"

definition invokeClosure :: "ktable \<Rightarrow> Param list \<Rightarrow> Block \<Rightarrow> nat \<Rightarrow> sval list \<Rightarrow> sval ev" where
  "invokeClosure r ps body env args = bindE (newEnv (Some env)) (\<lambda>child.
     seqE (if ps = [] \<and> length args = 1 then define_in child ''it'' (hd args)
           else loopE (bind_param child args) (enumerate 0 ps))
       (bindE (tryE (run_body r child (Statements body))) (\<lambda>res. case res of
          Inr v \<Rightarrow> retE v
        | Inl (SigRet v) \<Rightarrow> retE v
        | Inl e \<Rightarrow> failE e)))"

section \<open>Tying the knot\<close>

definition evalTask :: "seams \<Rightarrow> ktable \<Rightarrow> ktable" where
  "evalTask p r t = (case t of
       TE env e \<Rightarrow> evalExpr p r env e
     | TS env st \<Rightarrow> seqE (evalStmt r env st) (retE SNull)
     | TC ps b env args \<Rightarrow> invokeClosure r ps b env args
     | TStr v \<Rightarrow> bindE (stringify r v) (\<lambda>t. retE (SStr t))
     | TWalk src dst pats pth isdir \<Rightarrow> walk p r src dst pats pth isdir)"

primrec evalN :: "seams \<Rightarrow> nat \<Rightarrow> ktable" where
  "evalN p 0 = (\<lambda>t s. None)"
| "evalN p (Suc n) = evalTask p (evalN p n)"

section \<open>The entry point\<close>

definition type_names :: "string list" where
  "type_names = [''Exception'', ''RuntimeException'', ''Throwable'', ''Error'', ''Collection'', ''List'', ''ArrayList'', ''Iterable'', ''Map'',
     ''HashMap'', ''LinkedHashMap'', ''String'', ''CharSequence'', ''GString'', ''Number'', ''Integer'', ''Long'', ''Boolean'', ''Object'']"

definition native_globals :: "(string \<times> sval) list" where
  "native_globals = (''parallel'', SNative (NStep ''parallel'')) # map (\<lambda>n. (n, SStr n)) type_names
     @ map (\<lambda>n. (n, SNative (NStep n))) step_names"

definition registerCurrentBuild :: "seams \<Rightarrow> unit ev" where
  "registerCurrentBuild p = (case p_builds p of
       Some (Some info, _) \<Rightarrow> bindE (buildInfoToValue info) (define_in globals ''currentBuild'')
     | _ \<Rightarrow> retE ())"

definition registerInitialEnv :: "seams \<Rightarrow> unit ev" where
  "registerInitialEnv p = (if p_initialEnv p = [] then retE ()
     else seqE (modE (\<lambda>s. s\<lparr>envExtra := envExtra s @ map (\<lambda>(k, v). k @ ''='' @ v) (p_initialEnv p)\<rparr>))
       (bindE (stringMapToScript (p_initialEnv p)) (define_in globals ''env'')))"

text \<open>
  \<^verbatim>\<open>newScriptRuntime\<close>: the workspace is that of the executor when it is a \<^verbatim>\<open>*LocalExecutor\<close>. The zero value of a status is
  \<open>BuildPending\<close>.
\<close>

definition bare_runtime :: "nat \<Rightarrow> (nat \<times> path option) list \<Rightarrow> world \<Rightarrow> rt" where
  "bare_runtime exe ws w = \<lparr>executor = exe, echoBuf = [], lastExitCode = 0,
     workspace = (case map_of ws exe of None \<Rightarrow> None | Some d \<Rightarrow> d),
     catchForcedBuild = BuildPending, catchForcedStage = BuildPending, envExtra = [], masks = [], exec_ws = ws, dispatched = [],
     hlists = [], hmaps = [], henvs = [\<lparr>parent = None, vars = native_globals\<rparr>], rworld = w\<rparr>"

definition newScriptRuntime :: "seams \<Rightarrow> nat \<Rightarrow> (nat \<times> path option) list \<Rightarrow> world \<Rightarrow> rt" where
  "newScriptRuntime p exe ws w =
     (case seqE (registerCurrentBuild p) (registerInitialEnv p) (bare_runtime exe ws w) of Some (_, s) \<Rightarrow> s | None \<Rightarrow> bare_runtime exe ws w)"

definition evalScriptBlock :: "seams \<Rightarrow> nat \<Rightarrow> nat \<Rightarrow> (nat \<times> path option) list \<Rightarrow> world \<Rightarrow> Block \<Rightarrow> ((string \<times> serr option) \<times> rt) option" where
  "evalScriptBlock p n exe ws w b =
     (case block_in (evalN p n) globals b (newScriptRuntime p exe ws w) of
        None \<Rightarrow> None
      | Some (r, s) \<Rightarrow> Some ((outputString s, case r of Inl e \<Rightarrow> Some e | Inr _ \<Rightarrow> None), s))"

end
