(* ===== verification/EvalRules.thy ===== *)
theory EvalRules
  imports Interp
begin

text \<open>
  A contract for what holds across every evaluation of a script, whatever it returns and whatever error it ends with: an invariant of the
  runtime, a relation between the runtime before and after, and a condition on the values and scopes that are handed around. The locale
  \<open>eval_inv\<close> lists what the primitive steps have to guarantee; \<open>eval_calls\<close> adds the same of the recursive calls and
  proves it of every construct of the language and of every step. The theorems that use the contract are its interpretations, in the theory \<open>ScriptSafe\<close>.
\<close>

section \<open>References\<close>

text \<open>A value, a scope, a list that has at least so many items, and the mark of an address outside the heap.\<close>

datatype ref = RVal sval | REnv nat | RLen nat nat | RBad

definition in64 :: "int \<Rightarrow> bool" where "in64 n \<longleftrightarrow> min_int \<le> n \<and> n \<le> max_int"

lemma in64_go_int [simp]: "in64 (go_int n)"
  by (simp add: in64_def go_int_range)

text \<open>Values that hold no address.\<close>

fun plain :: "sval \<Rightarrow> bool" where
  "plain (SNum n) = in64 n"
| "plain (SList a) = False"
| "plain (SMap a) = False"
| "plain (SClos ps b e) = False"
| "plain (SNative (NListM m a)) = False"
| "plain (SNative (NNum m n)) = in64 n"
| "plain v = True"

fun err_refs :: "serr \<Rightarrow> ref set" where
  "err_refs (SigRet v) = {RVal v}"
| "err_refs (SigThrow v) = {RVal v}"
| "err_refs Dangling = {RBad}"
| "err_refs e = {}"

text \<open>\<open>gives G x\<close>: the condition for \<open>x\<close> follows from the condition for the members of \<open>G\<close>.\<close>

inductive gives :: "ref set \<Rightarrow> ref \<Rightarrow> bool" for G where
  mem: "x \<in> G \<Longrightarrow> gives G x"
| plain: "plain v \<Longrightarrow> gives G (RVal v)"
| clos: "REnv e \<in> G \<Longrightarrow> gives G (RVal (SClos ps b e))"
| clos_sibling: "RVal (SClos ps b e) \<in> G \<Longrightarrow> gives G (RVal (SClos ps' b' e))"
| clos_root: "gives G (RVal (SClos ps b globals))"
| env: "RVal (SClos ps b e) \<in> G \<Longrightarrow> gives G (REnv e)"
| list_native: "RVal (SList a) \<in> G \<Longrightarrow> gives G (RVal (SNative (NListM m a)))"
| sibling: "RVal (SNative (NListM m a)) \<in> G \<Longrightarrow> gives G (RVal (SNative (NListM m' a)))"
| receiver: "RVal (SNative (NListM m a)) \<in> G \<Longrightarrow> gives G (RVal (SList a))"
| number: "RVal (SNative (NNum m n)) \<in> G \<Longrightarrow> gives G (RVal (SNum n))"
| root: "gives G (REnv globals)"

fun task_refs :: "task \<Rightarrow> ref set" where
  "task_refs (TE env e) = {REnv env}"
| "task_refs (TS env st) = {REnv env}"
| "task_refs (TC ps b env args) = insert (REnv env) (RVal ` set args)"
| "task_refs (TStr v) = {RVal v}"
| "task_refs (TWalk a b c d e) = {}"

fun outcome :: "('a \<Rightarrow> ref set) \<Rightarrow> serr + 'a \<Rightarrow> ref set" where
  "outcome F (Inl e) = err_refs e"
| "outcome F (Inr y) = F y"

definition keeps :: "(rt \<Rightarrow> bool) \<Rightarrow> (rt \<Rightarrow> rt \<Rightarrow> bool) \<Rightarrow> (rt \<Rightarrow> ref \<Rightarrow> bool) \<Rightarrow> ref set \<Rightarrow> 'a ev \<Rightarrow> ('a \<Rightarrow> ref set) \<Rightarrow> bool" where
  "keeps I R V G m F \<longleftrightarrow> (\<forall>s x s'. I s \<longrightarrow> (\<forall>g \<in> G. V s g) \<longrightarrow> m s = Some (x, s') \<longrightarrow>
     I s' \<and> R s s' \<and> (\<forall>g \<in> outcome F x. V s' g))"

definition same_heap :: "rt \<Rightarrow> rt \<Rightarrow> bool" where
  "same_heap s s' \<longleftrightarrow> hlists s' = hlists s \<and> hmaps s' = hmaps s \<and> henvs s' = henvs s"

section \<open>The contract of the primitive steps\<close>

locale eval_inv =
  fixes I :: "rt \<Rightarrow> bool" and R :: "rt \<Rightarrow> rt \<Rightarrow> bool" and V :: "rt \<Rightarrow> ref \<Rightarrow> bool"
  assumes R_refl: "R s s"
    and R_trans: "R s t \<Longrightarrow> R t u \<Longrightarrow> R s u"
    and V_R: "V s g \<Longrightarrow> R s t \<Longrightarrow> V t g"
    and V_heap: "same_heap s t \<Longrightarrow> V s g \<Longrightarrow> V t g"
    and V_gives: "I s \<Longrightarrow> \<forall>h \<in> G. V s h \<Longrightarrow> gives G g \<Longrightarrow> V s g"
    and list_items: "I s \<Longrightarrow> V s (RVal (SList a)) \<Longrightarrow> if a < length (hlists s) then \<forall>v \<in> set (hlists s ! a). V s (RVal v) else V s RBad"
    and list_len: "I s \<Longrightarrow> V s (RVal (SList a)) \<Longrightarrow> a < length (hlists s) \<Longrightarrow> V s (RLen a (length (hlists s ! a)))"
      "I s \<Longrightarrow> V s (RLen a n) \<Longrightarrow> a < length (hlists s) \<and> n \<le> length (hlists s ! a) \<or> V s RBad"
    and map_items: "I s \<Longrightarrow> V s (RVal (SMap a)) \<Longrightarrow> if a < length (hmaps s) then \<forall>(k, v) \<in> set (hmaps s ! a). V s (RVal v) else V s RBad"
    and env_items: "I s \<Longrightarrow> V s (REnv e) \<Longrightarrow> if e < length (henvs s) then \<forall>(k, v) \<in> set (vars (henvs s ! e)). V s (RVal v) else V s RBad"
    and env_lookup: "I s \<Longrightarrow> V s (REnv e) \<Longrightarrow> lookup_env (henvs s) e x = Some (e', v) \<Longrightarrow> V s (REnv e') \<and> V s (RVal v)"
    and env_root: "I s \<Longrightarrow> V s (REnv e) \<Longrightarrow> V s (REnv (root_env (henvs s) e))"
    and new_list: "I s \<Longrightarrow> \<forall>v \<in> set items. V s (RVal v) \<Longrightarrow> t = s\<lparr>hlists := hlists s @ [items]\<rparr>
      \<Longrightarrow> I t \<and> R s t \<and> V t (RVal (SList (length (hlists s))))"
    and new_map: "I s \<Longrightarrow> \<forall>(k, v) \<in> set kvs. V s (RVal v) \<Longrightarrow> t = s\<lparr>hmaps := hmaps s @ [kvs]\<rparr>
      \<Longrightarrow> I t \<and> R s t \<and> V t (RVal (SMap (length (hmaps s))))"
    and new_env: "I s \<Longrightarrow> V s (REnv q) \<Longrightarrow> t = s\<lparr>henvs := henvs s @ [\<lparr>parent = Some q, vars = []\<rparr>]\<rparr>
      \<Longrightarrow> I t \<and> R s t \<and> V t (REnv (length (henvs s)))"
    and set_list: "I s \<Longrightarrow> V s (RVal (SList a)) \<Longrightarrow> V s (RVal v) \<Longrightarrow> a < length (hlists s) \<Longrightarrow> i < length (hlists s ! a)
      \<Longrightarrow> t = s\<lparr>hlists := (hlists s)[a := (hlists s ! a)[i := v]]\<rparr> \<Longrightarrow> I t \<and> R s t"
    and set_map: "I s \<Longrightarrow> V s (RVal (SMap a)) \<Longrightarrow> V s (RVal v) \<Longrightarrow> a < length (hmaps s)
      \<Longrightarrow> t = s\<lparr>hmaps := (hmaps s)[a := AList.update k v (hmaps s ! a)]\<rparr> \<Longrightarrow> I t \<and> R s t"
    and set_env: "I s \<Longrightarrow> V s (REnv e) \<Longrightarrow> V s (RVal v) \<Longrightarrow> e < length (henvs s)
      \<Longrightarrow> t = s\<lparr>henvs := (henvs s)[e := (henvs s ! e)\<lparr>vars := AList.update x v (vars (henvs s ! e))\<rparr>]\<rparr> \<Longrightarrow> I t \<and> R s t"
    and echo: "I s \<Longrightarrow> I (appendEcho msg s) \<and> R s (appendEcho msg s)"
    and exit_code: "I s \<Longrightarrow> I (s\<lparr>lastExitCode := code\<rparr>) \<and> R s (s\<lparr>lastExitCode := code\<rparr>)"
    and world_step: "I s \<Longrightarrow> I (s\<lparr>rworld := w\<rparr>) \<and> R s (s\<lparr>rworld := w\<rparr>)"
    and dispatch: "I s \<Longrightarrow> t = s\<lparr>dispatched := dispatched s @ [job]\<rparr> \<Longrightarrow> I t \<and> R s t"
    and verdict: "I s \<Longrightarrow> I (applyCatchForced b st s) \<and> R s (applyCatchForced b st s)"
    and push: "I s \<Longrightarrow> I (pushSecrets env ms s)"
    and pop: "I s \<Longrightarrow> I t \<Longrightarrow> R (pushSecrets env ms s) t \<Longrightarrow> u = popSecrets (length (envExtra s), length (masks s)) t \<Longrightarrow> I u \<and> R s u"
    and enter: "I s \<Longrightarrow> I (enter_dir d s)"
    and leave: "I s \<Longrightarrow> I t \<Longrightarrow> R (enter_dir d s) t \<Longrightarrow> u = leave_dir (workspace s) (executor s) (map_of (exec_ws s) (executor s)) t \<Longrightarrow> I u \<and> R s u"
    and switch: "I s \<Longrightarrow> I (s\<lparr>executor := n\<rparr>)"
    and switch_back: "I s \<Longrightarrow> I t \<Longrightarrow> R (s\<lparr>executor := n\<rparr>) t \<Longrightarrow> u = t\<lparr>executor := executor s\<rparr> \<Longrightarrow> I u \<and> R s u"
begin

abbreviation "ok \<equiv> keeps I R V"

named_theorems ok_intros \<open>computations that keep the contract\<close>

lemma okI:
  assumes "\<And>s x s'. I s \<Longrightarrow> (\<And>g. gives G g \<Longrightarrow> V s g) \<Longrightarrow> m s = Some (x, s') \<Longrightarrow>
     I s' \<and> R s s' \<and> (\<forall>g \<in> outcome F x. V s' g)"
  shows "ok G m F"
  unfolding keeps_def using assms V_gives by blast

lemma okD:
  assumes "ok G m F" "I s" "\<forall>g \<in> G. V s g" "m s = Some (x, s')"
  shows "I s'" "R s s'" "\<forall>g \<in> outcome F x. V s' g"
  using assms unfolding keeps_def by blast+

lemma ok_ret [ok_intros]: "\<forall>g \<in> F x. gives G g \<Longrightarrow> ok G (retE x) F"
  by (rule okI) (auto simp: retE_def R_refl)

lemma ok_fail [ok_intros]: "\<forall>g \<in> err_refs e. gives G g \<Longrightarrow> ok G (failE e) F"
  by (rule okI) (auto simp: failE_def R_refl)

lemma ok_bind:
  assumes "ok G m F" "\<And>x. ok (G \<union> F x) (f x) F'"
  shows "ok G (bindE m f) F'"
proof (rule okI)
  fix s x s'
  assume s: "I s" "\<And>g. gives G g \<Longrightarrow> V s g" "bindE m f s = Some (x, s')"
  then obtain y t where m: "m s = Some (y, t)" by (auto simp: bindE_def split: option.splits)
  have s2: "\<forall>g \<in> G. V s g" using s(2) gives.mem by blast
  note t = okD [OF assms(1) s(1) s2 m]
  show "I s' \<and> R s s' \<and> (\<forall>g \<in> outcome F' x. V s' g)"
  proof (cases y)
    case (Inl e)
    with s(3) m t show ?thesis by (auto simp: bindE_def)
  next
    case (Inr z)
    then have f: "f z t = Some (x, s')" using s(3) m by (simp add: bindE_def)
    have "\<forall>g \<in> G \<union> F z. V t g" using t(2,3) s2 V_R Inr by auto
    from okD [OF assms(2) t(1) this f] t(2) R_trans show ?thesis by blast
  qed
qed

lemma ok_seq: "ok G m F \<Longrightarrow> ok G k F' \<Longrightarrow> ok G (seqE m k) F'"
proof -
  assume a: "ok G m F" "ok G k F'"
  have "ok (G \<union> F x) k F'" for x using a(2) unfolding keeps_def by blast
  with a(1) show ?thesis unfolding seqE_def by (rule ok_bind)
qed

lemma ok_weaken:
  assumes "ok G m F" "\<forall>g \<in> G. gives G' g"
  shows "ok G' m F"
proof (rule okI)
  fix s x s'
  assume s: "I s" "\<And>g. gives G' g \<Longrightarrow> V s g" "m s = Some (x, s')"
  then have "\<forall>g \<in> G. V s g" using assms(2) by blast
  with okD [OF assms(1) s(1) _ s(3)] show "I s' \<and> R s s' \<and> (\<forall>g \<in> outcome F x. V s' g)" by blast
qed

lemma ok_result:
  assumes "ok G m F" "\<And>x. F' x \<subseteq> F x"
  shows "ok G m F'"
proof -
  have "outcome F' x \<subseteq> outcome F x" for x using assms(2) by (cases x) auto
  with assms(1) show ?thesis unfolding keeps_def by blast
qed

lemma ok_try:
  assumes "ok G m F"
  shows "ok G (tryE m) (outcome F)"
proof (rule okI)
  fix s x s'
  assume s: "I s" "\<And>g. gives G g \<Longrightarrow> V s g" "tryE m s = Some (x, s')"
  then obtain y where y: "m s = Some (y, s')" "x = Inr y" by (auto simp: tryE_def split: option.splits)
  have "\<forall>g \<in> G. V s g" using s(2) gives.mem by blast
  from okD [OF assms s(1) this y(1)] y(2) show "I s' \<and> R s s' \<and> (\<forall>g \<in> outcome (outcome F) x. V s' g)" by simp
qed

lemma ok_get [ok_intros]: "(\<And>s. I s \<Longrightarrow> (\<And>g. gives G g \<Longrightarrow> V s g) \<Longrightarrow> \<forall>g \<in> F (f s). V s g) \<Longrightarrow> ok G (getE f) F"
  by (rule okI) (auto simp: getE_def R_refl)

lemma ok_mod: "(\<And>s. I s \<Longrightarrow> I (f s) \<and> R s (f s)) \<Longrightarrow> ok G (modE f) (\<lambda>_. {})"
  by (rule okI) (auto simp: modE_def)

lemma ok_mapE:
  assumes "\<And>x. x \<in> set xs \<Longrightarrow> ok G (f x) F"
  shows "ok G (mapE f xs) (\<lambda>ys. \<Union> (F ` set ys))"
  using assms
proof (induction xs)
  case Nil
  show ?case by (simp add: ok_ret)
next
  case (Cons x xs)
  have IH: "ok (G \<union> F y) (mapE f xs) (\<lambda>ys. \<Union> (F ` set ys))" for y
    by (rule ok_weaken [OF Cons.IH]) (auto intro: Cons.prems gives.mem)
  show ?case by (simp, rule ok_bind [OF Cons.prems], simp, rule ok_bind [OF IH], rule ok_ret) (auto intro: gives.mem)
qed

lemma ok_loopE:
  assumes "\<And>x. x \<in> set xs \<Longrightarrow> ok G (f x) (\<lambda>_. {})"
  shows "ok G (loopE f xs) (\<lambda>_. {})"
  using assms
proof (induction xs)
  case (Cons x xs)
  have "ok G (loopE f xs) (\<lambda>_. {})" by (rule Cons.IH) (auto intro: Cons.prems)
  then show ?case by (simp, intro ok_bind [OF Cons.prems]) (auto intro: ok_ret)
qed (simp add: ok_ret)

lemma ok_readList [ok_intros]:
  assumes "gives G (RVal (SList a))"
  shows "ok G (readList a) (\<lambda>xs. RVal ` set xs)"
proof (rule okI)
  fix s x s'
  assume s: "I s" "\<And>g. gives G g \<Longrightarrow> V s g" "readList a s = Some (x, s')"
  from list_items [OF s(1) s(2) [OF assms]] s(1,3)
  show "I s' \<and> R s s' \<and> (\<forall>g \<in> outcome (\<lambda>y. RVal ` set y) x. V s' g)"
    by (auto simp: readList_def R_refl split: if_splits)
qed

lemma ok_readLen:
  assumes "gives G (RVal (SList a))"
  shows "ok G (readList a) (\<lambda>xs. {RLen a (length xs)})"
proof (rule okI)
  fix s x s'
  assume s: "I s" "\<And>g. gives G g \<Longrightarrow> V s g" "readList a s = Some (x, s')"
  from list_items [OF s(1) s(2) [OF assms]] list_len(1) [OF s(1) s(2) [OF assms]] s(1,3)
  show "I s' \<and> R s s' \<and> (\<forall>g \<in> outcome (\<lambda>xs. {RLen a (length xs)}) x. V s' g)"
    by (auto simp: readList_def R_refl split: if_splits)
qed

lemma ok_readMap [ok_intros]:
  assumes "gives G (RVal (SMap a))"
  shows "ok G (readMap a) (\<lambda>m. RVal ` snd ` set m)"
proof (rule okI)
  fix s x s'
  assume s: "I s" "\<And>g. gives G g \<Longrightarrow> V s g" "readMap a s = Some (x, s')"
  from map_items [OF s(1) s(2) [OF assms]] s(1,3)
  show "I s' \<and> R s s' \<and> (\<forall>g \<in> outcome (\<lambda>y. RVal ` snd ` set y) x. V s' g)"
    by (fastforce simp: readMap_def R_refl split: if_splits)
qed

lemma ok_newList [ok_intros]:
  assumes "\<forall>v \<in> set items. gives G (RVal v)"
  shows "ok G (newList items) (\<lambda>v. {RVal v})"
proof (rule okI)
  fix s x s'
  assume s: "I s" "\<And>g. gives G g \<Longrightarrow> V s g" "newList items s = Some (x, s')"
  from new_list [OF s(1) _ refl, of items] s(2,3) assms
  show "I s' \<and> R s s' \<and> (\<forall>g \<in> outcome (\<lambda>y. {RVal y}) x. V s' g)"
    by (auto simp: newList_def)
qed

lemma ok_allocMap:
  assumes "\<forall>(k, v) \<in> set kvs. gives G (RVal v)"
  shows "ok G (allocMap kvs) (\<lambda>a. {RVal (SMap a)})"
proof (rule okI)
  fix s x s'
  assume s: "I s" "\<And>g. gives G g \<Longrightarrow> V s g" "allocMap kvs s = Some (x, s')"
  then have "\<forall>(k, v) \<in> set kvs. V s (RVal v)" using assms by auto
  from new_map [OF s(1) this refl] s(3)
  show "I s' \<and> R s s' \<and> (\<forall>g \<in> outcome (\<lambda>a. {RVal (SMap a)}) x. V s' g)"
    by (auto simp: allocMap_def)
qed

lemma ok_newMap [ok_intros]: "\<forall>(k, v) \<in> set kvs. gives G (RVal v) \<Longrightarrow> ok G (newMap kvs) (\<lambda>v. {RVal v})"
  unfolding newMap_def by (rule ok_bind [OF ok_allocMap]) (auto intro: ok_ret gives.mem)

lemma ok_newEnv [ok_intros]:
  assumes "gives G (REnv q)"
  shows "ok G (newEnv (Some q)) (\<lambda>e. {REnv e})"
proof (rule okI)
  fix s x s'
  assume s: "I s" "\<And>g. gives G g \<Longrightarrow> V s g" "newEnv (Some q) s = Some (x, s')"
  from new_env [OF s(1) s(2) [OF assms] refl] s(3)
  show "I s' \<and> R s s' \<and> (\<forall>g \<in> outcome (\<lambda>y. {REnv y}) x. V s' g)"
    by (auto simp: newEnv_def)
qed

lemma ok_mapSet [ok_intros]:
  assumes "gives G (RVal (SMap a))" "gives G (RVal v)"
  shows "ok G (mapSet a k v) (\<lambda>_. {})"
proof (rule okI)
  fix s x s'
  assume s: "I s" "\<And>g. gives G g \<Longrightarrow> V s g" "mapSet a k v s = Some (x, s')"
  from set_map [OF s(1) s(2) [OF assms(1)] s(2) [OF assms(2)] _ refl, of k] map_items [OF s(1) s(2) [OF assms(1)]] s(1,3)
  show "I s' \<and> R s s' \<and> (\<forall>g \<in> outcome (\<lambda>y. {}) x. V s' g)"
    by (auto simp: mapSet_def R_refl split: if_splits)
qed

lemma ok_define_in [ok_intros]:
  assumes "gives G (REnv e)" "gives G (RVal v)"
  shows "ok G (define_in e y v) (\<lambda>_. {})"
proof (rule okI)
  fix s x s'
  assume s: "I s" "\<And>g. gives G g \<Longrightarrow> V s g" "define_in e y v s = Some (x, s')"
  from set_env [OF s(1) s(2) [OF assms(1)] s(2) [OF assms(2)] _ refl, of y] env_items [OF s(1) s(2) [OF assms(1)]] s(1,3)
  show "I s' \<and> R s s' \<and> (\<forall>g \<in> outcome (\<lambda>y. {}) x. V s' g)"
    by (auto simp: define_in_def R_refl split: if_splits)
qed

lemma ok_assign_var [ok_intros]:
  assumes "gives G (REnv e)" "gives G (RVal v)"
  shows "ok G (assign_var e y v) (\<lambda>_. {})"
proof (rule okI)
  fix s x s'
  assume s: "I s" "\<And>g. gives G g \<Longrightarrow> V s g" "assign_var e y v s = Some (x, s')"
  have dok: "ok {REnv d, RVal v} (define_in d y v) (\<lambda>_. {})" for d by (rule ok_define_in) (auto intro: gives.mem)
  have go: "V s (REnv d) \<Longrightarrow> define_in d y v s = Some (x, s') \<Longrightarrow> I s' \<and> R s s' \<and> (\<forall>g \<in> outcome (\<lambda>y. {}) x. V s' g)" for d
    using okD [OF dok s(1)] s(2) [OF assms(2)] by (metis insert_iff singletonD)
  show "I s' \<and> R s s' \<and> (\<forall>g \<in> outcome (\<lambda>y. {}) x. V s' g)"
  proof (cases "lookup_env (henvs s) e y")
    case None
    then have "define_in (root_env (henvs s) e) y v s = Some (x, s')" using s(3) by (simp add: assign_var_def)
    with env_root [OF s(1) s(2) [OF assms(1)]] show ?thesis by (rule go)
  next
    case (Some dv)
    then obtain d v' where d: "lookup_env (henvs s) e y = Some (d, v')" by (cases dv) auto
    then have "define_in d y v s = Some (x, s')" using s(3) by (simp add: assign_var_def)
    from go [OF conjunct1 [OF env_lookup [OF s(1) s(2) [OF assms(1)] d]] this] show ?thesis .
  qed
qed

lemma ok_listSet:
  assumes "gives G (RVal (SList a))" "gives G (RVal v)"
  shows "ok G (bindE (readList a) (\<lambda>items. if i < 0 \<or> i \<ge> int (length items) then errE m else listSet a (nat i) v)) (\<lambda>_. {})"
    (is "ok G ?m _")
proof (rule okI)
  fix s x s'
  assume s: "I s" "\<And>g. gives G g \<Longrightarrow> V s g" "?m s = Some (x, s')"
  have v: "V s (RVal (SList a))" "V s (RVal v)" using s(2) assms by blast+
  show "I s' \<and> R s s' \<and> (\<forall>g \<in> outcome (\<lambda>y. {}) x. V s' g)"
  proof (cases "a < length (hlists s)")
    case True
    show ?thesis
    proof (cases "i < 0 \<or> i \<ge> int (length (hlists s ! a))")
      case out: True
      then have "x = Inl (Err (Msg m)) \<and> s' = s" using s(3) True by (simp add: readList_def bindE_def errE_def failE_def)
      then show ?thesis using s(1) R_refl by simp
    next
      case False
      then have i: "nat i < length (hlists s ! a)" by auto
      then have "x = Inr () \<and> s' = s\<lparr>hlists := (hlists s)[a := (hlists s ! a)[nat i := v]]\<rparr>"
        using s(3) True False by (simp add: readList_def bindE_def listSet_def)
      then show ?thesis using set_list [OF s(1) v True i refl] by simp
    qed
  next
    case False
    then have "x = Inl Dangling \<and> s' = s" using s(3) by (simp add: readList_def bindE_def)
    then show ?thesis using list_items [OF s(1) v(1)] False s(1) R_refl by simp
  qed
qed

end

end
