(* ===== verification/EvalCalls.thy ===== *)
theory EvalCalls
  imports EvalRules
begin

text \<open>
  The contract of the primitive steps carried through every construct of the language and every step of the library, one lemma per
  definition, then through the tied evaluator: \<open>evalN_ok\<close>.
\<close>

lemma gives_plain [simp]:
  "gives G (RVal SNull)" "gives G (RVal (SBool b))" "gives G (RVal (SStr t))" "gives G (RVal (SExcept typ msg))"
  "gives G (RVal (SNum (go_int n)))" "gives G (REnv globals)" "gives G (RVal (SNative (NStep nm)))" "gives G (RVal (SNative (NStrM nm t)))"
  "gives G (RVal (SNative (NText nm t)))" "gives G (RVal (SNative (NBool nm b)))" "gives G (RVal (SNative (NVars nm kvs)))"
  "gives G (RVal (SNative (NPrev nm k)))" "gives G (RVal (SNative (NNum nm (go_int n))))"
  by (auto intro: gives.plain gives.root)

lemma gives_mono: "gives G g \<Longrightarrow> G \<subseteq> H \<Longrightarrow> gives H g"
  by (erule gives.cases) (auto intro: gives.intros)

lemma gives_Un: "gives G g \<Longrightarrow> gives (G \<union> H) g"
  by (erule gives_mono) simp

lemma gives_insert: "gives G g \<Longrightarrow> gives (insert h G) g"
  by (erule gives_mono) auto

lemma gives_closure: "gives G (REnv e) \<Longrightarrow> gives G (RVal (SClos ps b e))"
  by (erule gives.cases) (auto intro: gives.intros)

lemmas gives_weak = gives_Un gives_insert gives.mem

lemma plain_cases [simp]: "in64 n \<Longrightarrow> gives G (RVal (SNum n))"
  by (auto intro: gives.plain)

lemma Atoi_in64: "Atoi t = Some n \<Longrightarrow> in64 n"
  by (auto simp: Atoi_def in64_def Let_def split: if_splits prod.splits list.splits)

context eval_inv
begin

lemma ok_err [ok_intros]: "ok G (errE m) F"
  by (simp add: errE_def ok_fail)

lemma ok_Err [ok_intros]: "ok G (failE (Err e)) F"
  by (simp add: ok_fail)

lemma ok_throw [ok_intros]: "ok G (throw typ msg) F"
  by (simp add: throw_def ok_fail)

lemma ok_if [ok_intros]: "(c \<Longrightarrow> ok G a F) \<Longrightarrow> (\<not> c \<Longrightarrow> ok G b F) \<Longrightarrow> ok G (if c then a else b) F"
  by simp

lemma ok_let [ok_intros]: "(\<And>x. x = t \<Longrightarrow> ok G (f x) F) \<Longrightarrow> ok G (Let t f) F"
  by simp

lemma ok_prod [ok_intros]: "(\<And>a b. x = (a, b) \<Longrightarrow> ok G (f a b) F) \<Longrightarrow> ok G (case x of (a, b) \<Rightarrow> f a b) F"
  by (cases x) simp

lemma ok_option [ok_intros]: "(x = None \<Longrightarrow> ok G a F) \<Longrightarrow> (\<And>y. x = Some y \<Longrightarrow> ok G (f y) F) \<Longrightarrow> ok G (case x of None \<Rightarrow> a | Some y \<Rightarrow> f y) F"
  by (cases x) auto

lemma ok_sum [ok_intros]: "(\<And>e. x = Inl e \<Longrightarrow> ok G (a e) F) \<Longrightarrow> (\<And>y. x = Inr y \<Longrightarrow> ok G (f y) F) \<Longrightarrow> ok G (case x of Inl e \<Rightarrow> a e | Inr y \<Rightarrow> f y) F"
  by (cases x) auto

lemma ok_list [ok_intros]: "(x = [] \<Longrightarrow> ok G a F) \<Longrightarrow> (\<And>y ys. x = y # ys \<Longrightarrow> ok G (f y ys) F) \<Longrightarrow> ok G (case x of [] \<Rightarrow> a | y # ys \<Rightarrow> f y ys) F"
  by (cases x) auto

lemma ok_sval [ok_intros]:
  assumes "v = SNull \<Longrightarrow> ok G f1 F" "\<And>b. v = SBool b \<Longrightarrow> ok G (f2 b) F" "\<And>n. v = SNum n \<Longrightarrow> ok G (f3 n) F"
    "\<And>t. v = SStr t \<Longrightarrow> ok G (f4 t) F" "\<And>a. v = SList a \<Longrightarrow> ok G (f5 a) F" "\<And>a. v = SMap a \<Longrightarrow> ok G (f6 a) F"
    "\<And>ps b e. v = SClos ps b e \<Longrightarrow> ok G (f7 ps b e) F" "\<And>f. v = SNative f \<Longrightarrow> ok G (f8 f) F" "\<And>t m. v = SExcept t m \<Longrightarrow> ok G (f9 t m) F"
  shows "ok G (case_sval f1 f2 f3 f4 f5 f6 f7 f8 f9 v) F"
  using assms by (cases v) auto

lemma ok_serr [ok_intros]:
  assumes "\<And>v. e = SigRet v \<Longrightarrow> ok G (f1 v) F" "e = SigBr \<Longrightarrow> ok G f2 F" "e = SigCont \<Longrightarrow> ok G f3 F"
    "\<And>v. e = SigThrow v \<Longrightarrow> ok G (f4 v) F" "\<And>g. e = Err g \<Longrightarrow> ok G (f5 g) F" "e = SPanic \<Longrightarrow> ok G f6 F" "e = Dangling \<Longrightarrow> ok G f7 F"
  shows "ok G (case_serr f1 f2 f3 f4 f5 f6 f7 e) F"
  using assms by (cases e) auto

lemma ok_child [ok_intros]:
  assumes "\<And>a b c. e = ChildBuildResult a b c \<Longrightarrow> ok G (f1 a b c) F" "e = ChanClosed \<Longrightarrow> ok G f2 F" "\<And>g. e = CtxDone g \<Longrightarrow> ok G (f3 g) F"
  shows "ok G (case_child_end f1 f2 f3 e) F"
  using assms by (cases e) auto

lemma ok_node [ok_intros]: "(\<And>t. n = DirN t \<Longrightarrow> ok G (f1 t) F) \<Longrightarrow> (\<And>b t. n = FileN b t \<Longrightarrow> ok G (f2 b t) F) \<Longrightarrow> ok G (case_node f1 f2 n) F"
  by (cases n) auto

lemma ok_lift [ok_intros]: "ok G (liftE m) (\<lambda>_. {})"
  by (rule okI) (auto simp: liftE_def split: prod.splits sum.splits dest: world_step)

lemma ok_io [ok_intros]: "ok G (ioE what m) (\<lambda>_. {})"
  by (simp add: ioE_def ok_lift)

lemma ok_bind_plain: "ok G m (\<lambda>_. {}) \<Longrightarrow> (\<And>x. ok G (f x) F) \<Longrightarrow> ok G (bindE m f) F"
  by (rule ok_bind [where F = "\<lambda>_. {}"]) auto

lemma ok_bind_get: "(\<And>x. ok G (f x) F) \<Longrightarrow> ok G (bindE (getE h) f) F"
  by (rule ok_bind_plain [OF ok_get]) auto

lemma ok_seq_mod: "(\<And>s. I s \<Longrightarrow> I (h s) \<and> R s (h s)) \<Longrightarrow> ok G k F \<Longrightarrow> ok G (seqE (modE h) k) F"
  by (rule ok_seq [OF ok_mod])

lemma ok_mapE_plain: "(\<And>x. x \<in> set xs \<Longrightarrow> ok G (f x) (\<lambda>_. {})) \<Longrightarrow> ok G (mapE f xs) (\<lambda>_. {})"
  by (rule ok_result [OF ok_mapE [where F = "\<lambda>_. {}"]]) auto

lemmas ok_splits = ok_if ok_let ok_prod ok_option ok_sum ok_list ok_sval ok_serr ok_child ok_node

lemmas ok_ends = ok_err ok_Err ok_throw ok_ret

lemmas ok_binds = ok_bind [OF ok_readMap] ok_bind [OF ok_readList] ok_bind [OF ok_newEnv] ok_bind_plain [OF ok_io] ok_seq [OF ok_io]
  ok_bind_plain [OF ok_lift] ok_seq [OF ok_lift] ok_bind_get ok_seq_mod ok_seq [OF ok_define_in] ok_bind [OF ok_newMap]

lemma ok_wrapE: "ok G m F \<Longrightarrow> ok G (wrapE what m) F"
  unfolding wrapE_def
  by (rule ok_bind [OF ok_try], assumption, intro ok_intros) (auto simp: wrap_err_def gives.mem split: serr.split)

lemma ok_secrets:
  assumes "ok G m F"
  shows "ok G (with_secrets env ms m) F"
proof (rule okI)
  fix s x s'
  assume s: "I s" "\<And>g. gives G g \<Longrightarrow> V s g" "with_secrets env ms m s = Some (x, s')"
  then obtain t where t: "m (pushSecrets env ms s) = Some (x, t)" "s' = popSecrets (length (envExtra s), length (masks s)) t"
    by (auto simp: with_secrets_def deferE_def split: option.splits)
  have "\<forall>g \<in> G. V (pushSecrets env ms s) g"
    using s(2) gives.mem V_heap [of s "pushSecrets env ms s"] by (auto simp: same_heap_def pushSecrets_def)
  note t' = okD [OF assms push [OF s(1)] this t(1)]
  have "\<forall>g \<in> outcome F x. V s' g" using t'(3) V_heap [of t s'] t(2) by (auto simp: same_heap_def popSecrets_def)
  with pop [OF s(1) t'(1,2) t(2)] show "I s' \<and> R s s' \<and> (\<forall>g \<in> outcome F x. V s' g)" by blast
qed

lemma ok_in_dir:
  assumes "ok G m F"
  shows "ok G (in_dir d m) F"
proof (rule okI)
  fix s x s'
  assume s: "I s" "\<And>g. gives G g \<Longrightarrow> V s g" "in_dir d m s = Some (x, s')"
  then obtain t where t: "m (enter_dir d s) = Some (x, t)" "s' = leave_dir (workspace s) (executor s) (map_of (exec_ws s) (executor s)) t"
    by (auto simp: in_dir_def deferE_def split: option.splits)
  have "\<forall>g \<in> G. V (enter_dir d s) g"
    using s(2) gives.mem V_heap [of s "enter_dir d s"] by (auto simp: same_heap_def enter_dir_def)
  note t' = okD [OF assms enter [OF s(1)] this t(1)]
  have "\<forall>g \<in> outcome F x. V s' g" using t'(3) V_heap [of t s'] t(2) by (auto simp: same_heap_def leave_dir_def)
  with leave [OF s(1) t'(1,2) t(2)] show "I s' \<and> R s s' \<and> (\<forall>g \<in> outcome F x. V s' g)" by blast
qed

lemma ok_on_executor:
  assumes "ok G m F"
  shows "ok G (on_executor n m) F"
proof (rule okI)
  fix s x s'
  assume s: "I s" "\<And>g. gives G g \<Longrightarrow> V s g" "on_executor n m s = Some (x, s')"
  then obtain t where t: "m (s\<lparr>executor := n\<rparr>) = Some (x, t)" "s' = t\<lparr>executor := executor s\<rparr>"
    by (auto simp: on_executor_def deferE_def split: option.splits)
  have "\<forall>g \<in> G. V (s\<lparr>executor := n\<rparr>) g"
    using s(2) gives.mem V_heap [of s "s\<lparr>executor := n\<rparr>"] by (auto simp: same_heap_def)
  note t' = okD [OF assms switch [OF s(1)] this t(1)]
  have "\<forall>g \<in> outcome F x. V s' g" using t'(3) V_heap [of t s'] t(2) by (auto simp: same_heap_def)
  with switch_back [OF s(1) t'(1,2) t(2)] show "I s' \<and> R s s' \<and> (\<forall>g \<in> outcome F x. V s' g)" by blast
qed

end

section \<open>Every construct\<close>

locale eval_calls = eval_inv +
  fixes r :: ktable
  assumes r_ok: "keeps I R V (task_refs t) (r t) (\<lambda>v. {RVal v})"
    and r_str: "r (TStr v) s = Some (Inr x, s') \<Longrightarrow> \<exists>t. x = SStr t"
begin

lemma ok_call: "\<forall>g \<in> task_refs t. gives G g \<Longrightarrow> ok G (r t) (\<lambda>v. {RVal v})"
  using ok_weaken [OF r_ok] .

lemma ok_evE [ok_intros]: "gives G (REnv env) \<Longrightarrow> ok G (evE r env e) (\<lambda>v. {RVal v})"
  by (simp add: evE_def ok_call)

lemma ok_evS [ok_intros]: "gives G (REnv env) \<Longrightarrow> ok G (evS r env st) (\<lambda>_. {})"
  unfolding evS_def by (rule ok_seq [OF ok_call]) (auto intro: ok_ret)

lemma ok_callC [ok_intros]: "gives G (REnv env) \<Longrightarrow> \<forall>v \<in> set args. gives G (RVal v) \<Longrightarrow> ok G (callC r ps b env args) (\<lambda>v. {RVal v})"
  unfolding callC_def by (rule ok_call) auto

lemma ok_str_of [ok_intros]:
  assumes "gives G (RVal v)"
  shows "ok G (str_of r v) (\<lambda>_. {})"
proof (rule okI)
  fix s x s'
  assume s: "I s" "\<And>g. gives G g \<Longrightarrow> V s g" "str_of r v s = Some (x, s')"
  have "\<forall>g \<in> G. V s g" using s(2) gives.mem by blast
  moreover obtain y t where y: "r (TStr v) s = Some (y, t)" using s(3) by (auto simp: str_of_def bindE_def split: option.splits)
  moreover have "ok G (r (TStr v)) (\<lambda>v. {RVal v})" using assms by (intro ok_call) simp
  ultimately have t: "I t" "R s t" "\<forall>g \<in> outcome (\<lambda>v. {RVal v}) y. V t g" using s(1) okD by blast+
  show "I s' \<and> R s s' \<and> (\<forall>g \<in> outcome (\<lambda>_. {}) x. V s' g)"
  proof (cases y)
    case (Inl e)
    with s(3) y t show ?thesis by (auto simp: str_of_def bindE_def)
  next
    case (Inr z)
    with y r_str obtain w where "z = SStr w" by blast
    with s(3) y t Inr show ?thesis by (auto simp: str_of_def bindE_def retE_def)
  qed
qed

lemma ok_stringify [ok_intros]:
  assumes "gives G (RVal v)"
  shows "ok G (stringify r v) (\<lambda>_. {})"
proof -
  have m: "ok (G \<union> A) (mapE (str_of r) items) (\<lambda>_. {})" if "RVal ` set items \<subseteq> A" for A items
    by (rule ok_result [OF ok_mapE [where F = "\<lambda>_. {}"]]) (use that in \<open>auto intro!: ok_str_of gives.mem\<close>)
  have m2: "ok (G \<union> RVal ` snd ` set kvs) (mapE (\<lambda>(k, x). bindE (str_of r x) (\<lambda>t. retE (k @ '':'' @ t))) kvs) (\<lambda>_. {})" for kvs
    by (rule ok_result [OF ok_mapE [where F = "\<lambda>_. {}"]]) (force intro!: ok_bind [OF ok_str_of] ok_ret gives.mem)+
  show ?thesis
    unfolding stringify_def using assms
    by (intro ok_sval ok_bind [OF ok_readList] ok_bind [OF ok_readMap] ok_bind [OF m2] ok_bind [OF m] ok_ret) auto
qed

lemma ok_echo [ok_intros]:
  assumes "\<forall>v \<in> set args. gives G (RVal v)"
  shows "ok G (nativeEcho r args) (\<lambda>v. {RVal v})"
proof -
  have "ok G (mapE (str_of r) args) (\<lambda>_. {})"
    by (rule ok_result [OF ok_mapE [where F = "\<lambda>_. {}"]]) (use assms in \<open>auto intro!: ok_str_of\<close>)
  then show ?thesis unfolding nativeEcho_def by (rule ok_bind) (intro ok_seq [OF ok_mod] ok_ret echo, auto)
qed

lemma ok_Sh [ok_intros]: "ok G (executor_Sh p script) (\<lambda>_. {})"
proof (rule okI)
  fix s x s'
  assume "I s" "executor_Sh p script s = Some (x, s')"
  then show "I s' \<and> R s s' \<and> (\<forall>g \<in> outcome (\<lambda>_. {}) x. V s' g)"
    using world_step by (auto simp: executor_Sh_def liftE_def split: prod.splits sum.splits)
qed

lemma ok_sh_args [ok_intros]: "\<forall>v \<in> set args. gives G (RVal v) \<Longrightarrow> ok G (sh_args args) (\<lambda>_. {})"
  unfolding sh_args_def by (intro ok_list ok_sval ok_err ok_ret ok_bind [OF ok_readMap] ok_option) auto

lemma ok_sh [ok_intros]: "\<forall>v \<in> set args. gives G (RVal v) \<Longrightarrow> ok G (nativeSh p args) (\<lambda>v. {RVal v})"
  unfolding nativeSh_def
  by (intro ok_bind [OF ok_sh_args] ok_bind [OF ok_Sh] ok_prod ok_seq [OF ok_mod] ok_if ok_throw ok_ret exit_code)
    (auto simp: echo_masked_def R_refl echo gives.mem)

lemma ok_sleep [ok_intros]: "\<forall>v \<in> set args. gives G (RVal v) \<Longrightarrow> ok G (nativeSleep p args) (\<lambda>v. {RVal v})"
proof -
  have u: "ok H (sleepUnitDuration u) (\<lambda>_. {})" for H u unfolding sleepUnitDuration_def by (intro ok_splits ok_ends) auto
  assume a: "\<forall>v \<in> set args. gives G (RVal v)"
  show ?thesis unfolding nativeSleep_def
    by (rule ok_bind_plain; intro ok_bind_plain [OF u] ok_binds ok_splits ok_ends) (use a in auto)
qed

lemma ok_error [ok_intros]: "\<forall>v \<in> set args. gives G (RVal v) \<Longrightarrow> ok G (nativeError r args) (\<lambda>v. {RVal v})"
  unfolding nativeError_def by (rule ok_bind_plain; intro ok_splits ok_ends ok_str_of) auto

lemma ok_call0 [ok_intros]: "gives G (RVal v) \<Longrightarrow> ok G (call0 r v m) (\<lambda>v. {RVal v})"
  unfolding call0_def by (intro ok_splits ok_ends ok_callC) (auto elim!: gives.cases intro: gives.intros)

lemma ok_script [ok_intros]: "\<forall>v \<in> set args. gives G (RVal v) \<Longrightarrow> ok G (nativeScript r args) (\<lambda>v. {RVal v})"
  unfolding nativeScript_def by (intro ok_splits ok_ends ok_call0) auto

lemma ok_cleanWs [ok_intros]: "ok G nativeCleanWs (\<lambda>v. {RVal v})"
  unfolding nativeCleanWs_def
  by (intro ok_binds ok_splits ok_ends ok_seq [OF ok_loopE]) auto

lemma gives_clos: "gives G (RVal (SClos ps b e)) \<Longrightarrow> gives G (REnv e)"
  by (erule gives.cases) (auto intro: gives.intros)

lemma gives_hd: "hd args = v \<Longrightarrow> args \<noteq> [] \<Longrightarrow> \<forall>v \<in> set args. gives G (RVal v) \<Longrightarrow> gives G (RVal v)"
  by auto

lemma not_short: "\<not> length args < 2 \<Longrightarrow> args \<noteq> []"
  by auto

lemma gives_last_clos: "last args = SClos ps b e \<Longrightarrow> args \<noteq> [] \<Longrightarrow> \<forall>v \<in> set args. gives G (RVal v) \<Longrightarrow> gives G (REnv e)"
  by (metis gives_clos last_in_set)

lemma ok_dir [ok_intros]: "\<forall>v \<in> set args. gives G (RVal v) \<Longrightarrow> ok G (nativeDir p r args) (\<lambda>v. {RVal v})"
  unfolding nativeDir_def
  by (intro ok_binds ok_splits ok_ends ok_seq [OF ok_in_dir [OF ok_callC]] gives_last_clos) auto

lemma ok_walk [ok_intros]: "ok G (walk p r src dst pats pth isdir) (\<lambda>v. {RVal v})"
proof -
  have c: "ok H (seqE (r (TWalk src dst pats q d)) (retE True)) (\<lambda>_. {})" for H q d
    by (rule ok_seq [OF ok_call]) (auto intro: ok_ret)
  show ?thesis unfolding walk_def by (intro ok_binds ok_splits ok_ends ok_seq [OF ok_loopE] c) auto
qed

lemma ok_walk_root: "ok G (walk_root r src dst pats) (\<lambda>v. {RVal v})"
  unfolding walk_root_def by (rule ok_bind_plain; intro ok_binds ok_splits ok_ends ok_call) auto

lemma ok_glob: "ok G (copyByGlob r src dst a b) (\<lambda>v. {RVal v})"
  unfolding copyByGlob_def by (rule ok_walk_root)

lemma ok_tree: "ok G (copyTree r src dst) (\<lambda>v. {RVal v})"
  unfolding copyTree_def by (rule ok_walk_root)

lemma ok_named [ok_intros]:
  "\<forall>v \<in> set args. gives G (RVal v) \<Longrightarrow> ok G (named_args st k none args) (\<lambda>_. {})"
  unfolding named_args_def by (intro ok_binds ok_splits ok_ends) auto

lemma ok_stash [ok_intros]: "\<forall>v \<in> set args. gives G (RVal v) \<Longrightarrow> ok G (nativeStash p r args) (\<lambda>v. {RVal v})"
  unfolding nativeStash_def
  by (intro ok_bind_plain [OF ok_named] ok_binds ok_splits ok_ends ok_seq [OF ok_wrapE [OF ok_glob]]) auto

lemma ok_unstash [ok_intros]: "\<forall>v \<in> set args. gives G (RVal v) \<Longrightarrow> ok G (nativeUnstash p r args) (\<lambda>v. {RVal v})"
  unfolding nativeUnstash_def
  by (intro ok_bind_plain [OF ok_named] ok_bind [OF ok_try [OF ok_lift]] ok_binds ok_splits ok_ends ok_seq [OF ok_wrapE [OF ok_tree]]) auto

lemma ok_archive [ok_intros]: "\<forall>v \<in> set args. gives G (RVal v) \<Longrightarrow> ok G (nativeArchiveArtifacts p r args) (\<lambda>v. {RVal v})"
  unfolding nativeArchiveArtifacts_def
  by (intro ok_bind_plain [OF ok_named] ok_binds ok_splits ok_ends ok_seq [OF ok_wrapE [OF ok_glob]]) auto

lemma set_all_values: "(k, v) \<in> set (set_all m kvs) \<Longrightarrow> v \<in> snd ` set m \<union> snd ` set kvs"
proof (induction kvs arbitrary: m)
  case (Cons kv kvs)
  have "snd ` set (AList.update (fst kv) (snd kv) m) \<subseteq> insert (snd kv) (snd ` set m)"
    by (induction m) auto
  with Cons.IH [of "AList.update (fst kv) (snd kv) m"] Cons.prems show ?case
    by (auto simp: set_all_def case_prod_beta)
qed (force simp: set_all_def)

lemma ok_stringCred [ok_intros]: "\<forall>v \<in> set args. gives G (RVal v) \<Longrightarrow> ok G (nativeStringCred args) (\<lambda>v. {RVal v})"
  unfolding nativeStringCred_def
  by (intro ok_binds ok_splits ok_ends ok_newMap) (force intro: gives.mem dest: set_all_values)+

lemma ok_bind_secret: "gives G (RVal v) \<Longrightarrow> ok G (bind_secret p cs v) (\<lambda>_. {})"
  unfolding bind_secret_def by (intro ok_binds ok_splits ok_ends) auto

lemma ok_withCredentials [ok_intros]: "\<forall>v \<in> set args. gives G (RVal v) \<Longrightarrow> ok G (nativeWithCredentials p r args) (\<lambda>v. {RVal v})"
  unfolding nativeWithCredentials_def
  by (intro ok_binds ok_splits ok_ends ok_bind_plain [OF ok_mapE_plain [OF ok_bind_secret]] ok_seq [OF ok_secrets [OF ok_callC]])
    (auto intro: gives.mem gives_Un [OF gives_last_clos] gives_hd not_short)

lemma ok_loadAgentIdentity: "ok G (loadAgentIdentity p cs cid) (\<lambda>_. {})"
  unfolding loadAgentIdentity_def by (intro ok_binds ok_splits ok_ends) auto

lemma ok_load_key: "ok G (load_key p cs v) (\<lambda>_. {})"
  unfolding load_key_def by (intro ok_splits ok_ends ok_seq [OF ok_wrapE [OF ok_loadAgentIdentity]]) auto

lemma ok_agent_socket: "ok G (agent_socket p) (\<lambda>_. {})"
  unfolding agent_socket_def by (intro ok_splits ok_ends) auto

lemma ok_sshagent [ok_intros]: "\<forall>v \<in> set args. gives G (RVal v) \<Longrightarrow> ok G (nativeSshagent p r args) (\<lambda>v. {RVal v})"
  unfolding nativeSshagent_def
  by (intro ok_binds ok_splits ok_ends ok_seq [OF ok_loopE [OF ok_load_key]] ok_bind_plain [OF ok_agent_socket]
      ok_seq [OF ok_secrets [OF ok_callC]])
    (auto intro: gives.mem gives_Un [OF gives_Un [OF gives_last_clos]] gives_hd not_short dest: map_of_SomeD intro!: rev_image_eqI)

lemma ok_buildResultObject: "ok G (buildResultObject job n st) (\<lambda>v. {RVal v})"
  unfolding buildResultObject_def by (rule ok_newMap) auto

lemma ok_build_param: "gives G (RVal v) \<Longrightarrow> ok G (build_param r v) (\<lambda>_. {})"
  unfolding build_param_def
  by (intro ok_binds ok_splits ok_ends ok_bind_plain [OF ok_str_of]) (auto intro: gives.mem dest: map_of_SomeD intro!: rev_image_eqI)

lemma ok_unroll:
  assumes "\<And>v. raw = Some v \<Longrightarrow> gives G (RVal v)"
  shows "ok G (unrollBuildParams r raw) (\<lambda>_. {})"
  unfolding unrollBuildParams_def
  by (intro ok_splits ok_ends ok_binds ok_mapE_plain [OF ok_build_param]) (auto intro: gives.mem assms)

lemma ok_await: "ok G (await_child job b e) (\<lambda>v. {RVal v})"
  unfolding await_child_def by (intro ok_splits ok_ends ok_bind [OF ok_buildResultObject]) (auto intro: gives.mem)

lemma ok_build_args: "\<forall>v \<in> set args. gives G (RVal v) \<Longrightarrow> ok G (build_args args) (\<lambda>m. RVal ` snd ` set m)"
  unfolding build_args_def by (intro ok_splits ok_ends ok_readMap) auto

lemma ok_build [ok_intros]: "\<forall>v \<in> set args. gives G (RVal v) \<Longrightarrow> ok G (nativeBuild p r args) (\<lambda>v. {RVal v})"
  unfolding nativeBuild_def
  by (intro ok_bind [OF ok_build_args] ok_splits ok_ends ok_bind_plain [OF ok_wrapE [OF ok_unroll]] ok_binds ok_buildResultObject ok_await dispatch)
    (auto intro: gives.mem dest: map_of_SomeD intro!: rev_image_eqI)

lemma ok_catchError [ok_intros]:
  assumes "\<forall>v \<in> set args. gives G (RVal v)"
  shows "ok G (nativeCatchError r args) (\<lambda>v. {RVal v})"
proof -
  have n: "args \<noteq> [] \<Longrightarrow> ok G (case hd args of SMap a \<Rightarrow> readMap a | _ \<Rightarrow> retE []) (\<lambda>_. {})"
    by (rule ok_result [where F = "\<lambda>m. RVal ` snd ` set m"]) (intro ok_splits ok_ends ok_readMap, use assms in \<open>auto intro: gives_hd\<close>)
  show ?thesis unfolding nativeCatchError_def
    by (intro ok_splits ok_ends ok_bind_plain [OF n] ok_bind [OF ok_try [OF ok_callC]] ok_fail ok_binds verdict)
      (use assms in \<open>auto intro: gives.mem gives_last_clos simp: R_refl echo split: list.split\<close>)
qed

lemma ok_native_node [ok_intros]: "\<forall>v \<in> set args. gives G (RVal v) \<Longrightarrow> ok G (nativeNode p r args) (\<lambda>v. {RVal v})"
  unfolding nativeNode_def by (intro ok_splits ok_ends ok_on_executor [OF ok_callC] gives_last_clos) auto

lemma ok_evalBlock [ok_intros]: "gives G (REnv env) \<Longrightarrow> ok G (evalBlock r env b) (\<lambda>_. {})"
  unfolding evalBlock_def by (intro ok_loopE ok_seq [OF ok_evS] ok_ret) auto

lemma ok_closures_of:
  assumes "gives G (REnv e)"
  shows "ok G (closures_of e) (\<lambda>m. RVal ` snd ` set m)"
proof (rule okI)
  fix s x s'
  assume s: "I s" "\<And>g. gives G g \<Longrightarrow> V s g" "closures_of e s = Some (x, s')"
  from env_items [OF s(1) s(2) [OF assms]] s(1,3)
  show "I s' \<and> R s s' \<and> (\<forall>g \<in> outcome (\<lambda>y. RVal ` snd ` set y) x. V s' g)"
    by (fastforce simp: closures_of_def R_refl split: if_splits)
qed

lemma ok_load_script: "ok G (load_script r txt full) (\<lambda>v. {RVal v})"
proof -
  have m: "ok (H \<union> {REnv e}) (bindE (closures_of e) newMap) (\<lambda>v. {RVal v})" for H e
    by (rule ok_bind [OF ok_closures_of ok_newMap]) (force intro: gives.mem)+
  have m': "ok (H \<union> {REnv e} \<union> A) (bindE (closures_of e) newMap) (\<lambda>v. {RVal v})" for H A e
    by (rule ok_weaken [OF m]) (auto intro: gives.mem)
  show ?thesis unfolding load_script_def
    by (intro ok_binds ok_splits ok_ends ok_bind [OF ok_try [OF ok_evalBlock]] m' ok_fail)
      (auto intro: gives.mem simp: wrap_err_def)
qed

lemma ok_load [ok_intros]: "ok G (nativeLoad r args) (\<lambda>v. {RVal v})"
  unfolding nativeLoad_def by (intro ok_binds ok_splits ok_ends ok_load_script)

lemma ok_branches:
  "\<forall>v \<in> snd ` set bs. gives G (RVal v) \<Longrightarrow> \<forall>e' \<in> set_option e. \<forall>g \<in> err_refs e'. gives G g
   \<Longrightarrow> ok G (branches r e bs) (\<lambda>res. \<Union> (err_refs ` set_option res))"
proof (induction bs arbitrary: e G)
  case Nil
  then show ?case by (auto intro!: ok_ret)
next
  case (Cons b bs)
  have b: "ok G (run_branch r (snd b)) (\<lambda>v. {RVal v})"
    unfolding run_branch_def by (intro ok_splits ok_ends ok_callC) (use Cons.prems(1) gives_clos in auto)
  have G: "\<forall>v \<in> snd ` set bs. gives (G \<union> A) (RVal v)" for A using Cons.prems(1) by (auto intro: gives_Un)
  have e: "\<forall>e' \<in> set_option e. \<forall>g \<in> err_refs e'. gives (G \<union> A) g" for A using Cons.prems(2) by (auto intro: gives_Un)
  have e2: "\<forall>x \<in> set_option (case e of None \<Rightarrow> Some e' | Some y \<Rightarrow> e). \<forall>g \<in> err_refs x. gives (G \<union> err_refs e') g" for e'
    using e by (auto split: option.splits intro: gives.mem)
  have step: "ok (G \<union> outcome (\<lambda>v. {RVal v}) res) (case res of Inr _ \<Rightarrow> branches r e bs | Inl SPanic \<Rightarrow> failE SPanic
     | Inl e' \<Rightarrow> branches r (case e of None \<Rightarrow> Some e' | Some _ \<Rightarrow> e) bs) (\<lambda>res. \<Union> (err_refs ` set_option res))" for res
  proof (cases res)
    case (Inl e')
    have "ok (G \<union> err_refs e') (branches r (case e of None \<Rightarrow> Some e' | Some _ \<Rightarrow> e) bs) (\<lambda>res. \<Union> (err_refs ` set_option res))"
      by (rule Cons.IH [OF G e2])
    then show ?thesis unfolding Inl by (cases e') (auto intro: ok_fail)
  next
    case (Inr v)
    then show ?thesis using Cons.IH [OF G [of "{RVal v}"] e] by simp
  qed
  show ?case unfolding branches.simps by (rule ok_bind [OF ok_try [OF b] step])
qed

lemma ok_parallel [ok_intros]:
  assumes "\<forall>v \<in> set args. gives G (RVal v)"
  shows "ok G (nativeParallel p r args) (\<lambda>v. {RVal v})"
proof -
  have b: "ok (G \<union> RVal ` snd ` set m) (branches r None (sort_key f (takeWhile P m))) (\<lambda>res. \<Union> (err_refs ` set_option res))" for m f P
    by (rule ok_branches) (auto 0 4 intro: gives.mem dest: set_takeWhileD)
  show ?thesis unfolding nativeParallel_def
    by (intro ok_binds ok_splits ok_ends ok_fail; (hypsubst, rule ok_bind [OF b], intro ok_splits ok_ends ok_fail)?)
      (use assms in \<open>auto intro: gives.mem\<close>)
qed

lemma gives_method: "gives G (RVal (SList a)) \<Longrightarrow> gives G (RVal (SNative (NListM m a)))"
  by (erule gives.cases) (auto intro: gives.intros)

lemma ok_listMember [ok_intros]: "gives G (RVal (SList a)) \<Longrightarrow> ok G (listMember r a name) (\<lambda>v. {RVal v})"
  unfolding listMember_def
  by (intro ok_splits ok_ends ok_binds ok_bind_plain [OF ok_stringify]) (auto intro: gives_method)

lemma ok_string_method [ok_intros]: "ok G (string_method p name v args) (\<lambda>v. {RVal v})"
  unfolding string_method_def by (intro ok_splits ok_ends ok_fail) auto

lemma ok_item_at [ok_intros]:
  assumes "gives G (RVal (SList a))" "RLen a n \<in> G" "i < n"
  shows "ok G (item_at a i) (\<lambda>v. {RVal v})"
proof (rule okI)
  fix s x s'
  assume s: "I s" "\<And>g. gives G g \<Longrightarrow> V s g" "item_at a i s = Some (x, s')"
  have "V s (RLen a n)" using s(2) assms(2) gives.mem by blast
  then have "a < length (hlists s) \<and> n \<le> length (hlists s ! a) \<or> V s RBad" using list_len(2) s(1) by blast
  with list_items [OF s(1) s(2) [OF assms(1)]] s(1,3) assms(3)
  show "I s' \<and> R s s' \<and> (\<forall>g \<in> outcome (\<lambda>v. {RVal v}) x. V s' g)"
    by (auto simp: item_at_def readList_def bindE_def retE_def failE_def R_refl split: if_splits)
qed

lemma ok_list_method [ok_intros]:
  assumes "gives G (RVal (SList a))" "\<forall>v \<in> set args. gives G (RVal v)"
  shows "ok G (list_method r name a args) (\<lambda>v. {RVal v})"
proof -
  have each: "ok (G \<union> {RLen a n}) (mapE (\<lambda>i. bindE (item_at a i) (\<lambda>v. callC r ps b e [v])) [0..<n]) (\<lambda>vs. \<Union> ((\<lambda>v. {RVal v}) ` set vs))"
    if "gives G (REnv e)" for ps b e n
    by (rule ok_mapE, rule ok_bind [OF ok_item_at ok_callC]) (use assms that in \<open>auto intro: gives_Un gives.mem gives_mono\<close>)
  have join: "ok (G \<union> RVal ` set items) (mapE (str_of r) items) (\<lambda>_. {})" for items
    by (rule ok_mapE_plain [OF ok_str_of]) (auto intro: gives.mem)
  show ?thesis unfolding list_method_def
    by (intro ok_if ok_bind [OF ok_readList] ok_bind_plain [OF join] ok_ends ok_sval ok_bind [OF ok_readLen] ok_bind [OF each] ok_newList)
      (use assms in \<open>auto intro: gives.mem gives_last_clos\<close>)
qed

lemma ok_stringMapToScript: "ok G (stringMapToScript kvs) (\<lambda>v. {RVal v})"
  unfolding stringMapToScript_def by (rule ok_newMap) (auto dest!: set_all_values)

lemma ok_buildInfo: "ok G (buildInfoToValue info) (\<lambda>v. {RVal v})"
  unfolding buildInfoToValue_def
  by (rule ok_bind [OF ok_allocMap]) (auto simp: build_fields_def intro!: ok_seq [OF ok_mapSet] ok_ret gives.mem)

lemma ok_getPreviousBuild [ok_intros]: "ok G (getPreviousBuild p job n) (\<lambda>v. {RVal v})"
  unfolding getPreviousBuild_def by (intro ok_splits ok_ends ok_buildInfo) auto

lemma ok_invokeStep [ok_intros]: "\<forall>v \<in> set args. gives G (RVal v) \<Longrightarrow> ok G (invokeStep p r name args) (\<lambda>v. {RVal v})"
  unfolding invokeStep_def
  by (intro ok_if ok_parallel ok_sh ok_echo ok_sleep ok_error ok_script ok_cleanWs ok_dir ok_stash ok_unstash ok_archive ok_stringCred
      ok_withCredentials ok_sshagent ok_load ok_build ok_catchError ok_native_node)

lemma ok_invokeNative [ok_intros]:
  assumes "gives G (RVal (SNative f))" "\<forall>v \<in> set args. gives G (RVal v)"
  shows "ok G (invokeNative p r f args) (\<lambda>v. {RVal v})"
proof (cases f)
  case (NListM m a)
  then have "gives G (RVal (SList a))" using assms(1) by (auto elim!: gives.cases intro: gives.intros)
  then show ?thesis using assms(2) NListM by (simp add: invokeNative_def ok_list_method)
next
  case (NNum m n)
  then have "gives G (RVal (SNum n))" using assms(1) by (auto elim!: gives.cases intro: gives.intros)
  then show ?thesis using NNum by (simp add: invokeNative_def ok_ret)
qed (use assms in \<open>simp_all add: invokeNative_def ok_invokeStep ok_string_method ok_ret ok_stringMapToScript ok_getPreviousBuild\<close>)

lemma ok_invokeCallable [ok_intros]:
  "gives G (RVal fn) \<Longrightarrow> \<forall>v \<in> set args. gives G (RVal v) \<Longrightarrow> ok G (invokeCallable p r fn args) (\<lambda>v. {RVal v})"
  unfolding invokeCallable_def by (intro ok_splits ok_ends ok_invokeNative ok_callC) (auto dest: gives_clos)

lemma gives_Union: "gives (G \<union> RVal ` S) g \<Longrightarrow> RVal ` S \<subseteq> H \<Longrightarrow> gives (G \<union> H) g"
  by (erule gives_mono) auto

lemma ok_memberAccess [ok_intros]: "gives G (RVal obj) \<Longrightarrow> ok G (memberAccess r obj name) (\<lambda>v. {RVal v})"
  unfolding memberAccess_def
  by (intro ok_splits ok_ends ok_binds ok_listMember)
    (auto simp: map_get_def exceptMember_def stringMember_def intro: gives.mem dest: map_of_SomeD intro!: rev_image_eqI split: option.splits)

section \<open>The evaluator\<close>

lemma gives_nth: "\<not> n < 0 \<Longrightarrow> \<not> int (length x) \<le> n \<Longrightarrow> gives (G \<union> RVal ` set x) (RVal (x ! nat n))"
  by (rule gives.mem) (auto intro!: nth_mem)

lemma ok_subscriptGet [ok_intros]: "gives G (RVal obj) \<Longrightarrow> gives G (RVal idx) \<Longrightarrow> ok G (subscriptGet r obj idx) (\<lambda>v. {RVal v})"
  unfolding subscriptGet_def
  by (intro ok_splits ok_ends ok_binds ok_bind_plain [OF ok_stringify])
    (auto simp: map_get_def intro: gives.mem gives_nth dest: map_of_SomeD intro!: rev_image_eqI split: option.splits)

lemma ok_subscriptSet [ok_intros]:
  "gives G (RVal obj) \<Longrightarrow> gives G (RVal idx) \<Longrightarrow> gives G (RVal v) \<Longrightarrow> ok G (subscriptSet r obj idx v) (\<lambda>_. {})"
  unfolding subscriptSet_def
  by (intro ok_sval ok_ends ok_bind_plain [OF ok_stringify] ok_mapSet ok_listSet) auto

lemma ok_assignTo [ok_intros]: "gives G (REnv env) \<Longrightarrow> gives G (RVal v) \<Longrightarrow> ok G (assignTo r env target v) (\<lambda>_. {})"
  unfolding assignTo_def
  by (cases target) (auto intro!: ok_ends ok_assign_var ok_bind [OF ok_evE] ok_subscriptSet intro: gives_weak)

lemma ok_compare [ok_intros]: "ok G (compareNums l rv opr) (\<lambda>v. {RVal v})"
  unfolding compareNums_def by (intro ok_splits ok_ends) auto

lemma ok_binary_op [ok_intros]:
  assumes "gives G (RVal l)" "gives G (RVal rv)"
  shows "ok G (binary_op r opr l rv) (\<lambda>v. {RVal v})"
proof -
  have n: "(\<And>a b. ok G (f a b) (\<lambda>v. {RVal v})) \<Longrightarrow> ok G (case (l, rv) of (SNum a, SNum b) \<Rightarrow> f a b | _ \<Rightarrow> errE m) (\<lambda>v. {RVal v})" for f m
    by (cases l; cases rv) (auto intro: ok_err)
  have plus: "ok G (case (l, rv) of (SStr a, _) \<Rightarrow> bindE (stringify r rv) (\<lambda>t. retE (SStr (a @ t)))
      | (_, SStr b) \<Rightarrow> bindE (stringify r l) (\<lambda>t. retE (SStr (t @ b))) | _ \<Rightarrow> k) (\<lambda>v. {RVal v})" if "ok G k (\<lambda>v. {RVal v})" for k
  proof -
    have "ok G (bindE (stringify r rv) (\<lambda>t. retE (SStr (a @ t)))) (\<lambda>v. {RVal v})" for a
      by (intro ok_bind_plain [OF ok_stringify] ok_ret) (use assms in auto)
    moreover have "ok G (bindE (stringify r l) (\<lambda>t. retE (SStr (t @ b)))) (\<lambda>v. {RVal v})" for b
      by (intro ok_bind_plain [OF ok_stringify] ok_ret) (use assms in auto)
    ultimately show ?thesis using that by (auto split: sval.split)
  qed
  show ?thesis unfolding binary_op_def Let_def
    by (intro ok_if plus n ok_ret ok_err ok_compare) auto
qed

lemma ok_evalBinary [ok_intros]: "gives G (REnv env) \<Longrightarrow> ok G (evalBinary r env opr l rh) (\<lambda>v. {RVal v})"
  unfolding evalBinary_def
  by (intro ok_if ok_bind [OF ok_evE] ok_bind_get ok_ret ok_binary_op) (auto intro: gives_weak)

lemma ok_collectCallArgs:
  assumes "gives G (REnv env)"
  shows "ok G (collectCallArgs r env cargs c) (\<lambda>vs. RVal ` set vs)"
proof -
  have a: "ok G (mapE (\<lambda>a. bindE (evE r env (ca_Value a)) (\<lambda>v. retE (ca_Name a, v))) cargs) (\<lambda>vs. \<Union> ((\<lambda>nv. {RVal (snd nv)}) ` set vs))"
    by (rule ok_mapE, rule ok_bind [OF ok_evE]) (use assms in \<open>auto intro!: ok_ret gives.mem\<close>)
  have n: "ok (G \<union> (\<Union>nv \<in> set vs. {RVal (snd nv)})) (if filter f vs = [] then retE [] else bindE (newMap (set_all [] (filter f vs))) (\<lambda>m. retE [m]))
      (\<lambda>ms. RVal ` set ms)" for vs f
    by (intro ok_if ok_ret ok_bind [OF ok_newMap]) (force intro: gives.mem dest!: set_all_values)+
  show ?thesis unfolding collectCallArgs_def Let_def
    by (intro ok_bind [OF a] ok_bind [OF n] ok_option ok_ret ok_bind [OF ok_evE]) (use assms in \<open>auto intro: gives_weak\<close>)
qed

lemma ok_new_msg: "gives G (REnv env) \<Longrightarrow> ok G (new_msg r env as) (\<lambda>_. {})"
proof (induction as arbitrary: G)
  case (Cons a as)
  have "ok (G \<union> {RVal v}) (new_msg r env as) (\<lambda>_. {})" for v by (rule Cons.IH) (use Cons.prems in \<open>auto intro: gives_weak\<close>)
  then show ?case unfolding new_msg.simps by (intro ok_bind [OF ok_evE [OF Cons.prems]] ok_sval ok_ret) auto
qed (auto intro: ok_ret)

lemma ok_map_key: "gives G (REnv env) \<Longrightarrow> ok G (map_key r env k) (\<lambda>_. {})"
  unfolding map_key_def by (cases k) (auto intro!: ok_ret ok_bind [OF ok_evE] ok_stringify intro: gives_weak)

lemma ok_evalExpr:
  assumes env: "gives G (REnv env)"
  shows "ok G (evalExpr p r env e) (\<lambda>v. {RVal v})"
proof (cases e)
  case (IdentExpr x pos)
  let ?F = "\<lambda>found :: (nat \<times> sval) option. (\<lambda>dv. RVal (snd dv)) ` set_option found"
  have "ok G (getE (\<lambda>s. lookup_env (henvs s) env x)) ?F"
    by (rule ok_get) (use env_lookup env in \<open>force\<close>)
  then show ?thesis unfolding evalExpr_def IdentExpr by (simp, rule ok_bind, intro ok_option ok_err ok_prod ok_ret) (auto intro: gives.mem)
next
  case (ListExpr es pos)
  have "ok G (mapE (evE r env) es) (\<lambda>vs. \<Union> ((\<lambda>v. {RVal v}) ` set vs))" by (rule ok_mapE [OF ok_evE [OF env]])
  then show ?thesis unfolding evalExpr_def ListExpr by (simp, intro ok_bind ok_newList) (auto intro: gives.mem)
next
  case (MapExpr ens pos)
  have "ok G (mapE (\<lambda>en. bindE (map_key r env (me_Key en)) (\<lambda>k. bindE (evE r env (me_Value en)) (\<lambda>v. retE (k, v)))) ens)
     (\<lambda>kvs. \<Union> ((\<lambda>kv. {RVal (snd kv)}) ` set kvs))"
    by (rule ok_mapE, intro ok_bind_plain [OF ok_map_key] ok_bind [OF ok_evE] ok_ret) (use env in \<open>auto intro: gives.mem\<close>)
  then show ?thesis unfolding evalExpr_def MapExpr
    by (simp, rule ok_bind, intro ok_newMap) (auto intro: gives.mem dest!: set_all_values)
next
  case (Closure c)
  then show ?thesis using env unfolding evalExpr_def by (auto intro!: ok_ret gives_closure)
next
  case (CallExpr f as c pos)
  then show ?thesis unfolding evalExpr_def
    by (simp, intro ok_bind [OF ok_evE] ok_bind [OF ok_collectCallArgs] ok_invokeCallable) (use env in \<open>auto intro: gives_weak\<close>)
qed (use env in \<open>auto simp: evalExpr_def intro!: ok_ret ok_err ok_option ok_if ok_bind [OF ok_evE] ok_bind_get ok_memberAccess ok_subscriptGet
  ok_invokeCallable ok_evalBinary ok_bind_plain [OF ok_new_msg] ok_seq [OF ok_assignTo] ok_evE ok_sval intro: gives_weak dest: Atoi_in64\<close>)

lemma ok_loop_body: "gives G (REnv env) \<Longrightarrow> ok G (loop_body r env body) (\<lambda>_. {})"
  unfolding loop_body_def by (intro ok_bind [OF ok_try [OF ok_evS]] ok_sum ok_serr ok_ret ok_fail) (auto intro: gives.mem)

lemma ok_forEach_body:
  "gives G (REnv env) \<Longrightarrow> gives G (RVal item) \<Longrightarrow> ok G (forEach_body r env x body item) (\<lambda>_. {})"
  unfolding forEach_body_def by (intro ok_binds ok_loop_body) (auto intro: gives_weak)

lemma ok_forEach:
  assumes "gives G (REnv env)" "gives G (RVal iter)"
  shows "ok G (forEach r env iter x body) (\<lambda>_. {})"
proof (cases iter)
  case (SList a)
  have "ok (G \<union> {RLen a n}) (loopE (\<lambda>i. bindE (item_at a i) (forEach_body r env x body)) [0..<n]) (\<lambda>_. {})" for n
    by (rule ok_loopE, rule ok_bind [OF ok_item_at ok_forEach_body]) (use assms SList in \<open>auto intro: gives_weak\<close>)
  then show ?thesis unfolding forEach_def SList using assms SList by (auto intro!: ok_bind [OF ok_readLen])
next
  case (SMap a)
  then show ?thesis unfolding forEach_def
    by (simp, intro ok_bind [OF ok_readMap] ok_loopE ok_forEach_body) (use assms SMap in \<open>auto intro: gives_weak\<close>)
qed (auto simp: forEach_def intro: ok_err)

lemma ok_block_in: "gives G (REnv env) \<Longrightarrow> ok G (block_in r env b) (\<lambda>_. {})"
  unfolding block_in_def by (intro ok_bind [OF ok_newEnv] ok_evalBlock) (auto intro: gives.mem)

lemma ok_evalTry:
  assumes env: "gives G (REnv env)"
  shows "ok G (evalTry r env body catches fin) (\<lambda>_. {})"
proof -
  have catch: "ok (G \<union> outcome (\<lambda>_. {}) res)
      (case (res, catches) of (Inl (SigThrow v), cc # _) \<Rightarrow> tryE (bindE (newEnv (Some env)) (\<lambda>catchEnv.
            seqE (define_in catchEnv (cc_ParamName cc) v) (evalBlock r catchEnv (cc_Body cc)))) | _ \<Rightarrow> retE res) (outcome (\<lambda>_. {}))"
    for res :: "serr + unit"
  proof (cases "\<exists>v cc cs. res = Inl (SigThrow v) \<and> catches = cc # cs")
    case True
    then obtain v cc cs where rc: "res = Inl (SigThrow v)" "catches = cc # cs" by blast
    show ?thesis unfolding rc
      by (simp, intro ok_try ok_bind [OF ok_newEnv] ok_seq [OF ok_define_in] ok_evalBlock) (use env in \<open>auto intro: gives_weak\<close>)
  next
    case False
    then have "(case (res, catches) of (Inl (SigThrow v), cc # _) \<Rightarrow> tryE (bindE (newEnv (Some env)) (\<lambda>catchEnv.
            seqE (define_in catchEnv (cc_ParamName cc) v) (evalBlock r catchEnv (cc_Body cc)))) | _ \<Rightarrow> retE res) = retE res"
      by (auto split: sum.splits serr.splits list.splits)
    then show ?thesis by (auto intro!: ok_ret gives.mem)
  qed
  have fin: "ok H (case fin of None \<Rightarrow> retE () | Some b \<Rightarrow> block_in r env b) (\<lambda>_. {})" if "gives H (REnv env)" for H
    by (intro ok_option ok_ret ok_block_in) (use that in auto)
  have rest: "ok (G \<union> A \<union> outcome (\<lambda>_. {}) e) (case e of Inl SPanic \<Rightarrow> failE SPanic
       | _ \<Rightarrow> seqE (case fin of None \<Rightarrow> retE () | Some b \<Rightarrow> block_in r env b) (case e of Inl e \<Rightarrow> failE e | Inr _ \<Rightarrow> retE ())) (\<lambda>_. {})"
    for A and e :: "serr + unit"
    by (intro ok_sum ok_serr ok_seq [OF fin] ok_ret ok_fail) (use env in \<open>auto intro: gives_weak\<close>)
  have mid: "ok (G \<union> outcome (\<lambda>_. {}) res) (case res of Inl SPanic \<Rightarrow> failE SPanic
     | _ \<Rightarrow> bindE (case (res, catches) of (Inl (SigThrow v), cc # _) \<Rightarrow> tryE (bindE (newEnv (Some env)) (\<lambda>catchEnv.
                  seqE (define_in catchEnv (cc_ParamName cc) v) (evalBlock r catchEnv (cc_Body cc)))) | _ \<Rightarrow> retE res) (\<lambda>bodyErr. case bodyErr of
         Inl SPanic \<Rightarrow> failE SPanic
       | _ \<Rightarrow> seqE (case fin of None \<Rightarrow> retE () | Some b \<Rightarrow> block_in r env b) (case bodyErr of Inl e \<Rightarrow> failE e | Inr _ \<Rightarrow> retE ()))) (\<lambda>_. {})"
    for res :: "serr + unit"
    using ok_bind [OF catch rest, of res] by (auto simp: ok_fail split: sum.split serr.split)
  show ?thesis unfolding evalTry_def by (rule ok_bind [OF ok_try [OF ok_block_in [OF env]] mid])
qed

lemma ok_evalStmt:
  assumes env: "gives G (REnv env)"
  shows "ok G (evalStmt r env st) (\<lambda>_. {})"
proof -
  have o: "ok G (case x of None \<Rightarrow> retE SNull | Some e \<Rightarrow> evE r env e) (\<lambda>v. {RVal v})" for x
    by (intro ok_option ok_ret ok_evE [OF env]) auto
  have w: "gives (G \<union> A) (REnv env)" for A using env by (rule gives_Un)
  show ?thesis
  proof (cases st)
    case (WhileStmt c body pos)
    show ?thesis unfolding evalStmt_def WhileStmt Stmt.simps
      by (intro ok_bind [OF ok_evE] ok_bind_get ok_if ok_ret ok_bind_plain [OF ok_loop_body] ok_evS env w) auto
  qed (use env w in \<open>auto simp: evalStmt_def intro!: ok_ret ok_err ok_fail ok_bind [OF o] ok_bind [OF ok_evE] ok_seq [OF ok_evE] ok_bind_get
        ok_define_in ok_assignTo ok_evS ok_forEach ok_block_in ok_evalTry ok_option intro: gives_weak gives_closure\<close>)
qed

lemma ok_run_body: "gives G (REnv env) \<Longrightarrow> ok G (run_body r env sts) (\<lambda>v. {RVal v})"
proof (induction sts)
  case (Cons st sts)
  have "ok G (seqE (evS r env st) (run_body r env sts)) (\<lambda>v. {RVal v})" by (rule ok_seq [OF ok_evS [OF Cons.prems] Cons.IH [OF Cons.prems]])
  then show ?case using ok_evE [OF Cons.prems] by (cases sts; cases st) simp_all
qed (auto intro: ok_ret)

lemma ok_invokeClosure:
  assumes "gives G (REnv env)" "\<forall>v \<in> set args. gives G (RVal v)"
  shows "ok G (invokeClosure r ps b env args) (\<lambda>v. {RVal v})"
proof -
  have arg: "i < length args \<Longrightarrow> gives (insert g G) (RVal (args ! i))" for i g
    using assms(2) by (auto intro: gives_insert)
  have params: "ok (G \<union> {REnv c}) (loopE (bind_param c args) (enumerate 0 ps)) (\<lambda>_. {})" for c
    by (rule ok_loopE) (auto simp: bind_param_def intro!: ok_seq [OF ok_define_in] ok_ret arg intro: gives.mem)
  have it: "ok (G \<union> {REnv c}) (define_in c ''it'' (hd args)) (\<lambda>_. {})" if "ps = [] \<and> length args = 1" for c
    by (rule ok_define_in) (use assms(2) that in \<open>cases args; auto intro: gives_weak\<close>)+
  show ?thesis unfolding invokeClosure_def
    by (intro ok_bind [OF ok_newEnv [OF assms(1)]] ok_seq [where F = "\<lambda>_. {}"] ok_if it params ok_bind [OF ok_try [OF ok_run_body]] ok_sum ok_serr
        ok_ret ok_fail) (auto intro: gives.mem)
qed

theorem evalTask_ok: "ok (task_refs t) (evalTask p r t) (\<lambda>v. {RVal v})"
  by (cases t) (auto simp: evalTask_def intro!: ok_evalExpr ok_seq [OF ok_evalStmt] ok_invokeClosure ok_bind_plain [OF ok_stringify] ok_walk ok_ret
      intro: gives.mem)

end

section \<open>Tied\<close>

lemma evalN_str: "evalN p n (TStr v) s = Some (Inr x, s') \<Longrightarrow> \<exists>t. x = SStr t"
  by (cases n) (auto simp: evalTask_def bindE_def retE_def split: option.splits sum.splits)

context eval_inv
begin

lemma evalN_calls: "eval_calls I R V (evalN p n)"
proof (induction n)
  case 0
  show ?case by (rule eval_calls.intro [OF eval_inv_axioms eval_calls_axioms.intro]) (auto simp: keeps_def)
next
  case (Suc n)
  show ?case
    by (rule eval_calls.intro [OF eval_inv_axioms eval_calls_axioms.intro])
      (auto simp: eval_calls.evalTask_ok [OF Suc] simp del: evalN.simps(2) evalN_str intro: evalN_str, simp add: eval_calls.evalTask_ok [OF Suc])
qed

lemma evalN_ok: "ok (task_refs t) (evalN p n t) (\<lambda>v. {RVal v})"
  by (rule eval_calls.r_ok [OF evalN_calls])

lemmas evalN_keeps = okD [OF evalN_ok]

end

end
