(* ===== verification/ScriptDemo.thy ===== *)
theory ScriptDemo
  imports Interp
begin

text \<open>
  Small scripts and a small installation to run them on: a shell that prints its script, a router with one label, a dispatcher whose builds
  fail, and a credential store with one secret text. The properties of the interpreter are applied to them.
\<close>

definition pos0 :: Position where "pos0 = \<lparr>pos_Line = 1, pos_Col = 1\<rparr>"

definition a_id :: "string \<Rightarrow> Expr" where "a_id x = IdentExpr x pos0"

definition a_str :: "string \<Rightarrow> Expr" where "a_str t = StringLit t StringSingle pos0"

definition a_num :: "string \<Rightarrow> Expr" where "a_num t = NumberLit t pos0"

text \<open>\<open>f(args) { body }\<close>, and the same as a statement.\<close>

definition a_call :: "string \<Rightarrow> Expr list \<Rightarrow> Stmt list option \<Rightarrow> Expr" where
  "a_call f args body = CallExpr (a_id f) (map (CallArg '''') args)
     (map_option (\<lambda>b. ClosureExpr [] (Block b pos0) pos0) body) pos0"

definition s_call :: "string \<Rightarrow> Expr list \<Rightarrow> Stmt list option \<Rightarrow> Stmt" where
  "s_call f args body = ExprStmt (a_call f args body) pos0"

definition demo_seams :: seams where
  "demo_seams = \<lparr>p_shell = (\<lambda>d env t w. ((ShExit 0, t), w)), p_Environ = [''PATH=/bin''], p_Sh = (\<lambda>n t env w. (Inr (0, t), w)), p_cwd = [''srv''],
     p_stashDir = None, p_artifactsDir = None, p_initialEnv = [], p_router = Some (\<lambda>l. if l = ''mac'' then Inr 7 else Inl (Msg ''no node'')),
     p_dispatch = Some (\<lambda>job ps. Inr (ChildBuildResult job 4 ''FAILURE'')), p_builds = None, p_creds = Some demo_cstore, p_wolf = demo_gowolf,
     p_codec = demo_ccodec, p_secret = Inr, p_sshPayload = (\<lambda>b. Inl ErrIO), p_parsePEM = (\<lambda>t. Inl ErrIO), p_ed25519 = (\<lambda>t. (0, 0)),
     p_mkdirTemp = Inl ErrIO, p_listen = (\<lambda>t. None), p_chmod = (\<lambda>t. None), p_regex = (\<lambda>t. Inl ErrIO), p_Match = (\<lambda>g t. False),
     p_wait = (\<lambda>d. None), p_rank = (\<lambda>k. 0)\<rparr>"

definition demo_rt :: rt where
  "demo_rt = newScriptRuntime demo_seams 0 [(0, Some [''srv'', ''ws''])] demo_added"

end
