(* ===== verification/ScriptSafe.thy ===== *)
theory ScriptSafe
  imports EvalCalls ScriptDemo
begin

text \<open>
  What holds across every run of a script: the stack of secrets, the executor and the workspace are those of before; no address leaves the heap
  and no number leaves 64 bits; a secret with no star in it is not in the log; a verdict is never improved. Each is an
  interpretation of the contract \<open>eval_inv\<close> on the evaluator.
\<close>

section \<open>Restoration\<close>

definition restored :: "rt \<Rightarrow> rt \<Rightarrow> bool" where
  "restored s s' \<longleftrightarrow> executor s' = executor s \<and> envExtra s' = envExtra s \<and> masks s' = masks s \<and> workspace s' = workspace s \<and> exec_ws s' = exec_ws s"

lemma applyCatchForced_frame [simp]:
  "executor (applyCatchForced b st s) = executor s" "envExtra (applyCatchForced b st s) = envExtra s" "masks (applyCatchForced b st s) = masks s"
  "workspace (applyCatchForced b st s) = workspace s" "exec_ws (applyCatchForced b st s) = exec_ws s" "echoBuf (applyCatchForced b st s) = echoBuf s"
  "hlists (applyCatchForced b st s) = hlists s" "hmaps (applyCatchForced b st s) = hmaps s" "henvs (applyCatchForced b st s) = henvs s"
  by (simp_all add: applyCatchForced_def Let_def)

interpretation scoped: eval_inv "\<lambda>_. True" restored "\<lambda>_ _. True"
  by unfold_locales
    (auto simp: restored_def appendEcho_def pushSecrets_def popSecrets_def enter_dir_def leave_dir_def update_triv split: option.splits)

text \<open>
  C33. Nothing of a block outlives it when the branches of a \<^verbatim>\<open>parallel\<close> run one after another. Whatever is then evaluated, and however
  it ends (a value, a script exception, a \<^verbatim>\<open>return\<close>, an infrastructure error, a panic), the environment of the secrets, the masks, the executor, the workspace and the executors'
  own workspaces are afterwards what they were before: \<^verbatim>\<open>withCredentials\<close>, \<^verbatim>\<open>sshagent\<close>, \<^verbatim>\<open>node\<close> and \<^verbatim>\<open>dir\<close> undo themselves on
  every path. Branches that overlap share these fields, and then a block can leave behind what another had set (\<open>overlap_leaks\<close>).
\<close>

theorem scopes_restored:
  assumes "evalN p n t s = Some (x, s')"
  shows "envExtra s' = envExtra s \<and> masks s' = masks s \<and> executor s' = executor s \<and> workspace s' = workspace s \<and> exec_ws s' = exec_ws s"
  using scoped.evalN_keeps(2) [OF _ _ assms] by (simp add: restored_def)

definition demo_node :: Stmt where
  "demo_node = s_call ''node'' [a_str ''mac'']
     (Some [s_call ''dir'' [a_str ''/w''] (Some [s_call ''echo'' [a_str ''hi''] None]), s_call ''error'' [a_str ''boom''] None])"

lemma fst_ends: "map_option fst r = Some x \<Longrightarrow> \<exists>s. r = Some (x, s)"
  by auto

theorem scopes_restored_witness:
  "\<exists>s. evalN demo_seams 9 (TS 0 demo_node) demo_rt = Some (Inl (SigThrow (SExcept ''FlowInterruptedException'' ''boom'')), s)
     \<and> executor s = 0 \<and> workspace s = Some [''srv'', ''ws'']"
proof -
  have "map_option fst (evalN demo_seams 9 (TS 0 demo_node) demo_rt) = Some (Inl (SigThrow (SExcept ''FlowInterruptedException'' ''boom'')))"
    by code_simp
  from fst_ends [OF this] obtain s where s: "evalN demo_seams 9 (TS 0 demo_node) demo_rt = Some (Inl (SigThrow (SExcept ''FlowInterruptedException'' ''boom'')), s)" ..
  moreover have "executor demo_rt = 0" "workspace demo_rt = Some [''srv'', ''ws'']" by code_simp+
  ultimately show ?thesis using scopes_restored [OF s] by simp
qed

section \<open>The heap\<close>

definition val_ok :: "rt \<Rightarrow> sval \<Rightarrow> bool" where
  "val_ok s v = (case v of
       SNum n \<Rightarrow> in64 n
     | SList a \<Rightarrow> a < length (hlists s)
     | SMap a \<Rightarrow> a < length (hmaps s)
     | SClos _ _ e \<Rightarrow> e < length (henvs s)
     | SNative (NListM _ a) \<Rightarrow> a < length (hlists s)
     | SNative (NNum _ n) \<Rightarrow> in64 n
     | _ \<Rightarrow> True)"

definition ref_ok :: "rt \<Rightarrow> ref \<Rightarrow> bool" where
  "ref_ok s g = (case g of RVal v \<Rightarrow> val_ok s v | REnv e \<Rightarrow> e < length (henvs s)
     | RLen a n \<Rightarrow> a < length (hlists s) \<and> n \<le> length (hlists s ! a) | RBad \<Rightarrow> False)"

definition well_formed :: "rt \<Rightarrow> bool" where
  "well_formed s \<longleftrightarrow> (\<forall>a < length (hlists s). \<forall>v \<in> set (hlists s ! a). val_ok s v)
     \<and> (\<forall>a < length (hmaps s). \<forall>(k, v) \<in> set (hmaps s ! a). val_ok s v)
     \<and> (\<forall>e < length (henvs s). (\<forall>(k, v) \<in> set (vars (henvs s ! e)). val_ok s v) \<and> (\<forall>q. parent (henvs s ! e) = Some q \<longrightarrow> q < e))
     \<and> henvs s \<noteq> []"

definition grown :: "rt \<Rightarrow> rt \<Rightarrow> bool" where
  "grown s s' \<longleftrightarrow> length (hlists s) \<le> length (hlists s') \<and> length (hmaps s) \<le> length (hmaps s') \<and> length (henvs s) \<le> length (henvs s')
     \<and> (\<forall>a < length (hlists s). length (hlists s' ! a) = length (hlists s ! a))"

lemma val_ok_grown: "val_ok s v \<Longrightarrow> length (hlists s) \<le> length (hlists t) \<Longrightarrow> length (hmaps s) \<le> length (hmaps t)
    \<Longrightarrow> length (henvs s) \<le> length (henvs t) \<Longrightarrow> val_ok t v"
  by (auto simp: val_ok_def split: sval.splits native.splits)

lemma val_ok_simps [simp]:
  "val_ok s (SNum n) = in64 n" "val_ok s (SList a) \<longleftrightarrow> a < length (hlists s)" "val_ok s (SMap a) \<longleftrightarrow> a < length (hmaps s)"
  "val_ok s (SClos ps b e) \<longleftrightarrow> e < length (henvs s)" "val_ok s (SNative (NListM m a)) \<longleftrightarrow> a < length (hlists s)"
  "val_ok s (SNative (NNum m n)) = in64 n"
  by (simp_all add: val_ok_def)

lemma ref_ok_simps [simp]:
  "ref_ok s (RVal v) = val_ok s v" "ref_ok s (REnv e) \<longleftrightarrow> e < length (henvs s)"
  "ref_ok s (RLen a n) \<longleftrightarrow> a < length (hlists s) \<and> n \<le> length (hlists s ! a)" "\<not> ref_ok s RBad"
  by (simp_all add: ref_ok_def)

lemma plain_ok: "plain v \<Longrightarrow> val_ok s v"
  by (cases v rule: plain.cases) (auto simp: val_ok_def)

lemma wf_same: "hlists t = hlists s \<Longrightarrow> hmaps t = hmaps s \<Longrightarrow> henvs t = henvs s \<Longrightarrow> well_formed s \<Longrightarrow> well_formed t \<and> grown s t"
proof -
  assume h: "hlists t = hlists s" "hmaps t = hmaps s" "henvs t = henvs s" "well_formed s"
  then have "val_ok t v = val_ok s v" for v by (cases v) (auto simp: val_ok_def split: native.split)
  with h show ?thesis by (simp add: well_formed_def grown_def)
qed

lemma lookup_ok:
  assumes "well_formed s" "e < length (henvs s)" "lookup_env (henvs s) e x = Some (d, v)"
  shows "d < length (henvs s) \<and> val_ok s v"
  using assms(2,3)
proof (induction "henvs s" e x rule: lookup_env.induct)
  case (1 e x)
  have vars: "map_of (vars (henvs s ! e)) x = Some v \<Longrightarrow> val_ok s v"
    using assms(1) "1.prems"(1) by (fastforce simp: well_formed_def dest: map_of_SomeD)
  show ?case using "1.prems" "1.hyps" vars by (subst (asm) lookup_env.simps) (auto split: option.splits if_splits)
qed

lemma root_ok: "e < length es \<Longrightarrow> root_env es e < length es"
proof (induction es e rule: root_env.induct)
  case (1 es e)
  then show ?case by (subst root_env.simps) (auto split: option.split)
qed

lemma wf_grow:
  assumes "well_formed s" "grown s t"
    and "\<And>a v. a < length (hlists t) \<Longrightarrow> v \<in> set (hlists t ! a) \<Longrightarrow> val_ok t v"
    and "\<And>a k v. a < length (hmaps t) \<Longrightarrow> (k, v) \<in> set (hmaps t ! a) \<Longrightarrow> val_ok t v"
    and "\<And>e k v. e < length (henvs t) \<Longrightarrow> (k, v) \<in> set (vars (henvs t ! e)) \<Longrightarrow> val_ok t v"
    and "\<And>e q. e < length (henvs t) \<Longrightarrow> parent (henvs t ! e) = Some q \<Longrightarrow> q < e"
  shows "well_formed t \<and> grown s t"
  using assms by (fastforce simp: well_formed_def grown_def)

lemma wfD:
  assumes "well_formed s"
  shows "a < length (hlists s) \<Longrightarrow> v \<in> set (hlists s ! a) \<Longrightarrow> val_ok s v"
    "a < length (hmaps s) \<Longrightarrow> (k, v) \<in> set (hmaps s ! a) \<Longrightarrow> val_ok s v"
    "e < length (henvs s) \<Longrightarrow> (k, v) \<in> set (vars (henvs s ! e)) \<Longrightarrow> val_ok s v"
    "e < length (henvs s) \<Longrightarrow> parent (henvs s ! e) = Some q \<Longrightarrow> q < e"
    "0 < length (henvs s)"
  using assms unfolding well_formed_def by fastforce+

lemma val_ok_heap: "length (hlists t) \<ge> length (hlists s) \<Longrightarrow> length (hmaps t) \<ge> length (hmaps s) \<Longrightarrow> length (henvs t) \<ge> length (henvs s)
    \<Longrightarrow> val_ok s v \<Longrightarrow> val_ok t v"
  by (rule val_ok_grown)

lemma update_values: "(k, v) \<in> set (AList.update x w l) \<Longrightarrow> v = w \<or> (k, v) \<in> set l"
  by (induction l) (auto split: if_splits)

interpretation heap: eval_inv well_formed grown ref_ok
proof (unfold_locales, goal_cases)
  case (3 s g t)
  then show ?case by (cases g) (auto simp: grown_def intro: val_ok_grown)
next
  case (4 s t g)
  then show ?case by (cases g) (auto simp: same_heap_def intro: val_ok_grown)
next
  case (5 s G g)
  from 5(3) show ?case
    by cases (use 5(1,2) wfD(5) in \<open>fastforce simp: globals_def intro: plain_ok\<close>)+
next
  case (6 s a)
  then show ?case using wfD(1) by auto
next
  case (9 s a)
  then show ?case using wfD(2) by auto
next
  case (10 s e)
  then show ?case using wfD(3) by auto
next
  case (11 s e x d v)
  then show ?case using lookup_ok by simp
next
  case (12 s e)
  then show ?case using root_ok by simp
next
  case (13 s items t)
  have t: "hlists t = hlists s @ [items]" "hmaps t = hmaps s" "henvs t = henvs s" by (simp_all add: 13(3))
  have later: "val_ok s w \<Longrightarrow> val_ok t w" for w by (rule val_ok_heap [of s]) (simp_all add: t)
  have "well_formed t \<and> grown s t"
    by (rule wf_grow [OF 13(1)])
      (use 13(2) wfD [OF 13(1)] in \<open>auto simp: grown_def t nth_append less_Suc_eq split: if_splits intro!: later\<close>)
  then show ?case by (simp add: t)
next
  case (14 s kvs t)
  have t: "hlists t = hlists s" "hmaps t = hmaps s @ [kvs]" "henvs t = henvs s" by (simp_all add: 14(3))
  have later: "val_ok s w \<Longrightarrow> val_ok t w" for w by (rule val_ok_heap [of s]) (simp_all add: t)
  have "well_formed t \<and> grown s t"
    by (rule wf_grow [OF 14(1)])
      (use 14(2) wfD [OF 14(1)] in \<open>auto simp: grown_def t nth_append less_Suc_eq split: if_splits intro!: later\<close>)
  then show ?case by (simp add: t)
next
  case (15 s q t)
  have t: "hlists t = hlists s" "hmaps t = hmaps s" "henvs t = henvs s @ [\<lparr>parent = Some q, vars = []\<rparr>]" by (simp_all add: 15(3))
  have later: "val_ok s w \<Longrightarrow> val_ok t w" for w by (rule val_ok_heap [of s]) (simp_all add: t)
  have "well_formed t \<and> grown s t"
    by (rule wf_grow [OF 15(1)])
      (use 15(2) wfD [OF 15(1)] in \<open>auto simp: grown_def t nth_append less_Suc_eq split: if_splits intro!: later\<close>)
  then show ?case by (simp add: t)
next
  case (16 s a v i t)
  have t: "hlists t = (hlists s)[a := (hlists s ! a)[i := v]]" "hmaps t = hmaps s" "henvs t = henvs s" by (simp_all add: 16(6))
  have later: "val_ok s w \<Longrightarrow> val_ok t w" for w by (rule val_ok_heap [of s]) (simp_all add: t)
  have "well_formed t \<and> grown s t"
    by (rule wf_grow [OF 16(1)])
      (use 16(2-5) wfD [OF 16(1)] in \<open>auto simp: grown_def t nth_list_update split: if_splits dest: set_update_subset_insert [THEN subsetD] intro!: later\<close>)
  then show ?case by (simp add: t)
next
  case (17 s a v t k)
  have t: "hlists t = hlists s" "hmaps t = (hmaps s)[a := AList.update k v (hmaps s ! a)]" "henvs t = henvs s" by (simp_all add: 17(5))
  have later: "val_ok s w \<Longrightarrow> val_ok t w" for w by (rule val_ok_heap [of s]) (simp_all add: t)
  have "well_formed t \<and> grown s t"
    by (rule wf_grow [OF 17(1)])
      (use 17(2-4) wfD [OF 17(1)] in \<open>auto simp: grown_def t nth_list_update split: if_splits dest!: update_values intro!: later\<close>)
  then show ?case by (simp add: t)
next
  case (18 s e v t x)
  have t: "hlists t = hlists s" "hmaps t = hmaps s" "henvs t = (henvs s)[e := (henvs s ! e)\<lparr>vars := AList.update x v (vars (henvs s ! e))\<rparr>]" by (simp_all add: 18(5))
  have later: "val_ok s w \<Longrightarrow> val_ok t w" for w by (rule val_ok_heap [of s]) (simp_all add: t)
  have "well_formed t \<and> grown s t"
    by (rule wf_grow [OF 18(1)])
      (use 18(2-4) wfD [OF 18(1)] in \<open>auto simp: grown_def t nth_list_update split: if_splits dest!: update_values intro!: later\<close>)
  then show ?case by (simp add: t)
next
  case (19 s msg)
  then show ?case using wf_same [of "appendEcho msg s" s] by (simp add: appendEcho_def)
next
  case (20 s c)
  then show ?case using wf_same [of "s\<lparr>lastExitCode := c\<rparr>" s] by simp
next
  case (21 s w)
  then show ?case using wf_same [of "s\<lparr>rworld := w\<rparr>" s] by simp
next
  case (22 s t job)
  then show ?case using wf_same [of t s] by simp
next
  case (23 s b st)
  then show ?case using wf_same [of "applyCatchForced b st s" s] by simp
next
  case (24 s env ms)
  then show ?case using wf_same [of "pushSecrets env ms s" s] by (simp add: pushSecrets_def)
next
  case (25 s t env ms u)
  then show ?case using wf_same [of u t] by (simp add: popSecrets_def grown_def pushSecrets_def)
next
  case (26 s d)
  then show ?case using wf_same [of "enter_dir d s" s] by (simp add: enter_dir_def)
next
  case (27 s t d u)
  then show ?case using wf_same [of u t] by (simp add: leave_dir_def grown_def enter_dir_def)
next
  case (28 s n)
  then show ?case using wf_same [of "s\<lparr>executor := n\<rparr>" s] by simp
next
  case (29 s t n u)
  then show ?case using wf_same [of u t] by (simp add: grown_def)
qed (auto simp: grown_def)

interpretation heap_step: eval_calls well_formed grown ref_ok "evalN p n" for p n
  by (rule heap.evalN_calls)

lemma well_formed_bare: "well_formed (bare_runtime exe ws w)"
proof -
  have "\<forall>(k, v) \<in> set native_globals. plain v" by (auto simp: native_globals_def)
  then show ?thesis by (auto simp: well_formed_def bare_runtime_def intro: plain_ok)
qed

lemma register_wf:
  assumes "well_formed s" "seqE (registerCurrentBuild p) (registerInitialEnv p) s = Some (x, s')"
  shows "well_formed s'"
proof -
  let ?ok = "keeps well_formed grown ref_ok"
  have current: "?ok {} (registerCurrentBuild p) (\<lambda>_. {})"
    unfolding registerCurrentBuild_def
    by (auto intro!: heap.ok_ret heap.ok_bind [OF heap_step.ok_buildInfo] heap.ok_define_in intro: gives.mem split: option.split)
  have env: "?ok {} (bindE (stringMapToScript kvs) (define_in globals ''env'')) (\<lambda>_. {})" for kvs
    by (intro heap.ok_bind [OF heap_step.ok_stringMapToScript] heap.ok_define_in) (auto intro: gives.mem)
  obtain y t where t: "registerCurrentBuild p s = Some (y, t)" using assms(2) by (auto simp: seqE_def bindE_def split: option.splits)
  have wt: "well_formed t" using heap.okD(1) [OF current assms(1) _ t] by simp
  let ?t = "t\<lparr>envExtra := envExtra t @ map (\<lambda>(k, v). k @ ''='' @ v) (p_initialEnv p)\<rparr>"
  have wt2: "well_formed ?t" using wf_same [of ?t t] wt by simp
  have "well_formed u" if "registerInitialEnv p t = Some (z, u)" for z u
  proof (cases "p_initialEnv p = []")
    case False
    then have "bindE (stringMapToScript (p_initialEnv p)) (define_in globals ''env'') ?t = Some (z, u)"
      using that by (simp add: registerInitialEnv_def seqE_def modE_def bindE_def)
    then show ?thesis using heap.okD(1) [OF env wt2] by simp
  qed (use that wt in \<open>simp add: registerInitialEnv_def retE_def\<close>)
  then show ?thesis using assms(2) t wt by (cases y) (auto simp: seqE_def bindE_def split: option.splits)
qed

lemma newScriptRuntime_wf: "well_formed (newScriptRuntime p exe ws w)"
  using register_wf [OF well_formed_bare] well_formed_bare by (auto simp: newScriptRuntime_def split: option.split)

text \<open>
  The interpreter is safe for the heap: however a script is made and however its run ends, the runtime it leaves is well formed (every
  value in a list, a map or a scope refers to something that exists, scopes have older parents), no step ever follows an address
  outside the heap, and a returned or thrown value refers to something that exists.
\<close>

theorem script_sound:
  assumes "evalScriptBlock p n exe ws w b = Some ((out, e), s)"
  shows "well_formed s \<and> e \<noteq> Some Dangling \<and> (\<forall>v. e = Some (SigRet v) \<or> e = Some (SigThrow v) \<longrightarrow> val_ok s v)"
proof -
  obtain r where r: "block_in (evalN p n) globals b (newScriptRuntime p exe ws w) = Some (r, s)" "e = (case r of Inl e \<Rightarrow> Some e | Inr _ \<Rightarrow> None)"
    using assms by (auto simp: evalScriptBlock_def split: option.splits sum.splits)
  have "keeps well_formed grown ref_ok {} (block_in (evalN p n) globals b) (\<lambda>_. {})"
    by (rule heap_step.ok_block_in) simp
  from heap.okD [OF this newScriptRuntime_wf _ r(1)] r(2) show ?thesis by (auto split: sum.splits)
qed

definition demo_block :: Block where
  "demo_block = Block [VarDecl ''def'' ''f'' (Some (Closure (ClosureExpr [] (Block [ExprStmt (a_id ''it'') pos0] pos0) pos0))) pos0,
     ThrowStmt (ListExpr [a_call ''f'' [a_num ''5''] None] pos0) pos0] pos0"

theorem script_sound_witness:
  "\<exists>s. evalScriptBlock demo_seams 9 0 [] demo_added demo_block = Some (('''', Some (SigThrow (SList 0))), s) \<and> val_ok s (SList 0)"
proof -
  have "map_option fst (evalScriptBlock demo_seams 9 0 [] demo_added demo_block) = Some ('''', Some (SigThrow (SList 0)))"
    by code_simp
  from fst_ends [OF this] obtain s where s: "evalScriptBlock demo_seams 9 0 [] demo_added demo_block = Some (('''', Some (SigThrow (SList 0))), s)" ..
  from script_sound [OF s] s show ?thesis by simp
qed

text \<open>
  Arithmetic stays within 64 bits: in a well-formed runtime an expression that yields a number yields one between \<^verbatim>\<open>math.MinInt64\<close> and
  \<^verbatim>\<open>math.MaxInt64\<close>, whatever it computes on the way (sums, products, the quotient of the least number by minus one, lengths, exit codes).
\<close>

theorem numbers_in_range:
  assumes "evalN p n (TE env e) s = Some (Inr (SNum k), s')" "well_formed s" "env < length (henvs s)"
  shows "min_int \<le> k \<and> k \<le> max_int"
  using heap.evalN_keeps(3) [OF assms(2) _ assms(1)] assms(3) by (simp add: in64_def)

definition demo_product :: Expr where
  "demo_product = BinaryExpr ''*'' (a_num ''4611686018427387905'') (a_num ''3'') pos0"

lemma demo_product_wraps: "evalN demo_seams 3 (TE 0 demo_product) s = Some (Inr (SNum (- 4611686018427387901)), s)"
proof -
  have a: "Atoi ''4611686018427387905'' = Some 4611686018427387905" "Atoi ''3'' = Some 3"
    by (simp_all add: Atoi_def digits_nat_def is_digit_def less_eq_char_def digit_val_def max_int_def min_int_def)
  have g: "go_int 13835058055282163715 = - 4611686018427387901" by (simp add: go_int_def)
  show ?thesis
    by (simp add: demo_product_def a_num_def eval_nat_numeral evalTask_def evalExpr_def evalBinary_def evE_def bindE_def retE_def binary_op_def a g)
qed

theorem numbers_in_range_witness:
  "evalN demo_seams 3 (TE 0 demo_product) demo_rt = Some (Inr (SNum (- 4611686018427387901)), demo_rt)
     \<and> min_int \<le> - 4611686018427387901 \<and> (- 4611686018427387901 :: int) \<le> max_int"
proof -
  have wf: "well_formed demo_rt" unfolding demo_rt_def by (rule newScriptRuntime_wf)
  then have "0 < length (henvs demo_rt)" by (rule wfD(5))
  from numbers_in_range [OF demo_product_wraps wf this] demo_product_wraps show ?thesis by simp
qed

section \<open>Secrets in the log\<close>

definition hideable :: "string \<Rightarrow> bool" where
  "hideable m \<longleftrightarrow> m \<noteq> '''' \<and> CHR ''*'' \<notin> set m"

lemma prefix_replaced: "CHR ''*'' \<notin> set q \<Longrightarrow> prefix q (replace_from m stars 0 t) \<Longrightarrow> m \<noteq> [] \<Longrightarrow> prefix q t"
proof (induction t arbitrary: q)
  case (Cons c t)
  show ?case
  proof (cases "prefix m (c # t)")
    case True
    then have "prefix q (stars @ replace_from m stars (length m - 1) t)" using Cons.prems by simp
    then have "q = []" using Cons.prems(1) by (cases q) (auto simp: stars_def)
    then show ?thesis by simp
  next
    case False
    with Cons show ?thesis by (cases q) auto
  qed
qed simp

text \<open>An occurrence in the replaced text, of a text without a star, starts at a place that was looked at and kept.\<close>

lemma sublist_replaced:
  assumes "CHR ''*'' \<notin> set q" "q \<noteq> []" "m \<noteq> []"
  shows "sublist q (replace_from m stars k t) \<Longrightarrow> \<exists>u. suffix u t \<and> prefix q u \<and> \<not> prefix m u"
proof (induction t arbitrary: k)
  case (Cons c t)
  have lift: "\<exists>u. suffix u t \<and> prefix q u \<and> \<not> prefix m u \<Longrightarrow> \<exists>u. suffix u (c # t) \<and> prefix q u \<and> \<not> prefix m u"
    by (blast intro: suffix_ConsI)
  show ?case
  proof (cases "k > 0")
    case True
    then have "sublist q (replace_from m stars (k - 1) t)" using Cons.prems by simp
    from lift [OF Cons.IH [OF this]] show ?thesis .
  next
    case k: False
    show ?thesis
    proof (cases "prefix m (c # t)")
      case True
      then have "sublist q (stars @ replace_from m stars (length m - 1) t)" using Cons.prems k by simp
      then consider "sublist q stars" | "sublist q (replace_from m stars (length m - 1) t)"
        | v w where "q = v @ w" "suffix v stars" "prefix w (replace_from m stars (length m - 1) t)"
        unfolding sublist_append by blast
      then have "sublist q (replace_from m stars (length m - 1) t)"
      proof cases
        case 1
        then have "set q \<subseteq> {CHR ''*''}" using set_mono_sublist [of q stars] by (simp add: stars_def)
        then show ?thesis using assms(1,2) by (cases q) auto
      next
        case (3 v w)
        then have "set v \<subseteq> {CHR ''*''}" using set_mono_suffix [of v stars] by (simp add: stars_def)
        then have "v = []" using assms(1) 3(1) by (cases v) auto
        then show ?thesis using 3 by auto
      qed
      from lift [OF Cons.IH [OF this]] show ?thesis .
    next
      case False
      then have "sublist q (c # replace_from m stars 0 t)" using Cons.prems k by simp
      then consider "prefix q (c # replace_from m stars 0 t)" | "sublist q (replace_from m stars 0 t)"
        by (auto simp: sublist_Cons_right)
      then show ?thesis
      proof cases
        case 1
        then have "prefix q (replace_from m stars 0 (c # t))" using False by simp
        then have "prefix q (c # t)" using prefix_replaced assms(1,3) by blast
        then show ?thesis using False by blast
      next
        case 2
        from lift [OF Cons.IH [OF this]] show ?thesis .
      qed
    qed
  qed
qed (use assms(2) in simp)

lemma replaced_once: "hideable m \<Longrightarrow> \<not> sublist m (replace_from m stars 0 t)"
  using sublist_replaced [of m m 0 t] by (auto simp: hideable_def)

lemma replaced_keeps: "hideable q \<Longrightarrow> m \<noteq> [] \<Longrightarrow> \<not> sublist q t \<Longrightarrow> \<not> sublist q (replace_from m stars 0 t)"
proof
  assume a: "hideable q" "m \<noteq> []" "\<not> sublist q t" "sublist q (replace_from m stars 0 t)"
  then obtain u where "suffix u t" "prefix q u" using sublist_replaced [of q m 0 t] by (auto simp: hideable_def)
  then show False using a(3) by (meson prefix_imp_sublist sublist_order.order_trans suffix_imp_sublist)
qed

lemma maskOutput_hides: "hideable m \<Longrightarrow> m \<in> set ms \<or> \<not> sublist m t \<Longrightarrow> \<not> sublist m (maskOutput ms t)"
proof (induction ms arbitrary: t)
  case (Cons q ms)
  let ?t = "if q = '''' then t else replace_from q stars 0 t"
  have "m \<in> set ms \<or> \<not> sublist m ?t" using Cons.prems replaced_once replaced_keeps by (auto simp: hideable_def)
  then have "\<not> sublist m (maskOutput ms ?t)" by (rule Cons.IH [OF Cons.prems(1)])
  then show ?case by (simp add: maskOutput_def)
qed (simp add: maskOutput_def)

definition masked :: "rt \<Rightarrow> rt \<Rightarrow> bool" where
  "masked s s' \<longleftrightarrow> masks s' = masks s
     \<and> (\<exists>new. echoBuf s' = echoBuf s @ new \<and> (\<forall>l \<in> set new. \<forall>m \<in> set (masks s). hideable m \<longrightarrow> \<not> sublist m l))"

lemma masked_same: "masks t = masks s \<Longrightarrow> echoBuf t = echoBuf s \<Longrightarrow> masked s t"
  by (simp add: masked_def)

lemma masked_trans: "masked s t \<Longrightarrow> masked t u \<Longrightarrow> masked s u"
  unfolding masked_def by (metis Un_iff append.assoc set_append)

lemma masked_echo: "masked s (appendEcho msg s)"
  using maskOutput_hides [of _ "masks s" msg] by (simp add: masked_def appendEcho_def)

lemma masked_pop:
  "masked (pushSecrets env ms s) t \<Longrightarrow> \<exists>new. echoBuf t = echoBuf s @ new \<and> (\<forall>l \<in> set new. \<forall>m \<in> set (masks s @ ms). hideable m \<longrightarrow> \<not> sublist m l)"
  "masked (pushSecrets env ms s) t \<Longrightarrow> masks (popSecrets (length (envExtra s), length (masks s)) t) = masks s"
  by (auto simp: masked_def pushSecrets_def popSecrets_def)

interpretation log: eval_inv "\<lambda>_. True" masked "\<lambda>_ _. True"
proof (unfold_locales, goal_cases)
  case (2 s t u)
  then show ?case by (rule masked_trans)
next
  case (25 s t env ms u)
  from masked_pop [OF 25(3)] 25(4) show ?case by (auto simp: masked_def popSecrets_def)
next
  case (27 s t d u)
  then show ?case by (simp add: masked_def enter_dir_def leave_dir_def)
next
  case (29 s t n u)
  then show ?case by (simp add: masked_def)
qed (auto simp: masked_echo masked_same)

text \<open>
  C32. A secret does not reach the log of a build whose branches do not overlap. While the body of a \<^verbatim>\<open>withCredentials\<close> runs, with the
  branches of any \<^verbatim>\<open>parallel\<close> in it one after another, and however the body ends, no line that is added to the log contains a secret of the
  block, or one of the blocks around it, provided the secret is not empty and has no star in it (the replacement is eight stars,
  so one with stars could come out of it). Branches that do run at the same time share the masks, and one can take away those
  of another: \<open>overlap_leaks\<close>.
\<close>

theorem log_hides_secrets:
  assumes "with_secrets env ms (evalN p n t) s = Some (x, s')"
  shows "\<exists>new. echoBuf s' = echoBuf s @ new \<and> (\<forall>l \<in> set new. \<forall>m \<in> set (masks s @ ms). hideable m \<longrightarrow> \<not> sublist m l)"
proof -
  obtain u where u: "evalN p n t (pushSecrets env ms s) = Some (x, u)" "s' = popSecrets (length (envExtra s), length (masks s)) u"
    using assms by (auto simp: with_secrets_def deferE_def split: option.splits)
  have "masked (pushSecrets env ms s) u" using log.evalN_keeps(2) [OF _ _ u(1)] by simp
  from masked_pop(1) [OF this] u(2) show ?thesis by (simp add: popSecrets_def)
qed

definition demo_leak :: Stmt where
  "demo_leak = s_call ''sh'' [a_str ''echo s3cret''] None"

theorem log_hides_secrets_witness:
  "\<exists>s l. with_secrets [''T=s3cret''] [''s3cret''] (evalN demo_seams 6 (TS 0 demo_leak)) demo_rt = Some (Inr SNull, s)
     \<and> echoBuf s = [l] \<and> l = ''echo ********'' \<and> \<not> sublist ''s3cret'' l"
proof -
  let ?m = "with_secrets [''T=s3cret''] [''s3cret''] (evalN demo_seams 6 (TS 0 demo_leak))"
  have "map_option (\<lambda>(x, s). (x, echoBuf s)) (?m demo_rt) = Some (Inr SNull, [''echo ********''])" by code_simp
  then obtain s where s: "?m demo_rt = Some (Inr SNull, s)" "echoBuf s = [''echo ********'']" by auto
  have "hideable ''s3cret''" "echoBuf demo_rt = []" by code_simp+
  with log_hides_secrets [OF s(1)] s(2) have "\<not> sublist ''s3cret'' ''echo ********''" by auto
  with s show ?thesis by blast
qed

section \<open>Verdicts\<close>

definition no_better :: "rt \<Rightarrow> rt \<Rightarrow> bool" where
  "no_better s s' \<longleftrightarrow> severity (catchForcedBuild s) \<le> severity (catchForcedBuild s') \<and> severity (catchForcedStage s) \<le> severity (catchForcedStage s')"

interpretation verdict: eval_inv "\<lambda>_. True" no_better "\<lambda>_ _. True"
  by unfold_locales (auto simp: no_better_def applyCatchForced_def isMoreSevereStatus_def Let_def appendEcho_def pushSecrets_def popSecrets_def
      enter_dir_def leave_dir_def)

text \<open>
  A verdict of \<^verbatim>\<open>catchError\<close> is never improved: whatever a step evaluates, the statuses it forces on the build and on the stage only get
  more severe, so a later \<^verbatim>\<open>SUCCESS\<close> does not cover an earlier failure, in whatever order nested blocks record them.
\<close>

theorem verdict_only_worsens:
  assumes "evalN p n t s = Some (x, s')"
  shows "severity (catchForcedBuild s) \<le> severity (catchForcedBuild s') \<and> severity (catchForcedStage s) \<le> severity (catchForcedStage s')"
  using verdict.evalN_keeps(2) [OF _ _ assms] by (simp add: no_better_def)

definition demo_caught :: Stmt where
  "demo_caught = s_call ''catchError'' [] (Some [s_call ''build'' [a_str ''deploy''] None])"

theorem verdict_only_worsens_witness:
  "\<exists>s. evalN demo_seams 9 (TS 0 demo_caught) (demo_rt\<lparr>catchForcedBuild := BuildSuccess\<rparr>) = Some (Inr SNull, s)
     \<and> catchForcedBuild s = BuildFailure \<and> severity BuildSuccess \<le> severity (catchForcedBuild s)"
proof -
  let ?s = "demo_rt\<lparr>catchForcedBuild := BuildSuccess\<rparr>"
  have "map_option (\<lambda>(x, s). (x, catchForcedBuild s)) (evalN demo_seams 9 (TS 0 demo_caught) ?s) = Some (Inr SNull, BuildFailure)" by code_simp
  then obtain s where s: "evalN demo_seams 9 (TS 0 demo_caught) ?s = Some (Inr SNull, s)" "catchForcedBuild s = BuildFailure" by auto
  from verdict_only_worsens [OF s(1)] s show ?thesis by simp
qed

end
