(* ===== verification/EvalFuel.thy ===== *)
theory EvalFuel
  imports EvalCalls ScriptDemo
begin

text \<open>
  Fuel: \<open>below m m'\<close> says that \<open>m'\<close> ends as \<open>m\<close> does wherever \<open>m\<close> ends. Every construct is monotone in its table, so a result reached
  at one level is the result at every higher level.
\<close>

definition below :: "'a ev \<Rightarrow> 'a ev \<Rightarrow> bool" where
  "below m m' \<longleftrightarrow> (\<forall>s. m s = None \<or> m' s = m s)"

named_theorems below_intros \<open>monotonicity in the table of the recursive calls\<close>

lemma below_refl [below_intros]: "below m m"
  by (simp add: below_def)

lemma belowI: "(\<And>s y. m s = Some y \<Longrightarrow> m' s = Some y) \<Longrightarrow> below m m'"
  unfolding below_def by (metis option.exhaust)

lemma belowD: "below m m' \<Longrightarrow> m s = Some y \<Longrightarrow> m' s = Some y"
  unfolding below_def by (metis option.distinct(1))

lemma below_bind [below_intros]:
  assumes "below m m'" "\<And>x. below (f x) (f' x)"
  shows "below (bindE m f) (bindE m' f')"
proof (rule belowI)
  fix s y
  assume y: "bindE m f s = Some y"
  then obtain x t where x: "m s = Some (x, t)" by (auto simp: bindE_def split: option.splits)
  note x' = belowD [OF assms(1) x]
  from y x x' show "bindE m' f' s = Some y" by (cases x) (auto simp: bindE_def intro: belowD [OF assms(2)])
qed

lemma below_seq [below_intros]: "below m m' \<Longrightarrow> below k k' \<Longrightarrow> below (seqE m k) (seqE m' k')"
  unfolding seqE_def by (rule below_bind)

lemma below_try [below_intros]: "below m m' \<Longrightarrow> below (tryE m) (tryE m')"
  by (rule belowI) (auto simp: tryE_def split: option.splits dest: belowD)

lemma below_secrets [below_intros]: "below m m' \<Longrightarrow> below (with_secrets env ms m) (with_secrets env ms m')"
  by (rule belowI) (auto simp: with_secrets_def deferE_def split: option.splits dest: belowD)

lemma below_in_dir [below_intros]: "below m m' \<Longrightarrow> below (in_dir d m) (in_dir d m')"
  by (rule belowI) (auto simp: in_dir_def deferE_def split: option.splits dest: belowD)

lemma below_on_executor [below_intros]: "below m m' \<Longrightarrow> below (on_executor n m) (on_executor n m')"
  by (rule belowI) (auto simp: on_executor_def deferE_def split: option.splits dest: belowD)

lemma below_wrap [below_intros]: "below m m' \<Longrightarrow> below (wrapE what m) (wrapE what m')"
  unfolding wrapE_def by (intro below_intros)

lemma below_mapE [below_intros]: "(\<And>x. below (f x) (f' x)) \<Longrightarrow> below (mapE f xs) (mapE f' xs)"
  by (induction xs) (auto intro: below_intros)

lemma below_loopE [below_intros]: "(\<And>x. below (f x) (f' x)) \<Longrightarrow> below (loopE f xs) (loopE f' xs)"
  by (induction xs) (auto intro!: below_intros)

lemma below_if [below_intros]: "below a a' \<Longrightarrow> below b b' \<Longrightarrow> below (if c then a else b) (if c then a' else b')"
  by simp

lemma below_let [below_intros]: "(\<And>x. below (f x) (f' x)) \<Longrightarrow> below (Let t f) (Let t f')"
  by simp

lemma below_prod [below_intros]: "(\<And>a b. below (f a b) (f' a b)) \<Longrightarrow> below (case_prod f x) (case_prod f' x)"
  by (cases x) simp

lemma below_option [below_intros]: "below a a' \<Longrightarrow> (\<And>y. below (f y) (f' y)) \<Longrightarrow> below (case_option a f x) (case_option a' f' x)"
  by (cases x) auto

lemma below_sum [below_intros]: "(\<And>e. below (a e) (a' e)) \<Longrightarrow> (\<And>y. below (f y) (f' y)) \<Longrightarrow> below (case_sum a f x) (case_sum a' f' x)"
  by (cases x) auto

lemma below_list [below_intros]: "below a a' \<Longrightarrow> (\<And>y ys. below (f y ys) (f' y ys)) \<Longrightarrow> below (case_list a f x) (case_list a' f' x)"
  by (cases x) auto

lemma below_sval [below_intros]:
  assumes "below f1 g1" "\<And>b. below (f2 b) (g2 b)" "\<And>n. below (f3 n) (g3 n)" "\<And>t. below (f4 t) (g4 t)" "\<And>a. below (f5 a) (g5 a)"
    "\<And>a. below (f6 a) (g6 a)" "\<And>ps b e. below (f7 ps b e) (g7 ps b e)" "\<And>f. below (f8 f) (g8 f)" "\<And>t m. below (f9 t m) (g9 t m)"
  shows "below (case_sval f1 f2 f3 f4 f5 f6 f7 f8 f9 v) (case_sval g1 g2 g3 g4 g5 g6 g7 g8 g9 v)"
  using assms by (cases v) auto

lemma below_serr [below_intros]:
  assumes "\<And>v. below (f1 v) (g1 v)" "below f2 g2" "below f3 g3" "\<And>v. below (f4 v) (g4 v)" "\<And>v. below (f5 v) (g5 v)" "below f6 g6" "below f7 g7"
  shows "below (case_serr f1 f2 f3 f4 f5 f6 f7 e) (case_serr g1 g2 g3 g4 g5 g6 g7 e)"
  using assms by (cases e) auto

lemma below_node [below_intros]: "(\<And>t. below (f1 t) (g1 t)) \<Longrightarrow> (\<And>b t. below (f2 b t) (g2 b t)) \<Longrightarrow> below (case_node f1 f2 n) (case_node g1 g2 n)"
  by (cases n) auto

locale below_calls =
  fixes r r' :: ktable
  assumes calls: "below (r t) (r' t)"
begin

lemmas steps = below_intros calls

lemma below_evE [below_intros]: "below (evE r env e) (evE r' env e)"
  unfolding evE_def by (rule calls)

lemma below_evS [below_intros]: "below (evS r env st) (evS r' env st)"
  unfolding evS_def by (intro steps)

lemma below_callC [below_intros]: "below (callC r ps b env args) (callC r' ps b env args)"
  unfolding callC_def by (rule calls)

lemma below_str_of [below_intros]: "below (str_of r v) (str_of r' v)"
  unfolding str_of_def by (intro steps)

lemma below_stringify [below_intros]: "below (stringify r v) (stringify r' v)"
  unfolding stringify_def by (intro below_intros)

lemma below_call0 [below_intros]: "below (call0 r v m) (call0 r' v m)"
  unfolding call0_def by (intro below_intros)

lemma below_walk [below_intros]: "below (walk p r src dst pats pth d) (walk p r' src dst pats pth d)"
  unfolding walk_def by (intro below_intros calls)

lemma below_copy [below_intros]: "below (walk_root r src dst pats) (walk_root r' src dst pats)"
  unfolding walk_root_def by (intro below_intros calls)

lemma below_param [below_intros]: "below (build_param r v) (build_param r' v)"
  unfolding build_param_def by (intro below_intros)

lemma below_params [below_intros]: "below (unrollBuildParams r raw) (unrollBuildParams r' raw)"
  unfolding unrollBuildParams_def by (intro below_intros)

lemma below_evalBlock [below_intros]: "below (evalBlock r env b) (evalBlock r' env b)"
  unfolding evalBlock_def by (intro below_intros)

lemma below_load [below_intros]: "below (load_script r txt full) (load_script r' txt full)"
  unfolding load_script_def by (intro below_intros)

lemma below_run_branch [below_intros]: "below (run_branch r v) (run_branch r' v)"
  unfolding run_branch_def by (intro below_intros)

lemma below_branches [below_intros]: "below (branches r e bs) (branches r' e bs)"
  by (induction bs arbitrary: e) (auto intro!: below_intros)

lemma below_step [below_intros]: "below (invokeStep p r name args) (invokeStep p r' name args)"
  unfolding invokeStep_def nativeParallel_def nativeEcho_def nativeError_def nativeScript_def nativeDir_def nativeStash_def nativeUnstash_def
    nativeArchiveArtifacts_def copyByGlob_def copyTree_def nativeWithCredentials_def nativeSshagent_def nativeLoad_def nativeBuild_def
    nativeCatchError_def nativeNode_def
  by (intro below_intros)

lemma below_list_method [below_intros]: "below (list_method r name a args) (list_method r' name a args)"
  unfolding list_method_def by (intro below_intros)

lemma below_native [below_intros]: "below (invokeNative p r f args) (invokeNative p r' f args)"
  unfolding invokeNative_def by (cases f) (auto intro: below_intros)

lemma below_callable [below_intros]: "below (invokeCallable p r fn args) (invokeCallable p r' fn args)"
  unfolding invokeCallable_def by (intro below_intros)

lemma below_member [below_intros]: "below (memberAccess r obj name) (memberAccess r' obj name)"
  unfolding memberAccess_def listMember_def by (intro below_intros)

lemma below_assign [below_intros]: "below (assignTo r env target v) (assignTo r' env target v)"
  unfolding assignTo_def subscriptSet_def by (cases target) (auto intro!: below_intros)

lemma below_binary_op [below_intros]: "below (binary_op r opr l rv) (binary_op r' opr l rv)"
  unfolding binary_op_def by (intro below_intros)

lemma below_binary [below_intros]: "below (evalBinary r env opr l rh) (evalBinary r' env opr l rh)"
  unfolding evalBinary_def by (intro below_intros)

lemma below_args [below_intros]: "below (collectCallArgs r env cargs c) (collectCallArgs r' env cargs c)"
  unfolding collectCallArgs_def by (intro below_intros)

lemma below_msg [below_intros]: "below (new_msg r env as) (new_msg r' env as)"
  by (induction as) (auto intro!: below_intros)

lemma below_key [below_intros]: "below (map_key r env k) (map_key r' env k)"
  unfolding map_key_def by (cases k) (auto intro!: below_intros)

lemma below_expr: "below (evalExpr p r env e) (evalExpr p r' env e)"
  unfolding evalExpr_def subscriptGet_def by (cases e; simp) (intro below_intros)+

lemma below_loop_body [below_intros]: "below (loop_body r env b) (loop_body r' env b)"
  unfolding loop_body_def by (intro below_intros)

lemma below_forEach [below_intros]: "below (forEach r env iter x b) (forEach r' env iter x b)"
  unfolding forEach_def forEach_body_def by (intro below_intros)

lemma below_block [below_intros]: "below (block_in r env b) (block_in r' env b)"
  unfolding block_in_def by (intro below_intros)

lemma below_evalTry [below_intros]: "below (evalTry r env b catches fin) (evalTry r' env b catches fin)"
  unfolding evalTry_def by (intro below_intros)

lemma below_stmt: "below (evalStmt r env st) (evalStmt r' env st)"
  unfolding evalStmt_def by (cases st; simp) (intro below_intros)+

lemma below_run_body [below_intros]: "below (run_body r env sts) (run_body r' env sts)"
proof (induction sts)
  case (Cons st sts)
  then show ?case by (cases sts; cases st) (auto intro!: below_intros)
qed (simp add: below_refl)

lemma below_closure: "below (invokeClosure r ps b env args) (invokeClosure r' ps b env args)"
  unfolding invokeClosure_def by (intro below_intros)

lemma below_task: "below (evalTask p r t) (evalTask p r' t)"
  by (cases t) (auto simp: evalTask_def intro!: below_expr below_closure below_seq [OF below_stmt] below_intros)

end

lemma evalN_Suc_below: "below (evalN p n t) (evalN p (Suc n) t)"
proof (induction n arbitrary: t)
  case 0
  show ?case by (simp add: below_def)
next
  case (Suc n)
  have "below_calls (evalN p n) (evalN p (Suc n))" by (rule below_calls.intro) (rule Suc.IH)
  then show ?case unfolding evalN.simps(2) [of p n] evalN.simps(2) [of p "Suc n"] by (rule below_calls.below_task)
qed

interpretation more_fuel: below_calls "evalN p n" "evalN p (Suc n)" for p n
  by (rule below_calls.intro) (rule evalN_Suc_below)

text \<open>
  Fuel is no part of the meaning: a task that ends at one level ends at every higher level with the same value or error and the same
  runtime, so what a script does is one outcome or none.
\<close>

theorem fuel_irrelevant:
  assumes "evalN p n t s = Some out" "n \<le> m"
  shows "evalN p m t s = Some out"
  using assms(2,1)
proof (induction m rule: dec_induct)
  case (step m)
  then have "evalN p m t s = Some out" by simp
  then show ?case by (rule belowD [OF evalN_Suc_below])
qed

definition demo_count :: Stmt where
  "demo_count = ExprStmt (a_call ''echo'' [ListExpr [a_num ''1'', a_num ''2''] pos0] None) pos0"

theorem fuel_irrelevant_witness:
  "\<exists>s. evalN demo_seams 9 (TS 0 demo_count) demo_rt = Some (Inr SNull, s) \<and> evalN demo_seams 500 (TS 0 demo_count) demo_rt = Some (Inr SNull, s)"
proof -
  have "map_option fst (evalN demo_seams 9 (TS 0 demo_count) demo_rt) = Some (Inr SNull)" by code_simp
  then obtain s where s: "evalN demo_seams 9 (TS 0 demo_count) demo_rt = Some (Inr SNull, s)" by auto
  from fuel_irrelevant [OF this, of 500] s show ?thesis by simp
qed

end
