(* ===== verification/Parallel.thy ===== *)
theory Parallel
  imports ScriptDemo "HOL-Library.Multiset"
begin

text \<open>
  The \<^verbatim>\<open>parallel\<close> step: every branch runs, and the first error is the one reported. The second part has the branches' \<^verbatim>\<open>withCredentials\<close> blocks
  interleaved. The stack of secrets is a Go slice that all branches share, a frame is a length of it, and each push and each pop is
  one critical section of \<^verbatim>\<open>secretMu\<close>.
\<close>

section \<open>Branches\<close>

definition first_err :: "(serr + sval) list \<Rightarrow> serr option" where
  "first_err outs = (case find isl outs of Some (Inl e) \<Rightarrow> Some e | _ \<Rightarrow> None)"

text \<open>\<open>branch_runs r bs s outs s'\<close>: the branches \<open>bs\<close> run one after the other, each to its own end.\<close>

inductive branch_runs :: "ktable \<Rightarrow> sval list \<Rightarrow> rt \<Rightarrow> (serr + sval) list \<Rightarrow> rt \<Rightarrow> bool" for r where
  ran_none: "branch_runs r [] s [] s"
| ran_one: "run_branch r b s = Some (out, s1) \<Longrightarrow> branch_runs r bs s1 outs s' \<Longrightarrow> branch_runs r (b # bs) s (out # outs) s'"

lemma first_err_Cons [simp]: "first_err (Inr v # outs) = first_err outs" "first_err (Inl e # outs) = Some e"
  by (simp_all add: first_err_def)

lemma branches_err:
  assumes "run_branch r (snd b) s = Some (Inl x, s1)" "x \<noteq> SPanic"
  shows "branches r e (b # bs) s = branches r (case e of None \<Rightarrow> Some x | Some y \<Rightarrow> e) bs s1"
  using assms by (cases x; cases e) (simp_all add: bindE_def tryE_def)

lemma branches_ran:
  "branches r e bs s = Some (res, s') \<Longrightarrow> res \<noteq> Inl SPanic
    \<Longrightarrow> \<exists>outs. branch_runs r (map snd bs) s outs s' \<and> res = Inr (case e of None \<Rightarrow> first_err outs | Some x \<Rightarrow> e)"
proof (induction bs arbitrary: e s)
  case Nil
  then show ?case by (auto simp: retE_def first_err_def intro: ran_none split: option.split)
next
  case (Cons b bs)
  then obtain out s1 where b: "run_branch r (snd b) s = Some (out, s1)" by (auto simp: bindE_def tryE_def split: option.splits)
  show ?case
  proof (cases out)
    case (Inr v)
    with Cons.prems b have "branches r e bs s1 = Some (res, s')" by (simp add: bindE_def tryE_def)
    from Cons.IH [OF this Cons.prems(2)] obtain outs where
      o: "branch_runs r (map snd bs) s1 outs s'" "res = Inr (case e of None \<Rightarrow> first_err outs | Some x \<Rightarrow> e)" by blast
    show ?thesis using o(2) ran_one [OF b o(1)] Inr by (intro exI [of _ "out # outs"]) (auto split: option.split)
  next
    case (Inl x)
    have "x \<noteq> SPanic" using Cons.prems b Inl by (auto simp: bindE_def tryE_def failE_def)
    with Cons.prems b Inl have "branches r (case e of None \<Rightarrow> Some x | Some _ \<Rightarrow> e) bs s1 = Some (res, s')"
      using branches_err [of r b s x s1] by simp
    from Cons.IH [OF this Cons.prems(2)] obtain outs where
      o: "branch_runs r (map snd bs) s1 outs s'" "res = Inr (case e of None \<Rightarrow> Some x | Some y \<Rightarrow> e)" by (auto split: option.splits)
    show ?thesis using o(2) ran_one [OF b o(1)] Inl by (intro exI [of _ "out # outs"]) (auto split: option.split)
  qed
qed

text \<open>
  C36. \<^verbatim>\<open>parallel\<close> runs every branch: when all values of the map are closures and no branch panics, each closure has run to its own
  end exactly once, whatever the others did, and the step fails exactly when a branch failed, with the error of the one that failed first.
\<close>

theorem parallel_runs_all:
  assumes "nativeParallel p r [SMap a] s = Some (res, s')" "a < length (hmaps s)" "list_all (is_clos \<circ> snd) (hmaps s ! a)" "res \<noteq> Inl SPanic"
  shows "\<exists>bs outs. mset bs = mset (map snd (hmaps s ! a)) \<and> branch_runs r bs s outs s'
     \<and> res = (case first_err outs of None \<Rightarrow> Inr SNull | Some e \<Rightarrow> Inl e)"
proof -
  let ?m = "hmaps s ! a" and ?bs = "sort_key (\<lambda>(k, v). p_rank p k) (hmaps s ! a)"
  have all: "takeWhile (\<lambda>(k, v). is_clos v) ?m = ?m" "dropWhile (\<lambda>(k, v). is_clos v) ?m = []"
    using assms(3) by (auto simp: takeWhile_eq_all_conv dropWhile_eq_Nil_conv list_all_iff)
  from assms(1,2) obtain x where x: "branches r None ?bs s = Some (x, s')" "res = (case x of Inl e \<Rightarrow> Inl e | Inr None \<Rightarrow> Inr SNull | Inr (Some e) \<Rightarrow> Inl e)"
    by (auto simp: nativeParallel_def bindE_def readMap_def all retE_def failE_def split: option.splits sum.splits)
  with assms(4) have "x \<noteq> Inl SPanic" by auto
  from branches_ran [OF x(1) this] obtain outs where "branch_runs r (map snd ?bs) s outs s'" "x = Inr (first_err outs)" by auto
  moreover have "mset (map snd ?bs) = mset (map snd ?m)" by (simp only: mset_map mset_sort)
  ultimately show ?thesis using x(2) by (intro exI [of _ "map snd ?bs"] exI [of _ outs]) (auto split: option.split)
qed

definition demo_branches :: "(string \<times> sval) list" where
  "demo_branches = [(''a'', SClos [] (Block [s_call ''error'' [a_str ''no''] None] pos0) 0),
     (''b'', SClos [] (Block [s_call ''echo'' [a_str ''done''] None] pos0) 0)]"

theorem parallel_runs_all_witness:
  "\<exists>s' bs outs. nativeParallel demo_seams (evalN demo_seams 8) [SMap 0] (demo_rt\<lparr>hmaps := [demo_branches]\<rparr>)
        = Some (Inl (SigThrow (SExcept ''FlowInterruptedException'' ''no'')), s')
     \<and> mset bs = mset (map snd demo_branches) \<and> branch_runs (evalN demo_seams 8) bs (demo_rt\<lparr>hmaps := [demo_branches]\<rparr>) outs s'
     \<and> first_err outs \<noteq> None"
proof -
  let ?s = "demo_rt\<lparr>hmaps := [demo_branches]\<rparr>"
  let ?x = "Inl (SigThrow (SExcept ''FlowInterruptedException'' ''no'')) :: serr + sval"
  have "map_option fst (nativeParallel demo_seams (evalN demo_seams 8) [SMap 0] ?s) = Some ?x" by code_simp
  then obtain s' where s': "nativeParallel demo_seams (evalN demo_seams 8) [SMap 0] ?s = Some (?x, s')" by auto
  have "list_all (is_clos \<circ> snd) demo_branches" by (simp add: demo_branches_def is_clos_def)
  with parallel_runs_all [OF s'] s' show ?thesis by (fastforce split: option.splits)
qed

section \<open>Secrets of interleaved branches\<close>

text \<open>A Go slice: the backing array and the length. \<open>grow n\<close> is the room the run-time system adds when it moves \<open>n\<close> elements.\<close>

type_synonym slice = "string list \<times> nat"

definition visible :: "slice \<Rightarrow> string list" where "visible sl = take (snd sl) (fst sl)"

definition go_append :: "(nat \<Rightarrow> nat) \<Rightarrow> slice \<Rightarrow> string list \<Rightarrow> slice" where
  "go_append grow sl xs = (let n = snd sl + length xs in
     if n \<le> length (fst sl) then (visible sl @ xs @ drop n (fst sl), n) else (visible sl @ xs @ replicate (grow n) '''', n))"

definition reslice :: "nat \<Rightarrow> slice \<Rightarrow> slice option" where
  "reslice n sl = (if n \<le> length (fst sl) then Some (fst sl, n) else None)"

text \<open>The locals of a \<^verbatim>\<open>withCredentials\<close> call that is in its body, by branch, and the shared stacks.\<close>

record block =
  bl_branch :: nat
  bl_frame :: "nat \<times> nat"
  bl_env :: "string list"
  bl_masks :: "string list"

record stacks =
  env_sl :: slice
  mask_sl :: slice
  inside :: "block list"

datatype sec_event = Push nat "string list" "string list" | Pop nat

text \<open>One critical section. \<open>None\<close>: the event cannot happen, or a slice expression panics.\<close>

fun sec_act :: "(nat \<Rightarrow> nat) \<Rightarrow> sec_event \<Rightarrow> stacks \<Rightarrow> stacks option" where
  "sec_act grow (Push i env ms) s =
     (if i \<in> bl_branch ` set (inside s) then None
      else Some \<lparr>env_sl = go_append grow (env_sl s) env, mask_sl = go_append grow (mask_sl s) ms,
        inside = \<lparr>bl_branch = i, bl_frame = (snd (env_sl s), snd (mask_sl s)), bl_env = env, bl_masks = ms\<rparr> # inside s\<rparr>)"
| "sec_act grow (Pop i) s =
     (case find (\<lambda>b. bl_branch b = i) (inside s) of
        None \<Rightarrow> None
      | Some b \<Rightarrow>
          (case (reslice (fst (bl_frame b)) (env_sl s), reslice (snd (bl_frame b)) (mask_sl s)) of
             (Some e, Some m) \<Rightarrow> Some \<lparr>env_sl = e, mask_sl = m, inside = filter (\<lambda>c. bl_branch c \<noteq> i) (inside s)\<rparr>
           | _ \<Rightarrow> None))"

fun sec_run :: "(nat \<Rightarrow> nat) \<Rightarrow> sec_event list \<Rightarrow> stacks \<Rightarrow> stacks option" where
  "sec_run grow [] s = Some s"
| "sec_run grow (ev # evs) s = (case sec_act grow ev s of None \<Rightarrow> None | Some s' \<Rightarrow> sec_run grow evs s')"

definition slice_ok :: "slice \<Rightarrow> bool" where "slice_ok sl \<longleftrightarrow> snd sl \<le> length (fst sl)"

lemma go_append_visible [simp]: "slice_ok sl \<Longrightarrow> visible (go_append grow sl xs) = visible sl @ xs"
  by (auto simp: visible_def go_append_def slice_ok_def Let_def min_def)

lemma go_append_ok [simp]: "slice_ok sl \<Longrightarrow> slice_ok (go_append grow sl xs)"
  by (auto simp: visible_def go_append_def slice_ok_def Let_def min_def)

lemma go_append_len [simp]: "snd (go_append grow sl xs) = snd sl + length xs"
  by (simp add: go_append_def Let_def)

lemma visible_len [simp]: "slice_ok sl \<Longrightarrow> length (visible sl) = snd sl"
  by (simp add: visible_def slice_ok_def)

lemma reslice_down:
  assumes "slice_ok sl" "n \<le> snd sl"
  shows "\<exists>sl'. reslice n sl = Some sl' \<and> slice_ok sl' \<and> visible sl' = take n (visible sl)"
  using assms by (auto simp: reslice_def slice_ok_def visible_def min_def)

text \<open>Blocks that end in the order opposite to the one they began in: the last one in is the first one out.\<close>

primrec lifo :: "(nat \<Rightarrow> nat) \<Rightarrow> stacks \<Rightarrow> sec_event list \<Rightarrow> bool" where
  "lifo grow s [] \<longleftrightarrow> True"
| "lifo grow s (ev # evs) \<longleftrightarrow> (case ev of Push i env ms \<Rightarrow> True | Pop i \<Rightarrow> (case inside s of [] \<Rightarrow> False | b # bs \<Rightarrow> bl_branch b = i))
     \<and> (case sec_act grow ev s of None \<Rightarrow> True | Some s' \<Rightarrow> lifo grow s' evs)"

text \<open>The stacks hold what was there before the blocks and what each block pushed, and every block knows where its part begins.\<close>

fun stacked :: "string list \<Rightarrow> string list \<Rightarrow> block list \<Rightarrow> string list \<Rightarrow> string list \<Rightarrow> bool" where
  "stacked e0 m0 [] e m \<longleftrightarrow> e = e0 \<and> m = m0"
| "stacked e0 m0 (b # bs) e m \<longleftrightarrow> (\<exists>e' m'. e = e' @ bl_env b \<and> m = m' @ bl_masks b \<and> bl_frame b = (length e', length m')
     \<and> bl_branch b \<notin> bl_branch ` set bs \<and> stacked e0 m0 bs e' m')"

definition sec_inv :: "string list \<Rightarrow> string list \<Rightarrow> stacks \<Rightarrow> bool" where
  "sec_inv e0 m0 s \<longleftrightarrow> slice_ok (env_sl s) \<and> slice_ok (mask_sl s) \<and> stacked e0 m0 (inside s) (visible (env_sl s)) (visible (mask_sl s))"

lemma sec_inv_push: "sec_inv e0 m0 s \<Longrightarrow> sec_act grow (Push i env ms) s = Some s' \<Longrightarrow> sec_inv e0 m0 s'"
  by (auto simp: sec_inv_def split: if_splits)

lemma sec_inv_pop:
  assumes inv: "sec_inv e0 m0 s" and b: "inside s = b # bs"
  shows "\<exists>s'. sec_act grow (Pop (bl_branch b)) s = Some s' \<and> sec_inv e0 m0 s' \<and> inside s' = bs"
proof -
  from inv b obtain e' m' where st: "visible (env_sl s) = e' @ bl_env b" "visible (mask_sl s) = m' @ bl_masks b"
    "bl_frame b = (length e', length m')" "bl_branch b \<notin> bl_branch ` set bs" "stacked e0 m0 bs e' m'"
    by (auto simp: sec_inv_def)
  have len: "length e' \<le> snd (env_sl s)" "length m' \<le> snd (mask_sl s)"
    using inv arg_cong [OF st(1), of length] arg_cong [OF st(2), of length] by (auto simp: sec_inv_def)
  obtain e m where e: "reslice (length e') (env_sl s) = Some e" "slice_ok e" "visible e = e'"
    and m: "reslice (length m') (mask_sl s) = Some m" "slice_ok m" "visible m = m'"
    using reslice_down [OF _ len(1)] reslice_down [OF _ len(2)] inv st(1,2) by (auto simp: sec_inv_def)
  have "filter (\<lambda>c. bl_branch c \<noteq> bl_branch b) bs = bs" using st(4) by (intro filter_True) (metis image_eqI)
  then show ?thesis using b st(3,5) e m by (simp add: sec_inv_def)
qed

lemma sec_inv_run: "sec_inv e0 m0 s \<Longrightarrow> lifo grow s evs \<Longrightarrow> sec_run grow evs s = Some s' \<Longrightarrow> sec_inv e0 m0 s'"
proof (induction evs arbitrary: s)
  case (Cons ev evs)
  then obtain t where t: "sec_act grow ev s = Some t" "sec_run grow evs t = Some s'" by (auto split: option.splits)
  have "sec_inv e0 m0 t"
  proof (cases ev)
    case (Push i env ms)
    then show ?thesis using sec_inv_push Cons.prems(1) t(1) by blast
  next
    case (Pop i)
    with Cons.prems(2) obtain b bs where "inside s = b # bs" "bl_branch b = i" by (auto split: list.splits)
    then show ?thesis using sec_inv_pop [OF Cons.prems(1), of b bs grow] Pop t(1) by auto
  qed
  then show ?case using Cons.IH Cons.prems(2) t by simp
qed simp

lemma stacked_masks: "stacked e0 m0 bs e m \<Longrightarrow> b \<in> set bs \<Longrightarrow> set (bl_masks b) \<subseteq> set m \<and> set (bl_env b) \<subseteq> set e"
  by (induction bs arbitrary: e m) (auto, blast+)

text \<open>
  C35. The stack of secrets is right as long as blocks end in the order opposite to the one they began in, across all branches: whatever the run, every block
  that is in its body has its secrets in the environment and among the masks, and when no block is in its body both are what they were at first.
\<close>

theorem nested_secrets:
  assumes "sec_run grow evs s = Some s'" "lifo grow s evs" "inside s = []" "slice_ok (env_sl s)" "slice_ok (mask_sl s)"
  shows "(\<forall>b \<in> set (inside s'). set (bl_masks b) \<subseteq> set (visible (mask_sl s')) \<and> set (bl_env b) \<subseteq> set (visible (env_sl s')))
     \<and> (inside s' = [] \<longrightarrow> visible (env_sl s') = visible (env_sl s) \<and> visible (mask_sl s') = visible (mask_sl s))"
proof -
  have "sec_inv (visible (env_sl s)) (visible (mask_sl s)) s" using assms(3-5) by (simp add: sec_inv_def)
  from sec_inv_run [OF this assms(2,1)] have "sec_inv (visible (env_sl s)) (visible (mask_sl s)) s'" .
  then show ?thesis using stacked_masks by (fastforce simp: sec_inv_def)
qed

text \<open>
  Two branches whose blocks overlap break it, whatever they push: when the branch that began first ends first, the secrets of the other one
  are no longer among the masks while its body goes on; and when that one ends, the environment and the masks of the first come back
  and stay, with no block in its body any more.
\<close>

theorem overlap_leaks:
  assumes "i \<noteq> j" "i \<notin> bl_branch ` set (inside s)" "j \<notin> bl_branch ` set (inside s)" "slice_ok (env_sl s)" "slice_ok (mask_sl s)"
  shows "\<exists>s3 s4. sec_run grow [Push i ei mi, Push j ej mj, Pop i] s = Some s3
     \<and> j \<in> bl_branch ` set (inside s3) \<and> visible (mask_sl s3) = visible (mask_sl s)
     \<and> sec_act grow (Pop j) s3 = Some s4 \<and> inside s4 = inside s
     \<and> visible (env_sl s4) = visible (env_sl s) @ ei \<and> visible (mask_sl s4) = visible (mask_sl s) @ mi"
proof -
  have none: "filter (\<lambda>c. bl_branch c \<noteq> k) (inside s) = inside s" "find (\<lambda>b. bl_branch b = k) (inside s) = None"
    if "k \<notin> bl_branch ` set (inside s)" for k
    using that by (auto simp: filter_id_conv find_None_iff)
  let ?two = "\<lambda>sl xs ys. go_append grow (go_append grow sl xs) ys"
  have fit: "slice_ok sl \<Longrightarrow> snd sl + length xs \<le> length (fst (?two sl xs ys))"
    and first: "slice_ok sl \<Longrightarrow> take (snd sl) (fst (?two sl xs ys)) = visible sl"
    and second: "slice_ok sl \<Longrightarrow> take (snd sl + length xs) (fst (?two sl xs ys)) = visible sl @ xs" for sl xs ys
  proof -
    assume sl: "slice_ok sl"
    have v: "visible (?two sl xs ys) = visible sl @ xs @ ys" "slice_ok (?two sl xs ys)" using sl by simp_all
    then show "snd sl + length xs \<le> length (fst (?two sl xs ys))" by (simp add: slice_ok_def)
    have "take (snd sl) (visible (?two sl xs ys)) = visible sl" "take (snd sl + length xs) (visible (?two sl xs ys)) = visible sl @ xs"
      using v(1) visible_len [OF sl] by simp_all
    then show "take (snd sl) (fst (?two sl xs ys)) = visible sl" "take (snd sl + length xs) (fst (?two sl xs ys)) = visible sl @ xs"
      by (simp_all add: visible_def [of "?two sl xs ys"] min_def)
  qed
  show ?thesis
    using assms fit [OF assms(4), of ei ej] fit [OF assms(5), of mi mj] first [OF assms(4), of ei ej] first [OF assms(5), of mi mj]
      second [OF assms(4), of ei ej] second [OF assms(5), of mi mj] none [OF assms(2)] none [OF assms(3)]
    by (auto simp: reslice_def visible_def)
qed

definition demo_stacks :: stacks where
  "demo_stacks = \<lparr>env_sl = ([], 0), mask_sl = ([], 0), inside = []\<rparr>"

theorem nested_secrets_witness:
  "\<exists>s. sec_run (\<lambda>n. n) [Push 1 [''A=x''] [''x''], Push 2 [''B=y''] [''y''], Pop 2] demo_stacks = Some s
     \<and> (\<forall>b \<in> set (inside s). set (bl_masks b) \<subseteq> set (visible (mask_sl s))) \<and> visible (mask_sl s) = [''x'']"
proof -
  let ?evs = "[Push 1 [''A=x''] [''x''], Push 2 [''B=y''] [''y''], Pop 2]"
  have "map_option (\<lambda>s. visible (mask_sl s)) (sec_run (\<lambda>n. n) ?evs demo_stacks) = Some [''x'']" by code_simp
  then obtain s where s: "sec_run (\<lambda>n. n) ?evs demo_stacks = Some s" "visible (mask_sl s) = [''x'']" by auto
  have "lifo (\<lambda>n. n) demo_stacks ?evs" "inside demo_stacks = []" "slice_ok (env_sl demo_stacks)" "slice_ok (mask_sl demo_stacks)" by code_simp+
  from nested_secrets [OF s(1) this] s show ?thesis by blast
qed

theorem overlap_leaks_witness:
  "\<exists>s3 s4. sec_run (\<lambda>n. n) [Push 1 [''A=x''] [''x''], Push 2 [''B=y''] [''y''], Pop 1] demo_stacks = Some s3
     \<and> visible (mask_sl s3) = [] \<and> sec_act (\<lambda>n. n) (Pop 2) s3 = Some s4 \<and> visible (env_sl s4) = [''A=x'']"
proof -
  have "visible (env_sl demo_stacks) = []" "visible (mask_sl demo_stacks) = []" "inside demo_stacks = []" by (simp_all add: demo_stacks_def visible_def)
  moreover have "slice_ok (env_sl demo_stacks)" "slice_ok (mask_sl demo_stacks)" by (simp_all add: demo_stacks_def slice_ok_def)
  ultimately show ?thesis
    using overlap_leaks [of 1 2 demo_stacks "\<lambda>n. n" "[''A=x'']" "[''x'']" "[''B=y'']" "[''y'']"] by auto
qed

end
