(* ===== verification/Quirks.thy ===== *)
theory Quirks
  imports ScriptDemo
begin

text \<open>
  Three places where the interpreter and its intent part: the map of the current build contains itself, and a text of it is never
  finished; the operator of a compound assignment and the default value of a parameter are parsed and not looked at.
\<close>

section \<open>The map of a build\<close>

text \<open>Values whose text takes no further call.\<close>

definition flat :: "sval \<Rightarrow> bool" where
  "flat v \<longleftrightarrow> (case v of SList _ \<Rightarrow> False | SMap _ \<Rightarrow> False | _ \<Rightarrow> True)"

lemma flat_str: "flat v \<Longrightarrow> str_of (evalN p n) v s = None \<or> (\<exists>t. str_of (evalN p n) v s = Some (Inr t, s))"
  by (cases n; cases v)
    (auto simp: flat_def str_of_def evalTask_def stringify_def bindE_def retE_def)

lemma str_of_stuck: "evalN p n (TStr v) s = None \<Longrightarrow> str_of (evalN p n) v s = None"
  by (simp add: str_of_def bindE_def)

lemma mapE_stuck:
  assumes "\<And>x. x \<in> set xs \<Longrightarrow> f x s = None \<or> (\<exists>t. f x s = Some (Inr t, s))" "f y s = None"
  shows "mapE f (xs @ y # ys) s = None"
  using assms(1) by (induction xs) (use assms(2) in \<open>fastforce simp: bindE_def split: option.splits\<close>)+

text \<open>A map with itself as a member, after members that are flat, has no text at any level.\<close>

lemma self_map_stuck:
  assumes "a < length (hmaps s)" "hmaps s ! a = kvs @ (k, SMap a) # later" "\<forall>(k, v) \<in> set kvs. flat v"
  shows "evalN p n (TStr (SMap a)) s = None"
proof (induction n)
  case (Suc n)
  let ?f = "\<lambda>(k, x). bindE (str_of (evalN p n) x) (\<lambda>t. retE (k @ '':'' @ t))"
  have "mapE ?f (kvs @ (k, SMap a) # later) s = None"
  proof (rule mapE_stuck)
    fix x assume "x \<in> set kvs"
    moreover obtain j v where x: "x = (j, v)" by (cases x)
    ultimately have "flat v" using assms(3) by blast
    from flat_str [OF this, of p n s] show "?f x s = None \<or> (\<exists>t. ?f x s = Some (Inr t, s))"
      by (auto simp: x bindE_def retE_def)
  qed (use str_of_stuck [OF Suc.IH] in \<open>simp add: bindE_def\<close>)
  then show ?case using assms(1,2) by (simp add: evalTask_def stringify_def bindE_def readMap_def)
qed simp

lemma build_map:
  assumes "buildInfoToValue info s = Some (r, t)"
  shows "r = Inr (SMap (length (hmaps s))) \<and> hmaps t = hmaps s @ [build_fields info @ [(''rawBuild'', SMap (length (hmaps s)))]] \<and> henvs t = henvs s"
  using assms by (auto simp: buildInfoToValue_def allocMap_def bindE_def seqE_def mapSet_def retE_def build_fields_def nth_append)

lemma build_flat: "\<forall>(k, v) \<in> set (build_fields info). flat v"
  by (simp add: build_fields_def flat_def)

definition s_echo_build :: Block where
  "s_echo_build = Block [ExprStmt (CommandCallExpr (a_id ''echo'') (a_id ''currentBuild'') pos0) pos0] pos0"

definition with_build :: "BuildInfo \<Rightarrow> rt \<Rightarrow> bool" where
  "with_build info s \<longleftrightarrow> hmaps s \<noteq> [] \<and> hmaps s ! 0 = build_fields info @ [(''rawBuild'', SMap 0)] \<and> length (henvs s) = 1
     \<and> parent (henvs s ! 0) = None \<and> map_of (vars (henvs s ! 0)) ''echo'' = Some (SNative (NStep ''echo''))
     \<and> map_of (vars (henvs s ! 0)) ''currentBuild'' = Some (SMap 0)"

lemma native_echo: "map_of native_globals ''echo'' = Some (SNative (NStep ''echo''))"
  by (simp add: native_globals_def type_names_def step_names_def)

lemma current_registered:
  assumes "p_builds p = Some (Some info, lk)"
  shows "\<exists>t. registerCurrentBuild p (bare_runtime exe ws w) = Some (Inr (), t) \<and> with_build info t"
  using assms native_echo
  by (auto simp: registerCurrentBuild_def buildInfoToValue_def allocMap_def bindE_def seqE_def mapSet_def retE_def define_in_def
      bare_runtime_def globals_def with_build_def update_conv' build_fields_def)

lemma env_registered:
  assumes "with_build info s"
  shows "\<exists>t. registerInitialEnv p s = Some (Inr (), t) \<and> with_build info t"
  using assms
  by (auto simp: registerInitialEnv_def stringMapToScript_def newMap_def allocMap_def bindE_def seqE_def modE_def retE_def define_in_def
      globals_def with_build_def update_conv' nth_append)

lemma runtime_with_build:
  assumes "p_builds p = Some (Some info, lk)"
  shows "with_build info (newScriptRuntime p exe ws w)"
proof -
  obtain s where s: "registerCurrentBuild p (bare_runtime exe ws w) = Some (Inr (), s)" "with_build info s"
    using current_registered [OF assms] by blast
  obtain t where "registerInitialEnv p s = Some (Inr (), t)" "with_build info t" using env_registered [OF s(2)] by blast
  with s(1) show ?thesis by (simp add: newScriptRuntime_def seqE_def bindE_def)
qed

lemma echo_stuck:
  assumes "with_build info s"
  shows "evalN p n (TE 1 (CommandCallExpr (a_id ''echo'') (a_id ''currentBuild'') pos0)) (s\<lparr>henvs := henvs s @ [\<lparr>parent = Some 0, vars = []\<rparr>]\<rparr>) = None"
    (is "evalN p n (TE 1 ?e) ?s = None")
proof -
  have root: "lookup_env (henvs ?s) 0 x = map_option (\<lambda>v. (0, v)) (map_of (vars (henvs s ! 0)) x)" for x
    using assms by (subst lookup_env.simps) (auto simp: with_build_def nth_append split: option.splits)
  have look: "lookup_env (henvs ?s) 1 x = map_option (\<lambda>v. (0, v)) (map_of (vars (henvs s ! 0)) x)" for x
    using assms root by (subst lookup_env.simps) (auto simp: with_build_def nth_append)
  have id: "evalN p m (TE 1 (a_id x)) ?s = None \<or> evalN p m (TE 1 (a_id x)) ?s = Some (Inr v, ?s)"
    if "map_of (vars (henvs s ! 0)) x = Some v" for m x v
    using look [of x] that by (cases m) (simp_all add: a_id_def evalTask_def evalExpr_def bindE_def getE_def retE_def)
  have stuck: "evalN p m (TStr (SMap 0)) ?s = None" for m
    by (rule self_map_stuck [where k = "''rawBuild''" and later = "[]", OF _ _ build_flat]) (use assms in \<open>auto simp: with_build_def\<close>)
  show ?thesis
  proof (cases n)
    case (Suc m)
    have echo: "evalN p m (TE 1 (a_id ''echo'')) ?s = None \<or> evalN p m (TE 1 (a_id ''echo'')) ?s = Some (Inr (SNative (NStep ''echo'')), ?s)"
      and build: "evalN p m (TE 1 (a_id ''currentBuild'')) ?s = None \<or> evalN p m (TE 1 (a_id ''currentBuild'')) ?s = Some (Inr (SMap 0), ?s)"
      by (rule id; use assms in \<open>simp add: with_build_def\<close>)+
    have "invokeCallable p (evalN p m) (SNative (NStep ''echo'')) [SMap 0] ?s = None"
      using str_of_stuck [OF stuck] by (simp add: invokeCallable_def invokeNative_def invokeStep_def nativeEcho_def bindE_def)
    with Suc echo build show ?thesis by (auto simp: evalTask_def evalExpr_def evE_def bindE_def)
  qed simp
qed

text \<open>
  A script cannot print the build it runs in: with a provider for the current build, \<^verbatim>\<open>echo currentBuild\<close> does not end at any
  level of fuel, on any installation and with any build. The entry \<^verbatim>\<open>rawBuild\<close> of the map is the map itself, and \<^verbatim>\<open>stringify\<close> follows it without end.
\<close>

theorem echo_currentBuild_diverges:
  assumes "p_builds p = Some (Some info, lk)"
  shows "evalScriptBlock p n exe ws w s_echo_build = None"
proof -
  let ?s = "newScriptRuntime p exe ws w"
  let ?t = "?s\<lparr>henvs := henvs ?s @ [\<lparr>parent = Some 0, vars = []\<rparr>]\<rparr>"
  note wb = runtime_with_build [OF assms, of exe ws w]
  then have one: "length (henvs ?s) = 1" by (simp add: with_build_def)
  have "evalN p n (TS 1 (ExprStmt (CommandCallExpr (a_id ''echo'') (a_id ''currentBuild'') pos0) pos0)) ?t = None"
    using echo_stuck [OF wb] by (cases n) (simp_all add: evalTask_def evalStmt_def evE_def seqE_def bindE_def)
  then show ?thesis
    by (simp add: evalScriptBlock_def block_in_def newEnv_def evalBlock_def s_echo_build_def bindE_def seqE_def evS_def one globals_def)
qed

definition demo_info :: BuildInfo where
  "demo_info = \<lparr>bi_JobName = ''pr'', bi_Number = 3, DisplayName = ''#3'', bi_Result = '''', Variables = [], Environment = [], PreviousBuildNumber = 2\<rparr>"

theorem echo_currentBuild_diverges_witness:
  "evalScriptBlock (demo_seams\<lparr>p_builds := Some (Some demo_info, \<lambda>_ _. None)\<rparr>) 1000 0 [] demo_added s_echo_build = None"
  by (rule echo_currentBuild_diverges [where info = demo_info]) simp

section \<open>What is parsed and not used\<close>

definition run_script :: "string \<Rightarrow> (string \<times> serr option) option" where
  "run_script src = (case ParseScript src of Inl e \<Rightarrow> None
     | Inr f \<Rightarrow> map_option fst (evalScriptBlock demo_seams 12 0 [] demo_added (sf_Block f)))"

text \<open>
  The operator of an assignment and the default of a parameter have no effect: after \<^verbatim>\<open>x = 2; x += 5\<close> the value of \<^verbatim>\<open>x\<close> is 5, and a
  function called without its second argument sees \<^verbatim>\<open>null\<close> in its place, whatever its default is.
\<close>

theorem operator_and_default_ignored:
  "run_script ''x = 2; x += 5; return x'' = Some ('''', Some (SigRet (SNum 5)))
   \<and> run_script ''def f(a, b = 3) { return b }; return f(1)'' = Some ('''', Some (SigRet SNull))"
  by (intro conjI; code_simp)

text \<open>
  A script can end the process: \<^verbatim>\<open>startsWith\<close> called without an argument reads the first element of an empty slice, and the
  panic passes the script's own \<^verbatim>\<open>try\<close>.
\<close>

theorem startsWith_panics:
  "run_script ''try { \"a\".startsWith() } catch (e) { echo \"caught\" }'' = Some ('''', Some SPanic)"
  by code_simp

end
