(* ===== verification/ExecDecl.thy ===== *)
theory ExecDecl
  imports ScriptDemo DeclParser
begin

text \<open>
  The declarative executor, \<^verbatim>\<open>internal/pipeline/exec_declarative.go\<close>: a step becomes a call expression and is evaluated in a runtime of its
  own, a stage is its steps, a build its stages, and the first failure ends each. What outlives a step is the file system, the builds it has
  dispatched and the executors' workspaces; they pass from step to step in the host. A \<^verbatim>\<open>*Build\<close> comes with an error or without one.
\<close>

section \<open>Records\<close>

record StepRun =
  sr_Name :: string
  sr_Status :: BuildStatus
  sr_ExitCode :: int
  sr_Output :: string

record StageRun =
  sg_Name :: string
  sg_Status :: BuildStatus
  sg_Steps :: "StepRun list"

record Build =
  bd_Status :: BuildStatus
  bd_Stages :: "StageRun list"

definition BuildStatus_String :: "BuildStatus \<Rightarrow> string" where
  "BuildStatus_String s = (case s of BuildPending \<Rightarrow> ''PENDING'' | BuildRunning \<Rightarrow> ''RUNNING'' | BuildSuccess \<Rightarrow> ''SUCCESS''
     | BuildFailure \<Rightarrow> ''FAILURE'')"

record host =
  h_ws :: "(nat \<times> path option) list"
  h_world :: world
  h_dispatched :: "(string \<times> BuildParam list) list"

section \<open>Steps\<close>

definition step_pos :: "StepCall \<Rightarrow> Position" where "step_pos st = sc_Pos st"

definition wrap_parse :: "string \<Rightarrow> perr + 'a \<Rightarrow> goerr + 'a" where
  "wrap_parse what r = (case r of Inl e \<Rightarrow> Inl (Wrap what (perr_text e)) | Inr x \<Rightarrow> Inr x)"

definition step_args :: "StepCall \<Rightarrow> goerr + CallArg list" where
  "step_args st = (case sc_ArgsKind st of
       ArgsNone \<Rightarrow> Inr []
     | ArgsNaked \<Rightarrow> map_sum id (\<lambda>e. [CallArg '''' e]) (wrap_parse ''parsing naked args'' (ParseExprTokens (sc_ArgTokens st)))
     | ArgsParen \<Rightarrow> wrap_parse ''parsing paren args'' (ParseArgListTokens (sc_ArgTokens st)))"

definition step_closure :: "StepCall \<Rightarrow> goerr + ClosureExpr option" where
  "step_closure st = (if HasBlock st
     then map_sum id (\<lambda>sf. Some (ClosureExpr [] (sf_Block sf) (step_pos st)))
       (wrap_parse ''parsing block body'' (ParseScriptTokens (sc_Block st)))
     else Inr None)"

definition stepCallToCallExpr :: "StepCall \<Rightarrow> goerr + Expr" where
  "stepCallToCallExpr st = (case step_args st of Inl e \<Rightarrow> Inl e | Inr as \<Rightarrow>
     (case step_closure st of Inl e \<Rightarrow> Inl e | Inr c \<Rightarrow>
        Inr (CallExpr (IdentExpr (sc_Name st) (step_pos st)) as c (step_pos st))))"

text \<open>What the evaluation of the call makes of the step: its status, its exit code and the error that stops the build.\<close>

definition settle :: "string \<Rightarrow> serr + sval \<Rightarrow> rt \<Rightarrow> StepRun \<times> serr option" where
  "settle name r s =
     (let sr = \<lparr>sr_Name = name, sr_Status = BuildFailure, sr_ExitCode = lastExitCode s, sr_Output = outputString s\<rparr> in
      case r of
        Inl (SigThrow _) \<Rightarrow> (sr, None)
      | Inl e \<Rightarrow> (sr, Some e)
      | Inr v \<Rightarrow>
          (let sr' = (case v of SNum n \<Rightarrow> if sr_ExitCode sr = 0 then sr\<lparr>sr_ExitCode := n\<rparr> else sr | _ \<Rightarrow> sr)
           in if catchForcedStage s = BuildFailure \<or> catchForcedBuild s = BuildFailure then (sr', None)
              else (sr'\<lparr>sr_Status := BuildSuccess\<rparr>, None)))"

definition leave_step :: "rt \<Rightarrow> host \<Rightarrow> host" where
  "leave_step s h = \<lparr>h_ws = exec_ws s, h_world = rworld s, h_dispatched = h_dispatched h @ dispatched s\<rparr>"

definition execStep :: "seams \<Rightarrow> nat \<Rightarrow> nat \<Rightarrow> StepCall \<Rightarrow> host \<Rightarrow> ((StepRun \<times> serr option) \<times> host) option" where
  "execStep p n exe st h = (case stepCallToCallExpr st of
       Inl e \<Rightarrow> Some ((\<lparr>sr_Name = sc_Name st, sr_Status = BuildFailure, sr_ExitCode = 0, sr_Output = ''''\<rparr>,
         Some (Err (Wrap (''pipeline.ExecDeclarative: step '' @ quoted (sc_Name st)) e))), h)
     | Inr call \<Rightarrow>
         (case bindE (newEnv (Some globals)) (\<lambda>env. evalN p n (TE env call)) (newScriptRuntime p exe (h_ws h) (h_world h)) of
            None \<Rightarrow> None
          | Some (r, s) \<Rightarrow> Some (settle (sc_Name st) r s, leave_step s h)))"

section \<open>Stages and builds\<close>

text \<open>
  The loop over the steps of a stage and the one over the stages of a build: the records so far, whether every part was good, and the
  error that stopped it.
\<close>

fun run_seq :: "('b \<Rightarrow> BuildStatus) \<Rightarrow> ('a \<Rightarrow> host \<Rightarrow> (('b \<times> serr option) \<times> host) option) \<Rightarrow> 'a list \<Rightarrow> host
    \<Rightarrow> (('b list \<times> bool \<times> serr option) \<times> host) option" where
  "run_seq status exec [] h = Some (([], True, None), h)"
| "run_seq status exec (x # xs) h = (case exec x h of
       None \<Rightarrow> None
     | Some ((y, Some e), h') \<Rightarrow> Some (([y], False, Some e), h')
     | Some ((y, None), h') \<Rightarrow>
         if status y \<noteq> BuildSuccess then Some (([y], False, None), h')
         else (case run_seq status exec xs h' of None \<Rightarrow> None | Some ((ys, good, e), h2) \<Rightarrow> Some ((y # ys, good, e), h2)))"

definition execStage :: "seams \<Rightarrow> nat \<Rightarrow> nat \<Rightarrow> Stage \<Rightarrow> host \<Rightarrow> ((StageRun \<times> serr option) \<times> host) option" where
  "execStage p n exe stage h = (case st_Steps stage of
       None \<Rightarrow> Some ((\<lparr>sg_Name = st_Name stage, sg_Status = BuildSuccess, sg_Steps = []\<rparr>, None), h)
     | Some steps \<Rightarrow>
         (case run_seq sr_Status (execStep p n exe) (sb_Steps steps) h of
            None \<Rightarrow> None
          | Some ((rrs, good, e), h') \<Rightarrow>
              Some ((\<lparr>sg_Name = st_Name stage, sg_Status = if good then BuildSuccess else BuildFailure, sg_Steps = rrs\<rparr>, e), h')))"

text \<open>\<open>None\<close> in place of the file is the nil pointer the function refuses.\<close>

definition ExecDeclarative :: "seams \<Rightarrow> nat \<Rightarrow> nat \<Rightarrow> PipelineFile option \<Rightarrow> host \<Rightarrow> ((Build option \<times> serr option) \<times> host) option" where
  "ExecDeclarative p n exe file h = (case file of
       None \<Rightarrow> Some ((None, Some (Err (Msg ''pipeline.ExecDeclarative: nil pipeline block''))), h)
     | Some f \<Rightarrow>
         (case pb_Stages (Pipeline f) of
            None \<Rightarrow> Some ((Some \<lparr>bd_Status = BuildSuccess, bd_Stages = []\<rparr>, None), h)
          | Some stages \<Rightarrow>
              (case run_seq sg_Status (execStage p n exe) (Stages stages) h of
                 None \<Rightarrow> None
               | Some ((srs, good, e), h') \<Rightarrow>
                   Some ((Some \<lparr>bd_Status = if good then BuildSuccess else BuildFailure, bd_Stages = srs\<rparr>, e), h'))))"

section \<open>Verdicts\<close>

definition stages_of :: "PipelineFile \<Rightarrow> Stage list" where
  "stages_of f = (case pb_Stages (Pipeline f) of None \<Rightarrow> [] | Some s \<Rightarrow> Stages s)"

definition steps_of :: "Stage \<Rightarrow> StepCall list" where
  "steps_of st = (case st_Steps st of None \<Rightarrow> [] | Some s \<Rightarrow> sb_Steps s)"

text \<open>The parts that ran are the first ones, in order; only the last may have failed; the whole is good when all ran and were good.\<close>

definition exact_run :: "('b \<Rightarrow> BuildStatus) \<Rightarrow> ('b \<Rightarrow> string) \<Rightarrow> string list \<Rightarrow> 'b list \<Rightarrow> BuildStatus \<Rightarrow> bool" where
  "exact_run status name names ys whole \<longleftrightarrow> prefix (map name ys) names \<and> (\<forall>y \<in> set (butlast ys). status y = BuildSuccess)
     \<and> whole = (if map name ys = names \<and> (\<forall>y \<in> set ys. status y = BuildSuccess) then BuildSuccess else BuildFailure)"

text \<open>What the loop needs of its body: the record carries the name of the part, and an error goes with a failure.\<close>

locale part_runner =
  fixes status :: "'b \<Rightarrow> BuildStatus" and name :: "'b \<Rightarrow> string" and part_name :: "'a \<Rightarrow> string"
    and exec :: "'a \<Rightarrow> host \<Rightarrow> (('b \<times> serr option) \<times> host) option" and fine :: "'a \<Rightarrow> 'b \<Rightarrow> bool"
  assumes named: "exec x h = Some ((y, e), h') \<Longrightarrow> name y = part_name x"
    and failed: "exec x h = Some ((y, Some err), h') \<Longrightarrow> status y = BuildFailure"
    and proper: "exec x h = Some ((y, e), h') \<Longrightarrow> fine x y"
begin

lemma run_seq_exact:
  assumes "run_seq status exec xs h = Some ((ys, good, e), h')"
  shows "exact_run status name (map part_name xs) ys (if good then BuildSuccess else BuildFailure)"
  using assms
proof (induction xs arbitrary: h ys)
  case (Cons x xs)
  then obtain y e' h1 where x: "exec x h = Some ((y, e'), h1)" by (auto split: option.splits)
  show ?case
  proof (cases "e' = None \<and> status y = BuildSuccess")
    case True
    with Cons.prems x obtain zs where zs: "run_seq status exec xs h1 = Some ((zs, good, e), h')" "ys = y # zs"
      by (auto split: option.splits)
    from Cons.IH [OF zs(1)] zs(2) True named [OF x] show ?thesis by (auto simp: exact_run_def)
  next
    case False
    with Cons.prems x have "ys = [y] \<and> \<not> good \<and> status y \<noteq> BuildSuccess" using failed by (auto split: option.splits if_splits)
    then show ?thesis using named [OF x] by (simp add: exact_run_def)
  qed
qed (simp add: exact_run_def)

lemma run_seq_error: "run_seq status exec xs h = Some ((ys, good, Some e), h') \<Longrightarrow> \<not> good"
  by (induction xs arbitrary: h ys) (auto split: option.splits if_splits)

lemma run_seq_parts:
  "run_seq status exec xs h = Some ((ys, good, e), h') \<Longrightarrow> i < length ys \<Longrightarrow> i < length xs \<and> fine (xs ! i) (ys ! i)"
proof (induction xs arbitrary: h ys i)
  case (Cons x xs)
  then obtain y e' h1 where x: "exec x h = Some ((y, e'), h1)" by (auto split: option.splits)
  show ?case
  proof (cases "e' = None \<and> status y = BuildSuccess")
    case True
    with Cons.prems x obtain zs where zs: "run_seq status exec xs h1 = Some ((zs, good, e), h')" "ys = y # zs"
      by (auto split: option.splits)
    then show ?thesis using Cons.IH [OF zs(1)] Cons.prems(2) proper [OF x] by (cases i) auto
  next
    case False
    with Cons.prems x have "ys = [y]" by (auto split: option.splits if_splits)
    then show ?thesis using Cons.prems(2) proper [OF x] by simp
  qed
qed simp

end

lemma settle_cases: "sr_Name (fst (settle nm r s)) = nm" "snd (settle nm r s) = Some e \<Longrightarrow> sr_Status (fst (settle nm r s)) = BuildFailure"
  by (auto simp: settle_def Let_def split: sum.splits serr.splits sval.splits if_splits)

interpretation steps: part_runner sr_Status sr_Name sc_Name "execStep p n exe" "\<lambda>_ _. True" for p n exe
proof unfold_locales
  fix x h y e h'
  assume "execStep p n exe x h = Some ((y, e), h')"
  then show "sr_Name y = sc_Name x"
    by (auto simp: execStep_def split: sum.splits option.splits) (metis fst_conv settle_cases(1))
next
  fix x h y e h'
  assume "execStep p n exe x h = Some ((y, Some e), h')"
  then show "sr_Status y = BuildFailure"
    by (auto simp: execStep_def split: sum.splits option.splits) (metis fst_conv snd_conv settle_cases(2))
qed simp

definition stage_exact :: "Stage \<Rightarrow> StageRun \<Rightarrow> bool" where
  "stage_exact st sr \<longleftrightarrow> exact_run sr_Status sr_Name (map sc_Name (steps_of st)) (sg_Steps sr) (sg_Status sr)"

interpretation stages: part_runner sg_Status sg_Name st_Name "execStage p n exe" stage_exact for p n exe
proof unfold_locales
  fix x h y e h'
  assume "execStage p n exe x h = Some ((y, e), h')"
  then show "sg_Name y = st_Name x" "stage_exact x y"
    by (auto simp: execStage_def stage_exact_def steps_of_def split: option.splits dest!: steps.run_seq_exact) (simp_all add: exact_run_def)
next
  fix x h y e h'
  assume "execStage p n exe x h = Some ((y, Some e), h')"
  then show "sg_Status y = BuildFailure"
    by (auto simp: execStage_def split: option.splits if_splits dest: steps.run_seq_error)
qed

text \<open>
  C34. A build fails fast and its verdict is exact. The stages it records are the first stages of the file, in order, of which only the last may have
  failed, and it is a success exactly when all of them ran and succeeded; the same holds for each recorded stage and its steps; and
  an error comes with a failed build.
\<close>

theorem build_verdict:
  assumes "ExecDeclarative p n exe (Some f) h = Some ((Some b, e), h')"
  shows "exact_run sg_Status sg_Name (map st_Name (stages_of f)) (bd_Stages b) (bd_Status b)
     \<and> (\<forall>i < length (bd_Stages b). exact_run sr_Status sr_Name (map sc_Name (steps_of (stages_of f ! i)))
            (sg_Steps (bd_Stages b ! i)) (sg_Status (bd_Stages b ! i)))
     \<and> (e \<noteq> None \<longrightarrow> bd_Status b = BuildFailure)"
proof (cases "pb_Stages (Pipeline f)")
  case None
  then show ?thesis using assms by (auto simp: ExecDeclarative_def stages_of_def exact_run_def)
next
  case (Some st)
  with assms obtain srs good where r: "run_seq sg_Status (execStage p n exe) (Stages st) h = Some ((srs, good, e), h')"
    and b: "b = \<lparr>bd_Status = if good then BuildSuccess else BuildFailure, bd_Stages = srs\<rparr>"
    by (auto simp: ExecDeclarative_def split: option.splits)
  show ?thesis using stages.run_seq_exact [OF r] stages.run_seq_parts [OF r] stages.run_seq_error [of p n exe "Stages st" h srs good] r Some b
    by (cases e) (auto simp: stages_of_def stage_exact_def)
qed

section \<open>From the text\<close>

definition demo_host :: host where
  "demo_host = \<lparr>h_ws = [(0, Some [''srv'', ''ws''])], h_world = demo_added, h_dispatched = []\<rparr>"

definition run_text :: "seams \<Rightarrow> nat \<Rightarrow> string \<Rightarrow> host \<Rightarrow> ((Build option \<times> serr option) \<times> host) option" where
  "run_text p n src h = (case Parse src of Inl e \<Rightarrow> None | Inr f \<Rightarrow> ExecDeclarative p n 0 (Some f) h)"

definition demo_text :: string where
  "demo_text = ''pipeline { stages { stage(\"a\") { steps { sh(\"m\") error(\"no\") sh(\"x\") } } stage(\"b\") { } } }''"

definition demo_build :: Build where
  "demo_build = \<lparr>bd_Status = BuildFailure, bd_Stages = [\<lparr>sg_Name = ''a'', sg_Status = BuildFailure,
     sg_Steps = [\<lparr>sr_Name = ''sh'', sr_Status = BuildSuccess, sr_ExitCode = 0, sr_Output = ''m''\<rparr>,
       \<lparr>sr_Name = ''error'', sr_Status = BuildFailure, sr_ExitCode = 0, sr_Output = ''''\<rparr>]\<rparr>]\<rparr>"

lemma run_textD: "map_option fst (run_text p n src h) = Some (Some b, e)
    \<Longrightarrow> \<exists>f h'. Parse src = Inr f \<and> ExecDeclarative p n 0 (Some f) h = Some ((Some b, e), h')"
  by (auto simp: run_text_def split: sum.splits)

theorem build_verdict_witness:
  "\<exists>f. Parse demo_text = Inr f \<and> exact_run sg_Status sg_Name (map st_Name (stages_of f)) (bd_Stages demo_build) BuildFailure"
proof -
  have "map_option fst (run_text demo_seams 9 demo_text demo_host) = Some (Some demo_build, None)" by code_simp
  from run_textD [OF this] obtain f h' where f: "Parse demo_text = Inr f"
    "ExecDeclarative demo_seams 9 0 (Some f) demo_host = Some ((Some demo_build, None), h')" by blast
  from build_verdict [OF f(2)] f(1) show ?thesis by (auto simp: demo_build_def)
qed

text \<open>
  The verdict for the stage decides the build: a \<^verbatim>\<open>catchError\<close> that is told to leave the build a success and to fail its stage fails the
  build, and the stages after it do not run.
\<close>

theorem catch_stage_fails_build:
  "map_option fst (run_text demo_seams 9
     ''pipeline { stages { stage(\"a\") { steps { catchError(buildResult: \"SUCCESS\", stageResult: \"FAILURE\") { error(\"no\") } } } stage(\"b\") { } } }''
     demo_host)
   = Some (Some \<lparr>bd_Status = BuildFailure, bd_Stages = [\<lparr>sg_Name = ''a'', sg_Status = BuildFailure,
        sg_Steps = [\<lparr>sr_Name = ''catchError'', sr_Status = BuildFailure, sr_ExitCode = 0, sr_Output = ''''\<rparr>]\<rparr>]\<rparr>, None)"
  by code_simp

text \<open>
  The branches of a parallel stage are not run, and the stage is a success: a pipeline whose only work is a branch that fails is
  reported as a successful build with a stage that has no steps.
\<close>

theorem unrun_branches_succeed:
  "map_option fst (run_text demo_seams 9
     ''pipeline { stages { stage(\"t\") { parallel { stage(\"u\") { steps { error(\"no\") } } } } } }'' demo_host)
   = Some (Some \<lparr>bd_Status = BuildSuccess, bd_Stages = [\<lparr>sg_Name = ''t'', sg_Status = BuildSuccess, sg_Steps = []\<rparr>]\<rparr>, None)"
  by code_simp

end
