(* ===== verification/Auth.thy ===== *)
theory Auth
  imports CredStore Ghprb "HOL-Library.Word"
begin

text \<open>
  \<^verbatim>\<open>internal/auth\<close>: the settings of the password login and their bounds, the per-user hash files, the check of a password,
  and the key files with the check of an SSH signature; with the wrappers of \<^verbatim>\<open>internal/wolfcrypt\<close> they call
  (\<^verbatim>\<open>wolfcrypt.go\<close>, \<^verbatim>\<open>verify.go\<close>). The wolfSSL binding is the record \<open>gowolf_auth\<close>, the SSH wire formats of
  \<^verbatim>\<open>go-wolfssl/wolfssh\<close> the record \<open>gowolfssh\<close>; the YAML decoder of the settings is a parameter.
\<close>

section \<open>Text\<close>

definition TrimRight_nl :: "string \<Rightarrow> string" where
  "TrimRight_nl s = rev (dropWhile (\<lambda>c. c = CHR 0x0A) (rev s))"

text \<open>\<^verbatim>\<open>strings.SplitN(s, sep, 2)\<close> at a one-byte separator, when it yields two parts.\<close>

definition cut_at :: "char \<Rightarrow> string \<Rightarrow> (string \<times> string) option" where
  "cut_at c s = (case dropWhile (\<lambda>x. x \<noteq> c) s of [] \<Rightarrow> None | _ # r \<Rightarrow> Some (takeWhile (\<lambda>x. x \<noteq> c) s, r))"

text \<open>\<^verbatim>\<open>hex.EncodeToString\<close> and \<^verbatim>\<open>hex.DecodeString\<close>; the decoder takes both cases of the letters.\<close>

definition hex_EncodeToString :: "bytes \<Rightarrow> string" where
  "hex_EncodeToString b = hex_encode (map of_char b)"

definition fromHexChar :: "char \<Rightarrow> nat option" where
  "fromHexChar c =
     (if is_digit c then Some (of_char c - 48)
      else if CHR ''a'' \<le> c \<and> c \<le> CHR ''f'' then Some (of_char c - 97 + 10)
      else if CHR ''A'' \<le> c \<and> c \<le> CHR ''F'' then Some (of_char c - 65 + 10) else None)"

fun hex_DecodeString :: "string \<Rightarrow> bytes option" where
  "hex_DecodeString [] = Some []"
| "hex_DecodeString [a] = None"
| "hex_DecodeString (a # b # s) =
     (case (fromHexChar a, fromHexChar b) of
        (Some x, Some y) \<Rightarrow> map_option (\<lambda>r. char_of (16 * x + y) # r) (hex_DecodeString s)
      | _ \<Rightarrow> None)"

section \<open>wolfCrypt wrappers\<close>

record gowolf_auth = gowolf +
  wc_hmac :: "bytes \<Rightarrow> bytes \<Rightarrow> int + bytes"
  wc_pbkdf2 :: "bytes \<Rightarrow> bytes \<Rightarrow> int \<Rightarrow> int \<Rightarrow> int + bytes"
  wc_sha256 :: "bytes \<Rightarrow> int + bytes"
  wc_ed25519_import :: "bytes \<Rightarrow> int"
  wc_ed25519_verify :: "bytes \<Rightarrow> bytes \<Rightarrow> bytes \<Rightarrow> int \<times> int"
  wc_ecc_import :: "bytes \<Rightarrow> int"
  wc_ecc_verify :: "bytes \<Rightarrow> bytes \<Rightarrow> bytes \<Rightarrow> int \<times> int"
  wc_rsa_decode :: "bytes \<Rightarrow> bytes \<Rightarrow> int"
  wc_sig_verify :: "bytes \<Rightarrow> bytes \<Rightarrow> bytes \<Rightarrow> bytes \<Rightarrow> int"

definition HMACSHA256 :: "gowolf_auth \<Rightarrow> bytes \<Rightarrow> bytes \<Rightarrow> bytes res" where
  "HMACSHA256 g key dat = rc_err ''wolfcrypt.HMACSHA256'' (wc_hmac g key dat)"

definition PBKDF2HMACSHA256 :: "gowolf_auth \<Rightarrow> bytes \<Rightarrow> bytes \<Rightarrow> int \<Rightarrow> int \<Rightarrow> bytes res" where
  "PBKDF2HMACSHA256 g password salt iterations keyLen =
     (if keyLen \<le> 0 then Inl (Msg ''wolfcrypt.PBKDF2HMACSHA256: keyLen must be positive'')
      else if iterations \<le> 0 then Inl (Msg ''wolfcrypt.PBKDF2HMACSHA256: iterations must be positive'')
      else rc_err ''wolfcrypt.PBKDF2HMACSHA256: Wc_PBKDF2'' (wc_pbkdf2 g password salt iterations keyLen))"

definition SHA256 :: "gowolf_auth \<Rightarrow> bytes \<Rightarrow> bytes res" where
  "SHA256 g dat = rc_err ''wolfcrypt.SHA256: Wc_Sha256Hash'' (wc_sha256 g dat)"

text \<open>A verifier reports an error when it could not try, and otherwise whether the signature matched.\<close>

definition Ed25519Verify :: "gowolf_auth \<Rightarrow> bytes \<Rightarrow> bytes \<Rightarrow> bytes \<Rightarrow> bool res" where
  "Ed25519Verify g publicKey message signature =
     (if length publicKey \<noteq> 32 then Inl (Msg ''wolfcrypt.Ed25519Verify: public key must be 32 bytes'')
      else if wc_ed25519_import g publicKey \<noteq> 0
      then Inl (Msg (''wolfcrypt.Ed25519Verify: Wc_ed25519_import_public: '' @ Itoa (wc_ed25519_import g publicKey)))
      else (case wc_ed25519_verify g publicKey signature message of (rc, result) \<Rightarrow>
              if rc \<noteq> 0 then Inr False else Inr (result = 1)))"

definition ECCVerifyP256 :: "gowolf_auth \<Rightarrow> bytes \<Rightarrow> bytes \<Rightarrow> bytes \<Rightarrow> bool res" where
  "ECCVerifyP256 g publicKey hash signature =
     (if publicKey = [] \<or> hd publicKey \<noteq> CHR 0x04
      then Inl (Msg ''wolfcrypt.ECCVerifyP256: publicKey must be SEC1 uncompressed (0x04 prefix)'')
      else if wc_ecc_import g publicKey \<noteq> 0
      then Inl (Msg (''wolfcrypt.ECCVerifyP256: Wc_ecc_import_x963_ex: '' @ Itoa (wc_ecc_import g publicKey)))
      else (case wc_ecc_verify g publicKey signature hash of (rc, result) \<Rightarrow>
              if rc \<noteq> 0 then Inr False else Inr (result = 1)))"

definition RSAVerifyPKCS1v15SHA256 :: "gowolf_auth \<Rightarrow> bytes \<Rightarrow> bytes \<Rightarrow> bytes \<Rightarrow> bytes \<Rightarrow> bool res" where
  "RSAVerifyPKCS1v15SHA256 g modulus exponent message signature =
     (if modulus = [] then Inl (Msg ''wolfcrypt.RSAVerifyPKCS1v15SHA256: empty modulus'')
      else if exponent = [] then Inl (Msg ''wolfcrypt.RSAVerifyPKCS1v15SHA256: empty exponent'')
      else if signature = [] then Inl (Msg ''wolfcrypt.RSAVerifyPKCS1v15SHA256: empty signature'')
      else if wc_rsa_decode g modulus exponent \<noteq> 0
      then Inl (Msg (''wolfcrypt.RSAVerifyPKCS1v15SHA256: Wc_RsaPublicKeyDecodeRaw: '' @ Itoa (wc_rsa_decode g modulus exponent)))
      else Inr (wc_sig_verify g modulus exponent message signature = 0))"

section \<open>Settings (\<^verbatim>\<open>Config\<close>)\<close>

record AuthConfig =
  PasswordEnabled :: bool
  PBKDF2Iterations :: int
  PBKDF2SaltBytes :: int

definition pbkdf2MinIterations :: int where "pbkdf2MinIterations = 100"
definition pbkdf2MaxIterations :: int where "pbkdf2MaxIterations = 10000000"
definition pbkdf2DerivedKeyLen :: int where "pbkdf2DerivedKeyLen = 32"

definition DefaultConfig :: AuthConfig where
  "DefaultConfig = \<lparr>PasswordEnabled = False, PBKDF2Iterations = 600000, PBKDF2SaltBytes = 16\<rparr>"

text \<open>\<open>dec\<close> is \<^verbatim>\<open>yaml.Unmarshal\<close> into a struct that already holds the defaults, \<open>enc\<close> is \<^verbatim>\<open>yaml.Marshal\<close>.\<close>

definition LoadConfig :: "(string \<Rightarrow> AuthConfig \<Rightarrow> AuthConfig option) \<Rightarrow> path \<Rightarrow> AuthConfig io" where
  "LoadConfig dec p =
     bindIO (wrapIO ''auth.LoadConfig'' (os_ReadFile p)) (\<lambda>b.
       case dec b DefaultConfig of
         None \<Rightarrow> raiseIO (Wrap (''auth.LoadConfig: parse '' @ path_string p) (Msg ''yaml''))
       | Some cfg \<Rightarrow>
           if PBKDF2Iterations cfg < pbkdf2MinIterations \<or> PBKDF2Iterations cfg > pbkdf2MaxIterations
           then raiseIO (Msg (''auth.LoadConfig: pbkdf2_iterations '' @ Itoa (PBKDF2Iterations cfg) @ '' out of range [100, 10000000]''))
           else if PBKDF2SaltBytes cfg < 8 \<or> PBKDF2SaltBytes cfg > 64
           then raiseIO (Msg (''auth.LoadConfig: pbkdf2_salt_bytes '' @ Itoa (PBKDF2SaltBytes cfg) @ '' out of range [8, 64]''))
           else returnIO cfg)"

definition Config_Save :: "(AuthConfig \<Rightarrow> string) \<Rightarrow> AuthConfig \<Rightarrow> path \<Rightarrow> unit io" where
  "Config_Save enc c p =
     seqIO (wrapIO ''auth.Config.Save: mkdir'' (os_MkdirAll (butlast p)))
       (wrapIO ''auth.Config.Save: write'' (os_WriteFile p (enc c)))"

section \<open>User names\<close>

definition ErrInvalidUsername :: goerr where "ErrInvalidUsername = Msg ''auth: invalid username''"
definition ErrUnknownUser :: goerr where "ErrUnknownUser = Msg ''auth: unknown user''"

definition validateUsername :: "string \<Rightarrow> goerr option" where
  "validateUsername user =
     (if user = '''' then Some (Wrap ''empty'' ErrInvalidUsername)
      else if user = ''.'' \<or> user = ''..'' then Some (Wrap (''reserved name '' @ quoted user) ErrInvalidUsername)
      else if HasPrefix user ''.'' then Some (Wrap (''leading dot in '' @ quoted user) ErrInvalidUsername)
      else if ContainsAny user [CHR ''/'', CHR 0x5C, CHR 0x00] then Some (Wrap (''path separator in '' @ quoted user) ErrInvalidUsername)
      else None)"

section \<open>Hash files (\<^verbatim>\<open>PasswordStore\<close>)\<close>

record PasswordStore =
  ps_root :: path
  ps_cfg :: AuthConfig

definition NewPasswordStore :: "path \<Rightarrow> AuthConfig \<Rightarrow> PasswordStore" where
  "NewPasswordStore r cfg = \<lparr>ps_root = r, ps_cfg = cfg\<rparr>"

definition hashPath :: "PasswordStore \<Rightarrow> string \<Rightarrow> path" where
  "hashPath ps user = join_path (ps_root ps) [user @ ''.pbkdf2'']"

definition ErrPasswordAuthDisabled :: goerr where "ErrPasswordAuthDisabled = Msg ''auth: password auth disabled''"
definition ErrInvalidPassword :: goerr where "ErrInvalidPassword = Msg ''auth: invalid password''"
definition ErrInvalidPasswordFile :: goerr where "ErrInvalidPasswordFile = Msg ''auth: invalid password file''"

definition pbkdf2SentinelV1 :: string where "pbkdf2SentinelV1 = ''wolfci-pbkdf2-v1''"

definition newline :: string where "newline = [CHR 0x0A]"

definition encodePBKDF2File :: "int \<Rightarrow> bytes \<Rightarrow> bytes \<Rightarrow> string" where
  "encodePBKDF2File iterations salt key =
     pbkdf2SentinelV1 @ newline @ ''iterations:'' @ Itoa iterations @ newline @ ''salt:'' @ hex_EncodeToString salt @ newline
       @ ''key:'' @ hex_EncodeToString key @ newline"

text \<open>The loop over the lines: the last line of a name wins, other names are ignored.\<close>

definition set_field :: "string \<Rightarrow> string \<Rightarrow> string \<times> string \<times> string \<Rightarrow> string \<times> string \<times> string" where
  "set_field k v acc =
     (case acc of (iterStr, saltHex, keyHex) \<Rightarrow>
        if k = ''iterations'' then (v, saltHex, keyHex)
        else if k = ''salt'' then (iterStr, v, keyHex)
        else if k = ''key'' then (iterStr, saltHex, v) else (iterStr, saltHex, keyHex))"

primrec scan_fields :: "string list \<Rightarrow> string \<times> string \<times> string \<Rightarrow> (string \<times> string \<times> string) res" where
  "scan_fields [] acc = Inr acc"
| "scan_fields (ln # lns) acc =
     (case cut_at (CHR '':'') ln of
        None \<Rightarrow> Inl (Wrap (''malformed line '' @ quoted ln) ErrInvalidPasswordFile)
      | Some (k, v) \<Rightarrow> scan_fields lns (set_field k v acc))"

definition decodePBKDF2File :: "string \<Rightarrow> (int \<times> bytes \<times> bytes) res" where
  "decodePBKDF2File dat =
     (let lines = Split (CHR 0x0A) (TrimRight_nl dat) in
      if length lines < 4 \<or> hd lines \<noteq> pbkdf2SentinelV1
      then Inl (Wrap ''missing or wrong sentinel'' ErrInvalidPasswordFile)
      else (case scan_fields (tl lines) ('''', '''', '''') of Inl e \<Rightarrow> Inl e
        | Inr (iterStr, saltHex, keyHex) \<Rightarrow>
            if iterStr = '''' \<or> saltHex = '''' \<or> keyHex = '''' then Inl (Wrap ''missing field'' ErrInvalidPasswordFile)
            else (case Atoi iterStr of
                None \<Rightarrow> Inl (Wrap (''iterations '' @ quoted iterStr) ErrInvalidPasswordFile)
              | Some iterations \<Rightarrow>
                  if iterations < pbkdf2MinIterations \<or> iterations > pbkdf2MaxIterations
                  then Inl (Wrap (''iterations '' @ quoted iterStr) ErrInvalidPasswordFile)
                  else (case hex_DecodeString saltHex of
                      None \<Rightarrow> Inl (Wrap ''salt hex'' ErrInvalidPasswordFile)
                    | Some salt \<Rightarrow> if salt = [] then Inl (Wrap ''salt hex'' ErrInvalidPasswordFile)
                        else (case hex_DecodeString keyHex of
                            None \<Rightarrow> Inl (Wrap ''key hex'' ErrInvalidPasswordFile)
                          | Some key \<Rightarrow> if key = [] then Inl (Wrap ''key hex'' ErrInvalidPasswordFile)
                              else Inr (iterations, salt, key))))))"

text \<open>
  The comparison of two hashes: both under an HMAC with a key drawn for the call, the bytes compared by collecting their
  differences in one byte.
\<close>

definition byte :: "char \<Rightarrow> 8 word" where "byte c = word_of_nat (of_char c)"

definition bytes_diff :: "bytes \<Rightarrow> bytes \<Rightarrow> 8 word" where
  "bytes_diff ha hb = foldl (\<lambda>diff i. or diff (xor (byte (ha ! i)) (byte (hb ! i)))) 0 [0..<length ha]"

definition constantTimeEqual :: "gowolf_auth \<Rightarrow> bytes \<Rightarrow> bytes \<Rightarrow> bool res" where
  "constantTimeEqual g a b =
     (if length a \<noteq> length b then Inr False
      else (case RandBytes (gowolf.truncate g) 32 of Inl e \<Rightarrow> Inl e
        | Inr key \<Rightarrow> (case HMACSHA256 g key a of Inl e \<Rightarrow> Inl e
          | Inr ha \<Rightarrow> (case HMACSHA256 g key b of Inl e \<Rightarrow> Inl e
            | Inr hb \<Rightarrow> Inr (bytes_diff ha hb = 0)))))"

definition SetPassword :: "gowolf_auth \<Rightarrow> PasswordStore \<Rightarrow> string \<Rightarrow> string \<Rightarrow> unit io" where
  "SetPassword g ps user password =
     (case validateUsername user of Some e \<Rightarrow> raiseIO e
      | None \<Rightarrow>
          if password = '''' then raiseIO (Msg ''auth.SetPassword: empty password'')
          else let iterations = (if PBKDF2Iterations (ps_cfg ps) \<le> 0 then 600000 else PBKDF2Iterations (ps_cfg ps));
                   saltLen = (if PBKDF2SaltBytes (ps_cfg ps) \<le> 0 then 16 else PBKDF2SaltBytes (ps_cfg ps)) in
            (case RandBytes (gowolf.truncate g) saltLen of Inl e \<Rightarrow> raiseIO (Wrap ''auth.SetPassword: salt'' e)
             | Inr salt \<Rightarrow> (case PBKDF2HMACSHA256 g password salt iterations pbkdf2DerivedKeyLen of
                 Inl e \<Rightarrow> raiseIO (Wrap ''auth.SetPassword: pbkdf2'' e)
               | Inr derived \<Rightarrow>
                   seqIO (wrapIO ''auth.SetPassword: mkdir'' (os_MkdirAll (ps_root ps)))
                     (wrapIO ''auth.SetPassword: write'' (os_WriteFile (hashPath ps user) (encodePBKDF2File iterations salt derived))))))"

definition VerifyPassword :: "gowolf_auth \<Rightarrow> PasswordStore \<Rightarrow> string \<Rightarrow> string \<Rightarrow> unit io" where
  "VerifyPassword g ps user password =
     (if \<not> PasswordEnabled (ps_cfg ps) then raiseIO ErrPasswordAuthDisabled
      else (case validateUsername user of Some e \<Rightarrow> raiseIO e
        | None \<Rightarrow> bindIO (attempt (os_ReadFile (hashPath ps user))) (\<lambda>r. case r of
            Inl e \<Rightarrow> if errors_Is e ErrNotExist then raiseIO ErrUnknownUser else raiseIO (Wrap ''auth.VerifyPassword: read'' e)
          | Inr dat \<Rightarrow> (case decodePBKDF2File dat of Inl e \<Rightarrow> raiseIO e
            | Inr (iterations, salt, stored) \<Rightarrow>
                (case PBKDF2HMACSHA256 g password salt iterations (int (length stored)) of
                   Inl e \<Rightarrow> raiseIO (Wrap ''auth.VerifyPassword: pbkdf2'' e)
                 | Inr candidate \<Rightarrow> (case constantTimeEqual g stored candidate of
                     Inl e \<Rightarrow> raiseIO (Wrap ''auth.VerifyPassword: compare'' e)
                   | Inr ok \<Rightarrow> if \<not> ok then raiseIO ErrInvalidPassword else returnIO ()))))))"

section \<open>Key files (\<^verbatim>\<open>sshkey.go\<close>)\<close>

record PublicKey =
  pk_Algorithm :: string
  pk_Ed25519 :: bytes
  pk_ECDSAPoint :: bytes
  pk_RSAModulus :: bytes
  pk_RSAExponent :: bytes

record gowolfssh =
  ParseAuthorizedKey :: "bytes \<Rightarrow> PublicKey res"
  ParseSSHSignature :: "bytes \<Rightarrow> (string \<times> bytes) res"
  ReadSSHMpint :: "bytes \<Rightarrow> (bytes \<times> bytes) res"
  EncodeECDSASignatureDER :: "bytes \<Rightarrow> bytes \<Rightarrow> bytes"
  AlgSSHEd25519 :: string
  AlgECDSAP256SHA256 :: string
  AlgSSHRSA :: string
  AlgRSASHA256 :: string

definition ErrInvalidSignature :: goerr where "ErrInvalidSignature = Msg ''auth: invalid signature''"
definition ErrUnsupportedKeyType :: goerr where "ErrUnsupportedKeyType = Msg ''auth: unsupported key type''"

definition keyPath :: "path \<Rightarrow> string \<Rightarrow> path" where
  "keyPath root user = join_path root [user @ ''.pub'']"

definition LookupKey :: "gowolfssh \<Rightarrow> path \<Rightarrow> string \<Rightarrow> PublicKey io" where
  "LookupKey sh root user =
     (case validateUsername user of Some e \<Rightarrow> raiseIO e
      | None \<Rightarrow> let p = keyPath root user in
          bindIO (attempt (os_ReadFile p)) (\<lambda>r. case r of
            Inl e \<Rightarrow> if errors_Is e ErrNotExist then raiseIO ErrUnknownUser
                     else raiseIO (Wrap (''auth.LookupKey: read '' @ path_string p) e)
          | Inr dat \<Rightarrow> (case ParseAuthorizedKey sh dat of
              Inl e \<Rightarrow> raiseIO (Wrap (''auth.LookupKey: parse '' @ path_string p) e)
            | Inr pk \<Rightarrow> returnIO pk)))"

text \<open>One case per algorithm; \<^verbatim>\<open>if err != nil || !ok\<close> rejects.\<close>

definition accepted :: "bool res \<Rightarrow> bool" where
  "accepted r \<longleftrightarrow> (case r of Inl _ \<Rightarrow> False | Inr ok \<Rightarrow> ok)"

definition check_ecdsa :: "gowolf_auth \<Rightarrow> gowolfssh \<Rightarrow> PublicKey \<Rightarrow> bytes \<Rightarrow> bytes \<Rightarrow> bool" where
  "check_ecdsa g sh pk dat sigBlob =
     (case ReadSSHMpint sh sigBlob of Inl _ \<Rightarrow> False
      | Inr (r, rest) \<Rightarrow> (case ReadSSHMpint sh rest of Inl _ \<Rightarrow> False
        | Inr (s, rest) \<Rightarrow> rest = [] \<and> (case SHA256 g dat of Inl _ \<Rightarrow> False
          | Inr hash \<Rightarrow> accepted (ECCVerifyP256 g (pk_ECDSAPoint pk) hash (EncodeECDSASignatureDER sh r s)))))"

definition check_signature :: "gowolf_auth \<Rightarrow> gowolfssh \<Rightarrow> PublicKey \<Rightarrow> bytes \<Rightarrow> string \<Rightarrow> bytes \<Rightarrow> goerr option" where
  "check_signature g sh pk dat sigAlgo sigBlob =
     (if sigAlgo = AlgSSHEd25519 sh then
        (if pk_Algorithm pk \<noteq> AlgSSHEd25519 sh then Some ErrInvalidSignature
         else if accepted (Ed25519Verify g (pk_Ed25519 pk) dat sigBlob) then None else Some ErrInvalidSignature)
      else if sigAlgo = AlgECDSAP256SHA256 sh then
        (if pk_Algorithm pk \<noteq> AlgECDSAP256SHA256 sh then Some ErrInvalidSignature
         else if check_ecdsa g sh pk dat sigBlob then None else Some ErrInvalidSignature)
      else if sigAlgo = AlgRSASHA256 sh then
        (if pk_Algorithm pk \<noteq> AlgSSHRSA sh then Some ErrInvalidSignature
         else if accepted (RSAVerifyPKCS1v15SHA256 g (pk_RSAModulus pk) (pk_RSAExponent pk) dat sigBlob) then None
         else Some ErrInvalidSignature)
      else Some ErrUnsupportedKeyType)"

definition VerifySignature :: "gowolf_auth \<Rightarrow> gowolfssh \<Rightarrow> path \<Rightarrow> string \<Rightarrow> bytes \<Rightarrow> bytes \<Rightarrow> unit io" where
  "VerifySignature g sh root user dat sigSSHWire =
     (case validateUsername user of Some e \<Rightarrow> raiseIO e
      | None \<Rightarrow> bindIO (LookupKey sh root user) (\<lambda>pk.
          case ParseSSHSignature sh sigSSHWire of Inl e \<Rightarrow> raiseIO ErrInvalidSignature
          | Inr (sigAlgo, sigBlob) \<Rightarrow> (case check_signature g sh pk dat sigAlgo sigBlob of
              Some e \<Rightarrow> raiseIO e | None \<Rightarrow> returnIO ())))"

section \<open>Hash files: what is written is read back\<close>

lemma fromHexChar_digit: "d < 16 \<Longrightarrow> fromHexChar (hex_digit d) = Some d"
  by (simp add: fromHexChar_def hex_digit_def is_digit_def less_eq_char_def)

lemma hex_roundtrip [simp]: "hex_DecodeString (hex_EncodeToString b) = Some b"
proof (induction b)
  case Nil
  then show ?case by (simp add: hex_EncodeToString_def hex_encode_def)
next
  case (Cons c b)
  let ?n = "of_char c :: nat"
  have n: "?n < 256" by simp
  have "hex_EncodeToString (c # b) = hex_digit (?n div 16) # hex_digit (?n mod 16) # hex_EncodeToString b"
    by (simp add: hex_EncodeToString_def hex_encode_def)
  moreover have "?n div 16 < 16" "?n mod 16 < 16" using n by linarith+
  ultimately show ?case using Cons by (simp add: fromHexChar_digit)
qed

definition hex_chars :: "char set" where "hex_chars = hex_digit ` {..<16}"

lemma hex_EncodeToString_chars: "set (hex_EncodeToString b) \<subseteq> hex_chars"
proof -
  have "(of_char c :: nat) div 16 < 16" for c :: char
  proof -
    have "(of_char c :: nat) < 256" by simp
    then show ?thesis by linarith
  qed
  then show ?thesis by (auto simp: hex_EncodeToString_def hex_encode_def hex_chars_def)
qed

lemma hex_char_plain: "c \<in> hex_chars \<Longrightarrow> c \<noteq> CHR 0x0A \<and> c \<noteq> CHR '':'' \<and> c \<noteq> CHR ''/'' \<and> c \<noteq> CHR ''.'' \<and> c \<noteq> CHR 0x5C \<and> c \<noteq> CHR 0x00"
proof -
  assume "c \<in> hex_chars"
  then obtain d where d: "d < 16" "c = hex_digit d" by (auto simp: hex_chars_def)
  have "(of_char c :: nat) = (if d < 10 then 48 + d else 87 + d)" using d by (simp add: hex_digit_def)
  then show ?thesis using d(1) by (auto split: if_splits)
qed

lemma hex_length [simp]: "length (hex_EncodeToString b) = 2 * length b"
  by (induction b) (simp_all add: hex_EncodeToString_def hex_encode_def)

lemma hex_Nil [simp]: "hex_EncodeToString b = [] \<longleftrightarrow> b = []"
  using hex_length [of b] by (metis length_0_conv mult_is_0 zero_neq_numeral)

lemma Split_append_sep: "c \<notin> set s \<Longrightarrow> Split c (s @ c # t) = s # Split c t"
  by (induction s) auto

lemma Split_newline: "CHR 0x0A \<notin> set s \<Longrightarrow> Split (CHR 0x0A) (s @ newline @ t) = s # Split (CHR 0x0A) t"
  by (simp add: newline_def Split_append_sep)

lemma TrimRight_newline: "s \<noteq> [] \<Longrightarrow> last s \<noteq> CHR 0x0A \<Longrightarrow> TrimRight_nl (s @ newline) = s"
  by (cases s rule: rev_cases) (simp_all add: TrimRight_nl_def newline_def)

lemma cut_at_field: "c \<notin> set k \<Longrightarrow> cut_at c (k @ c # v) = Some (k, v)"
  by (induction k) (simp_all add: cut_at_def split: list.splits)

lemma decode_encode:
  assumes "pbkdf2MinIterations \<le> i" "i \<le> pbkdf2MaxIterations" "salt \<noteq> []" "key \<noteq> []"
  shows "decodePBKDF2File (encodePBKDF2File i salt key) = Inr (i, salt, key)"
proof -
  have plain: "CHR 0x0A \<notin> set (hex_EncodeToString b)" for b
    using hex_EncodeToString_chars hex_char_plain by blast
  have it: "CHR 0x0A \<notin> set (Itoa i)" using Itoa_not_space [of _ i] by (auto simp: is_space_def)
  let ?rest = "''key:'' @ hex_EncodeToString key"
  have "last ?rest \<in> set (hex_EncodeToString key)" using assms(4) by simp
  then have "last ?rest \<noteq> CHR 0x0A" using plain by metis
  then have trim: "TrimRight_nl (encodePBKDF2File i salt key) =
      pbkdf2SentinelV1 @ newline @ (''iterations:'' @ Itoa i) @ newline @ (''salt:'' @ hex_EncodeToString salt) @ newline @ ?rest"
    using TrimRight_newline [of "pbkdf2SentinelV1 @ newline @ (''iterations:'' @ Itoa i) @ newline @ (''salt:'' @ hex_EncodeToString salt) @ newline @ ?rest"]
    by (simp add: encodePBKDF2File_def)
  have lines: "Split (CHR 0x0A) (TrimRight_nl (encodePBKDF2File i salt key)) =
      [pbkdf2SentinelV1, ''iterations:'' @ Itoa i, ''salt:'' @ hex_EncodeToString salt, ?rest]"
    unfolding trim
    using plain it by (simp add: Split_newline Split_no_sep pbkdf2SentinelV1_def del: append_Cons append_assoc)
  have "Atoi (Itoa i) = Some i"
    using assms(1,2) by (intro Atoi_Itoa) (simp_all add: pbkdf2MinIterations_def pbkdf2MaxIterations_def min_int_def max_int_def)
  moreover have "cut_at (CHR '':'') (''iterations:'' @ v) = Some (''iterations'', v)" "cut_at (CHR '':'') (''salt:'' @ v) = Some (''salt'', v)"
    "cut_at (CHR '':'') (''key:'' @ v) = Some (''key'', v)" for v
    using cut_at_field [of "CHR '':''" "''iterations''" v] cut_at_field [of "CHR '':''" "''salt''" v] cut_at_field [of "CHR '':''" "''key''" v]
    by simp_all
  ultimately show ?thesis
    using assms by (simp add: decodePBKDF2File_def lines Let_def set_field_def)
qed

lemma bytes_diff_iff: "length ha = length hb \<Longrightarrow> bytes_diff ha hb = 0 \<longleftrightarrow> ha = hb"
proof -
  assume len: "length ha = length hb"
  have fold: "foldl (\<lambda>diff i. or diff (f i)) d is = (0 :: 8 word) \<longleftrightarrow> d = 0 \<and> (\<forall>i \<in> set is. f i = 0)" for f d "is"
    by (induction "is" arbitrary: d) (auto simp: or_eq_0_iff)
  have eq: "xor (byte a) (byte b) = 0 \<longleftrightarrow> a = b" for a b :: char
  proof -
    have "xor x y = 0 \<longleftrightarrow> x = y" for x y :: "8 word"
    proof
      assume "xor x y = 0"
      then have "xor (xor x y) y = y" by simp
      then show "x = y" by (simp only: xor.assoc xor_self_eq xor.right_neutral)
    qed simp
    moreover have "byte a = byte b \<longleftrightarrow> a = b"
      by (simp add: byte_def word_of_nat_eq_iff take_bit_nat_eq_self)
    ultimately show ?thesis by simp
  qed
  have "bytes_diff ha hb = 0 \<longleftrightarrow> (\<forall>i < length ha. ha ! i = hb ! i)"
    using fold [of "\<lambda>i. xor (byte (ha ! i)) (byte (hb ! i))" 0 "[0..<length ha]"] by (auto simp: bytes_diff_def eq)
  then show ?thesis using len by (auto simp: list_eq_iff_nth_eq)
qed

section \<open>Hash files: accepted passwords\<close>

lemma validateUsername_safe:
  assumes "validateUsername user = None" "sfx \<in> {''.pbkdf2'', ''.pub''}"
  shows "safe_name (user @ sfx)"
proof -
  have u: "user \<noteq> ''''" "CHR ''/'' \<notin> set user"
    using assms(1) by (auto simp: validateUsername_def ContainsAny_def list_ex_iff split: if_splits)
  have s: "length sfx \<ge> 4" "CHR ''/'' \<notin> set sfx" using assms(2) by auto
  have "length (user @ sfx) > 4" using u(1) s(1) by (cases user) auto
  then have "user @ sfx \<noteq> ''''" "user @ sfx \<noteq> ''.''" "user @ sfx \<noteq> ''..''" by force+
  then show ?thesis using u s by (simp add: safe_name_def)
qed

lemma hashPath_valid: "validateUsername user = None \<Longrightarrow> hashPath ps user = ps_root ps @ [user @ ''.pbkdf2'']"
  by (simp add: hashPath_def join_path_safe validateUsername_safe)

lemma keyPath_valid: "validateUsername user = None \<Longrightarrow> keyPath r user = r @ [user @ ''.pub'']"
  by (simp add: keyPath_def join_path_safe validateUsername_safe)

text \<open>Creating the directory and writing one file in it, shared by the stores that keep one file per key.\<close>

lemma mkdir_write_effect:
  assumes "os_MkdirAll d w = (Inr u, w1)" "os_WriteFile p dat w1 = (Inr v, w2)"
  shows "file_at w2 = (file_at w)(p \<mapsto> dat)" "fault w2 = fault w" "clock w2 = clock w"
  using WriteFile_effect [OF assms(2)] MkdirAll_frame [OF assms(1)] by (auto simp: file_at_def fun_eq_iff)

text \<open>
  What the wolfSSL manual promises of the calls used here: the length asked for, and success of the generator and of HMAC.
\<close>

definition gowolf_auth_ok :: "gowolf_auth \<Rightarrow> bool" where
  "gowolf_auth_ok g \<longleftrightarrow>
     (\<forall>n. \<exists>b. wc_rng g n = Inr b \<and> length b = n) \<and>
     (\<forall>p s i n k. 0 < n \<and> wc_pbkdf2 g p s i n = Inr k \<longrightarrow> int (length k) = n) \<and>
     (\<forall>k b. \<exists>m. wc_hmac g k b = Inr m \<and> length m = 32)"

text \<open>The MACs the comparison sets against each other, under the key it draws.\<close>

definition mac_of :: "gowolf_auth \<Rightarrow> bytes \<Rightarrow> int + bytes" where
  "mac_of g b = (case wc_rng g 32 of Inl e \<Rightarrow> Inl e | Inr key \<Rightarrow> wc_hmac g key b)"

lemma RandBytes_ok:
  assumes "gowolf_auth_ok g" "0 < n"
  shows "\<exists>b. RandBytes (gowolf.truncate g) n = Inr b \<and> wc_rng g (nat n) = Inr b \<and> int (length b) = n"
proof -
  obtain b where "wc_rng g (nat n) = Inr b" "length b = nat n" using assms(1) unfolding gowolf_auth_ok_def by blast
  with assms(2) show ?thesis by (simp add: RandBytes_def rc_err_def gowolf.truncate_def)
qed

lemma constantTimeEqual_iff:
  assumes "gowolf_auth_ok g"
  shows "constantTimeEqual g a b = Inr (length a = length b \<and> mac_of g a = mac_of g b)"
proof -
  obtain key where k: "RandBytes (gowolf.truncate g) 32 = Inr key" "wc_rng g 32 = Inr key"
    using RandBytes_ok [OF assms, of 32] by auto
  obtain ma mb where "wc_hmac g key a = Inr ma" "wc_hmac g key b = Inr mb" "length ma = 32" "length mb = 32"
    using assms unfolding gowolf_auth_ok_def by meson
  with k show ?thesis by (simp add: constantTimeEqual_def HMACSHA256_def rc_err_def mac_of_def bytes_diff_iff)
qed

definition in_force :: "int \<Rightarrow> int \<Rightarrow> int" where
  "in_force dflt v = (if v \<le> 0 then dflt else v)"

lemma pbkdf2_length: "gowolf_auth_ok g \<Longrightarrow> wc_pbkdf2 g p s i 32 = Inr k \<Longrightarrow> length k = 32"
  unfolding gowolf_auth_ok_def by (metis nat_int nat_numeral zero_less_numeral)

lemma in_force_pos: "0 < in_force 16 v" "0 < in_force 600000 v"
  by (simp_all add: in_force_def)

lemma SetPassword_file:
  assumes "gowolf_auth_ok g" "SetPassword g ps user pw w = (Inr u, w')"
  obtains salt key where
    "validateUsername user = None" "int (length salt) = in_force 16 (PBKDF2SaltBytes (ps_cfg ps))"
    "wc_pbkdf2 g pw salt (in_force 600000 (PBKDF2Iterations (ps_cfg ps))) 32 = Inr key"
    "length key = 32" "fault w' = fault w"
    "file_at w' = (file_at w)(hashPath ps user \<mapsto> encodePBKDF2File (in_force 600000 (PBKDF2Iterations (ps_cfg ps))) salt key)"
proof -
  let ?i = "in_force 600000 (PBKDF2Iterations (ps_cfg ps))" and ?n = "in_force 16 (PBKDF2SaltBytes (ps_cfg ps))"
  obtain salt where s: "RandBytes (gowolf.truncate g) ?n = Inr salt" "int (length salt) = ?n"
    using RandBytes_ok [OF assms(1) in_force_pos(1)] by blast
  from assms(2) s(1) obtain key where v: "validateUsername user = None"
    and k: "PBKDF2HMACSHA256 g pw salt ?i pbkdf2DerivedKeyLen = Inr key"
    and run: "seqIO (wrapIO ''auth.SetPassword: mkdir'' (os_MkdirAll (ps_root ps)))
       (wrapIO ''auth.SetPassword: write'' (os_WriteFile (hashPath ps user) (encodePBKDF2File ?i salt key))) w = (Inr u, w')"
    by (auto simp: SetPassword_def in_force_def raiseIO_def Let_def split: option.splits if_splits sum.splits)
  from k have k': "wc_pbkdf2 g pw salt ?i 32 = Inr key"
    by (auto simp: PBKDF2HMACSHA256_def pbkdf2DerivedKeyLen_def rc_err_def split: if_splits sum.splits)
  then have "length key = 32" using pbkdf2_length assms(1) by blast
  from run obtain u1 w1 u2 where w: "os_MkdirAll (ps_root ps) w = (Inr u1, w1)"
      "os_WriteFile (hashPath ps user) (encodePBKDF2File ?i salt key) w1 = (Inr u2, w')"
    by (auto simp: io_simps)
  from mkdir_write_effect [OF w] show thesis
    by (intro that [OF v s(2) k' \<open>length key = 32\<close>])
qed

text \<open>What a login makes of a stored hash: the digests of the two derived keys are compared.\<close>

lemma VerifyPassword_stored:
  assumes "gowolf_auth_ok g" "no_faults w" "PasswordEnabled (ps_cfg ps)" "validateUsername user = None"
    and "i \<in> {pbkdf2MinIterations..pbkdf2MaxIterations}" "salt \<noteq> []" "length key = 32"
    and "file_at w (hashPath ps user) = Some (encodePBKDF2File i salt key)" "wc_pbkdf2 g pw salt i 32 = Inr key'"
  shows "VerifyPassword g ps user pw w = (if mac_of g key = mac_of g key' then Inr () else Inl ErrInvalidPassword, w)"
proof -
  have dec: "decodePBKDF2File (encodePBKDF2File i salt key) = Inr (i, salt, key)"
    using assms(5-7) by (intro decode_encode) auto
  have read: "os_ReadFile (hashPath ps user) w = (Inr (encodePBKDF2File i salt key), w)"
    using assms(2,8) by (intro ReadFile_ok) (auto simp: no_faults_def)
  have "length key' = 32" using pbkdf2_length assms(1,9) by blast
  then have "constantTimeEqual g key key' = Inr (mac_of g key = mac_of g key')"
    using assms(7) by (simp add: constantTimeEqual_iff [OF assms(1)])
  moreover have "PBKDF2HMACSHA256 g pw salt i (int (length key)) = Inr key'"
    using assms(5,7,9) by (simp add: PBKDF2HMACSHA256_def rc_err_def pbkdf2MinIterations_def)
  ultimately show ?thesis
    using assms(3,4) by (simp add: VerifyPassword_def bindIO_def attempt_def read dec raiseIO_def returnIO_def)
qed

text \<open>
  C12. The hash a password leaves decides the login that follows. With password sign-in switched on (\<^verbatim>\<open>PasswordEnabled\<close>; off, every check is
  \<^verbatim>\<open>ErrPasswordAuthDisabled\<close>), on a disk without faults, with bindings whose random generator and HMAC succeed and
  which return as many bytes as asked for, and
  after \<^verbatim>\<open>SetPassword\<close> has succeeded under an iteration count the reader accepts: \<^verbatim>\<open>VerifyPassword\<close> for that user, on the
  disk \<^verbatim>\<open>SetPassword\<close> left, compares the keyed digest of the key derived from the offered password, with the stored salt and
  count, to that of the stored key: equal digests are accepted, any other password whose key can be derived is \<^verbatim>\<open>ErrInvalidPassword\<close>;
  the password that was set is accepted, the check changes nothing on disk, and the hash of every other user is what it was.
\<close>

theorem password_login:
  assumes "gowolf_auth_ok g" "gowolf_auth_ok g'" "wc_pbkdf2 g' = wc_pbkdf2 g" "no_faults w"
    and "PasswordEnabled (ps_cfg ps)"
    and "in_force 600000 (PBKDF2Iterations (ps_cfg ps)) \<in> {pbkdf2MinIterations..pbkdf2MaxIterations}"
    and "SetPassword g ps user pw w = (Inr u, w')"
  shows "VerifyPassword g' ps user pw w' = (Inr (), w') \<and>
    (\<exists>salt key. wc_pbkdf2 g pw salt (in_force 600000 (PBKDF2Iterations (ps_cfg ps))) 32 = Inr key \<and>
       (\<forall>pw' key'. wc_pbkdf2 g pw' salt (in_force 600000 (PBKDF2Iterations (ps_cfg ps))) 32 = Inr key' \<longrightarrow>
          VerifyPassword g' ps user pw' w' =
            (if mac_of g' key = mac_of g' key' then Inr () else Inl ErrInvalidPassword, w'))) \<and>
    (\<forall>v. validateUsername v = None \<and> v \<noteq> user \<longrightarrow> file_at w' (hashPath ps v) = file_at w (hashPath ps v))"
proof -
  let ?i = "in_force 600000 (PBKDF2Iterations (ps_cfg ps))"
  from SetPassword_file [OF assms(1,7)] obtain salt key where v: "validateUsername user = None"
    and salt: "int (length salt) = in_force 16 (PBKDF2SaltBytes (ps_cfg ps))"
    and key: "wc_pbkdf2 g pw salt ?i 32 = Inr key" "length key = 32" and f: "fault w' = fault w"
    and disk: "file_at w' = (file_at w)(hashPath ps user \<mapsto> encodePBKDF2File ?i salt key)" .
  have "salt \<noteq> []" using salt by (auto simp: in_force_def split: if_splits)
  then have check: "VerifyPassword g' ps user pw' w' = (if mac_of g' key = mac_of g' key' then Inr () else Inl ErrInvalidPassword, w')"
    if "wc_pbkdf2 g pw' salt ?i 32 = Inr key'" for pw' key'
    using that disk f assms(3,4) key(2) by (intro VerifyPassword_stored [OF assms(2) _ assms(5) v assms(6)]) (auto simp: no_faults_def)
  have "hashPath ps x \<noteq> hashPath ps user" if "validateUsername x = None" "x \<noteq> user" for x
    using that v by (simp add: hashPath_valid)
  then have others: "\<forall>v. validateUsername v = None \<and> v \<noteq> user \<longrightarrow> file_at w' (hashPath ps v) = file_at w (hashPath ps v)"
    using disk by auto
  have own: "VerifyPassword g' ps user pw w' = (Inr (), w')" using check [OF key(1)] by simp
  show ?thesis
    by (intro conjI exI [of _ salt] exI [of _ key] allI impI own key(1) others check)
qed

section \<open>Signatures\<close>

lemma check_signature_accepts:
  assumes "distinct [AlgSSHEd25519 sh, AlgECDSAP256SHA256 sh, AlgRSASHA256 sh]"
  shows "check_signature g sh pk dat alg blob = None \<longleftrightarrow>
      alg = AlgSSHEd25519 sh \<and> pk_Algorithm pk = AlgSSHEd25519 sh \<and> Ed25519Verify g (pk_Ed25519 pk) dat blob = Inr True
      \<or> alg = AlgECDSAP256SHA256 sh \<and> pk_Algorithm pk = AlgECDSAP256SHA256 sh \<and> check_ecdsa g sh pk dat blob
      \<or> alg = AlgRSASHA256 sh \<and> pk_Algorithm pk = AlgSSHRSA sh
        \<and> RSAVerifyPKCS1v15SHA256 g (pk_RSAModulus pk) (pk_RSAExponent pk) dat blob = Inr True"
proof -
  have "accepted r \<longleftrightarrow> r = Inr True" for r by (auto simp: accepted_def split: sum.splits)
  with assms show ?thesis by (auto simp: check_signature_def)
qed


section \<open>Evaluated instances\<close>

definition demo_auth :: gowolf_auth where
  "demo_auth = gowolf.extend demo_gowolf
     \<lparr>wc_hmac = (\<lambda>k b. Inr (take 32 (b @ replicate 32 (CHR ''m'')))),
      wc_pbkdf2 = (\<lambda>p s i n. Inr (take (nat n) (p @ replicate (nat n) (CHR ''k'')))),
      wc_sha256 = (\<lambda>b. Inr (replicate 32 (CHR ''h''))),
      wc_ed25519_import = (\<lambda>k. 0), wc_ed25519_verify = (\<lambda>k s m. (0, if s = m then 1 else 0)),
      wc_ecc_import = (\<lambda>k. 0), wc_ecc_verify = (\<lambda>k s h. (0, 0)),
      wc_rsa_decode = (\<lambda>m e. 0), wc_sig_verify = (\<lambda>m e msg s. 1)\<rparr>"

lemma demo_auth_ok: "gowolf_auth_ok demo_auth"
  by (auto simp: gowolf_auth_ok_def demo_auth_def gowolf.extend_def demo_gowolf_def)

definition demo_passwords :: PasswordStore where
  "demo_passwords = NewPasswordStore [''auth'', ''users''] \<lparr>PasswordEnabled = True, PBKDF2Iterations = 100, PBKDF2SaltBytes = 8\<rparr>"

theorem password_login_witness:
  "VerifyPassword demo_auth demo_passwords ''kaleb'' ''hunter2'' (snd (SetPassword demo_auth demo_passwords ''kaleb'' ''hunter2'' empty_disk))
     = (Inr (), snd (SetPassword demo_auth demo_passwords ''kaleb'' ''hunter2'' empty_disk))"
proof -
  have "fst (SetPassword demo_auth demo_passwords ''kaleb'' ''hunter2'' empty_disk) = Inr ()"
    by code_simp
  then have set: "SetPassword demo_auth demo_passwords ''kaleb'' ''hunter2'' empty_disk
      = (Inr (), snd (SetPassword demo_auth demo_passwords ''kaleb'' ''hunter2'' empty_disk))"
    by (metis prod.collapse)
  have "no_faults empty_disk" by (simp add: no_faults_def empty_disk_def)
  from password_login [OF demo_auth_ok demo_auth_ok refl this _ _ set] show ?thesis
    by (simp add: demo_passwords_def NewPasswordStore_def in_force_def pbkdf2MinIterations_def pbkdf2MaxIterations_def)
qed

definition demo_ssh :: gowolfssh where
  "demo_ssh = \<lparr>ParseAuthorizedKey = (\<lambda>b. Inr \<lparr>pk_Algorithm = ''ssh-ed25519'', pk_Ed25519 = b, pk_ECDSAPoint = [], pk_RSAModulus = [], pk_RSAExponent = []\<rparr>),
     ParseSSHSignature = (\<lambda>b. Inr (''ssh-ed25519'', b)), ReadSSHMpint = (\<lambda>b. Inr (b, [])), EncodeECDSASignatureDER = (\<lambda>r s. r @ s),
     AlgSSHEd25519 = ''ssh-ed25519'', AlgECDSAP256SHA256 = ''ecdsa-sha2-nistp256'', AlgSSHRSA = ''ssh-rsa'', AlgRSASHA256 = ''rsa-sha2-256''\<rparr>"

definition demo_key_disk :: world where
  "demo_key_disk = fs_put [''keys'', ''kaleb.pub''] (FileN (replicate 32 (CHR ''p'')) 0) empty_disk"


end
