(* ===== verification/JobForm.thy ===== *)
theory JobForm
  imports Storage Auth
begin

text \<open>
  The per-field job form of the web server: \<^verbatim>\<open>internal/server/jobform_builder.go\<close>, which turns a submitted form into a job, and
  the values \<^verbatim>\<open>templates/jobedit.html\<close> puts into the controls through \<^verbatim>\<open>jobFormFuncs\<close>, as a browser sends them back
  untouched. The YAML functions of the four list fragments are the record \<open>form_codec\<close>.
\<close>

section \<open>Requests\<close>

text \<open>
  A request as the handlers see it: \<open>parse_ok\<close> is the verdict of \<^verbatim>\<open>r.ParseForm\<close>; a form value is the first one of the body,
  then of the query, and empty when there is none.
\<close>

record Request =
  req_method :: string
  url_path :: string
  url_query :: "(string \<times> string) list"
  post_form :: "(string \<times> string) list"
  parse_ok :: bool
  cookie :: "string option"

definition FormValue :: "Request \<Rightarrow> string \<Rightarrow> string" where
  "FormValue r k = (case map_of (post_form r @ url_query r) k of None \<Rightarrow> '''' | Some v \<Rightarrow> v)"

section \<open>Small routines\<close>

definition to_lower :: "char \<Rightarrow> char" where
  "to_lower c = (if char_between CHR ''A'' CHR ''Z'' c then char_of (of_char c + 32 :: nat) else c)"

definition isFormChecked :: "string \<Rightarrow> bool" where
  "isFormChecked v \<longleftrightarrow> map to_lower (TrimSpace v) \<in> set [''on'', ''true'', ''1'', ''yes'']"

text \<open>\<^verbatim>\<open>splitLines\<close>, and the same loop as the builder writes it out for its line lists.\<close>

definition splitLines :: "string \<Rightarrow> string list" where
  "splitLines s = filter (\<lambda>l. l \<noteq> '''') (map TrimSpace (Split (CHR 0x0A) s))"

primrec join_with :: "string \<Rightarrow> string list \<Rightarrow> string" where
  "join_with sep [] = ''''"
| "join_with sep (x # xs) = (if xs = [] then x else x @ sep @ join_with sep xs)"

definition bind_res :: "'a res \<Rightarrow> ('a \<Rightarrow> 'b res) \<Rightarrow> 'b res" where
  "bind_res r f = (case r of Inl e \<Rightarrow> Inl e | Inr x \<Rightarrow> f x)"

lemma bind_res_simps [simp]: "bind_res (Inr x) f = f x" "bind_res (Inl e) f = Inl e"
  by (simp_all add: bind_res_def)

lemma bind_res_Inr: "bind_res r f = Inr y \<longleftrightarrow> (\<exists>x. r = Inr x \<and> f x = Inr y)"
  by (cases r) auto

definition atoi_res :: "string \<Rightarrow> string \<Rightarrow> int res" where
  "atoi_res what v = (case Atoi v of None \<Rightarrow> Inl (Wrap what (Msg ''strconv.Atoi'')) | Some n \<Rightarrow> Inr n)"

section \<open>The builder (\<^verbatim>\<open>buildJobFromForm\<close>)\<close>

record form_codec =
  steps_enc :: "Step list \<Rightarrow> string"
  steps_dec :: "string \<Rightarrow> Step list option"
  params_enc :: "Parameter list \<Rightarrow> string"
  params_dec :: "string \<Rightarrow> Parameter list option"
  axis_enc :: "AxisDimension list \<Rightarrow> string"
  axis_dec :: "string \<Rightarrow> AxisDimension list option"
  td_enc :: "TriggerSpec list \<Rightarrow> string"
  td_dec :: "string \<Rightarrow> TriggerSpec list option"

definition knownTriggerTypes :: "string list" where "knownTriggerTypes = [''cron'', ''webhook'', ''scm'']"

definition formTriggerRows :: nat where "formTriggerRows = 3"

definition trigger_name :: "nat \<Rightarrow> string \<Rightarrow> string" where
  "trigger_name i what = ''trigger_'' @ Itoa (int i) @ ''_'' @ what"

definition form_retention :: "Request \<Rightarrow> Retention option res" where
  "form_retention r =
     (let mb = TrimSpace (FormValue r ''retention_max_builds'');
          ma = TrimSpace (FormValue r ''retention_max_age'');
          dobStrat = TrimSpace (FormValue r ''discard_old_builds.strategy'');
          dobMaxBuilds = TrimSpace (FormValue r ''discard_old_builds.max_builds'');
          dobDays = TrimSpace (FormValue r ''discard_old_builds.days_to_keep'') in
      if dobStrat \<noteq> '''' \<and> dobStrat \<noteq> ''log_rotation''
      then Inl (Msg (''discard_old_builds.strategy '' @ quoted dobStrat @ '' is not supported (only '' @ quoted ''log_rotation'' @ '')''))
      else let mb = (if dobMaxBuilds \<noteq> '''' then dobMaxBuilds else mb);
               ma = (if dobDays \<noteq> '''' then dobDays @ ''d'' else ma) in
        if mb = '''' \<and> ma = '''' then Inr None
        else if mb = '''' then Inr (Some \<lparr>MaxBuilds = 0, MaxAge = ma\<rparr>)
        else bind_res (atoi_res ''retention_max_builds'' mb) (\<lambda>n. Inr (Some \<lparr>MaxBuilds = n, MaxAge = ma\<rparr>)))"

fun form_triggers :: "Request \<Rightarrow> nat list \<Rightarrow> Trigger list res" where
  "form_triggers r [] = Inr []"
| "form_triggers r (i # is) =
     (let t = TrimSpace (FormValue r (trigger_name i ''type'')) in
      if t = '''' then form_triggers r is
      else if t \<notin> set knownTriggerTypes
      then Inl (Msg (trigger_name i ''type'' @ '' '' @ quoted t @ '' is not one of [cron webhook scm]''))
      else let cfg = TrimSpace (FormValue r (trigger_name i ''config''));
               trig = \<lparr>trig_Type = t, Config = (if cfg = '''' then []
                         else [(if t = ''cron'' then ''schedule'' else ''config'', cfg)])\<rparr> in
           bind_res (form_triggers r is) (\<lambda>ts. Inr (trig # ts)))"

definition form_build_env :: "Request \<Rightarrow> BuildEnv option" where
  "form_build_env r =
     (let prepEnv = isFormChecked (FormValue r ''prepare_environment_for_run'');
          keepEnv = isFormChecked (FormValue r ''keep_jenkins_environment_variables'');
          keepBuild = isFormChecked (FormValue r ''keep_jenkins_build_variables'') in
      if prepEnv \<or> keepEnv \<or> keepBuild
      then Some \<lparr>PrepareEnvForRun = prepEnv, KeepJenkinsEnvVars = keepEnv, KeepJenkinsBuildVars = keepBuild\<rparr> else None)"

definition form_ghprb :: "Request \<Rightarrow> GitHubPRBTrigger option res" where
  "form_ghprb r =
     (let apiCred = TrimSpace (FormValue r ''api_credentials_id'') in
      if apiCred = '''' then Inr None
      else let v = TrimSpace (FormValue r ''poll_interval_seconds'') in
        bind_res (if v = '''' then Inr 0 else atoi_res ''poll_interval_seconds'' v) (\<lambda>n.
          Inr (Some \<lparr>APICredentialsID = apiCred, GHProjectURL = TrimSpace (FormValue r ''gh_project_url''),
                AdminUsers = splitLines (FormValue r ''admin_users''),
                BranchesToBuild = splitLines (FormValue r ''branches_to_build''),
                PollIntervalSeconds = n, BuildMergeRef = False\<rparr>)))"

definition form_pipeline :: "Request \<Rightarrow> PipelineBlock option" where
  "form_pipeline r =
     (let repoURL = TrimSpace (FormValue r ''repo_url'') in
      if repoURL = '''' then None
      else Some \<lparr>Definition = ''from_scm'', Script = '''',
             SCM = Some \<lparr>RepoURL = repoURL, CredentialsID = TrimSpace (FormValue r ''credentials_id''),
                         BranchSpecifier = TrimSpace (FormValue r ''branch_specifier''),
                         ScriptPath = TrimSpace (FormValue r ''script_path''),
                         LightweightCheckout = isFormChecked (FormValue r ''lightweight_checkout'')\<rparr>\<rparr>)"

definition form_fragment :: "string \<Rightarrow> (string \<Rightarrow> 'a list option) \<Rightarrow> Request \<Rightarrow> 'a list res" where
  "form_fragment field dec r =
     (let v = TrimSpace (FormValue r field) in
      if v = '''' then Inr []
      else (case dec v of None \<Rightarrow> Inl (Wrap field (Msg ''yaml'')) | Some xs \<Rightarrow> Inr xs))"

definition buildJobFromForm :: "form_codec \<Rightarrow> Request \<Rightarrow> Job res" where
  "buildJobFromForm c r =
     (if \<not> parse_ok r then Inl (Wrap ''parse form'' (Msg ''form''))
      else let name = TrimSpace (FormValue r ''name'') in
        if name = '''' then Inl (Msg ''name is required'')
        else let rv = TrimSpace (FormValue r ''retries'') in
          bind_res (if rv = '''' then Inr 0 else atoi_res ''retries'' rv) (\<lambda>retries.
          bind_res (form_retention r) (\<lambda>ret.
          bind_res (form_triggers r [0..<formTriggerRows]) (\<lambda>trigs.
          bind_res (form_ghprb r) (\<lambda>ghprb.
          bind_res (form_fragment ''steps_yaml'' (steps_dec c) r) (\<lambda>steps.
          bind_res (form_fragment ''parameters_yaml'' (params_dec c) r) (\<lambda>params.
          bind_res (form_fragment ''axis_yaml'' (axis_dec c) r) (\<lambda>axis.
          bind_res (form_fragment ''triggers_downstream_yaml'' (td_dec c) r) (\<lambda>td.
            Inr \<lparr>Name = name, Description = FormValue r ''description'', NodeLabel = TrimSpace (FormValue r ''node_label''),
                 Timeout = TrimSpace (FormValue r ''timeout''), Retries = retries, Triggers = trigs, Parameters = params,
                 Steps = steps, Axis = axis, job_Retention = ret, Upstream = splitLines (FormValue r ''upstream''),
                 TriggersDownstream = td, GitHubPRB = ghprb, Env = [],
                 GitHubProjectURL = TrimSpace (FormValue r ''github_project_url''), job_BuildEnv = form_build_env r,
                 Pipeline = form_pipeline r\<rparr>)))))))))"

section \<open>What the page shows (\<^verbatim>\<open>jobFormFuncs\<close>, \<^verbatim>\<open>jobedit.html\<close>)\<close>

definition triggerTypeFor :: "Job option \<Rightarrow> nat \<Rightarrow> string" where
  "triggerTypeFor j idx =
     (case j of None \<Rightarrow> '''' | Some j \<Rightarrow> if idx \<ge> length (Triggers j) then '''' else trig_Type (Triggers j ! idx))"

text \<open>The fallback takes any value of the map: the first one of the association list.\<close>

definition triggerConfigFor :: "Job option \<Rightarrow> nat \<Rightarrow> string" where
  "triggerConfigFor j idx =
     (case j of None \<Rightarrow> ''''
      | Some j \<Rightarrow> if idx \<ge> length (Triggers j) \<or> Config (Triggers j ! idx) = [] then ''''
          else let cfg = Config (Triggers j ! idx) in
            (case map_of cfg ''schedule'' of Some v \<Rightarrow> v
             | None \<Rightarrow> (case map_of cfg ''config'' of Some v \<Rightarrow> v | None \<Rightarrow> snd (hd cfg))))"

definition marshalListFragment :: "('a list \<Rightarrow> string) \<Rightarrow> 'a list \<Rightarrow> string" where
  "marshalListFragment enc xs = (if xs = [] then '''' else rev (dropWhile (\<lambda>c. c = CHR 0x0A) (rev (enc xs))))"

definition of_job :: "Job option \<Rightarrow> (Job \<Rightarrow> 'a option) \<Rightarrow> 'b \<Rightarrow> ('a \<Rightarrow> 'b) \<Rightarrow> 'b" where
  "of_job j sel zero f = (case Option.bind j sel of None \<Rightarrow> zero | Some b \<Rightarrow> f b)"

definition ghprbPollIntervalFor :: "Job option \<Rightarrow> int" where
  "ghprbPollIntervalFor j = of_job j GitHubPRB 300 (\<lambda>g. if PollIntervalSeconds g = 0 then 300 else PollIntervalSeconds g)"

definition jobSCMOrNil :: "Job \<Rightarrow> SCMConfig option" where
  "jobSCMOrNil j = (case Pipeline j of None \<Rightarrow> None | Some p \<Rightarrow> if Definition p \<noteq> ''from_scm'' then None else SCM p)"

text \<open>
  A control as the browser submits it: a text input drops line breaks, a text area loses a first line feed and sends its line
  breaks as CR LF, a select sends the option that is marked selected and otherwise its first one, a checkbox sends \<^verbatim>\<open>on\<close>
  or nothing.
\<close>

definition one_line :: "string \<Rightarrow> string" where
  "one_line v = filter (\<lambda>c. c \<noteq> CHR 0x0A \<and> c \<noteq> CHR 0x0D) v"

definition text_input :: "string \<Rightarrow> string \<Rightarrow> (string \<times> string) list" where
  "text_input name v = [(name, one_line v)]"

fun lf :: "string \<Rightarrow> string" where
  "lf [] = []"
| "lf [c] = [if c = CHR 0x0D then CHR 0x0A else c]"
| "lf (c # d # s) =
     (if c = CHR 0x0D then CHR 0x0A # (if d = CHR 0x0A then lf s else lf (d # s)) else c # lf (d # s))"

definition crlf :: "string \<Rightarrow> string" where
  "crlf s = concat (map (\<lambda>c. if c = CHR 0x0A then [CHR 0x0D, CHR 0x0A] else [c]) s)"

definition area :: "string \<Rightarrow> string" where
  "area v = (let s = lf v in crlf (if s \<noteq> [] \<and> hd s = CHR 0x0A then tl s else s))"

definition text_area :: "string \<Rightarrow> string \<Rightarrow> (string \<times> string) list" where
  "text_area name v = [(name, area v)]"

definition select_one :: "string \<Rightarrow> string list \<Rightarrow> string \<Rightarrow> (string \<times> string) list" where
  "select_one name options v = [(name, if v \<in> set options then v else '''')]"

definition checkbox :: "string \<Rightarrow> bool \<Rightarrow> (string \<times> string) list" where
  "checkbox name v = (if v then [(name, ''on'')] else [])"

definition job_or :: "string \<Rightarrow> Job option \<Rightarrow> (Job \<Rightarrow> string) \<Rightarrow> string" where
  "job_or d j f = (case j of None \<Rightarrow> d | Some j \<Rightarrow> f j)"

definition trigger_row :: "Job option \<Rightarrow> nat \<Rightarrow> (string \<times> string) list" where
  "trigger_row j i =
     select_one (trigger_name i ''type'') knownTriggerTypes (triggerTypeFor j i)
     @ text_input (trigger_name i ''config'') (triggerConfigFor j i)"

definition form_controls :: "form_codec \<Rightarrow> string list \<Rightarrow> string \<Rightarrow> Job option \<Rightarrow> (string \<times> string) list" where
  "form_controls c creds name j =
     (''view'', ''form'') #
     text_input ''name'' (job_or name j Name) @
     text_area ''description'' (job_or '''' j Description) @
     text_input ''node_label'' (job_or '''' j NodeLabel) @
     text_input ''timeout'' (job_or '''' j Timeout) @
     text_input ''retries'' (job_or ''0'' j (\<lambda>j. Itoa (Retries j))) @
     text_input ''retention_max_builds'' (of_job j job_Retention '''' (\<lambda>r. Itoa (MaxBuilds r))) @
     text_input ''retention_max_age'' (of_job j job_Retention '''' MaxAge) @
     text_area ''upstream'' (job_or '''' j (\<lambda>j. concat (map (\<lambda>u. u @ [CHR 0x0A]) (Upstream j)))) @
     concat (map (trigger_row j) [0..<formTriggerRows]) @
     text_area ''steps_yaml'' (job_or '''' j (\<lambda>j. marshalListFragment (steps_enc c) (Steps j))) @
     text_area ''parameters_yaml'' (job_or '''' j (\<lambda>j. marshalListFragment (params_enc c) (Parameters j))) @
     text_area ''axis_yaml'' (job_or '''' j (\<lambda>j. marshalListFragment (axis_enc c) (Axis j))) @
     text_area ''triggers_downstream_yaml'' (job_or '''' j (\<lambda>j. marshalListFragment (td_enc c) (TriggersDownstream j))) @
     select_one ''api_credentials_id'' creds (of_job j GitHubPRB '''' APICredentialsID) @
     text_input ''gh_project_url'' (of_job j GitHubPRB '''' GHProjectURL) @
     text_area ''admin_users'' (of_job j GitHubPRB '''' (\<lambda>g. join_with [CHR 0x0A] (AdminUsers g))) @
     text_area ''branches_to_build'' (of_job j GitHubPRB '''' (\<lambda>g. join_with [CHR 0x0A] (BranchesToBuild g))) @
     text_input ''poll_interval_seconds'' (Itoa (ghprbPollIntervalFor j)) @
     text_input ''repo_url'' (of_job j jobSCMOrNil '''' RepoURL) @
     select_one ''credentials_id'' creds (of_job j jobSCMOrNil '''' CredentialsID) @
     text_input ''branch_specifier'' (of_job j jobSCMOrNil '''' BranchSpecifier) @
     text_input ''script_path'' (of_job j jobSCMOrNil '''' ScriptPath) @
     checkbox ''lightweight_checkout'' (of_job j jobSCMOrNil False LightweightCheckout) @
     checkbox ''prepare_environment_for_run'' (of_job j job_BuildEnv False PrepareEnvForRun) @
     checkbox ''keep_jenkins_environment_variables'' (of_job j job_BuildEnv False KeepJenkinsEnvVars) @
     checkbox ''keep_jenkins_build_variables'' (of_job j job_BuildEnv False KeepJenkinsBuildVars)"

text \<open>Saving the form as it was rendered: no control touched.\<close>

definition untouched :: "form_codec \<Rightarrow> string list \<Rightarrow> Job \<Rightarrow> Request" where
  "untouched c creds j =
     \<lparr>req_method = ''POST'', url_path = ''/jobs/'' @ Name j @ ''/edit'', url_query = [],
      post_form = form_controls c creds (Name j) (Some j), parse_ok = True, cookie = None\<rparr>"

section \<open>Text that survives its control\<close>

definition tidy :: "string \<Rightarrow> bool" where
  "tidy v \<longleftrightarrow> TrimSpace v = v \<and> CHR 0x0A \<notin> set v \<and> CHR 0x0D \<notin> set v"

lemma one_line_id [simp]: "CHR 0x0A \<notin> set v \<Longrightarrow> CHR 0x0D \<notin> set v \<Longrightarrow> one_line v = v"
  by (auto simp: one_line_def filter_id_conv)

lemma tidy_trim [simp]: "tidy v \<Longrightarrow> TrimSpace (one_line v) = v"
  by (simp add: tidy_def)

lemma tidy_Itoa [simp]: "tidy (Itoa n)"
  using Itoa_not_space [of _ n] by (auto simp: tidy_def TrimSpace_id is_space_def)

lemma TrimSpace_empty [simp]: "TrimSpace [] = []"
  by (simp add: TrimSpace_def)

lemma TrimSpace_snoc: "is_space c \<Longrightarrow> TrimSpace (s @ [c]) = TrimSpace s"
  by (cases "\<exists>x \<in> set s. \<not> is_space x") (auto simp: TrimSpace_def dropWhile_append dropWhile_eq_Nil_conv dest: set_dropWhileD)

lemma splitLines_crlf: "splitLines (crlf s) = splitLines s"
proof -
  have "map TrimSpace (Split (CHR 0x0A) (u @ crlf s)) = map TrimSpace (Split (CHR 0x0A) (u @ s))" if "CHR 0x0A \<notin> set u" for u
    using that
  proof (induction s arbitrary: u)
    case (Cons c s)
    show ?case
    proof (cases "c = CHR 0x0A")
      case True
      have s: "Split (CHR 0x0A) (u @ crlf (c # s)) = (u @ [CHR 0x0D]) # Split (CHR 0x0A) (crlf s)"
        using Cons.prems True Split_append_sep [of "CHR 0x0A" "u @ [CHR 0x0D]" "crlf s"] by (simp add: crlf_def)
      have "Split (CHR 0x0A) (u @ c # s) = u # Split (CHR 0x0A) s"
        using Cons.prems True by (simp add: Split_append_sep)
      with s Cons.IH [of "[]"] show ?thesis by (simp add: TrimSpace_snoc is_space_def)
    next
      case False
      with Cons.IH [of "u @ [c]"] Cons.prems show ?thesis by (simp add: crlf_def)
    qed
  qed (simp add: crlf_def)
  from this [of "[]"] show ?thesis by (simp add: splitLines_def)
qed

lemma lf_id: "CHR 0x0D \<notin> set s \<Longrightarrow> lf s = s"
  by (induction s rule: lf.induct) auto

lemma splitLines_LF: "splitLines (CHR 0x0A # s) = splitLines s"
  by (simp add: splitLines_def)

lemma splitLines_area:
  assumes "CHR 0x0D \<notin> set s"
  shows "splitLines (area s) = splitLines s"
proof (cases "s \<noteq> [] \<and> hd s = CHR 0x0A")
  case True
  then obtain s' where "s = CHR 0x0A # s'" by (cases s) auto
  with assms show ?thesis by (simp add: area_def lf_id splitLines_crlf splitLines_LF)
next
  case False
  with assms show ?thesis by (auto simp: area_def lf_id splitLines_crlf)
qed

definition tidy_lines :: "string list \<Rightarrow> bool" where
  "tidy_lines us \<longleftrightarrow> list_all (\<lambda>u. tidy u \<and> u \<noteq> '''') us"

lemma splitLines_lines: "tidy_lines us \<Longrightarrow> splitLines (concat (map (\<lambda>u. u @ [CHR 0x0A]) us)) = us"
  by (induction us) (auto simp: tidy_lines_def tidy_def splitLines_def Split_append_sep)

lemma splitLines_join: "tidy_lines us \<Longrightarrow> splitLines (join_with [CHR 0x0A] us) = us"
  by (induction us) (auto simp: tidy_lines_def tidy_def splitLines_def Split_append_sep Split_no_sep)

lemma tidy_lines_no_cr:
  assumes "tidy_lines us"
  shows "CHR 0x0D \<notin> set (concat (map (\<lambda>u. u @ [CHR 0x0A]) us))" "CHR 0x0D \<notin> set (join_with [CHR 0x0A] us)"
  using assms by (induction us) (auto simp: tidy_lines_def tidy_def)

section \<open>The values of the untouched form\<close>

lemma lookup_controls:
  "map_of (text_input n v @ rest) k = (if k = n then Some (one_line v) else map_of rest k)"
  "map_of (text_area n v @ rest) k = (if k = n then Some (area v) else map_of rest k)"
  "map_of (select_one n os v @ rest) k = (if k = n then Some (if v \<in> set os then v else '''') else map_of rest k)"
  "map_of (checkbox n b @ rest) k = (if k = n \<and> b then Some ''on'' else map_of rest k)"
  "map_of (checkbox n b) k = (if k = n \<and> b then Some ''on'' else None)"
  by (auto simp: text_input_def text_area_def select_one_def checkbox_def)

lemma trigger_names:
  "trigger_name 0 what = ''trigger_0_'' @ what" "trigger_name (Suc 0) what = ''trigger_1_'' @ what" "trigger_name 2 what = ''trigger_2_'' @ what"
proof -
  have "Itoa 0 = ''0''" "Itoa 1 = ''1''" "Itoa 2 = ''2''" by code_simp+
  then show "trigger_name 0 what = ''trigger_0_'' @ what" "trigger_name (Suc 0) what = ''trigger_1_'' @ what"
    "trigger_name 2 what = ''trigger_2_'' @ what"
    by (simp_all add: trigger_name_def)
qed

lemma three_rows: "[0..<formTriggerRows] = [0, Suc 0, 2]"
  by (simp add: formTriggerRows_def upt_rec numeral_2_eq_2)

lemmas form_value = FormValue_def untouched_def form_controls_def trigger_row_def three_rows trigger_names lookup_controls
  append_assoc job_or_def

lemma untouched_values:
  fixes c creds j
  defines "v \<equiv> FormValue (untouched c creds j)"
  shows "v ''name'' = one_line (Name j)" "v ''description'' = area (Description j)" "v ''node_label'' = one_line (NodeLabel j)"
    "v ''timeout'' = one_line (Timeout j)" "v ''retries'' = one_line (Itoa (Retries j))"
    "v ''retention_max_builds'' = one_line (of_job (Some j) job_Retention '''' (\<lambda>r. Itoa (MaxBuilds r)))"
    "v ''retention_max_age'' = one_line (of_job (Some j) job_Retention '''' MaxAge)"
    "v ''upstream'' = area (concat (map (\<lambda>u. u @ [CHR 0x0A]) (Upstream j)))"
    "v ''discard_old_builds.strategy'' = ''''" "v ''discard_old_builds.max_builds'' = ''''"
    "v ''discard_old_builds.days_to_keep'' = ''''" "v ''github_project_url'' = ''''"
  by (simp_all add: v_def form_value del: map_of_append)

lemma untouched_triggers:
  fixes c creds j
  defines "v \<equiv> FormValue (untouched c creds j)"
  assumes "i < formTriggerRows"
  shows "v (trigger_name i ''type'') = (if triggerTypeFor (Some j) i \<in> set knownTriggerTypes then triggerTypeFor (Some j) i else '''')"
    "v (trigger_name i ''config'') = one_line (triggerConfigFor (Some j) i)"
proof -
  have i: "i = 0 \<or> i = Suc 0 \<or> i = 2" using assms(2) by (auto simp: formTriggerRows_def)
  show "v (trigger_name i ''type'') = (if triggerTypeFor (Some j) i \<in> set knownTriggerTypes then triggerTypeFor (Some j) i else '''')"
    using i by (elim disjE) (simp_all add: v_def form_value del: map_of_append)
  show "v (trigger_name i ''config'') = one_line (triggerConfigFor (Some j) i)"
    using i by (elim disjE) (simp_all add: v_def form_value del: map_of_append)
qed

lemma untouched_blocks:
  fixes c creds j
  defines "v \<equiv> FormValue (untouched c creds j)"
  shows "v ''steps_yaml'' = area (marshalListFragment (steps_enc c) (Steps j))"
    "v ''parameters_yaml'' = area (marshalListFragment (params_enc c) (Parameters j))"
    "v ''axis_yaml'' = area (marshalListFragment (axis_enc c) (Axis j))"
    "v ''triggers_downstream_yaml'' = area (marshalListFragment (td_enc c) (TriggersDownstream j))"
    "v ''api_credentials_id'' = (let x = of_job (Some j) GitHubPRB '''' APICredentialsID in if x \<in> set creds then x else '''')"
    "v ''gh_project_url'' = one_line (of_job (Some j) GitHubPRB '''' GHProjectURL)"
    "v ''admin_users'' = area (of_job (Some j) GitHubPRB '''' (\<lambda>g. join_with [CHR 0x0A] (AdminUsers g)))"
    "v ''branches_to_build'' = area (of_job (Some j) GitHubPRB '''' (\<lambda>g. join_with [CHR 0x0A] (BranchesToBuild g)))"
    "v ''poll_interval_seconds'' = one_line (Itoa (ghprbPollIntervalFor (Some j)))"
    "v ''repo_url'' = one_line (of_job (Some j) jobSCMOrNil '''' RepoURL)"
    "v ''credentials_id'' = (let x = of_job (Some j) jobSCMOrNil '''' CredentialsID in if x \<in> set creds then x else '''')"
    "v ''branch_specifier'' = one_line (of_job (Some j) jobSCMOrNil '''' BranchSpecifier)"
    "v ''script_path'' = one_line (of_job (Some j) jobSCMOrNil '''' ScriptPath)"
    "v ''lightweight_checkout'' = (if of_job (Some j) jobSCMOrNil False LightweightCheckout then ''on'' else '''')"
    "v ''prepare_environment_for_run'' = (if of_job (Some j) job_BuildEnv False PrepareEnvForRun then ''on'' else '''')"
    "v ''keep_jenkins_environment_variables'' = (if of_job (Some j) job_BuildEnv False KeepJenkinsEnvVars then ''on'' else '''')"
    "v ''keep_jenkins_build_variables'' = (if of_job (Some j) job_BuildEnv False KeepJenkinsBuildVars then ''on'' else '''')"
  by (simp_all add: v_def form_value Let_def del: map_of_append)

section \<open>Round trip and losses\<close>

definition form_trigger :: "Trigger \<Rightarrow> bool" where
  "form_trigger t \<longleftrightarrow> trig_Type t \<in> set knownTriggerTypes \<and>
     (case Config t of [] \<Rightarrow> True
      | [(k, v)] \<Rightarrow> k = (if trig_Type t = ''cron'' then ''schedule'' else ''config'') \<and> tidy v \<and> v \<noteq> ''''
      | _ \<Rightarrow> False)"

definition form_prb :: "string list \<Rightarrow> GitHubPRBTrigger \<Rightarrow> bool" where
  "form_prb creds g \<longleftrightarrow> APICredentialsID g \<in> set creds \<and> TrimSpace (APICredentialsID g) = APICredentialsID g \<and> APICredentialsID g \<noteq> ''''
     \<and> tidy (GHProjectURL g) \<and> tidy_lines (AdminUsers g) \<and> tidy_lines (BranchesToBuild g)
     \<and> PollIntervalSeconds g \<noteq> 0 \<and> PollIntervalSeconds g \<in> {min_int..max_int} \<and> \<not> BuildMergeRef g"

definition form_scm :: "string list \<Rightarrow> PipelineBlock \<Rightarrow> bool" where
  "form_scm creds p \<longleftrightarrow> Definition p = ''from_scm'' \<and> Script p = '''' \<and>
     (case SCM p of None \<Rightarrow> False
      | Some s \<Rightarrow> tidy (RepoURL s) \<and> RepoURL s \<noteq> '''' \<and> CredentialsID s \<in> insert '''' (set creds)
          \<and> TrimSpace (CredentialsID s) = CredentialsID s \<and> tidy (BranchSpecifier s) \<and> tidy (ScriptPath s))"

definition form_list :: "('a list \<Rightarrow> string) \<Rightarrow> (string \<Rightarrow> 'a list option) \<Rightarrow> 'a list \<Rightarrow> bool" where
  "form_list enc dec xs \<longleftrightarrow> xs = [] \<or>
     (let v = TrimSpace (area (marshalListFragment enc xs)) in v \<noteq> '''' \<and> dec v = Some xs)"

text \<open>The jobs the form can express.\<close>

definition representable :: "form_codec \<Rightarrow> string list \<Rightarrow> Job \<Rightarrow> bool" where
  "representable c creds j \<longleftrightarrow>
     tidy (Name j) \<and> Name j \<noteq> '''' \<and> area (Description j) = Description j \<and> tidy (NodeLabel j) \<and> tidy (Timeout j)
     \<and> Retries j \<in> {min_int..max_int} \<and> GitHubProjectURL j = '''' \<and> Env j = []
     \<and> length (Triggers j) \<le> formTriggerRows \<and> list_all form_trigger (Triggers j) \<and> tidy_lines (Upstream j)
     \<and> (case job_Retention j of None \<Rightarrow> True | Some r \<Rightarrow> tidy (MaxAge r) \<and> MaxBuilds r \<in> {min_int..max_int})
     \<and> (case job_BuildEnv j of None \<Rightarrow> True | Some b \<Rightarrow> PrepareEnvForRun b \<or> KeepJenkinsEnvVars b \<or> KeepJenkinsBuildVars b)
     \<and> (case GitHubPRB j of None \<Rightarrow> True | Some g \<Rightarrow> form_prb creds g)
     \<and> (case Pipeline j of None \<Rightarrow> True | Some p \<Rightarrow> form_scm creds p)
     \<and> form_list (steps_enc c) (steps_dec c) (Steps j) \<and> form_list (params_enc c) (params_dec c) (Parameters j)
     \<and> form_list (axis_enc c) (axis_dec c) (Axis j) \<and> form_list (td_enc c) (td_dec c) (TriggersDownstream j)"

lemma atoi_res_Itoa: "n \<in> {min_int..max_int} \<Longrightarrow> atoi_res w (Itoa n) = Inr n"
  by (simp add: atoi_res_def Atoi_Itoa)

lemma area_Nil [simp]: "area '''' = ''''"
  by (simp add: area_def crlf_def)

lemma one_line_Nil [simp]: "one_line '''' = ''''"
  by (simp add: one_line_def)

lemma checked_values [simp]: "isFormChecked ''on''" "\<not> isFormChecked ''''"
  by code_simp+

lemma known_tidy: "t \<in> set knownTriggerTypes \<Longrightarrow> TrimSpace t = t \<and> t \<noteq> ''''"
  by (auto simp: knownTriggerTypes_def TrimSpace_def is_space_def)

lemma form_list_ok:
  assumes "form_list enc dec xs" "FormValue r field = area (marshalListFragment enc xs)"
  shows "form_fragment field dec r = Inr xs"
  using assms by (auto simp: form_list_def form_fragment_def marshalListFragment_def Let_def)

lemma form_triggerE:
  assumes "form_trigger t"
  shows "Config t = [] \<or> (\<exists>v. Config t = [(if trig_Type t = ''cron'' then ''schedule'' else ''config'', v)] \<and> tidy v \<and> v \<noteq> '''')"
proof -
  consider "Config t = []" | k v where "Config t = [(k, v)]" | x y xs where "Config t = x # y # xs"
    by (metis list.exhaust surj_pair)
  then show ?thesis using assms by cases (auto simp: form_trigger_def split: if_splits)
qed

lemma form_triggers_untouched:
  assumes "list_all form_trigger (Triggers j)" "length (Triggers j) \<le> formTriggerRows" "i \<le> formTriggerRows"
  shows "form_triggers (untouched c creds j) [i..<formTriggerRows] = Inr (drop i (Triggers j))"
  using assms(3)
proof (induction rule: inc_induct)
  case (step i)
  have up: "[i..<formTriggerRows] = i # [Suc i..<formTriggerRows]" using step by (simp add: upt_conv_Cons)
  note v = untouched_triggers [OF step(2), of c creds j]
  show ?case
  proof (cases "i < length (Triggers j)")
    case True
    let ?t = "Triggers j ! i"
    have ok: "form_trigger ?t" using assms(1) True by (simp add: list_all_length)
    have ty: "triggerTypeFor (Some j) i = trig_Type ?t" using True by (simp add: triggerTypeFor_def)
    have k: "trig_Type ?t \<in> set knownTriggerTypes" "TrimSpace (trig_Type ?t) = trig_Type ?t" "trig_Type ?t \<noteq> ''''"
      using ok known_tidy by (auto simp: form_trigger_def)
    have cfg: "(let cfg = TrimSpace (one_line (triggerConfigFor (Some j) i)) in
        if cfg = '''' then [] else [(if trig_Type ?t = ''cron'' then ''schedule'' else ''config'', cfg)]) = Config ?t"
      using form_triggerE [OF ok] True by (auto simp: triggerConfigFor_def)
    have "form_triggers (untouched c creds j) [i..<formTriggerRows] = Inr (\<lparr>trig_Type = trig_Type ?t, Config = Config ?t\<rparr> # drop (Suc i) (Triggers j))"
      using step.IH k cfg by (simp add: up v ty Let_def)
    also have "\<lparr>trig_Type = trig_Type ?t, Config = Config ?t\<rparr> = ?t" by simp
    also have "?t # drop (Suc i) (Triggers j) = drop i (Triggers j)" using True by (rule Cons_nth_drop_Suc)
    finally show ?thesis .
  next
    case False
    then have "triggerTypeFor (Some j) i = ''''" by (simp add: triggerTypeFor_def)
    with False step.IH show ?thesis by (simp add: up v)
  qed
qed (use assms(2) in simp)

text \<open>
  C14. The form page round-trips. For every job the form can express, opening its edit page and submitting it with no control
  touched rebuilds exactly that job, whatever credentials the store offers besides the job's own.
\<close>

theorem form_roundtrip:
  assumes "representable c creds j"
  shows "buildJobFromForm c (untouched c creds j) = Inr j"
proof -
  let ?r = "untouched c creds j"
  note u = untouched_values [of c creds j] untouched_blocks [of c creds j]
  note rep = assms [unfolded representable_def]
  have ret: "form_retention ?r = Inr (job_Retention j)"
    using rep by (cases "job_Retention j") (auto simp: form_retention_def u of_job_def Let_def atoi_res_Itoa)
  have trig: "form_triggers ?r [0..<formTriggerRows] = Inr (Triggers j)"
    using form_triggers_untouched [of j 0 c creds] rep by simp
  have env: "form_build_env ?r = job_BuildEnv j"
    using rep by (cases "job_BuildEnv j") (auto simp: form_build_env_def u of_job_def Let_def)
  have prb: "form_ghprb ?r = Inr (GitHubPRB j)"
  proof (cases "GitHubPRB j")
    case None
    then show ?thesis by (simp add: form_ghprb_def u of_job_def Let_def)
  next
    case (Some g)
    then have g: "form_prb creds g" using rep by simp
    then show ?thesis
      using Some by (auto simp: form_ghprb_def u of_job_def Let_def form_prb_def ghprbPollIntervalFor_def atoi_res_Itoa
          splitLines_area splitLines_join tidy_lines_no_cr)
  qed
  have pipe: "form_pipeline ?r = Pipeline j"
  proof (cases "Pipeline j")
    case None
    then show ?thesis by (simp add: form_pipeline_def u of_job_def jobSCMOrNil_def Let_def)
  next
    case (Some p)
    then have p: "form_scm creds p" using rep by simp
    then obtain s where "SCM p = Some s" by (auto simp: form_scm_def split: option.splits)
    with p Some show ?thesis
      by (auto simp: form_pipeline_def u of_job_def jobSCMOrNil_def Let_def form_scm_def)
  qed
  have lists: "form_fragment ''steps_yaml'' (steps_dec c) ?r = Inr (Steps j)"
    "form_fragment ''parameters_yaml'' (params_dec c) ?r = Inr (Parameters j)"
    "form_fragment ''axis_yaml'' (axis_dec c) ?r = Inr (Axis j)"
    "form_fragment ''triggers_downstream_yaml'' (td_dec c) ?r = Inr (TriggersDownstream j)"
    using rep by (auto intro!: form_list_ok simp: u)
  have up: "splitLines (area (concat (map (\<lambda>u. u @ [CHR 0x0A]) (Upstream j)))) = Upstream j"
  proof -
    have cl: "tidy_lines (Upstream j)" using rep by simp
    show ?thesis by (simp add: splitLines_area [OF tidy_lines_no_cr(1) [OF cl]] splitLines_lines [OF cl])
  qed
  have "parse_ok ?r" by (simp add: untouched_def)
  with rep show ?thesis
    by (simp add: buildJobFromForm_def u(1-5,8,12) ret trig env prb pipe lists up Let_def atoi_res_Itoa)
qed

lemma form_triggers_length: "form_triggers r is = Inr ts \<Longrightarrow> length ts \<le> length is"
  by (induction "is" arbitrary: ts) (auto simp: Let_def bind_res_Inr split: if_splits)

text \<open>
  What saving the untouched edit page of any job discards. Whenever it succeeds, the job that is saved has no
  project URL, no environment of its own and no merge-reference builds, whatever the job had; at most three triggers are
  left; a pipeline with an inline script is gone; a pull request trigger whose credential the store does not list is gone;
  and a build environment with all three switches off becomes no build environment.
\<close>

theorem form_losses:
  assumes "buildJobFromForm c (untouched c creds j) = Inr j'"
  shows "GitHubProjectURL j' = '''' \<and> Env j' = [] \<and> length (Triggers j') \<le> 3"
    and "GitHubPRB j' = Some g' \<Longrightarrow> \<not> BuildMergeRef g'"
    and "Pipeline j = Some p \<Longrightarrow> Definition p \<noteq> ''from_scm'' \<Longrightarrow> Pipeline j' = None"
    and "GitHubPRB j = Some g \<Longrightarrow> APICredentialsID g \<notin> set creds \<Longrightarrow> GitHubPRB j' = None"
    and "job_BuildEnv j = Some \<lparr>PrepareEnvForRun = False, KeepJenkinsEnvVars = False, KeepJenkinsBuildVars = False\<rparr> \<Longrightarrow> job_BuildEnv j' = None"
proof -
  let ?r = "untouched c creds j"
  note u = untouched_values [of c creds j] untouched_blocks [of c creds j]
  from assms obtain trigs where j': "form_triggers ?r [0..<formTriggerRows] = Inr trigs" "Triggers j' = trigs"
    "form_ghprb ?r = Inr (GitHubPRB j')" "form_pipeline ?r = Pipeline j'" "form_build_env ?r = job_BuildEnv j'"
    "GitHubProjectURL j' = TrimSpace (FormValue ?r ''github_project_url'')" "Env j' = []"
    by (auto simp: buildJobFromForm_def Let_def bind_res_Inr split: if_splits)
  show "GitHubProjectURL j' = '''' \<and> Env j' = [] \<and> length (Triggers j') \<le> 3"
    using form_triggers_length [OF j'(1)] j' by (simp add: u formTriggerRows_def)
  show "GitHubPRB j' = Some g' \<Longrightarrow> \<not> BuildMergeRef g'"
    using j'(3) by (auto simp: form_ghprb_def Let_def bind_res_Inr split: if_splits)
  show "Pipeline j = Some p \<Longrightarrow> Definition p \<noteq> ''from_scm'' \<Longrightarrow> Pipeline j' = None"
    using j'(4) by (simp add: form_pipeline_def u of_job_def jobSCMOrNil_def Let_def)
  show "GitHubPRB j = Some g \<Longrightarrow> APICredentialsID g \<notin> set creds \<Longrightarrow> GitHubPRB j' = None"
    using j'(3) by (simp add: form_ghprb_def u of_job_def Let_def)
  show "job_BuildEnv j = Some \<lparr>PrepareEnvForRun = False, KeepJenkinsEnvVars = False, KeepJenkinsBuildVars = False\<rparr> \<Longrightarrow> job_BuildEnv j' = None"
    using j'(5) by (simp add: form_build_env_def u of_job_def Let_def)
qed

section \<open>Evaluated instances\<close>

definition demo_form :: form_codec where
  "demo_form = \<lparr>steps_enc = (\<lambda>xs. concat (map Shell xs)), steps_dec = (\<lambda>s. Some [\<lparr>step_Name = ''build'', Shell = s, step_Env = []\<rparr>]),
     params_enc = (\<lambda>xs. ''-''), params_dec = (\<lambda>s. None), axis_enc = (\<lambda>xs. ''-''), axis_dec = (\<lambda>s. None),
     td_enc = (\<lambda>xs. ''-''), td_dec = (\<lambda>s. None)\<rparr>"

definition demo_form_job :: Job where
  "demo_form_job = (empty_job ''nightly'')\<lparr>Retries := 2, Upstream := [''lib'', ''tools''],
     Steps := [\<lparr>step_Name = ''build'', Shell = ''make'', step_Env = []\<rparr>],
     Triggers := [\<lparr>trig_Type = ''cron'', Config = [(''schedule'', ''0 * * * *'')]\<rparr>, \<lparr>trig_Type = ''webhook'', Config = []\<rparr>],
     GitHubPRB := Some \<lparr>APICredentialsID = ''gh.token'', GHProjectURL = ''https://github.com/o/r/'', AdminUsers = [''alice'', ''bob''],
       BranchesToBuild = [''main''], PollIntervalSeconds = 60, BuildMergeRef = False\<rparr>\<rparr>"

theorem form_roundtrip_witness:
  "buildJobFromForm demo_form (untouched demo_form [''gh.token''] demo_form_job) = Inr demo_form_job"
proof (rule form_roundtrip)
  show "representable demo_form [''gh.token''] demo_form_job"
    by (simp add: representable_def demo_form_job_def empty_job_def demo_form_def form_trigger_def form_prb_def tidy_lines_def
        form_list_def tidy_def TrimSpace_def is_space_def knownTriggerTypes_def formTriggerRows_def marshalListFragment_def
        area_def crlf_def min_int_def max_int_def Let_def)
qed

text \<open>A job the page cannot express: an inline pipeline, an environment, a credential the store does not list.\<close>

definition demo_lossy_job :: Job where
  "demo_lossy_job = (empty_job ''pr'')\<lparr>Env := [(''A'', ''1'')], GitHubProjectURL := ''https://github.com/o/r/'',
     Pipeline := Some \<lparr>Definition = ''inline'', Script = ''pipeline {}'', SCM = None\<rparr>,
     job_BuildEnv := Some \<lparr>PrepareEnvForRun = False, KeepJenkinsEnvVars = False, KeepJenkinsBuildVars = False\<rparr>,
     GitHubPRB := Some \<lparr>APICredentialsID = ''gh.token'', GHProjectURL = ''u'', AdminUsers = [], BranchesToBuild = [],
       PollIntervalSeconds = 60, BuildMergeRef = True\<rparr>\<rparr>"

theorem form_losses_witness:
  "\<exists>j'. buildJobFromForm demo_form (untouched demo_form [] demo_lossy_job) = Inr j' \<and> Pipeline j' = None \<and> Env j' = []
     \<and> GitHubPRB j' = None \<and> job_BuildEnv j' = None"
proof -
  have b: "buildJobFromForm demo_form (untouched demo_form [] demo_lossy_job) = Inr (empty_job ''pr'')" by code_simp
  note l = form_losses [OF b]
  have "Pipeline (empty_job ''pr'') = None"
    by (rule l(3) [of "\<lparr>Definition = ''inline'', Script = ''pipeline {}'', SCM = None\<rparr>"]) (simp_all add: demo_lossy_job_def)
  moreover have "GitHubPRB (empty_job ''pr'') = None"
    by (rule l(4)) (simp_all add: demo_lossy_job_def)
  moreover have "job_BuildEnv (empty_job ''pr'') = None"
    by (rule l(5)) (simp_all add: demo_lossy_job_def)
  ultimately show ?thesis using b l(1) by blast
qed

end
