(* ===== verification/WebViews.thy ===== *)
theory WebViews
  imports JobForm Retention Matrix "HOL-Library.Multiset"
begin

text \<open>
  The view models of the job pages in \<^verbatim>\<open>internal/server\<close>: the build history and its permalinks (\<^verbatim>\<open>jobdetail.go\<close>), the paged index
  (\<^verbatim>\<open>buildsindex.go\<close>), and the trigger relations between jobs (\<^verbatim>\<open>triggerlinks.go\<close>). Instants are nanoseconds. The local
  calendar is a parameter: \<open>local_day t\<close> is the day number, counted from 1970-01-01, of the instant \<open>t\<close> on the server's clock.
\<close>

section \<open>Build history (\<^verbatim>\<open>scanAllBuilds\<close>)\<close>

record buildHistoryRow =
  row_Number :: int
  row_Status :: string
  RelativeTime :: string
  When :: int

record rawRow =
  raw_num :: int
  raw_status :: string
  raw_mtime :: int

definition second :: int where "second = 1000000000"

text \<open>\<^verbatim>\<open>now.Sub(t)\<close> saturates; \<^verbatim>\<open>int(d.Hours() / 24)\<close> is computed exactly where the library goes through a float.\<close>

definition time_sub :: "int \<Rightarrow> int \<Rightarrow> int" where
  "time_sub a b = max min_int (min max_int (a - b))"

definition formatRelative :: "int \<Rightarrow> int \<Rightarrow> string" where
  "formatRelative t now =
     (if t = zero_time then ''''
      else let d = time_sub now t in
        if d < 0 then ''''
        else if d < 60 * second then Itoa (d div second) @ ''s ago''
        else if d < 3600 * second then Itoa (d div (60 * second)) @ ''m ago''
        else if d < 24 * 3600 * second then Itoa (d div (3600 * second)) @ ''h ago''
        else Itoa (d div (24 * 3600 * second)) @ ''d ago'')"

definition scan_row :: "res_decoder \<Rightarrow> path \<Rightarrow> string \<Rightarrow> int \<Rightarrow> rawRow io" where
  "scan_row rdec bdir name num =
     (let buildDir = join_path bdir [name]; resultPath = join_path buildDir [''result.json''] in
      bindIO (attempt (os_Stat resultPath)) (\<lambda>r. case r of
        Inr info \<Rightarrow> bindIO (attempt (os_ReadFile resultPath)) (\<lambda>r2.
          let status = (case r2 of Inl _ \<Rightarrow> ''running''
              | Inr dat \<Rightarrow> (case rdec dat of None \<Rightarrow> ''running''
                | Some br \<Rightarrow> if res_Status br \<noteq> '''' then res_Status br else ''running'')) in
          returnIO \<lparr>raw_num = num, raw_status = status, raw_mtime = mtime info\<rparr>)
      | Inl _ \<Rightarrow> bindIO (attempt (os_Stat buildDir)) (\<lambda>r2.
          returnIO \<lparr>raw_num = num, raw_status = ''running'',
            raw_mtime = (case r2 of Inr info \<Rightarrow> mtime info | Inl _ \<Rightarrow> zero_time)\<rparr>)))"

fun scan_entries :: "res_decoder \<Rightarrow> path \<Rightarrow> (string \<times> bool) list \<Rightarrow> rawRow list io" where
  "scan_entries rdec bdir [] = returnIO []"
| "scan_entries rdec bdir ((name, d) # es) =
     (if \<not> d then scan_entries rdec bdir es
      else case Atoi name of
        None \<Rightarrow> scan_entries rdec bdir es
      | Some num \<Rightarrow>
          if num < 1 then scan_entries rdec bdir es
          else bindIO (scan_row rdec bdir name num) (\<lambda>row.
               bindIO (scan_entries rdec bdir es) (\<lambda>rest. returnIO (row # rest))))"

definition newest_first :: "rawRow list \<Rightarrow> rawRow list" where
  "newest_first = sort_key (\<lambda>r. (- raw_mtime r, - raw_num r))"

definition history_row :: "int \<Rightarrow> rawRow \<Rightarrow> buildHistoryRow" where
  "history_row now r = \<lparr>row_Number = raw_num r, row_Status = raw_status r,
     RelativeTime = formatRelative (raw_mtime r) now, When = raw_mtime r\<rparr>"

definition scanAllBuilds :: "res_decoder \<Rightarrow> path \<Rightarrow> string \<Rightarrow> int \<Rightarrow> buildHistoryRow list io" where
  "scanAllBuilds rdec root jobName now =
     (let bdir = join_path root [''builds'', jobName] in
      bindIO (attempt (os_ReadDir bdir)) (\<lambda>r. case r of
        Inl e \<Rightarrow> if errors_Is e ErrNotExist then returnIO [] else raiseIO (Wrap (''read '' @ path_string bdir) e)
      | Inr entries \<Rightarrow> bindIO (scan_entries rdec bdir entries) (\<lambda>raws. returnIO (map (history_row now) (newest_first raws)))))"

section \<open>Permalinks\<close>

record permalinks =
  LastBuild :: "buildHistoryRow option"
  LastStable :: "buildHistoryRow option"
  LastSuccessful :: "buildHistoryRow option"
  LastUnsuccessful :: "buildHistoryRow option"
  LastCompleted :: "buildHistoryRow option"

definition or_row :: "buildHistoryRow option \<Rightarrow> buildHistoryRow \<Rightarrow> buildHistoryRow option" where
  "or_row p r = (case p of None \<Rightarrow> Some r | Some x \<Rightarrow> Some x)"

fun permalink_loop :: "permalinks \<Rightarrow> buildHistoryRow list \<Rightarrow> permalinks" where
  "permalink_loop p [] = p"
| "permalink_loop p (r # rs) =
     (let p = p\<lparr>LastBuild := or_row (LastBuild p) r\<rparr> in
      if row_Status r = ''running'' then permalink_loop p rs
      else let p = p\<lparr>LastCompleted := or_row (LastCompleted p) r\<rparr> in
        if row_Status r = StatusSuccess
        then permalink_loop (p\<lparr>LastSuccessful := or_row (LastSuccessful p) r, LastStable := or_row (LastStable p) r\<rparr>) rs
        else permalink_loop (p\<lparr>LastUnsuccessful := or_row (LastUnsuccessful p) r\<rparr>) rs)"

definition no_links :: permalinks where
  "no_links = \<lparr>LastBuild = None, LastStable = None, LastSuccessful = None, LastUnsuccessful = None, LastCompleted = None\<rparr>"

definition computePermalinks :: "buildHistoryRow list \<Rightarrow> permalinks" where
  "computePermalinks rows = permalink_loop no_links rows"

section \<open>Groups by day\<close>

record buildGroup =
  group_Label :: string
  group_Rows :: "buildHistoryRow list"

text \<open>\<^verbatim>\<open>t.Format("2006-01-02")\<close>, from the day number by the proleptic Gregorian calendar.\<close>

definition civil :: "int \<Rightarrow> int \<times> int \<times> int" where
  "civil day =
     (let z = day + 719468; era = z div 146097; doe = z mod 146097;
          yoe = (doe - doe div 1460 + doe div 36524 - doe div 146096) div 365;
          doy = doe - (365 * yoe + yoe div 4 - yoe div 100);
          mp = (5 * doy + 2) div 153;
          m = (if mp < 10 then mp + 3 else mp - 9)
      in (yoe + era * 400 + (if m \<le> 2 then 1 else 0), m, doy - (153 * mp + 2) div 5 + 1))"

definition pad :: "nat \<Rightarrow> string \<Rightarrow> string" where
  "pad n s = replicate (n - length s) (CHR ''0'') @ s"

definition iso_day :: "int \<Rightarrow> string" where
  "iso_day day = (case civil day of (y, m, d) \<Rightarrow> pad 4 (Itoa y) @ ''-'' @ pad 2 (Itoa m) @ ''-'' @ pad 2 (Itoa d))"

definition dayKey :: "(int \<Rightarrow> int) \<Rightarrow> int \<Rightarrow> string" where
  "dayKey local_day t = iso_day (local_day t)"

definition row_key :: "(int \<Rightarrow> int) \<Rightarrow> buildHistoryRow \<Rightarrow> string" where
  "row_key local_day r = (if When r = zero_time then ''undated'' else dayKey local_day (When r))"

definition row_label :: "(int \<Rightarrow> int) \<Rightarrow> int \<Rightarrow> buildHistoryRow \<Rightarrow> string" where
  "row_label local_day now r =
     (if When r = zero_time then ''Undated''
      else let key = dayKey local_day (When r) in
        if key = dayKey local_day now then ''Today''
        else if key = iso_day (local_day now - 1) then ''Yesterday'' else key)"

fun group_loop :: "(int \<Rightarrow> int) \<Rightarrow> int \<Rightarrow> buildGroup list \<Rightarrow> (string \<Rightarrow> nat option) \<Rightarrow> buildHistoryRow list \<Rightarrow> buildGroup list" where
  "group_loop local_day now groups indexByKey [] = groups"
| "group_loop local_day now groups indexByKey (r # rs) =
     (let key = row_key local_day r in
      case indexByKey key of
        Some idx \<Rightarrow> group_loop local_day now
          (groups[idx := (groups ! idx)\<lparr>group_Rows := group_Rows (groups ! idx) @ [r]\<rparr>]) indexByKey rs
      | None \<Rightarrow> group_loop local_day now (groups @ [\<lparr>group_Label = row_label local_day now r, group_Rows = [r]\<rparr>])
          (indexByKey(key \<mapsto> length groups)) rs)"

definition groupBuildsByDate :: "(int \<Rightarrow> int) \<Rightarrow> buildHistoryRow list \<Rightarrow> int \<Rightarrow> buildGroup list" where
  "groupBuildsByDate local_day rows now = group_loop local_day now [] (\<lambda>_. None) rows"

section \<open>The paged index (\<^verbatim>\<open>handleBuildsIndex\<close>)\<close>

definition buildsIndexPageSize :: int where "buildsIndexPageSize = 25"

text \<open>\<^verbatim>\<open>xs[start:end]\<close>: \<open>None\<close> is the panic on bounds that are negative, reversed or past the end.\<close>

definition go_slice :: "'a list \<Rightarrow> int \<Rightarrow> int \<Rightarrow> 'a list option" where
  "go_slice xs start end' =
     (if start < 0 \<or> end' < start \<or> int (length xs) < end' then None
      else Some (take (nat (end' - start)) (drop (nat start) xs)))"

definition page_param :: "string \<Rightarrow> int" where
  "page_param p = (if p = '''' then 1 else (case Atoi p of Some n \<Rightarrow> if n > 0 then n else 1 | None \<Rightarrow> 1))"

definition since_filter :: "int \<Rightarrow> buildHistoryRow list \<Rightarrow> buildHistoryRow list" where
  "since_filter sinceCutoff all =
     (if sinceCutoff = zero_time then all else filter (\<lambda>row. \<not> When row < sinceCutoff) all)"

definition total_pages :: "'a list \<Rightarrow> int" where
  "total_pages filtered =
     (let n = (int (length filtered) + buildsIndexPageSize - 1) div buildsIndexPageSize in if n < 1 then 1 else n)"

definition page_rows :: "int \<Rightarrow> 'a list \<Rightarrow> 'a list option" where
  "page_rows page filtered =
     (let start = go_int ((page - 1) * buildsIndexPageSize);
          end' = go_int (start + buildsIndexPageSize);
          len = int (length filtered);
          start = (if start > len then len else start);
          end' = (if end' > len then len else end') in
      go_slice filtered start end')"

text \<open>\<^verbatim>\<open>url.Values.Encode\<close> of the keys \<^verbatim>\<open>page\<close> and \<^verbatim>\<open>since\<close>, which it sorts.\<close>

definition upper_hex :: "nat \<Rightarrow> char" where
  "upper_hex d = (if d < 10 then char_of (48 + d) else char_of (55 + d))"

definition query_escape :: "string \<Rightarrow> string" where
  "query_escape s = concat (map (\<lambda>c.
     if is_letter c \<or> is_digit c \<or> c \<in> set [CHR ''-'', CHR ''_'', CHR ''.'', CHR ''~''] then [c]
     else if c = CHR '' '' then ''+''
     else [CHR ''%'', upper_hex (of_char c div 16), upper_hex (of_char c mod 16)]) s)"

definition pageQueryString :: "int \<Rightarrow> string \<Rightarrow> string" where
  "pageQueryString page since =
     ''?page='' @ query_escape (Itoa page) @ (if since \<noteq> '''' then ''&since='' @ query_escape since else '''')"

section \<open>Trigger relations (\<^verbatim>\<open>triggerlinks.go\<close>)\<close>

text \<open>A set of names is a list; \<open>sortedKeys\<close> is the only reader that fixes an order.\<close>

definition sortedKeys :: "string list \<Rightarrow> string list" where
  "sortedKeys ks = sort (remdups ks)"

definition triggering :: "string \<Rightarrow> Job list \<Rightarrow> string list" where
  "triggering jobName all =
     concat (map (\<lambda>j. if Name j = jobName then []
       else concat (map (\<lambda>ts. if ts_Name ts = jobName then [Name j] else []) (TriggersDownstream j))) all)"

definition jobUpstreamSet :: "Job \<Rightarrow> Job list \<Rightarrow> string list" where
  "jobUpstreamSet j all = filter (\<lambda>u. u \<noteq> '''') (Upstream j) @ triggering (Name j) all"

record triggerLinks =
  links_Upstream :: "string list"
  links_Downstream :: "string list"
  links_Siblings :: "string list"

definition computeTriggerLinks :: "string \<Rightarrow> Job list \<Rightarrow> triggerLinks" where
  "computeTriggerLinks jobName all =
     (let onDisk = map Name all;
          thisJob = find (\<lambda>j. Name j = jobName) (rev all);
          upstreamSet = (case thisJob of None \<Rightarrow> [] | Some j \<Rightarrow> filter (\<lambda>u. u \<noteq> '''' \<and> u \<noteq> jobName) (Upstream j))
            @ triggering jobName all;
          downstreamSet = (case thisJob of None \<Rightarrow> []
            | Some j \<Rightarrow> filter (\<lambda>n. n \<noteq> '''' \<and> n \<noteq> jobName \<and> n \<in> set onDisk) (map ts_Name (TriggersDownstream j)));
          siblingSet = map Name (filter (\<lambda>j. Name j \<noteq> jobName \<and> list_ex (\<lambda>u. u \<in> set upstreamSet) (jobUpstreamSet j all)) all)
      in \<lparr>links_Upstream = sortedKeys upstreamSet, links_Downstream = sortedKeys downstreamSet,
          links_Siblings = sortedKeys siblingSet\<rparr>)"

record triggerCounts =
  Inbound :: int
  Outbound :: int

definition count_of :: "(string \<times> triggerCounts) list \<Rightarrow> string \<Rightarrow> triggerCounts" where
  "count_of counts k = (case map_of counts k of None \<Rightarrow> \<lparr>Inbound = 0, Outbound = 0\<rparr> | Some c \<Rightarrow> c)"

definition computeAllTriggerCounts :: "Job list \<Rightarrow> (string \<times> triggerCounts) list" where
  "computeAllTriggerCounts all =
     (let counts = foldl (\<lambda>cs j. AList.update (Name j) ((count_of cs (Name j))\<lparr>Outbound := int (length (TriggersDownstream j))\<rparr>) cs) [] all
      in foldl (\<lambda>cs j. foldl (\<lambda>cs ts.
            if ts_Name ts = '''' \<or> ts_Name ts = Name j then cs
            else let c = count_of cs (ts_Name ts) in AList.update (ts_Name ts) (c\<lparr>Inbound := Inbound c + 1\<rparr>) cs)
          cs (TriggersDownstream j)) counts all)"

section \<open>Permalinks are first occurrences\<close>

lemma permalink_loop_find:
  "permalink_loop p rows = \<lparr>LastBuild = (case LastBuild p of None \<Rightarrow> find (\<lambda>_. True) rows | x \<Rightarrow> x),
     LastStable = (case LastStable p of None \<Rightarrow> find (\<lambda>r. row_Status r = StatusSuccess) rows | x \<Rightarrow> x),
     LastSuccessful = (case LastSuccessful p of None \<Rightarrow> find (\<lambda>r. row_Status r = StatusSuccess) rows | x \<Rightarrow> x),
     LastUnsuccessful = (case LastUnsuccessful p of None \<Rightarrow> find (\<lambda>r. row_Status r \<notin> {''running'', StatusSuccess}) rows | x \<Rightarrow> x),
     LastCompleted = (case LastCompleted p of None \<Rightarrow> find (\<lambda>r. row_Status r \<noteq> ''running'') rows | x \<Rightarrow> x)\<rparr>"
  by (induction p rows rule: permalink_loop.induct)
    (auto simp: Let_def or_row_def StatusSuccess_def split: option.splits)

lemma computePermalinks_find:
  "computePermalinks rows = \<lparr>LastBuild = find (\<lambda>_. True) rows,
     LastStable = find (\<lambda>r. row_Status r = StatusSuccess) rows,
     LastSuccessful = find (\<lambda>r. row_Status r = StatusSuccess) rows,
     LastUnsuccessful = find (\<lambda>r. row_Status r \<notin> {''running'', StatusSuccess}) rows,
     LastCompleted = find (\<lambda>r. row_Status r \<noteq> ''running'') rows\<rparr>"
  by (simp add: computePermalinks_def permalink_loop_find no_links_def)

section \<open>Groups are the days\<close>

definition first_keys :: "(int \<Rightarrow> int) \<Rightarrow> buildHistoryRow list \<Rightarrow> string list" where
  "first_keys local_day rows = rev (remdups (rev (map (row_key local_day) rows)))"

lemma first_keys_snoc:
  "first_keys ld (rows @ [r]) = (if row_key ld r \<in> row_key ld ` set rows then first_keys ld rows else first_keys ld rows @ [row_key ld r])"
  by (simp add: first_keys_def)

lemma first_keys_set: "set (first_keys ld rows) = row_key ld ` set rows" "distinct (first_keys ld rows)"
  by (auto simp: first_keys_def)

text \<open>The invariant of the loop: after \<open>done\<close> the groups are the first keys with their rows, and the index finds each key.\<close>

definition day_group :: "(int \<Rightarrow> int) \<Rightarrow> int \<Rightarrow> buildHistoryRow list \<Rightarrow> string \<Rightarrow> buildGroup" where
  "day_group ld now rows k =
     \<lparr>group_Label = row_label ld now (hd (filter (\<lambda>r. row_key ld r = k) rows)), group_Rows = filter (\<lambda>r. row_key ld r = k) rows\<rparr>"

definition group_inv :: "(int \<Rightarrow> int) \<Rightarrow> int \<Rightarrow> buildHistoryRow list \<Rightarrow> buildGroup list \<Rightarrow> (string \<Rightarrow> nat option) \<Rightarrow> bool" where
  "group_inv ld now seen groups index \<longleftrightarrow>
     groups = map (day_group ld now seen) (first_keys ld seen) \<and>
     (\<forall>k i. index k = Some i \<longleftrightarrow> i < length (first_keys ld seen) \<and> first_keys ld seen ! i = k)"

lemma group_inv_old:
  assumes inv: "group_inv ld now seen groups index" and key: "index (row_key ld r) = Some i"
  shows "group_inv ld now (seen @ [r]) (groups[i := (groups ! i)\<lparr>group_Rows := group_Rows (groups ! i) @ [r]\<rparr>]) index"
proof -
  let ?k = "row_key ld r" and ?ks = "first_keys ld seen"
  have i: "i < length ?ks" "?ks ! i = ?k" using inv key by (auto simp: group_inv_def)
  then have mem: "?k \<in> row_key ld ` set seen" using first_keys_set(1) [of ld seen] by (metis nth_mem)
  then obtain x where x: "x \<in> set seen" "row_key ld x = ?k" by (metis imageE)
  have ks: "first_keys ld (seen @ [r]) = ?ks" using mem by (simp add: first_keys_snoc)
  have ne: "filter (\<lambda>x. row_key ld x = ?k) seen \<noteq> []" using x by (auto simp: filter_empty_conv)
  have "groups[i := (groups ! i)\<lparr>group_Rows := group_Rows (groups ! i) @ [r]\<rparr>] = map (day_group ld now (seen @ [r])) ?ks"
  proof (rule nth_equalityI)
    show "length (groups[i := (groups ! i)\<lparr>group_Rows := group_Rows (groups ! i) @ [r]\<rparr>]) = length (map (day_group ld now (seen @ [r])) ?ks)"
      using inv by (simp add: group_inv_def)
    fix n assume "n < length (groups[i := (groups ! i)\<lparr>group_Rows := group_Rows (groups ! i) @ [r]\<rparr>])"
    then have n: "n < length ?ks" using inv by (simp add: group_inv_def)
    show "groups[i := (groups ! i)\<lparr>group_Rows := group_Rows (groups ! i) @ [r]\<rparr>] ! n = map (day_group ld now (seen @ [r])) ?ks ! n"
    proof (cases "n = i")
      case True
      with n i inv ne show ?thesis by (simp add: group_inv_def day_group_def)
    next
      case False
      then have "?ks ! n \<noteq> ?k" using nth_eq_iff_index_eq [OF first_keys_set(2) n i(1)] i(2) by simp
      with False n i inv show ?thesis by (auto simp: group_inv_def day_group_def)
    qed
  qed
  with inv show ?thesis by (simp add: group_inv_def ks)
qed

lemma group_inv_new:
  assumes inv: "group_inv ld now seen groups index" and key: "index (row_key ld r) = None"
  shows "group_inv ld now (seen @ [r]) (groups @ [\<lparr>group_Label = row_label ld now r, group_Rows = [r]\<rparr>])
    (index(row_key ld r \<mapsto> length groups))"
proof -
  let ?k = "row_key ld r" and ?ks = "first_keys ld seen"
  have out: "?k \<notin> set ?ks" using inv key unfolding group_inv_def in_set_conv_nth by (metis option.distinct(1))
  then have fresh: "\<And>x. x \<in> set seen \<Longrightarrow> row_key ld x \<noteq> ?k" using first_keys_set(1) [of ld seen] by (metis imageI)
  then have none: "filter (\<lambda>x. row_key ld x = ?k) seen = []" by (auto simp: filter_empty_conv)
  have ks: "first_keys ld (seen @ [r]) = ?ks @ [?k]" using out by (simp add: first_keys_snoc first_keys_set(1) [symmetric])
  have apart: "\<And>i. i < length ?ks \<Longrightarrow> ?ks ! i \<noteq> ?k" using out nth_mem by metis
  have "day_group ld now (seen @ [r]) k = day_group ld now seen k" if "k \<in> set ?ks" for k
    using that out by (auto simp: day_group_def)
  moreover have "day_group ld now (seen @ [r]) ?k = \<lparr>group_Label = row_label ld now r, group_Rows = [r]\<rparr>"
    by (simp add: day_group_def none)
  ultimately show ?thesis
    using inv out by (auto simp: group_inv_def ks nth_append less_Suc_eq dest: apart)
qed

lemma group_loop_inv:
  "group_inv ld now seen groups index \<Longrightarrow>
     group_loop ld now groups index rows = map (day_group ld now (seen @ rows)) (first_keys ld (seen @ rows))"
proof (induction rows arbitrary: seen groups index)
  case Nil
  then show ?case by (simp add: group_inv_def)
next
  case (Cons r rows)
  show ?case
  proof (cases "index (row_key ld r)")
    case None
    from Cons.IH [OF group_inv_new [OF Cons.prems None]] None show ?thesis by (simp add: fun_upd_def)
  next
    case (Some i)
    from Cons.IH [OF group_inv_old [OF Cons.prems Some]] Some show ?thesis by simp
  qed
qed

lemma groupBuildsByDate_days:
  "groupBuildsByDate ld rows now = map (day_group ld now rows) (first_keys ld rows)"
  using group_loop_inv [of ld now "[]" "[]" "\<lambda>_. None" rows]
  by (simp add: groupBuildsByDate_def group_inv_def first_keys_def)

lemma groups_rows:
  "mset (concat (map group_Rows (groupBuildsByDate ld rows now))) = mset rows"
  "map group_Rows (groupBuildsByDate ld rows now) = map (\<lambda>k. filter (\<lambda>r. row_key ld r = k) rows) (first_keys ld rows)"
proof -
  show rows: "map group_Rows (groupBuildsByDate ld rows now) = map (\<lambda>k. filter (\<lambda>r. row_key ld r = k) rows) (first_keys ld rows)"
    by (simp add: groupBuildsByDate_days day_group_def)
  have part: "mset (concat (map (\<lambda>k. filter (\<lambda>r. row_key ld r = k) xs) ks)) = mset xs"
    if "distinct ks" "row_key ld ` set xs \<subseteq> set ks" for xs ks
    using that
  proof (induction ks arbitrary: xs)
    case (Cons k ks)
    let ?rest = "filter (\<lambda>r. row_key ld r \<noteq> k) xs"
    have same: "filter (\<lambda>r. row_key ld r = k') ?rest = filter (\<lambda>r. row_key ld r = k') xs" if "k' \<in> set ks" for k'
      using Cons.prems(1) that by (auto simp: conj_commute intro: filter_cong)
    have "mset (concat (map (\<lambda>k. filter (\<lambda>r. row_key ld r = k) ?rest) ks)) = mset ?rest"
      using Cons.prems by (intro Cons.IH) auto
    then show ?case using same by (simp cong: map_cong)
  qed simp
  show "mset (concat (map group_Rows (groupBuildsByDate ld rows now))) = mset rows"
    unfolding rows by (rule part) (simp_all add: first_keys_set)
qed

text \<open>
  The history panel shows every build once. The groups are the days of the history in the order in which they first
  occur, each under one label and with exactly the rows of that day, in their order; so no row is lost, repeated or
  shown under another day.
\<close>

theorem groups_partition:
  "mset (concat (map group_Rows (groupBuildsByDate ld rows now))) = mset rows \<and>
   map group_Rows (groupBuildsByDate ld rows now) = map (\<lambda>k. filter (\<lambda>r. row_key ld r = k) rows) (first_keys ld rows)"
  using groups_rows by blast

section \<open>Pages\<close>

text \<open>The rows page \<open>p\<close> should show.\<close>

definition page_spec :: "nat \<Rightarrow> 'a list \<Rightarrow> 'a list" where
  "page_spec p xs = take 25 (drop (25 * (p - 1)) xs)"

lemma page_rows_spec:
  assumes "0 < p" "int p < 2 ^ 58" "int (length xs) < 2 ^ 62"
  shows "page_rows (int p) xs = Some (page_spec p xs)"
proof -
  define s where "s = 25 * (p - 1)"
  have eq: "(int p - 1) * 25 = int s" using assms(1) by (simp add: s_def of_nat_diff)
  have "int s + 25 \<le> 2 ^ 63 - 1" using assms(1,2) unfolding eq [symmetric] by simp
  then have g: "go_int (int s) = int s" "go_int (int s + 25) = int s + 25"
    by (auto intro!: go_int_id simp: min_int_def max_int_def)
  have "page_rows (int p) xs = go_slice xs (if int s > int (length xs) then int (length xs) else int s)
      (if int s + 25 > int (length xs) then int (length xs) else int s + 25)"
    unfolding page_rows_def buildsIndexPageSize_def eq Let_def g ..
  also have "\<dots> = Some (take 25 (drop s xs))"
  proof -
    have "nat (int s + 25) = s + 25" by simp
    then show ?thesis by (auto simp: go_slice_def nat_diff_distrib)
  qed
  finally show ?thesis by (simp add: page_spec_def s_def)
qed

lemma concat_pages: "length xs \<le> 25 * n \<Longrightarrow> concat (map (\<lambda>p. page_spec p xs) [1..<Suc n]) = xs"
proof (induction n arbitrary: xs)
  case (Suc n)
  have up: "[1..<Suc (Suc n)] = 1 # map Suc [1..<Suc n]" by (simp add: upt_conv_Cons map_Suc_upt del: upt_Suc)
  have shift: "page_spec (Suc p) xs = page_spec p (drop 25 xs)" if "0 < p" for p
    using that by (cases p) (simp_all add: page_spec_def add.commute)
  have "map (\<lambda>p. page_spec (Suc p) xs) [1..<Suc n] = map (\<lambda>p. page_spec p (drop 25 xs)) [1..<Suc n]"
    by (rule map_cong) (auto simp: shift)
  moreover have "concat (map (\<lambda>p. page_spec p (drop 25 xs)) [1..<Suc n]) = drop 25 xs"
    using Suc.prems by (intro Suc.IH) simp
  ultimately have "concat (map (\<lambda>p. page_spec p xs) [1..<Suc (Suc n)]) = page_spec 1 xs @ drop 25 xs"
    by (simp only: up list.map concat.simps map_map comp_def)
  then show ?case by (simp add: page_spec_def)
qed simp

text \<open>
  C37. The pages of the index are a partition of the history. Every page from the first to the last is answered with at most
  twenty-five rows, and the pages in order are the filtered history, nothing lost or shown twice.
\<close>

theorem pages_partition:
  assumes "int (length xs) < 2 ^ 58"
  shows "(\<forall>p \<in> {1..nat (total_pages xs)}. page_rows (int p) xs = Some (page_spec p xs) \<and> length (page_spec p xs) \<le> 25)
    \<and> concat (map (\<lambda>p. page_spec p xs) [1..<Suc (nat (total_pages xs))]) = xs"
proof -
  have t: "total_pages xs = (if length xs = 0 then 1 else (int (length xs) + 24) div 25)"
  proof (cases xs)
    case (Cons x ys)
    then have "1 \<le> (int (length xs) + 24) div 25" by simp
    then show ?thesis using Cons by (simp add: total_pages_def buildsIndexPageSize_def Let_def add.commute)
  qed (simp add: total_pages_def buildsIndexPageSize_def)
  then have le: "total_pages xs \<le> int (length xs) + 1" and cover: "int (length xs) \<le> 25 * total_pages xs" and pos: "0 < total_pages xs"
    by (cases xs; simp; linarith)+
  have "\<forall>p \<in> {1..nat (total_pages xs)}. page_rows (int p) xs = Some (page_spec p xs) \<and> length (page_spec p xs) \<le> 25"
  proof
    fix p assume "p \<in> {1..nat (total_pages xs)}"
    then have "0 < p" "int p \<le> total_pages xs" by auto
    moreover from this le assms have "int p < 2 ^ 58 + 1" by linarith
    moreover have "int p \<noteq> 2 ^ 58" using \<open>int p \<le> total_pages xs\<close> t assms by (auto split: if_splits)
    ultimately have "0 < p" "int p < 2 ^ 58" by auto
    then show "page_rows (int p) xs = Some (page_spec p xs) \<and> length (page_spec p xs) \<le> 25"
      using page_rows_spec [of p xs] assms by (simp add: page_spec_def)
  qed
  moreover have "concat (map (\<lambda>p. page_spec p xs) [1..<Suc (nat (total_pages xs))]) = xs"
    using cover pos by (intro concat_pages) linarith
  ultimately show ?thesis by blast
qed

text \<open>
  A page number whose offset leaves the 64-bit range is not clamped: the product wraps to a negative start and the slice
  panics, whatever the history.
\<close>

lemma huge_page_panics:
  assumes "int (length xs) < 2 ^ 62"
  shows "page_param ''368934881474191034'' = 368934881474191034 \<and> page_rows 368934881474191034 xs = None"
proof -
  have "Atoi ''368934881474191034'' = Some 368934881474191034"
    by (simp add: Atoi_def digits_nat_def is_digit_def less_eq_char_def digit_val_def max_int_def min_int_def)
  moreover have "go_int ((368934881474191034 - 1) * 25) < 0" by (simp add: go_int_def)
  ultimately show ?thesis
    by (auto simp: page_param_def page_rows_def buildsIndexPageSize_def go_slice_def Let_def)
qed

section \<open>The history and the sweeper\<close>

text \<open>
  The page and the retention sweeper read the same directory by the same rules. \<open>stored_status\<close> is the status that the \<^verbatim>\<open>result.json\<close> of the
  directory called \<open>name\<close> holds, empty without a result that decodes; \<open>same_build rdec d w r e\<close>: the row \<open>r\<close> of the page and the entry \<open>e\<close> of the
  sweeper come from one such directory.
\<close>

definition stored_status :: "res_decoder \<Rightarrow> path \<Rightarrow> world \<Rightarrow> string \<Rightarrow> string" where
  "stored_status rdec d w name =
     (case Option.bind (file_at w (join_path (join_path d [name]) [''result.json''])) rdec of None \<Rightarrow> '''' | Some br \<Rightarrow> res_Status br)"

definition same_build :: "res_decoder \<Rightarrow> path \<Rightarrow> world \<Rightarrow> int \<times> string \<times> int \<Rightarrow> buildEntry \<Rightarrow> bool" where
  "same_build rdec d w r e \<longleftrightarrow> (case r of (n, st, t) \<Rightarrow> n = be_num e \<and> t = be_mtime e \<and>
     (\<exists>name. Atoi name = Some n \<and> (completed e \<longleftrightarrow> stored_status rdec d w name \<noteq> '''') \<and>
        st = (if completed e then stored_status rdec d w name else ''running'')))"

definition raw_build :: "rawRow \<Rightarrow> int \<times> string \<times> int" where
  "raw_build r = (raw_num r, raw_status r, raw_mtime r)"

lemma ReadFile_at:
  assumes "no_faults w"
  shows "(case fst (os_ReadFile q w) of Inl _ \<Rightarrow> None | Inr b \<Rightarrow> Some b) = file_at w q"
  using assms
  by (auto simp: os_ReadFile_def os_Open_def f_ReadAll_def io_defs file_at_def no_faults_def split: option.splits node.splits sum.splits)

lemma Stat_at: "no_faults w \<Longrightarrow> os_Stat q w = (Inl e, w') \<Longrightarrow> file_at w q = None"
  by (auto simp: os_Stat_def file_at_def no_faults_def split: option.splits node.splits if_splits)

lemma scan_row_entry:
  assumes "no_faults w" "Atoi name = Some num" "scan_row rdec p name num w = (Inr r, w')"
  shows "\<exists>e. build_entry rdec p name num w = (Inr e, w) \<and> w' = w \<and> same_build rdec p w (raw_build r) e"
proof -
  let ?b = "join_path p [name]" and ?q = "join_path (join_path p [name]) [''result.json'']"
  obtain s1 where s1: "os_Stat ?q w = (s1, w)" using Stat_world by (metis surj_pair)
  obtain s2 where s2: "os_Stat ?b w = (s2, w)" using Stat_world by (metis surj_pair)
  obtain f where f: "os_ReadFile ?q w = (f, w)" using ReadFile_world by (metis surj_pair)
  have st: "stored_status rdec p w name = (case f of Inl _ \<Rightarrow> '''' | Inr b \<Rightarrow> (case rdec b of None \<Rightarrow> '''' | Some br \<Rightarrow> res_Status br))"
    using ReadFile_at [OF assms(1), of ?q, symmetric] by (cases f) (simp_all add: f stored_status_def split: option.split)
  have none: "stored_status rdec p w name = ''''" if "isl s1"
  proof -
    from that obtain e where "s1 = Inl e" by (cases s1) auto
    with Stat_at [OF assms(1)] s1 have "file_at w ?q = None" by blast
    then show ?thesis by (simp add: stored_status_def)
  qed
  show ?thesis
    using assms(2,3) s1 s2 f st none
    by (cases s1; cases s2; cases f)
      (auto simp: scan_row_def build_entry_def validResult_def Let_def io_defs same_build_def raw_build_def split: option.splits if_splits)
qed

lemma scan_entries_list:
  assumes "no_faults w" "scan_entries rdec p es w = (Inr rs, w')"
  shows "\<exists>bs. list_entries rdec p es w = (Inr bs, w) \<and> w' = w \<and> list_all2 (same_build rdec p w) (map raw_build rs) bs"
  using assms(2)
proof (induction es arbitrary: rs w')
  case Nil
  then show ?case by (simp add: returnIO_def)
next
  case (Cons e es)
  obtain name d where e: "e = (name, d)" by (cases e)
  show ?case
  proof (cases "d \<and> (\<exists>n. Atoi name = Some n \<and> \<not> n < 1)")
    case True
    then obtain n where n: "Atoi name = Some n" "\<not> n < 1" "d" by blast
    from Cons.prems n obtain r w1 rs' where r: "scan_row rdec p name n w = (Inr r, w1)" "scan_entries rdec p es w1 = (Inr rs', w')" "rs = r # rs'"
      by (auto simp: e io_simps)
    from scan_row_entry [OF assms(1) n(1) r(1)] obtain b where b: "build_entry rdec p name n w = (Inr b, w)" "w1 = w"
      "same_build rdec p w (raw_build r) b" by blast
    from Cons.IH r(2) b(2) obtain bs where "list_entries rdec p es w = (Inr bs, w)" "w' = w"
      "list_all2 (same_build rdec p w) (map raw_build rs') bs" by blast
    with n b r(3) show ?thesis by (auto simp: e bindIO_def returnIO_def)
  next
    case False
    then have skip: "scan_entries rdec p (e # es) = scan_entries rdec p es" "list_entries rdec p (e # es) = list_entries rdec p es"
      by (auto simp: e split: option.splits)
    show ?thesis using Cons.IH Cons.prems unfolding skip by blast
  qed
qed

text \<open>
  C18. The build history page agrees with the retention sweeper. Both read \<^verbatim>\<open>builds/<job>\<close>; on a disk without faults, whenever the page
  lists it the sweeper lists the same builds with the same times, row by entry, and a row shows the status of the directory's
  \<^verbatim>\<open>result.json\<close> exactly when the sweeper takes the build for completed, and \<^verbatim>\<open>running\<close> when it does not. So a build the sweeper takes for
  completed is shown as running only if its own \<^verbatim>\<open>result.json\<close> says so. The agreement is on what the two read: which
  directory a deletion hits when names such as \<^verbatim>\<open>007\<close> and \<^verbatim>\<open>7\<close> stand for one number is the matter of \<open>padded_name_sweeps_running_build\<close>.
\<close>

theorem history_matches_sweeper:
  assumes "scanAllBuilds rdec root job now w = (Inr rows, w')" and "is_dir w (join_path root [''builds'', job])" "no_faults w"
  defines "d \<equiv> join_path root [''builds'', job]"
  shows "w' = w \<and> (\<exists>es rs. listBuilds rdec d w = (Inr es, w) \<and> mset rs = mset (map (\<lambda>r. (row_Number r, row_Status r, When r)) rows) \<and>
    list_all2 (same_build rdec d w) rs es)"
proof -
  obtain l where l: "os_ReadDir d w = (l, w)" using handle_noop(6) by (metis surj_pair)
  have "\<exists>ns. l = Inr ns"
    using l assms(2,3) by (auto simp: d_def os_ReadDir_def no_faults_def is_dir_def split: if_splits option.splits)
  then obtain ns where ns: "os_ReadDir d w = (Inr ns, w)" using l by blast
  with assms(1) obtain raws where raws: "scan_entries rdec d ns w = (Inr raws, w')" "rows = map (history_row now) (newest_first raws)"
    by (auto simp: d_def scanAllBuilds_def Let_def bindIO_def attempt_def returnIO_def split: sum.splits prod.splits)
  from scan_entries_list [OF assms(3) raws(1)] obtain es where es: "list_entries rdec d ns w = (Inr es, w)" "w' = w"
    "list_all2 (same_build rdec d w) (map raw_build raws) es" by blast
  have "map (\<lambda>r. (row_Number r, row_Status r, When r)) rows = map raw_build (newest_first raws)"
    by (simp add: raws(2) history_row_def raw_build_def)
  then have "mset (map raw_build raws) = mset (map (\<lambda>r. (row_Number r, row_Status r, When r)) rows)" by (simp add: newest_first_def)
  then show ?thesis using es ns by (intro conjI exI [of _ es] exI [of _ "map raw_build raws"]) (simp_all add: listBuilds_def bindIO_def del: mset_map)
qed

section \<open>Trigger relations\<close>

lemma set_sortedKeys: "set (sortedKeys ks) = set ks" "sorted (sortedKeys ks)" "distinct (sortedKeys ks)"
  by (simp_all add: sortedKeys_def)

lemma set_triggering: "set (triggering n all) = {Name j |j. j \<in> set all \<and> Name j \<noteq> n \<and> n \<in> ts_Name ` set (TriggersDownstream j)}"
  by (auto simp: triggering_def split: if_splits)

lemma this_job:
  assumes "distinct (map Name all)" "j \<in> set all"
  shows "find (\<lambda>i. Name i = Name j) (rev all) = Some j"
proof (cases "find (\<lambda>i. Name i = Name j) (rev all)")
  case None
  then show ?thesis using assms(2) by (auto simp: find_None_iff)
next
  case (Some i)
  then have "i \<in> set (rev all)" "Name i = Name j" unfolding find_Some_iff by (metis nth_mem)+
  with Some assms show ?thesis by (metis distinct_map inj_onD set_rev)
qed

lemma links_of:
  assumes "distinct (map Name all)" "j \<in> set all"
  shows "set (links_Upstream (computeTriggerLinks (Name j) all)) =
      {u \<in> set (Upstream j). u \<noteq> '''' \<and> u \<noteq> Name j} \<union> set (triggering (Name j) all)"
    and "set (links_Downstream (computeTriggerLinks (Name j) all)) =
      {Name i |i. i \<in> set all \<and> Name i \<noteq> '''' \<and> Name i \<noteq> Name j \<and> Name i \<in> ts_Name ` set (TriggersDownstream j)}"
  by (force simp: computeTriggerLinks_def Let_def set_sortedKeys this_job [OF assms])+

text \<open>
  The sidebar tells both jobs of a trigger. For jobs with distinct names, every list is sorted and free of repetitions and of
  the job itself; the job's page lists under Downstream exactly the other jobs on disk that its triggers name; and a job
  lists another under Downstream only if that job's page lists it under Upstream.
\<close>

theorem trigger_links_dual:
  assumes "distinct (map Name all)" "a \<in> set all"
  shows "set (links_Downstream (computeTriggerLinks (Name a) all)) =
      {Name b |b. b \<in> set all \<and> Name b \<noteq> '''' \<and> b \<noteq> a \<and> Name b \<in> ts_Name ` set (TriggersDownstream a)}"
    and "b \<in> set all \<Longrightarrow> Name b \<in> set (links_Downstream (computeTriggerLinks (Name a) all)) \<Longrightarrow>
      Name a \<in> set (links_Upstream (computeTriggerLinks (Name b) all))"
    and "Name a \<notin> set (links_Upstream (computeTriggerLinks (Name a) all)) \<union> set (links_Downstream (computeTriggerLinks (Name a) all))
      \<union> set (links_Siblings (computeTriggerLinks (Name a) all))"
    and "sorted (links_Upstream (computeTriggerLinks n all)) \<and> distinct (links_Upstream (computeTriggerLinks n all)) \<and>
      sorted (links_Downstream (computeTriggerLinks n all)) \<and> distinct (links_Downstream (computeTriggerLinks n all)) \<and>
      sorted (links_Siblings (computeTriggerLinks n all)) \<and> distinct (links_Siblings (computeTriggerLinks n all))"
proof -
  have uniq: "i = j" if "i \<in> set all" "j \<in> set all" "Name i = Name j" for i j
    using assms(1) that by (metis distinct_map inj_onD)
  show "set (links_Downstream (computeTriggerLinks (Name a) all)) =
      {Name b |b. b \<in> set all \<and> Name b \<noteq> '''' \<and> b \<noteq> a \<and> Name b \<in> ts_Name ` set (TriggersDownstream a)}"
    unfolding links_of(2) [OF assms] using uniq assms(2) by blast
  show "Name a \<in> set (links_Upstream (computeTriggerLinks (Name b) all))"
    if b: "b \<in> set all" "Name b \<in> set (links_Downstream (computeTriggerLinks (Name a) all))"
  proof -
    have "Name b \<in> ts_Name ` set (TriggersDownstream a)" "Name b \<noteq> Name a" using b(2) by (auto simp: links_of(2) [OF assms])
    then have "Name a \<in> set (triggering (Name b) all)" using assms(2) unfolding set_triggering by force
    then show ?thesis by (simp add: links_of(1) [OF assms(1) b(1)])
  qed
  show "Name a \<notin> set (links_Upstream (computeTriggerLinks (Name a) all)) \<union> set (links_Downstream (computeTriggerLinks (Name a) all))
      \<union> set (links_Siblings (computeTriggerLinks (Name a) all))"
    by (auto simp: links_of [OF assms] set_triggering computeTriggerLinks_def Let_def set_sortedKeys)
  show "sorted (links_Upstream (computeTriggerLinks n all)) \<and> distinct (links_Upstream (computeTriggerLinks n all)) \<and>
      sorted (links_Downstream (computeTriggerLinks n all)) \<and> distinct (links_Downstream (computeTriggerLinks n all)) \<and>
      sorted (links_Siblings (computeTriggerLinks n all)) \<and> distinct (links_Siblings (computeTriggerLinks n all))"
    by (simp add: computeTriggerLinks_def Let_def set_sortedKeys)
qed

text \<open>
  The two upstream computations differ on a job that names itself: the main pass drops the name, \<^verbatim>\<open>jobUpstreamSet\<close> keeps it.
  Such a job becomes a sibling of every job that lists it as upstream.
\<close>

lemma self_upstream_makes_sibling:
  assumes "distinct (map Name all)" "j \<in> set all" "k \<in> set all" "Name j \<noteq> Name k" "Name k \<noteq> ''''"
    and "Name k \<in> set (Upstream k)" "Name k \<in> set (Upstream j)"
  shows "Name k \<in> set (links_Siblings (computeTriggerLinks (Name j) all)) \<and> Name k \<notin> set (links_Upstream (computeTriggerLinks (Name k) all))"
proof -
  have "Name k \<in> set (jobUpstreamSet k all)" using assms by (simp add: jobUpstreamSet_def)
  then have "Name k \<in> set (links_Siblings (computeTriggerLinks (Name j) all))"
    using assms(2-7) unfolding computeTriggerLinks_def Let_def this_job [OF assms(1,2)]
    by (force simp: set_sortedKeys list_ex_iff)
  then show ?thesis by (simp add: links_of(1) [OF assms(1,3)] set_triggering)
qed

section \<open>Evaluated instances\<close>

theorem pages_partition_witness:
  "concat (map (\<lambda>p. page_spec p (replicate 60 (CHR ''b''))) [1..<Suc (nat (total_pages (replicate 60 (CHR ''b''))))]) = replicate 60 (CHR ''b'')"
  using pages_partition [of "replicate 60 (CHR ''b'')"] by simp

theorem history_matches_sweeper_witness:
  "\<exists>rows es rs. scanAllBuilds demo_rdec demo_root ''deploy'' 10 demo_history = (Inr rows, demo_history) \<and>
     listBuilds demo_rdec (join_path demo_root [''builds'', ''deploy'']) demo_history = (Inr es, demo_history) \<and>
     mset rs = mset (map (\<lambda>r. (row_Number r, row_Status r, When r)) rows) \<and>
     list_all2 (same_build demo_rdec (join_path demo_root [''builds'', ''deploy'']) demo_history) rs es"
proof -
  obtain rows w' where s: "scanAllBuilds demo_rdec demo_root ''deploy'' 10 demo_history = (Inr rows, w')"
  proof -
    have "(case scanAllBuilds demo_rdec demo_root ''deploy'' 10 demo_history of (Inl e, _) \<Rightarrow> False | _ \<Rightarrow> True)" by code_simp
    then show ?thesis using that by (auto split: prod.splits sum.splits)
  qed
  have d: "is_dir demo_history (join_path demo_root [''builds'', ''deploy''])" by code_simp
  have nf: "no_faults demo_history" by (simp add: no_faults_def demo_history_def demo_builds_def)
  from history_matches_sweeper [OF s d nf] s show ?thesis by blast
qed

theorem trigger_links_dual_witness:
  "Name demo_hello \<in> set (links_Upstream (computeTriggerLinks (Name demo_deploy) [demo_deploy, demo_hello]))"
proof (rule trigger_links_dual(2))
  show "distinct (map Name [demo_deploy, demo_hello])" by code_simp
  show "Name demo_deploy \<in> set (links_Downstream (computeTriggerLinks (Name demo_hello) [demo_deploy, demo_hello]))" by code_simp
qed simp_all

end
