(* ===== verification/Session.thy ===== *)
theory Session
  imports Auth
begin

text \<open>
  The web sessions, \<^verbatim>\<open>internal/server/session.go\<close>: one YAML file per session, named after a random token. The two YAML
  functions are the record \<open>sess_codec\<close>; \<^verbatim>\<open>time.Now\<close> is the clock of the world, in nanoseconds.
\<close>

section \<open>The store\<close>

record Session =
  sess_Token :: string
  Username :: string
  sess_CreatedAt :: int
  sess_ExpiresAt :: int

record sess_codec =
  sess_enc :: "Session \<Rightarrow> string"
  sess_dec :: "string \<Rightarrow> Session option"

record SessionStore =
  ss_root :: path
  ss_ttl :: int

definition NewSessionStore :: "path \<Rightarrow> int \<Rightarrow> SessionStore" where
  "NewSessionStore r ttl = \<lparr>ss_root = r, ss_ttl = (if ttl \<le> 0 then 24 * 3600 * 1000000000 else ttl)\<rparr>"

definition token_char :: "char \<Rightarrow> bool" where
  "token_char c \<longleftrightarrow> char_between CHR ''0'' CHR ''9'' c \<or> char_between CHR ''a'' CHR ''f'' c \<or> char_between CHR ''A'' CHR ''F'' c"

definition validToken :: "string \<Rightarrow> bool" where
  "validToken tok \<longleftrightarrow>
     length tok = 64 \<and> list_all token_char tok \<and> \<not> ContainsAny tok [CHR ''/'', CHR 0x5C, CHR ''.'', CHR 0x00]"

definition session_path :: "SessionStore \<Rightarrow> string \<Rightarrow> path" where
  "session_path s tok = join_path (ss_root s) [tok @ ''.yaml'']"

definition randomToken :: "gowolf \<Rightarrow> string res" where
  "randomToken g = (case RandBytes g 32 of Inl e \<Rightarrow> Inl e | Inr buf \<Rightarrow> Inr (hex_EncodeToString buf))"

definition write_session :: "sess_codec \<Rightarrow> SessionStore \<Rightarrow> Session \<Rightarrow> unit io" where
  "write_session c s sess =
     seqIO (wrapIO ''server.SessionStore.write: mkdir'' (os_MkdirAll (ss_root s)))
       (wrapIO ''server.SessionStore.write: write'' (os_WriteFile (session_path s (sess_Token sess)) (sess_enc c sess)))"

definition Create :: "gowolf \<Rightarrow> sess_codec \<Rightarrow> SessionStore \<Rightarrow> string \<Rightarrow> Session io" where
  "Create g c s username =
     (if username = '''' then raiseIO (Msg ''server.SessionStore.Create: empty username'')
      else (case randomToken g of Inl e \<Rightarrow> raiseIO (Wrap ''server.SessionStore.Create: randomToken'' e)
        | Inr tok \<Rightarrow> (\<lambda>w.
            let sess = \<lparr>sess_Token = tok, Username = username, sess_CreatedAt = clock w, sess_ExpiresAt = clock w + ss_ttl s\<rparr> in
            seqIO (write_session c s sess) (returnIO sess) w)))"

definition Lookup :: "sess_codec \<Rightarrow> SessionStore \<Rightarrow> string \<Rightarrow> Session io" where
  "Lookup c s tok =
     (if \<not> validToken tok then raiseIO (Msg ''server.SessionStore.Lookup: invalid token'')
      else bindIO (attempt (os_ReadFile (session_path s tok))) (\<lambda>r. case r of
          Inl e \<Rightarrow> if errors_Is e ErrNotExist then raiseIO (Msg ''server.SessionStore.Lookup: unknown token'')
                   else raiseIO (Wrap ''server.SessionStore.Lookup: read'' e)
        | Inr dat \<Rightarrow> (case sess_dec c dat of
            None \<Rightarrow> raiseIO (Wrap ''server.SessionStore.Lookup: parse'' (Msg ''yaml''))
          | Some sess \<Rightarrow> (\<lambda>w.
              if clock w > sess_ExpiresAt sess
              then bindIO (attempt (os_Remove (session_path s tok))) (\<lambda>_. raiseIO (Msg ''server.SessionStore.Lookup: token expired'')) w
              else returnIO sess w))))"

definition Delete_session :: "SessionStore \<Rightarrow> string \<Rightarrow> unit io" where
  "Delete_session s tok =
     (if \<not> validToken tok then raiseIO (Msg ''server.SessionStore.Delete: invalid token'')
      else bindIO (attempt (os_Remove (session_path s tok))) (\<lambda>r. case r of
          Inl e \<Rightarrow> if \<not> errors_Is e ErrNotExist then raiseIO (Wrap ''server.SessionStore.Delete'' e) else returnIO ()
        | Inr _ \<Rightarrow> returnIO ()))"

section \<open>sess_Token files\<close>

lemma validToken_path: "validToken t \<Longrightarrow> session_path s t = ss_root s @ [t @ ''.yaml'']"
proof -
  assume v: "validToken t"
  then have "CHR ''/'' \<notin> set t" "length t = 64" by (auto simp: validToken_def ContainsAny_def list_ex_iff)
  then have "safe_name (t @ ''.yaml'')" by (cases t) (auto simp: safe_name_def)
  then show ?thesis by (simp add: session_path_def join_path_safe)
qed

lemma hex_digit_token: "d < 16 \<Longrightarrow> token_char (hex_digit d)"
  by (simp add: token_char_def char_between_def hex_digit_def less_eq_char_def)

lemma randomToken_valid:
  assumes "\<And>n b. wc_rng g n = Inr b \<Longrightarrow> length b = n" "randomToken g = Inr t"
  shows "validToken t"
proof -
  from assms(2) obtain b where b: "RandBytes g 32 = Inr b" "t = hex_EncodeToString b"
    by (auto simp: randomToken_def split: sum.splits)
  then have len: "length b = 32" using assms(1) by (auto simp: RandBytes_def rc_err_def split: sum.splits)
  have "list_all token_char t"
    using b(2) hex_EncodeToString_chars [of b] hex_digit_token by (fastforce simp: list_all_iff hex_chars_def)
  moreover have "\<not> ContainsAny t [CHR ''/'', CHR 0x5C, CHR ''.'', CHR 0x00]"
    using b(2) hex_EncodeToString_chars [of b] hex_char_plain by (fastforce simp: ContainsAny_def list_ex_iff)
  ultimately show ?thesis using len b(2) by (simp add: validToken_def)
qed

text \<open>\<open>sessions_only s w w'\<close>: \<open>w'\<close> differs from \<open>w\<close> at most in session files of \<open>s\<close>.\<close>

definition sessions_only :: "SessionStore \<Rightarrow> world \<Rightarrow> world \<Rightarrow> bool" where
  "sessions_only s w w' \<longleftrightarrow> clock w' = clock w \<and> fault w' = fault w \<and>
     (\<forall>q. fs_get w' q \<noteq> fs_get w q \<longrightarrow> (\<exists>t. validToken t \<and> q = ss_root s @ [t @ ''.yaml'']))"

lemma sessions_only_refl [simp]: "sessions_only s w w"
  by (simp add: sessions_only_def)

lemma Remove_effect:
  assumes "os_Remove p w = (r, w')"
  shows "clock w' = clock w \<and> fault w' = fault w \<and> (\<forall>q. q \<noteq> p \<longrightarrow> fs_get w' q = fs_get w q)"
  using assms by (auto simp: os_Remove_def split: if_splits option.splits)

lemma Lookup_sessions_only: "Lookup c s t w = (r, w') \<Longrightarrow> sessions_only s w w'"
proof (cases "validToken t")
  case True
  obtain f where f: "os_ReadFile (session_path s t) w = (f, w)" using ReadFile_world by (metis surj_pair)
  assume "Lookup c s t w = (r, w')"
  with True f have "w' = w \<or> (\<exists>x. os_Remove (session_path s t) w = (x, w'))"
    by (auto simp: Lookup_def io_defs split: sum.splits option.splits if_splits prod.splits)
  then show ?thesis
    using Remove_effect [of "session_path s t" w] True by (auto simp: sessions_only_def validToken_path)
qed (simp add: Lookup_def raiseIO_def)

lemma Delete_sessions_only: "Delete_session s t w = (r, w') \<Longrightarrow> sessions_only s w w'"
proof (cases "validToken t")
  case True
  assume "Delete_session s t w = (r, w')"
  with True have "\<exists>x. os_Remove (session_path s t) w = (x, w')"
    by (auto simp: Delete_session_def io_defs split: sum.splits option.splits if_splits prod.splits)
  then show ?thesis
    using Remove_effect [of "session_path s t" w] True by (auto simp: sessions_only_def validToken_path)
qed (simp add: Delete_session_def raiseIO_def)

section \<open>The life of a session\<close>

definition at_time :: "int \<Rightarrow> world \<Rightarrow> world" where
  "at_time t w = w\<lparr>clock := t\<rparr>"

lemma at_time_simps [simp]:
  "clock (at_time t w) = t" "fault (at_time t w) = fault w" "fs_get (at_time t w) = fs_get w" "file_at (at_time t w) = file_at w"
  by (simp_all add: at_time_def fs_get_def file_at_def fun_eq_iff)

lemma Lookup_live:
  assumes "no_faults w" "validToken t" "file_at w (session_path s t) = Some (sess_enc c x)" "sess_dec c (sess_enc c x) = Some x"
  shows "clock w \<le> sess_ExpiresAt x \<Longrightarrow> Lookup c s t w = (Inr x, w)"
    and "clock w > sess_ExpiresAt x \<Longrightarrow>
      Lookup c s t w = (Inl (Msg ''server.SessionStore.Lookup: token expired''), fs_del (session_path s t) w)"
proof -
  have r: "os_ReadFile (session_path s t) w = (Inr (sess_enc c x), w)"
    using assms(1,3) by (intro ReadFile_ok) (auto simp: no_faults_def)
  obtain b m where "fs_get w (session_path s t) = Some (FileN b m)"
    using assms(3) by (auto simp: file_at_def split: option.splits node.splits)
  then have rm: "os_Remove (session_path s t) w = (Inr (), fs_del (session_path s t) w)"
    using assms(1) by (simp add: os_Remove_def no_faults_def)
  show "clock w \<le> sess_ExpiresAt x \<Longrightarrow> Lookup c s t w = (Inr x, w)"
    using assms(2,4) r by (simp add: Lookup_def io_defs)
  show "clock w > sess_ExpiresAt x \<Longrightarrow>
      Lookup c s t w = (Inl (Msg ''server.SessionStore.Lookup: token expired''), fs_del (session_path s t) w)"
    using assms(2,4) r rm by (simp add: Lookup_def io_defs)
qed

lemma Lookup_gone:
  assumes "no_faults w" "validToken t" "fs_get w (session_path s t) = None"
  shows "Lookup c s t w = (Inl (Msg ''server.SessionStore.Lookup: unknown token''), w)"
  using assms by (simp add: Lookup_def os_ReadFile_def os_Open_def io_defs no_faults_def)

lemma Delete_gone:
  assumes "no_faults w" "validToken t" "file_at w (session_path s t) \<noteq> None"
  shows "Delete_session s t w = (Inr (), fs_del (session_path s t) w)"
proof -
  obtain b m where "fs_get w (session_path s t) = Some (FileN b m)"
    using assms(3) by (auto simp: file_at_def split: option.splits node.splits)
  then show ?thesis using assms(1,2) by (simp add: Delete_session_def os_Remove_def no_faults_def io_defs)
qed

text \<open>
  The life of a session. A successful \<^verbatim>\<open>Create\<close> hands out a 64-digit hexadecimal token that names exactly one file of the
  session directory; presented at any time up to the expiry stamped in it, the token yields that session and changes nothing;
  presented later it is refused and its file removed, so that it is unknown from then on; after \<^verbatim>\<open>Delete\<close> it is unknown at once.
\<close>

theorem session_life:
  assumes "no_faults w" "\<And>n b. wc_rng g n = Inr b \<Longrightarrow> length b = n"
    and "sess_dec c (sess_enc c x) = Some x"
    and "Create g c s user w = (Inr x, w')"
  shows "Username x = user" "validToken (sess_Token x)" "sess_ExpiresAt x = clock w + ss_ttl s"
    and "t \<le> clock w + ss_ttl s \<Longrightarrow> Lookup c s (sess_Token x) (at_time t w') = (Inr x, at_time t w')"
    and "t > clock w + ss_ttl s \<Longrightarrow>
      Lookup c s (sess_Token x) (at_time t w')
        = (Inl (Msg ''server.SessionStore.Lookup: token expired''), fs_del (ss_root s @ [sess_Token x @ ''.yaml'']) (at_time t w'))"
    and "Delete_session s (sess_Token x) (at_time t w') = (Inr (), fs_del (ss_root s @ [sess_Token x @ ''.yaml'']) (at_time t w'))"
    and "Lookup c s (sess_Token x) (at_time t' (fs_del (ss_root s @ [sess_Token x @ ''.yaml'']) (at_time t w')))
       = (Inl (Msg ''server.SessionStore.Lookup: unknown token''), at_time t' (fs_del (ss_root s @ [sess_Token x @ ''.yaml'']) (at_time t w')))"
proof -
  from assms(4) obtain tok w1 u1 u2 where tok: "randomToken g = Inr tok"
    and x: "x = \<lparr>sess_Token = tok, Username = user, sess_CreatedAt = clock w, sess_ExpiresAt = clock w + ss_ttl s\<rparr>"
    and run: "os_MkdirAll (ss_root s) w = (Inr u1, w1)" "os_WriteFile (session_path s (sess_Token x)) (sess_enc c x) w1 = (Inr u2, w')"
    by (auto simp: Create_def write_session_def Let_def io_simps raiseIO_def split: if_splits sum.splits)
  show u: "Username x = user" "sess_ExpiresAt x = clock w + ss_ttl s" by (simp_all add: x)
  show v: "validToken (sess_Token x)" using randomToken_valid [OF assms(2) tok] by (simp add: x)
  note eff = mkdir_write_effect [OF run]
  have nf: "no_faults (at_time t w')" using eff(2) assms(1) by (simp add: no_faults_def)
  have at: "file_at (at_time t w') (session_path s (sess_Token x)) = Some (sess_enc c x)" using eff(1) by simp
  show "t \<le> clock w + ss_ttl s \<Longrightarrow> Lookup c s (sess_Token x) (at_time t w') = (Inr x, at_time t w')"
    using Lookup_live(1) [OF nf v at assms(3)] by (simp add: u)
  show "t > clock w + ss_ttl s \<Longrightarrow> Lookup c s (sess_Token x) (at_time t w')
        = (Inl (Msg ''server.SessionStore.Lookup: token expired''), fs_del (ss_root s @ [sess_Token x @ ''.yaml'']) (at_time t w'))"
    using Lookup_live(2) [OF nf v at assms(3)] v by (simp add: u validToken_path)
  show "Delete_session s (sess_Token x) (at_time t w') = (Inr (), fs_del (ss_root s @ [sess_Token x @ ''.yaml'']) (at_time t w'))"
    using Delete_gone [OF nf v] at v by (simp add: validToken_path)
  show "Lookup c s (sess_Token x) (at_time t' (fs_del (ss_root s @ [sess_Token x @ ''.yaml'']) (at_time t w')))
       = (Inl (Msg ''server.SessionStore.Lookup: unknown token''), at_time t' (fs_del (ss_root s @ [sess_Token x @ ''.yaml'']) (at_time t w')))"
    using nf v by (intro Lookup_gone) (simp_all add: no_faults_def validToken_path)
qed

section \<open>Evaluated instance\<close>

definition demo_sess_codec :: sess_codec where
  "demo_sess_codec = \<lparr>sess_enc = sess_Token, sess_dec = (\<lambda>b. Some \<lparr>sess_Token = b, Username = ''kaleb'', sess_CreatedAt = 7, sess_ExpiresAt = 3607\<rparr>)\<rparr>"

definition demo_sessions :: SessionStore where
  "demo_sessions = NewSessionStore [''auth'', ''sessions''] 3600"

definition demo_session :: Session where
  "demo_session = \<lparr>sess_Token = hex_EncodeToString (replicate 32 (CHR ''r'')), Username = ''kaleb'', sess_CreatedAt = 7, sess_ExpiresAt = 3607\<rparr>"

definition demo_logged_in :: world where
  "demo_logged_in = snd (Create demo_gowolf demo_sess_codec demo_sessions ''kaleb'' empty_disk)"

lemma demo_create: "Create demo_gowolf demo_sess_codec demo_sessions ''kaleb'' empty_disk = (Inr demo_session, demo_logged_in)"
proof -
  have "fst (Create demo_gowolf demo_sess_codec demo_sessions ''kaleb'' empty_disk) = Inr demo_session" by code_simp
  then show ?thesis by (simp add: demo_logged_in_def prod_eq_iff)
qed

theorem session_life_witness:
  "Lookup demo_sess_codec demo_sessions (sess_Token demo_session) (at_time 3607 demo_logged_in) = (Inr demo_session, at_time 3607 demo_logged_in)
   \<and> fst (Lookup demo_sess_codec demo_sessions (sess_Token demo_session) (at_time 3608 demo_logged_in))
       = Inl (Msg ''server.SessionStore.Lookup: token expired'')"
proof -
  have w: "no_faults empty_disk" "clock empty_disk = 7" by (simp_all add: no_faults_def empty_disk_def)
  have g: "length b = n" if "wc_rng demo_gowolf n = Inr b" for n b using that by (auto simp: demo_gowolf_def)
  have c: "sess_dec demo_sess_codec (sess_enc demo_sess_codec demo_session) = Some demo_session"
    by (simp add: demo_sess_codec_def demo_session_def)
  have t: "clock empty_disk + ss_ttl demo_sessions = 3607" using w(2) by (simp add: demo_sessions_def NewSessionStore_def)
  note life = session_life [OF w(1) g c demo_create, unfolded t]
  show ?thesis using life(4) [of 3607] life(5) [of 3608] by simp
qed

end
