(* ===== verification/WebBase.thy ===== *)
theory WebBase
  imports WebViews Session CredStore AgentSvc
begin

text \<open>
  The web server's options, state and responses (\<^verbatim>\<open>internal/server/server.go\<close>). A handler takes the options, the request and the
  state and returns the response and the state after it. A redirect carries the URL handed to \<^verbatim>\<open>http.Redirect\<close>; a rendered
  page carries the data its template is executed with. Third-party YAML, the SSH and crypto bindings, the calendar,
  \<^verbatim>\<open>time.Parse\<close>, \<^verbatim>\<open>http.DetectContentType\<close>, \<^verbatim>\<open>http.FileServer\<close> and the text of an error are fields of \<open>Options\<close>, and so is what the
  operating system makes of a path that leads through symbolic links (\<open>opt_resolve\<close>: the path reached, or the error): on the disk
  of the model a link is a file that holds its target.
\<close>

section \<open>Options and state\<close>

record gceConfig =
  ProjectID :: string
  Zone :: string
  MachineType :: string
  ServiceAccountKey :: string
  Image :: string
  Network :: string
  gce_Labels :: "string list"
  MaxInstances :: int

record Options =
  opt_root :: path
  opt_codec :: codec
  opt_form :: form_codec
  opt_pcodec :: pcodec
  opt_gce_enc :: "gceConfig \<Rightarrow> string"
  opt_Auth :: AuthConfig
  opt_Passwords :: PasswordStore
  opt_Sessions :: SessionStore
  opt_sess :: sess_codec
  opt_wolf :: gowolf_auth
  CookieSecure :: bool
  has_AgentSvc :: bool
  has_JobRunner :: bool
  opt_Credstore :: "(cred_codec \<times> Store) option"
  AgentEndpoint :: string
  opt_result :: res_decoder
  opt_local_day :: "int \<Rightarrow> int"
  opt_parse_time :: "string \<Rightarrow> int option"
  opt_detect :: "string \<Rightarrow> string"
  opt_dir_size :: "path \<Rightarrow> int"
  opt_resolve :: "world \<Rightarrow> path \<Rightarrow> path res"
  opt_static :: "Request \<Rightarrow> int \<times> string \<times> string"
  opt_error :: "goerr \<Rightarrow> string"

record web =
  wb_sched :: Scheduler
  wb_agents :: Server

abbreviation wb_disk :: "web \<Rightarrow> world" where
  "wb_disk s \<equiv> disk (wb_sched s)"

definition set_disk :: "world \<Rightarrow> web \<Rightarrow> web" where
  "set_disk w s = s\<lparr>wb_sched := (wb_sched s)\<lparr>disk := w\<rparr>\<rparr>"

section \<open>View models\<close>

record nodeRow =
  nr_AgentID :: string
  nr_DisplayName :: string
  nr_IsMaster :: bool
  nr_Status :: string
  nr_Architecture :: string
  nr_ClockDiff :: string
  nr_FreeDisk :: string
  nr_FreeSwap :: string
  nr_FreeTemp :: string
  nr_GoVersion :: string
  nr_ResponseTime :: string
  nr_AgentVersion :: string

record nodeDetail =
  nd_AgentID :: string
  nd_DisplayName :: string
  nd_IsMaster :: bool
  nd_Labels :: "string list"
  nd_Executors :: int
  nd_Disabled :: bool
  nd_HasHeartbeat :: bool
  nd_Status :: "(string \<times> string) list"

record pickerRow =
  pr_ID :: string
  pr_Kind :: string
  pr_Labels :: "string list"
  pr_Executors :: int

record jobFormView =
  jf_Title :: string
  jf_Kind :: string
  jf_KindLabel :: string
  jf_IsNew :: bool
  jf_Name :: string
  jf_Spec :: string
  jf_Error :: string
  jf_Action :: string
  jf_View :: string
  jf_Job :: "Job option"
  jf_CredentialOptions :: "string list"

record jobDetailView =
  jd_Name :: string
  jd_Description :: string
  jd_Builds :: "buildHistoryRow list"
  jd_BuildGroups :: "buildGroup list"
  jd_Truncated :: bool
  jd_Permalinks :: permalinks
  jd_Links :: triggerLinks
  jd_CanRun :: bool

record buildsIndexView =
  bi_Name :: string
  bi_Builds :: "buildHistoryRow list"
  bi_Page :: int
  bi_TotalPages :: int
  bi_Since :: string
  bi_PrevQuery :: string
  bi_NextQuery :: string
  bi_Total :: int

record workspaceEntry =
  we_Name :: string
  we_IsDir :: bool
  we_Size :: int
  we_Href :: string

record workspaceView =
  ws_JobName :: string
  ws_BuildNum :: int
  ws_SubPath :: string
  ws_Entries :: "workspaceEntry list"
  ws_Parent :: string
  ws_BuildURL :: string

record previewView =
  pv_JobName :: string
  pv_BuildNum :: int
  pv_SubPath :: string
  pv_Lines :: "(int \<times> string) list"
  pv_Parent :: string
  pv_BuildURL :: string

datatype Page =
    LoginPage string
  | JobsPage "Job list" bool "(string \<times> triggerCounts) list"
  | NewJobPicker
  | JobFormPage jobFormView
  | JobDetailPage jobDetailView
  | BuildsIndexPage buildsIndexView
  | BuildLogPage string int string bool
  | WorkspacePage workspaceView
  | PreviewPage previewView
  | NodesPage "nodeRow list"
  | NodeDetailPage nodeDetail
  | PendingNodePage PendingAgent string bool string
  | NodesNewPage
  | CopyPickerPage "pickerRow list"
  | PermanentPage string string string int string
  | GCEPage string string gceConfig
  | SetupForm string
  | SetupDone string

section \<open>Responses\<close>

record Cookie =
  ck_Value :: string
  ck_Path :: string
  ck_HttpOnly :: bool
  ck_Secure :: bool
  ck_SameSiteStrict :: bool
  ck_Expires :: int
  ck_MaxAge :: int

datatype Body = Text string | Html Page | Raw string string | LogStream string int | StaticFile string | Aborted

record Response =
  rs_status :: int
  rs_location :: string
  set_cookie :: "Cookie option"
  rs_body :: Body

definition http_Error :: "string \<Rightarrow> int \<Rightarrow> Response" where
  "http_Error msg code = \<lparr>rs_status = code, rs_location = '''', set_cookie = None, rs_body = Text (msg @ [CHR 0x0A])\<rparr>"

definition http_NotFound :: Response where
  "http_NotFound = http_Error ''404 page not found'' 404"

definition http_Redirect :: "string \<Rightarrow> Response" where
  "http_Redirect url = \<lparr>rs_status = 303, rs_location = url, set_cookie = None, rs_body = Text ''''\<rparr>"

definition render :: "Page \<Rightarrow> Response" where
  "render p = \<lparr>rs_status = 200, rs_location = '''', set_cookie = None, rs_body = Html p\<rparr>"

text \<open>A handler that panics: \<^verbatim>\<open>net/http\<close> recovers and drops the connection.\<close>

definition panicked :: Response where
  "panicked = \<lparr>rs_status = 0, rs_location = '''', set_cookie = None, rs_body = Aborted\<rparr>"

definition method_not_allowed :: Response where
  "method_not_allowed = http_Error ''method not allowed'' 405"

definition bad_request :: Response where
  "bad_request = http_Error ''bad request'' 400"

section \<open>Composition\<close>

text \<open>\<open>with_disk m k s\<close> runs the file operation \<open>m\<close> and hands its result to \<open>k\<close>.\<close>

definition with_disk :: "'a io \<Rightarrow> ('a res \<Rightarrow> web \<Rightarrow> 'b \<times> web) \<Rightarrow> web \<Rightarrow> 'b \<times> web" where
  "with_disk m k s = (case m (wb_disk s) of (r, w) \<Rightarrow> k r (set_disk w s))"

definition reply :: "Response \<Rightarrow> web \<Rightarrow> Response \<times> web" where
  "reply r s = (r, s)"

text \<open>The job runner of \<^verbatim>\<open>cmd/wolfci\<close>: \<^verbatim>\<open>Enqueue\<close> without its completion channel.\<close>

definition run_job :: "Options \<Rightarrow> Job \<Rightarrow> web \<Rightarrow> int res \<times> web" where
  "run_job opts job s =
     (case Enqueue (opt_codec opts) (opt_root opts) (Some job) (wb_sched s) of
        (Inl e, sd) \<Rightarrow> (Inl e, s\<lparr>wb_sched := sd\<rparr>)
      | (Inr (num, _), sd) \<Rightarrow> (Inr num, s\<lparr>wb_sched := sd\<rparr>))"

definition QueryGet :: "Request \<Rightarrow> string \<Rightarrow> string" where
  "QueryGet r k = (case map_of (url_query r) k of None \<Rightarrow> '''' | Some v \<Rightarrow> v)"

primrec SplitN :: "nat \<Rightarrow> char \<Rightarrow> string \<Rightarrow> string list" where
  "SplitN 0 c s = [s]"
| "SplitN (Suc n) c s = (if n = 0 then [s] else case cut_at c s of None \<Rightarrow> [s] | Some (a, b) \<Rightarrow> a # SplitN n c b)"

definition TrimPrefix :: "string \<Rightarrow> string \<Rightarrow> string" where
  "TrimPrefix s p = (if HasPrefix s p then drop (length p) s else s)"

definition TrimSuffix :: "string \<Rightarrow> string \<Rightarrow> string" where
  "TrimSuffix s p = (if HasSuffix s p then take (length s - length p) s else s)"

definition validJobName :: "string \<Rightarrow> bool" where
  "validJobName name \<longleftrightarrow>
     \<not> (name = '''' \<or> name = ''.'' \<or> name = ''..'') \<and> \<not> ContainsAny name [CHR ''/'', CHR 0x5C, CHR 0x00]"

lemma validJobName_safe: "validJobName name \<Longrightarrow> safe_name name"
  by (auto simp: validJobName_def safe_name_def ContainsAny_def list_ex_iff)

lemma set_disk_simps [simp]:
  "wb_disk (set_disk w s) = w" "wb_agents (set_disk w s) = wb_agents s" "queue (wb_sched (set_disk w s)) = queue (wb_sched s)"
  "set_disk w (set_disk v s) = set_disk w s" "set_disk (wb_disk s) s = s" "Scheduler.stopped (wb_sched (set_disk w s)) = stopped (wb_sched s)"
  by (simp_all add: set_disk_def)

end
