(* ===== verification/WebJobs.thy ===== *)
theory WebJobs
  imports WebBase
begin

text \<open>
  The job pages of \<^verbatim>\<open>internal/server\<close>: create and edit, run, delete, rename, rebuild, the detail page, the paged index, the log
  page and the workspace browser (\<^verbatim>\<open>server.go\<close>, \<^verbatim>\<open>rename.go\<close>, \<^verbatim>\<open>rebuild.go\<close>, \<^verbatim>\<open>jobdetail.go\<close>, \<^verbatim>\<open>buildsindex.go\<close>,
  \<^verbatim>\<open>workspace.go\<close>).
\<close>

section \<open>The job form\<close>

definition parseJobSpec :: "codec \<Rightarrow> string \<Rightarrow> Job res" where
  "parseJobSpec c spec =
     (if TrimSpace spec = '''' then Inl (Msg ''spec is empty'')
      else (case job_dec c spec of None \<Rightarrow> Inl (Wrap ''yaml'' (Msg ''yaml'')) | Some j \<Rightarrow> Inr j))"

definition normalizeView :: "string \<Rightarrow> string" where
  "normalizeView v = (if v = ''raw'' then ''raw'' else ''form'')"

definition detectPostView :: "Request \<Rightarrow> string" where
  "detectPostView r =
     (if FormValue r ''view'' = ''raw'' then ''raw''
      else if FormValue r ''view'' = ''form'' then ''form''
      else if TrimSpace (FormValue r ''spec'') \<noteq> '''' then ''raw'' else ''form'')"

definition normalizeJobKind :: "string \<Rightarrow> string" where
  "normalizeJobKind v = (if v = ''pipeline'' then ''pipeline'' else if v = ''multibranch'' then ''multibranch'' else ''inline'')"

definition jobKindLabel :: "string \<Rightarrow> string" where
  "jobKindLabel kind =
     (if kind = ''pipeline'' then ''Pipeline (more complex, multi-step job)''
      else if kind = ''multibranch'' then ''Multibranch Pipeline (most complex, multi-path, multi-step job)''
      else ''Inline script (simple job)'')"

text \<open>The job, the text for the raw editor, and the error if there was one.\<close>

definition parseJobFromRequest :: "Options \<Rightarrow> Request \<Rightarrow> string \<Rightarrow> Job option \<times> string \<times> goerr option" where
  "parseJobFromRequest opts r view =
     (if view = ''form'' then
        (case buildJobFromForm (opt_form opts) r of
           Inl e \<Rightarrow> (None, '''', Some e)
         | Inr job \<Rightarrow> (Some job, job_enc (opt_codec opts) job, None))
      else let spec = FormValue r ''spec'' in
        (case parseJobSpec (opt_codec opts) spec of
           Inl e \<Rightarrow> (None, spec, Some e)
         | Inr job \<Rightarrow> (Some job, spec, None)))"

definition credentialOptions :: "Options \<Rightarrow> string list io" where
  "credentialOptions opts =
     (case opt_Credstore opts of None \<Rightarrow> returnIO []
      | Some (c, st) \<Rightarrow> bindIO (attempt (ListCreds c st)) (\<lambda>r. case r of
          Inl _ \<Rightarrow> returnIO [] | Inr entries \<Rightarrow> returnIO (sort (map ID entries))))"

definition renderJobFormFull :: "Options \<Rightarrow> string \<Rightarrow> string \<Rightarrow> string \<Rightarrow> string \<Rightarrow> Job option \<Rightarrow> string \<Rightarrow> web \<Rightarrow> Response \<times> web" where
  "renderJobFormFull opts name spec errMsg view job kind =
     with_disk (credentialOptions opts) (\<lambda>creds s.
       (render (JobFormPage \<lparr>jf_Title = (if name = '''' then ''New job'' else ''Edit job''), jf_Kind = kind,
          jf_KindLabel = jobKindLabel kind, jf_IsNew = (name = ''''), jf_Name = name, jf_Spec = spec, jf_Error = errMsg,
          jf_Action = (if name = '''' then ''/jobs/new'' else ''/jobs/'' @ name @ ''/edit''), jf_View = view, jf_Job = job,
          jf_CredentialOptions = (case creds of Inl _ \<Rightarrow> [] | Inr cs \<Rightarrow> cs)\<rparr>), s))"

definition renderJobForm :: "Options \<Rightarrow> string \<Rightarrow> string \<Rightarrow> string \<Rightarrow> string \<Rightarrow> Job option \<Rightarrow> web \<Rightarrow> Response \<times> web" where
  "renderJobForm opts name spec errMsg view job = renderJobFormFull opts name spec errMsg view job ''inline''"

definition handleJobCreate :: "Options \<Rightarrow> Request \<Rightarrow> web \<Rightarrow> Response \<times> web" where
  "handleJobCreate opts r =
     (if \<not> parse_ok r then reply bad_request
      else let view = detectPostView r in
        (case parseJobFromRequest opts r view of
           (job, spec, Some e) \<Rightarrow> renderJobForm opts '''' spec (opt_error opts e) view job
         | (None, spec, None) \<Rightarrow> reply panicked
         | (Some job, spec, None) \<Rightarrow>
             if Name job = '''' then renderJobForm opts '''' spec (''spec must include '' @ [CHR 0x27] @ ''name'' @ [CHR 0x27]) view (Some job)
             else with_disk (LoadJob (opt_codec opts) (opt_root opts) (Name job)) (\<lambda>existing. case existing of
                 Inr _ \<Rightarrow> renderJobForm opts '''' spec
                   (''job '' @ quoted (Name job) @ '' already exists; use /jobs/'' @ Name job @ ''/edit'') view (Some job)
               | Inl _ \<Rightarrow> with_disk (SaveJob (opt_codec opts) (opt_root opts) (Some job)) (\<lambda>res. case res of
                     Inl e \<Rightarrow> renderJobForm opts '''' spec (''save: '' @ opt_error opts e) view (Some job)
                   | Inr _ \<Rightarrow> reply (http_Redirect ''/jobs'')))))"

definition handleJobEditGet :: "Options \<Rightarrow> Request \<Rightarrow> string \<Rightarrow> web \<Rightarrow> Response \<times> web" where
  "handleJobEditGet opts r name =
     with_disk (LoadJob (opt_codec opts) (opt_root opts) name) (\<lambda>res. case res of
       Inl e \<Rightarrow> reply (http_Error (''load job: '' @ opt_error opts e) 404)
     | Inr job \<Rightarrow> renderJobForm opts name (job_enc (opt_codec opts) job) '''' (normalizeView (QueryGet r ''view'')) (Some job))"

definition handleJobEditPost :: "Options \<Rightarrow> Request \<Rightarrow> string \<Rightarrow> web \<Rightarrow> Response \<times> web" where
  "handleJobEditPost opts r name =
     (if \<not> parse_ok r then reply bad_request
      else let view = detectPostView r in
        (case parseJobFromRequest opts r view of
           (job, spec, Some e) \<Rightarrow> renderJobForm opts name spec (opt_error opts e) view job
         | (None, spec, None) \<Rightarrow> reply panicked
         | (Some job, spec, None) \<Rightarrow>
             if Name job \<noteq> name
             then renderJobForm opts name spec (''name in spec ('' @ quoted (Name job) @ '') does not match URL ('' @ quoted name
               @ ''); rename is not supported via the edit form'') view (Some job)
             else with_disk (SaveJob (opt_codec opts) (opt_root opts) (Some job)) (\<lambda>res. case res of
                 Inl e \<Rightarrow> renderJobForm opts name spec (''save: '' @ opt_error opts e) view (Some job)
               | Inr _ \<Rightarrow> reply (http_Redirect ''/jobs''))))"

section \<open>Actions on a job\<close>

definition build_url :: "string \<Rightarrow> int \<Rightarrow> string" where
  "build_url name num = ''/jobs/'' @ name @ ''/builds/'' @ Itoa num"

definition enqueue_and_redirect :: "Options \<Rightarrow> string \<Rightarrow> Job \<Rightarrow> web \<Rightarrow> Response \<times> web" where
  "enqueue_and_redirect opts name job s =
     (case run_job opts job s of
        (Inl e, s') \<Rightarrow> (http_Error (''enqueue: '' @ opt_error opts e) 500, s')
      | (Inr num, s') \<Rightarrow> (http_Redirect (build_url name num), s'))"

definition handleJobRun :: "Options \<Rightarrow> Request \<Rightarrow> string \<Rightarrow> web \<Rightarrow> Response \<times> web" where
  "handleJobRun opts r name =
     (if \<not> has_JobRunner opts then reply (http_Error ''job runner not configured'' 501)
      else with_disk (LoadJob (opt_codec opts) (opt_root opts) name) (\<lambda>res. case res of
          Inl e \<Rightarrow> reply (http_Error (''load job: '' @ opt_error opts e) 404)
        | Inr job \<Rightarrow> enqueue_and_redirect opts name job))"

definition handleJobDelete :: "Options \<Rightarrow> Request \<Rightarrow> string \<Rightarrow> web \<Rightarrow> Response \<times> web" where
  "handleJobDelete opts r name =
     with_disk (DeleteJob (opt_root opts) name) (\<lambda>res. case res of
       Inl e \<Rightarrow> if errors_Is e ErrNotExist then reply http_NotFound
                else reply (http_Error (''delete job: '' @ opt_error opts e) 500)
     | Inr _ \<Rightarrow> reply (http_Redirect ''/jobs''))"

definition handleJobRename :: "Options \<Rightarrow> Request \<Rightarrow> string \<Rightarrow> web \<Rightarrow> Response \<times> web" where
  "handleJobRename opts r name =
     (if \<not> parse_ok r then reply bad_request
      else let newName = TrimSpace (FormValue r ''new_name'') in
        if newName = '''' then reply (http_Error ''new_name is required'' 400)
        else if \<not> validJobName newName then reply (http_Error ''invalid new_name'' 400)
        else if newName = name then reply (http_Redirect (''/jobs/'' @ name))
        else with_disk (RenameJob (opt_codec opts) (opt_root opts) name newName) (\<lambda>res. case res of
            Inl e \<Rightarrow> if errors_Is e ErrNotExist then reply http_NotFound
                     else if errors_Is e ErrJobExists
                     then reply (http_Error (''rename refused: a job named '' @ quoted newName @ '' already exists'') 409)
                     else reply (http_Error (''rename: '' @ opt_error opts e) 500)
          | Inr _ \<Rightarrow> reply (http_Redirect (''/jobs/'' @ newName))))"

definition findMostRecentBuild :: "res_decoder \<Rightarrow> path \<Rightarrow> string \<Rightarrow> int io" where
  "findMostRecentBuild rdec root jobName =
     (\<lambda>w. bindIO (scanAllBuilds rdec root jobName (clock w)) (\<lambda>rows.
        returnIO (case rows of [] \<Rightarrow> 0 | r # _ \<Rightarrow> row_Number r)) w)"

definition handleJobRebuild :: "Options \<Rightarrow> Request \<Rightarrow> string \<Rightarrow> web \<Rightarrow> Response \<times> web" where
  "handleJobRebuild opts r name =
     (if \<not> has_JobRunner opts then reply (http_Error ''job runner not configured'' 501)
      else if QueryGet r ''spec'' = ''current'' then
        with_disk (LoadJob (opt_codec opts) (opt_root opts) name) (\<lambda>res. case res of
          Inl e \<Rightarrow> reply (http_Error (''load job: '' @ opt_error opts e) 404)
        | Inr spec \<Rightarrow> enqueue_and_redirect opts name spec)
      else with_disk (findMostRecentBuild (opt_result opts) (opt_root opts) name) (\<lambda>res. case res of
          Inl e \<Rightarrow> reply (http_Error (''find latest build: '' @ opt_error opts e) 500)
        | Inr target \<Rightarrow>
            if target = 0 then reply (http_Error ''no previous build to rebuild'' 400)
            else with_disk (LoadSpecSnapshot (opt_codec opts) (opt_root opts) name target) (\<lambda>res2. case res2 of
                Inl e \<Rightarrow> if errors_Is e ErrNotExist
                  then reply (http_Error (''build '' @ Itoa target @ '' has no spec snapshot; use ?spec=current to rebuild with the live spec'') 409)
                  else reply (http_Error (''load snapshot: '' @ opt_error opts e) 500)
              | Inr spec \<Rightarrow> enqueue_and_redirect opts name spec)))"

section \<open>Pages of a job\<close>

definition maxDetailBuilds :: nat where "maxDetailBuilds = 100"

definition no_relations :: triggerLinks where
  "no_relations = \<lparr>links_Upstream = [], links_Downstream = [], links_Siblings = []\<rparr>"

definition handleJobDetail :: "Options \<Rightarrow> Request \<Rightarrow> string \<Rightarrow> web \<Rightarrow> Response \<times> web" where
  "handleJobDetail opts r name =
     with_disk (LoadJob (opt_codec opts) (opt_root opts) name) (\<lambda>res. case res of
       Inl e \<Rightarrow> reply http_NotFound
     | Inr job \<Rightarrow> (\<lambda>s. with_disk (scanAllBuilds (opt_result opts) (opt_root opts) name (clock (wb_disk s))) (\<lambda>res2. case res2 of
           Inl e \<Rightarrow> reply (http_Error (''scan builds: '' @ opt_error opts e) 500)
         | Inr all \<Rightarrow> with_disk (ListJobs (opt_codec opts) (opt_root opts)) (\<lambda>jobs s.
             let visible = take maxDetailBuilds all in
             (render (JobDetailPage \<lparr>jd_Name = Name job, jd_Description = Description job, jd_Builds = visible,
                jd_BuildGroups = groupBuildsByDate (opt_local_day opts) visible (clock (wb_disk s)),
                jd_Truncated = (length all > maxDetailBuilds), jd_Permalinks = computePermalinks all,
                jd_Links = (case jobs of Inl _ \<Rightarrow> no_relations | Inr js \<Rightarrow> computeTriggerLinks name js),
                jd_CanRun = has_JobRunner opts\<rparr>), s))) s))"

definition handleBuildsIndex :: "Options \<Rightarrow> Request \<Rightarrow> string \<Rightarrow> web \<Rightarrow> Response \<times> web" where
  "handleBuildsIndex opts r name =
     with_disk (LoadJob (opt_codec opts) (opt_root opts) name) (\<lambda>res. case res of
       Inl e \<Rightarrow> reply http_NotFound
     | Inr job \<Rightarrow> (\<lambda>s. with_disk (scanAllBuilds (opt_result opts) (opt_root opts) name (clock (wb_disk s))) (\<lambda>res2. case res2 of
           Inl e \<Rightarrow> reply (http_Error (''scan builds: '' @ opt_error opts e) 500)
         | Inr all \<Rightarrow>
             let sinceParam = QueryGet r ''since'' in
             (case (if sinceParam = '''' then Some zero_time else opt_parse_time opts sinceParam) of
                None \<Rightarrow> reply (http_Error (''invalid ?since= (want RFC3339): '' @ sinceParam) 400)
              | Some sinceCutoff \<Rightarrow>
                  let filtered = since_filter sinceCutoff all; page = page_param (QueryGet r ''page'');
                      totalPages = total_pages filtered in
                  (case page_rows page filtered of
                     None \<Rightarrow> reply panicked
                   | Some visible \<Rightarrow> reply (render (BuildsIndexPage \<lparr>bi_Name = Name job, bi_Builds = visible, bi_Page = page,
                        bi_TotalPages = totalPages, bi_Since = sinceParam,
                        bi_PrevQuery = (if page > 1 then pageQueryString (page - 1) sinceParam else ''''),
                        bi_NextQuery = (if page < totalPages then pageQueryString (page + 1) sinceParam else ''''),
                        bi_Total = int (length filtered)\<rparr>))))) s))"

definition handleBuildLogPage :: "Options \<Rightarrow> Request \<Rightarrow> string \<Rightarrow> int \<Rightarrow> web \<Rightarrow> Response \<times> web" where
  "handleBuildLogPage opts r name num =
     reply (render (BuildLogPage name num (''/api/v1/builds/'' @ name @ ''/'' @ Itoa num @ ''/log'') (has_JobRunner opts)))"

definition handleJobs :: "Options \<Rightarrow> Request \<Rightarrow> web \<Rightarrow> Response \<times> web" where
  "handleJobs opts r =
     with_disk (ListJobs (opt_codec opts) (opt_root opts)) (\<lambda>res. case res of
       Inl e \<Rightarrow> reply (http_Error (''list jobs: '' @ opt_error opts e) 500)
     | Inr jobs \<Rightarrow> reply (render (JobsPage jobs (has_JobRunner opts) (computeAllTriggerCounts jobs))))"

section \<open>The workspace browser (\<^verbatim>\<open>workspace.go\<close>)\<close>

definition workspaceTextPreviewMax :: nat where "workspaceTextPreviewMax = 256 * 1024"

text \<open>\<^verbatim>\<open>path.Clean("/" + sub)[1:]\<close> as components, and \<^verbatim>\<open>path.Dir\<close> of a cleaned relative path.\<close>

definition clean_sub :: "string \<Rightarrow> string list" where
  "clean_sub sub = foldl clean_comp [] (Split (CHR ''/'') sub)"

definition slashed :: "string list \<Rightarrow> string" where
  "slashed cs = join_with ''/'' cs"

definition path_Dir :: "string list \<Rightarrow> string" where
  "path_Dir cs = (if length cs \<le> 1 then ''.'' else slashed (butlast cs))"

definition ws_base :: "string \<Rightarrow> int \<Rightarrow> string" where
  "ws_base jobName buildNum = build_url jobName buildNum @ ''/ws/''"

text \<open>\<open>followed opts m p\<close>: the call \<open>m\<close> on what the operating system finds at \<open>p\<close>, symbolic links followed.\<close>

definition followed :: "Options \<Rightarrow> (path \<Rightarrow> 'a io) \<Rightarrow> path \<Rightarrow> 'a io" where
  "followed opts m p w = (case opt_resolve opts w p of Inl e \<Rightarrow> (Inl e, w) | Inr q \<Rightarrow> m q w)"

definition os_ReadDir_at :: "path \<Rightarrow> (path \<times> (string \<times> bool) list) io" where
  "os_ReadDir_at p = bindIO (os_ReadDir p) (\<lambda>raw. returnIO (p, raw))"

definition renderWorkspaceListing :: "Options \<Rightarrow> string \<Rightarrow> int \<Rightarrow> string list \<Rightarrow> path \<Rightarrow> web \<Rightarrow> Response \<times> web" where
  "renderWorkspaceListing opts jobName buildNum sub absDir =
     with_disk (followed opts os_ReadDir_at absDir) (\<lambda>res s. case res of
       Inl e \<Rightarrow> (http_Error (''readdir: '' @ opt_error opts e) 500, s)
     | Inr (real, raw) \<Rightarrow>
         let base = ws_base jobName buildNum @ (if sub \<noteq> [] then slashed sub @ ''/'' else '''');
             entries = map (\<lambda>(n, d). \<lparr>we_Name = n, we_IsDir = d,
                we_Size = (case file_at (wb_disk s) (real @ [n]) of Some b \<Rightarrow> int (length b) | None \<Rightarrow> opt_dir_size opts (real @ [n])),
                we_Href = base @ n\<rparr>) raw;
             parent = (if sub = [] then '''' else if path_Dir sub = ''.'' then ws_base jobName buildNum
                       else ws_base jobName buildNum @ path_Dir sub @ ''/'')
         in (render (WorkspacePage \<lparr>ws_JobName = jobName, ws_BuildNum = buildNum, ws_SubPath = slashed sub,
               ws_Entries = sort_key (\<lambda>e. (\<not> we_IsDir e, we_Name e)) entries, ws_Parent = parent,
               ws_BuildURL = build_url jobName buildNum\<rparr>), s))"

definition isTextLike :: "string \<Rightarrow> bool" where
  "isTextLike ctype \<longleftrightarrow> HasPrefix ctype ''text/'' \<or> HasPrefix ctype ''application/json'' \<or> HasPrefix ctype ''application/xml''
     \<or> HasPrefix ctype ''application/javascript''"

definition preview_lines :: "string \<Rightarrow> (int \<times> string) list" where
  "preview_lines content =
     (let lines = Split (CHR 0x0A) content;
          lines = (if lines \<noteq> [] \<and> last lines = '''' then butlast lines else lines)
      in map (\<lambda>i. (int i + 1, lines ! i)) [0..<length lines])"

text \<open>
  The head is read once to sniff the type, errors ignored; then the file is read again from the start. A raw answer that cannot
  be read ends after its headers.
\<close>

definition file_size :: "node \<Rightarrow> nat" where
  "file_size info = (case info of FileN b t \<Rightarrow> length b | DirN t \<Rightarrow> 0)"

definition serveWorkspaceFile :: "Options \<Rightarrow> string \<Rightarrow> int \<Rightarrow> string list \<Rightarrow> path \<Rightarrow> node \<Rightarrow> web \<Rightarrow> Response \<times> web" where
  "serveWorkspaceFile opts jobName buildNum sub absPath info =
     with_disk (followed opts os_Open absPath) (\<lambda>res. case res of
       Inl e \<Rightarrow> reply (http_Error (''open: '' @ opt_error opts e) 500)
     | Inr _ \<Rightarrow> with_disk (followed opts f_ReadAll absPath) (\<lambda>res2.
         let content = (case res2 of Inl _ \<Rightarrow> '''' | Inr b \<Rightarrow> b); ctype = opt_detect opts (take 512 content) in
         if file_size info > workspaceTextPreviewMax \<or> \<not> isTextLike ctype
         then reply \<lparr>rs_status = 200, rs_location = '''', set_cookie = None, rs_body = Raw ctype content\<rparr>
         else (case res2 of
             Inl e \<Rightarrow> reply (http_Error (''read: '' @ opt_error opts e) 500)
           | Inr _ \<Rightarrow> reply (render (PreviewPage \<lparr>pv_JobName = jobName, pv_BuildNum = buildNum, pv_SubPath = slashed sub,
                pv_Lines = preview_lines content, pv_Parent = ws_base jobName buildNum @ path_Dir sub,
                pv_BuildURL = build_url jobName buildNum\<rparr>)))))"

definition ws_root :: "path \<Rightarrow> string \<Rightarrow> int \<Rightarrow> path" where
  "ws_root root jobName buildNum = join_path root [''builds'', jobName, Itoa buildNum, ''workspace'']"

definition handleWorkspace :: "Options \<Rightarrow> Request \<Rightarrow> string \<Rightarrow> int \<Rightarrow> string \<Rightarrow> web \<Rightarrow> Response \<times> web" where
  "handleWorkspace opts r jobName buildNum sub =
     (if \<not> validJobName jobName then reply (http_Error ''invalid job name'' 400)
      else if buildNum < 1 then reply (http_Error ''invalid build number'' 400)
      else if HasPrefix sub ''/'' then reply (http_Error ''absolute paths are not allowed'' 400)
      else if list_ex (\<lambda>seg. seg = ''..'') (Split (CHR ''/'') sub) then reply (http_Error ''path traversal is not allowed'' 400)
      else let cleaned = clean_sub sub; absRoot = ws_root (opt_root opts) jobName buildNum;
               absTarget = join_path absRoot [slashed cleaned] in
        if absTarget \<noteq> absRoot \<and> \<not> HasPrefix (path_string absTarget) (path_string absRoot @ ''/'')
        then reply (http_Error ''path escapes workspace'' 400)
        else with_disk (followed opts os_Stat absTarget) (\<lambda>res. case res of
            Inl e \<Rightarrow> if errors_Is e ErrNotExist then reply http_NotFound else reply (http_Error (''stat: '' @ opt_error opts e) 500)
          | Inr info \<Rightarrow>
              if node_dir info then renderWorkspaceListing opts jobName buildNum cleaned absTarget
              else serveWorkspaceFile opts jobName buildNum cleaned absTarget info))"

end
