(* ===== verification/WebWork.thy ===== *)
theory WebWork
  imports WebJobs
begin

text \<open>
  What the job pages guarantee: the workspace browser reads nothing outside the build's workspace and changes nothing, a rebuild
  after a rename goes to the old name, and what the create page lets through.
\<close>

section \<open>The workspace browser\<close>

text \<open>\<open>same_below r v w\<close>: the two disks agree at and below \<open>r\<close>, faults included.\<close>

definition same_below :: "path \<Rightarrow> world \<Rightarrow> world \<Rightarrow> bool" where
  "same_below r v w \<longleftrightarrow> (\<forall>q. prefix r q \<longrightarrow> fs_get v q = fs_get w q \<and> (\<forall>op. fault v op q = fault w op q))"

lemma same_belowD:
  assumes "same_below r v w" "prefix r q"
  shows "fs_get v q = fs_get w q" "fault v op q = fault w op q"
  using assms by (auto simp: same_below_def)

lemma same_below_entries: "same_below r v w \<Longrightarrow> prefix r q \<Longrightarrow> entry_names v q = entry_names w q"
proof -
  assume "same_below r v w" "prefix r q"
  then have "set (entry_names v q) = set (entry_names w q)"
    by (simp add: set_eq_iff set_entry_names same_belowD(1) prefix_prefix)
  then show ?thesis using sorted_entry_names by (metis sorted_distinct_set_unique)
qed

lemma same_below_reads:
  assumes "same_below r v w" "prefix r q" "r \<noteq> []"
  shows "fst (os_Stat q v) = fst (os_Stat q w)" "fst (os_Open q v) = fst (os_Open q w)"
    "fst (f_ReadAll q v) = fst (f_ReadAll q w)" "fst (os_ReadDir q v) = fst (os_ReadDir q w)"
    "file_at v (q @ s) = file_at w (q @ s)"
proof -
  note d = same_belowD [OF assms(1)] 
  show "fst (os_Stat q v) = fst (os_Stat q w)" "fst (os_Open q v) = fst (os_Open q w)" "fst (f_ReadAll q v) = fst (f_ReadAll q w)"
    using d [OF assms(2)] by (auto simp: os_Stat_def os_Open_def f_ReadAll_def split: option.splits node.splits)
  have q: "q \<noteq> []" using assms(2,3) by auto
  have "is_dir v (q @ s) = is_dir w (q @ s)" "file_at v (q @ s) = file_at w (q @ s)" for s
    using d [of "q @ s"] assms(2) q by (auto simp: is_dir_def file_at_def prefix_prefix)
  from this [of s] this [of "[]"] this [of "[_]"] show "fst (os_ReadDir q v) = fst (os_ReadDir q w)" "file_at v (q @ s) = file_at w (q @ s)"
    using d [OF assms(2)] same_below_entries [OF assms(1,2)] by (auto simp: os_ReadDir_def)
qed

lemma read_only_calls:
  "snd (os_Stat p w) = w" "snd (os_Open p w) = w" "snd (f_ReadAll p w) = w" "snd (os_ReadDir p w) = w"
  by (auto simp: os_Stat_def os_Open_def f_ReadAll_def os_ReadDir_def split: option.splits node.splits)

lemma read_only_dir: "snd (os_ReadDir_at p w) = w" "fst (os_ReadDir_at p w) = map_sum id (Pair p) (fst (os_ReadDir p w))"
  using read_only_calls(4) [of p w] by (auto simp: os_ReadDir_at_def io_defs split: prod.splits sum.splits)

text \<open>
  \<open>links_confined opts r v w\<close>: on the disk \<open>v\<close> no symbolic link at or below \<open>r\<close> leads out of \<open>r\<close>, and the links there lead on \<open>w\<close>
  where they lead on \<open>v\<close>.
\<close>

definition links_confined :: "Options \<Rightarrow> path \<Rightarrow> world \<Rightarrow> world \<Rightarrow> bool" where
  "links_confined opts r v w \<longleftrightarrow>
     (\<forall>p. prefix r p \<longrightarrow> opt_resolve opts w p = opt_resolve opts v p \<and> (\<forall>q. opt_resolve opts v p = Inr q \<longrightarrow> prefix r q))"

lemma followed_read: "(\<And>q. snd (m q w) = w) \<Longrightarrow> snd (followed opts m p w) = w"
  by (simp add: followed_def split: sum.split)

lemma followed_same:
  assumes "links_confined opts r v w" "prefix r p" "\<And>q. prefix r q \<Longrightarrow> fst (m q v) = fst (m q w)"
  shows "fst (followed opts m p v) = fst (followed opts m p w)"
  using assms by (auto simp: followed_def links_confined_def split: sum.split)

lemma with_disk_read: "snd (m (wb_disk s)) = wb_disk s \<Longrightarrow> with_disk m k s = k (fst (m (wb_disk s))) s"
  by (cases "m (wb_disk s)") (simp add: with_disk_def)

lemmas ws_calls = with_disk_read [of "followed _ os_Stat _", OF followed_read [OF read_only_calls(1)]]
  with_disk_read [of "followed _ os_Open _", OF followed_read [OF read_only_calls(2)]]
  with_disk_read [of "followed _ f_ReadAll _", OF followed_read [OF read_only_calls(3)]]
  with_disk_read [of "followed _ os_ReadDir_at _", OF followed_read [OF read_only_dir(1)]]

lemma clean_comp_grows: "s \<noteq> ''..'' \<Longrightarrow> prefix acc (clean_comp acc s)"
  by (simp add: clean_comp_def)

lemma foldl_clean_grows: "''..'' \<notin> set ss \<Longrightarrow> prefix acc (foldl clean_comp acc ss)"
proof (induction ss arbitrary: acc)
  case (Cons s ss)
  then show ?case using clean_comp_grows [of s acc] by (metis foldl_Cons list.set_intros(1,2) prefix_order.trans)
qed simp

lemma foldl_clean_app: "''..'' \<notin> set ss \<Longrightarrow> foldl clean_comp acc ss = acc @ foldl clean_comp [] ss"
proof (induction ss rule: rev_induct)
  case (snoc s ss)
  then show ?case by (auto simp: clean_comp_def)
qed simp

lemma clean_sub_safe: "\<not> list_ex (\<lambda>seg. seg = ''..'') (Split (CHR ''/'') sub) \<Longrightarrow> list_all safe_name (clean_sub sub)"
proof -
  have "CHR ''/'' \<notin> set s" if "s \<in> set (Split (CHR ''/'') sub)" for s using that by (rule Split_no_sep_in)
  then have "list_all safe_name acc \<Longrightarrow> \<not> list_ex (\<lambda>seg. seg = ''..'') ss \<Longrightarrow> set ss \<subseteq> set (Split (CHR ''/'') sub)
      \<Longrightarrow> list_all safe_name (foldl clean_comp acc ss)" for acc ss
    by (induction ss arbitrary: acc) (auto simp: clean_comp_def safe_name_def)
  then show "\<not> list_ex (\<lambda>seg. seg = ''..'') (Split (CHR ''/'') sub) \<Longrightarrow> ?thesis" by (simp add: clean_sub_def)
qed

lemma Split_app: "c \<notin> set x \<Longrightarrow> Split c (x @ c # r) = x # Split c r"
  by (induction x) auto

lemma Split_slashed: "cs \<noteq> [] \<Longrightarrow> list_all safe_name cs \<Longrightarrow> Split (CHR ''/'') (slashed cs) = cs"
proof (induction cs)
  case (Cons x cs)
  then have "CHR ''/'' \<notin> set x" by (simp add: safe_name_def)
  with Cons show ?case by (cases "cs = []") (simp_all add: slashed_def Split_no_sep Split_app)
qed simp

lemma ws_target: "list_all safe_name cs \<Longrightarrow> join_path root [slashed cs] = root @ cs"
proof (cases "cs = []")
  case False
  assume "list_all safe_name cs"
  then have "foldl clean_comp acc cs = acc @ cs" for acc by (induction cs arbitrary: acc) simp_all
  with False \<open>list_all safe_name cs\<close> show ?thesis by (simp add: join_path_def Split_slashed)
qed (simp add: join_path_def slashed_def clean_comp_def)


lemma listing_same:
  assumes "same_below r (wb_disk s) (wb_disk t)" "links_confined opts r (wb_disk s) (wb_disk t)" "prefix r p" "r \<noteq> []"
  shows "fst (renderWorkspaceListing opts job n c p t) = fst (renderWorkspaceListing opts job n c p s)"
proof (cases "opt_resolve opts (wb_disk s) p")
  case (Inl e)
  then have "opt_resolve opts (wb_disk t) p = Inl e" using assms(2,3) by (simp add: links_confined_def)
  with Inl show ?thesis by (simp add: renderWorkspaceListing_def ws_calls followed_def Let_def)
next
  case (Inr q)
  then have t: "opt_resolve opts (wb_disk t) p = Inr q" and q: "prefix r q" using assms(2,3) by (simp_all add: links_confined_def)
  note same = same_below_reads [OF assms(1) q assms(4)]
  show ?thesis
    using same(4,5) by (cases "fst (os_ReadDir q (wb_disk t))") (auto simp: renderWorkspaceListing_def ws_calls followed_def read_only_dir(2) Inr t Let_def)
qed

lemma workspace_effects:
  assumes "handleWorkspace opts r job n sub s = (rsp, s')"
  shows "s' = s"
    and "rs_status rsp = 200 \<Longrightarrow> validJobName job \<and> n \<ge> 1 \<and> list_all safe_name (clean_sub sub) \<and>
           join_path (ws_root (opt_root opts) job n) [slashed (clean_sub sub)] = ws_root (opt_root opts) job n @ clean_sub sub"
    and "same_below (ws_root (opt_root opts) job n) (wb_disk s) (wb_disk t) \<Longrightarrow>
           links_confined opts (ws_root (opt_root opts) job n) (wb_disk s) (wb_disk t) \<Longrightarrow> fst (handleWorkspace opts r job n sub t) = rsp"
proof -
  let ?rt = "ws_root (opt_root opts) job n" and ?cs = "clean_sub sub"
  have rdir: "snd (renderWorkspaceListing opts job n c p u) = u" for c p u
    by (simp add: renderWorkspaceListing_def ws_calls Let_def split: sum.split)
  have rfile: "snd (serveWorkspaceFile opts job n c p i u) = u" for c p i u
    by (simp add: serveWorkspaceFile_def ws_calls Let_def reply_def split: sum.split)
  have snd: "snd (handleWorkspace opts r job n sub u) = u" for u
    by (simp add: handleWorkspace_def ws_calls Let_def reply_def rdir rfile split: sum.split)
  from this [of s] assms show "s' = s" by simp
  show "rs_status rsp = 200 \<Longrightarrow> validJobName job \<and> n \<ge> 1 \<and> list_all safe_name ?cs \<and> join_path ?rt [slashed ?cs] = ?rt @ ?cs"
    using assms clean_sub_safe [of sub] ws_target [of ?cs ?rt]
    by (auto simp: handleWorkspace_def Let_def reply_def http_Error_def split: if_splits)
  assume eq: "same_below ?rt (wb_disk s) (wb_disk t)" and links: "links_confined opts ?rt (wb_disk s) (wb_disk t)"
  show "fst (handleWorkspace opts r job n sub t) = rsp"
  proof (cases "validJobName job \<and> n \<ge> 1 \<and> \<not> list_ex (\<lambda>seg. seg = ''..'') (Split (CHR ''/'') sub)")
    case False
    then show ?thesis using assms by (auto simp: handleWorkspace_def Let_def reply_def)
  next
    case True
    have "safe_name ''workspace''" by (simp add: safe_name_def)
    with True have rt: "?rt \<noteq> []" by (simp add: ws_root_def join_path_safe validJobName_safe)
    have tgt: "join_path ?rt [slashed ?cs] = ?rt @ ?cs" using True by (simp add: clean_sub_safe ws_target)
    have same: "fst (followed opts os_Stat (?rt @ ?cs) (wb_disk s)) = fst (followed opts os_Stat (?rt @ ?cs) (wb_disk t))"
      "fst (followed opts os_Open (?rt @ ?cs) (wb_disk s)) = fst (followed opts os_Open (?rt @ ?cs) (wb_disk t))"
      "fst (followed opts f_ReadAll (?rt @ ?cs) (wb_disk s)) = fst (followed opts f_ReadAll (?rt @ ?cs) (wb_disk t))"
      using same_below_reads [OF eq _ rt] by (simp_all add: followed_same [OF links])
    have "fst (renderWorkspaceListing opts job n c (?rt @ ?cs) t) = fst (renderWorkspaceListing opts job n c (?rt @ ?cs) s)" for c
      by (rule listing_same [OF eq links _ rt]) simp
    moreover have "fst (serveWorkspaceFile opts job n c (?rt @ ?cs) i s) = fst (serveWorkspaceFile opts job n c (?rt @ ?cs) i t)" for c i
      using same by (simp add: serveWorkspaceFile_def ws_calls Let_def reply_def split: sum.split)
    ultimately have "fst (handleWorkspace opts r job n sub s) = fst (handleWorkspace opts r job n sub t)"
      using same by (simp add: handleWorkspace_def ws_calls Let_def reply_def tgt split: sum.split)
    with assms show ?thesis by simp
  qed
qed

text \<open>
  C13. The workspace browser is confined as far as the path goes: a request changes nothing on the server, the path it opens lies at
  or below the workspace of the build whatever the path in the URL, and, as long as no symbolic link in that workspace leads out
  of it, two servers whose disks and links agree at and below the workspace answer it alike. The browser does follow links: one
  that a build left there and that leads out of the workspace shows what it points to (\<open>workspace_follows_links\<close>).
\<close>

theorem workspace_confined:
  assumes "handleWorkspace opts r job n sub s = (rsp, s')"
  defines "W \<equiv> ws_root (opt_root opts) job n"
  shows "s' = s \<and>
    (rs_status rsp = 200 \<longrightarrow> validJobName job \<and> n \<ge> 1 \<and> list_all safe_name (clean_sub sub) \<and>
       join_path W [slashed (clean_sub sub)] = W @ clean_sub sub) \<and>
    (\<forall>t. same_below W (wb_disk s) (wb_disk t) \<and> links_confined opts W (wb_disk s) (wb_disk t) \<longrightarrow>
       fst (handleWorkspace opts r job n sub t) = rsp)"
  using workspace_effects [OF assms(1)] unfolding W_def by blast

lemma path_string_below: "p \<noteq> [] \<Longrightarrow> q \<noteq> [] \<Longrightarrow> HasPrefix (path_string (p @ q)) (path_string p @ ''/'')"
  by (cases q) (simp_all add: path_string_def HasPrefix_def)

text \<open>
  A link out of the workspace is followed: the content that answers the request is the one of the file the link leads to, wherever
  that lies.
\<close>

theorem workspace_follows_links:
  assumes "validJobName job" "n \<ge> 1" "\<not> list_ex (\<lambda>seg. seg = ''..'') (Split (CHR ''/'') sub)" "\<not> HasPrefix sub ''/''"
    and "opt_resolve opts (wb_disk s) (ws_root (opt_root opts) job n @ clean_sub sub) = Inr q"
    and "file_at (wb_disk s) q = Some b" "no_faults (wb_disk s)"
  shows "rs_body (fst (handleWorkspace opts r job n sub s)) = Raw (opt_detect opts (take 512 b)) b \<or>
    (\<exists>v. rs_body (fst (handleWorkspace opts r job n sub s)) = Html (PreviewPage v) \<and> pv_Lines v = preview_lines b)"
proof -
  let ?W = "ws_root (opt_root opts) job n"
  have tgt: "join_path ?W [slashed (clean_sub sub)] = ?W @ clean_sub sub" using assms(3) by (simp add: clean_sub_safe ws_target)
  obtain t where f: "fs_get (wb_disk s) q = Some (FileN b t)" using assms(6) by (auto simp: file_at_def split: option.splits node.splits)
  have io: "os_Stat q (wb_disk s) = (Inr (FileN b t), wb_disk s)" "fst (os_Open q (wb_disk s)) = Inr ()" "fst (f_ReadAll q (wb_disk s)) = Inr b"
    using f assms(7) by (auto simp: os_Stat_def os_Open_def f_ReadAll_def no_faults_def)
  have "safe_name ''workspace''" by (simp add: safe_name_def)
  with assms(1) have ne: "?W \<noteq> []" by (simp add: ws_root_def join_path_safe validJobName_safe)
  have pre: "clean_sub sub = [] \<or> HasPrefix (path_string (?W @ clean_sub sub)) (path_string ?W @ ''/'')" using path_string_below [OF ne] by blast
  have stat: "handleWorkspace opts r job n sub s = serveWorkspaceFile opts job n (clean_sub sub) (?W @ clean_sub sub) (FileN b t) s"
    using assms(1-5) io(1) pre by (auto simp add: handleWorkspace_def Let_def tgt ws_calls followed_def)
  show ?thesis using assms(5) io by (auto simp: stat serveWorkspaceFile_def ws_calls followed_def Let_def reply_def render_def)
qed


section \<open>A rebuild after a rename\<close>

lemma map_of_rebase_source:
  "\<not> prefix p q \<Longrightarrow> \<not> prefix q p \<Longrightarrow> map_of (map (\<lambda>(r, x). (rebase p q r, x)) al) (p @ t) = None"
proof (induction al)
  case (Cons a al)
  obtain r x where a: "a = (r, x)" by (cases a)
  have "rebase p q r \<noteq> p @ t"
    using Cons.prems by (auto simp: rebase_def append_eq_append_conv2 prefix_def)
  with Cons show ?case by (simp add: a)
qed simp

lemma Rename_source_gone:
  assumes "os_Rename p q w = (Inr u, w')" "\<not> prefix p q" "\<not> prefix q p"
  shows "fs_get w' (p @ t) = None"
proof -
  from assms(1,2) obtain al where "w' = w\<lparr>files := map (\<lambda>(r, x). (rebase p q r, x)) al\<rparr>"
    by (auto simp: os_Rename_def split: if_splits option.splits)
  with map_of_rebase_source [OF assms(2,3)] show ?thesis by (simp add: fs_get_def)
qed

lemma RenameJob_moves_builds:
  assumes "RenameJob c root old new w = (Inr (), w')" "safe_name old" "safe_name new" "old \<noteq> new" "no_faults w"
    and fresh: "\<And>r. fs_get w (root @ ''builds'' # new # r) = None" and "fs_get w (root @ [''builds'', old]) \<noteq> None"
  shows "fs_get w' (root @ ''builds'' # old # r) = None" "fs_get w' (root @ ''builds'' # new # r) = fs_get w (root @ ''builds'' # old # r)"
    "no_faults w'"
proof -
  from RenameJob_phases [OF assms(1-5)] obtain j w1 w2 where ph:
    "SaveJob c root (Some (j\<lparr>Name := new\<rparr>)) w = (Inr (), w1)" "DeleteJob root old w1 = (Inr (), w2)"
    "fs_get w2 (root @ [''builds'', old]) = None \<and> w' = w2
       \<or> os_Rename (root @ [''builds'', old]) (root @ [''builds'', new]) w2 = (Inr (), w')" by blast
  have e1: "\<And>r. fs_get w1 (root @ ''builds'' # r) = fs_get w (root @ ''builds'' # r)" "no_faults w1"
    using SaveJob_frame_builds [OF ph(1)] assms(3,5) SaveJob_effect [OF ph(1)] by (auto simp: no_faults_def)
  have rm: "os_RemoveAll (root @ [''jobs'', old]) w1 = (Inr (), w2)"
    using ph(2) DeleteJob_effect [OF e1(2) assms(2)] by (auto split: if_splits)
  note g = RemoveAll_get [OF rm]
  have b2: "fs_get w2 (root @ ''builds'' # r) = fs_get w (root @ ''builds'' # r)" for r
    using g [of "root @ ''builds'' # r"] e1(1) by (auto simp: prefix_def)
  have mv: "os_Rename (root @ [''builds'', old]) (root @ [''builds'', new]) w2 = (Inr (), w')"
    using ph(3) b2 [of "[old]"] assms(7) by auto
  show "fs_get w' (root @ ''builds'' # old # r) = None"
    using Rename_source_gone [OF mv, of r] assms(4) by (simp add: prefix_def)
  show "fs_get w' (root @ ''builds'' # new # r) = fs_get w (root @ ''builds'' # old # r)"
    using Rename_effect(2) [OF mv, of r] b2 [of "old # r"] b2 [of "new # _"] fresh assms(4) by simp
  show "no_faults w'" using Rename_effect(4) [OF mv] g e1(2) assms(4) by (auto simp: no_faults_def)
qed


text \<open>
  C40. A rebuild does not follow a rename. \<^verbatim>\<open>RenameJob\<close> moves the builds but leaves the name inside their spec snapshots, and the
  rebuild page enqueues the snapshot as it is: after a successful rename the queued build belongs to the old name, whose
  numbering starts again at 1, and the browser is sent to build 1 of the new name, another build or none.
\<close>

theorem rebuild_after_rename:
  assumes "RenameJob (opt_codec opts) (opt_root opts) old new w = (Inr (), wb_disk s)" "no_faults w"
    and names: "safe_name old" "safe_name new" "old \<noteq> new"
    and "\<And>p. fs_get w (opt_root opts @ ''builds'' # new # p) = None" "fs_get w (opt_root opts @ [''builds'', old]) \<noteq> None"
    and snap: "Option.bind (file_at w (snapshot_path (opt_root opts) old n)) (job_dec (opt_codec opts)) = Some spec" "Name spec = old"
    and latest: "findMostRecentBuild (opt_result opts) (opt_root opts) new (wb_disk s) = (Inr n, wb_disk s)"
    and req: "QueryGet r ''spec'' \<noteq> ''current''" "handleJobRebuild opts r new s = (rsp, s')" "rs_status rsp = 303"
  shows "\<exists>q. queue (wb_sched s') = queue (wb_sched s) @ [q] \<and> Name (qj_job q) = old \<and> qj_num q = 1 \<and> rs_location rsp = build_url new 1"
proof -
  let ?R = "opt_root opts" and ?c = "opt_codec opts"
  note mv = RenameJob_moves_builds [OF assms(1) names assms(2) assms(6,7)]
  have "file_at (wb_disk s) (snapshot_path ?R new n) = file_at w (snapshot_path ?R old n)"
    using mv(2) [of "[Itoa n, ''spec.yaml'']"] by (simp add: file_at_def snapshot_path_def)
  with snap LoadSpecSnapshot_iff [OF mv(3) names(2), of ?c ?R n] have ld: "n \<ge> 1 \<Longrightarrow> LoadSpecSnapshot ?c ?R new n (wb_disk s) = (Inr spec, wb_disk s)"
    by simp
  have n: "n \<ge> 1"
    using req latest LoadSpecSnapshot_iff [OF mv(3) names(2), of ?c ?R n] ld
    by (auto simp: handleJobRebuild_def with_disk_def reply_def http_Error_def LoadSpecSnapshot_def raiseIO_def split: if_splits)
  with req latest ld have enq: "enqueue_and_redirect opts new spec s = (rsp, s')"
    by (auto simp: handleJobRebuild_def with_disk_def reply_def http_Error_def split: if_splits)
  then obtain q sd where al: "alloc_build ?c ?R (Some spec) None (wb_sched s) = (Inr q, sd)"
    and out: "rsp = http_Redirect (build_url new (qj_num q))" "wb_sched s' = append_queue q sd"
    using req(3) by (auto simp: enqueue_and_redirect_def run_job_def Enqueue_def enqueueWithParent_def http_Error_def
        split: prod.splits sum.splits)
  have q: "qj_job q = spec" "queue sd = queue (wb_sched s)"
    using al by (auto simp: alloc_build_def Let_def split: option.splits if_splits prod.splits sum.splits)
  have "file_at (wb_disk s) (counter_path ?R old) = None"
    using mv(1) [of "[''.next-build-number'']"] names(1) by (simp add: counter_path_def join_path_safe file_at_def)
  then have "qj_num q = 1"
    using alloc_build_Inr(1) [OF al mv(3)] q(1) snap(2) by (simp add: counter_def go_int_def)
  with q out snap(2) show ?thesis by (simp add: append_queue_def http_Redirect_def)
qed


section \<open>The create page\<close>

lemma form_page_status: "rs_status (fst (renderJobForm opts n spec e v j s)) = 200"
  by (simp add: renderJobForm_def renderJobFormFull_def with_disk_def render_def split: prod.split)

lemma form_page_body:
  "\<exists>p. rs_body (fst (renderJobForm opts n spec e v j s)) = Html (JobFormPage p) \<and> jf_Job p = j \<and> jf_Spec p = spec"
proof -
  obtain creds w where "credentialOptions opts (wb_disk s) = (creds, w)" by (metis surj_pair)
  then show ?thesis by (simp add: renderJobForm_def renderJobFormFull_def with_disk_def render_def)
qed

lemma handleJobCreate_saves:
  assumes "handleJobCreate opts r s = (rsp, s')" "rs_status rsp = 303"
  shows "\<exists>j spec. parseJobFromRequest opts r (detectPostView r) = (Some j, spec, None) \<and> Name j \<noteq> '''' \<and>
    SaveJob (opt_codec opts) (opt_root opts) (Some j) (wb_disk s) = (Inr (), wb_disk s') \<and> s' = set_disk (wb_disk s') s \<and>
    isl (fst (LoadJob (opt_codec opts) (opt_root opts) (Name j) (wb_disk s)))"
proof -
  let ?c = "opt_codec opts" and ?R = "opt_root opts" and ?h = "fst (handleJobCreate opts r s)"
  obtain oj spec oe where p: "parseJobFromRequest opts r (detectPostView r) = (oj, spec, oe)" by (metis surj_pair)
  have st: "rs_status ?h = 303" using assms by simp
  note sts = form_page_status reply_def bad_request_def http_Error_def panicked_def
  have ok: "parse_ok r" using st by (rule contrapos_pp) (simp add: handleJobCreate_def sts)
  note run = handleJobCreate_def Let_def p ok
  have "oe = None" using st by (cases oe; cases oj) (simp_all add: run sts)
  moreover have "oj \<noteq> None" using st by (rule contrapos_pn) (use calculation in \<open>simp add: run sts\<close>)
  ultimately obtain j where j: "oj = Some j" "oe = None" by blast
  have nm: "Name j \<noteq> ''''" using st by (rule contrapos_pn) (simp add: run j sts)
  obtain l where l: "LoadJob ?c ?R (Name j) (wb_disk s) = (l, wb_disk s)" by (metis LoadJob_world surj_pair)
  have isl: "isl l" using st by (cases l) (simp_all add: run j nm l with_disk_def sts)
  obtain q w' where q: "SaveJob ?c ?R (Some j) (wb_disk s) = (q, w')" by (metis surj_pair)
  obtain u where "q = Inr u" using st isl by (cases q; cases l) (simp_all add: run j nm l q with_disk_def sts)
  then have "handleJobCreate opts r s = (http_Redirect ''/jobs'', set_disk w' s)"
    using isl by (cases l) (simp_all add: run j nm l q with_disk_def reply_def)
  with assms p j nm l isl q \<open>q = Inr u\<close> show ?thesis by auto
qed

text \<open>
  C15. The create page, given a job whose name is a plain file name, adds that job and nothing else: on a disk without faults, when it answers
  with the redirect, no spec could be read under the name before, the specs on disk are the old ones and the new one, each
  under its own name, with an acyclic trigger graph, and the edit page of the new name shows the spec back. The handler does not
  check that the posted name is a plain one: with \<^verbatim>\<open>../../x\<close> it writes outside the storage root (\<open>create_escapes_root\<close>).
\<close>

theorem create_then_edit:
  assumes "store_ok (opt_codec opts) (opt_root opts) (wb_disk s)" "no_faults (wb_disk s)"
    and "handleJobCreate opts r s = (rsp, s')" "rs_status rsp = 303"
    and "parseJobFromRequest opts r (detectPostView r) = (Some j, spec, e)" "safe_name (Name j)" "yaml_roundtrip (opt_codec opts) j"
  shows "disk_job (opt_codec opts) (opt_root opts) (wb_disk s) (Name j) = None \<and> store_ok (opt_codec opts) (opt_root opts) (wb_disk s') \<and>
    jobs_on_disk (opt_codec opts) (opt_root opts) (wb_disk s') = jobs_on_disk (opt_codec opts) (opt_root opts) (wb_disk s) \<union> {j} \<and>
    (\<exists>v. rs_body (fst (handleJobEditGet opts q (Name j) s')) = Html (JobFormPage v) \<and> jf_Job v = Some j \<and> jf_Spec v = job_enc (opt_codec opts) j)"
proof -
  let ?c = "opt_codec opts" and ?R = "opt_root opts"
  from handleJobCreate_saves [OF assms(3,4)] assms(5) have sv: "SaveJob ?c ?R (Some j) (wb_disk s) = (Inr (), wb_disk s')"
    and ld: "isl (fst (LoadJob ?c ?R (Name j) (wb_disk s)))" and nm: "Name j \<noteq> ''''" by auto
  have none: "disk_job ?c ?R (wb_disk s) (Name j) = None"
    using ld LoadJob_ok [OF assms(2) nm] by (cases "disk_job ?c ?R (wb_disk s) (Name j)") auto
  note ok = SaveJob_store_ok_aux [OF assms(1,2,6,7) sv]
  have "Name i \<noteq> Name j"
    if "i \<in> jobs_on_disk ?c ?R (wb_disk s)" for i
  proof -
    from that obtain n where n: "n \<in> job_dirs ?R (wb_disk s)" "disk_job ?c ?R (wb_disk s) n = Some i" unfolding jobs_on_disk_def by blast
    with store_okD(3) [OF assms(1)] none show ?thesis by (metis option.distinct(1))
  qed
  then have jobs: "jobs_on_disk ?c ?R (wb_disk s') = jobs_on_disk ?c ?R (wb_disk s) \<union> {j}" using ok by auto
  have "disk_job ?c ?R (wb_disk s') (Name j) = Some j"
    using SaveJob_disk_job [OF sv assms(6,6)] assms(7) by (simp add: yaml_roundtrip_def)
  moreover have "no_faults (wb_disk s')" using SaveJob_effect [OF sv] assms(2) by (simp add: no_faults_def)
  ultimately have "LoadJob ?c ?R (Name j) (wb_disk s') = (Inr j, wb_disk s')" using nm by (intro LoadJob_ok) auto
  then have "handleJobEditGet opts q (Name j) s' = renderJobForm opts (Name j) (job_enc ?c j) '''' (normalizeView (QueryGet q ''view'')) (Some j) s'"
    by (simp add: handleJobEditGet_def with_disk_def)
  then have "\<exists>v. rs_body (fst (handleJobEditGet opts q (Name j) s')) = Html (JobFormPage v) \<and> jf_Job v = Some j \<and> jf_Spec v = job_enc ?c j"
    by (simp only: form_page_body)
  with none ok jobs show ?thesis by blast
qed

text \<open>
  The name of a new job is not checked: \<^verbatim>\<open>handleJobCreate\<close> and \<^verbatim>\<open>SaveJob\<close> take any non-empty name, so a spec named
  \<^verbatim>\<open>../../x\<close> is written beside the storage root, over whatever \<^verbatim>\<open>job.yaml\<close> was there.
\<close>

theorem create_escapes_root:
  assumes "handleJobCreate opts r s = (rsp, s')" "rs_status rsp = 303"
    and "parseJobFromRequest opts r (detectPostView r) = (Some j, spec, e)"
    and "Name j = ''../../'' @ x" "safe_name x" "opt_root opts = R @ [d]" "x \<noteq> d"
  shows "file_at (wb_disk s') (R @ [x, ''job.yaml'']) = Some (job_enc (opt_codec opts) j) \<and> \<not> prefix (opt_root opts) (R @ [x, ''job.yaml''])"
proof -
  have "Split (CHR ''/'') (''../../'' @ x) = [''..'', ''..'', x]" "Split (CHR ''/'') ''jobs'' = [''jobs'']"
      "Split (CHR ''/'') ''job.yaml'' = [''job.yaml'']"
    using assms(5) Split_no_sep [of "CHR ''/''" x] by (simp_all add: safe_name_def)
  then have "JobPath (opt_root opts) (Name j) = R @ [x, ''job.yaml'']"
    using assms(5,6) by (simp add: JobPath_def join_path_def assms(4) clean_comp_def safe_name_def butlast_append)
  then show ?thesis
    using handleJobCreate_saves [OF assms(1,2)] assms(3,6,7) SaveJob_file_at [of "opt_codec opts" "opt_root opts" j "wb_disk s"] by auto
qed


lemma scan_row_world: "scan_row rdec b n k w = (r, w') \<Longrightarrow> w' = w"
  by (auto simp: scan_row_def Let_def io_defs dest!: ReadFile_world split: prod.splits sum.splits)
    (auto simp: os_Stat_def split: if_splits option.splits)

lemma scan_entries_world: "scan_entries rdec b es w = (r, w') \<Longrightarrow> w' = w"
proof (induction es arbitrary: r w')
  case (Cons e es)
  then show ?case
    by (cases e) (auto simp: io_defs dest: scan_row_world split: if_splits option.splits prod.splits sum.splits)
qed (simp add: returnIO_def)

lemma findMostRecentBuild_world: "findMostRecentBuild rdec root n w = (r, w') \<Longrightarrow> w' = w"
  by (auto simp: findMostRecentBuild_def scanAllBuilds_def Let_def io_defs dest!: scan_entries_world handle_noop(6)
      split: prod.splits sum.splits if_splits)

section \<open>Evaluated instances\<close>

definition demo_opts :: Options where
  "demo_opts = \<lparr>opt_root = demo_root, opt_codec = demo_codec, opt_form = demo_form, opt_pcodec = demo_pcodec, opt_gce_enc = (\<lambda>c. ProjectID c),
     opt_Auth = ps_cfg demo_passwords, opt_Passwords = demo_passwords, opt_Sessions = demo_sessions, opt_sess = demo_sess_codec,
     opt_wolf = demo_auth, CookieSecure = True, has_AgentSvc = True, has_JobRunner = True, opt_Credstore = None, AgentEndpoint = '''',
     opt_result = demo_rdec, opt_local_day = (\<lambda>t. t div (86400 * second)), opt_parse_time = (\<lambda>s. None), opt_detect = (\<lambda>b. ''text/plain''),
     opt_dir_size = (\<lambda>p. 4096), opt_resolve = (\<lambda>w p. Inr p), opt_static = (\<lambda>r. (200, '''', url_path r)), opt_error = (\<lambda>e. ''error'')\<rparr>"

definition demo_web :: "world \<Rightarrow> web" where
  "demo_web w = \<lparr>wb_sched = newScheduler w, wb_agents = newServer ''1''\<rparr>"

definition get :: "string \<Rightarrow> Request" where
  "get p = \<lparr>req_method = ''GET'', url_path = p, url_query = [], post_form = [], parse_ok = True, cookie = None\<rparr>"

definition post :: "string \<Rightarrow> (string \<times> string) list \<Rightarrow> Request" where
  "post p fs = \<lparr>req_method = ''POST'', url_path = p, url_query = [], post_form = fs, parse_ok = True, cookie = None\<rparr>"

lemma demo_web_disk [simp]: "wb_disk (demo_web w) = w"
  by (simp add: demo_web_def newScheduler_def)

text \<open>Build 1 of \<open>deploy\<close> with its snapshot and a file in its workspace.\<close>

definition demo_built :: world where
  "demo_built = demo_world\<lparr>files := files demo_world @ [([''srv'', ''builds'', ''deploy'', ''1''], DirN 4),
     ([''srv'', ''builds'', ''deploy'', ''1'', ''spec.yaml''], FileN ''deploy'' 4),
     ([''srv'', ''builds'', ''deploy'', ''1'', ''workspace''], DirN 4),
     ([''srv'', ''builds'', ''deploy'', ''1'', ''workspace'', ''a.txt''], FileN ''hi'' 5)]\<rparr>"

lemma demo_built_ok: "no_faults demo_built"
  by (simp add: no_faults_def demo_built_def demo_world_def)

definition demo_outside :: world where
  "demo_outside = demo_built\<lparr>files := ([''srv'', ''secret''], FileN ''s'' 1) # files demo_built\<rparr>"

theorem workspace_confined_witness:
  "fst (handleWorkspace demo_opts (get '''') ''deploy'' 1 ''./'' (demo_web demo_outside))
     = fst (handleWorkspace demo_opts (get '''') ''deploy'' 1 ''./'' (demo_web demo_built))
   \<and> rs_status (fst (handleWorkspace demo_opts (get '''') ''deploy'' 1 ''./'' (demo_web demo_built))) = 200"
proof -
  have "ws_root (opt_root demo_opts) ''deploy'' 1 = [''srv'', ''builds'', ''deploy'', ''1'', ''workspace'']" by code_simp
  then have "same_below (ws_root (opt_root demo_opts) ''deploy'' 1) (wb_disk (demo_web demo_built)) (wb_disk (demo_web demo_outside))"
    by (auto simp: same_below_def fs_get_def demo_outside_def)
  moreover have "links_confined demo_opts (ws_root (opt_root demo_opts) ''deploy'' 1) (wb_disk (demo_web demo_built)) (wb_disk (demo_web demo_outside))"
    by (simp add: links_confined_def demo_opts_def)
  moreover have "rs_status (fst (handleWorkspace demo_opts (get '''') ''deploy'' 1 ''./'' (demo_web demo_built))) = 200" by code_simp
  ultimately show ?thesis
    using workspace_confined [of demo_opts "get ''''" "''deploy''" 1 "''./''" "demo_web demo_built", OF surjective_pairing] by simp
qed

definition demo_renamed :: world where
  "demo_renamed = snd (RenameJob demo_codec demo_root ''deploy'' ''prod'' demo_built)"

theorem rebuild_after_rename_witness:
  "\<exists>q. queue (wb_sched (snd (handleJobRebuild demo_opts (post '''' []) ''prod'' (demo_web demo_renamed)))) = [q] \<and> Name (qj_job q) = ''deploy''
     \<and> qj_num q = 1 \<and> rs_location (fst (handleJobRebuild demo_opts (post '''' []) ''prod'' (demo_web demo_renamed))) = ''/jobs/prod/builds/1''"
proof -
  have r: "opt_codec demo_opts = demo_codec" "opt_root demo_opts = demo_root" "opt_result demo_opts = demo_rdec" by (simp_all add: demo_opts_def)
  have "fst (RenameJob demo_codec demo_root ''deploy'' ''prod'' demo_built) = Inr ()" by code_simp
  then have ren: "RenameJob (opt_codec demo_opts) (opt_root demo_opts) ''deploy'' ''prod'' demo_built = (Inr (), wb_disk (demo_web demo_renamed))"
    by (simp add: r demo_renamed_def prod_eq_iff)
  have fresh: "fs_get demo_built (opt_root demo_opts @ ''builds'' # ''prod'' # p) = None" for p
    by (simp add: r demo_root_def demo_built_def demo_world_def fs_get_def)
  have src: "fs_get demo_built (opt_root demo_opts @ [''builds'', ''deploy'']) \<noteq> None"
    by (simp add: r demo_root_def demo_built_def demo_world_def fs_get_def)
  have snap: "Option.bind (file_at demo_built (snapshot_path (opt_root demo_opts) ''deploy'' 1)) (job_dec (opt_codec demo_opts)) = Some demo_deploy"
    unfolding r by code_simp
  have latest: "findMostRecentBuild (opt_result demo_opts) (opt_root demo_opts) ''prod'' (wb_disk (demo_web demo_renamed)) = (Inr 1, wb_disk (demo_web demo_renamed))"
  proof -
    have "fst (findMostRecentBuild demo_rdec demo_root ''prod'' demo_renamed) = Inr 1" by code_simp
    then show ?thesis using findMostRecentBuild_world by (metis r(2,3) demo_web_disk prod.collapse)
  qed
  have st: "rs_status (fst (handleJobRebuild demo_opts (post '''' []) ''prod'' (demo_web demo_renamed))) = 303" by code_simp
  have "QueryGet (post '''' []) ''spec'' \<noteq> ''current''" by code_simp
  moreover have "build_url ''prod'' 1 = ''/jobs/prod/builds/1''" by code_simp
  moreover have "queue (wb_sched (demo_web demo_renamed)) = []" by (simp add: demo_web_def newScheduler_def)
  ultimately show ?thesis
    using rebuild_after_rename [OF ren demo_built_ok _ _ _ fresh src snap _ latest _ surjective_pairing st] by (simp add: safe_name_def demo_names)
qed

definition demo_evil :: "Job" where "demo_evil = (empty_job ''../../etc'')"

definition evil_opts :: Options where
  "evil_opts = demo_opts\<lparr>opt_root := [''srv'', ''ci''], opt_codec := \<lparr>job_enc = (\<lambda>j. Name j), job_dec = (\<lambda>s. Some (empty_job s))\<rparr>\<rparr>"

theorem create_escapes_root_witness:
  "file_at (wb_disk (snd (handleJobCreate evil_opts (post ''/jobs/new'' [(''spec'', ''../../etc'')]) (demo_web empty_disk)))) [''srv'', ''etc'', ''job.yaml'']
     = Some ''../../etc''"
proof -
  let ?r = "post ''/jobs/new'' [(''spec'', ''../../etc'')]"
  have "rs_status (fst (handleJobCreate evil_opts ?r (demo_web empty_disk))) = 303" by code_simp
  moreover have "parseJobFromRequest evil_opts ?r (detectPostView ?r) = (Some demo_evil, ''../../etc'', None)" by code_simp
  ultimately have "file_at (wb_disk (snd (handleJobCreate evil_opts ?r (demo_web empty_disk)))) ([''srv''] @ [''etc'', ''job.yaml''])
      = Some (job_enc (opt_codec evil_opts) demo_evil) \<and> \<not> prefix (opt_root evil_opts) ([''srv''] @ [''etc'', ''job.yaml''])"
    by (intro create_escapes_root [where d = "''ci''", OF surjective_pairing])
      (simp_all add: demo_evil_def empty_job_def safe_name_def evil_opts_def)
  then show ?thesis by (simp add: evil_opts_def demo_evil_def empty_job_def)
qed


theorem create_then_edit_witness:
  "jobs_on_disk demo_codec demo_root (wb_disk (snd (handleJobCreate demo_opts (post ''/jobs/new'' [(''spec'', ''hello*'')]) (demo_web demo_world))))
     = {demo_deploy, demo_hello}"
proof -
  let ?r = "post ''/jobs/new'' [(''spec'', ''hello*'')]"
  have r: "opt_codec demo_opts = demo_codec" "opt_root demo_opts = demo_root" by (simp_all add: demo_opts_def)
  have "rs_status (fst (handleJobCreate demo_opts ?r (demo_web demo_world))) = 303" by code_simp
  moreover have "parseJobFromRequest demo_opts ?r (detectPostView ?r) = (Some demo_hello, ''hello*'', None)" by code_simp
  moreover have "yaml_roundtrip demo_codec demo_hello" by code_simp
  ultimately show ?thesis
    using create_then_edit [of demo_opts "demo_web demo_world" ?r, OF _ _ surjective_pairing] demo_store_ok demo_no_faults
    by (auto simp: r demo_names demo_jobs safe_name_def)
qed

end
