(* ===== verification/WebNodes.thy ===== *)
theory WebNodes
  imports WebWork Router AgentRun
begin

text \<open>
  The node pages of \<^verbatim>\<open>internal/server/server.go\<close>: the list, the detail page, the pages that add a node (a pending slot, a copy, a
  GCE pool with \<^verbatim>\<open>internal/nodes/gce/config.go\<close>) and the offline switch. The registry's map iteration is the order of its list.
\<close>

section \<open>Formatting\<close>

definition BuiltInNodeDisplayName :: string where "BuiltInNodeDisplayName = ''wolfCI Master Node''"

text \<open>\<open>half_even a b\<close> is \<open>a / b\<close> rounded to the nearest integer, ties to even; \<open>float64\<close> rounds to 53 bits.\<close>

definition half_even :: "int \<Rightarrow> int \<Rightarrow> int" where
  "half_even a b = (let q = a div b; r = a mod b in if 2 * r < b \<or> (2 * r = b \<and> even q) then q else q + 1)"

function float64 :: "int \<Rightarrow> int \<Rightarrow> int" where
  "float64 n u = (if n < 0 \<or> u \<le> 0 \<or> n < 2 ^ 53 * u then half_even n u * u else float64 n (2 * u))"
  by pat_completeness auto
termination by (relation "measure (\<lambda>(n, u). nat (n + 1 - u))") auto

declare float64.simps [simp del]

text \<open>The loop of \<^verbatim>\<open>humanBytes\<close>: the divisor and the suffix index.\<close>

function human_unit :: "int \<Rightarrow> int \<Rightarrow> nat \<Rightarrow> int \<times> nat" where
  "human_unit cur d e = (if cur \<ge> 1024 then human_unit (cur div 1024) (d * 1024) (Suc e) else (d, e))"
  by pat_completeness auto
termination by (relation "measure (\<lambda>(cur, d, e). nat cur)") auto

declare human_unit.simps [simp del]

text \<open>\<^verbatim>\<open>%.1f\<close> of the quotient, which is exact: the divisor is a power of two. Indexing past the suffixes would panic.\<close>

definition humanBytes :: "int \<Rightarrow> string option" where
  "humanBytes n =
     (if n \<le> 0 then Some ''''
      else if n < 1024 then Some (Itoa n @ '' B'')
      else case human_unit (n div 1024) 1024 0 of (d, e) \<Rightarrow>
        if e < 6 then let t = half_even (10 * float64 n 1) d in
          Some (Itoa (t div 10) @ ''.'' @ Itoa (t mod 10) @ '' '' @ [''KMGTPE'' ! e] @ ''iB'')
        else None)"

definition formatUptime :: "int \<Rightarrow> string" where
  "formatUptime secs =
     (if secs \<le> 0 then ''''
      else let d = secs div 86400; s1 = secs - d * 86400; h = s1 div 3600; s2 = s1 - h * 3600; m = s2 div 60; s3 = s2 - m * 60 in
        if d > 0 then Itoa d @ ''d '' @ Itoa h @ ''h''
        else if h > 0 then Itoa h @ ''h '' @ Itoa m @ ''m''
        else if m > 0 then Itoa m @ ''m'' else Itoa s3 @ ''s'')"

text \<open>Times are nanoseconds; \<^verbatim>\<open>Milliseconds\<close> truncates towards zero.\<close>

definition quot_trunc :: "int \<Rightarrow> int \<Rightarrow> int" where
  "quot_trunc a b = (if a < 0 then - (- a div b) else a div b)"

definition formatClockDiff :: "int \<Rightarrow> int \<Rightarrow> string" where
  "formatClockDiff agentMicros serverReceived =
     (if agentMicros = 0 \<or> serverReceived = zero_time then ''''
      else let ms = quot_trunc (time_sub (agentMicros * 1000) serverReceived) 1000000 in
        if ms > -2000 \<and> ms < 2000 then ''in sync''
        else if ms \<ge> 0 then ''+'' @ Itoa ms @ ''ms'' else Itoa ms @ ''ms'')"

section \<open>The list of nodes\<close>

definition human :: "int \<Rightarrow> string" where
  "human n = (case humanBytes n of None \<Rightarrow> '''' | Some t \<Rightarrow> t)"

definition buildNodeRow :: "Options \<Rightarrow> Server \<Rightarrow> AgentInfo \<Rightarrow> string list \<Rightarrow> nodeRow" where
  "buildNodeRow opts svc a connected =
     (let master = AgentId a = BuiltInNodeAgentID;
          hb = (if has_AgentSvc opts then LastHeartbeat svc (AgentId a) else None);
          of_hb = (\<lambda>g. case hb of None \<Rightarrow> '''' | Some (st, rcv) \<Rightarrow> g st rcv) in
      \<lparr>nr_AgentID = AgentId a, nr_DisplayName = (if master then BuiltInNodeDisplayName else AgentId a), nr_IsMaster = master,
       nr_Status = (if hb = None then ''na'' else if AgentId a \<in> set connected then ''ok'' else ''offline''),
       nr_Architecture = of_hb (\<lambda>st rcv. Architecture st),
       nr_ClockDiff = (if master then ''in sync'' else of_hb (\<lambda>st rcv. formatClockDiff (WallClockUnixMicros st) rcv)),
       nr_FreeDisk = of_hb (\<lambda>st rcv. human (FreeDiskBytes st)),
       nr_FreeSwap = of_hb (\<lambda>st rcv. human (FreeSwapBytes st)),
       nr_FreeTemp = of_hb (\<lambda>st rcv. human (FreeTempBytes st)),
       nr_GoVersion = of_hb (\<lambda>st rcv. GoVersion st),
       nr_ResponseTime = (if master then ''0ms'' else ''''),
       nr_AgentVersion = of_hb (\<lambda>st rcv. AgentVersion st)\<rparr>)"

definition handleNodes :: "Options \<Rightarrow> Request \<Rightarrow> web \<Rightarrow> Response \<times> web" where
  "handleNodes opts r s =
     (let registered = (if has_AgentSvc opts then Agents (wb_agents s) else []);
          connected = (if has_AgentSvc opts then ConnectedAgents (clock (wb_disk s)) (wb_agents s) else []);
          rows = map (\<lambda>a. buildNodeRow opts (wb_agents s) a (map AgentId connected)) registered
      in (render (NodesPage (sort_key (\<lambda>row. \<not> nr_IsMaster row) rows)), s))"

section \<open>Adding a node\<close>

definition handleNodesNewCopyPicker :: "Options \<Rightarrow> Request \<Rightarrow> web \<Rightarrow> Response \<times> web" where
  "handleNodesNewCopyPicker opts r =
     with_disk (ListPendingAgents (opt_pcodec opts) (opt_root opts)) (\<lambda>res s.
       let pendings = (case res of Inl _ \<Rightarrow> [] | Inr ps \<Rightarrow> ps);
           rows = map (\<lambda>pa. \<lparr>pr_ID = pa_Name pa, pr_Kind = ''pending'', pr_Labels = pa_Labels pa, pr_Executors = int32 (pa_Executors pa)\<rparr>) pendings
             @ (if has_AgentSvc opts then map (\<lambda>a. \<lparr>pr_ID = AgentId a, pr_Kind = ''connected'', pr_Labels = ai_Labels a,
                  pr_Executors = Executors a\<rparr>) (Agents (wb_agents s)) else [])
       in (render (CopyPickerPage (sort_key pr_ID rows)), s))"

definition renderNodesNewPermanent :: "string \<Rightarrow> string \<Rightarrow> string list \<Rightarrow> int \<Rightarrow> string \<Rightarrow> web \<Rightarrow> Response \<times> web" where
  "renderNodesNewPermanent errMsg name labels executors description =
     reply (render (PermanentPage errMsg name (join_with [CHR 0x0A] labels) executors description))"

definition copy_source :: "Options \<Rightarrow> string \<Rightarrow> web \<Rightarrow> string list \<times> int" where
  "copy_source opts source s =
     (case (if has_AgentSvc opts then find (\<lambda>a. AgentId a = source) (Agents (wb_agents s)) else None) of
        None \<Rightarrow> ([], 1)
      | Some a \<Rightarrow> (ai_Labels a, if Executors a > 0 then Executors a else 1))"

definition handleNodesNewPermanentFromCopy :: "Options \<Rightarrow> Request \<Rightarrow> string \<Rightarrow> web \<Rightarrow> Response \<times> web" where
  "handleNodesNewPermanentFromCopy opts r source =
     with_disk (LoadPendingAgent (opt_pcodec opts) (opt_root opts) source) (\<lambda>res s.
       let (labels, executors) = (case res of Inr pa \<Rightarrow> (pa_Labels pa, pa_Executors pa) | Inl _ \<Rightarrow> copy_source opts source s)
       in renderNodesNewPermanent '''' '''' labels executors '''' s)"

section \<open>GCE pools (\<^verbatim>\<open>nodes/gce/config.go\<close>)\<close>

definition gce_Validate :: "gceConfig \<Rightarrow> goerr option" where
  "gce_Validate c =
     (if ProjectID c = '''' then Some (Msg ''project_id is required'')
      else if Zone c = '''' then Some (Msg ''zone is required'')
      else if MachineType c = '''' then Some (Msg ''machine_type is required'')
      else if ServiceAccountKey c = '''' then Some (Msg ''service_account_key is required'')
      else if Image c = '''' then Some (Msg ''image is required'')
      else None)"

definition gce_Save :: "(gceConfig \<Rightarrow> string) \<Rightarrow> gceConfig \<Rightarrow> path \<Rightarrow> unit io" where
  "gce_Save enc c path =
     seqIO (wrapIO ''gce.Config.Save: mkdir'' (os_MkdirAll (butlast path)))
           (wrapIO ''gce.Config.Save: write'' (os_WriteFile path (enc c)))"

definition gce_LoadConfig :: "(string \<Rightarrow> gceConfig option) \<Rightarrow> path \<Rightarrow> gceConfig io" where
  "gce_LoadConfig dec path =
     bindIO (wrapIO ''gce.LoadConfig'' (os_ReadFile path)) (\<lambda>dat. case dec dat of
       None \<Rightarrow> raiseIO (Wrap (''gce.LoadConfig: parse '' @ path_string path) (Msg ''yaml''))
     | Some cfg \<Rightarrow> (case gce_Validate cfg of Some e \<Rightarrow> raiseIO (Wrap ''gce.LoadConfig'' e) | None \<Rightarrow> returnIO cfg))"

definition gcePoolPath :: "Options \<Rightarrow> string \<Rightarrow> path" where
  "gcePoolPath opts name = join_path (opt_root opts) [''nodes'', ''gce'', name @ ''.yaml'']"

definition empty_gce :: gceConfig where
  "empty_gce = \<lparr>ProjectID = '''', Zone = '''', MachineType = '''', ServiceAccountKey = '''', Image = '''', Network = '''',
     gce_Labels = [], MaxInstances = 0\<rparr>"

definition renderNodesNewGCEWithName :: "string \<Rightarrow> string \<Rightarrow> gceConfig \<Rightarrow> web \<Rightarrow> Response \<times> web" where
  "renderNodesNewGCEWithName errMsg name cfg = reply (render (GCEPage errMsg name cfg))"

definition gce_form :: "Request \<Rightarrow> gceConfig" where
  "gce_form r = \<lparr>ProjectID = TrimSpace (FormValue r ''project_id''), Zone = TrimSpace (FormValue r ''zone''),
     MachineType = TrimSpace (FormValue r ''machine_type''), ServiceAccountKey = TrimSpace (FormValue r ''service_account_key''),
     Image = TrimSpace (FormValue r ''image''), Network = TrimSpace (FormValue r ''network''),
     gce_Labels = splitLines (FormValue r ''labels''), MaxInstances = 0\<rparr>"

definition handleNodesNewGCE :: "Options \<Rightarrow> Request \<Rightarrow> web \<Rightarrow> Response \<times> web" where
  "handleNodesNewGCE opts r =
     (if req_method r = ''GET'' then renderNodesNewGCEWithName '''' '''' empty_gce
      else if req_method r = ''POST'' then
        (if \<not> parse_ok r then reply bad_request
         else let name = TrimSpace (FormValue r ''name''); v = TrimSpace (FormValue r ''max_instances'') in
           (case (if v = '''' then Some 0 else case Atoi v of None \<Rightarrow> None | Some n \<Rightarrow> if n < 0 then None else Some n) of
              None \<Rightarrow> renderNodesNewGCEWithName ''max_instances must be a non-negative integer'' name (gce_form r)
            | Some n \<Rightarrow> let cfg = (gce_form r)\<lparr>MaxInstances := n\<rparr> in
                if name = '''' then renderNodesNewGCEWithName ''name is required'' name cfg
                else (case gce_Validate cfg of
                    Some e \<Rightarrow> renderNodesNewGCEWithName (opt_error opts e) name cfg
                  | None \<Rightarrow> with_disk (gce_Save (opt_gce_enc opts) cfg (gcePoolPath opts name)) (\<lambda>res. case res of
                        Inl e \<Rightarrow> renderNodesNewGCEWithName (''save: '' @ opt_error opts e) name cfg
                      | Inr _ \<Rightarrow> reply (http_Redirect (''/nodes/gce/'' @ name))))))
      else reply method_not_allowed)"

section \<open>Permanent agents\<close>

definition permanent_form :: "Request \<Rightarrow> int \<Rightarrow> PendingAgent" where
  "permanent_form r n = \<lparr>pa_Name = TrimSpace (FormValue r ''name''), pa_Labels = splitLines (FormValue r ''labels''), pa_Executors = n,
     pa_Description = FormValue r ''description'', pa_CreatedAt = zero_time\<rparr>"

definition handleNodesNewPermanent :: "Options \<Rightarrow> Request \<Rightarrow> web \<Rightarrow> Response \<times> web" where
  "handleNodesNewPermanent opts r =
     (if req_method r = ''GET'' then renderNodesNewPermanent '''' '''' [] 1 ''''
      else if req_method r = ''POST'' then
        (if \<not> parse_ok r then reply bad_request
         else let name = TrimSpace (FormValue r ''name''); labelsRaw = FormValue r ''labels'';
                  execStr = TrimSpace (FormValue r ''executors''); description = FormValue r ''description'' in
           (case (if execStr = '''' then Some 1 else case Atoi execStr of None \<Rightarrow> None | Some n \<Rightarrow> if n < 1 then None else Some n) of
              None \<Rightarrow> renderNodesNewPermanent ''executors must be a positive integer'' name (splitLines labelsRaw) 1 description
            | Some n \<Rightarrow> let labels = splitLines labelsRaw in
                with_disk (SaveAgent (opt_pcodec opts) (opt_root opts) (Some (permanent_form r n))) (\<lambda>res. case res of
                    Inl e \<Rightarrow> renderNodesNewPermanent (opt_error opts e) name labels n description
                  | Inr _ \<Rightarrow> reply (http_Redirect (''/nodes/'' @ name)))))
      else reply method_not_allowed)"

definition handleNodesNew :: "Options \<Rightarrow> Request \<Rightarrow> string \<Rightarrow> web \<Rightarrow> Response \<times> web" where
  "handleNodesNew opts r sub =
     (if sub = '''' then
        (if req_method r \<noteq> ''GET'' then reply method_not_allowed
         else case map_of (url_query r) ''copy'' of
             Some source \<Rightarrow> if source = '''' then handleNodesNewCopyPicker opts r else handleNodesNewPermanentFromCopy opts r source
           | None \<Rightarrow> reply (render NodesNewPage))
      else if sub = ''permanent'' then handleNodesNewPermanent opts r
      else if sub = ''gce'' then handleNodesNewGCE opts r
      else reply http_NotFound)"

section \<open>The page of a node\<close>

definition pending_command :: "string \<Rightarrow> string \<Rightarrow> string" where
  "pending_command endpoint name =
     ''wolfci-agent --server-addr '' @ endpoint @ '' --agent-id '' @ name @ '' --cert-dir /etc/wolfci-agent''"

definition handlePendingNodeDetail :: "Options \<Rightarrow> Request \<Rightarrow> PendingAgent \<Rightarrow> web \<Rightarrow> Response \<times> web" where
  "handlePendingNodeDetail opts r pa =
     (let endpointMissing = (AgentEndpoint opts = '''');
          endpoint = (if endpointMissing then ''SERVER_HOST:PORT'' else AgentEndpoint opts)
      in reply (render (PendingNodePage pa endpoint endpointMissing (pending_command endpoint (pa_Name pa)))))"

definition node_status :: "NodeStatus \<Rightarrow> int \<Rightarrow> (string \<times> string) list" where
  "node_status st rcv =
     [(''Architecture'', Architecture st), (''GoVersion'', GoVersion st), (''AgentVersion'', AgentVersion st),
      (''FreeDisk'', human (FreeDiskBytes st)), (''FreeSwap'', human (FreeSwapBytes st)), (''FreeTemp'', human (FreeTempBytes st)),
      (''HostUptime'', formatUptime (HostUptimeSeconds st)), (''ClockDiff'', formatClockDiff (WallClockUnixMicros st) rcv)]"

definition handleNodeDetail :: "Options \<Rightarrow> Request \<Rightarrow> string \<Rightarrow> web \<Rightarrow> Response \<times> web" where
  "handleNodeDetail opts r agentID =
     with_disk (LoadPendingAgent (opt_pcodec opts) (opt_root opts) agentID) (\<lambda>res s. case res of
       Inr pa \<Rightarrow> handlePendingNodeDetail opts r pa s
     | Inl _ \<Rightarrow>
         if \<not> has_AgentSvc opts then (http_NotFound, s)
         else (case find (\<lambda>a. AgentId a = agentID) (Agents (wb_agents s)) of
             None \<Rightarrow> (http_NotFound, s)
           | Some info \<Rightarrow>
               let master = AgentId info = BuiltInNodeAgentID; hb = LastHeartbeat (wb_agents s) agentID in
               (render (NodeDetailPage \<lparr>nd_AgentID = AgentId info,
                  nd_DisplayName = (if master then BuiltInNodeDisplayName else AgentId info), nd_IsMaster = master,
                  nd_Labels = ai_Labels info, nd_Executors = Executors info, nd_Disabled = IsDisabled (wb_agents s) agentID,
                  nd_HasHeartbeat = (hb \<noteq> None), nd_Status = (case hb of None \<Rightarrow> [] | Some (st, rcv) \<Rightarrow> node_status st rcv)\<rparr>), s)))"

definition handleNodeDisable :: "Options \<Rightarrow> Request \<Rightarrow> string \<Rightarrow> bool \<Rightarrow> web \<Rightarrow> Response \<times> web" where
  "handleNodeDisable opts r agentID disable s =
     (if \<not> has_AgentSvc opts \<or> \<not> list_ex (\<lambda>a. AgentId a = agentID) (Agents (wb_agents s)) then (http_NotFound, s)
      else (http_Redirect (''/nodes/'' @ agentID), s\<lparr>wb_agents := SetDisabled agentID disable (wb_agents s)\<rparr>))"

definition handleNodeRoutes :: "Options \<Rightarrow> Request \<Rightarrow> web \<Rightarrow> Response \<times> web" where
  "handleNodeRoutes opts r =
     (let rest = TrimPrefix (url_path r) ''/nodes/'' in
      if rest = '''' then reply (http_Redirect ''/nodes'')
      else let parts = SplitN 2 (CHR ''/'') rest; agentID = parts ! 0; rest2 = (if length parts = 2 then parts ! 1 else '''') in
        if agentID = '''' then reply http_NotFound
        else if agentID = ''new'' then handleNodesNew opts r rest2
        else if rest2 = '''' \<and> req_method r = ''GET'' then handleNodeDetail opts r agentID
        else if rest2 = ''disable'' \<and> req_method r = ''POST'' then handleNodeDisable opts r agentID True
        else if rest2 = ''enable'' \<and> req_method r = ''POST'' then handleNodeDisable opts r agentID False
        else reply http_NotFound)"


section \<open>Formatting is total\<close>

lemma human_unit_spec:
  "0 < cur \<Longrightarrow> cur < 1024 ^ Suc k \<Longrightarrow> \<exists>j \<le> k. human_unit cur d e = (d * 1024 ^ j, e + j) \<and> 1024 ^ j \<le> cur \<and> cur < 1024 ^ Suc j"
proof (induction k arbitrary: cur d e)
  case 0
  then show ?case by (simp add: human_unit.simps)
next
  case (Suc k)
  show ?case
  proof (cases "cur \<ge> 1024")
    case False
    with Suc.prems show ?thesis by (auto simp: human_unit.simps intro!: exI [of _ 0])
  next
    case True
    then have "0 < cur div 1024" "cur div 1024 < 1024 ^ Suc k" using Suc.prems by auto
    from Suc.IH [OF this] obtain j where j: "j \<le> k" "human_unit (cur div 1024) (d * 1024) (Suc e) = (d * 1024 * 1024 ^ j, Suc e + j)"
      "1024 ^ j \<le> cur div 1024" "cur div 1024 < 1024 ^ Suc j" by blast
    then have "1024 ^ Suc j \<le> cur" "cur < 1024 ^ Suc (Suc j)" by auto
    with j True show ?thesis by (intro exI [of _ "Suc j"]) (simp add: human_unit.simps [of cur])
  qed
qed

text \<open>Every \<^verbatim>\<open>int64\<close> has a rendering: the suffix index stays below 6, and the unit is the one the value lies in.\<close>

lemma humanBytes_total:
  assumes "n \<le> max_int"
  shows "humanBytes n \<noteq> None \<and> (n \<ge> 1024 \<longrightarrow> (\<exists>e < 6. 1024 ^ Suc e \<le> n \<and> n < 1024 ^ Suc (Suc e) \<and> (\<exists>t. humanBytes n = Some (t @ [''KMGTPE'' ! e] @ ''iB''))))"
proof (cases "n < 1024")
  case True
  then show ?thesis by (simp add: humanBytes_def)
next
  case False
  then have "0 < n div 1024" "n div 1024 < 1024 ^ Suc 5" using assms by (auto simp: max_int_def)
  from human_unit_spec [OF this, of 1024 0] obtain j where j: "j \<le> 5" "human_unit (n div 1024) 1024 0 = (1024 * 1024 ^ j, j)"
    "1024 ^ j \<le> n div 1024" "n div 1024 < 1024 ^ Suc j" by auto
  then have "1024 ^ Suc j \<le> n" "n < 1024 ^ Suc (Suc j)" by auto
  with j False show ?thesis by (auto simp: humanBytes_def Let_def intro!: exI [of _ j])
qed

section \<open>Routes of a node\<close>

lemma cut_at_none: "c \<notin> set s \<Longrightarrow> cut_at c s = None"
proof -
  assume "c \<notin> set s"
  then have "dropWhile (\<lambda>x. x \<noteq> c) s = []" unfolding dropWhile_eq_Nil_conv by blast
  then show ?thesis by (simp only: cut_at_def list.case)
qed

lemma TrimPrefix_app [simp]: "TrimPrefix (p @ s) p = s"
  by (simp add: TrimPrefix_def HasPrefix_def)

lemma SplitN_one: "CHR ''/'' \<notin> set s \<Longrightarrow> SplitN 2 (CHR ''/'') s = [s]"
  by (simp add: numeral_2_eq_2 cut_at_none)

lemma SplitN_two: "CHR ''/'' \<notin> set a \<Longrightarrow> SplitN 2 (CHR ''/'') (a @ CHR ''/'' # b) = [a, b]"
  by (simp add: numeral_2_eq_2 cut_at_field)

lemma disabled_step:
  assumes "act a g = Some g'" "IsDisabled (srv g) x" "a \<noteq> Disable x False"
  shows "IsDisabled (srv g') x"
proof (cases a)
  case (Disable y d)
  with assms show ?thesis by (cases d) (auto simp: IsDisabled_def SetDisabled_def update_conv' delete_conv' split: if_splits)
next
  case (Submit y j)
  with assms show ?thesis by (auto simp: IsDisabled_def submit_begin_def Let_def split: if_splits prod.splits sum.splits)
next
  case (Assign i p)
  with assms show ?thesis
    by (auto simp: IsDisabled_def AssignJob_def set_phase_def split: if_splits prod.splits sum.splits option.splits wphase.splits)
next
  case (Recv n y m)
  with assms show ?thesis
    by (auto simp: IsDisabled_def recv_msg_def deliverCompletion_def recordCompletion_def RecordHeartbeat_def Let_def
        split: if_splits prod.splits sum.splits option.splits list.splits AgentMessage.splits)
qed (use assms in \<open>auto simp: IsDisabled_def set_phase_def submit_cleanup_def Register_def connect_open_def connect_close_def pump_own_def
    pump_shared_def QueueJob_def Let_def split: if_splits prod.splits sum.splits option.splits list.splits wphase.splits\<close>)

lemma disabled_runs:
  assumes "runs astep g tr g'" "Disable x False \<notin> set tr" "IsDisabled (srv g) x"
  shows "IsDisabled (srv g') x"
  using assms by (induction rule: runs.induct) (auto simp: astep_iff intro: disabled_step)

lemma disabled_not_idle: "IsDisabled s x \<Longrightarrow> x \<noteq> '''' \<Longrightarrow> IdleAgentWithLabel label s \<noteq> x"
proof (cases "filter (\<lambda>(i, st). \<not> IsDisabled s i \<and> (label = '''' \<or> label \<in> set (ai_Labels (st_info st)))) (streams s)")
  case (Cons p ps)
  assume x: "IsDisabled s x"
  from Cons have "p \<in> set (filter (\<lambda>(i, st). \<not> IsDisabled s i \<and> (label = '''' \<or> label \<in> set (ai_Labels (st_info st)))) (streams s))" by simp
  then have "\<not> IsDisabled s (fst p)" by auto
  with x have "fst p \<noteq> x" by auto
  with Cons show ?thesis by (cases p) (simp add: IdleAgentWithLabel_def)
qed (simp add: IdleAgentWithLabel_def)

text \<open>
  C17. Switching an agent off on its page takes effect on scheduling, and lasts: the redirect is sent only for a registered agent; after it,
  through any run of the agent service (registrations, streams opened and closed, messages, assignments, completions, other agents' switches)
  in which that agent is not switched on again, no label selects that agent; the other agents' switches are as before, and nothing
  else on the server changes.
\<close>

theorem node_switch:
  assumes "handleNodeRoutes opts r s = (rsp, s')" "req_method r = ''POST''" "url_path r = ''/nodes/'' @ x @ ''/disable''"
    and "x \<noteq> ''''" "x \<noteq> ''new''" "CHR ''/'' \<notin> set x"
  shows "if rs_status rsp = 303 then x \<in> set (map AgentId (Agents (wb_agents s)))
        \<and> (\<forall>ws tr g label. runs astep \<lparr>srv = wb_agents s', waiters = ws\<rparr> tr g \<and> Disable x False \<notin> set tr
             \<longrightarrow> IdleAgentWithLabel label (srv g) \<noteq> x)
        \<and> (\<forall>y. y \<noteq> x \<longrightarrow> IsDisabled (wb_agents s') y = IsDisabled (wb_agents s) y)
        \<and> wb_agents s' = (wb_agents s)\<lparr>disabled := disabled (wb_agents s')\<rparr> \<and> wb_sched s' = wb_sched s
      else rsp = http_NotFound \<and> s' = s"
proof -
  have p: "TrimPrefix (url_path r) ''/nodes/'' = x @ CHR ''/'' # ''disable''"
    unfolding assms(3) by (subst TrimPrefix_app) simp
  have run: "handleNodeDisable opts r x True s = (rsp, s')"
    using assms(1,2,4,5) unfolding handleNodeRoutes_def Let_def p SplitN_two [OF assms(6)] by simp
  have "IsDisabled (SetDisabled x True v) x" for v by (simp add: IsDisabled_def SetDisabled_def update_conv')
  then have off: "IdleAgentWithLabel label (srv g) \<noteq> x"
    if "runs astep \<lparr>srv = SetDisabled x True v, waiters = ws\<rparr> tr g" "Disable x False \<notin> set tr" for label v ws tr g
    using disabled_runs [OF that(1)] that(2) disabled_not_idle [OF _ assms(4)] by auto
  show ?thesis
    using run off
    by (auto simp: handleNodeDisable_def http_NotFound_def http_Error_def http_Redirect_def SetDisabled_def IsDisabled_def update_conv'
        list_ex_iff split: if_splits)
qed

text \<open>
  Adding a permanent agent ends on its page: the redirect is sent only when the slot was saved with a valid name and a
  positive number of executors, and following it shows the command line for that slot, unless the slot is called \<^verbatim>\<open>new\<close>: its
  page is hidden behind the landing page, though the name is accepted.
\<close>

theorem permanent_agent_page:
  assumes "handleNodesNewPermanent opts r s = (rsp, s')" "rs_status rsp = 303" "no_faults (wb_disk s)"
    and rt: "\<forall>n \<ge> 1. pa_dec (opt_pcodec opts) (pa_enc (opt_pcodec opts) (stamp_agent (clock (wb_disk s)) (permanent_form r n)))
               = Some (stamp_agent (clock (wb_disk s)) (permanent_form r n))"
    and q: "req_method q = ''GET''" "url_path q = rs_location rsp" "map_of (url_query q) ''copy'' = None"
  shows "\<exists>pa. LoadPendingAgent (opt_pcodec opts) (opt_root opts) (pa_Name pa) (wb_disk s') = (Inr pa, wb_disk s') \<and>
     idPattern (pa_Name pa) \<and> pa_Executors pa \<ge> 1 \<and> rs_location rsp = ''/nodes/'' @ pa_Name pa \<and>
     rs_body (fst (handleNodeRoutes opts q s')) =
       Html (if pa_Name pa = ''new'' then NodesNewPage
             else let e = (if AgentEndpoint opts = '''' then ''SERVER_HOST:PORT'' else AgentEndpoint opts)
                  in PendingNodePage pa e (AgentEndpoint opts = '''') (pending_command e (pa_Name pa)))"
proof -
  let ?P = "\<lambda>a w'. SaveAgent (opt_pcodec opts) (opt_root opts) (Some a) (wb_disk s) = (Inr (stamp_agent (clock (wb_disk s)) a), w')
      \<and> a = permanent_form r (pa_Executors a) \<and> rsp = http_Redirect (''/nodes/'' @ pa_Name a) \<and> s' = set_disk w' s"
  have "\<exists>a a' w'. SaveAgent (opt_pcodec opts) (opt_root opts) (Some a) (wb_disk s) = (Inr a', w')
      \<and> a = permanent_form r (pa_Executors a) \<and> rsp = http_Redirect (''/nodes/'' @ pa_Name a) \<and> s' = set_disk w' s"
    using assms(1,2)
    by (auto simp: handleNodesNewPermanent_def Let_def with_disk_def reply_def renderNodesNewPermanent_def render_def bad_request_def
        method_not_allowed_def http_Error_def split: if_splits option.splits prod.splits sum.splits)
      (intro exI conjI, assumption, simp_all add: permanent_form_def)+
  then have "\<exists>a w'. ?P a w'" using SaveAgent_effect(3) by blast
  then obtain a w' where a: "?P a w'" by blast
  let ?a' = "stamp_agent (clock (wb_disk s)) a"
  note S = SaveAgent_effect [OF a [THEN conjunct1]]
  have nm: "pa_Name ?a' = pa_Name a" "pa_Executors ?a' = pa_Executors a" by (simp_all add: stamp_agent_def)
  have nf: "no_faults w'" using S(4) assms(3) by (simp add: no_faults_def)
  have load: "LoadPendingAgent (opt_pcodec opts) (opt_root opts) (pa_Name a) w' = (Inr ?a', w')"
    using S(1,5) rt [rule_format, OF S(2)] a by (simp add: LoadPendingAgent_view [OF nf])
  have ne: "pa_Name a \<noteq> ''''" "CHR ''/'' \<notin> set (pa_Name a)" using idPattern_safe [OF S(1)] by (simp_all add: safe_name_def)
  have p: "TrimPrefix (url_path q) ''/nodes/'' = pa_Name a"
    using q(2) a by (simp only: http_Redirect_def Response.simps TrimPrefix_app)
  show ?thesis
  proof (intro exI [of _ ?a'] conjI)
    show "rs_body (fst (handleNodeRoutes opts q s')) =
       Html (if pa_Name ?a' = ''new'' then NodesNewPage
             else let e = (if AgentEndpoint opts = '''' then ''SERVER_HOST:PORT'' else AgentEndpoint opts)
                  in PendingNodePage ?a' e (AgentEndpoint opts = '''') (pending_command e (pa_Name ?a')))"
      using ne q load a unfolding handleNodeRoutes_def Let_def p SplitN_one [OF ne(2)]
      by (simp add: nm handleNodesNew_def reply_def render_def handleNodeDetail_def with_disk_def handlePendingNodeDetail_def Let_def)
  qed (use load S a in \<open>simp_all add: nm http_Redirect_def\<close>)
qed


lemma gce_saved:
  assumes "handleNodesNewGCE opts r s = (rsp, s')" "rs_status rsp = 303"
  shows "\<exists>name cfg. name \<noteq> '''' \<and> gce_Validate cfg = None \<and> rsp = http_Redirect (''/nodes/gce/'' @ name) \<and> s' = set_disk (wb_disk s') s \<and>
    gce_Save (opt_gce_enc opts) cfg (gcePoolPath opts name) (wb_disk s) = (Inr (), wb_disk s')"
  using assms
  by (auto simp: handleNodesNewGCE_def Let_def with_disk_def reply_def renderNodesNewGCEWithName_def render_def bad_request_def
      method_not_allowed_def http_Error_def split: if_splits option.splits prod.splits sum.splits)
    (intro exI conjI, assumption+, simp_all)+

text \<open>
  A saved GCE pool has no page: when the form answers with its redirect the configuration was valid and lies in the pool's
  file, the last component of the path being the pool's name with \<^verbatim>\<open>.yaml\<close> when the name is a single one, but no route serves
  \<^verbatim>\<open>/nodes/gce/<name>\<close>, so the browser that follows the redirect gets 404. A name with \<^verbatim>\<open>../\<close> leaves the directory of the pools.
\<close>

theorem gce_pool_has_no_page:
  assumes "handleNodesNewGCE opts r s = (rsp, s')" "rs_status rsp = 303"
    and q: "req_method q = ''GET''" "url_path q = rs_location rsp"
  shows "\<exists>name cfg. rs_location rsp = ''/nodes/gce/'' @ name \<and> gce_Validate cfg = None \<and>
    file_at (wb_disk s') (gcePoolPath opts name) = Some (opt_gce_enc opts cfg) \<and>
    (safe_name (name @ ''.yaml'') \<longrightarrow> gcePoolPath opts name = opt_root opts @ [''nodes'', ''gce'', name @ ''.yaml'']) \<and>
    (\<forall>x. name = ''../../'' @ x \<and> safe_name (x @ ''.yaml'') \<longrightarrow> gcePoolPath opts name = opt_root opts @ [x @ ''.yaml'']) \<and>
    handleNodeRoutes opts q t = (http_NotFound, t)"
proof -
  from gce_saved [OF assms(1,2)] obtain name cfg where g: "name \<noteq> ''''" "gce_Validate cfg = None"
    "rsp = http_Redirect (''/nodes/gce/'' @ name)"
    "gce_Save (opt_gce_enc opts) cfg (gcePoolPath opts name) (wb_disk s) = (Inr (), wb_disk s')" by blast
  then obtain w1 where "os_WriteFile (gcePoolPath opts name) (opt_gce_enc opts cfg) w1 = (Inr (), wb_disk s')"
    by (auto simp: gce_Save_def io_simps)
  from WriteFile_effect(1) [OF this] have yml: "file_at (wb_disk s') (gcePoolPath opts name) = Some (opt_gce_enc opts cfg)"
    by (simp add: file_at_def)
  have p: "TrimPrefix (url_path q) ''/nodes/'' = ''gce'' @ CHR ''/'' # name"
    using q(2) TrimPrefix_app [of "''/nodes/''" "''gce'' @ CHR ''/'' # name"] by (simp add: g(3) http_Redirect_def)
  have "handleNodeRoutes opts q t = (http_NotFound, t)"
  proof -
    have sp: "SplitN 2 (CHR ''/'') (''gce'' @ CHR ''/'' # name) = [''gce'', name]" by (rule SplitN_two) simp
    show ?thesis unfolding handleNodeRoutes_def Let_def p sp by (simp add: g(1) q(1) reply_def)
  qed
  moreover have "safe_name ''nodes''" "safe_name ''gce''" by (simp_all add: safe_name_def)
  moreover have "gcePoolPath opts (''../../'' @ x) = opt_root opts @ [x @ ''.yaml'']" if "safe_name (x @ ''.yaml'')" for x
  proof -
    have "Split (CHR ''/'') (''../../'' @ x @ ''.yaml'') = [''..'', ''..'', x @ ''.yaml'']"
      using that Split_no_sep [of "CHR ''/''" "x @ ''.yaml''"] by (simp add: safe_name_def)
    with that show ?thesis by (simp add: gcePoolPath_def join_path_def clean_comp_def safe_name_def butlast_append)
  qed
  ultimately show ?thesis
    using g yml by (intro exI [of _ name] exI [of _ cfg]) (auto simp: http_Redirect_def gcePoolPath_def join_path_safe)
qed

section \<open>Evaluated instances\<close>

definition demo_gce :: Request where
  "demo_gce = post ''/nodes/new/gce'' [(''name'', ''pool''), (''project_id'', ''p''), (''zone'', ''z''), (''machine_type'', ''m''),
     (''service_account_key'', ''k''), (''image'', ''i''), (''max_instances'', ''3'')]"

theorem gce_pool_has_no_page_witness:
  "handleNodeRoutes demo_opts (get (rs_location (fst (handleNodesNewGCE demo_opts demo_gce (demo_web empty_disk))))) (demo_web empty_disk)
     = (http_NotFound, demo_web empty_disk)"
proof -
  have "rs_status (fst (handleNodesNewGCE demo_opts demo_gce (demo_web empty_disk))) = 303" by code_simp
  from gce_pool_has_no_page [OF surjective_pairing this, of "get (rs_location (fst (handleNodesNewGCE demo_opts demo_gce (demo_web empty_disk))))"]
  show ?thesis by (auto simp: get_def)
qed

definition demo_permanent :: Request where
  "demo_permanent = post ''/nodes/new/permanent'' [(''name'', ''mac-1''), (''labels'', ''darwin''), (''executors'', ''2'')]"

definition page_opts :: Options where
  "page_opts = demo_opts\<lparr>opt_pcodec := \<lparr>pa_enc = (\<lambda>a. replicate (nat (pa_Executors a)) (CHR ''x'')),
     pa_dec = (\<lambda>s. Some (stamp_agent 7 (permanent_form demo_permanent (int (length s)))))\<rparr>\<rparr>"

theorem permanent_agent_page_witness:
  "rs_body (fst (handleNodeRoutes page_opts (get ''/nodes/mac-1'') (snd (handleNodesNewPermanent page_opts demo_permanent (demo_web empty_disk)))))
     = Html (PendingNodePage (stamp_agent 7 (permanent_form demo_permanent 2)) ''SERVER_HOST:PORT'' True
         ''wolfci-agent --server-addr SERVER_HOST:PORT --agent-id mac-1 --cert-dir /etc/wolfci-agent'')"
proof -
  let ?s' = "snd (handleNodesNewPermanent page_opts demo_permanent (demo_web empty_disk))"
  have st: "rs_status (fst (handleNodesNewPermanent page_opts demo_permanent (demo_web empty_disk))) = 303" by code_simp
  have loc: "rs_location (fst (handleNodesNewPermanent page_opts demo_permanent (demo_web empty_disk))) = ''/nodes/mac-1''" by code_simp
  have nf: "no_faults (wb_disk (demo_web empty_disk))" by (simp add: no_faults_def empty_disk_def)
  have rt: "\<forall>n \<ge> 1. pa_dec (opt_pcodec page_opts) (pa_enc (opt_pcodec page_opts)
      (stamp_agent (clock (wb_disk (demo_web empty_disk))) (permanent_form demo_permanent n)))
    = Some (stamp_agent (clock (wb_disk (demo_web empty_disk))) (permanent_form demo_permanent n))"
    by (simp add: page_opts_def stamp_agent_def permanent_form_def empty_disk_def)
  have q: "req_method (get ''/nodes/mac-1'') = ''GET''" "map_of (url_query (get ''/nodes/mac-1'')) ''copy'' = None"
    "url_path (get ''/nodes/mac-1'') = rs_location (fst (handleNodesNewPermanent page_opts demo_permanent (demo_web empty_disk)))"
    by (simp_all add: get_def loc)
  from permanent_agent_page [OF surjective_pairing st nf rt q(1,3,2)] obtain pa where pa:
    "LoadPendingAgent (opt_pcodec page_opts) (opt_root page_opts) (pa_Name pa) (wb_disk ?s') = (Inr pa, wb_disk ?s')"
    "rs_location (fst (handleNodesNewPermanent page_opts demo_permanent (demo_web empty_disk))) = ''/nodes/'' @ pa_Name pa"
    "rs_body (fst (handleNodeRoutes page_opts (get ''/nodes/mac-1'') ?s')) =
       Html (if pa_Name pa = ''new'' then NodesNewPage
             else let e = (if AgentEndpoint page_opts = '''' then ''SERVER_HOST:PORT'' else AgentEndpoint page_opts)
                  in PendingNodePage pa e (AgentEndpoint page_opts = '''') (pending_command e (pa_Name pa)))"
    by blast
  have nm: "pa_Name pa = ''mac-1''" using pa(2) unfolding loc by simp
  have "fst (LoadPendingAgent (opt_pcodec page_opts) (opt_root page_opts) ''mac-1'' (wb_disk ?s')) = Inr (stamp_agent 7 (permanent_form demo_permanent 2))"
    by code_simp
  with pa(1) nm have "pa = stamp_agent 7 (permanent_form demo_permanent 2)" by simp
  with pa(3) nm show ?thesis by (simp add: pending_command_def page_opts_def demo_opts_def)
qed

definition demo_two_agents :: web where
  "demo_two_agents = (demo_web empty_disk)\<lparr>wb_agents := (newServer ''1'')\<lparr>agents := [(''x'', \<lparr>AgentId = ''x'', ai_Labels = [''mac''], Executors = 1\<rparr>)],
     streams := [(''x'', \<lparr>st_info = \<lparr>AgentId = ''x'', ai_Labels = [''mac''], Executors = 1\<rparr>, st_send = [], st_ctxDone = False\<rparr>)]\<rparr>\<rparr>"

text \<open>The agent reconnects and registers anew after it was switched off.\<close>

definition demo_reconnect :: "action list" where
  "demo_reconnect = [Close ''x'', Reg None (Some \<lparr>AgentId = ''x'', ai_Labels = [''mac''], Executors = 1\<rparr>),
     Open (Some [(''agent-id'', [''x''])])]"

theorem node_switch_witness:
  "IdleAgentWithLabel ''mac'' (wb_agents demo_two_agents) = ''x'' \<and>
   (\<exists>g. run_acts demo_reconnect \<lparr>srv = wb_agents (snd (handleNodeRoutes demo_opts (post ''/nodes/x/disable'' []) demo_two_agents)), waiters = []\<rparr>
        = Some g \<and> map fst (streams (srv g)) = [''x''] \<and> IdleAgentWithLabel ''mac'' (srv g) \<noteq> ''x'')"
proof
  show "IdleAgentWithLabel ''mac'' (wb_agents demo_two_agents) = ''x''" by code_simp
  obtain rsp s' where t: "handleNodeRoutes demo_opts (post ''/nodes/x/disable'' []) demo_two_agents = (rsp, s')" by (metis surj_pair)
  have p: "req_method (post ''/nodes/x/disable'' []) = ''POST''" "url_path (post ''/nodes/x/disable'' []) = ''/nodes/'' @ ''x'' @ ''/disable''"
    by (simp_all add: post_def)
  have n: "''x'' \<noteq> ''''" "''x'' \<noteq> ''new''" "CHR ''/'' \<notin> set ''x''" by simp_all
  have "case handleNodeRoutes demo_opts (post ''/nodes/x/disable'' []) demo_two_agents of (a, b) \<Rightarrow> rs_status a = 303 \<and>
      (case run_acts demo_reconnect \<lparr>srv = wb_agents b, waiters = []\<rparr> of None \<Rightarrow> False | Some g \<Rightarrow> map fst (streams (srv g)) = [''x''])"
    by code_simp
  then have c: "rs_status rsp = 303" "case run_acts demo_reconnect \<lparr>srv = wb_agents s', waiters = []\<rparr> of None \<Rightarrow> False
      | Some g \<Rightarrow> map fst (streams (srv g)) = [''x'']" unfolding t by simp_all
  have some: "\<exists>g. o' = Some g \<and> P g" if "case o' of None \<Rightarrow> False | Some g \<Rightarrow> P g" for o' and P :: "config \<Rightarrow> bool"
    using that by (cases o') auto
  obtain g where g: "run_acts demo_reconnect \<lparr>srv = wb_agents s', waiters = []\<rparr> = Some g" "map fst (streams (srv g)) = [''x'']"
    using some [OF c(2)] by (elim exE conjE)
  note off = node_switch [OF t p n, unfolded if_P [OF c(1)], THEN conjunct2, THEN conjunct1, rule_format]
  have "Disable ''x'' False \<notin> set demo_reconnect" by (simp add: demo_reconnect_def)
  with g(1) [unfolded run_acts_runs] have "IdleAgentWithLabel ''mac'' (srv g) \<noteq> ''x''" by (intro off conjI)
  with g show "\<exists>g. run_acts demo_reconnect \<lparr>srv = wb_agents (snd (handleNodeRoutes demo_opts (post ''/nodes/x/disable'' []) demo_two_agents)),
      waiters = []\<rparr> = Some g \<and> map fst (streams (srv g)) = [''x''] \<and> IdleAgentWithLabel ''mac'' (srv g) \<noteq> ''x''"
    unfolding t snd_conv by (intro exI [of _ g] conjI)
qed

end
