(* ===== verification/WebServer.thy ===== *)
theory WebServer
  imports WebNodes
begin

text \<open>
  The HTTP server of \<^verbatim>\<open>internal/server/server.go\<close>: sessions and cookies, sign-in and sign-out, the routes and the middleware
  \<^verbatim>\<open>requireSession\<close>, with the address of \<^verbatim>\<open>logtail.go\<close>. The multiplexer of \<^verbatim>\<open>net/http\<close> redirects paths that are not clean, hide a slash in
  an escape or lack the last slash of a subtree before it reaches a handler; the requests of the model are those it dispatches.
\<close>

section \<open>Sessions\<close>

definition sessionFromRequest :: "Options \<Rightarrow> Request \<Rightarrow> web \<Rightarrow> Session option \<times> web" where
  "sessionFromRequest opts r s =
     (case cookie r of
        None \<Rightarrow> (None, s)
      | Some v \<Rightarrow>
          if v = '''' then (None, s)
          else with_disk (Lookup (opt_sess opts) (opt_Sessions opts) v) (\<lambda>res s. case res of Inl _ \<Rightarrow> (None, s) | Inr sess \<Rightarrow> (Some sess, s)) s)"

definition requireSession :: "Options \<Rightarrow> (Request \<Rightarrow> web \<Rightarrow> Response \<times> web) \<Rightarrow> Request \<Rightarrow> web \<Rightarrow> Response \<times> web" where
  "requireSession opts next r s =
     (case sessionFromRequest opts r s of
        (None, s') \<Rightarrow> (http_Redirect ''/'', s')
      | (Some _, s') \<Rightarrow> next r s')"

definition renderLogin :: "string \<Rightarrow> Response" where
  "renderLogin errMsg = render (LoginPage errMsg)"

definition handleRoot :: "Options \<Rightarrow> Request \<Rightarrow> web \<Rightarrow> Response \<times> web" where
  "handleRoot opts r s =
     (if url_path r \<noteq> ''/'' then (http_NotFound, s)
      else case sessionFromRequest opts r s of
          (Some _, s') \<Rightarrow> (http_Redirect ''/jobs'', s')
        | (None, s') \<Rightarrow> (renderLogin '''', s'))"

definition session_cookie :: "Options \<Rightarrow> Session \<Rightarrow> Cookie" where
  "session_cookie opts sess = \<lparr>ck_Value = sess_Token sess, ck_Path = ''/'', ck_HttpOnly = True, ck_Secure = CookieSecure opts,
     ck_SameSiteStrict = True, ck_Expires = sess_ExpiresAt sess, ck_MaxAge = 0\<rparr>"

definition handleLogin :: "Options \<Rightarrow> Request \<Rightarrow> web \<Rightarrow> Response \<times> web" where
  "handleLogin opts r =
     (if req_method r \<noteq> ''POST'' then reply method_not_allowed
      else if \<not> parse_ok r then reply bad_request
      else let user = TrimSpace (FormValue r ''username''); pw = FormValue r ''password'' in
        if user = '''' \<or> pw = '''' then reply (http_Error ''username and password are required'' 400)
        else if \<not> PasswordEnabled (opt_Auth opts) then reply (http_Error ''password auth is disabled; contact an administrator'' 401)
        else with_disk (VerifyPassword (opt_wolf opts) (opt_Passwords opts) user pw) (\<lambda>res. case res of
            Inl _ \<Rightarrow> reply (http_Error ''invalid credentials'' 401)
          | Inr _ \<Rightarrow> with_disk (Create (gowolf.truncate (opt_wolf opts)) (opt_sess opts) (opt_Sessions opts) user) (\<lambda>res2. case res2 of
                Inl e \<Rightarrow> reply (http_Error (''session: '' @ opt_error opts e) 500)
              | Inr sess \<Rightarrow> reply ((http_Redirect ''/jobs'')\<lparr>set_cookie := Some (session_cookie opts sess)\<rparr>))))"

definition cleared_cookie :: Cookie where
  "cleared_cookie = \<lparr>ck_Value = '''', ck_Path = ''/'', ck_HttpOnly = False, ck_Secure = False, ck_SameSiteStrict = False,
     ck_Expires = 0, ck_MaxAge = -1\<rparr>"

definition handleLogout :: "Options \<Rightarrow> Request \<Rightarrow> web \<Rightarrow> Response \<times> web" where
  "handleLogout opts r s =
     (let s' = (case cookie r of None \<Rightarrow> s | Some v \<Rightarrow> snd (with_disk (Delete_session (opt_Sessions opts) v) (\<lambda>_ t. ((), t)) s))
      in ((http_Redirect ''/'')\<lparr>set_cookie := Some cleared_cookie\<rparr>, s'))"

section \<open>Routes\<close>

definition builds_route :: "Options \<Rightarrow> Request \<Rightarrow> string \<Rightarrow> string \<Rightarrow> web \<Rightarrow> Response \<times> web" where
  "builds_route opts r name tail =
     (let (numStr, sub) = (case cut_at (CHR ''/'') tail of None \<Rightarrow> (tail, '''') | Some (a, b) \<Rightarrow> (a, b)) in
      case (case Atoi numStr of None \<Rightarrow> None | Some n \<Rightarrow> if n < 1 then None else Some n) of
        None \<Rightarrow> reply (http_Error ''invalid build number'' 400)
      | Some num \<Rightarrow>
          if sub = '''' then handleBuildLogPage opts r name num
          else if sub = ''ws'' \<or> sub = ''ws/'' then handleWorkspace opts r name num ''''
          else if HasPrefix sub ''ws/'' then handleWorkspace opts r name num (TrimPrefix sub ''ws/'')
          else reply http_NotFound)"

definition only_method :: "string \<Rightarrow> Request \<Rightarrow> (web \<Rightarrow> Response \<times> web) \<Rightarrow> web \<Rightarrow> Response \<times> web" where
  "only_method m r h = (if req_method r \<noteq> m then reply method_not_allowed else h)"

definition handleJobRoutes :: "Options \<Rightarrow> Request \<Rightarrow> web \<Rightarrow> Response \<times> web" where
  "handleJobRoutes opts r =
     (let rest = TrimPrefix (url_path r) ''/jobs/'' in
      if rest = ''new'' then
        (if req_method r = ''GET'' then
           (if QueryGet r ''kind'' = '''' then reply (render NewJobPicker)
            else renderJobFormFull opts '''' '''' '''' (normalizeView (QueryGet r ''view'')) None (normalizeJobKind (QueryGet r ''kind'')))
         else if req_method r = ''POST'' then handleJobCreate opts r
         else reply method_not_allowed)
      else let parts = SplitN 3 (CHR ''/'') rest; name = parts ! 0 in
        if name = '''' then reply http_NotFound
        else if \<not> validJobName name then reply (http_Error ''invalid job name'' 400)
        else if length parts = 1 then only_method ''GET'' r (handleJobDetail opts r name)
        else if length parts = 2 \<and> parts ! 1 = ''edit'' then
          (if req_method r = ''GET'' then handleJobEditGet opts r name
           else if req_method r = ''POST'' then handleJobEditPost opts r name
           else reply method_not_allowed)
        else if length parts = 2 \<and> parts ! 1 = ''run'' then only_method ''POST'' r (handleJobRun opts r name)
        else if length parts = 2 \<and> parts ! 1 = ''delete'' then only_method ''POST'' r (handleJobDelete opts r name)
        else if length parts = 2 \<and> parts ! 1 = ''rebuild'' then only_method ''POST'' r (handleJobRebuild opts r name)
        else if length parts = 2 \<and> parts ! 1 = ''rename'' then only_method ''POST'' r (handleJobRename opts r name)
        else if length parts = 2 \<and> parts ! 1 = ''builds'' then only_method ''GET'' r (handleBuildsIndex opts r name)
        else if length parts = 3 \<and> parts ! 1 = ''builds'' then builds_route opts r name (parts ! 2)
        else reply http_NotFound)"

text \<open>The address of a log stream (\<^verbatim>\<open>logtail.go\<close>); the stream itself follows the file.\<close>

definition parseLogTailPath :: "string \<Rightarrow> (string \<times> int) res" where
  "parseLogTailPath p =
     (let pre = ''/api/v1/builds/'' in
      if \<not> HasPrefix p pre then Inl (Msg (''path '' @ quoted p @ '' missing '' @ quoted pre @ '' prefix''))
      else let parts = Split (CHR ''/'') (TrimSuffix (TrimPrefix p pre) ''/log'') in
        if length parts \<noteq> 2 then Inl (Msg (''path '' @ quoted p @ '' does not match /api/v1/builds/{job}/{n}/log''))
        else let job = parts ! 0 in
          if job = '''' \<or> ContainsAny job [CHR ''/'', CHR 0x5C, CHR 0x00] \<or> job = ''.'' \<or> job = ''..''
          then Inl (Msg (''invalid job name '' @ quoted job))
          else (case Atoi (parts ! 1) of
              None \<Rightarrow> Inl (Msg (''invalid build number '' @ quoted (parts ! 1)))
            | Some num \<Rightarrow> if num < 1 then Inl (Msg (''invalid build number '' @ quoted (parts ! 1))) else Inr (job, num)))"

definition logTail_ServeHTTP :: "Options \<Rightarrow> Request \<Rightarrow> web \<Rightarrow> Response \<times> web" where
  "logTail_ServeHTTP opts r =
     (case parseLogTailPath (url_path r) of
        Inl e \<Rightarrow> reply (http_Error (opt_error opts e) 400)
      | Inr (job, num) \<Rightarrow> reply \<lparr>rs_status = 200, rs_location = '''', set_cookie = None, rs_body = LogStream job num\<rparr>)"

text \<open>The answer of \<^verbatim>\<open>http.FileServer\<close> (a file, a listing, a redirect or 404) is the status, the address and the content of \<open>opt_static\<close>.\<close>

definition static_file :: "Options \<Rightarrow> Request \<Rightarrow> Response" where
  "static_file opts r =
     (case opt_static opts (r\<lparr>url_path := TrimPrefix (url_path r) ''/static/''\<rparr>) of
        (st, loc, content) \<Rightarrow> \<lparr>rs_status = st, rs_location = loc, set_cookie = None, rs_body = StaticFile content\<rparr>)"

definition ServeHTTP :: "Options \<Rightarrow> Request \<Rightarrow> web \<Rightarrow> Response \<times> web" where
  "ServeHTTP opts r =
     (let p = url_path r in
      if p = ''/login'' then handleLogin opts r
      else if p = ''/logout'' then handleLogout opts r
      else if p = ''/jobs'' then requireSession opts (handleJobs opts) r
      else if HasPrefix p ''/jobs/'' then requireSession opts (handleJobRoutes opts) r
      else if p = ''/nodes'' then requireSession opts (handleNodes opts) r
      else if HasPrefix p ''/nodes/'' then requireSession opts (handleNodeRoutes opts) r
      else if HasPrefix p ''/api/v1/builds/'' then requireSession opts (logTail_ServeHTTP opts) r
      else if HasPrefix p ''/static/'' then reply (static_file opts r)
      else handleRoot opts r)"

section \<open>The gate\<close>

lemma sessionFromRequest_effect:
  assumes "sessionFromRequest opts r s = (x, s')"
  shows "\<exists>w. s' = set_disk w s \<and> sessions_only (opt_Sessions opts) (wb_disk s) w"
proof -
  have "s' = s \<or> (\<exists>v. s' = set_disk (snd (Lookup (opt_sess opts) (opt_Sessions opts) v (wb_disk s))) s)"
    using assms by (auto simp: sessionFromRequest_def with_disk_def split: option.splits if_splits sum.splits prod.splits)
      (metis snd_conv)+
  then show ?thesis
    using Lookup_sessions_only [OF surjective_pairing] sessions_only_refl set_disk_simps(5) by metis
qed

text \<open>
  C10. Without a session nothing happens. A request whose cookie is missing, malformed, unknown or expired, on any path but the sign-in
  one, is answered by the redirect to the start page, the sign-in page, a sign-out, a static file or 404; the scheduler's queue and
  results and the agent registry stay as they are, and on disk at most files of the session directory change.
\<close>

theorem session_gate:
  assumes "ServeHTTP opts r s = (rsp, s')" "url_path r \<noteq> ''/login''" "fst (sessionFromRequest opts r s) = None"
  shows "(rsp = http_Redirect ''/'' \<or> rsp = (http_Redirect ''/'')\<lparr>set_cookie := Some cleared_cookie\<rparr> \<or> rsp = renderLogin '''' \<or>
      rsp = http_NotFound \<or> HasPrefix (url_path r) ''/static/'' \<and> rsp = static_file opts r) \<and>
    (\<exists>w. s' = set_disk w s \<and> sessions_only (opt_Sessions opts) (wb_disk s) w)"
proof -
  obtain t where t: "sessionFromRequest opts r s = (None, t)" using assms(3) by (metis prod.collapse)
  note eff = sessionFromRequest_effect [OF t]
  have self: "\<exists>w. s = set_disk w s \<and> sessions_only (opt_Sessions opts) (wb_disk s) w"
    by (intro exI [of _ "wb_disk s"]) simp
  have req: "requireSession opts h r s = (http_Redirect ''/'', t)" for h by (simp add: requireSession_def t)
  have root: "handleRoot opts r s = (http_NotFound, s) \<or> handleRoot opts r s = (renderLogin '''', t)" by (simp add: handleRoot_def t)
  have out: "\<exists>w. snd (handleLogout opts r s) = set_disk w s \<and> sessions_only (opt_Sessions opts) (wb_disk s) w"
  proof (cases "cookie r")
    case None
    with self show ?thesis by (simp add: handleLogout_def)
  next
    case (Some v)
    obtain d w where d: "Delete_session (opt_Sessions opts) v (wb_disk s) = (d, w)" by (metis surj_pair)
    with Some Delete_sessions_only [OF d] show ?thesis by (auto simp: handleLogout_def with_disk_def)
  qed
  show ?thesis
  proof (cases "url_path r = ''/logout''")
    case True
    then have "rsp = (http_Redirect ''/'')\<lparr>set_cookie := Some cleared_cookie\<rparr>" "s' = snd (handleLogout opts r s)"
      using assms(1) by (simp_all add: ServeHTTP_def handleLogout_def Let_def)
    with out show ?thesis by blast
  next
    case False
    then have "(rsp, s') = (http_Redirect ''/'', t) \<or> HasPrefix (url_path r) ''/static/'' \<and> (rsp, s') = (static_file opts r, s) \<or> (rsp, s') = handleRoot opts r s"
      using assms(1,2) by (auto simp: ServeHTTP_def Let_def req reply_def split: if_splits)
    with root eff self show ?thesis by auto
  qed
qed


section \<open>Signing in and out\<close>

lemma VerifyPassword_world: "VerifyPassword g ps u pw w = (r, w') \<Longrightarrow> w' = w"
  by (auto simp: VerifyPassword_def io_defs dest!: ReadFile_world split: if_splits option.splits sum.splits prod.splits)

lemma handleLogin_cookie:
  assumes "handleLogin opts r s = (rsp, s')" "set_cookie rsp = Some ck"
  shows "\<exists>u x. PasswordEnabled (opt_Auth opts) \<and>
    VerifyPassword (opt_wolf opts) (opt_Passwords opts) (TrimSpace (FormValue r ''username'')) (FormValue r ''password'') (wb_disk s) = (Inr u, wb_disk s) \<and>
    Create (gowolf.truncate (opt_wolf opts)) (opt_sess opts) (opt_Sessions opts) (TrimSpace (FormValue r ''username'')) (wb_disk s) = (Inr x, wb_disk s') \<and>
    s' = set_disk (wb_disk s') s \<and> ck = session_cookie opts x"
proof -
  obtain v where v: "VerifyPassword (opt_wolf opts) (opt_Passwords opts) (TrimSpace (FormValue r ''username'')) (FormValue r ''password'') (wb_disk s) = (v, wb_disk s)"
    by (metis VerifyPassword_world surj_pair)
  show ?thesis
    using assms v
    by (auto simp: handleLogin_def Let_def with_disk_def reply_def method_not_allowed_def bad_request_def http_Error_def http_Redirect_def
        split: if_splits sum.splits prod.splits)
qed

lemma session_of_cookie:
  assumes "cookie q = Some v" "v \<noteq> ''''"
  shows "sessionFromRequest opts q s = (case Lookup (opt_sess opts) (opt_Sessions opts) v (wb_disk s) of
    (Inl _, w) \<Rightarrow> (None, set_disk w s) | (Inr x, w) \<Rightarrow> (Some x, set_disk w s))"
  using assms by (simp add: sessionFromRequest_def with_disk_def split: prod.split sum.split)

text \<open>
  C11. Only a password opens a session, and the session ends when it should. On a disk without faults, with a session file that reads
  back as it was written and a random generator that returns as many bytes as asked for: the sign-in page sets a cookie only when password
  sign-in is on and \<^verbatim>\<open>VerifyPassword\<close> accepted the name and password of the form; the cookie is for that name, \<^verbatim>\<open>HttpOnly\<close>
  and same-site; a request that carries it has that user's session up to the expiry and none later; and after a sign-out with it no
  request has it any more.
\<close>

theorem login_session:
  assumes "no_faults (wb_disk s)" "\<forall>n b. wc_rng (gowolf.truncate (opt_wolf opts)) n = Inr b \<longrightarrow> length b = n"
    and "\<forall>x w. Create (gowolf.truncate (opt_wolf opts)) (opt_sess opts) (opt_Sessions opts) (TrimSpace (FormValue r ''username'')) (wb_disk s) = (Inr x, w)
           \<longrightarrow> sess_dec (opt_sess opts) (sess_enc (opt_sess opts) x) = Some x"
    and "handleLogin opts r s = (rsp, s')" "set_cookie rsp = Some ck"
    and q: "cookie q = Some (ck_Value ck)"
  defines "later \<equiv> \<lambda>t v. set_disk (at_time t (wb_disk v)) v"
  shows "PasswordEnabled (opt_Auth opts) \<and> ck_HttpOnly ck \<and> ck_SameSiteStrict ck \<and> ck_Secure ck = CookieSecure opts \<and>
    (\<exists>u w. VerifyPassword (opt_wolf opts) (opt_Passwords opts) (TrimSpace (FormValue r ''username'')) (FormValue r ''password'') (wb_disk s) = (Inr u, w)) \<and>
    (\<exists>x. Username x = TrimSpace (FormValue r ''username'') \<and>
       (\<forall>t \<le> ck_Expires ck. sessionFromRequest opts q (later t s') = (Some x, later t s'))) \<and>
    (\<forall>t > ck_Expires ck. fst (sessionFromRequest opts q (later t s')) = None) \<and>
    (\<forall>t t'. fst (sessionFromRequest opts q (later t' (snd (handleLogout opts q (later t s'))))) = None)"
proof -
  let ?c = "opt_sess opts" and ?S = "opt_Sessions opts"
  from handleLogin_cookie [OF assms(4,5)] obtain u x where l: "PasswordEnabled (opt_Auth opts)"
    "VerifyPassword (opt_wolf opts) (opt_Passwords opts) (TrimSpace (FormValue r ''username'')) (FormValue r ''password'') (wb_disk s) = (Inr u, wb_disk s)"
    "Create (gowolf.truncate (opt_wolf opts)) ?c ?S (TrimSpace (FormValue r ''username'')) (wb_disk s) = (Inr x, wb_disk s')"
    "ck = session_cookie opts x" by blast
  note life = session_life [OF assms(1) assms(2) [rule_format] assms(3) [rule_format, OF l(3)] l(3)]
  have tok: "cookie q = Some (sess_Token x)" "sess_Token x \<noteq> ''''" using q l(4) life(2) by (auto simp: session_cookie_def validToken_def)
  have ex: "ck_Expires ck = clock (wb_disk s) + ss_ttl ?S" using l(4) life(3) by (simp add: session_cookie_def)
  have live: "sessionFromRequest opts q (later t s') = (Some x, later t s')" if "t \<le> ck_Expires ck" for t
    using life(4) [of t] that unfolding session_of_cookie [OF tok] by (simp add: later_def ex)
  have dead: "fst (sessionFromRequest opts q (later t s')) = None" if "t > ck_Expires ck" for t
    using life(5) [of t] that unfolding session_of_cookie [OF tok] by (simp add: later_def ex)
  have out: "wb_disk (snd (handleLogout opts q (later t s'))) = fs_del (ss_root ?S @ [sess_Token x @ ''.yaml'']) (at_time t (wb_disk s'))" for t
    using life(6) [of t] tok(1) by (simp add: handleLogout_def with_disk_def later_def)
  have gone: "fst (sessionFromRequest opts q (later t' (snd (handleLogout opts q (later t s'))))) = None" for t t'
    using life(7) [of t' t] unfolding session_of_cookie [OF tok] by (simp add: later_def out [unfolded later_def])
  show ?thesis using l life(1) live dead gone by (auto simp: session_cookie_def)
qed


section \<open>What a request can change\<close>

text \<open>\<open>disk_only h\<close>: whatever \<open>h\<close> does, it does on disk.\<close>

definition disk_only :: "(web \<Rightarrow> 'a \<times> web) \<Rightarrow> bool" where
  "disk_only h \<longleftrightarrow> (\<forall>s. \<exists>w. snd (h s) = set_disk w s)"

named_theorems disk_only_intros \<open>handlers that change the disk only\<close>

lemma disk_onlyI: "(\<And>s. \<exists>w. snd (h s) = set_disk w s) \<Longrightarrow> disk_only h"
  by (simp add: disk_only_def)

lemma disk_only_self: "\<exists>w. s = set_disk w s"
  by (intro exI [of _ "wb_disk s"]) simp

lemma disk_only_reply [disk_only_intros]: "disk_only (reply r)" "disk_only (\<lambda>s. (f s, s))"
  using disk_only_self by (simp_all add: disk_only_def reply_def)

lemma disk_only_with_disk [disk_only_intros]: "(\<And>r. disk_only (k r)) \<Longrightarrow> disk_only (with_disk m k)"
  by (auto simp: disk_only_def with_disk_def split: prod.split) (metis set_disk_simps(4))

lemma disk_only_with_disk_dep [disk_only_intros]: "(\<And>s r. disk_only (k s r)) \<Longrightarrow> disk_only (\<lambda>s. with_disk (m s) (k s) s)"
  using disk_only_with_disk by (metis (mono_tags, lifting) disk_only_def)

lemma disk_only_cases [disk_only_intros]:
  "disk_only x \<Longrightarrow> disk_only y \<Longrightarrow> disk_only (if b then x else y)"
  "(\<And>e. disk_only (f e)) \<Longrightarrow> (\<And>v. disk_only (g v)) \<Longrightarrow> disk_only (case r of Inl e \<Rightarrow> f e | Inr v \<Rightarrow> g v)"
  "disk_only x \<Longrightarrow> (\<And>v. disk_only (h v)) \<Longrightarrow> disk_only (case d of None \<Rightarrow> x | Some v \<Rightarrow> h v)"
  "(\<And>u v. disk_only (j u v)) \<Longrightarrow> disk_only (case p of (u, v) \<Rightarrow> j u v)"
  by (simp_all split: sum.split option.split prod.split)

lemma disk_only_form [disk_only_intros]: "disk_only (renderJobFormFull opts n spec e v j k)" "disk_only (renderJobForm opts n spec e v j)"
  unfolding renderJobForm_def renderJobFormFull_def by (intro disk_only_intros)+

lemma disk_only_pages [disk_only_intros]:
  "disk_only (handleJobs opts r)" "disk_only (handleBuildLogPage opts r n k)" "disk_only (handleJobDelete opts r n)" "disk_only (handleJobRename opts r n)"
  "disk_only (handleJobEditGet opts r n)" "disk_only (logTail_ServeHTTP opts r)" "disk_only (handleNodes opts r)"
  "disk_only (renderNodesNewPermanent e n l x d)" "disk_only (renderNodesNewGCEWithName e n c)" "disk_only (handlePendingNodeDetail opts r p)"
  unfolding handleJobs_def handleBuildLogPage_def handleJobDelete_def handleJobRename_def handleJobEditGet_def logTail_ServeHTTP_def
    handleNodes_def renderNodesNewPermanent_def renderNodesNewGCEWithName_def handlePendingNodeDetail_def Let_def
  by (intro disk_only_intros)+

lemma disk_only_history [disk_only_intros]: "disk_only (handleJobDetail opts r n)" "disk_only (handleBuildsIndex opts r n)"
  unfolding handleJobDetail_def handleBuildsIndex_def Let_def by (intro disk_only_intros)+

lemma disk_only_workspace [disk_only_intros]: "disk_only (handleWorkspace opts r n k sub)"
  using workspace_effects(1) [OF surjective_pairing] disk_only_self by (metis disk_onlyI)

lemma disk_only_posts [disk_only_intros]: "disk_only (handleJobCreate opts r)" "disk_only (handleJobEditPost opts r n)"
  unfolding handleJobCreate_def handleJobEditPost_def Let_def by (intro disk_only_intros)+

lemma disk_only_node_pages [disk_only_intros]: "disk_only (handleNodesNewCopyPicker opts r)" "disk_only (handleNodesNewPermanentFromCopy opts r a)" "disk_only (handleNodeDetail opts r a)"
proof -
  show "disk_only (handleNodesNewCopyPicker opts r)" unfolding handleNodesNewCopyPicker_def Let_def by (intro disk_only_intros)
  show "disk_only (handleNodesNewPermanentFromCopy opts r a)"
    unfolding handleNodesNewPermanentFromCopy_def Let_def renderNodesNewPermanent_def reply_def
    by (rule disk_only_with_disk) (simp add: disk_only_def disk_only_self split_beta)
  show "disk_only (handleNodeDetail opts r a)"
    unfolding handleNodeDetail_def Let_def
    by (rule disk_only_with_disk) (auto simp: disk_only_def disk_only_self handlePendingNodeDetail_def Let_def reply_def split: sum.split option.split)
qed

lemma disk_only_new_node [disk_only_intros]: "disk_only (handleNodesNew opts r sub)"
  unfolding handleNodesNew_def handleNodesNewPermanent_def handleNodesNewGCE_def Let_def by (intro disk_only_intros)

lemma disk_only_routes [disk_only_intros]: "disk_only h \<Longrightarrow> disk_only (only_method m r h)" "disk_only (builds_route opts r n rest)"
  unfolding only_method_def builds_route_def Let_def by (intro disk_only_intros | assumption)+


text \<open>\<open>pure_read h\<close>: \<open>h\<close> changes nothing at all; \<open>ro m\<close>: the file operation \<open>m\<close> changes nothing.\<close>

definition ro :: "'a io \<Rightarrow> bool" where "ro m \<longleftrightarrow> (\<forall>w. snd (m w) = w)"

definition pure_read :: "(web \<Rightarrow> 'a \<times> web) \<Rightarrow> bool" where "pure_read h \<longleftrightarrow> (\<forall>s. snd (h s) = s)"

named_theorems pure_read_intros \<open>handlers and file operations that change nothing\<close>

lemma ro_world: "(\<And>w r w'. m w = (r, w') \<Longrightarrow> w' = w) \<Longrightarrow> ro m"
  by (metis ro_def surjective_pairing)

lemma ro_combinators [pure_read_intros]:
  "ro (returnIO u)" "ro (raiseIO e')" "ro m \<Longrightarrow> (\<And>v. ro (f v)) \<Longrightarrow> ro (bindIO m f)" "ro m \<Longrightarrow> ro n \<Longrightarrow> ro (seqIO m n)"
  "ro m \<Longrightarrow> ro (attempt m)" "ro m \<Longrightarrow> ro (wrapIO t m)"
  "ro x \<Longrightarrow> ro y \<Longrightarrow> ro (if b then x else y)"
  "(\<And>e. ro (g e)) \<Longrightarrow> (\<And>v. ro (h v)) \<Longrightarrow> ro (case r of Inl e \<Rightarrow> g e | Inr v \<Rightarrow> h v)"
  "ro x \<Longrightarrow> (\<And>v. ro (h v)) \<Longrightarrow> ro (case d of None \<Rightarrow> x | Some v \<Rightarrow> h v)"
  by (auto simp: ro_def io_defs split: sum.split option.split prod.split) (metis snd_conv)+

lemma ro_calls [pure_read_intros]: "ro (os_Stat p)" "ro (os_Open p)" "ro (f_ReadAll p)" "ro (os_ReadDir p)" "ro (f_Flock p)" "ro (os_ReadFile p)"
proof -
  show c: "ro (os_Stat p)" "ro (os_Open p)" "ro (f_ReadAll p)" "ro (os_ReadDir p)" by (simp_all add: ro_def read_only_calls)
  show "ro (f_Flock p)" by (rule ro_world) (rule handle_noop(1))
  show "ro (os_ReadFile p)" unfolding os_ReadFile_def by (intro pure_read_intros c)
qed

lemma ro_LoadJob [pure_read_intros]: "ro (LoadJob c root n)"
  by (rule ro_world) (rule LoadJob_world)

lemma ro_ListJobs [pure_read_intros]: "ro (ListJobs c root)"
proof -
  have "ro (load_entries c root es)" for es
  proof (induction es)
    case (Cons e es)
    then show ?case by (cases e) (auto intro!: pure_read_intros)
  qed (simp add: pure_read_intros)
  then show ?thesis unfolding ListJobs_def Let_def by (intro pure_read_intros)
qed

lemma ro_agents [pure_read_intros]: "ro (LoadPendingAgent c root n)" "ro (ListPendingAgents c root)"
proof -
  show l: "ro (LoadPendingAgent c root n)" for n unfolding LoadPendingAgent_def by (intro pure_read_intros)
  have "ro (load_agents c root es)" for es
  proof (induction es)
    case (Cons e es)
    then show ?case by (cases e) (auto intro!: pure_read_intros l)
  qed (simp add: pure_read_intros)
  then show "ro (ListPendingAgents c root)" unfolding ListPendingAgents_def by (intro pure_read_intros)
qed

lemma ro_scan [pure_read_intros]: "ro (scanAllBuilds rdec root n t)"
proof -
  have "ro (scan_entries rdec b es)" for b es by (rule ro_world) (rule scan_entries_world)
  then show ?thesis unfolding scanAllBuilds_def Let_def by (intro pure_read_intros)
qed


lemma ro_creds [pure_read_intros]: "ro (credentialOptions opts)"
proof -
  have "ro (readIndex c st)" for c st unfolding readIndex_def by (intro pure_read_intros)
  then have "ro (ListCreds c st)" for c st unfolding ListCreds_def by (intro pure_read_intros)
  then show ?thesis unfolding credentialOptions_def
    by (cases "opt_Credstore opts") (auto intro!: pure_read_intros split: prod.split)
qed

lemma pure_read_reply [pure_read_intros]: "pure_read (reply r)" "pure_read (\<lambda>s. (f s, s))"
  by (simp_all add: pure_read_def reply_def)

lemma pure_read_with_disk: "ro m \<Longrightarrow> (\<And>r. pure_read (k r)) \<Longrightarrow> pure_read (with_disk m k)"
  by (simp add: pure_read_def with_disk_read ro_def)

lemma pure_read_with_disk_dep [pure_read_intros]: "(\<And>s. ro (m s)) \<Longrightarrow> (\<And>s r. pure_read (k s r)) \<Longrightarrow> pure_read (\<lambda>s. with_disk (m s) (k s) s)"
  by (simp add: pure_read_def with_disk_read ro_def)

declare pure_read_with_disk [pure_read_intros]

lemma pure_read_cases [pure_read_intros]:
  "pure_read x \<Longrightarrow> pure_read y \<Longrightarrow> pure_read (if b then x else y)"
  "(\<And>e. pure_read (f e)) \<Longrightarrow> (\<And>v. pure_read (g v)) \<Longrightarrow> pure_read (case r of Inl e \<Rightarrow> f e | Inr v \<Rightarrow> g v)"
  "pure_read x \<Longrightarrow> (\<And>v. pure_read (h v)) \<Longrightarrow> pure_read (case d of None \<Rightarrow> x | Some v \<Rightarrow> h v)"
  "(\<And>u v. pure_read (j u v)) \<Longrightarrow> pure_read (case p of (u, v) \<Rightarrow> j u v)"
  by (simp_all split: sum.split option.split prod.split)

lemma pure_read_form [pure_read_intros]: "pure_read (renderJobFormFull opts n spec e v j k)" "pure_read (renderJobForm opts n spec e v j)"
  unfolding renderJobForm_def renderJobFormFull_def by (intro pure_read_intros)+

lemma pure_read_pages [pure_read_intros]:
  "pure_read (handleJobs opts r)" "pure_read (handleBuildLogPage opts r n k)" "pure_read (handleJobEditGet opts r n)" "pure_read (logTail_ServeHTTP opts r)"
  "pure_read (handleNodes opts r)" "pure_read (handleJobDetail opts r n)" "pure_read (handleBuildsIndex opts r n)"
  unfolding handleJobs_def handleBuildLogPage_def handleJobEditGet_def logTail_ServeHTTP_def handleNodes_def handleJobDetail_def
    handleBuildsIndex_def Let_def
  by (intro pure_read_intros)+

lemma pure_read_workspace [pure_read_intros]: "pure_read (handleWorkspace opts r n k sub)"
  using workspace_effects(1) [OF surjective_pairing] by (metis pure_read_def)

lemma pure_read_node_pages [pure_read_intros]: "pure_read (handleNodesNewCopyPicker opts r)" "pure_read (handleNodesNewPermanentFromCopy opts r a)" "pure_read (handleNodeDetail opts r a)"
proof -
  show "pure_read (handleNodesNewCopyPicker opts r)" unfolding handleNodesNewCopyPicker_def Let_def by (intro pure_read_intros)
  show "pure_read (handleNodesNewPermanentFromCopy opts r a)"
    unfolding handleNodesNewPermanentFromCopy_def Let_def renderNodesNewPermanent_def reply_def
    by (intro pure_read_with_disk pure_read_intros) (simp add: pure_read_def split_beta)
  show "pure_read (handleNodeDetail opts r a)"
    unfolding handleNodeDetail_def Let_def
    by (intro pure_read_with_disk pure_read_intros) (auto simp: pure_read_def handlePendingNodeDetail_def Let_def reply_def split: sum.split option.split)
qed

lemma pure_read_routes [pure_read_intros]: "pure_read h \<Longrightarrow> pure_read (only_method m r h)" "pure_read (builds_route opts r n rest)"
  unfolding only_method_def builds_route_def Let_def by (intro pure_read_intros | assumption)+

lemma only_post: "req_method r \<noteq> ''POST'' \<Longrightarrow> only_method ''POST'' r h = reply method_not_allowed"
  by (simp add: only_method_def)

lemma pure_read_get:
  assumes "req_method r \<noteq> ''POST''"
  shows "pure_read (handleJobRoutes opts r)" "pure_read (handleNodeRoutes opts r)"
proof -
  have "pure_read (handleNodesNewPermanent opts r)" "pure_read (handleNodesNewGCE opts r)"
    unfolding handleNodesNewPermanent_def handleNodesNewGCE_def renderNodesNewPermanent_def renderNodesNewGCEWithName_def
    by (simp_all only: assms if_False) (intro pure_read_intros)+
  then have "pure_read (handleNodesNew opts r sub)" for sub
    unfolding handleNodesNew_def by (intro pure_read_intros)
  then show "pure_read (handleNodeRoutes opts r)"
    unfolding handleNodeRoutes_def Let_def by (simp only: assms simp_thms if_False) (intro pure_read_intros)
  show "pure_read (handleJobRoutes opts r)"
    unfolding handleJobRoutes_def Let_def by (simp only: assms only_post [OF assms] simp_thms if_False) (intro pure_read_intros)
qed

text \<open>
  The job name in the address. \<open>taken_from opts name s j\<close>: \<open>j\<close> is the spec on disk under \<open>name\<close>, or the snapshot of the latest build listed
  under \<open>name\<close>. \<open>claimed opts s q w\<close>: \<open>nextBuildNumber\<close> of the job's own name gave the number of \<open>q\<close>, and \<open>w\<close> is the disk after that and after the
  snapshot of the spec.
\<close>

definition job_of_url :: "Request \<Rightarrow> string" where
  "job_of_url r = SplitN 3 (CHR ''/'') (TrimPrefix (url_path r) ''/jobs/'') ! 0"

definition taken_from :: "Options \<Rightarrow> string \<Rightarrow> web \<Rightarrow> Job \<Rightarrow> bool" where
  "taken_from opts name s j \<longleftrightarrow> fst (LoadJob (opt_codec opts) (opt_root opts) name (wb_disk s)) = Inr j \<or>
     (\<exists>k. fst (findMostRecentBuild (opt_result opts) (opt_root opts) name (wb_disk s)) = Inr k \<and>
          fst (LoadSpecSnapshot (opt_codec opts) (opt_root opts) name k (wb_disk s)) = Inr j)"

definition claimed :: "Options \<Rightarrow> web \<Rightarrow> queuedJob \<Rightarrow> world \<Rightarrow> bool" where
  "claimed opts s q w \<longleftrightarrow> (\<exists>u. nextBuildNumber (opt_root opts) (Name (qj_job q)) (wb_disk s) = (Inr (qj_num q), u) \<and>
     w = snd (SaveSpecSnapshot (opt_codec opts) (opt_root opts) (Name (qj_job q)) (qj_num q) (Some (qj_job q)) u))"

text \<open>
  \<open>effect_ok opts name s rsp t\<close>: the request changed the disk only; or it claimed one build number, queued exactly that build, with
  a new completion channel, and sent the browser to the page with that number under \<open>name\<close>; or it switched one agent on or off
  and sent the browser to that agent's page.
\<close>

definition effect_ok :: "Options \<Rightarrow> string \<Rightarrow> web \<Rightarrow> Response \<Rightarrow> web \<Rightarrow> bool" where
  "effect_ok opts name s rsp t \<longleftrightarrow> (\<exists>w. t = set_disk w s) \<or>
     (\<exists>w q. t = set_disk w (s\<lparr>wb_sched := (wb_sched s)\<lparr>queue := queue (wb_sched s) @ [q], chans := chans (wb_sched s) @ [[]]\<rparr>\<rparr>)
        \<and> taken_from opts name s (qj_job q) \<and> qj_parent q = None \<and> qj_done q = length (chans (wb_sched s)) \<and> claimed opts s q w
        \<and> rsp = http_Redirect (build_url name (qj_num q))) \<or>
     (\<exists>x b. t = s\<lparr>wb_agents := SetDisabled x b (wb_agents s)\<rparr> \<and> rsp = http_Redirect (''/nodes/'' @ x))"

definition tame :: "Options \<Rightarrow> string \<Rightarrow> (web \<Rightarrow> Response \<times> web) \<Rightarrow> bool" where
  "tame opts name h \<longleftrightarrow> (\<forall>s. effect_ok opts name s (fst (h s)) (snd (h s)))"

named_theorems tame_intros \<open>handlers with the effects of \<open>effect_ok\<close>\<close>

lemma disk_only_tame: "disk_only h \<Longrightarrow> tame opts name h"
  by (auto simp: disk_only_def tame_def effect_ok_def)

lemma disk_only_effect: "disk_only h \<Longrightarrow> h s = (rsp, t) \<Longrightarrow> effect_ok opts name s rsp t"
  using disk_only_tame by (metis fst_conv tame_def snd_conv)

lemma redirect_effect:
  assumes "taken_from opts n s j"
  shows "effect_ok opts n s (fst (enqueue_and_redirect opts n j s)) (snd (enqueue_and_redirect opts n j s))"
proof (cases "alloc_build (opt_codec opts) (opt_root opts) (Some j) None (wb_sched s)")
  case (Pair r sd)
  have frame: "sd = (wb_sched s)\<lparr>disk := disk sd, chans := chans sd\<rparr>" "isl r \<Longrightarrow> chans sd = chans (wb_sched s)"
    "\<And>q. r = Inr q \<Longrightarrow> chans sd = chans (wb_sched s) @ [[]] \<and> qj_parent q = None \<and> qj_job q = j \<and> qj_done q = length (chans (wb_sched s))
       \<and> claimed opts s q (disk sd)"
    using Pair by (auto simp: alloc_build_def Let_def claimed_def split: if_splits prod.splits sum.splits)
  show ?thesis
  proof (cases r)
    case (Inl e)
    then have "sd = (wb_sched s)\<lparr>disk := disk sd\<rparr>" using frame(1,2) by simp
    then have "s\<lparr>wb_sched := sd\<rparr> = set_disk (disk sd) s" by (simp add: set_disk_def)
    with Inl Pair show ?thesis
      by (auto simp: enqueue_and_redirect_def run_job_def Enqueue_def enqueueWithParent_def effect_ok_def)
  next
    case (Inr q)
    note q = frame(3) [OF Inr]
    have "append_queue q sd = (wb_sched s)\<lparr>queue := queue (wb_sched s) @ [q], chans := chans (wb_sched s) @ [[]], disk := disk sd\<rparr>"
      using frame(1) q by (cases sd; cases "wb_sched s") (simp add: append_queue_def)
    then have t: "s\<lparr>wb_sched := append_queue q sd\<rparr>
      = set_disk (disk sd) (s\<lparr>wb_sched := (wb_sched s)\<lparr>queue := queue (wb_sched s) @ [q], chans := chans (wb_sched s) @ [[]]\<rparr>\<rparr>)"
      by (simp add: set_disk_def)
    have "enqueue_and_redirect opts n j s = (http_Redirect (build_url n (qj_num q)), s\<lparr>wb_sched := append_queue q sd\<rparr>)"
      using Inr Pair by (simp add: enqueue_and_redirect_def run_job_def Enqueue_def enqueueWithParent_def)
    with q t assms show ?thesis unfolding effect_ok_def by fastforce
  qed
qed


lemma tame_with_disk [tame_intros]: "ro m \<Longrightarrow> (\<And>r. tame opts n (k r)) \<Longrightarrow> tame opts n (with_disk m k)"
  by (simp add: tame_def with_disk_read ro_def)

lemma tame_cases [tame_intros]:
  "tame opts n x \<Longrightarrow> tame opts n y \<Longrightarrow> tame opts n (if b then x else y)"
  "(\<And>e. tame opts n (f e)) \<Longrightarrow> (\<And>v. tame opts n (g v)) \<Longrightarrow> tame opts n (case r of Inl e \<Rightarrow> f e | Inr v \<Rightarrow> g v)"
  "tame opts n (reply rsp)"
  by (simp_all add: disk_only_tame disk_only_intros split: sum.split)

text \<open>A build is queued with the spec that was just loaded.\<close>

lemma tame_load: "ro m \<Longrightarrow> (\<And>s j. fst (m (wb_disk s)) = Inr j \<Longrightarrow> effect_ok opts n s (fst (k (Inr j) s)) (snd (k (Inr j) s)))
  \<Longrightarrow> (\<And>e. tame opts n (k (Inl e))) \<Longrightarrow> tame opts n (with_disk m k)"
  unfolding tame_def
proof
  fix s
  assume m: "ro m" and k: "\<And>s j. fst (m (wb_disk s)) = Inr j \<Longrightarrow> effect_ok opts n s (fst (k (Inr j) s)) (snd (k (Inr j) s))"
    and e: "\<And>e. \<forall>s. effect_ok opts n s (fst (k (Inl e) s)) (snd (k (Inl e) s))"
  have "with_disk m k s = k (fst (m (wb_disk s))) s" using m by (simp add: ro_def with_disk_read)
  then show "effect_ok opts n s (fst (with_disk m k s)) (snd (with_disk m k s))"
    using k [of s] e by (cases "fst (m (wb_disk s))") simp_all
qed

lemma ro_snapshots [pure_read_intros]: "ro (LoadSpecSnapshot c root n k)" "ro (findMostRecentBuild rdec root n)"
proof -
  show "ro (LoadSpecSnapshot c root n k)" unfolding LoadSpecSnapshot_def by (intro pure_read_intros)
  show "ro (findMostRecentBuild rdec root n)" by (rule ro_world) (rule findMostRecentBuild_world)
qed

lemma tame_actions [tame_intros]:
  "tame opts n (handleJobRun opts r n)" "tame opts n (handleJobRebuild opts r n)" "tame opts n (handleNodeDisable opts r a b)"
proof -
  have spec: "tame opts n (with_disk (LoadJob (opt_codec opts) (opt_root opts) n) (\<lambda>res. case res of
      Inl e \<Rightarrow> reply (http_Error (''load job: '' @ opt_error opts e) 404) | Inr job \<Rightarrow> enqueue_and_redirect opts n job))"
    by (rule tame_load) (auto intro!: pure_read_intros tame_intros redirect_effect simp: taken_from_def)
  then show "tame opts n (handleJobRun opts r n)" unfolding handleJobRun_def by (rule tame_cases(1) [OF tame_cases(3)])
  show "tame opts n (handleJobRebuild opts r n)"
    unfolding handleJobRebuild_def
  proof (rule tame_cases(1) [OF tame_cases(3)], rule tame_cases(1) [OF spec], rule tame_load)
    fix s k
    let ?load = "LoadSpecSnapshot (opt_codec opts) (opt_root opts) n k"
    assume k: "fst (findMostRecentBuild (opt_result opts) (opt_root opts) n (wb_disk s)) = Inr k"
    have rd: "with_disk ?load h s = h (fst (?load (wb_disk s))) s" for h :: "Job res \<Rightarrow> web \<Rightarrow> Response \<times> web"
      using ro_snapshots(1) by (intro with_disk_read) (simp add: ro_def)
    have "effect_ok opts n s (fst (enqueue_and_redirect opts n j s)) (snd (enqueue_and_redirect opts n j s))"
      if "fst (?load (wb_disk s)) = Inr j" for j using k that by (intro redirect_effect) (auto simp: taken_from_def)
    moreover have "effect_ok opts n s (fst (reply x s)) (snd (reply x s))" for x
      using disk_only_self by (auto simp: effect_ok_def reply_def)
    ultimately show "effect_ok opts n s
        (fst ((case Inr k of Inl e \<Rightarrow> reply (http_Error (''find latest build: '' @ opt_error opts e) 500) | Inr target \<Rightarrow>
           if target = 0 then reply (http_Error ''no previous build to rebuild'' 400)
           else with_disk (LoadSpecSnapshot (opt_codec opts) (opt_root opts) n target) (\<lambda>res2. case res2 of
                Inl e \<Rightarrow> if errors_Is e ErrNotExist
                  then reply (http_Error (''build '' @ Itoa target @ '' has no spec snapshot; use ?spec=current to rebuild with the live spec'') 409)
                  else reply (http_Error (''load snapshot: '' @ opt_error opts e) 500)
              | Inr spec \<Rightarrow> enqueue_and_redirect opts n spec)) s))
        (snd ((case Inr k of Inl e \<Rightarrow> reply (http_Error (''find latest build: '' @ opt_error opts e) 500) | Inr target \<Rightarrow>
           if target = 0 then reply (http_Error ''no previous build to rebuild'' 400)
           else with_disk (LoadSpecSnapshot (opt_codec opts) (opt_root opts) n target) (\<lambda>res2. case res2 of
                Inl e \<Rightarrow> if errors_Is e ErrNotExist
                  then reply (http_Error (''build '' @ Itoa target @ '' has no spec snapshot; use ?spec=current to rebuild with the live spec'') 409)
                  else reply (http_Error (''load snapshot: '' @ opt_error opts e) 500)
              | Inr spec \<Rightarrow> enqueue_and_redirect opts n spec)) s))"
      by (cases "fst (?load (wb_disk s))") (simp_all add: rd)
  qed (auto intro!: pure_read_intros tame_intros ro_snapshots)
  show "tame opts n (handleNodeDisable opts r a b)"
    using disk_only_self by (auto simp: tame_def effect_ok_def handleNodeDisable_def)
qed

lemma tame_routes: "tame opts (job_of_url r) (handleJobRoutes opts r)" "tame opts n (handleNodeRoutes opts r)"
proof -
  note k = disk_only_intros [THEN disk_only_tame]
  show "tame opts (job_of_url r) (handleJobRoutes opts r)"
    unfolding handleJobRoutes_def only_method_def Let_def job_of_url_def by (intro tame_intros k)
  show "tame opts n (handleNodeRoutes opts r)"
    unfolding handleNodeRoutes_def Let_def by (intro tame_intros k)
qed


lemma handleLogout_effect: "\<exists>w. snd (handleLogout opts r s) = set_disk w s \<and> sessions_only (opt_Sessions opts) (wb_disk s) w"
proof (cases "cookie r")
  case None
  then show ?thesis by (intro exI [of _ "wb_disk s"]) (simp add: handleLogout_def)
next
  case (Some v)
  obtain d w where d: "Delete_session (opt_Sessions opts) v (wb_disk s) = (d, w)" by (metis surj_pair)
  with Some Delete_sessions_only [OF d] show ?thesis by (auto simp: handleLogout_def with_disk_def)
qed

lemma handleLogin_disk_only: "disk_only (handleLogin opts r)" "req_method r \<noteq> ''POST'' \<Longrightarrow> handleLogin opts r s = (method_not_allowed, s)"
  by (auto simp: handleLogin_def reply_def) (auto simp: handleLogin_def Let_def intro!: disk_only_intros)

text \<open>The request either ran a guarded handler on the state the session lookup left, or was answered without one.\<close>

lemma ServeHTTP_cases:
  assumes "ServeHTTP opts r s = (rsp, s')"
  shows "(rsp, s') = handleLogin opts r s \<or> s' = snd (handleLogout opts r s) \<or> s' = s \<or>
    (\<exists>x t. sessionFromRequest opts r s = (x, t) \<and> (s' = t \<or>
       (\<exists>h \<in> {handleJobs opts r, handleJobRoutes opts r, handleNodes opts r, handleNodeRoutes opts r, logTail_ServeHTTP opts r}. h t = (rsp, s'))))"
proof -
  obtain x t where t: "sessionFromRequest opts r s = (x, t)" by (metis surj_pair)
  have q: "requireSession opts h r s = (if x = None then (http_Redirect ''/'', t) else h r t)" for h by (simp add: requireSession_def t split: option.split)
  have root: "snd (handleRoot opts r s) = s \<or> snd (handleRoot opts r s) = t" by (simp add: handleRoot_def t split: option.split)
  show ?thesis
    using assms t root
    by (auto simp: ServeHTTP_def Let_def q reply_def split: if_splits)
qed

text \<open>
  C9. What one request can do to the server. A request that is not a \<^verbatim>\<open>POST\<close> changes nothing but files of the session directory. Any request,
  after the session lookup, changes the disk only; or it claims one build number for the spec it loaded under the job name of the
  address, appends that one build to the queue with a fresh completion channel, and sends the browser to the page with that number
  under the name of the address; or it flips the offline switch of one agent and sends the browser to that agent's page. Results, running builds
  and registrations are never touched. The number is claimed under the name inside the spec, which after a rename is not always
  the one of the address (\<open>rebuild_after_rename\<close>).
\<close>

theorem request_effects:
  assumes "ServeHTTP opts r s = (rsp, s')"
  shows "(req_method r \<noteq> ''POST'' \<longrightarrow> (\<exists>w. s' = set_disk w s \<and> sessions_only (opt_Sessions opts) (wb_disk s) w)) \<and>
    (\<exists>w. sessions_only (opt_Sessions opts) (wb_disk s) w \<and> effect_ok opts (job_of_url r) (set_disk w s) rsp s')"
proof -
  have self: "\<exists>w. s = set_disk w s \<and> sessions_only (opt_Sessions opts) (wb_disk s) w" by (intro exI [of _ "wb_disk s"]) simp
  have disk: "\<exists>w. s' = set_disk w s \<and> sessions_only (opt_Sessions opts) (wb_disk s) w \<Longrightarrow> ?thesis"
    by (auto simp: effect_ok_def)
  from ServeHTTP_cases [OF assms] consider
      (login) "(rsp, s') = handleLogin opts r s" | (out) "s' = snd (handleLogout opts r s)" | (same) "s' = s"
    | (gate) x t where "sessionFromRequest opts r s = (x, t)" "s' = t"
    | (page) x t h where "sessionFromRequest opts r s = (x, t)" "h t = (rsp, s')"
        "h \<in> {handleJobs opts r, handleJobRoutes opts r, handleNodes opts r, handleNodeRoutes opts r, logTail_ServeHTTP opts r}" by metis
  then show ?thesis
  proof cases
    case login
    then show ?thesis
      using disk_only_effect [OF handleLogin_disk_only(1), of opts r s rsp s'] handleLogin_disk_only(2) [of r opts s] self
      by (intro conjI exI [of _ "wb_disk s"]) auto
  next
    case out
    with handleLogout_effect disk show ?thesis by metis
  next
    case same
    with self disk show ?thesis by metis
  next
    case gate
    with sessionFromRequest_effect disk show ?thesis by metis
  next
    case page
    from sessionFromRequest_effect [OF page(1)] obtain w where w: "t = set_disk w s" "sessions_only (opt_Sessions opts) (wb_disk s) w" by blast
    have "tame opts (job_of_url r) h" using page(3) tame_routes disk_only_intros [THEN disk_only_tame] by auto
    then have "effect_ok opts (job_of_url r) t rsp s'" using page(2) unfolding tame_def by (metis fst_conv snd_conv)
    moreover have "pure_read h" if "req_method r \<noteq> ''POST''" using page(3) pure_read_get [OF that] pure_read_pages by auto
    then have "s' = t" if "req_method r \<noteq> ''POST''" using that page(2) unfolding pure_read_def by (metis snd_conv)
    ultimately show ?thesis using w by blast
  qed
qed


section \<open>Evaluated instances\<close>

theorem session_gate_witness:
  "fst (ServeHTTP demo_opts (post ''/jobs/deploy/delete'' []) (demo_web demo_world)) = http_Redirect ''/''
   \<and> (\<exists>w. snd (ServeHTTP demo_opts (post ''/jobs/deploy/delete'' []) (demo_web demo_world)) = set_disk w (demo_web demo_world)
          \<and> sessions_only demo_sessions demo_world w)"
proof -
  let ?r = "post ''/jobs/deploy/delete'' []"
  have none: "sessionFromRequest demo_opts ?r (demo_web demo_world) = (None, demo_web demo_world)"
    by (simp add: sessionFromRequest_def post_def)
  then have "fst (ServeHTTP demo_opts ?r (demo_web demo_world)) = http_Redirect ''/''"
    by (simp add: ServeHTTP_def Let_def post_def HasPrefix_def requireSession_def)
  moreover have "url_path ?r \<noteq> ''/login''" "opt_Sessions demo_opts = demo_sessions" by (simp_all add: post_def demo_opts_def)
  ultimately show ?thesis
    using session_gate [of demo_opts ?r "demo_web demo_world", OF surjective_pairing] none by simp
qed

text \<open>A server with one user, before and after the sign-in.\<close>

definition demo_users :: world where
  "demo_users = \<lparr>files = [([''auth''], DirN 0), ([''auth'', ''users''], DirN 0),
      ([''auth'', ''users'', ''kaleb.pbkdf2''], FileN (encodePBKDF2File 100 ''salt'' ''hunter2k'') 1)],
     clock = 7, fault = (\<lambda>_ _. False), torn = (\<lambda>_. 0)\<rparr>"

definition demo_signin :: Request where
  "demo_signin = post ''/login'' [(''username'', '' kaleb ''), (''password'', ''hunter2'')]"

definition demo_signed_in :: web where
  "demo_signed_in = snd (handleLogin demo_opts demo_signin (demo_web demo_users))"

definition demo_cookie :: string where
  "demo_cookie = hex_EncodeToString (replicate 32 (CHR ''r''))"

lemma demo_login_session:
  "fst (Create (gowolf.truncate (opt_wolf demo_opts)) (opt_sess demo_opts) (opt_Sessions demo_opts) ''kaleb'' demo_users) = Inr demo_session"
proof -
  have S: "demo_sessions = \<lparr>ss_root = [''auth'', ''sessions''], ss_ttl = 3600\<rparr>" by (simp add: demo_sessions_def NewSessionStore_def)
  have tok: "randomToken demo_gowolf = Inr (hex_EncodeToString (replicate 32 (CHR ''r'')))"
    by (simp add: randomToken_def RandBytes_def demo_gowolf_def rc_err_def)
  then have "validToken (hex_EncodeToString (replicate 32 (CHR ''r'')))"
    by (intro randomToken_valid [of demo_gowolf]) (auto simp: demo_gowolf_def)
  then have p: "session_path demo_sessions (hex_EncodeToString (replicate 32 (CHR ''r''))) = [''auth'', ''sessions'', hex_EncodeToString (replicate 32 (CHR ''r'')) @ ''.yaml'']"
    by (simp add: validToken_path demo_sessions_def NewSessionStore_def)
  have "fst (Create demo_gowolf demo_sess_codec demo_sessions ''kaleb'' demo_users) = Inr demo_session"
    unfolding S
    by (simp add: Create_def tok write_session_def p [unfolded S] Let_def io_defs os_MkdirAll_def demo_users_def
        fs_get_def fs_put_def os_WriteFile_def os_OpenFile_create_def f_Truncate_def f_Write_def f_Close_def is_dir_def file_at_def demo_session_def)
  then show ?thesis by (simp add: demo_opts_def demo_auth_def gowolf.extend_def gowolf.truncate_def demo_gowolf_def)
qed

lemma demo_login_verified: "VerifyPassword demo_auth demo_passwords ''kaleb'' ''hunter2'' demo_users = (Inr (), demo_users)"
proof -
  have "validateUsername ''kaleb'' = None" by code_simp
  moreover have h: "hashPath demo_passwords ''kaleb'' = [''auth'', ''users'', ''kaleb.pbkdf2'']" by code_simp
  have "os_ReadFile (hashPath demo_passwords ''kaleb'') demo_users = (Inr (encodePBKDF2File 100 ''salt'' ''hunter2k''), demo_users)"
    by (intro ReadFile_ok) (simp_all add: h demo_users_def file_at_def fs_get_def)
  moreover have "decodePBKDF2File (encodePBKDF2File 100 ''salt'' ''hunter2k'') = Inr (100, ''salt'', ''hunter2k'')"
    by (rule decode_encode) (simp_all add: pbkdf2MinIterations_def pbkdf2MaxIterations_def)
  moreover have "PBKDF2HMACSHA256 demo_auth ''hunter2'' ''salt'' 100 8 = Inr ''hunter2k''" by code_simp
  ultimately show ?thesis
    by (simp add: VerifyPassword_def demo_passwords_def NewPasswordStore_def io_defs constantTimeEqual_iff [OF demo_auth_ok])
qed

lemma demo_login_user: "TrimSpace (FormValue demo_signin ''username'') = ''kaleb''" "FormValue demo_signin ''password'' = ''hunter2''"
  by code_simp+

lemma demo_login_cookie: "set_cookie (fst (handleLogin demo_opts demo_signin (demo_web demo_users))) = Some (session_cookie demo_opts demo_session)"
proof -
  have "PasswordEnabled (opt_Auth demo_opts)" "opt_wolf demo_opts = demo_auth" "opt_Passwords demo_opts = demo_passwords"
    by (simp_all add: demo_opts_def demo_passwords_def NewPasswordStore_def)
  then show ?thesis
    using demo_login_session demo_login_verified
    by (auto simp: handleLogin_def Let_def demo_login_user with_disk_def reply_def demo_signin_def [THEN arg_cong, of parse_ok]
        demo_signin_def [THEN arg_cong, of req_method] post_def http_Redirect_def split: prod.splits)
qed

theorem login_session_witness:
  "\<exists>x. Username x = ''kaleb'' \<and>
     sessionFromRequest demo_opts ((get ''/jobs'')\<lparr>cookie := Some demo_cookie\<rparr>) (set_disk (at_time 3000 (wb_disk demo_signed_in)) demo_signed_in)
       = (Some x, set_disk (at_time 3000 (wb_disk demo_signed_in)) demo_signed_in)"
proof -
  let ?s = "demo_web demo_users"
  note ck = demo_login_cookie and user = demo_login_user(1)
  have "no_faults (wb_disk ?s)" by (simp add: no_faults_def demo_users_def)
  moreover have "\<forall>n b. wc_rng (gowolf.truncate (opt_wolf demo_opts)) n = Inr b \<longrightarrow> length b = n"
    by (auto simp: demo_opts_def demo_auth_def gowolf.extend_def gowolf.truncate_def demo_gowolf_def)
  moreover have "sess_dec (opt_sess demo_opts) (sess_enc (opt_sess demo_opts) x) = Some x"
    if "Create (gowolf.truncate (opt_wolf demo_opts)) (opt_sess demo_opts) (opt_Sessions demo_opts) ''kaleb'' (wb_disk ?s) = (Inr x, w)" for x w
  proof -
    from that demo_login_session have "x = demo_session" by simp
    then show ?thesis by (simp add: demo_opts_def demo_sess_codec_def demo_session_def)
  qed
  moreover have "cookie ((get ''/jobs'')\<lparr>cookie := Some demo_cookie\<rparr>) = Some (ck_Value (session_cookie demo_opts demo_session))"
    by (simp add: session_cookie_def demo_session_def demo_cookie_def)
  ultimately have "\<exists>x. Username x = TrimSpace (FormValue demo_signin ''username'') \<and>
      (\<forall>t \<le> ck_Expires (session_cookie demo_opts demo_session). sessionFromRequest demo_opts ((get ''/jobs'')\<lparr>cookie := Some demo_cookie\<rparr>)
          (set_disk (at_time t (wb_disk demo_signed_in)) demo_signed_in) = (Some x, set_disk (at_time t (wb_disk demo_signed_in)) demo_signed_in))"
    using login_session [of ?s demo_opts demo_signin, OF _ _ _ surjective_pairing ck] unfolding demo_signed_in_def user by blast
  then show ?thesis by (auto simp: user session_cookie_def demo_session_def)
qed


theorem request_effects_witness:
  "\<exists>w. snd (ServeHTTP demo_opts (get ''/jobs'') (demo_web demo_world)) = set_disk w (demo_web demo_world) \<and> sessions_only demo_sessions demo_world w"
proof -
  have "req_method (get ''/jobs'') \<noteq> ''POST''" "opt_Sessions demo_opts = demo_sessions" by (simp_all add: get_def demo_opts_def)
  then show ?thesis using request_effects [of demo_opts "get ''/jobs''" "demo_web demo_world", OF surjective_pairing] by simp
qed

end
