(* ===== verification/Setup.thy ===== *)
theory Setup
  imports WebServer Authz PendingAgent
begin

text \<open>
  Starting a server and its first administrator: the settings file (\<^verbatim>\<open>internal/server/serverconfig.go\<close>), the setup token
  (\<^verbatim>\<open>bootstrap.go\<close>), the one-shot page that consumes it (\<^verbatim>\<open>setup.go\<close>), the dispatcher in front of the two servers
  (\<^verbatim>\<open>dispatcher.go\<close>), and how \<^verbatim>\<open>cmd/wolfci/main.go\<close> puts them together.
\<close>

section \<open>The settings file\<close>

record ServerConfig =
  cfg_ListenAddr :: string
  cfg_Cert :: string
  cfg_Key :: string
  cfg_CACert :: string
  cfg_WorkDir :: string
  cfg_AuthDir :: string
  ShutdownDrainTimeout :: string
  PluginDir :: string
  cfg_GCEConfig :: string
  RetentionSweepInterval :: string
  CredentialMasterSecret :: string
  CredentialDir :: string

definition defaultPluginDir :: string where "defaultPluginDir = ''plugins/''"
definition defaultShutdownDrainTimeout :: int where "defaultShutdownDrainTimeout = 30 * second"
definition defaultRetentionSweepInterval :: int where "defaultRetentionSweepInterval = 5 * 60 * second"

definition DefaultServerConfig :: ServerConfig where
  "DefaultServerConfig = \<lparr>cfg_ListenAddr = '''', cfg_Cert = '''', cfg_Key = '''', cfg_CACert = '''', cfg_WorkDir = '''', cfg_AuthDir = '''',
     ShutdownDrainTimeout = '''', PluginDir = defaultPluginDir, cfg_GCEConfig = '''', RetentionSweepInterval = '''',
     CredentialMasterSecret = '''', CredentialDir = ''''\<rparr>"

definition parse_or_default :: "int \<Rightarrow> string \<Rightarrow> int res" where
  "parse_or_default dflt v =
     (if v = '''' then Inr dflt
      else case ParseDuration v of None \<Rightarrow> Inl (Wrap (''parse '' @ quoted v) (Msg ''time: invalid duration'')) | Some d \<Rightarrow> Inr d)"

definition DrainTimeout :: "ServerConfig \<Rightarrow> int res" where
  "DrainTimeout c = parse_or_default defaultShutdownDrainTimeout (ShutdownDrainTimeout c)"

definition RetentionInterval :: "ServerConfig \<Rightarrow> int res" where
  "RetentionInterval c = parse_or_default defaultRetentionSweepInterval (RetentionSweepInterval c)"

definition Validate :: "ServerConfig \<Rightarrow> goerr option" where
  "Validate c =
     (if cfg_ListenAddr c = '''' then Some (Msg ''listen_addr is required'')
      else if cfg_Cert c = '''' then Some (Msg ''cert is required'')
      else if cfg_Key c = '''' then Some (Msg ''key is required'')
      else if cfg_CACert c = '''' then Some (Msg ''ca_cert is required'')
      else if cfg_WorkDir c = '''' then Some (Msg ''work_dir is required'')
      else if cfg_AuthDir c = '''' then Some (Msg ''auth_dir is required'')
      else case DrainTimeout c of
        Inl e \<Rightarrow> Some (Wrap ''shutdown_drain_timeout'' e)
      | Inr _ \<Rightarrow> (case RetentionInterval c of Inl e \<Rightarrow> Some (Wrap ''retention_sweep_interval'' e) | Inr _ \<Rightarrow> None))"

text \<open>\<open>dec\<close> is \<^verbatim>\<open>yaml.Unmarshal\<close> into a struct that already holds the defaults, \<open>enc\<close> is \<^verbatim>\<open>yaml.Marshal\<close>.\<close>

definition LoadServerConfig :: "(string \<Rightarrow> ServerConfig \<Rightarrow> ServerConfig option) \<Rightarrow> path \<Rightarrow> ServerConfig io" where
  "LoadServerConfig dec p =
     bindIO (wrapIO ''server.LoadServerConfig'' (os_ReadFile p)) (\<lambda>b.
       case dec b DefaultServerConfig of
         None \<Rightarrow> raiseIO (Wrap (''server.LoadServerConfig: parse '' @ path_string p) (Msg ''yaml''))
       | Some c0 \<Rightarrow>
           let c = (if PluginDir c0 = '''' then c0\<lparr>PluginDir := defaultPluginDir\<rparr> else c0) in
           (case Validate c of Some e \<Rightarrow> raiseIO (Wrap ''server.LoadServerConfig'' e) | None \<Rightarrow> returnIO c))"

definition SaveServerConfig :: "(ServerConfig \<Rightarrow> string) \<Rightarrow> ServerConfig \<Rightarrow> path \<Rightarrow> unit io" where
  "SaveServerConfig enc c p =
     seqIO (wrapIO ''server.ServerConfig.Save: mkdir'' (os_MkdirAll (butlast p)))
       (wrapIO ''server.ServerConfig.Save: write'' (os_WriteFile p (enc c)))"

text \<open>\<^verbatim>\<open>resolveConfig\<close> of \<^verbatim>\<open>cmd/wolfci\<close>: \<open>cwd\<close> is the working directory.\<close>

definition resolveConfig :: "(string \<Rightarrow> ServerConfig \<Rightarrow> ServerConfig option) \<Rightarrow> (string \<Rightarrow> path) \<Rightarrow> string res \<Rightarrow> string \<Rightarrow> string list \<Rightarrow> ServerConfig io" where
  "resolveConfig dec as_path cwd configPath args =
     (if configPath \<noteq> '''' then
        if args \<noteq> [] then raiseIO (Msg (''--config is exclusive with positional args; got '' @ Itoa (int (length args)) @ '' extra args''))
        else LoadServerConfig dec (as_path configPath)
      else case args of
        [addr, cert, key] \<Rightarrow>
          (case cwd of
             Inl e \<Rightarrow> raiseIO (Wrap ''getwd'' e)
           | Inr d \<Rightarrow>
               let c = DefaultServerConfig\<lparr>cfg_ListenAddr := addr, cfg_Cert := cert, cfg_Key := key, cfg_CACert := cert,
                         cfg_WorkDir := d @ ''/work'', cfg_AuthDir := d @ ''/auth''\<rparr> in
               (case Validate c of Some e \<Rightarrow> raiseIO e | None \<Rightarrow> returnIO c))
      | _ \<Rightarrow> raiseIO (Msg ''invalid invocation; see -h for usage''))"

text \<open>
  What \<^verbatim>\<open>Run\<close> relies on when it drops the errors of the two durations: a configuration that was loaded, or made from the
  command line, has every required field and both durations.
\<close>

lemma Validate_usable:
  assumes "Validate c = None"
  shows "\<exists>d i. DrainTimeout c = Inr d \<and> RetentionInterval c = Inr i"
    "'''' \<notin> {cfg_ListenAddr c, cfg_Cert c, cfg_Key c, cfg_CACert c, cfg_WorkDir c, cfg_AuthDir c}"
  using assms by (auto simp: Validate_def split: if_splits sum.splits)

lemma resolveConfig_usable:
  assumes "resolveConfig dec as_path cwd configPath args w = (Inr c, w')"
  shows "(\<exists>d i. DrainTimeout c = Inr d \<and> RetentionInterval c = Inr i) \<and> PluginDir c \<noteq> '''' \<and> w' = w
    \<and> '''' \<notin> {cfg_ListenAddr c, cfg_Cert c, cfg_Key c, cfg_CACert c, cfg_WorkDir c, cfg_AuthDir c}"
proof -
  have load: "Validate c = None \<and> PluginDir c \<noteq> '''' \<and> w' = w" if l: "LoadServerConfig dec p w = (Inr c, w')" for p
  proof -
    obtain r where r: "os_ReadFile p w = (r, w)" using ReadFile_world by (metis surj_pair)
    show ?thesis using l unfolding LoadServerConfig_def bindIO_def wrapIO_def r
      by (auto simp: Let_def raiseIO_def returnIO_def defaultPluginDir_def split: sum.splits option.splits if_splits)
  qed
  have "Validate c = None \<and> PluginDir c \<noteq> '''' \<and> w' = w"
    using assms load
    by (auto simp: resolveConfig_def raiseIO_def returnIO_def Let_def DefaultServerConfig_def defaultPluginDir_def
        split: if_split_asm list.split_asm sum.split_asm option.split_asm)
  then show ?thesis using Validate_usable by blast
qed

section \<open>The setup token (\<^verbatim>\<open>Bootstrap\<close>)\<close>

text \<open>A directory is \<open>None\<close> when the field is empty.\<close>

record Bootstrap =
  bs_KeysDir :: "path option"
  bs_BootstrapDir :: "path option"
  bs_ListenAddr :: string

record MintResult =
  mr_Token :: string
  SetupURL :: string

definition tokenBytes :: int where "tokenBytes = 32"

definition hasAdminKey :: "path \<Rightarrow> bool io" where
  "hasAdminKey d =
     bindIO (attempt (os_ReadDir d)) (\<lambda>r. case r of
       Inl e \<Rightarrow> if e = ErrNotExist then returnIO False else raiseIO e
     | Inr entries \<Rightarrow> returnIO (list_ex (\<lambda>(n, isd). \<not> isd \<and> HasSuffix n ''.pub'') entries))"

definition write_token :: "path \<Rightarrow> string \<Rightarrow> string \<Rightarrow> MintResult io" where
  "write_token d addr tok =
     seqIO (wrapIO ''server.Bootstrap.Mint: mkdir'' (os_MkdirAll d))
     (seqIO (wrapIO ''server.Bootstrap.Mint: chmod dir'' (f_Chmod d))
     (seqIO (wrapIO ''server.Bootstrap.Mint: write token'' (os_WriteFile (join_path d [''token'']) tok))
       (returnIO \<lparr>mr_Token = tok, SetupURL = ''https://'' @ addr @ ''/setup?token='' @ tok\<rparr>)))"

definition Mint :: "gowolf \<Rightarrow> Bootstrap option \<Rightarrow> MintResult option io" where
  "Mint g bs =
     (case bs of
        None \<Rightarrow> raiseIO (Msg ''server.Bootstrap.Mint: nil receiver'')
      | Some b \<Rightarrow> (case bs_KeysDir b of
          None \<Rightarrow> raiseIO (Msg ''server.Bootstrap.Mint: KeysDir is required'')
        | Some keys \<Rightarrow> (case bs_BootstrapDir b of
            None \<Rightarrow> raiseIO (Msg ''server.Bootstrap.Mint: BootstrapDir is required'')
          | Some d \<Rightarrow>
              if bs_ListenAddr b = '''' then raiseIO (Msg ''server.Bootstrap.Mint: ListenAddr is required'')
              else bindIO (wrapIO ''server.Bootstrap.Mint: scan keys dir'' (hasAdminKey keys)) (\<lambda>has.
                if has then returnIO None
                else (case RandBytes g tokenBytes of
                    Inl e \<Rightarrow> raiseIO (Wrap ''server.Bootstrap.Mint: RandBytes'' e)
                  | Inr raw \<Rightarrow> bindIO (write_token d (bs_ListenAddr b) (hex_EncodeToString raw)) (\<lambda>m. returnIO (Some m)))))))"

section \<open>The setup page\<close>

text \<open>
  A request acts on the disk and on the settings object that the handler, the password store and the server share: the settings are
  part of the state. \<open>sh_AuthConfig\<close> says whether the handler was given the object, \<open>sh_Passwords\<close> is the root of the store.
\<close>

record SetupHandler =
  sh_KeysDir :: path
  sh_BootstrapDir :: path
  MatrixPath :: path
  sh_Passwords :: "path option"
  sh_AuthConfig :: bool
  AuthConfigPath :: "path option"
  sh_matrix :: mcodec
  sh_cfg_enc :: "AuthConfig \<Rightarrow> string"
  sh_wolf :: gowolf_auth
  sh_ssh :: gowolfssh
  sh_error :: "goerr \<Rightarrow> string"

record site =
  st_web :: web
  st_cfg :: AuthConfig

abbreviation st_disk :: "site \<Rightarrow> world" where "st_disk s \<equiv> wb_disk (st_web s)"

definition put_disk :: "world \<Rightarrow> site \<Rightarrow> site" where
  "put_disk w s = s\<lparr>st_web := set_disk w (st_web s)\<rparr>"

definition on_disk :: "'a io \<Rightarrow> ('a res \<Rightarrow> site \<Rightarrow> 'b \<times> site) \<Rightarrow> site \<Rightarrow> 'b \<times> site" where
  "on_disk m k s = (case m (st_disk s) of (r, w) \<Rightarrow> k r (put_disk w s))"

definition answer :: "Response \<Rightarrow> site \<Rightarrow> Response \<times> site" where
  "answer rsp s = (rsp, s)"

definition PostFormValue :: "Request \<Rightarrow> string \<Rightarrow> string" where
  "PostFormValue r k = (case map_of (post_form r) k of None \<Rightarrow> '''' | Some v \<Rightarrow> v)"

definition errNoActiveBootstrap :: goerr where "errNoActiveBootstrap = Msg ''no active bootstrap token''"

definition token_path :: "SetupHandler \<Rightarrow> path" where
  "token_path h = join_path (sh_BootstrapDir h) [''token'']"

definition loadToken :: "SetupHandler \<Rightarrow> string io" where
  "loadToken h =
     bindIO (attempt (os_ReadFile (token_path h))) (\<lambda>r. case r of
       Inl e \<Rightarrow> raiseIO (if e = ErrNotExist then errNoActiveBootstrap else e)
     | Inr b \<Rightarrow> returnIO (TrimSpace b))"

definition validateSetupUsername :: "string \<Rightarrow> goerr option" where
  "validateSetupUsername user =
     (if user = '''' then Some (Msg ''username is required'')
      else if user = ''.'' \<or> user = ''..'' then Some (Msg (''reserved username '' @ quoted user))
      else if HasPrefix user ''.'' then Some (Msg (''username has leading dot: '' @ quoted user))
      else if ContainsAny user [CHR ''/'', CHR 0x5C, CHR 0x00] then Some (Msg (''username contains a path separator: '' @ quoted user))
      else None)"

text \<open>\<open>with_token\<close>: both methods read the token and compare it with the submitted one before they do anything else.\<close>

definition with_token :: "SetupHandler \<Rightarrow> string \<Rightarrow> string \<Rightarrow> (string \<Rightarrow> site \<Rightarrow> Response \<times> site) \<Rightarrow> site \<Rightarrow> Response \<times> site" where
  "with_token h submitted gone k =
     on_disk (loadToken h) (\<lambda>r. case r of
       Inl e \<Rightarrow> answer (if errors_Is e errNoActiveBootstrap then http_Error gone 410
                       else http_Error (''read bootstrap token: '' @ sh_error h e) 500)
     | Inr stored \<Rightarrow> if stored \<noteq> submitted then answer (http_Error ''invalid bootstrap token'' 403) else k stored)"

definition serveForm :: "SetupHandler \<Rightarrow> Request \<Rightarrow> site \<Rightarrow> Response \<times> site" where
  "serveForm h r =
     with_token h (QueryGet r ''token'') ''first-admin setup is not available; the bootstrap token has already been consumed''
       (\<lambda>stored. answer (render (SetupForm stored)))"

text \<open>The checks of \<^verbatim>\<open>handleSubmit\<close> on the fields of the form: user name, key and password.\<close>

definition submission :: "SetupHandler \<Rightarrow> Request \<Rightarrow> Response + string \<times> string \<times> string" where
  "submission h r =
     (let user = TrimSpace (PostFormValue r ''username''); pubkey = TrimSpace (PostFormValue r ''pubkey'');
          password = PostFormValue r ''password'' in
      case validateSetupUsername user of
        Some e \<Rightarrow> Inl (http_Error (sh_error h e) 400)
      | None \<Rightarrow>
          if pubkey = '''' then Inl (http_Error ''pubkey is required'' 400)
          else (case ParseAuthorizedKey (sh_ssh h) pubkey of
              Inl e \<Rightarrow> Inl (http_Error (''malformed OpenSSH public key: '' @ sh_error h e) 400)
            | Inr _ \<Rightarrow>
                if password = '''' then Inl (http_Error ''password is required'' 400)
                else if password \<noteq> PostFormValue r ''password_confirm'' then Inl (http_Error ''password and confirmation do not match'' 400)
                else Inr (user, if HasSuffix pubkey [CHR 0x0A] then pubkey else pubkey @ [CHR 0x0A], password)))"

text \<open>\<^verbatim>\<open>os.IsNotExist(errors.Unwrap(err)) || os.IsNotExist(err)\<close>: the error itself or one layer below.\<close>

definition no_such_file :: "goerr \<Rightarrow> bool" where
  "no_such_file e \<longleftrightarrow> e = ErrNotExist \<or> (case e of Wrap m e' \<Rightarrow> e' = ErrNotExist | _ \<Rightarrow> False)"

definition grant_admin :: "string \<Rightarrow> Matrix \<Rightarrow> Matrix" where
  "grant_admin user m = m\<lparr>Users := Some (AList.update user RoleAdmin (case Users m of None \<Rightarrow> [] | Some us \<Rightarrow> us))\<rparr>"

definition addAdminToMatrix :: "SetupHandler \<Rightarrow> string \<Rightarrow> unit io" where
  "addAdminToMatrix h user =
     bindIO (attempt (LoadMatrix (sh_matrix h) (MatrixPath h))) (\<lambda>r. case r of
       Inl e \<Rightarrow> if no_such_file e then SaveMatrix (sh_matrix h) (MatrixPath h) (grant_admin user DefaultMatrix) else raiseIO e
     | Inr m \<Rightarrow> SaveMatrix (sh_matrix h) (MatrixPath h) (grant_admin user m))"

definition removeAdminFromMatrix :: "SetupHandler \<Rightarrow> string \<Rightarrow> unit io" where
  "removeAdminFromMatrix h user =
     bindIO (LoadMatrix (sh_matrix h) (MatrixPath h)) (\<lambda>m.
       SaveMatrix (sh_matrix h) (MatrixPath h) (m\<lparr>Users := map_option (AList.delete user) (Users m)\<rparr>))"

text \<open>\<open>refuse h undo msg e\<close>: run the compensations, whose own errors are dropped, and answer 500.\<close>

primrec ignoring :: "unit io list \<Rightarrow> world \<Rightarrow> world" where
  "ignoring [] w = w"
| "ignoring (m # ms) w = ignoring ms (snd (m w))"

definition refuse :: "SetupHandler \<Rightarrow> unit io list \<Rightarrow> string \<Rightarrow> goerr \<Rightarrow> site \<Rightarrow> Response \<times> site" where
  "refuse h undo msg e s = (http_Error (msg @ sh_error h e) 500, put_disk (ignoring undo (st_disk s)) s)"

definition enable_passwords :: "SetupHandler \<Rightarrow> site \<Rightarrow> site" where
  "enable_passwords h s = (if sh_AuthConfig h then s\<lparr>st_cfg := (st_cfg s)\<lparr>PasswordEnabled := True\<rparr>\<rparr> else s)"

definition persist_cfg :: "SetupHandler \<Rightarrow> AuthConfig \<Rightarrow> unit io" where
  "persist_cfg h c =
     (case AuthConfigPath h of None \<Rightarrow> returnIO () | Some p \<Rightarrow> if sh_AuthConfig h then Config_Save (sh_cfg_enc h) c p else returnIO ())"

definition set_password :: "SetupHandler \<Rightarrow> AuthConfig \<Rightarrow> string \<Rightarrow> string \<Rightarrow> unit io" where
  "set_password h c user pw =
     (case sh_Passwords h of None \<Rightarrow> returnIO () | Some d \<Rightarrow> SetPassword (sh_wolf h) (NewPasswordStore d c) user pw)"

definition consumed_dir :: "SetupHandler \<Rightarrow> path" where
  "consumed_dir h = butlast (sh_BootstrapDir h) @ [last (sh_BootstrapDir h) @ ''.consumed'']"

text \<open>What a submission that passed every check does, in the order of \<^verbatim>\<open>handleSubmit\<close>.\<close>

definition consume :: "SetupHandler \<Rightarrow> string \<Rightarrow> site \<Rightarrow> Response \<times> site" where
  "consume h user =
     on_disk (attempt (os_RemoveAll (consumed_dir h))) (\<lambda>_.
     on_disk (os_Rename (sh_BootstrapDir h) (consumed_dir h)) (\<lambda>r. case r of
       Inl e \<Rightarrow> refuse h [] ''consume bootstrap: '' e
     | Inr _ \<Rightarrow> answer (render (SetupDone user))))"

definition activate :: "SetupHandler \<Rightarrow> string \<Rightarrow> string \<Rightarrow> site \<Rightarrow> Response \<times> site" where
  "activate h user pw s0 =
     (let s = enable_passwords h s0; undo = [os_Remove (keyPath (sh_KeysDir h) user), removeAdminFromMatrix h user] in
      on_disk (persist_cfg h (st_cfg s)) (\<lambda>r. case r of
        Inl e \<Rightarrow> refuse h undo ''persist auth config: '' e
      | Inr _ \<Rightarrow> (\<lambda>s. on_disk (set_password h (st_cfg s) user pw) (\<lambda>r2. case r2 of
            Inl e \<Rightarrow> refuse h undo ''set password: '' e
          | Inr _ \<Rightarrow> consume h user) s)) s)"

definition register_admin :: "SetupHandler \<Rightarrow> string \<Rightarrow> string \<Rightarrow> string \<Rightarrow> site \<Rightarrow> Response \<times> site" where
  "register_admin h user pubkey pw =
     on_disk (os_MkdirAll (sh_KeysDir h)) (\<lambda>r. case r of
       Inl e \<Rightarrow> refuse h [] ''mkdir keys: '' e
     | Inr _ \<Rightarrow> on_disk (os_WriteFile (keyPath (sh_KeysDir h) user) pubkey) (\<lambda>r2. case r2 of
         Inl e \<Rightarrow> refuse h [] ''write pubkey: '' e
       | Inr _ \<Rightarrow> on_disk (addAdminToMatrix h user) (\<lambda>r3. case r3 of
           Inl e \<Rightarrow> refuse h [os_Remove (keyPath (sh_KeysDir h) user)] ''update matrix.yaml: '' e
         | Inr _ \<Rightarrow> activate h user pw)))"

definition handleSubmit :: "SetupHandler \<Rightarrow> Request \<Rightarrow> site \<Rightarrow> Response \<times> site" where
  "handleSubmit h r =
     (if \<not> parse_ok r then answer (http_Error ''parse form: '' 400)
      else with_token h (PostFormValue r ''token'') ''no active bootstrap token'' (\<lambda>_.
        case submission h r of Inl rsp \<Rightarrow> answer rsp | Inr (user, pubkey, pw) \<Rightarrow> register_admin h user pubkey pw))"

definition setup_ServeHTTP :: "SetupHandler \<Rightarrow> Request \<Rightarrow> site \<Rightarrow> Response \<times> site" where
  "setup_ServeHTTP h r =
     (if req_method r = ''GET'' then serveForm h r
      else if req_method r = ''POST'' then handleSubmit h r
      else answer method_not_allowed)"

section \<open>The server of \<^verbatim>\<open>cmd/wolfci\<close>\<close>

text \<open>\<open>wired_setup d\<close> is the handler \<^verbatim>\<open>Run\<close> makes for the authentication directory \<open>d\<close>.\<close>

definition wired_bootstrap :: "path \<Rightarrow> string \<Rightarrow> Bootstrap" where
  "wired_bootstrap d addr = \<lparr>bs_KeysDir = Some (join_path d [''keys'']), bs_BootstrapDir = Some (join_path d [''bootstrap'']), bs_ListenAddr = addr\<rparr>"

definition wired_setup :: "path \<Rightarrow> mcodec \<Rightarrow> (AuthConfig \<Rightarrow> string) \<Rightarrow> gowolf_auth \<Rightarrow> gowolfssh \<Rightarrow> (goerr \<Rightarrow> string) \<Rightarrow> SetupHandler" where
  "wired_setup d mc enc g ssh err = \<lparr>sh_KeysDir = join_path d [''keys''], sh_BootstrapDir = join_path d [''bootstrap''],
     MatrixPath = join_path d [''matrix.yaml''], sh_Passwords = Some (join_path d [''passwords'']), sh_AuthConfig = True,
     AuthConfigPath = Some (join_path d [''config.yaml'']), sh_matrix = mc, sh_cfg_enc = enc, sh_wolf = g, sh_ssh = ssh, sh_error = err\<rparr>"

text \<open>The user interface reads the shared settings at every request.\<close>

definition with_settings :: "AuthConfig \<Rightarrow> Options \<Rightarrow> Options" where
  "with_settings c opts = opts\<lparr>opt_Auth := c, opt_Passwords := (opt_Passwords opts)\<lparr>ps_cfg := c\<rparr>\<rparr>"

definition topMux :: "SetupHandler \<Rightarrow> Options \<Rightarrow> Request \<Rightarrow> site \<Rightarrow> Response \<times> site" where
  "topMux h opts r s =
     (if url_path r = ''/setup'' \<or> HasPrefix (url_path r) ''/setup/'' then setup_ServeHTTP h r s
      else case ServeHTTP (with_settings (st_cfg s) opts) r (st_web s) of (rsp, v) \<Rightarrow> (rsp, s\<lparr>st_web := v\<rparr>))"

text \<open>\<^verbatim>\<open>Dispatcher.ServeHTTP\<close>; a missing handler is \<open>None\<close>, \<open>ct\<close> is the content type of the request.\<close>

definition dispatch :: "(Request \<Rightarrow> site \<Rightarrow> Response \<times> site) option \<Rightarrow> (Request \<Rightarrow> site \<Rightarrow> Response \<times> site) option \<Rightarrow> string \<Rightarrow> Request \<Rightarrow> site \<Rightarrow> Response \<times> site" where
  "dispatch ui grpc ct r =
     (if HasPrefix ct ''application/grpc''
      then (case grpc of Some f \<Rightarrow> f r | None \<Rightarrow> answer (http_Error ''gRPC handler not configured'' 503))
      else (case ui of Some f \<Rightarrow> f r | None \<Rightarrow> answer (http_Error ''UI handler not configured'' 503)))"

text \<open>The claimer \<^verbatim>\<open>Run\<close> hands to the agent service: every failure to load a slot reads as no slot.\<close>

definition storagePendingClaimer :: "pcodec \<Rightarrow> path \<Rightarrow> world \<Rightarrow> claimer" where
  "storagePendingClaimer c root w =
     \<lparr>LookupPendingAgent = (\<lambda>name. case fst (LoadPendingAgent c root name w) of
        Inl e \<Rightarrow> Inr ([], 0, False)
      | Inr pa \<Rightarrow> Inr (pa_Labels pa, pa_Executors pa, True))\<rparr>"

section \<open>The gate\<close>

lemma site_simps [simp]:
  "st_disk (put_disk w s) = w" "st_cfg (put_disk w s) = st_cfg s" "put_disk (st_disk s) s = s" "put_disk w (put_disk v s) = put_disk w s"
  "put_disk w (s\<lparr>st_cfg := c\<rparr>) = (put_disk w s)\<lparr>st_cfg := c\<rparr>"
  by (simp_all add: put_disk_def)

text \<open>The duplicated check of user names agrees with the one of the password store.\<close>

lemma validateSetupUsername_None [simp]: "validateSetupUsername user = None \<longleftrightarrow> validateUsername user = None"
  by (simp add: validateSetupUsername_def validateUsername_def)

lemma loadToken_world: "loadToken h w = (r, w') \<Longrightarrow> w' = w"
  by (auto simp: loadToken_def bindIO_def attempt_def raiseIO_def returnIO_def dest!: ReadFile_world split: sum.splits prod.splits)

lemma loadToken_Inr: "loadToken h w = (Inr t, w') \<Longrightarrow> \<exists>b. file_at w (token_path h) = Some b \<and> t = TrimSpace b"
  by (auto simp: loadToken_def bindIO_def attempt_def raiseIO_def returnIO_def dest: ReadFile_Inr split: sum.splits prod.splits)

lemma with_token_cases:
  assumes "with_token h submitted gone k s = (rsp, s')"
  obtains (refused) "s' = s" "rs_status rsp \<in> {403, 410, 500}"
    | (passed) b where "file_at (st_disk s) (token_path h) = Some b" "TrimSpace b = submitted" "k submitted s = (rsp, s')"
proof -
  obtain t where t: "loadToken h (st_disk s) = (t, st_disk s)" using loadToken_world by (metis surj_pair)
  show thesis
  proof (cases t)
    case (Inl e)
    with assms t show thesis by (intro refused) (auto simp: with_token_def on_disk_def answer_def http_Error_def split: if_splits)
  next
    case (Inr x)
    with loadToken_Inr t obtain b where "file_at (st_disk s) (token_path h) = Some b" "x = TrimSpace b" by metis
    with assms t Inr show thesis by (cases "x = submitted") (auto simp: with_token_def on_disk_def answer_def http_Error_def intro: refused passed)
  qed
qed

text \<open>
  Nothing changes without the token: a request to the setup page that leaves any trace, on disk or in the settings, is a POST whose
  token is the stored one and whose fields passed every check.
\<close>

theorem setup_needs_token:
  assumes "setup_ServeHTTP h r s = (rsp, s')" "s' \<noteq> s"
  shows "req_method r = ''POST'' \<and> (\<exists>x. submission h r = Inr x)
    \<and> (\<exists>b. file_at (st_disk s) (token_path h) = Some b \<and> TrimSpace b = PostFormValue r ''token'')"
proof -
  have get: "s' = s" if "serveForm h r s = (rsp, s')"
    using that unfolding serveForm_def by (rule with_token_cases) (simp_all add: answer_def)
  have post: ?thesis if "req_method r = ''POST''" "handleSubmit h r s = (rsp, s')"
  proof -
    from that(2) assms(2) have "with_token h (PostFormValue r ''token'') ''no active bootstrap token'' (\<lambda>_.
        case submission h r of Inl rsp \<Rightarrow> answer rsp | Inr (user, pubkey, pw) \<Rightarrow> register_admin h user pubkey pw) s = (rsp, s')"
      by (auto simp: handleSubmit_def answer_def split: if_splits)
    then show ?thesis
    proof (cases rule: with_token_cases)
      case refused
      with assms(2) show ?thesis by simp
    next
      case (passed b)
      with that(1) assms(2) show ?thesis by (cases "submission h r") (auto simp: answer_def)
    qed
  qed
  show ?thesis
    using assms get post by (auto simp: setup_ServeHTTP_def answer_def split: if_splits)
qed

section \<open>A successful setup\<close>

lemma refuse_status: "refuse h undo msg e s = (rsp, s') \<Longrightarrow> rs_status rsp = 500"
  by (auto simp: refuse_def http_Error_def)

lemma on_disk_ok:
  assumes "on_disk m (\<lambda>r. case r of Inl e \<Rightarrow> refuse h undo msg e | Inr x \<Rightarrow> k x) s = (rsp, s')" "rs_status rsp = 200"
  obtains x w where "m (st_disk s) = (Inr x, w)" "k x (put_disk w s) = (rsp, s')"
  using assms by (auto simp: on_disk_def split: prod.splits sum.splits dest: refuse_status)

text \<open>The disks a successful registration goes through.\<close>

lemma register_admin_ok:
  assumes "register_admin h user pubkey pw s = (rsp, s')" "rs_status rsp = 200"
  defines "c \<equiv> st_cfg (enable_passwords h s)"
  obtains w1 w2 w3 w4 w5 w6 where
    "os_MkdirAll (sh_KeysDir h) (st_disk s) = (Inr (), w1)" "os_WriteFile (keyPath (sh_KeysDir h) user) pubkey w1 = (Inr (), w2)"
    "addAdminToMatrix h user w2 = (Inr (), w3)" "persist_cfg h c w3 = (Inr (), w4)" "set_password h c user pw w4 = (Inr (), w5)"
    "os_Rename (sh_BootstrapDir h) (consumed_dir h) (snd (os_RemoveAll (consumed_dir h) w5)) = (Inr (), w6)"
    "s' = put_disk w6 (enable_passwords h s)"
proof -
  from assms(1,2) obtain w1 w2 w3 where w: "os_MkdirAll (sh_KeysDir h) (st_disk s) = (Inr (), w1)"
    "os_WriteFile (keyPath (sh_KeysDir h) user) pubkey w1 = (Inr (), w2)" "addAdminToMatrix h user w2 = (Inr (), w3)"
    and act: "activate h user pw (put_disk w3 s) = (rsp, s')"
    unfolding register_admin_def by (elim on_disk_ok) auto
  have en: "enable_passwords h (put_disk w3 s) = put_disk w3 (enable_passwords h s)" by (simp add: enable_passwords_def)
  from act assms(2) obtain w4 w5 where w': "persist_cfg h c w3 = (Inr (), w4)" "set_password h c user pw w4 = (Inr (), w5)"
    and con: "consume h user (put_disk w5 (enable_passwords h s)) = (rsp, s')"
    unfolding activate_def Let_def en c_def by (elim on_disk_ok) auto
  obtain r where r: "os_RemoveAll (consumed_dir h) w5 = (r, snd (os_RemoveAll (consumed_dir h) w5))" by (metis surj_pair snd_conv)
  from con have "on_disk (os_Rename (sh_BootstrapDir h) (consumed_dir h))
      (\<lambda>r. case r of Inl e \<Rightarrow> refuse h [] ''consume bootstrap: '' e | Inr _ \<Rightarrow> answer (render (SetupDone user)))
      (put_disk (snd (os_RemoveAll (consumed_dir h) w5)) (enable_passwords h s)) = (rsp, s')"
    unfolding consume_def by (subst (asm) on_disk_def) (simp add: attempt_def split: prod.splits)
  from this assms(2) obtain w6 where "os_Rename (sh_BootstrapDir h) (consumed_dir h) (snd (os_RemoveAll (consumed_dir h) w5)) = (Inr (), w6)"
    "s' = put_disk w6 (enable_passwords h s)"
    by (elim on_disk_ok) (auto simp: answer_def)
  with w w' show thesis by (rule that)
qed

lemma addAdminToMatrix_effect:
  assumes "addAdminToMatrix h user w = (Inr (), w')"
  obtains m0 where "fst (LoadMatrix (sh_matrix h) (MatrixPath h) w) = Inr m0 \<or> file_at w (MatrixPath h) = None \<and> m0 = DefaultMatrix"
    "file_at w' = (file_at w)(MatrixPath h \<mapsto> mx_enc (sh_matrix h) (grant_admin user m0))" "fault w' = fault w"
proof -
  have ld: "snd (LoadMatrix (sh_matrix h) (MatrixPath h) w) = w"
  proof -
    obtain r where "os_ReadFile (MatrixPath h) w = (r, w)" using ReadFile_world by (metis surj_pair)
    then show ?thesis by (auto simp: LoadMatrix_def bindIO_def wrapIO_def raiseIO_def returnIO_def Let_def split: sum.splits option.splits)
  qed
  have sv: "file_at w' = (file_at w)(MatrixPath h \<mapsto> mx_enc (sh_matrix h) m) \<and> fault w' = fault w"
    if "SaveMatrix (sh_matrix h) (MatrixPath h) m w = (Inr (), w')" for m
    using that mkdir_write_effect by (auto simp: SaveMatrix_def io_simps)
  have nf: "file_at w (MatrixPath h) = None" if "fst (LoadMatrix (sh_matrix h) (MatrixPath h) w) = Inl e" "no_such_file e" for e
    using that by (auto simp: LoadMatrix_def bindIO_def wrapIO_def raiseIO_def returnIO_def Let_def no_such_file_def file_at_def
        os_ReadFile_def seqIO_def os_Open_def f_ReadAll_def split: sum.splits option.splits if_splits prod.splits node.splits)
  obtain r where r: "LoadMatrix (sh_matrix h) (MatrixPath h) w = (r, w)" using ld by (metis prod.collapse)
  show thesis
  proof (cases r)
    case (Inl e)
    with assms r have "no_such_file e" "SaveMatrix (sh_matrix h) (MatrixPath h) (grant_admin user DefaultMatrix) w = (Inr (), w')"
      by (auto simp: addAdminToMatrix_def bindIO_def attempt_def raiseIO_def split: if_splits)
    with r Inl nf sv that show thesis by simp
  next
    case (Inr m)
    with assms r have "SaveMatrix (sh_matrix h) (MatrixPath h) (grant_admin user m) w = (Inr (), w')"
      by (auto simp: addAdminToMatrix_def bindIO_def attempt_def)
    from sv [OF this] show thesis by (intro that [of m]) (simp_all add: r Inr)
  qed
qed

lemma wired_simps [simp]:
  "sh_KeysDir (wired_setup d mc enc g ssh err) = d @ [''keys'']" "sh_BootstrapDir (wired_setup d mc enc g ssh err) = d @ [''bootstrap'']"
  "MatrixPath (wired_setup d mc enc g ssh err) = d @ [''matrix.yaml'']" "sh_Passwords (wired_setup d mc enc g ssh err) = Some (d @ [''passwords''])"
  "AuthConfigPath (wired_setup d mc enc g ssh err) = Some (d @ [''config.yaml''])" "sh_AuthConfig (wired_setup d mc enc g ssh err)"
  "token_path (wired_setup d mc enc g ssh err) = d @ [''bootstrap'', ''token'']" "consumed_dir (wired_setup d mc enc g ssh err) = d @ [''bootstrap.consumed'']"
  "sh_matrix (wired_setup d mc enc g ssh err) = mc" "sh_cfg_enc (wired_setup d mc enc g ssh err) = enc"
  "sh_wolf (wired_setup d mc enc g ssh err) = g" "sh_ssh (wired_setup d mc enc g ssh err) = ssh"
  by (simp_all add: wired_setup_def token_path_def consumed_dir_def join_path_safe safe_name_def)

text \<open>The last two calls take the token away and leave every file outside the two bootstrap directories.\<close>

lemma consume_effect:
  assumes "os_Rename (d @ [a]) (d @ [b]) (snd (os_RemoveAll (d @ [b]) w)) = (Inr (), w')" "no_faults w" "a \<noteq> b"
  shows "fs_get w' (d @ a # t) = None" "fault w' = fault w"
    "\<not> prefix (d @ [a]) q \<Longrightarrow> \<not> prefix (d @ [b]) q \<Longrightarrow> fs_get w' q = fs_get w q"
proof -
  define v where "v = snd (os_RemoveAll (d @ [b]) w)"
  have "os_RemoveAll (d @ [b]) w = (Inr (), v)" using assms(2) by (simp add: os_RemoveAll_def no_faults_def v_def)
  note rm = RemoveAll_get [OF this]
  have mv: "os_Rename (d @ [a]) (d @ [b]) v = (Inr (), w')" using assms(1) by (simp add: v_def)
  show "fs_get w' (d @ a # t) = None" using Rename_source_gone [OF mv, of t] assms(3) by (simp add: prefix_def)
  show "fault w' = fault w" using Rename_effect(4) [OF mv] rm assms(3) by simp
  show "fs_get w' q = fs_get w q" if "\<not> prefix (d @ [a]) q" "\<not> prefix (d @ [b]) q"
    using Rename_effect(1) [OF mv, of q] rm [of q] that assms(3) by simp
qed

lemma no_token_gone:
  assumes "fs_get (st_disk s) (token_path h) = None" "no_faults (st_disk s)"
  shows "\<exists>rsp. setup_ServeHTTP h r s = (rsp, s) \<and> rs_status rsp \<in> {400, 405, 410}"
proof -
  have "os_ReadFile (token_path h) (st_disk s) = (Inl ErrNotExist, st_disk s)"
    using assms(1,2) by (simp add: os_ReadFile_def seqIO_def bindIO_def os_Open_def no_faults_def)
  then have "with_token h x gone k s = (http_Error gone 410, s)" for x gone k
    by (simp add: with_token_def on_disk_def loadToken_def bindIO_def attempt_def raiseIO_def answer_def errNoActiveBootstrap_def)
  then show ?thesis
    by (auto simp: setup_ServeHTTP_def serveForm_def handleSubmit_def answer_def http_Error_def method_not_allowed_def)
qed

lemma with_settings_simps [simp]:
  "opt_wolf (with_settings c opts) = opt_wolf opts" "opt_sess (with_settings c opts) = opt_sess opts"
  "opt_Sessions (with_settings c opts) = opt_Sessions opts" "opt_error (with_settings c opts) = opt_error opts"
  "CookieSecure (with_settings c opts) = CookieSecure opts" "opt_Auth (with_settings c opts) = c"
  "opt_Passwords (with_settings c opts) = (opt_Passwords opts)\<lparr>ps_cfg := c\<rparr>"
  by (simp_all add: with_settings_def)

text \<open>What a sign-in answers once the password is known to be right.\<close>

lemma handleLogin_verified:
  assumes "url_path r = ''/login''" "req_method r = ''POST''" "parse_ok r" "TrimSpace (FormValue r ''username'') = user" "FormValue r ''password'' = pw"
    "user \<noteq> ''''" "pw \<noteq> ''''" "PasswordEnabled (opt_Auth opts)"
    "VerifyPassword (opt_wolf opts) (opt_Passwords opts) user pw (wb_disk s) = (Inr (), wb_disk s)"
  shows "fst (ServeHTTP opts r s) =
     (case fst (Create (gowolf.truncate (opt_wolf opts)) (opt_sess opts) (opt_Sessions opts) user (wb_disk s)) of
        Inl e \<Rightarrow> http_Error (''session: '' @ opt_error opts e) 500
      | Inr sess \<Rightarrow> (http_Redirect ''/jobs'')\<lparr>set_cookie := Some (session_cookie opts sess)\<rparr>)"
  using assms by (simp add: ServeHTTP_def handleLogin_def Let_def with_disk_def reply_def split: prod.splits sum.splits)

lemma submission_valid:
  "submission h r = Inr (user, pubkey, pw) \<Longrightarrow> validateUsername user = None \<and> user \<noteq> '''' \<and> pw \<noteq> ''''"
  by (auto simp: submission_def Let_def validateUsername_def split: option.splits if_splits sum.splits)

lemma LoadMatrix_cong:
  assumes "fst (LoadMatrix mc p v) = Inr m" "file_at v p = file_at w p" "no_faults w"
  shows "fst (LoadMatrix mc p w) = Inr m"
proof -
  from assms(1) obtain b where b: "os_ReadFile p v = (Inr b, v)"
    by (auto simp: LoadMatrix_def bindIO_def wrapIO_def dest: ReadFile_world split: prod.splits sum.splits)
  then have "os_ReadFile p w = (Inr b, w)" using ReadFile_Inr [OF b] assms(2,3) by (intro ReadFile_ok) (auto simp: no_faults_def)
  with assms(1) b show ?thesis
    by (auto simp: LoadMatrix_def bindIO_def wrapIO_def raiseIO_def returnIO_def Let_def split: option.splits)
qed

lemma submission_400: "submission h r = Inl rsp \<Longrightarrow> rs_status rsp = 400"
  by (auto simp: submission_def Let_def http_Error_def split: option.splits if_splits sum.splits)

text \<open>The disk a successful registration leaves, on the layout of \<^verbatim>\<open>cmd/wolfci\<close>.\<close>

lemma registered_disk:
  fixes d mc enc g ssh err
  defines "h \<equiv> wired_setup d mc enc g ssh err"
  assumes "register_admin h user pubkey pw s = (rsp, s')" "rs_status rsp = 200" "validateUsername user = None" "no_faults (st_disk s)" "gowolf_auth_ok g"
  defines "c \<equiv> (st_cfg s)\<lparr>PasswordEnabled := True\<rparr>"
  obtains m0 salt key where "st_cfg s' = c" "no_faults (st_disk s')" "fs_get (st_disk s') (d @ [''bootstrap'', ''token'']) = None"
    "file_at (st_disk s') (d @ [''keys'', user @ ''.pub'']) = Some pubkey" "file_at (st_disk s') (d @ [''config.yaml'']) = Some (enc c)"
    "file_at (st_disk s') (d @ [''matrix.yaml'']) = Some (mx_enc mc (grant_admin user m0))"
    "fst (LoadMatrix mc (d @ [''matrix.yaml'']) (st_disk s)) = Inr m0 \<or> file_at (st_disk s) (d @ [''matrix.yaml'']) = None \<and> m0 = DefaultMatrix"
    "file_at (st_disk s') (d @ [''passwords'', user @ ''.pbkdf2'']) = Some (encodePBKDF2File (in_force 600000 (PBKDF2Iterations c)) salt key)"
    "int (length salt) = in_force 16 (PBKDF2SaltBytes c)" "wc_pbkdf2 g pw salt (in_force 600000 (PBKDF2Iterations c)) 32 = Inr key" "length key = 32"
proof -
  have en: "enable_passwords h s = s\<lparr>st_cfg := c\<rparr>" by (simp add: enable_passwords_def h_def c_def)
  from assms(2,3) obtain w1 w2 w3 w4 w5 w6 where w:
    "os_MkdirAll (d @ [''keys'']) (st_disk s) = (Inr (), w1)" "os_WriteFile (d @ [''keys'', user @ ''.pub'']) pubkey w1 = (Inr (), w2)"
    "addAdminToMatrix h user w2 = (Inr (), w3)" "Config_Save enc c (d @ [''config.yaml'']) w3 = (Inr (), w4)"
    "SetPassword g (NewPasswordStore (d @ [''passwords'']) c) user pw w4 = (Inr (), w5)"
    "os_Rename (d @ [''bootstrap'']) (d @ [''bootstrap.consumed'']) (snd (os_RemoveAll (d @ [''bootstrap.consumed'']) w5)) = (Inr (), w6)"
    and s': "s' = (put_disk w6 s)\<lparr>st_cfg := c\<rparr>"
    by (rule register_admin_ok) (use assms(4) in \<open>auto simp: h_def keyPath_valid persist_cfg_def set_password_def en [unfolded h_def]\<close>)
  note e12 = mkdir_write_effect [OF w(1,2)]
  obtain m0 where m0: "fst (LoadMatrix mc (d @ [''matrix.yaml'']) w2) = Inr m0 \<or> file_at w2 (d @ [''matrix.yaml'']) = None \<and> m0 = DefaultMatrix"
    and e3: "file_at w3 = (file_at w2)(d @ [''matrix.yaml''] \<mapsto> mx_enc mc (grant_admin user m0))" "fault w3 = fault w2"
    using addAdminToMatrix_effect [OF w(3)] by (simp add: h_def) metis
  have e4: "file_at w4 = (file_at w3)(d @ [''config.yaml''] \<mapsto> enc c)" "fault w4 = fault w3"
    using w(4) mkdir_write_effect by (auto simp: Config_Save_def io_simps)
  obtain salt key where pw: "int (length salt) = in_force 16 (PBKDF2SaltBytes c)"
      "wc_pbkdf2 g pw salt (in_force 600000 (PBKDF2Iterations c)) 32 = Inr key" "length key = 32"
    and e5: "fault w5 = fault w4"
      "file_at w5 = (file_at w4)(d @ [''passwords'', user @ ''.pbkdf2''] \<mapsto> encodePBKDF2File (in_force 600000 (PBKDF2Iterations c)) salt key)"
    using SetPassword_file [OF assms(6) w(5)] assms(4) by (auto simp: NewPasswordStore_def hashPath_valid)
  have nf: "no_faults w5" "no_faults w6"
    using assms(5) e12(2) e3(2) e4(2) e5(1) consume_effect(2) [OF w(6)] by (auto simp: no_faults_def)
  have keep: "file_at w6 (d @ x # q) = file_at w5 (d @ x # q)" if "x \<noteq> ''bootstrap''" "x \<noteq> ''bootstrap.consumed''" for x q
    using consume_effect(3) [OF w(6) nf(1), of "d @ x # q"] that by (simp add: file_at_def prefix_def)
  show thesis
    using keep [of "''keys''"] keep [of "''matrix.yaml''"] keep [of "''config.yaml''"] keep [of "''passwords''"] e12(1) e3(1) e4(1) e5(2)
      m0 LoadMatrix_cong [of mc "d @ [''matrix.yaml'']" w2 m0, OF _ _ assms(5)] pw nf(2) consume_effect(1) [OF w(6) nf(1), of "[''token'']"]
    by (intro that [of m0 salt key]) (auto simp: s')
qed

lemma signin_after:
  assumes "gowolf_auth_ok g" "no_faults (st_disk s)" "validateUsername user = None" "user \<noteq> ''''" "pw \<noteq> ''''"
    and c: "st_cfg s = c\<lparr>PasswordEnabled := True\<rparr>" and iter: "in_force 600000 (PBKDF2Iterations c) \<in> {pbkdf2MinIterations..pbkdf2MaxIterations}"
    and hash: "file_at (st_disk s) (d @ [''passwords'', user @ ''.pbkdf2''])
        = Some (encodePBKDF2File (in_force 600000 (PBKDF2Iterations (c\<lparr>PasswordEnabled := True\<rparr>))) salt key)"
      "int (length salt) = in_force 16 (PBKDF2SaltBytes (c\<lparr>PasswordEnabled := True\<rparr>))"
      "wc_pbkdf2 g pw salt (in_force 600000 (PBKDF2Iterations (c\<lparr>PasswordEnabled := True\<rparr>))) 32 = Inr key" "length key = 32"
    and o: "opt_wolf opts = g" "ps_root (opt_Passwords opts) = d @ [''passwords'']"
    and r: "url_path r = ''/login''" "req_method r = ''POST''" "parse_ok r" "TrimSpace (FormValue r ''username'') = user" "FormValue r ''password'' = pw"
  shows "fst (topMux h opts r s) = (case fst (Create (gowolf.truncate g) (opt_sess opts) (opt_Sessions opts) user (st_disk s)) of
          Inl e \<Rightarrow> http_Error (''session: '' @ opt_error opts e) 500
        | Inr sess \<Rightarrow> (http_Redirect ''/jobs'')\<lparr>set_cookie := Some (session_cookie opts sess)\<rparr>)"
proof -
  let ?o = "with_settings (st_cfg s) opts"
  have "salt \<noteq> []" using hash(2) by (auto simp: in_force_def split: if_splits)
  then have "VerifyPassword g (opt_Passwords ?o) user pw (st_disk s) = (if mac_of g key = mac_of g key then Inr () else Inl ErrInvalidPassword, st_disk s)"
    using assms(3) iter hash by (intro VerifyPassword_stored [OF assms(1,2)]) (auto simp: o c hashPath_valid)
  then have "VerifyPassword (opt_wolf ?o) (opt_Passwords ?o) user pw (st_disk s) = (Inr (), st_disk s)" by (simp add: o(1))
  from handleLogin_verified [OF r assms(4,5) _ this]
  show ?thesis using r(1) o(1) by (auto simp: topMux_def c session_cookie_def HasPrefix_def split: prod.splits sum.splits)
qed


section \<open>The life of the token\<close>

text \<open>The token \<^verbatim>\<open>Mint\<close> leaves, 64 hexadecimal digits, opens the page it prints the address of; it mints none once a key is there.\<close>

lemma mint_opens_setup:
  assumes "Mint g' (Some (wired_bootstrap d addr)) w = (Inr (Some m), w')" "no_faults w" "\<forall>n b. wc_rng g' n = Inr b \<longrightarrow> length b = n"
    and "QueryGet r ''token'' = mr_Token m" "req_method r = ''GET''" "st_disk s = w'"
  shows "length (mr_Token m) = 64 \<and> file_at w' (d @ [''bootstrap'', ''token'']) = Some (mr_Token m)
    \<and> setup_ServeHTTP (wired_setup d mc enc g ssh err) r s = (render (SetupForm (mr_Token m)), s)"
proof -
  have d: "join_path d [''keys''] = d @ [''keys'']" "join_path d [''bootstrap''] = d @ [''bootstrap'']"
    "join_path (d @ [''bootstrap'']) [''token''] = d @ [''bootstrap'', ''token'']"
    by (simp_all add: join_path_safe safe_name_def)
  have ks: "w1 = w" if "hasAdminKey (d @ [''keys'']) w = (x, w1)" for x w1
    using that by (auto simp: hasAdminKey_def bindIO_def attempt_def raiseIO_def returnIO_def dest!: handle_noop(6) split: sum.splits prod.splits if_splits)
  obtain raw where raw: "RandBytes g' 32 = Inr raw"
    using assms(1) by (cases "RandBytes g' 32") (auto simp: Mint_def wired_bootstrap_def d io_simps tokenBytes_def split: if_split_asm)
  with assms(1) have "write_token (d @ [''bootstrap'']) addr (hex_EncodeToString raw) w = (Inr m, w')"
    by (auto simp: Mint_def wired_bootstrap_def d io_simps tokenBytes_def dest!: ks split: if_split_asm)
  then obtain u w1 v where tm: "mr_Token m = hex_EncodeToString raw"
    and w: "os_MkdirAll (d @ [''bootstrap'']) w = (Inr u, w1)" "os_WriteFile (d @ [''bootstrap'', ''token'']) (hex_EncodeToString raw) w1 = (Inr v, w')"
    by (auto simp: write_token_def io_simps d f_Chmod_def split: if_split_asm)
  have len: "length (mr_Token m) = 64" using raw tm assms(3) by (auto simp: RandBytes_def rc_err_def split: sum.splits)
  have tok: "file_at w' (d @ [''bootstrap'', ''token'']) = Some (mr_Token m)" and nf: "no_faults w'"
    using mkdir_write_effect [OF w] assms(2) by (simp_all add: no_faults_def tm)
  have "\<not> is_space c" if "c \<in> set (mr_Token m)" for c
  proof -
    from that tm hex_EncodeToString_chars obtain k where "k < 16" "c = hex_digit k" by (auto simp: hex_chars_def)
    then have "token_char c" using hex_digit_token by simp
    then show ?thesis by (auto simp: token_char_def char_between_def is_space_def)
  qed
  then have trim: "TrimSpace (mr_Token m) = mr_Token m" by (rule TrimSpace_id)
  have "os_ReadFile (d @ [''bootstrap'', ''token'']) w' = (Inr (mr_Token m), w')" using tok nf by (intro ReadFile_ok) (auto simp: no_faults_def)
  then have "loadToken (wired_setup d mc enc g ssh err) w' = (Inr (mr_Token m), w')"
    by (simp add: loadToken_def bindIO_def attempt_def returnIO_def trim)
  then show ?thesis
    using len tok assms(4,5) site_simps(3) [of s] unfolding assms(6)
    by (simp add: setup_ServeHTTP_def serveForm_def with_token_def on_disk_def answer_def assms(6))
qed

text \<open>
  A token file that is empty, as a write cut short leaves it, is a token: a request that names none passes the comparison.
\<close>

lemma empty_token_admits:
  assumes "file_at (st_disk s) (token_path h) = Some b" "TrimSpace b = ''''" "no_faults (st_disk s)"
    and "QueryGet r ''token'' = ''''" "req_method r = ''GET''"
  shows "setup_ServeHTTP h r s = (render (SetupForm ''''), s)"
proof -
  have "os_ReadFile (token_path h) (st_disk s) = (Inr b, st_disk s)" using assms(1,3) by (intro ReadFile_ok) (auto simp: no_faults_def)
  with assms show ?thesis
    by (simp add: setup_ServeHTTP_def serveForm_def with_token_def on_disk_def loadToken_def bindIO_def attempt_def returnIO_def answer_def)
qed

text \<open>The prefix test of the dispatcher also takes gRPC-Web.\<close>

lemma grpc_web_dispatched: "dispatch ui (Some f) ''application/grpc-web'' r = f r"
  by (simp add: dispatch_def HasPrefix_def)

section \<open>Evaluated instances\<close>

text \<open>A matrix format that holds the names of the administrators, one a line.\<close>

definition demo_admins :: mcodec where
  "demo_admins = \<lparr>mx_enc = (\<lambda>m. concat (map (\<lambda>(u, _). u @ [CHR 0x0A]) (case Users m of None \<Rightarrow> [] | Some us \<Rightarrow> us))),
     mx_dec = (\<lambda>b. Some (DefaultMatrix\<lparr>Users := Some (map (\<lambda>u. (u, RoleAdmin)) (filter (\<lambda>u. u \<noteq> '''') (Split (CHR 0x0A) b)))\<rparr>))\<rparr>"

definition demo_setup :: SetupHandler where
  "demo_setup = wired_setup [''auth''] demo_admins (\<lambda>c. if PasswordEnabled c then ''on'' else ''off'') demo_auth demo_ssh (\<lambda>e. ''error'')"

definition demo_fresh :: world where
  "demo_fresh = \<lparr>files = [([''auth''], DirN 0), ([''auth'', ''bootstrap''], DirN 0), ([''auth'', ''bootstrap'', ''token''], FileN ''cafe'' 1)],
     clock = 7, fault = (\<lambda>_ _. False), torn = (\<lambda>_. 0)\<rparr>"

definition demo_site :: site where
  "demo_site = \<lparr>st_web = demo_web demo_fresh, st_cfg = \<lparr>PasswordEnabled = False, PBKDF2Iterations = 100, PBKDF2SaltBytes = 8\<rparr>\<rparr>"

definition demo_submit :: "string \<Rightarrow> Request" where
  "demo_submit user = post ''/setup'' [(''token'', ''cafe''), (''username'', user), (''pubkey'', ''ssh-ed25519 AAAA''),
     (''password'', ''pw''), (''password_confirm'', ''pw'')]"

lemma demo_setup_ok: "fst (setup_ServeHTTP demo_setup (demo_submit ''ann'') demo_site) = render (SetupDone ''ann'')"
  by code_simp


text \<open>
  The comparison and the consumption are not one step. Of two submissions that both passed the comparison, the second still registers
  its user: the page answers 500, because the directory is gone, and leaves a second key and a second administrator.
\<close>

definition demo_keys_only :: SetupHandler where
  "demo_keys_only = demo_setup\<lparr>sh_Passwords := None\<rparr>"

definition demo_raced :: "Response \<times> site" where
  "demo_raced = register_admin demo_keys_only ''eve'' ''ssh-ed25519 EEEE'' ''pw''
     (snd (register_admin demo_keys_only ''ann'' ''ssh-ed25519 AAAA'' ''pw'' demo_site))"

lemma raced_token_registers_two:
  "rs_status (fst demo_raced) = 500"
  "file_at (st_disk (snd demo_raced)) [''auth'', ''matrix.yaml''] = Some (''ann'' @ newline @ ''eve'' @ newline)"
  "file_at (st_disk (snd demo_raced)) [''auth'', ''keys'', ''eve.pub''] = Some ''ssh-ed25519 EEEE''"
  by code_simp+

end
