(* ===== verification/AgentProc.thy ===== *)
theory AgentProc
  imports Router Setup "HOL-Library.Multiset"
begin

text \<open>
  The agent process, \<^verbatim>\<open>internal/agent\<close> (\<^verbatim>\<open>config.go\<close>, \<^verbatim>\<open>client.go\<close>): its settings, the handshake with the agent service, and the
  builds it runs. A stream carries the messages of \<^verbatim>\<open>api/v1\<close> in order; TLS, the dialler and \<^verbatim>\<open>nodeinfo\<close> are not part of the model.
\<close>

section \<open>Settings\<close>

record AgentConfig =
  ag_AgentID :: string
  ServerAddress :: string
  ag_Executors :: int
  ag_Labels :: "string list"
  Certificate :: string
  ag_Key :: string
  CACertificate :: string
  ag_WorkDir :: string
  HeartbeatInterval :: string

definition defaultHeartbeatInterval :: int where "defaultHeartbeatInterval = 30 * second"
definition maxHeartbeatInterval :: int where "maxHeartbeatInterval = 300 * second"

definition AgentDefaultConfig :: AgentConfig where
  "AgentDefaultConfig = \<lparr>ag_AgentID = '''', ServerAddress = '''', ag_Executors = 1, ag_Labels = [], Certificate = '''', ag_Key = '''',
     CACertificate = '''', ag_WorkDir = '''', HeartbeatInterval = ''''\<rparr>"

text \<open>\<open>dur\<close> is \<^verbatim>\<open>Duration.String\<close>.\<close>

definition HeartbeatTickInterval :: "(int \<Rightarrow> string) \<Rightarrow> AgentConfig \<Rightarrow> int res" where
  "HeartbeatTickInterval dur c =
     (if HeartbeatInterval c = '''' then Inr defaultHeartbeatInterval
      else case ParseDuration (HeartbeatInterval c) of
        None \<Rightarrow> Inl (Wrap (''parse heartbeat_interval '' @ quoted (HeartbeatInterval c)) (Msg ''time: invalid duration''))
      | Some d \<Rightarrow>
          if d \<le> 0 then Inl (Msg (''heartbeat_interval '' @ dur d @ '' must be positive''))
          else if d > maxHeartbeatInterval
          then Inl (Msg (''heartbeat_interval '' @ dur d @ '' exceeds maximum '' @ dur maxHeartbeatInterval))
          else Inr d)"

definition AgentValidate :: "(int \<Rightarrow> string) \<Rightarrow> AgentConfig \<Rightarrow> goerr option" where
  "AgentValidate dur c =
     (if ag_AgentID c = '''' then Some (Msg ''agent_id is required'')
      else if ServerAddress c = '''' then Some (Msg ''server_address is required'')
      else if ag_Executors c < 1 then Some (Msg (''executors must be >= 1, got '' @ Itoa (ag_Executors c)))
      else if Certificate c = '''' then Some (Msg ''certificate is required'')
      else if ag_Key c = '''' then Some (Msg ''key is required'')
      else if CACertificate c = '''' then Some (Msg ''ca_certificate is required'')
      else if ag_WorkDir c = '''' then Some (Msg ''work_dir is required'')
      else case HeartbeatTickInterval dur c of Inl e \<Rightarrow> Some e | Inr _ \<Rightarrow> None)"

definition AgentLoadConfig :: "(int \<Rightarrow> string) \<Rightarrow> (string \<Rightarrow> AgentConfig \<Rightarrow> AgentConfig option) \<Rightarrow> path \<Rightarrow> AgentConfig io" where
  "AgentLoadConfig dur dec p =
     bindIO (wrapIO ''agent.LoadConfig'' (os_ReadFile p)) (\<lambda>b.
       case dec b AgentDefaultConfig of
         None \<Rightarrow> raiseIO (Wrap (''agent.LoadConfig: parse '' @ path_string p) (Msg ''yaml''))
       | Some c \<Rightarrow> (case AgentValidate dur c of Some e \<Rightarrow> raiseIO (Wrap ''agent.LoadConfig'' e) | None \<Rightarrow> returnIO c))"

definition AgentSaveConfig :: "(AgentConfig \<Rightarrow> string) \<Rightarrow> AgentConfig \<Rightarrow> path \<Rightarrow> unit io" where
  "AgentSaveConfig enc c p =
     seqIO (wrapIO ''agent.Config.Save: mkdir'' (os_MkdirAll (butlast p)))
       (wrapIO ''agent.Config.Save: write'' (os_WriteFile p (enc c)))"

definition HasLabel :: "AgentConfig \<Rightarrow> string \<Rightarrow> bool" where
  "HasLabel c label \<longleftrightarrow> label = '''' \<or> list_ex (\<lambda>got. got = label) (ag_Labels c)"

section \<open>The client\<close>

text \<open>\<open>as_path\<close> reads a path of the settings file; the storage root of the client is its work directory.\<close>

record Client =
  cl_cfg :: AgentConfig
  cl_root :: path
  cl_version :: string

definition NewClient :: "(int \<Rightarrow> string) \<Rightarrow> (string \<Rightarrow> path) \<Rightarrow> AgentConfig option \<Rightarrow> Client io" where
  "NewClient dur as_path cfg =
     (case cfg of
        None \<Rightarrow> raiseIO (Msg ''agent.NewClient: nil Config'')
      | Some c \<Rightarrow> (case AgentValidate dur c of
          Some e \<Rightarrow> raiseIO (Wrap ''agent.NewClient'' e)
        | None \<Rightarrow> seqIO (wrapIO ''agent.NewClient: mkdir work_dir'' (os_MkdirAll (as_path (ag_WorkDir c))))
            (returnIO \<lparr>cl_cfg = c, cl_root = as_path (ag_WorkDir c), cl_version = ''dev''\<rparr>)))"

definition SetVersion :: "string \<Rightarrow> Client \<Rightarrow> Client" where
  "SetVersion v c = (if v = '''' then c else c\<lparr>cl_version := v\<rparr>)"

text \<open>The three files \<^verbatim>\<open>dial\<close> reads before it opens the connection.\<close>

definition dial_files :: "(string \<Rightarrow> path) \<Rightarrow> AgentConfig \<Rightarrow> (string \<times> string \<times> string) io" where
  "dial_files as_path c =
     bindIO (wrapIO (''read certificate '' @ Certificate c) (os_ReadFile (as_path (Certificate c)))) (\<lambda>cert.
     bindIO (wrapIO (''read key '' @ ag_Key c) (os_ReadFile (as_path (ag_Key c)))) (\<lambda>key.
     bindIO (wrapIO (''read ca_certificate '' @ CACertificate c) (os_ReadFile (as_path (CACertificate c)))) (\<lambda>ca.
       returnIO (cert, key, ca))))"

text \<open>\<^verbatim>\<open>Run\<close> up to its two loops: registration and the stream, as the service answers them.\<close>

definition agent_info :: "AgentConfig \<Rightarrow> AgentInfo" where
  "agent_info c = \<lparr>AgentId = ag_AgentID c, ai_Labels = ag_Labels c, Executors = int32 (ag_Executors c)\<rparr>"

definition agent_hello :: "AgentConfig \<Rightarrow> claimer option \<Rightarrow> Server \<Rightarrow> string res \<times> Server" where
  "agent_hello c cl s =
     (case Register cl (Some (agent_info c)) s of
        ((Inl (code, m), _), s1) \<Rightarrow> (Inl (Wrap ''agent.Run: Register'' (Msg m)), s1)
      | ((Inr (v, acc), _), s1) \<Rightarrow>
          if \<not> acc then (Inl (Msg (''agent.Run: server rejected agent '' @ quoted (ag_AgentID c))), s1)
          else (case connect_open (Some [(AgentIDMetadataKey, [ag_AgentID c])]) s1 of
              (Inl (code, m), s2) \<Rightarrow> (Inl (Wrap ''agent.Run: Connect'' (Msg m)), s2)
            | (Inr a, s2) \<Rightarrow> (Inr a, s2)))"

text \<open>A heartbeat: \<open>snap\<close> is what \<^verbatim>\<open>nodeinfo.Take\<close> returns, complete or not.\<close>

definition heartbeat :: "Client \<Rightarrow> NodeStatus \<Rightarrow> AgentMessage" where
  "heartbeat c snap = MsgHeartbeat (Some (snap\<lparr>AgentVersion := cl_version c\<rparr>))"

definition protoToStorageJob :: "JobAssignment \<Rightarrow> Job" where
  "protoToStorageJob a = (empty_job (ja_JobName a))\<lparr>Steps := map (\<lambda>s. \<lparr>step_Name = ps_Name s, Shell = ps_Shell s, step_Env = ps_Env s\<rparr>) (ja_Steps a)\<rparr>"

text \<open>\<^verbatim>\<open>runAssignment\<close>: the messages it sends, in order, and the agent's disk after it.\<close>

definition run_local :: "host \<Rightarrow> path \<Rightarrow> JobAssignment \<Rightarrow> world \<Rightarrow> run_state" where
  "run_local h root a w = Execute h \<lparr>le_root = root, le_onLog = True\<rparr> None (protoToStorageJob a) (ja_BuildNumber a) w"

definition log_message :: "chunk \<Rightarrow> AgentMessage" where
  "log_message c = (case c of (_, n, b) \<Rightarrow> MsgLog \<lparr>lc_BuildNumber = int32 n, lc_Data = b\<rparr>)"

definition complete_message :: "JobAssignment \<Rightarrow> BuildResult \<Rightarrow> BuildComplete" where
  "complete_message a r = \<lparr>bc_BuildNumber = ja_BuildNumber a, bc_Status = res_Status r, bc_ExitCode = int32 (ExitCode r), bc_Error = res_Error r\<rparr>"

definition runAssignment :: "host \<Rightarrow> path \<Rightarrow> JobAssignment \<Rightarrow> world \<Rightarrow> AgentMessage list \<times> world" where
  "runAssignment h root a w =
     (let t = run_local h root a w
      in (map log_message (rs_chunks t) @ [MsgComplete (complete_message a (rs_result t))], rs_world t))"

section \<open>Settings that load\<close>

lemma AgentValidate_usable:
  assumes "AgentValidate dur c = None"
  shows "0 < ag_Executors c \<and> ag_AgentID c \<noteq> '''' \<and> (\<exists>d. HeartbeatTickInterval dur c = Inr d \<and> 0 < d \<and> d \<le> maxHeartbeatInterval)"
proof -
  have "HeartbeatTickInterval dur c = Inr d \<Longrightarrow> 0 < d \<and> d \<le> maxHeartbeatInterval" for d
    by (auto simp: HeartbeatTickInterval_def defaultHeartbeatInterval_def maxHeartbeatInterval_def second_def split: if_splits option.splits)
  with assms show ?thesis by (auto simp: AgentValidate_def split: if_splits sum.splits)
qed

text \<open>
  A validated agent whose executor count fits 32 bits gets its stream, unless one is open under its name, and is then found
  by every label it declares that no agent served before.
\<close>

lemma agent_hello_accepted:
  assumes "AgentValidate dur c = None" "ag_Executors c < 2 ^ 31" "map_of (streams s) (ag_AgentID c) = None"
  shows "\<exists>s'. agent_hello c None s = (Inr (ag_AgentID c), s') \<and> map_of (agents s') (ag_AgentID c) = Some (agent_info c)
    \<and> (\<forall>label. HasLabel c label \<and> \<not> IsDisabled s (ag_AgentID c) \<longrightarrow> serves s' label (ag_AgentID c))"
proof -
  from AgentValidate_usable [OF assms(1)] have ok: "1 \<le> ag_Executors c" "ag_AgentID c \<noteq> ''''" by auto
  then have "int32 (ag_Executors c) = ag_Executors c" using assms(2) by (intro int32_id) auto
  with ok have reg: "Register None (Some (agent_info c)) s
      = ((Inr (version s, True), None), s\<lparr>agents := AList.update (ag_AgentID c) (agent_info c) (agents s)\<rparr>)"
    by (simp add: Register_def agent_info_def)
  have map: "map_of (AList.update k v al) k = Some v" for k :: string and v :: 'z and al by (simp add: update_conv')
  have "connect_open (Some [(AgentIDMetadataKey, [ag_AgentID c])]) (s\<lparr>agents := AList.update (ag_AgentID c) (agent_info c) (agents s)\<rparr>)
      = (Inr (ag_AgentID c), s\<lparr>agents := AList.update (ag_AgentID c) (agent_info c) (agents s),
          streams := AList.update (ag_AgentID c) \<lparr>st_info = agent_info c, st_send = [], st_ctxDone = False\<rparr> (streams s)\<rparr>)"
    using ok(2) assms(3) by (simp add: connect_open_def agentIDFromMetadata_def md_get_def map)
  with reg have "agent_hello c None s = (Inr (ag_AgentID c), s\<lparr>agents := AList.update (ag_AgentID c) (agent_info c) (agents s),
          streams := AList.update (ag_AgentID c) \<lparr>st_info = agent_info c, st_send = [], st_ctxDone = False\<rparr> (streams s)\<rparr>)"
    by (simp add: agent_hello_def)
  moreover have "(ag_AgentID c, \<lparr>st_info = agent_info c, st_send = [], st_ctxDone = False\<rparr>)
      \<in> set (AList.update (ag_AgentID c) \<lparr>st_info = agent_info c, st_send = [], st_ctxDone = False\<rparr> (streams s))"
    using map map_of_SomeD by fast
  ultimately show ?thesis
    by (auto simp: map serves_def IsDisabled_def HasLabel_def list_ex_iff agent_info_def)
qed

section \<open>A build on an agent\<close>

text \<open>What a build reports about itself.\<close>

definition reports :: "string \<Rightarrow> int \<Rightarrow> run_state \<Rightarrow> bool" where
  "reports name num s \<longleftrightarrow> JobName (rs_result s) = name \<and> Number (rs_result s) = num \<and> TriggeredBy (rs_result s) = None
     \<and> (\<forall>(j, n, b) \<in> set (rs_chunks s). j = name \<and> n = num)"

lemma tee_chunks: "(j, n, b) \<in> set (fst (tee_Write onlog job num p ss w)) \<Longrightarrow> j = job \<and> n = num"
  by (induction onlog job num p ss w rule: tee_Write.induct) (auto simp: Let_def split: prod.splits if_splits)

lemma after_run_reports:
  "JobName (fst (after_run rr r)) = JobName r" "Number (fst (after_run rr r)) = Number r" "TriggeredBy (fst (after_run rr r)) = TriggeredBy r"
  by (auto simp: after_run_def split: option.splits run_err.splits)

lemma run_steps_reports:
  "reports (Name job) num s \<Longrightarrow> reports (Name job) num (run_steps h e job num logPath workspace inputs i sts s)"
proof (induction h e job num logPath workspace inputs i sts s rule: run_steps.induct)
  case (2 h e job num logPath workspace inputs i st sts s)
  show ?case
  proof (cases "Shell st = ''''")
    case True
    with 2 show ?thesis by simp
  next
    case False
    define w1 where "w1 = log_lines logPath (step_header i st) (rs_world s)"
    define env where "env = process_env h (step_env h (le_root e) job num inputs st w1)"
    obtain rr w2 where rr: "sh h workspace env (Shell st) w1 = (rr, w2)" by fastforce
    obtain cs w3 where cs: "tee_Write (le_onLog e) (Name job) num logPath (rr_out rr) w2 = (cs, w3)" by fastforce
    obtain r msg leave where ar: "after_run rr (rs_result s) = (r, msg, leave)" by (metis prod_cases3)
    define s' where "s' = \<lparr>rs_result = r,
        rs_calls = rs_calls s @ [\<lparr>call_dir = workspace, call_env = env, call_script = Shell st, call_result = rr\<rparr>],
        rs_chunks = rs_chunks s @ cs, rs_world = log_lines logPath msg w3\<rparr>"
    have "reports (Name job) num s'"
      using 2(3) tee_chunks [of _ _ _ "le_onLog e" "Name job" num logPath "rr_out rr" w2] after_run_reports [of rr "rs_result s"]
      by (auto simp: reports_def s'_def cs ar)
    moreover have "run_steps h e job num logPath workspace inputs i (st # sts) s
        = (if leave then s' else run_steps h e job num logPath workspace inputs (Suc i) sts s')"
      using False by (simp add: w1_def [symmetric] env_def [symmetric] rr cs ar s'_def Let_def)
    ultimately show ?thesis
      using 2(2) [OF False w1_def env_def refl rr [symmetric] refl cs [symmetric] refl ar [symmetric] refl s'_def] by simp
  qed
qed simp

lemma collect_reports:
  "JobName (fst (collect h job d ws lp r w)) = JobName r" "Number (fst (collect h job d ws lp r w)) = Number r"
  "TriggeredBy (fst (collect h job d ws lp r w)) = TriggeredBy r"
  by (auto simp: collect_def Let_def split: sum.splits prod.splits option.splits)

lemma finish_reports: "reports name num s \<Longrightarrow> reports name num (finish h job d ws lp s)"
  using collect_reports [of h job d ws lp "rs_result s" "rs_world s"]
  by (auto simp: finish_def reports_def Let_def split: prod.splits sum.splits)

lemma Execute_reports: "reports (Name job) num (Execute h e None job num w)"
  unfolding Execute_def Let_def
  by (auto simp: fail_early_def reports_def [of _ _ "\<lparr>rs_result = _, rs_calls = [], rs_chunks = [], rs_world = _\<rparr>"]
      intro!: finish_reports run_steps_reports split: sum.splits prod.splits)

text \<open>A build depends on its job through the name, the two environments, the steps and the downstream triggers.\<close>

lemma run_steps_cong:
  assumes "Name j = Name job" "Env j = Env job" "job_BuildEnv j = job_BuildEnv job"
  shows "run_steps h e j num lp ws inputs i sts s = run_steps h e job num lp ws inputs i sts s"
proof -
  have "step_env h r j num inputs st w = step_env h r job num inputs st w" for r st w
    unfolding step_env_def step_base_def step_overlay_def assms ..
  then show ?thesis
    using assms(1) by (induction h e j num lp ws inputs i sts s rule: run_steps.induct) (auto simp: Let_def split: prod.splits)
qed

lemma Execute_cong:
  assumes "Name j = Name job" "Env j = Env job" "job_BuildEnv j = job_BuildEnv job" "Steps j = Steps job" "TriggersDownstream j = TriggersDownstream job"
  shows "Execute h e parent j num w = Execute h e parent job num w"
proof -
  have fin: "finish h j d ws lp s = finish h job d ws lp s" for d ws lp s
    unfolding finish_def collect_def declared_def assms(5) ..
  show ?thesis unfolding Execute_def run_steps_cong [OF assms(1-3)] fin assms(1,4) ..
qed

lemma assignment_steps:
  "Name (protoToStorageJob (jobToProto job num)) = Name job" "Steps (protoToStorageJob (jobToProto job num)) = Steps job"
  "Env (protoToStorageJob (jobToProto job num)) = []" "job_BuildEnv (protoToStorageJob (jobToProto job num)) = None"
  "TriggersDownstream (protoToStorageJob (jobToProto job num)) = []"
  by (simp_all add: protoToStorageJob_def jobToProto_def empty_job_def map_idI)

text \<open>The receive loop of the server over a sequence of messages: the state after it and what the log sink was given.\<close>

fun feed :: "int \<Rightarrow> string \<Rightarrow> AgentMessage list \<Rightarrow> Server \<Rightarrow> (Server \<times> (string \<times> int \<times> string) list) option" where
  "feed now a [] s = Some (s, [])"
| "feed now a (m # ms) s =
     (case recv_msg now True a m s of
        None \<Rightarrow> None
      | Some (s1, c) \<Rightarrow> map_option (\<lambda>(s2, cs). (s2, (case c of None \<Rightarrow> cs | Some x \<Rightarrow> x # cs))) (feed now a ms s1))"

lemma feed_logs:
  assumes "\<forall>(j, n, b) \<in> set cs. int32 n = num" "map_of (pending s) (a, num) = Some af"
  shows "feed now a (map log_message cs @ ms) s = map_option (\<lambda>(s', out). (s', map (\<lambda>(_, _, b). (af_jobName af, num, b)) cs @ out)) (feed now a ms s)"
  using assms by (induction cs) (auto simp: log_message_def recv_msg_def lookupJobName_def option.map_comp comp_def case_prod_unfold option.map_ident)

text \<open>
  C39. A build on an agent is the build of its steps. When the router still waits for it, no send fails and no other message of the agent
  comes in between, the assignment the router makes of a job, run by the agent and reported over the stream, hands the server's log sink every chunk of output under the job's name and number, in order, and leaves in the channel of the
  waiting router one completion; the result the router makes of it is that of the local executor on the agent's disk, run on
  the job stripped to its name and steps, with the exit code at 32 bits; for a job without variables, environment options and downstream triggers
  that is the build of the job itself.
\<close>

theorem remote_build:
  assumes "- (2 ^ 31) \<le> num" "num < 2 ^ 31" "runAssignment h root (jobToProto job num) w = (msgs, w')"
    and "map_of (pending s) (a, num) = Some af" "af_jobName af = Name job" "af_done af < length (dones s)" "dones s ! af_done af = []"
  defines "t \<equiv> Execute h \<lparr>le_root = root, le_onLog = True\<rparr> None (protoToStorageJob (jobToProto job num)) num w"
  shows "w' = rs_world t
    \<and> (\<exists>s' bc. feed now a msgs s = Some (s', map (\<lambda>(_, _, b). (Name job, num, b)) (rs_chunks t))
         \<and> dones s' ! af_done af = [bc] \<and> map_of (pending s') (a, num) = None
         \<and> protoToBuildResult bc (Name job) = (rs_result t)\<lparr>ExitCode := int32 (ExitCode (rs_result t))\<rparr>)
    \<and> (Env job = [] \<and> job_BuildEnv job = None \<and> TriggersDownstream job = [] \<longrightarrow>
         t = Execute h \<lparr>le_root = root, le_onLog = True\<rparr> None job num w)"
proof -
  have n: "int32 num = num" using assms(1,2) by (rule int32_id)
  let ?bc = "complete_message (jobToProto job num) (rs_result t)"
  let ?s = "(recordCompletion ?bc s)\<lparr>pending := AList.delete (a, num) (pending s), dones := (dones s)[af_done af := [?bc]]\<rparr>"
  have rl: "run_local h root (jobToProto job num) w = t" by (simp add: run_local_def t_def jobToProto_def n)
  have msgs: "msgs = map log_message (rs_chunks t) @ [MsgComplete ?bc]" "w' = rs_world t"
    using assms(3) by (auto simp: runAssignment_def rl Let_def)
  have rep: "reports (Name job) num t" using Execute_reports [of "protoToStorageJob (jobToProto job num)"] by (simp add: t_def assignment_steps)
  have chunks: "\<forall>(j, k, b) \<in> set (rs_chunks t). int32 k = num" using rep n by (auto simp: reports_def)
  have fin: "feed now a [MsgComplete ?bc] s = Some (?s, [])"
    using assms(4,6,7) by (simp add: recv_msg_def deliverCompletion_def recordCompletion_def complete_message_def jobToProto_def n Let_def)
  have "feed now a msgs s = Some (?s, map (\<lambda>(_, _, b). (Name job, num, b)) (rs_chunks t))"
    unfolding msgs(1) feed_logs [OF chunks assms(4)] fin by (simp add: assms(5))
  moreover have "protoToBuildResult ?bc (Name job) = (rs_result t)\<lparr>ExitCode := int32 (ExitCode (rs_result t))\<rparr>"
    using rep by (cases "rs_result t") (simp add: protoToBuildResult_def complete_message_def jobToProto_def n reports_def)
  moreover have "dones ?s ! af_done af = [?bc]" "map_of (pending ?s) (a, num) = None"
    using assms(6) by (simp_all add: recordCompletion_def delete_conv')
  moreover have "Env job = [] \<and> job_BuildEnv job = None \<and> TriggersDownstream job = [] \<longrightarrow>
         t = Execute h \<lparr>le_root = root, le_onLog = True\<rparr> None job num w"
    unfolding t_def by (auto intro!: Execute_cong simp: assignment_steps)
  ultimately show ?thesis using msgs(2) by blast
qed

section \<open>Assignments side by side\<close>

text \<open>
  The client: the receive loop starts a goroutine for every assignment, whatever their number; a goroutine runs its build and sends its
  messages, here in one step; heartbeats go out at any time.
\<close>

record agent_proc =
  ap_disk :: world
  ap_inbox :: "JobAssignment list"
  ap_running :: "JobAssignment list"
  ap_out :: "AgentMessage list"

datatype agent_event = Received JobAssignment | Worked JobAssignment | Beat NodeStatus

inductive agent_step :: "host \<Rightarrow> path \<Rightarrow> Client \<Rightarrow> agent_proc \<Rightarrow> agent_event \<Rightarrow> agent_proc \<Rightarrow> bool" for h root c where
  step_Received: "ap_inbox p = a # rest \<Longrightarrow>
     agent_step h root c p (Received a) (p\<lparr>ap_inbox := rest, ap_running := ap_running p @ [a]\<rparr>)"
| step_Worked: "ap_running p = xs @ a # ys \<Longrightarrow> runAssignment h root a (ap_disk p) = (msgs, w) \<Longrightarrow>
     agent_step h root c p (Worked a) (p\<lparr>ap_disk := w, ap_running := xs @ ys, ap_out := ap_out p @ msgs\<rparr>)"
| step_Beat: "agent_step h root c p (Beat snap) (p\<lparr>ap_out := ap_out p @ [heartbeat c snap]\<rparr>)"

inductive_cases agent_stepE: "agent_step h root c p e q"

definition completes :: "AgentMessage list \<Rightarrow> BuildComplete list" where
  "completes ms = List.map_filter (\<lambda>m. case m of MsgComplete b \<Rightarrow> Some b | _ \<Rightarrow> None) ms"

lemma completes_simps [simp]:
  "completes [] = []" "completes (ms @ ns) = completes ms @ completes ns" "completes [MsgComplete b] = [b]" "completes [heartbeat c snap] = []"
  "completes (map log_message cs) = []"
  by (auto simp: completes_def map_filter_def log_message_def heartbeat_def split: prod.splits)

definition answered :: "agent_proc \<Rightarrow> int multiset" where
  "answered p = mset (map bc_BuildNumber (completes (ap_out p))) + mset (map ja_BuildNumber (ap_running p)) + mset (map ja_BuildNumber (ap_inbox p))"

lemma answered_step: "agent_step h root c p e q \<Longrightarrow> answered q = answered p"
  by (erule agent_stepE) (auto simp: answered_def runAssignment_def Let_def complete_message_def)

definition started :: "agent_event \<Rightarrow> JobAssignment list" where
  "started e = (case e of Received a \<Rightarrow> [a] | _ \<Rightarrow> [])"

interpretation aq: fifo_system "agent_step h root c" ap_inbox "\<lambda>_. []" started for h root c
  by unfold_locales (erule agent_stepE; simp add: started_def)

interpretation ab: budget_system "agent_step h root c" "\<lambda>_ p. answered p = m" for h root c m
  by unfold_locales (simp add: answered_step)

text \<open>
  Every assignment is started in the order of the stream and answered once: what has been answered, what is running and what still
  waits make up what was sent.
\<close>

theorem agent_answers_once:
  assumes "runs (agent_step h root c) p tr q"
  shows "answered q = answered p \<and> ap_inbox p = concat (map started tr) @ ap_inbox q"
  using ab.inv_runs [OF assms, where m = "answered p"] aq.fifo_runs [OF assms] by (simp add: concat_eq_Nil_conv [THEN iffD2])

text \<open>The executor count bounds nothing: any number of assignments run at the same time.\<close>

lemma executors_unenforced:
  "ap_inbox p = as \<Longrightarrow> runs (agent_step h root c) p (map Received as) (p\<lparr>ap_inbox := [], ap_running := ap_running p @ as\<rparr>)"
proof (induction as arbitrary: p)
  case (Cons a as)
  from Cons.prems have s: "agent_step h root c p (Received a) (p\<lparr>ap_inbox := as, ap_running := ap_running p @ [a]\<rparr>)" by (rule step_Received)
  from Cons.IH [of "p\<lparr>ap_inbox := as, ap_running := ap_running p @ [a]\<rparr>"] s show ?case by (auto intro: exI)
qed (cases p; simp)

section \<open>Evaluated instances\<close>

definition demo_pending_server :: Server where
  "demo_pending_server = (newServer ''1'')\<lparr>pending := [((''a'', 1), \<lparr>af_jobName = ''app'', af_done = 0\<rparr>)], dones := [[]]\<rparr>"

theorem remote_build_witness:
  "\<exists>s' cs bc. feed 0 ''a'' (fst (runAssignment demo_host demo_root (jobToProto demo_steps 1) demo_world)) demo_pending_server = Some (s', cs)
     \<and> dones s' ! 0 = [bc] \<and> res_Status (protoToBuildResult bc ''app'') = StatusFailure"
proof -
  have n: "Name demo_steps = ''app''" by (simp add: demo_steps_def empty_job_def)
  have st: "res_Status (rs_result (Execute demo_host \<lparr>le_root = demo_root, le_onLog = True\<rparr> None (protoToStorageJob (jobToProto demo_steps 1)) 1 demo_world)) = StatusFailure"
    by code_simp
  show ?thesis
    using remote_build [where num = 1 and h = demo_host and root = demo_root and job = demo_steps and w = demo_world and s = demo_pending_server
        and a = "''a''" and af = "\<lparr>af_jobName = ''app'', af_done = 0\<rparr>" and now = 0, OF _ _ surjective_pairing] st
    by (auto simp: demo_pending_server_def n newServer_def)
qed

end
