(* ===== verification/Spec2Isabelle.thy ===== *)
theory Spec2Isabelle
  imports Cascade Matrix Retention Ghprb CredStore Authz AgentRun ScriptTotal Router ScriptSafe EvalFuel Parallel Quirks ExecDecl AgentProc
begin

text \<open>
  wolfCI, a continuous integration server in Go: a verification library for its core. This theory gathers the others; each opens with what it
  holds.

  \<^bold>\<open>The program.\<close> Job specifications are YAML files under \<^verbatim>\<open>jobs/\<close> (\<^verbatim>\<open>internal/storage\<close>). The scheduler (\<^verbatim>\<open>internal/scheduler\<close>) gives every
  enqueued job a build number from a counter file, keeps a queue, runs the builds one at a time through an executor, stores and sends the result, and
  enqueues the jobs a successful build triggers. The executor is local (a shell per step) or a router that sends the build to a connected agent
  (\<^verbatim>\<open>internal/agentsvc\<close>) or to a machine it asks a provisioner for. Builds also come from pull requests (\<^verbatim>\<open>internal/ghprb\<close>) and from a matrix of axes;
  old ones are removed by \<^verbatim>\<open>internal/retention\<close>. Secrets are sealed files (\<^verbatim>\<open>internal/credstore\<close>), access is a matrix of roles (\<^verbatim>\<open>internal/authz\<close>). A
  Jenkins-like pipeline is lexed, parsed and interpreted by \<^verbatim>\<open>internal/pipeline\<close>, with a library of steps. People use the web server
  (\<^verbatim>\<open>internal/server\<close>) after signing in with a password (\<^verbatim>\<open>internal/auth\<close>); agents are processes of their own (\<^verbatim>\<open>internal/agent\<close>).

  \<^bold>\<open>Ground.\<close> \<open>Prelude\<close>: Go's errors, strings, decimal numbers and integers of 64 bits, paths, association lists for Go maps, sequences of events, and three
  interfaces of transition systems (below). \<open>GoFs\<close>: the calls of package \<^verbatim>\<open>os\<close> over a file system with an oracle for faults and torn writes; a
  computation is \<open>world \<Rightarrow> 'a res \<times> world\<close>. Libraries that are not in the repository (YAML, JSON, wolfSSL, the shell, HTTP, gRPC, regular expressions,
  \<^verbatim>\<open>filepath.Match\<close>) are parameters, as codecs, functions or records of functions; what is assumed of them is a hypothesis of the theorem that needs it.

  \<^bold>\<open>Jobs and builds.\<close> \<open>JobSpec\<close>, \<open>TriggerGraph\<close> and \<open>Storage\<close> are the store: one record per Go struct, one function per operation; the invariant \<open>store_ok\<close>
  (specs named as their directories, trigger graph acyclic) holds across a \<open>SaveJob\<close> of a plain name, and the depth-first search is proved against paths. \<open>Scheduler\<close> has the
  operations of \<^verbatim>\<open>scheduler.go\<close>; \<open>SchedRun\<close> interleaves them, a step being one critical section, and shows that builds are unique, dispatched in the order of their
  numbers' appending, delivered, and that no send blocks. \<open>Cascade\<close> joins store and scheduler: the fan-out of a build ends, and does not when a trigger name is an alias the cycle check cannot see. \<open>Matrix\<close>, \<open>Retention\<close>, \<open>Ghprb\<close> are
  the files of those names. \<open>LocalExec\<close> is \<^verbatim>\<open>local.go\<close> (log, layers of environment, step loop, artifacts, result), and refines the executor the scheduler's steps are over;
  \<open>Router\<close> is \<^verbatim>\<open>router.go\<close>.

  \<^bold>\<open>Agents and access.\<close> \<open>AgentSvc\<close> has the handlers of \<^verbatim>\<open>internal/agentsvc\<close>, \<open>AgentRun\<close> their interleavings with any number of waiting submissions.
  \<open>PendingAgent\<close>, \<open>CredStore\<close>, \<open>Authz\<close> are the files of those names; \<open>AtomicFile\<close> is the replacement of a file through a temporary one. \<open>AgentProc\<close> is the
  agent's side, \<^verbatim>\<open>internal/agent\<close>: its settings, its registration, and the run of an assignment with the messages it sends, which the server's handlers turn back
  into the result of the local executor.

  \<^bold>\<open>The web server.\<close> \<open>Auth\<close> is \<^verbatim>\<open>internal/auth\<close> with the wolfCrypt calls it makes: the password file and its check, SSH keys and signatures. \<open>Session\<close> is
  \<^verbatim>\<open>session.go\<close>: tokens, their files and their life. \<open>JobForm\<close> is \<^verbatim>\<open>jobform_builder.go\<close> and the browser's encoding of the template's controls, with what a form keeps
  and what it loses. \<open>WebViews\<close> has the data of the pages (history, permalinks, paging, trigger relations), \<open>WebBase\<close> the options, the state \<open>web\<close> (scheduler and agent
  registry, one disk) and the responses, \<open>WebJobs\<close> the job pages and the workspace browser, \<open>WebWork\<close> their theorems, \<open>WebNodes\<close> the node pages, \<open>WebServer\<close> sign-in, routes
  and the middleware. A handler is a function from options, request and state to response and state; a page is the data its template is executed with, a
  redirect the address handed to \<^verbatim>\<open>http.Redirect\<close>. The multiplexer of \<^verbatim>\<open>net/http\<close> is modelled for the requests it dispatches. \<open>session_gate\<close>, \<open>request_effects\<close> and
  \<open>login_session\<close> say what a request can see and do; \<open>disk_only\<close>, \<open>pure_read\<close> and \<open>tame\<close> are the compositional rules behind them. Symbolic links are a parameter
  (\<open>opt_resolve\<close>): only the workspace browser reads directories that a build fills, so only it follows them here, and \<open>workspace_confined\<close> states what it needs of them. \<open>Setup\<close> is
  the rest of the directory: configuration, the first administrator's token and page, and the dispatcher, with the wiring of \<^verbatim>\<open>cmd/wolfci\<close>.

  \<^bold>\<open>Pipelines.\<close> \<open>Lexer\<close>: the scanners, proved equivalent to a declarative description of the tokens of a text. \<open>DeclParser\<close>, \<open>ScriptParser\<close>: every production;
  a cursor is the list of tokens that are left. \<open>ScriptTotal\<close>: they return on every input, and which errors have no position. \<open>ScriptRt\<close>, \<open>StepLib\<close>, \<open>Interp\<close> are the interpreter: values, scopes and the
  runtime of \<^verbatim>\<open>exec_script.go\<close> (\<open>rt\<close> is \<^verbatim>\<open>scriptRuntime\<close>, \<open>seams\<close> the fields of its executor and the outside world), one definition per step of
  \<^verbatim>\<open>steps_*.go\<close>, and \<open>evalExpr\<close>, \<open>evalStmt\<close>, \<open>invokeClosure\<close>, \<open>evalScriptBlock\<close>. Lists, maps and scopes are pointers in Go, so they are addresses in a heap. \<open>ScriptSafe\<close>:
  what every run keeps. \<open>EvalFuel\<close>: more fuel changes no result. \<open>Parallel\<close>: the \<^verbatim>\<open>parallel\<close> step, and the secret stack under interleaving. \<open>Quirks\<close>: three places where the
  interpreter departs from its intent. \<open>ExecDecl\<close>: \<^verbatim>\<open>exec_declarative.go\<close>, from parsed stages to the verdict of a build. \<open>ScriptDemo\<close>: a small
  installation the interpreter's theorems are applied to.

  \<^bold>\<open>Interfaces.\<close> \<open>budget_system\<close>, \<open>naming_system\<close> and \<open>fifo_system\<close> (steps that keep an invariant, hand out fresh names, move a queue) are interpreted on the scheduler's steps
  (\<open>sc\<close>, \<open>sn\<close>, \<open>sq\<close>), the first and the last also on the agent's (\<open>ab\<close>, \<open>aq\<close>). \<open>atomic_writer\<close> is interpreted on the credential store's writer and on the ledger's (\<open>cred\<close>, \<open>led\<close>), \<open>knotted\<close> on the tied productions of the script
  parser (\<open>tie\<close>), \<open>part_runner\<close> on the steps of a stage and on the stages of a build (\<open>steps\<close>, \<open>stages\<close>). \<open>eval_inv\<close> lists what the primitive steps of the
  interpreter owe to an invariant, a relation of runtimes and a condition on values; \<open>eval_calls\<close> adds the recursive calls. Interpreted four times (\<open>scoped\<close>, \<open>heap\<close>, \<open>log\<close>,
  \<open>verdict\<close>), it gives the four safety theorems of \<open>ScriptSafe\<close>. \<open>below_calls\<close>, on two neighbouring levels of the evaluator (\<open>more_fuel\<close>), gives monotonicity.

  \<^bold>\<open>Fuel.\<close> The parsers take fuel that grows with the number of tokens; \<open>Parse_total\<close> and \<open>ParseScript_total\<close> show that it never runs out. A script may loop, so the
  evaluator at level \<open>n\<close> has no result when \<open>n\<close> is too small, and \<open>fuel_irrelevant\<close> makes the result independent of the level; that a script does not return is the statement that it
  has none at any level (\<open>echo_currentBuild_diverges\<close>). The scheduler's loops end by a measure on the trigger graph.

  \<^bold>\<open>Not modelled.\<close> TLS, cloud provisioning, node information, SCM loading, GitHub status, the CLI service, plugins and the command-line tools: input and output over the
  modelled parts, or calls into C and remote services. Of the modelled parts: the HTML of the templates, the loop of the log stream, the goroutines that serve an ssh-agent
  socket, the gRPC transport, tickers and timers, and the bindings to wolfSSL beyond their return codes. Requests of the web server and of the set-up page run one after another
  (\<open>raced_token_registers_two\<close> is what two overlapping submissions do), \<^verbatim>\<open>EnqueueMatrix\<close> is one call without others in between, and a completion is looked up and sent in one step.
  Branches of \<^verbatim>\<open>parallel\<close> run one after the other in the interpreter, so the theorems of \<open>ScriptSafe\<close> hold for branches that do not overlap; what overlapping branches do to the
  secret stack is interleaved in \<open>Parallel\<close> (\<open>overlap_leaks\<close>). Letter case, white space and quoting are those of ASCII text. The map iterations whose order Go leaves
  open are lists in the order they are ranged over.

  \<^bold>\<open>Plan.\<close> The log stream, the CLI service, and the rest of the scheduler's life cycle.
\<close>

end
